(* ===== verification/F64.thy ===== *)
theory F64
  imports Prelude "HOL-Library.Log_Nat"
begin

text \<open>
  Rust's \<open>f64\<close> as the code uses it: IEEE 754 binary64 values, their comparisons
  (every comparison with a NaN is false), addition and subtraction rounded to nearest,
  ties to even, the conversions \<open>n as f64\<close> and the saturating \<open>x as i64\<close>. The two
  zeros are one value: no comparison or sum can tell them apart.
\<close>

section \<open>Values and comparisons\<close>

datatype f64 = NaN | PInf | NInf | Fin rat

instantiation f64 :: ord
begin

fun less_eq_f64 :: "f64 \<Rightarrow> f64 \<Rightarrow> bool" where
  "less_eq_f64 NaN y = False"
| "less_eq_f64 x NaN = False"
| "less_eq_f64 NInf y = True"
| "less_eq_f64 x PInf = True"
| "less_eq_f64 (Fin a) (Fin b) = (a \<le> b)"
| "less_eq_f64 PInf y = False"
| "less_eq_f64 (Fin a) NInf = False"

definition less_f64 :: "f64 \<Rightarrow> f64 \<Rightarrow> bool" where
  "less_f64 x y = (x \<le> y \<and> \<not> y \<le> x)"

instance ..

end

definition f64_finite :: "f64 \<Rightarrow> bool" where
  "f64_finite x \<longleftrightarrow> (case x of Fin q \<Rightarrow> True | _ \<Rightarrow> False)"

lemma f64_le_Fin [simp]: "Fin a \<le> Fin b \<longleftrightarrow> a \<le> b"
  by simp

lemma f64_less_Fin [simp]: "Fin a < Fin b \<longleftrightarrow> a < b"
  by (auto simp: less_f64_def)

lemma f64_NaN_incomparable [simp]: "\<not> NaN \<le> x" "\<not> x \<le> NaN" "\<not> NaN < x" "\<not> x < NaN"
  by (cases x; simp add: less_f64_def)+

lemma f64_finite_simps [simp]:
  "f64_finite (Fin q)" "\<not> f64_finite NaN" "\<not> f64_finite PInf" "\<not> f64_finite NInf"
  by (simp_all add: f64_finite_def)

lemma f64_le_trans: "(x :: f64) \<le> y \<Longrightarrow> y \<le> z \<Longrightarrow> x \<le> z"
  by (cases x; cases y; cases z) auto

lemma f64_not_less: "x \<noteq> NaN \<Longrightarrow> y \<noteq> NaN \<Longrightarrow> \<not> x < y \<longleftrightarrow> (y :: f64) \<le> x"
  by (cases x; cases y) (auto simp: less_f64_def)

section \<open>Rounding\<close>

definition pow2 :: "int \<Rightarrow> rat" where
  "pow2 e = (if 0 \<le> e then 2 ^ nat e else 1 / 2 ^ nat (- e))"

text \<open>The exponent of a positive rational: \<open>pow2 (ilog2 q) \<le> q < pow2 (ilog2 q + 1)\<close>.\<close>

definition ilog2 :: "rat \<Rightarrow> int" where
  "ilog2 q = (let (n, d) = quotient_of q; e = bitlen n - bitlen d
     in if pow2 e \<le> q then e else e - 1)"

definition round_even :: "rat \<Rightarrow> int" where
  "round_even q = (let f = \<lfloor>q\<rfloor>; r = q - of_int f
     in if r < 1 / 2 then f else if 1 / 2 < r then f + 1
        else if even f then f else f + 1)"

text \<open>Round to 53 significant bits (fewer below the normal range), overflow to infinity.\<close>

definition f64_round :: "rat \<Rightarrow> f64" where
  "f64_round q =
     (if q = 0 then Fin 0
      else let k = max (ilog2 \<bar>q\<bar> - 52) (- 1074);
               v = of_int (round_even (\<bar>q\<bar> / pow2 k)) * pow2 k
           in if 2 ^ 1024 \<le> v then (if 0 < q then PInf else NInf)
              else Fin (if 0 < q then v else - v))"

definition f64_of_int :: "int \<Rightarrow> f64" where
  "f64_of_int n = f64_round (of_int n)"

instantiation f64 :: "{plus, minus}"
begin

fun plus_f64 :: "f64 \<Rightarrow> f64 \<Rightarrow> f64" where
  "plus_f64 (Fin a) (Fin b) = f64_round (a + b)"
| "plus_f64 NaN y = NaN"
| "plus_f64 x NaN = NaN"
| "plus_f64 PInf NInf = NaN"
| "plus_f64 NInf PInf = NaN"
| "plus_f64 PInf y = PInf"
| "plus_f64 x PInf = PInf"
| "plus_f64 NInf y = NInf"
| "plus_f64 x NInf = NInf"

fun minus_f64 :: "f64 \<Rightarrow> f64 \<Rightarrow> f64" where
  "minus_f64 (Fin a) (Fin b) = f64_round (a - b)"
| "minus_f64 NaN y = NaN"
| "minus_f64 x NaN = NaN"
| "minus_f64 PInf PInf = NaN"
| "minus_f64 NInf NInf = NaN"
| "minus_f64 PInf y = PInf"
| "minus_f64 x PInf = NInf"
| "minus_f64 NInf y = NInf"
| "minus_f64 x NInf = PInf"

instance ..

end

text \<open>\<open>x as i64\<close>: truncation towards zero, saturating, and 0 for a NaN.\<close>

definition rat_trunc :: "rat \<Rightarrow> int" where
  "rat_trunc q = (if 0 \<le> q then \<lfloor>q\<rfloor> else - \<lfloor>- q\<rfloor>)"

definition f64_to_i64 :: "f64 \<Rightarrow> i64" where
  "f64_to_i64 x = (case x of NaN \<Rightarrow> 0 | PInf \<Rightarrow> i64_max | NInf \<Rightarrow> i64_min
     | Fin q \<Rightarrow> max i64_min (min i64_max (rat_trunc q)))"

section \<open>Integers up to \<open>2\<^sup>5\<^sup>3\<close> are exact\<close>

text \<open>The integers a verifier's clock, ages and leeways take are exact as \<open>f64\<close>.\<close>

definition f64_exact :: "int \<Rightarrow> bool" where
  "f64_exact n \<longleftrightarrow> \<bar>n\<bar> \<le> 2 ^ 53"

lemma round_even_of_int [simp]: "round_even (of_int n) = n"
  by (simp add: round_even_def)

lemma pow2_ilog2_of_int:
  assumes "0 < n"
  shows "pow2 (ilog2 (of_int n)) \<le> of_int n"
proof -
  have b: "2 ^ nat (bitlen n - 1) \<le> n" using bitlen_bounds [OF assms] by simp
  have "0 \<le> bitlen n - 1"
    using bitlen_nonneg [of n] bitlen_eq_zero_iff [of n] assms by linarith
  with b have "pow2 (bitlen n - 1) \<le> (of_int n :: rat)"
    by (simp add: pow2_def)
  moreover have "bitlen 1 = 1" by (simp add: bitlen_alt_def)
  ultimately show ?thesis by (simp add: ilog2_def Let_def)
qed

lemma f64_round_of_int:
  assumes "f64_exact n"
  shows "f64_round (of_int n) = Fin (of_int n)"
proof (cases "n = 0")
  case True
  then show ?thesis by (simp add: f64_round_def)
next
  case False
  let ?a = "\<bar>n\<bar>"
  let ?e = "ilog2 (of_int ?a)"
  let ?k = "max (?e - 52) (- 1074)"
  have a: "0 < ?a" "?a \<le> 2 ^ 53" using False assms by (simp_all add: f64_exact_def)
  have lo: "pow2 ?e \<le> of_int ?a" using pow2_ilog2_of_int [OF a(1)] .
  have hi: "(of_int ?a :: rat) \<le> 2 ^ 53"
    using a(2) by (metis of_int_le_iff of_int_numeral of_int_power)
  have e53: "?e \<le> 53"
  proof (rule ccontr)
    assume "\<not> ?e \<le> 53"
    then have "(2 :: rat) ^ 53 < 2 ^ nat ?e" by (intro power_strict_increasing) auto
    with lo hi \<open>\<not> ?e \<le> 53\<close> show False by (simp add: pow2_def)
  qed
  have "\<exists>m. (of_int ?a :: rat) / pow2 ?k = of_int m"
  proof (cases "?k \<le> 0")
    case True
    then have "(of_int ?a :: rat) / pow2 ?k = of_int (?a * 2 ^ nat (- ?k))"
      by (auto simp: pow2_def max_def)
    then show ?thesis by blast
  next
    case False
    with e53 have "?e = 53" by linarith
    with lo hi have "(of_int ?a :: rat) = 2 ^ 53" by (simp add: pow2_def)
    with \<open>?e = 53\<close> have "(of_int ?a :: rat) / pow2 ?k = of_int (2 ^ 52)"
      by (simp add: pow2_def)
    then show ?thesis by blast
  qed
  then obtain m where m: "(of_int ?a :: rat) / pow2 ?k = of_int m" by blast
  have "pow2 ?k \<noteq> 0" by (simp add: pow2_def)
  with m have "of_int m * pow2 ?k = (of_int ?a :: rat)" by (simp add: field_simps)
  then have v: "of_int (round_even (of_int ?a / pow2 ?k)) * pow2 ?k = (of_int ?a :: rat)"
    unfolding m by simp
  have "(of_int ?a :: rat) < 2 ^ 1024" using hi by (rule order.strict_trans1) simp
  then show ?thesis
    using False v by (auto simp: f64_round_def Let_def abs_if split: if_splits)
qed

lemma f64_of_int_exact [simp]: "f64_exact n \<Longrightarrow> f64_of_int n = Fin (of_int n)"
  by (simp add: f64_of_int_def f64_round_of_int)

lemma f64_minus_exact [simp]:
  "f64_exact (a - b) \<Longrightarrow> Fin (of_int a) - Fin (of_int b) = Fin (of_int (a - b))"
  using f64_round_of_int [of "a - b"] by simp

lemma f64_plus_exact [simp]:
  "f64_exact (a + b) \<Longrightarrow> Fin (of_int a) + Fin (of_int b) = Fin (of_int (a + b))"
  using f64_round_of_int [of "a + b"] by simp

lemma f64_to_i64_of_int: "i64_ok n \<Longrightarrow> f64_to_i64 (Fin (of_int n)) = n"
  by (auto simp: f64_to_i64_def rat_trunc_def i64_ok_def)

lemma f64_to_i64_ok: "i64_ok (f64_to_i64 x)"
  by (auto simp: f64_to_i64_def i64_ok_def i64_min_def i64_max_def split: f64.splits)

lemma f64_to_i64_bounds:
  assumes "of_int a \<le> q" and "q \<le> of_int b" and "i64_ok a" and "i64_ok b"
  shows "a \<le> f64_to_i64 (Fin q)" and "f64_to_i64 (Fin q) \<le> b"
proof -
  have "a \<le> rat_trunc q \<and> rat_trunc q \<le> b"
  proof (cases "0 \<le> q")
    case True
    with assms(1,2) show ?thesis by (simp add: rat_trunc_def) linarith
  next
    case False
    with assms(1,2) show ?thesis
      by (simp add: rat_trunc_def) linarith
  qed
  with assms(3,4) show "a \<le> f64_to_i64 (Fin q)" "f64_to_i64 (Fin q) \<le> b"
    by (auto simp: f64_to_i64_def i64_ok_def)
qed

end
