(* ===== verification/Json.thy ===== *)
theory Json
  imports F64
begin

text \<open>
  The \<open>serde_json::Value\<close> type the crates pattern-match on, with the accessors they
  call. A \<open>Map<String, Value>\<close> is serde\_json's default \<open>BTreeMap\<close>: an association
  list in strictly ascending key order (byte order of the UTF-8 keys), which is also its
  iteration order. Reading and printing JSON text is third-party code and stays a
  parameter (theory External).
\<close>

datatype number = PosInt u64 | NegInt int | Float f64

datatype json =
    JNull
  | JBool bool
  | JNum number
  | JStr string
  | JArr "json list"
  | JObj "(string \<times> json) list"

type_synonym object = "(string \<times> json) list"

section \<open>Maps\<close>

definition obj_get :: "object \<Rightarrow> string \<Rightarrow> json option" where
  "obj_get ob k = map_of ob k"

definition obj_contains :: "object \<Rightarrow> string \<Rightarrow> bool" where
  "obj_contains ob k \<longleftrightarrow> obj_get ob k \<noteq> None"

fun obj_insert :: "string \<Rightarrow> json \<Rightarrow> object \<Rightarrow> object" where
  "obj_insert k v [] = [(k, v)]"
| "obj_insert k v ((k', v') # r) =
     (if k = k' then (k, v) # r
      else if k < k' then (k, v) # (k', v') # r
      else (k', v') # obj_insert k v r)"

definition obj_remove :: "string \<Rightarrow> object \<Rightarrow> object" where
  "obj_remove k ob = filter (\<lambda>(k', v). k' \<noteq> k) ob"

definition obj_keys :: "object \<Rightarrow> string list" where
  "obj_keys ob = map fst ob"

definition obj_wf :: "object \<Rightarrow> bool" where
  "obj_wf ob \<longleftrightarrow> sorted_wrt (<) (map fst ob)"

text \<open>Every object inside a value is a well-formed map.\<close>

fun json_wf :: "json \<Rightarrow> bool" where
  "json_wf (JArr xs) = (\<forall>x \<in> set xs. json_wf x)"
| "json_wf (JObj ob) = (obj_wf ob \<and> (\<forall>e \<in> set ob. json_wf (snd e)))"
| "json_wf v = True"

text \<open>
  The values that serde\_json writes and reads back as they were: every object is a
  well-formed map, arrays and objects are nested at most \<open>d\<close> deep, negative integers fit
  an \<open>i64\<close>, and no number is a floating-point one. The reader stops with an error at the
  128th nested array or object (its recursion limit), and without the feature
  \<open>float_roundtrip\<close>, which the workspace does not turn on, it may read a printed
  floating-point number as one of its neighbours.
\<close>

fun json_fits :: "nat \<Rightarrow> json \<Rightarrow> bool" where
  "json_fits d (JArr xs) = (0 < d \<and> (\<forall>x \<in> set xs. json_fits (d - 1) x))"
| "json_fits d (JObj ob) = (0 < d \<and> obj_wf ob \<and> (\<forall>e \<in> set ob. json_fits (d - 1) (snd e)))"
| "json_fits d (JNum (NegInt n)) = (- (2 ^ 63) \<le> n \<and> n < 0)"
| "json_fits d (JNum (Float x)) = False"
| "json_fits d v = True"

lemma json_fits_wf: "json_fits d v \<Longrightarrow> json_wf v"
  by (induction d v rule: json_fits.induct) auto

lemma json_fits_mono: "json_fits d v \<Longrightarrow> d \<le> d' \<Longrightarrow> json_fits d' v"
proof (induction d v arbitrary: d' rule: json_fits.induct)
  case (1 d xs)
  then have "0 < d" "d - 1 \<le> d' - 1" by auto
  with 1 show ?case by auto
next
  case (2 d ob)
  then have "0 < d" "d - 1 \<le> d' - 1" by auto
  with 2 show ?case by auto
qed auto

lemma obj_get_Nil [simp]: "obj_get [] k = None"
  by (simp add: obj_get_def)

lemma obj_get_Cons [simp]: "obj_get ((k, v) # ob) k' = (if k = k' then Some v else obj_get ob k')"
  by (simp add: obj_get_def)

lemma obj_get_insert [simp]:
  "obj_get (obj_insert k v ob) k' = (if k' = k then Some v else obj_get ob k')"
  by (induction ob) auto

lemma obj_get_remove [simp]:
  "obj_get (obj_remove k ob) k' = (if k' = k then None else obj_get ob k')"
  by (induction ob) (auto simp: obj_remove_def obj_get_def)

lemma obj_contains_insert [simp]:
  "obj_contains (obj_insert k v ob) k' \<longleftrightarrow> k' = k \<or> obj_contains ob k'"
  by (simp add: obj_contains_def)

lemma obj_contains_remove [simp]:
  "obj_contains (obj_remove k ob) k' \<longleftrightarrow> k' \<noteq> k \<and> obj_contains ob k'"
  by (simp add: obj_contains_def)

lemma obj_contains_Nil [simp]: "\<not> obj_contains [] k"
  by (simp add: obj_contains_def)

lemma obj_contains_iff: "obj_contains ob k \<longleftrightarrow> k \<in> set (obj_keys ob)"
  by (auto simp: obj_contains_def obj_get_def obj_keys_def map_of_eq_None_iff)

lemma obj_get_in_set: "obj_get ob k = Some v \<Longrightarrow> (k, v) \<in> set ob"
  by (simp add: obj_get_def map_of_SomeD)

lemma set_obj_keys: "set (obj_keys ob) = {k. obj_get ob k \<noteq> None}"
  by (auto simp: obj_contains_iff [symmetric] obj_contains_def)

lemma obj_keys_insert [simp]: "set (obj_keys (obj_insert k v ob)) = insert k (set (obj_keys ob))"
  by (auto simp: set_obj_keys)

lemma set_obj_insert_subset: "set (obj_insert k v ob) \<subseteq> insert (k, v) (set ob)"
  by (induction ob) (auto split: if_splits)

lemma obj_wf_Nil [simp]: "obj_wf []"
  by (simp add: obj_wf_def)

lemma obj_wf_insert [simp]: "obj_wf ob \<Longrightarrow> obj_wf (obj_insert k v ob)"
proof (induction ob)
  case (Cons e r)
  obtain k' v' where e: "e = (k', v')" by force
  have keys: "set (map fst (obj_insert k v r)) = insert k (set (map fst r))"
    using obj_keys_insert [of k v r] by (simp add: obj_keys_def)
  from Cons.prems e have r: "obj_wf r" "\<forall>x \<in> set (map fst r). k' < x"
    by (simp_all add: obj_wf_def)
  consider "k = k'" | "k \<noteq> k'" "k < k'" | "k \<noteq> k'" "\<not> k < k'" "k' < k"
    using not_less_iff_gr_or_eq by blast
  then show ?case
  proof cases
    case 1
    with r show ?thesis unfolding e obj_wf_def by simp
  next
    case 2
    with r(2) have "\<forall>x \<in> set (map fst r). k < x" by (meson order.strict_trans)
    with 2 r show ?thesis unfolding e obj_wf_def by simp
  next
    case 3
    have "\<forall>x \<in> set (map fst (obj_insert k v r)). k' < x"
      unfolding keys using 3(3) r(2) by simp
    with 3 Cons.IH [OF r(1)] show ?thesis unfolding e obj_wf_def by simp
  qed
qed (simp add: obj_wf_def)

lemma json_fits_insert:
  assumes "json_fits d (JObj ob)" "json_fits (d - 1) v"
  shows "json_fits d (JObj (obj_insert k v ob))"
  using assms set_obj_insert_subset [of k v ob] by auto

lemma json_fits_Nil: "0 < d \<Longrightarrow> json_fits d (JObj [])"
  by simp

lemma obj_wf_remove [simp]: "obj_wf ob \<Longrightarrow> obj_wf (obj_remove k ob)"
  unfolding obj_wf_def obj_remove_def sorted_wrt_map by (rule sorted_wrt_filter)

lemma obj_wf_distinct: "obj_wf ob \<Longrightarrow> distinct (map fst ob)"
  by (simp add: obj_wf_def strict_sorted_iff)

lemma obj_get_iff: "obj_wf ob \<Longrightarrow> obj_get ob k = Some v \<longleftrightarrow> (k, v) \<in> set ob"
  by (simp add: obj_get_def obj_wf_distinct)

section \<open>Accessors\<close>

definition as_object :: "json \<Rightarrow> object option" where
  "as_object v = (case v of JObj ob \<Rightarrow> Some ob | _ \<Rightarrow> None)"

definition as_array :: "json \<Rightarrow> json list option" where
  "as_array v = (case v of JArr xs \<Rightarrow> Some xs | _ \<Rightarrow> None)"

definition as_str :: "json \<Rightarrow> string option" where
  "as_str v = (case v of JStr s \<Rightarrow> Some s | _ \<Rightarrow> None)"

definition number_as_u64 :: "number \<Rightarrow> u64 option" where
  "number_as_u64 n = (case n of PosInt u \<Rightarrow> Some u | _ \<Rightarrow> None)"

definition number_as_f64 :: "number \<Rightarrow> f64 option" where
  "number_as_f64 n = Some (case n of PosInt u \<Rightarrow> f64_of_int (uint u)
     | NegInt i \<Rightarrow> f64_of_int i | Float x \<Rightarrow> x)"

definition as_f64 :: "json \<Rightarrow> f64 option" where
  "as_f64 v = (case v of JNum n \<Rightarrow> number_as_f64 n | _ \<Rightarrow> None)"

text \<open>\<open>Value::get(name)\<close>: a member of an object, nothing for any other value.\<close>

definition json_get :: "json \<Rightarrow> string \<Rightarrow> json option" where
  "json_get v k = Option.bind (as_object v) (\<lambda>ob. obj_get ob k)"

text \<open>\<open>o.get(name).and_then(Value::as_str)\<close>.\<close>

definition obj_str :: "object \<Rightarrow> string \<Rightarrow> string option" where
  "obj_str ob k = Option.bind (obj_get ob k) as_str"

text \<open>An \<open>i64\<close> turned into a JSON number (\<open>json!(n)\<close>, \<open>n.into()\<close>).\<close>

definition json_of_i64 :: "i64 \<Rightarrow> json" where
  "json_of_i64 n = JNum (if 0 \<le> n then PosInt (word_of_int n) else NegInt n)"

lemma f64_exact_i64_ok: "f64_exact n \<Longrightarrow> i64_ok n"
  by (auto simp: f64_exact_def i64_ok_def i64_min_def i64_max_def)

lemma json_of_i64_fits: "json_fits d (json_of_i64 n) \<longleftrightarrow> - (2 ^ 63) \<le> n"
  by (simp add: json_of_i64_def)

lemma as_object_simps [simp]: "as_object (JObj ob) = Some ob" "as_object v = Some ob \<longleftrightarrow> v = JObj ob"
  by (auto simp: as_object_def split: json.splits)

lemma as_array_simps [simp]: "as_array (JArr xs) = Some xs" "as_array v = Some xs \<longleftrightarrow> v = JArr xs"
  by (auto simp: as_array_def split: json.splits)

lemma as_str_simps [simp]: "as_str (JStr s) = Some s" "as_str v = Some s \<longleftrightarrow> v = JStr s"
  by (auto simp: as_str_def split: json.splits)

lemma obj_str_eq_Some: "obj_str ob k = Some s \<longleftrightarrow> obj_get ob k = Some (JStr s)"
  by (auto simp: obj_str_def Option.bind_eq_Some_conv)

lemma obj_str_insert [simp]:
  "obj_str (obj_insert k v ob) k' = (if k' = k then as_str v else obj_str ob k')"
  by (simp add: obj_str_def)

lemma as_f64_of_i64: "f64_exact n \<Longrightarrow> as_f64 (json_of_i64 n) = Some (Fin (of_int n))"
proof -
  assume ex: "f64_exact n"
  show ?thesis
  proof (cases "0 \<le> n")
    case True
    with ex have "uint (word_of_int n :: u64) = n"
      by (simp add: uint_word_of_int f64_exact_def)
    with True ex show ?thesis by (simp add: json_of_i64_def as_f64_def number_as_f64_def)
  qed (use ex in \<open>simp add: json_of_i64_def as_f64_def number_as_f64_def\<close>)
qed

end
