(* ===== verification/External.thy ===== *)
theory External
  imports Json "HOL-Library.Countable"
begin

text \<open>
  The code outside the repository that the crates call, as parameters of the model: the
  \<open>base64\<close> and \<open>serde_json\<close> text codecs, the hash functions of \<open>sha2\<close>, the
  signature primitives of \<open>ed25519-dalek\<close> and \<open>p256\<close>, and the calendar of \<open>chrono\<close>
  and \<open>chrono-tz\<close>. A public key of \<open>ed25519-dalek\<close> is represented by its 32-byte
  encoding, one of \<open>p256\<close> by its two affine coordinates, a signing key by its bytes, and
  a \<open>Tz\<close> by its name. What a property relies on of these functions is a named
  predicate below, and a hypothesis of the property.
\<close>

section \<open>Codecs, hashes and signatures\<close>

record crypto =
  b64_encode :: "bytes \<Rightarrow> string"
  b64_decode :: "string \<Rightarrow> message + bytes"
  json_read :: "bytes \<Rightarrow> message + json"
  json_write :: "json \<Rightarrow> message + bytes"
  json_text :: "json \<Rightarrow> string"
  sha256 :: "bytes \<Rightarrow> bytes"
  sha384 :: "bytes \<Rightarrow> bytes"
  sha512 :: "bytes \<Rightarrow> bytes"
  ed_key_ok :: "bytes \<Rightarrow> message option"
  ed_verify :: "bytes \<Rightarrow> bytes \<Rightarrow> bytes \<Rightarrow> bool"
  ed_verify_strict :: "bytes \<Rightarrow> bytes \<Rightarrow> bytes \<Rightarrow> bool"
  ed_sign :: "bytes \<Rightarrow> bytes \<Rightarrow> bytes"
  ed_public :: "bytes \<Rightarrow> bytes"
  p256_point_ok :: "bytes \<Rightarrow> bytes \<Rightarrow> message option"
  p256_sig_ok :: "bytes \<Rightarrow> bool"
  p256_verify :: "bytes \<Rightarrow> bytes \<Rightarrow> bytes \<Rightarrow> bytes \<Rightarrow> bool"
  p256_sign :: "bytes \<Rightarrow> bytes \<Rightarrow> bytes"
  p256_sign_with_rng :: "bytes \<Rightarrow> bytes \<Rightarrow> bytes \<Rightarrow> bytes"
  p256_public :: "bytes \<Rightarrow> bytes \<times> bytes"

text \<open>
  \<open>ed_key_ok\<close> and \<open>p256_point_ok\<close> are the key constructors' checks: \<open>None\<close> when the
  bytes are a key, the error's text otherwise. The random numbers of a hedged signature
  are the first argument of \<open>p256_sign_with_rng\<close>.
\<close>

definition b64_ok :: "crypto \<Rightarrow> bool" where
  "b64_ok C \<longleftrightarrow> (\<forall>bs. b64_decode C (b64_encode C bs) = Inr bs
     \<and> CHR ''.'' \<notin> set (b64_encode C bs) \<and> CHR ''~'' \<notin> set (b64_encode C bs)
     \<and> (b64_encode C bs = [] \<longleftrightarrow> bs = []))"

text \<open>
  Writing and reading JSON: what is written is read back, for the values that serde\_json
  reads back exactly and within its recursion limit (\<open>json_fits\<close>, 127 levels).
\<close>

definition json_ok :: "crypto \<Rightarrow> bool" where
  "json_ok C \<longleftrightarrow> (\<forall>v. json_fits 127 v \<longrightarrow> (\<exists>bs. json_write C v = Inr bs \<and> bs \<noteq> [] \<and> json_read C bs = Inr v))"

definition json_text_ok :: "crypto \<Rightarrow> bool" where
  "json_text_ok C \<longleftrightarrow> (\<forall>v. json_fits 127 v \<longrightarrow> json_text C v \<noteq> [] \<and> json_read C (json_text C v) = Inr v)"

text \<open>Signatures made with a secret key verify under its public key, and have the fixed size.\<close>

definition signatures_ok :: "crypto \<Rightarrow> bool" where
  "signatures_ok C \<longleftrightarrow>
     (\<forall>rng sk m. length (ed_sign C sk m) = 64
        \<and> ed_verify C (ed_public C sk) m (ed_sign C sk m)
        \<and> ed_verify_strict C (ed_public C sk) m (ed_sign C sk m)
        \<and> length (p256_sign C sk m) = 64 \<and> p256_sig_ok C (p256_sign C sk m)
        \<and> p256_verify C (fst (p256_public C sk)) (snd (p256_public C sk)) m (p256_sign C sk m)
        \<and> length (p256_sign_with_rng C rng sk m) = 64 \<and> p256_sig_ok C (p256_sign_with_rng C rng sk m)
        \<and> p256_verify C (fst (p256_public C sk)) (snd (p256_public C sk)) m
            (p256_sign_with_rng C rng sk m))"

text \<open>Public keys have the documented sizes and are accepted by the constructors.\<close>

definition public_keys_ok :: "crypto \<Rightarrow> bool" where
  "public_keys_ok C \<longleftrightarrow>
     (\<forall>sk. length (ed_public C sk) = 32 \<and> ed_key_ok C (ed_public C sk) = None
        \<and> length (fst (p256_public C sk)) = 32 \<and> length (snd (p256_public C sk)) = 32
        \<and> p256_point_ok C (fst (p256_public C sk)) (snd (p256_public C sk)) = None)"

section \<open>Calendar\<close>

type_synonym tz = string

datatype chrono_weekday = CMon | CTue | CWed | CThu | CFri | CSat | CSun

fun num_days_from_monday :: "chrono_weekday \<Rightarrow> u32" where
  "num_days_from_monday CMon = 0"
| "num_days_from_monday CTue = 1"
| "num_days_from_monday CWed = 2"
| "num_days_from_monday CThu = 3"
| "num_days_from_monday CFri = 4"
| "num_days_from_monday CSat = 5"
| "num_days_from_monday CSun = 6"

record local_time =
  lt_weekday :: chrono_weekday
  lt_hour :: u32
  lt_minute :: u32

record chrono =
  tz_parse :: "string \<Rightarrow> tz option"
  with_timezone :: "tz \<Rightarrow> datetime \<Rightarrow> local_time"
  from_timestamp :: "i64 \<Rightarrow> datetime option"
  dt_timestamp :: "datetime \<Rightarrow> i64"
  dt_checked_add_months :: "datetime \<Rightarrow> nat \<Rightarrow> datetime option"
  parse_rfc3339 :: "string \<Rightarrow> datetime option"
  parse_ymd_midnight :: "string \<Rightarrow> datetime option"

text \<open>Local hours and minutes are in range.\<close>

definition chrono_ok :: "chrono \<Rightarrow> bool" where
  "chrono_ok K \<longleftrightarrow>
     (\<forall>z t. lt_hour (with_timezone K z t) < 24 \<and> lt_minute (with_timezone K z t) < 60)"

lemma chrono_okD:
  "chrono_ok K \<Longrightarrow> lt_hour (with_timezone K z t) < 24"
  "chrono_ok K \<Longrightarrow> lt_minute (with_timezone K z t) < 60"
  by (auto simp: chrono_ok_def)

lemma b64_okD:
  "b64_ok C \<Longrightarrow> b64_decode C (b64_encode C bs) = Inr bs"
  "b64_ok C \<Longrightarrow> CHR ''.'' \<notin> set (b64_encode C bs)"
  "b64_ok C \<Longrightarrow> CHR ''~'' \<notin> set (b64_encode C bs)"
  "b64_ok C \<Longrightarrow> b64_encode C bs = [] \<longleftrightarrow> bs = []"
  by (auto simp: b64_ok_def)

section \<open>A concrete instance\<close>

text \<open>
  Functions that satisfy every assumption above, for the concrete inputs on which the
  properties with such a hypothesis are exercised. The toy codecs spell a byte string out
  as the letters \<open>a\<close> to \<open>p\<close>, one letter per half byte; keys and signatures are
  padded copies of their input. They show that the assumptions can hold together; nothing
  is proved about them as cryptography.
\<close>

definition nibble_letter :: "nat \<Rightarrow> char" where
  "nibble_letter n = char_of (97 + n)"

definition hex_encode :: "bytes \<Rightarrow> string" where
  "hex_encode bs = concat (map (\<lambda>c. let n = of_char c :: nat
     in [nibble_letter (n div 16), nibble_letter (n mod 16)]) bs)"

fun hex_decode :: "string \<Rightarrow> message + bytes" where
  "hex_decode [] = Inr []"
| "hex_decode [c] = Inl [Lit ''odd length'']"
| "hex_decode (a # b # r) = rbind (hex_decode r)
     (\<lambda>bs. Inr (char_of ((of_char a - 97) * 16 + (of_char b - 97) :: nat) # bs))"

lemma of_char_less_256: "(of_char c :: nat) < 256"
  using of_char_of [of "of_char c :: nat"] by simp

lemma of_char_nibble_letter: "n < 16 \<Longrightarrow> of_char (nibble_letter n) = 97 + n"
  by (simp add: nibble_letter_def)

lemma hex_decode_encode: "hex_decode (hex_encode bs) = Inr bs"
proof (induction bs)
  case (Cons c bs)
  let ?n = "of_char c :: nat"
  have n: "?n < 256" by (rule of_char_less_256)
  have "of_char (nibble_letter (?n div 16)) - 97 = ?n div 16"
    "of_char (nibble_letter (?n mod 16)) - (97 :: nat) = ?n mod 16"
    using n by (simp_all add: of_char_nibble_letter less_mult_imp_div_less)
  moreover have "?n div 16 * 16 + ?n mod 16 = ?n" by simp
  ultimately show ?case using Cons by (simp add: hex_encode_def Let_def)
qed (simp add: hex_encode_def)

lemma nibble_letter_ne: "n < 16 \<Longrightarrow> nibble_letter n \<noteq> CHR ''.'' \<and> nibble_letter n \<noteq> CHR ''~''"
proof -
  assume n: "n < 16"
  have "nibble_letter n = c \<Longrightarrow> of_char c = 97 + n" for c
    using of_char_nibble_letter [OF n] by simp
  from this [of "CHR ''.''"] this [of "CHR ''~''"] n show ?thesis by auto
qed

lemma hex_encode_plain: "c \<in> set (hex_encode bs) \<Longrightarrow> c \<noteq> CHR ''.'' \<and> c \<noteq> CHR ''~''"
  using nibble_letter_ne of_char_less_256
  by (auto simp: hex_encode_def Let_def less_mult_imp_div_less)

text \<open>A JSON codec that round-trips every value: the unary form of its number in an enumeration.\<close>

instance f64 :: countable by countable_datatype

instance number :: countable by countable_datatype

instance json :: countable by countable_datatype

definition unary_text :: "json \<Rightarrow> string" where
  "unary_text v = replicate (Suc (to_nat v)) CHR ''1''"

definition unary_write :: "json \<Rightarrow> message + bytes" where
  "unary_write v = Inr (unary_text v)"

definition unary_read :: "bytes \<Rightarrow> message + json" where
  "unary_read bs = Inr (from_nat (length bs - 1))"

definition pad :: "nat \<Rightarrow> bytes \<Rightarrow> bytes" where
  "pad n bs = take n (bs @ replicate n CHR ''0'')"

lemma length_pad [simp]: "length (pad n bs) = n"
  by (simp add: pad_def)

definition toy_crypto :: crypto where
  "toy_crypto = \<lparr>b64_encode = hex_encode, b64_decode = hex_decode,
     json_read = unary_read, json_write = unary_write, json_text = unary_text,
     sha256 = pad 32, sha384 = pad 48, sha512 = pad 64,
     ed_key_ok = (\<lambda>bs. None),
     ed_verify = (\<lambda>pk m g. g = pad 64 m), ed_verify_strict = (\<lambda>pk m g. g = pad 64 m),
     ed_sign = (\<lambda>sk m. pad 64 m), ed_public = pad 32,
     p256_point_ok = (\<lambda>x y. None), p256_sig_ok = (\<lambda>g. length g = 64),
     p256_verify = (\<lambda>x y m g. g = pad 64 m), p256_sign = (\<lambda>sk m. pad 64 m),
     p256_sign_with_rng = (\<lambda>rng sk m. pad 64 m),
     p256_public = (\<lambda>sk. (pad 32 sk, pad 32 sk))\<rparr>"

lemma hex_encode_Nil: "hex_encode bs = [] \<longleftrightarrow> bs = []"
  by (cases bs) (simp_all add: hex_encode_def Let_def)

lemma toy_crypto_ok:
  "b64_ok toy_crypto" "json_ok toy_crypto" "signatures_ok toy_crypto" "public_keys_ok toy_crypto"
  using hex_encode_plain
  by (auto simp: toy_crypto_def b64_ok_def json_ok_def signatures_ok_def public_keys_ok_def
    hex_decode_encode hex_encode_Nil unary_write_def unary_text_def unary_read_def)

lemma toy_json_text_ok: "json_text_ok toy_crypto"
  by (simp add: toy_crypto_def json_text_ok_def unary_text_def unary_read_def)

end
