(* ===== verification/CoreTypes.thy ===== *)
theory CoreTypes
  imports External
begin

text \<open>
  The data model of the v0 crate \<open>aap-core\<close> (crates/core/src/types.rs): principals,
  scopes, delegations, agent messages and the verifier's failures. Field names carry a
  prefix for the struct they belong to. A \<open>Uuid\<close> is its text form. The JSON decoders
  serde derives for \<open>Delegation\<close> and \<open>AgentMessage\<close> are generated code and appear as
  parameters of the functions that decode.
\<close>

datatype principal_type = NaturalPerson | LegalEntity

datatype weekday = Mon | Tue | Wed | Thu | Fri | Sat | Sun

record time_window =
  w_days :: "weekday list"
  w_start :: string
  w_end :: string
  w_timezone :: string

record amount =
  a_value :: f64
  a_currency :: string

record counterparties =
  cp_allow :: "string list option"
  cp_deny :: "string list option"

definition default_counterparties :: counterparties where
  "default_counterparties = \<lparr>cp_allow = None, cp_deny = None\<rparr>"

record scope =
  s_actions :: "string list"
  s_resources :: "string list option"
  s_max_amount :: "amount option"
  s_counterparties :: "counterparties option"
  s_data_categories :: "string list option"
  s_time_windows :: "time_window list option"

definition default_scope :: scope where
  "default_scope = \<lparr>s_actions = [], s_resources = None, s_max_amount = None,
     s_counterparties = None, s_data_categories = None, s_time_windows = None\<rparr>"

record public_key_jwk =
  kty :: string
  crv :: string
  jwk_x :: string
  jwk_y :: "string option"

record delegation =
  delegation_id :: uuid
  principal_id :: string
  principal_type_of :: principal_type
  d_agent_id :: string
  agent_public_key :: public_key_jwk
  d_scope :: scope
  valid_from :: datetime
  valid_until :: datetime
  status_endpoint :: string
  can_delegate :: bool
  max_delegation_depth :: "u32 option"
  parent_delegation_id :: "uuid option"
  d_issued_at :: datetime
  d_metadata :: "json option"

record action_request =
  r_action :: string
  r_resource :: "string option"
  r_amount :: "amount option"
  r_counterparty :: "string option"
  r_data_categories :: "string list option"
  r_timestamp :: datetime

record agent_message =
  m_agent_id :: string
  m_audience :: string
  m_nonce :: string
  m_issued_at :: datetime
  m_request :: action_request

datatype verification_failure =
    InvalidDelegationSignature
  | InvalidAgentSignature
  | AudienceMismatch
  | NonceReplayed
  | StaleMessage
  | MessageFromFuture
  | NotYetValid
  | Expired
  | Revoked
  | StatusCheckFailed message
  | ChainBroken message
  | ChainTooDeep
  | ScopeNotNarrowed
  | ScopeDenied
  | KeyResolutionFailed message

text \<open>The \<open>Display\<close> texts \<open>thiserror\<close> derives from the \<open>#[error]\<close> attributes.\<close>

fun failure_text :: "verification_failure \<Rightarrow> message" where
  "failure_text InvalidDelegationSignature = [Lit ''delegation signature invalid'']"
| "failure_text InvalidAgentSignature = [Lit ''agent message signature invalid'']"
| "failure_text AudienceMismatch = [Lit ''message audience does not match this verifier'']"
| "failure_text NonceReplayed = [Lit ''nonce already used (possible replay)'']"
| "failure_text StaleMessage =
     [Lit ''agent message is too old (issued_at outside the freshness window)'']"
| "failure_text MessageFromFuture =
     [Lit ''agent message is issued in the future (beyond allowed clock skew)'']"
| "failure_text NotYetValid = [Lit ''delegation not yet valid (valid_from in the future)'']"
| "failure_text Expired = [Lit ''delegation expired'']"
| "failure_text Revoked = [Lit ''delegation revoked'']"
| "failure_text (StatusCheckFailed m) = Lit ''status endpoint check failed: '' # m"
| "failure_text (ChainBroken m) = Lit ''delegation chain broken: '' # m"
| "failure_text ChainTooDeep = [Lit ''delegation chain exceeds max depth'']"
| "failure_text ScopeNotNarrowed =
     [Lit ''sub-delegation scope is not a narrowing of its parent'']"
| "failure_text ScopeDenied = [Lit ''requested action is outside the delegated scope'']"
| "failure_text (KeyResolutionFailed m) = Lit ''principal key could not be resolved: '' # m"

end
