(* ===== verification/CoreJws.thy ===== *)
theory CoreJws
  imports CoreTypes
begin

text \<open>
  Keys and compact JWS of \<open>aap-core\<close> (crates/core/src/keys.rs, jws.rs, token.rs and
  signer.rs): the two-algorithm key enums, signing, verification with its order of
  checks, JWK conversion, the typestate tokens and the local signer. Errors of the
  third-party decoders are carried as texts.
\<close>

section \<open>Keys\<close>

datatype signing_key = SkEd25519 bytes | SkP256 bytes

datatype verifying_key = VkEd25519 bytes | VkP256 bytes bytes

fun signing_alg :: "signing_key \<Rightarrow> string" where
  "signing_alg (SkEd25519 _) = ''EdDSA''"
| "signing_alg (SkP256 _) = ''ES256''"

definition sign_bytes :: "crypto \<Rightarrow> signing_key \<Rightarrow> bytes \<Rightarrow> bytes" where
  "sign_bytes C k msg = (case k of SkEd25519 sk \<Rightarrow> ed_sign C sk msg | SkP256 sk \<Rightarrow> p256_sign C sk msg)"

definition verifying_key_of :: "crypto \<Rightarrow> signing_key \<Rightarrow> verifying_key" where
  "verifying_key_of C k = (case k of SkEd25519 sk \<Rightarrow> VkEd25519 (ed_public C sk)
     | SkP256 sk \<Rightarrow> VkP256 (fst (p256_public C sk)) (snd (p256_public C sk)))"

fun verifying_alg :: "verifying_key \<Rightarrow> string" where
  "verifying_alg (VkEd25519 _) = ''EdDSA''"
| "verifying_alg (VkP256 _ _) = ''ES256''"

definition verify_bytes :: "crypto \<Rightarrow> verifying_key \<Rightarrow> bytes \<Rightarrow> bytes \<Rightarrow> bool" where
  "verify_bytes C k msg sig_bytes =
     (case k of
        VkEd25519 pk \<Rightarrow> (if length sig_bytes = 64 then ed_verify C pk msg sig_bytes else False)
      | VkP256 x y \<Rightarrow> (if p256_sig_ok C sig_bytes then p256_verify C x y msg sig_bytes else False))"

section \<open>Compact JWS\<close>

datatype jws_error =
    Malformed
  | UnsupportedHeader message
  | AlgorithmMismatch
  | Base64 message
  | JsonError message
  | BadSignature
  | BadKey message

fun jws_error_text :: "jws_error \<Rightarrow> message" where
  "jws_error_text Malformed = [Lit ''malformed compact JWS (expected 3 dot-separated segments)'']"
| "jws_error_text (UnsupportedHeader m) = Lit ''unsupported or unexpected header: '' # m"
| "jws_error_text AlgorithmMismatch =
     [Lit ''JWS alg header does not match the verifying key's algorithm'']"
| "jws_error_text (Base64 m) = Lit ''base64 decode failed: '' # m"
| "jws_error_text (JsonError m) = Lit ''json (de)serialization failed: '' # m"
| "jws_error_text BadSignature = [Lit ''signature verification failed'']"
| "jws_error_text (BadKey m) = Lit ''invalid key material: '' # m"

definition header_for :: "string \<Rightarrow> string" where
  "header_for alg = ''{\"alg\":\"'' @ alg @ ''\",\"typ\":\"JWT\"}''"

text \<open>\<open>enc\<close> is the payload type's \<open>Serialize\<close> through \<open>serde_json::to_vec\<close>.\<close>

definition jws_sign :: "crypto \<Rightarrow> ('a \<Rightarrow> message + bytes) \<Rightarrow> 'a \<Rightarrow> signing_key \<Rightarrow> jws_error + string" where
  "jws_sign C enc payload key =
     (let header_b64 = b64_encode C (header_for (signing_alg key)) in
      rbind (map_err JsonError (enc payload)) (\<lambda>bs.
      let payload_b64 = b64_encode C bs;
          signing_input = header_b64 @ ''.'' @ payload_b64;
          sig_b64 = b64_encode C (sign_bytes C key signing_input)
      in Inr (signing_input @ ''.'' @ sig_b64)))"

text \<open>\<open>de\<close> is the payload type's \<open>Deserialize\<close> through \<open>serde_json::from_slice\<close>.\<close>

definition decode_unverified :: "crypto \<Rightarrow> (bytes \<Rightarrow> message + 'a) \<Rightarrow> string \<Rightarrow> jws_error + 'a" where
  "decode_unverified C de jws =
     (let parts = split_on CHR ''.'' jws in
      if length parts \<noteq> 3 then Inl Malformed
      else rbind (map_err Base64 (b64_decode C (parts ! 1))) (\<lambda>bs. map_err JsonError (de bs)))"

definition check_alg :: "crypto \<Rightarrow> json \<Rightarrow> verifying_key \<Rightarrow> jws_error + unit" where
  "check_alg C header key =
     (case Option.bind (json_get header ''alg'') as_str of
        Some a \<Rightarrow> if a = verifying_alg key then Inr () else Inl AlgorithmMismatch
      | None \<Rightarrow> Inl (UnsupportedHeader [Lit (json_text C header)]))"

definition jws_verify :: "crypto \<Rightarrow> (bytes \<Rightarrow> message + 'a) \<Rightarrow> string \<Rightarrow> verifying_key \<Rightarrow> jws_error + 'a" where
  "jws_verify C de jws key =
     (let parts = split_on CHR ''.'' jws in
      if length parts \<noteq> 3 then Inl Malformed
      else
        rbind (map_err Base64 (b64_decode C (parts ! 0))) (\<lambda>header_bytes.
        rbind (map_err JsonError (json_read C header_bytes)) (\<lambda>header.
        rbind (check_alg C header key) (\<lambda>_.
        let signing_input = parts ! 0 @ ''.'' @ parts ! 1 in
        rbind (map_err Base64 (b64_decode C (parts ! 2))) (\<lambda>sig_bytes.
        if \<not> verify_bytes C key signing_input sig_bytes then Inl BadSignature
        else rbind (map_err Base64 (b64_decode C (parts ! 1))) (\<lambda>bs. map_err JsonError (de bs)))))))"

section \<open>JSON Web Keys\<close>

definition public_key_to_jwk :: "crypto \<Rightarrow> verifying_key \<Rightarrow> public_key_jwk" where
  "public_key_to_jwk C key =
     (case key of
        VkEd25519 pk \<Rightarrow> \<lparr>kty = ''OKP'', crv = ''Ed25519'', jwk_x = b64_encode C pk, jwk_y = None\<rparr>
      | VkP256 x y \<Rightarrow> \<lparr>kty = ''EC'', crv = ''P-256'', jwk_x = b64_encode C x,
                       jwk_y = Some (b64_encode C y)\<rparr>)"

definition ed25519_from_bytes :: "crypto \<Rightarrow> bytes \<Rightarrow> jws_error + verifying_key" where
  "ed25519_from_bytes C bs =
     (if length bs \<noteq> 32 then Inl (BadKey [Lit ''Ed25519 public key is not 32 bytes''])
      else (case ed_key_ok C bs of Some e \<Rightarrow> Inl (BadKey e) | None \<Rightarrow> Inr (VkEd25519 bs)))"

definition p256_from_coordinates :: "crypto \<Rightarrow> bytes \<Rightarrow> bytes \<Rightarrow> jws_error + verifying_key" where
  "p256_from_coordinates C x y =
     (if length x \<noteq> 32 \<or> length y \<noteq> 32
      then Inl (BadKey [Lit ''P-256 x/y coordinates must be 32 bytes each''])
      else (case p256_point_ok C x y of Some e \<Rightarrow> Inl (BadKey e) | None \<Rightarrow> Inr (VkP256 x y)))"

definition jwk_to_public_key :: "crypto \<Rightarrow> public_key_jwk \<Rightarrow> jws_error + verifying_key" where
  "jwk_to_public_key C jwk =
     (if kty jwk = ''OKP'' \<and> crv jwk = ''Ed25519'' then
        rbind (map_err Base64 (b64_decode C (jwk_x jwk))) (ed25519_from_bytes C)
      else if kty jwk = ''EC'' \<and> crv jwk = ''P-256'' then
        rbind (ok_or (jwk_y jwk) (BadKey [Lit ''P-256 JWK is missing y''])) (\<lambda>y.
        rbind (map_err Base64 (b64_decode C (jwk_x jwk))) (\<lambda>x_bytes.
        rbind (map_err Base64 (b64_decode C y)) (\<lambda>y_bytes.
        p256_from_coordinates C x_bytes y_bytes)))
      else Inl (BadKey [Lit ''unsupported key type '', Lit (kty jwk), Lit ''/'', Lit (crv jwk)]))"

section \<open>Typestate tokens\<close>

text \<open>
  \<open>DelegationToken<State>\<close> and \<open>AgentMessageToken<State>\<close> have the same two
  operations; the phantom state is the datatype. Only \<open>token_verify_signature\<close> builds a
  \<open>VerifiedToken\<close>.
\<close>

datatype 'p unverified_token = UnverifiedToken (ut_jws: string) (ut_payload: 'p)

datatype 'p verified_token = VerifiedToken (vt_jws: string) (vt_payload: 'p)

definition token_from_jws :: "crypto \<Rightarrow> (bytes \<Rightarrow> message + 'p) \<Rightarrow> string \<Rightarrow> jws_error + 'p unverified_token" where
  "token_from_jws C de jws =
     rbind (decode_unverified C de jws) (\<lambda>payload. Inr (UnverifiedToken jws payload))"

definition token_verify_signature ::
  "crypto \<Rightarrow> (bytes \<Rightarrow> message + 'p) \<Rightarrow> 'p unverified_token \<Rightarrow> verifying_key \<Rightarrow> jws_error + 'p verified_token" where
  "token_verify_signature C de t key =
     rbind (jws_verify C de (ut_jws t) key) (\<lambda>payload. Inr (VerifiedToken (ut_jws t) payload))"

section \<open>The local signer\<close>

record local_signer =
  signer_key :: signing_key

text \<open>The random bytes of a generated key are an argument.\<close>

definition generate_ed25519 :: "bytes \<Rightarrow> local_signer" where
  "generate_ed25519 random = \<lparr>signer_key = SkEd25519 random\<rparr>"

definition generate :: "bytes \<Rightarrow> local_signer" where
  "generate random = generate_ed25519 random"

definition generate_p256 :: "bytes \<Rightarrow> local_signer" where
  "generate_p256 random = \<lparr>signer_key = SkP256 random\<rparr>"

definition from_ed25519_bytes :: "bytes \<Rightarrow> local_signer" where
  "from_ed25519_bytes bs = \<lparr>signer_key = SkEd25519 bs\<rparr>"

definition to_ed25519_bytes :: "local_signer \<Rightarrow> bytes option" where
  "to_ed25519_bytes s = (case signer_key s of SkEd25519 k \<Rightarrow> Some k | SkP256 _ \<Rightarrow> None)"

definition sign_payload :: "crypto \<Rightarrow> ('a \<Rightarrow> message + bytes) \<Rightarrow> local_signer \<Rightarrow> 'a \<Rightarrow> jws_error + string" where
  "sign_payload C enc s payload = jws_sign C enc payload (signer_key s)"

definition public_jwk :: "crypto \<Rightarrow> local_signer \<Rightarrow> public_key_jwk" where
  "public_jwk C s = public_key_to_jwk C (verifying_key_of C (signer_key s))"

section \<open>What the operations do\<close>

lemma verifying_alg_of [simp]: "verifying_alg (verifying_key_of C k) = signing_alg k"
  by (cases k) (simp_all add: verifying_key_of_def)

lemma verify_sign_bytes:
  "signatures_ok C \<Longrightarrow> verify_bytes C (verifying_key_of C k) m (sign_bytes C k m)"
  by (cases k) (simp_all add: signatures_ok_def verify_bytes_def sign_bytes_def verifying_key_of_def)

text \<open>The header's JSON text is read back as an object with the algorithm's name.\<close>

definition header_read_ok :: "crypto \<Rightarrow> bool" where
  "header_read_ok C \<longleftrightarrow> (\<forall>alg \<in> {''EdDSA'', ''ES256''}. json_read C (header_for alg) =
     Inr (JObj [(''alg'', JStr alg), (''typ'', JStr ''JWT'')]))"

lemma signing_alg_cases: "signing_alg k = ''EdDSA'' \<or> signing_alg k = ''ES256''"
  by (cases k) auto

lemma header_read_okD:
  "header_read_ok C \<Longrightarrow> json_read C (header_for (signing_alg k)) =
     Inr (JObj [(''alg'', JStr (signing_alg k)), (''typ'', JStr ''JWT'')])"
  using signing_alg_cases [of k] by (auto simp: header_read_ok_def)

lemma split_jws:
  assumes "CHR ''.'' \<notin> set a" "CHR ''.'' \<notin> set b" "CHR ''.'' \<notin> set c"
  shows "split_on CHR ''.'' (a @ ''.'' @ b @ ''.'' @ c) = [a, b, c]"
  using assms by (simp add: split_on_append split_on_absent)

lemma jws_sign_parts:
  assumes "b64_ok C" and "jws_sign C enc payload key = Inr jws"
  obtains bs where "enc payload = Inr bs"
    and "split_on CHR ''.'' jws =
      [b64_encode C (header_for (signing_alg key)), b64_encode C bs,
       b64_encode C (sign_bytes C key
         (b64_encode C (header_for (signing_alg key)) @ ''.'' @ b64_encode C bs))]"
  using assms by (auto simp: jws_sign_def Let_def split_on_append split_on_absent b64_okD)

lemma check_alg_eq_Inr:
  "check_alg C header key = Inr u \<longleftrightarrow>
     Option.bind (json_get header ''alg'') as_str = Some (verifying_alg key)"
  by (auto simp: check_alg_def split: option.splits if_splits)

text \<open>What a successful verification means, part by part.\<close>

lemma jws_verify_eq_Inr:
  "jws_verify C de jws key = Inr v \<longleftrightarrow>
     (\<exists>h p g header_bytes header sig_bytes payload_bytes.
        split_on CHR ''.'' jws = [h, p, g]
        \<and> b64_decode C h = Inr header_bytes \<and> json_read C header_bytes = Inr header
        \<and> Option.bind (json_get header ''alg'') as_str = Some (verifying_alg key)
        \<and> b64_decode C g = Inr sig_bytes \<and> verify_bytes C key (h @ ''.'' @ p) sig_bytes
        \<and> b64_decode C p = Inr payload_bytes \<and> de payload_bytes = Inr v)"
  (is "?l \<longleftrightarrow> ?r")
proof (cases "length (split_on CHR ''.'' jws) = 3")
  case True
  then obtain h p g where parts: "split_on CHR ''.'' jws = [h, p, g]"
    by (auto simp: numeral_3_eq_3 length_Suc_conv)
  show ?thesis
    by (simp add: jws_verify_def parts check_alg_eq_Inr) blast
next
  case False
  then have "\<not> ?r" by auto
  with False show ?thesis by (simp add: jws_verify_def)
qed

lemma jws_verify_decodes:
  "jws_verify C de jws key = Inr v \<Longrightarrow> decode_unverified C de jws = Inr v"
  by (auto simp: jws_verify_eq_Inr decode_unverified_def)

lemma jws_sign_verify:
  assumes "b64_ok C" "signatures_ok C" "header_read_ok C"
    and "de bs = Inr v" and "enc payload = Inr bs"
    and "jws_sign C enc payload key = Inr jws"
  shows "jws_verify C de jws (verifying_key_of C key) = Inr v"
proof -
  from assms(1,5,6) obtain
    parts: "split_on CHR ''.'' jws =
      [b64_encode C (header_for (signing_alg key)), b64_encode C bs,
       b64_encode C (sign_bytes C key
         (b64_encode C (header_for (signing_alg key)) @ ''.'' @ b64_encode C bs))]"
    by (auto elim: jws_sign_parts)
  let ?h = "JObj [(''alg'', JStr (signing_alg key)), (''typ'', JStr ''JWT'')]"
  have alg: "Option.bind (json_get ?h ''alg'') as_str = Some (verifying_alg (verifying_key_of C key))"
    by (simp add: json_get_def)
  show ?thesis
    unfolding jws_verify_eq_Inr
    using parts b64_okD(1) [OF assms(1)] header_read_okD [OF assms(3)] alg
      verify_sign_bytes [OF assms(2)] assms(4) by metis
qed

lemma jws_sign_decodes:
  assumes "b64_ok C" and "jws_sign C enc payload key = Inr jws"
    and "\<And>bs. enc payload = Inr bs \<Longrightarrow> de bs = Inr v"
  shows "decode_unverified C de jws = Inr v"
  using assms(1,2) by (rule jws_sign_parts) (simp add: decode_unverified_def assms(3) b64_okD [OF assms(1)])

text \<open>A token is verified only under a key whose algorithm its header names.\<close>

lemma token_verify_signature_eq_Inr:
  "token_verify_signature C de t key = Inr v \<longleftrightarrow>
     jws_verify C de (ut_jws t) key = Inr (vt_payload v) \<and> vt_jws v = ut_jws t"
  by (cases v) (auto simp: token_verify_signature_def)

lemma token_from_jws_eq_Inr:
  "token_from_jws C de jws = Inr t \<longleftrightarrow>
     decode_unverified C de jws = Inr (ut_payload t) \<and> ut_jws t = jws"
  by (cases t) (auto simp: token_from_jws_def)

lemma jwk_round_trip:
  assumes "b64_ok C" "public_keys_ok C"
  shows "jwk_to_public_key C (public_key_to_jwk C (verifying_key_of C k)) = Inr (verifying_key_of C k)"
  using assms(2)
  by (cases k) (simp_all add: jwk_to_public_key_def public_key_to_jwk_def verifying_key_of_def
    ed25519_from_bytes_def p256_from_coordinates_def public_keys_ok_def b64_okD [OF assms(1)])

section \<open>Properties\<close>

lemma sign_verify_round_trip:
  assumes "b64_ok C" "signatures_ok C" "public_keys_ok C" "header_read_ok C"
    and "enc payload = Inr bs" "de bs = Inr v"
  shows "\<exists>jws key. sign_payload C enc s payload = Inr jws
    \<and> jwk_to_public_key C (public_jwk C s) = Inr key
    \<and> token_verify_signature C de (UnverifiedToken jws p) key = Inr (VerifiedToken jws v)
    \<and> token_from_jws C de jws = Inr (UnverifiedToken jws v)"
proof -
  obtain jws where jws: "sign_payload C enc s payload = Inr jws"
    using assms(5) by (simp add: sign_payload_def jws_sign_def Let_def)
  then have "jws_verify C de jws (verifying_key_of C (signer_key s)) = Inr v"
    using assms jws_sign_verify [of C de bs v enc payload "signer_key s" jws]
    by (simp add: sign_payload_def)
  with jws show ?thesis
    using jwk_round_trip [OF assms(1,3), of "signer_key s"] jws_verify_decodes
    by (fastforce simp: public_jwk_def token_verify_signature_def token_from_jws_def)
qed

lemma algorithm_confusion_rejected:
  assumes "b64_ok C" "header_read_ok C"
    and "jws_sign C enc payload k = Inr jws"
    and "verifying_alg key \<noteq> signing_alg k"
  shows "jws_verify C de jws key = Inl AlgorithmMismatch"
proof -
  from assms(1,3) obtain bs where
    parts: "split_on CHR ''.'' jws =
      [b64_encode C (header_for (signing_alg k)), b64_encode C bs,
       b64_encode C (sign_bytes C k
         (b64_encode C (header_for (signing_alg k)) @ ''.'' @ b64_encode C bs))]"
    by (rule jws_sign_parts)
  show ?thesis
    using header_read_okD [OF assms(2), of k] assms(4) [symmetric]
    by (simp add: jws_verify_def parts b64_okD [OF assms(1)] check_alg_def json_get_def)
qed

section \<open>A concrete input\<close>

definition toy_header :: "string \<Rightarrow> json" where
  "toy_header alg = JObj [(''alg'', JStr alg), (''typ'', JStr ''JWT'')]"

text \<open>The toy cryptography with a JSON reader for the two fixed headers.\<close>

definition core_crypto :: crypto where
  "core_crypto = toy_crypto\<lparr>json_read := (\<lambda>bs. if bs = header_for ''EdDSA'' then Inr (toy_header ''EdDSA'')
        else if bs = header_for ''ES256'' then Inr (toy_header ''ES256'')
        else Inl [Lit ''no json''])\<rparr>"

lemma core_crypto_ok:
  "b64_ok core_crypto" "signatures_ok core_crypto" "public_keys_ok core_crypto"
  "header_read_ok core_crypto"
  using toy_crypto_ok
  by (simp_all add: core_crypto_def b64_ok_def signatures_ok_def public_keys_ok_def header_read_ok_def
    header_for_def toy_header_def)

end
