(* ===== verification/Narrowing.thy ===== *)
theory Narrowing
  imports Main
begin

text \<open>
  The contract between a permission and the relation that compares two permissions: if
  \<open>covers p c\<close> then whatever \<open>c\<close> accepts, \<open>p\<close> accepts. The v0 scopes and every
  constraint type of the v1 mandates provide it; the chain and list arguments that rest
  on it are proved once, here.
\<close>

locale narrowing =
  fixes accepts :: "'c \<Rightarrow> 'r \<Rightarrow> bool"
    and covers :: "'c \<Rightarrow> 'c \<Rightarrow> bool"
  assumes covers_sound: "covers p c \<Longrightarrow> accepts c r \<Longrightarrow> accepts p r"
begin

text \<open>A chain, leaf first, in which every link is covered by the next one.\<close>

lemma chain_accepts:
  assumes "successively (\<lambda>child parent. covers parent child) cs"
    and "cs \<noteq> []" and "accepts (hd cs) r"
  shows "\<forall>c \<in> set cs. accepts c r"
  using assms
proof (induction cs)
  case (Cons c cs)
  show ?case
  proof (cases cs)
    case Nil
    with Cons.prems show ?thesis by simp
  next
    case (Cons d ds)
    with Cons.prems have "covers d c" "accepts c r" by simp_all
    then have "accepts d r" by (rule covers_sound)
    with Cons Cons.prems Cons.IH show ?thesis by simp
  qed
qed simp

lemma root_accepts:
  assumes "successively (\<lambda>child parent. covers parent child) cs"
    and "cs \<noteq> []" and "accepts (hd cs) r"
  shows "accepts (last cs) r"
  using chain_accepts [OF assms] assms(2) by simp

text \<open>A list of constraints, each covered by some constraint of another list.\<close>

lemma all_covered:
  assumes "\<forall>p \<in> set ps. \<exists>c \<in> set cs. covers p c" and "\<forall>c \<in> set cs. accepts c r"
  shows "\<forall>p \<in> set ps. accepts p r"
  using assms covers_sound by blast

text \<open>A list read as alternatives: enough that every child alternative is covered.\<close>

lemma some_covered:
  assumes "\<forall>c \<in> set cs. \<exists>p \<in> set ps. covers p c" and "\<exists>c \<in> set cs. accepts c r"
  shows "\<exists>p \<in> set ps. accepts p r"
  using assms covers_sound by blast

end

end
