(* ===== verification/CoreScope.thy ===== *)
theory CoreScope
  imports CoreTypes Narrowing
begin

text \<open>
  Deterministic scope matching of \<open>aap-core\<close> (crates/core/src/scope.rs): \<open>matches\<close>
  decides a request against a scope at the verifier's time, \<open>narrows\<close> whether a child
  scope may be sub-delegated under a parent. Minute-of-day arithmetic is on \<open>u32\<close> and
  wraps, as the release build does.
\<close>

section \<open>Definitions\<close>

definition valid_amount :: "amount \<Rightarrow> bool" where
  "valid_amount a \<longleftrightarrow> f64_finite (a_value a) \<and> Fin 0 \<le> a_value a"

fun weekday_matches :: "weekday \<Rightarrow> chrono_weekday \<Rightarrow> bool" where
  "weekday_matches Mon CMon = True"
| "weekday_matches Tue CTue = True"
| "weekday_matches Wed CWed = True"
| "weekday_matches Thu CThu = True"
| "weekday_matches Fri CFri = True"
| "weekday_matches Sat CSat = True"
| "weekday_matches Sun CSun = True"
| "weekday_matches _ _ = False"

definition parse_u32 :: "string \<Rightarrow> u32 option" where
  "parse_u32 s = map_option of_nat (parse_uint 32 s)"

definition parse_hm :: "string \<Rightarrow> (u32 \<times> u32) option" where
  "parse_hm s = (case split_once (CHR '':'') s of None \<Rightarrow> None
     | Some (h, m) \<Rightarrow> (case parse_u32 h of None \<Rightarrow> None
       | Some h' \<Rightarrow> (case parse_u32 m of None \<Rightarrow> None | Some m' \<Rightarrow> Some (h', m'))))"

definition timestamp_in_window :: "chrono \<Rightarrow> datetime \<Rightarrow> time_window \<Rightarrow> bool" where
  "timestamp_in_window K ts window =
     (case tz_parse K (w_timezone window) of
        None \<Rightarrow> False
      | Some tz \<Rightarrow>
          (let local = with_timezone K tz ts in
           if \<not> list_ex (\<lambda>d. weekday_matches d (lt_weekday local)) (w_days window) then False
           else (case (parse_hm (w_start window), parse_hm (w_end window)) of
               (Some (sh, sm), Some (eh, em)) \<Rightarrow>
                 (let minute_of_day = lt_hour local * 60 + lt_minute local in
                  sh * 60 + sm \<le> minute_of_day \<and> minute_of_day \<le> eh * 60 + em)
             | _ \<Rightarrow> False)))"

text \<open>The seven rules of \<open>matches\<close>, in the order of the code's early returns.\<close>

definition matches_resources :: "scope \<Rightarrow> action_request \<Rightarrow> bool" where
  "matches_resources scope request =
     (case s_resources scope of None \<Rightarrow> True
      | Some resources \<Rightarrow> (case r_resource request of
          Some r \<Rightarrow> list_ex (\<lambda>x. x = r) resources | None \<Rightarrow> False))"

definition matches_amount :: "scope \<Rightarrow> action_request \<Rightarrow> bool" where
  "matches_amount scope request =
     (case s_max_amount scope of
        Some mx \<Rightarrow> (case r_amount request of
            Some amt \<Rightarrow> valid_amount amt \<and> valid_amount mx
              \<and> a_currency amt = a_currency mx \<and> a_value amt \<le> a_value mx
          | None \<Rightarrow> False)
      | None \<Rightarrow> r_amount request = None)"

definition matches_counterparty :: "scope \<Rightarrow> action_request \<Rightarrow> bool" where
  "matches_counterparty scope request =
     (case s_counterparties scope of None \<Rightarrow> True
      | Some cps \<Rightarrow>
          (if (case (cp_deny cps, r_counterparty request) of
                 (Some deny, Some cp) \<Rightarrow> list_ex (\<lambda>d. d = cp) deny | _ \<Rightarrow> False) then False
           else (case cp_allow cps of None \<Rightarrow> True
             | Some allow \<Rightarrow> (case r_counterparty request of
                 Some cp \<Rightarrow> list_ex (\<lambda>a. a = cp) allow | None \<Rightarrow> False))))"

definition matches_data_categories :: "scope \<Rightarrow> action_request \<Rightarrow> bool" where
  "matches_data_categories scope request =
     (case (s_data_categories scope, r_data_categories request) of
        (Some allowed, Some requested) \<Rightarrow> list_all (\<lambda>c. c \<in> set allowed) requested
      | _ \<Rightarrow> True)"

definition matches_time :: "chrono \<Rightarrow> scope \<Rightarrow> datetime \<Rightarrow> bool" where
  "matches_time K scope now =
     (case s_time_windows scope of None \<Rightarrow> True
      | Some windows \<Rightarrow> list_ex (timestamp_in_window K now) windows)"

definition matches :: "chrono \<Rightarrow> scope \<Rightarrow> action_request \<Rightarrow> datetime \<Rightarrow> bool" where
  "matches K scope request now =
     (if \<not> list_ex (\<lambda>a. a = r_action request) (s_actions scope) then False
      else if \<not> matches_resources scope request then False
      else if \<not> matches_amount scope request then False
      else if \<not> matches_counterparty scope request then False
      else if \<not> matches_data_categories scope request then False
      else if \<not> matches_time K scope now then False
      else True)"

text \<open>\<open>Option::zip(..).map(..).unwrap_or(false)\<close> over two parsed times.\<close>

definition hm_compare :: "(u32 \<times> u32 \<Rightarrow> u32 \<times> u32 \<Rightarrow> bool) \<Rightarrow> string \<Rightarrow> string \<Rightarrow> bool" where
  "hm_compare R c p = (case (parse_hm c, parse_hm p) of
     (Some x, Some y) \<Rightarrow> R x y | _ \<Rightarrow> False)"

text \<open>One child window inside one parent window, with Rust's lexicographic order on pairs.\<close>

definition window_contained :: "time_window \<Rightarrow> time_window \<Rightarrow> bool" where
  "window_contained parent_window child_window \<longleftrightarrow>
     w_timezone parent_window = w_timezone child_window
     \<and> list_all (\<lambda>d. d \<in> set (w_days parent_window)) (w_days child_window)
     \<and> hm_compare (\<lambda>c p. p \<le> c) (w_start child_window) (w_start parent_window)
     \<and> hm_compare (\<lambda>c p. c \<le> p) (w_end child_window) (w_end parent_window)"

definition narrows_list :: "string list option \<Rightarrow> string list option \<Rightarrow> bool" where
  "narrows_list parent child = (case parent of None \<Rightarrow> True
     | Some p \<Rightarrow> (case child of Some c \<Rightarrow> list_all (\<lambda>x. x \<in> set p) c | None \<Rightarrow> False))"

definition narrows_amount :: "amount option \<Rightarrow> amount option \<Rightarrow> bool" where
  "narrows_amount parent child = (case parent of None \<Rightarrow> True
     | Some pmax \<Rightarrow> (case child of
         Some cmax \<Rightarrow> valid_amount cmax \<and> valid_amount pmax
           \<and> a_currency cmax = a_currency pmax \<and> a_value cmax \<le> a_value pmax
       | None \<Rightarrow> False))"

definition unwrap_counterparties :: "counterparties option \<Rightarrow> counterparties" where
  "unwrap_counterparties m = (case m of None \<Rightarrow> default_counterparties | Some c \<Rightarrow> c)"

definition narrows_deny :: "counterparties \<Rightarrow> counterparties \<Rightarrow> bool" where
  "narrows_deny parent_cps child_cps = (case cp_deny parent_cps of None \<Rightarrow> True
     | Some pdeny \<Rightarrow> (let cdeny = (case cp_deny child_cps of None \<Rightarrow> [] | Some c \<Rightarrow> c)
         in list_all (\<lambda>d. d \<in> set cdeny) pdeny))"

definition narrows_windows :: "time_window list option \<Rightarrow> time_window list option \<Rightarrow> bool" where
  "narrows_windows parent child = (case parent of None \<Rightarrow> True
     | Some pw \<Rightarrow> (case child of None \<Rightarrow> False
         | Some cw \<Rightarrow> list_all (\<lambda>c. list_ex (\<lambda>p. window_contained p c) pw) cw))"

definition narrows :: "scope \<Rightarrow> scope \<Rightarrow> bool" where
  "narrows parent child =
     (let parent_cps = unwrap_counterparties (s_counterparties parent);
          child_cps = unwrap_counterparties (s_counterparties child) in
      if \<not> list_all (\<lambda>a. a \<in> set (s_actions parent)) (s_actions child) then False
      else if \<not> narrows_list (s_resources parent) (s_resources child) then False
      else if \<not> narrows_amount (s_max_amount parent) (s_max_amount child) then False
      else if \<not> narrows_list (cp_allow parent_cps) (cp_allow child_cps) then False
      else if \<not> narrows_deny parent_cps child_cps then False
      else if \<not> narrows_list (s_data_categories parent) (s_data_categories child) then False
      else if \<not> narrows_windows (s_time_windows parent) (s_time_windows child) then False
      else True)"

section \<open>What a scope allows\<close>

text \<open>
  The rules of spec/scope-matching.md on the request's data, as sets and bounds: the
  abstract specification of \<open>matches\<close>.
\<close>

definition opt_set :: "'a option \<Rightarrow> 'a set" where
  "opt_set m = (case m of None \<Rightarrow> {} | Some a \<Rightarrow> {a})"

definition within_amount :: "amount option \<Rightarrow> amount option \<Rightarrow> bool" where
  "within_amount bound amt =
     (case bound of
        None \<Rightarrow> amt = None
      | Some m \<Rightarrow> (\<exists>a q b. amt = Some a \<and> a_value a = Fin q \<and> a_value m = Fin b
          \<and> 0 \<le> q \<and> q \<le> b \<and> a_currency a = a_currency m))"

definition denied :: "counterparties \<Rightarrow> string set" where
  "denied cps = (case cp_deny cps of None \<Rightarrow> {} | Some d \<Rightarrow> set d)"

text \<open>
  The time rule: days are numbered from Monday, a time \<open>HH:MM\<close> is two decimal numerals
  around the first colon, read as minutes of the day, and both bounds belong to the window.
  Minutes are counted in \<open>u32\<close>, so that they wrap at \<open>2\<^sup>3\<^sup>2\<close>.
\<close>

fun day_index :: "weekday \<Rightarrow> nat" where
  "day_index Mon = 0"
| "day_index Tue = 1"
| "day_index Wed = 2"
| "day_index Thu = 3"
| "day_index Fri = 4"
| "day_index Sat = 5"
| "day_index Sun = 6"

definition numeral_text :: "string \<Rightarrow> nat \<Rightarrow> bool" where
  "numeral_text s n \<longleftrightarrow>
     (\<exists>ds. s \<in> {ds, CHR ''+'' # ds} \<and> ds \<noteq> [] \<and> (\<forall>c \<in> set ds. is_digit c)
        \<and> n = (\<Sum>i < length ds. digit_value (rev ds ! i) * 10 ^ i) \<and> n < 2 ^ 32)"

definition day_minutes :: "nat \<Rightarrow> nat \<Rightarrow> nat" where
  "day_minutes h m = (h * 60 + m) mod 2 ^ 32"

definition time_text :: "string \<Rightarrow> nat \<Rightarrow> bool" where
  "time_text s t \<longleftrightarrow>
     (\<exists>hs ms h m. s = hs @ CHR '':'' # ms \<and> CHR '':'' \<notin> set hs \<and> numeral_text hs h \<and> numeral_text ms m
        \<and> t = day_minutes h m)"

definition inside_window :: "chrono \<Rightarrow> datetime \<Rightarrow> time_window \<Rightarrow> bool" where
  "inside_window K now w \<longleftrightarrow>
     (\<exists>tz local from until.
        tz_parse K (w_timezone w) = Some tz \<and> local = with_timezone K tz now
      \<and> unat (num_days_from_monday (lt_weekday local)) \<in> day_index ` set (w_days w)
      \<and> time_text (w_start w) from \<and> time_text (w_end w) until
      \<and> day_minutes (unat (lt_hour local)) (unat (lt_minute local)) \<in> {from..until})"

definition scope_allows :: "chrono \<Rightarrow> scope \<Rightarrow> action_request \<Rightarrow> datetime \<Rightarrow> bool" where
  "scope_allows K scope request now \<longleftrightarrow>
     r_action request \<in> set (s_actions scope)
     \<and> (\<forall>rs. s_resources scope = Some rs \<longrightarrow> (\<exists>r \<in> set rs. r_resource request = Some r))
     \<and> within_amount (s_max_amount scope) (r_amount request)
     \<and> opt_set (r_counterparty request) \<inter> denied (unwrap_counterparties (s_counterparties scope)) = {}
     \<and> (\<forall>allow. cp_allow (unwrap_counterparties (s_counterparties scope)) = Some allow \<longrightarrow>
          (\<exists>cp \<in> set allow. r_counterparty request = Some cp))
     \<and> (\<forall>allowed requested. s_data_categories scope = Some allowed \<longrightarrow>
          r_data_categories request = Some requested \<longrightarrow> set requested \<subseteq> set allowed)
     \<and> (\<forall>ws. s_time_windows scope = Some ws \<longrightarrow> (\<exists>w \<in> set ws. inside_window K now w))"

lemma valid_amount_iff: "valid_amount a \<longleftrightarrow> (\<exists>q. a_value a = Fin q \<and> 0 \<le> q)"
  by (cases "a_value a") (auto simp: valid_amount_def)

lemma matches_amount_iff:
  "matches_amount scope request \<longleftrightarrow> within_amount (s_max_amount scope) (r_amount request)"
  by (auto simp: matches_amount_def within_amount_def valid_amount_iff split: option.splits)

lemma list_ex_eq_member: "list_ex (\<lambda>x. x = a) xs \<longleftrightarrow> a \<in> set xs"
  by (auto simp: list_ex_iff)

lemma matches_iff_rules:
  "matches K scope request now \<longleftrightarrow>
     r_action request \<in> set (s_actions scope) \<and> matches_resources scope request
     \<and> within_amount (s_max_amount scope) (r_amount request)
     \<and> matches_counterparty scope request \<and> matches_data_categories scope request
     \<and> matches_time K scope now"
  by (simp add: matches_def list_ex_eq_member matches_amount_iff)

lemma matches_resources_iff:
  "matches_resources scope request \<longleftrightarrow>
     (\<forall>rs. s_resources scope = Some rs \<longrightarrow> (\<exists>r \<in> set rs. r_resource request = Some r))"
  by (auto simp: matches_resources_def list_ex_iff split: option.splits)

lemma matches_counterparty_iff:
  "matches_counterparty scope request \<longleftrightarrow>
     opt_set (r_counterparty request) \<inter> denied (unwrap_counterparties (s_counterparties scope)) = {}
     \<and> (\<forall>allow. cp_allow (unwrap_counterparties (s_counterparties scope)) = Some allow \<longrightarrow>
          (\<exists>cp \<in> set allow. r_counterparty request = Some cp))"
  by (cases "s_counterparties scope"; cases "r_counterparty request")
    (auto simp: matches_counterparty_def unwrap_counterparties_def default_counterparties_def
      denied_def opt_set_def list_ex_iff split: option.splits)

lemma matches_data_categories_iff:
  "matches_data_categories scope request \<longleftrightarrow>
     (\<forall>allowed requested. s_data_categories scope = Some allowed \<longrightarrow>
        r_data_categories request = Some requested \<longrightarrow> set requested \<subseteq> set allowed)"
  by (auto simp: matches_data_categories_def list_all_member_subset split: option.splits)

lemma matches_time_iff:
  "matches_time K scope now \<longleftrightarrow>
     (\<forall>ws. s_time_windows scope = Some ws \<longrightarrow> (\<exists>w \<in> set ws. timestamp_in_window K now w))"
  by (auto simp: matches_time_def list_ex_iff split: option.splits)

lemma digits_value_sum: "digits_value ds = (\<Sum>i < length ds. digit_value (rev ds ! i) * 10 ^ i)"
proof (induction ds rule: rev_induct)
  case (snoc c ds)
  have "(\<Sum>i < Suc (length ds). digit_value ((c # rev ds) ! i) * 10 ^ i)
      = digit_value c + (\<Sum>i < length ds. digit_value (rev ds ! i) * 10 ^ Suc i)"
    unfolding sum.lessThan_Suc_shift by simp
  also have "\<dots> = digit_value c + 10 * digits_value ds"
    unfolding snoc.IH sum_distrib_left by (simp add: algebra_simps)
  finally show ?case by (simp add: digits_value_def)
qed (simp add: digits_value_def)

lemma parse_uint_numeral: "parse_uint 32 s = Some n \<longleftrightarrow> numeral_text s n"
proof -
  have plus: "\<not> is_digit (CHR ''+'')" by (simp add: is_digit_def)
  obtain ds where ds: "(case s of CHR ''+'' # r \<Rightarrow> r | _ \<Rightarrow> s) = ds" by blast
  have parsed: "parse_uint 32 s = (if ds \<noteq> [] \<and> list_all is_digit ds \<and> digits_value ds < 2 ^ 32
      then Some (digits_value ds) else None)"
    unfolding parse_uint_def ds Let_def by simp
  have "s = CHR ''+'' # ds \<or> s = ds \<and> (\<forall>r. s \<noteq> CHR ''+'' # r)"
  proof (cases s)
    case (Cons c r)
    show ?thesis
    proof (cases "c = CHR ''+''")
      case False
      with Cons ds show ?thesis by (auto split: list.splits char.splits bool.splits)
    qed (use Cons ds in simp)
  qed (use ds in simp)
  then show ?thesis
    unfolding parsed numeral_text_def digits_value_sum [symmetric] using plus by (auto simp: list_all_iff)
qed

lemma minutes_unat: "unat (h * 60 + m :: u32) = day_minutes (unat h) (unat m)"
  by (simp add: day_minutes_def unat_word_ariths mod_simps)

lemma parse_hm_time:
  "time_text s t \<longleftrightarrow> (\<exists>h m. parse_hm s = Some (h, m) \<and> t = unat (h * 60 + m))"
proof -
  have u32: "parse_u32 x = Some k \<longleftrightarrow> numeral_text x (unat k)" for x k
  proof -
    have "parse_uint 32 x = Some n \<Longrightarrow> unat (of_nat n :: u32) = n" for n
      using parse_uint_bound [of 32 x n] by (simp add: unat_of_nat)
    then show ?thesis
      unfolding parse_u32_def parse_uint_numeral [symmetric] by (auto simp: map_option_case split: option.splits)
  qed
  have nat: "numeral_text x n \<longleftrightarrow> (\<exists>k :: u32. n = unat k \<and> parse_u32 x = Some k)" for x n
  proof
    assume n: "numeral_text x n"
    then have "n < 2 ^ 32" by (auto simp: numeral_text_def)
    then have "n = unat (of_nat n :: u32)" by (simp add: unat_of_nat)
    with n show "\<exists>k :: u32. n = unat k \<and> parse_u32 x = Some k" unfolding u32 by metis
  qed (auto simp: u32)
  have parts: "split_once CHR '':'' s = Some (hs, ms) \<longleftrightarrow> s = hs @ CHR '':'' # ms \<and> CHR '':'' \<notin> set hs" for hs ms
    using split_once_Some split_once_append by metis
  have "parse_hm s = Some (h, m) \<longleftrightarrow>
      (\<exists>hs ms. split_once CHR '':'' s = Some (hs, ms) \<and> parse_u32 hs = Some h \<and> parse_u32 ms = Some m)" for h m
    by (auto simp: parse_hm_def split: option.splits)
  then show ?thesis
    unfolding time_text_def parts nat by (auto simp: minutes_unat) blast+
qed

lemma weekday_matches_iff: "weekday_matches d c \<longleftrightarrow> unat (num_days_from_monday c) = day_index d"
  by (cases d; cases c) simp_all

lemma window_rule_iff: "timestamp_in_window K now w \<longleftrightarrow> inside_window K now w"
proof (cases "tz_parse K (w_timezone w)")
  case (Some tz)
  let ?l = "with_timezone K tz now"
  have "list_ex (\<lambda>d. weekday_matches d (lt_weekday ?l)) (w_days w)
      \<longleftrightarrow> unat (num_days_from_monday (lt_weekday ?l)) \<in> day_index ` set (w_days w)"
    by (auto simp: list_ex_iff weekday_matches_iff)
  moreover have "(case (parse_hm (w_start w), parse_hm (w_end w)) of
      (Some (sh, sm), Some (eh, em)) \<Rightarrow> (let minute_of_day = lt_hour ?l * 60 + lt_minute ?l in
         sh * 60 + sm \<le> minute_of_day \<and> minute_of_day \<le> eh * 60 + em) | _ \<Rightarrow> False)
    \<longleftrightarrow> (\<exists>from until. time_text (w_start w) from \<and> time_text (w_end w) until
        \<and> day_minutes (unat (lt_hour ?l)) (unat (lt_minute ?l)) \<in> {from..until})"
    unfolding parse_hm_time minutes_unat [symmetric]
    by (auto simp: Let_def word_le_nat_alt split: option.splits prod.splits)
  ultimately show ?thesis
    using Some by (simp add: timestamp_in_window_def inside_window_def Let_def)
qed (simp add: timestamp_in_window_def inside_window_def)

lemma matches_eq_allows: "matches K scope request now \<longleftrightarrow> scope_allows K scope request now"
  by (simp add: matches_iff_rules scope_allows_def matches_resources_iff matches_counterparty_iff
      matches_data_categories_iff matches_time_iff window_rule_iff)

text \<open>C5: matches accepts a request exactly when it satisfies seven declarative rules over
  sets, bounds and the local clock: listed action and resource, an amount within a finite
  non-negative ceiling of the same currency and none without a ceiling, counterparty not
  denied and, under an allow list, allowed, requested data categories included (a request
  that names none passes), and, under time windows, an evaluation time that in the zone of
  one of them falls on one of its days, not before the minute its start names and not after
  the minute its end names.\<close>
theorem matches_correct: "matches K scope request now \<longleftrightarrow> scope_allows K scope request now"
  by (rule matches_eq_allows)

lemma matches_ignores_timestamp:
  "matches K scope (request\<lparr>r_timestamp := t\<rparr>) now = matches K scope request now"
  by (simp add: matches_eq_allows scope_allows_def)

section \<open>Narrowing\<close>

text \<open>Times a well-formed window carries: at most 24 hours and 59 minutes.\<close>

definition hm_ok :: "string \<Rightarrow> bool" where
  "hm_ok s = (case parse_hm s of None \<Rightarrow> True | Some (h, m) \<Rightarrow> h \<le> 24 \<and> m < 60)"

definition window_ok :: "time_window \<Rightarrow> bool" where
  "window_ok w \<longleftrightarrow> hm_ok (w_start w) \<and> hm_ok (w_end w)"

definition times_ok :: "scope \<Rightarrow> bool" where
  "times_ok scope = (case s_time_windows scope of None \<Rightarrow> True | Some ws \<Rightarrow> list_all window_ok ws)"

text \<open>The child carries a ceiling only where the parent carries one.\<close>

definition no_new_money :: "scope \<Rightarrow> scope \<Rightarrow> bool" where
  "no_new_money parent child \<longleftrightarrow> (s_max_amount parent = None \<longrightarrow> s_max_amount child = None)"

lemma hm_minutes:
  assumes "h \<le> (24 :: u32)" and "m < (60 :: u32)"
  shows "unat (h * 60 + m) = unat h * 60 + unat m" and "unat h \<le> 24" and "unat m < 60"
proof -
  from assms show b: "unat h \<le> 24" "unat m < 60"
    by (simp_all add: word_le_nat_alt word_less_nat_alt)
  then show "unat (h * 60 + m) = unat h * 60 + unat m"
    by (simp add: unat_word_ariths)
qed

lemma hm_lex_minutes:
  assumes "h \<le> (24 :: u32)" "m < (60 :: u32)" "h' \<le> (24 :: u32)" "m' < (60 :: u32)"
    and "(h, m) \<le> (h', m')"
  shows "h * 60 + m \<le> h' * 60 + m'"
proof -
  have "unat h < unat h' \<or> unat h = unat h' \<and> unat m \<le> unat m'"
    using assms(5) by (auto simp: less_eq_prod_def word_less_nat_alt word_le_nat_alt split: if_splits)
  with hm_minutes [OF assms(1,2)] hm_minutes [OF assms(3,4)] show ?thesis
    by (auto simp: word_le_nat_alt)
qed

lemma weekday_matches_unique: "weekday_matches d c \<Longrightarrow> weekday_matches d' c \<Longrightarrow> d = d'"
  by (cases d; cases c; cases d') simp_all

lemma timestamp_in_window_iff:
  "timestamp_in_window K ts w \<longleftrightarrow>
     (\<exists>tz s e. tz_parse K (w_timezone w) = Some tz
        \<and> parse_hm (w_start w) = Some s \<and> parse_hm (w_end w) = Some e
        \<and> (\<exists>d \<in> set (w_days w). weekday_matches d (lt_weekday (with_timezone K tz ts)))
        \<and> (let m = lt_hour (with_timezone K tz ts) * 60 + lt_minute (with_timezone K tz ts)
           in fst s * 60 + snd s \<le> m \<and> m \<le> fst e * 60 + snd e))"
  by (auto simp: timestamp_in_window_def Let_def list_ex_iff split: option.splits)

lemma hm_ok_le:
  assumes "hm_ok a" and "hm_ok b" and "parse_hm a = Some s" and "parse_hm b = Some t" and "s \<le> t"
  shows "fst s * 60 + snd s \<le> fst t * 60 + snd t"
  using assms by (cases s; cases t) (simp add: hm_ok_def hm_lex_minutes)

lemma window_contained_sound:
  assumes "window_contained p c" and "window_ok p" and "window_ok c"
    and "timestamp_in_window K ts c"
  shows "timestamp_in_window K ts p"
proof -
  obtain tz s e where c: "tz_parse K (w_timezone c) = Some tz"
    "parse_hm (w_start c) = Some s" "parse_hm (w_end c) = Some e"
    "\<exists>d \<in> set (w_days c). weekday_matches d (lt_weekday (with_timezone K tz ts))"
    "let m = lt_hour (with_timezone K tz ts) * 60 + lt_minute (with_timezone K tz ts)
     in fst s * 60 + snd s \<le> m \<and> m \<le> fst e * 60 + snd e"
    using assms(4) unfolding timestamp_in_window_iff by blast
  from assms(1) c obtain s' e' where
    p: "parse_hm (w_start p) = Some s'" "s' \<le> s" "parse_hm (w_end p) = Some e'" "e \<le> e'"
      "w_timezone p = w_timezone c" "set (w_days c) \<subseteq> set (w_days p)"
    by (auto simp: window_contained_def hm_compare_def list_all_member_subset split: option.splits)
  have "fst s' * 60 + snd s' \<le> fst s * 60 + snd s" "fst e * 60 + snd e \<le> fst e' * 60 + snd e'"
    using assms(2,3) hm_ok_le [OF _ _ p(1) c(2) p(2)] hm_ok_le [OF _ _ c(3) p(3) p(4)]
    by (simp_all add: window_ok_def)
  then have "let m = lt_hour (with_timezone K tz ts) * 60 + lt_minute (with_timezone K tz ts)
     in fst s' * 60 + snd s' \<le> m \<and> m \<le> fst e' * 60 + snd e'"
    using c(5) unfolding Let_def by (meson order.trans)
  moreover have "\<exists>d \<in> set (w_days p). weekday_matches d (lt_weekday (with_timezone K tz ts))"
    using c(4) p(6) by blast
  moreover have "tz_parse K (w_timezone p) = Some tz" using c(1) p(5) by simp
  ultimately show ?thesis
    unfolding timestamp_in_window_iff using p(1,3) by blast
qed

lemma narrows_iff_rules:
  "narrows parent child \<longleftrightarrow>
     set (s_actions child) \<subseteq> set (s_actions parent)
     \<and> narrows_list (s_resources parent) (s_resources child)
     \<and> narrows_amount (s_max_amount parent) (s_max_amount child)
     \<and> narrows_list (cp_allow (unwrap_counterparties (s_counterparties parent)))
         (cp_allow (unwrap_counterparties (s_counterparties child)))
     \<and> narrows_deny (unwrap_counterparties (s_counterparties parent))
         (unwrap_counterparties (s_counterparties child))
     \<and> narrows_list (s_data_categories parent) (s_data_categories child)
     \<and> narrows_windows (s_time_windows parent) (s_time_windows child)"
  by (simp add: narrows_def Let_def list_all_member_subset)

lemma narrows_list_iff:
  "narrows_list parent child \<longleftrightarrow>
     (\<forall>p. parent = Some p \<longrightarrow> (\<exists>c. child = Some c \<and> set c \<subseteq> set p))"
  by (auto simp: narrows_list_def list_all_member_subset split: option.splits)

lemma narrows_deny_iff: "narrows_deny parent child \<longleftrightarrow> denied parent \<subseteq> denied child"
  by (auto simp: narrows_deny_def denied_def Let_def list_all_iff split: option.splits)

lemma narrows_windows_sound:
  assumes "narrows_windows (s_time_windows p) (s_time_windows c)"
    and "times_ok p" and "times_ok c" and "matches_time K c now"
  shows "matches_time K p now"
proof (cases "s_time_windows p")
  case None
  then show ?thesis by (simp add: matches_time_def)
next
  case (Some pw)
  with assms(1) obtain cw where cw: "s_time_windows c = Some cw"
    and cov: "\<forall>w \<in> set cw. \<exists>v \<in> set pw. window_contained v w"
    by (auto simp: narrows_windows_def list_all_iff list_ex_iff split: option.splits)
  from assms(4) cw obtain w where w: "w \<in> set cw" "timestamp_in_window K now w"
    by (auto simp: matches_time_def list_ex_iff)
  with cov obtain v where v: "v \<in> set pw" "window_contained v w" by blast
  have "window_ok v" "window_ok w"
    using assms(2,3) Some cw v(1) w(1) by (auto simp: times_ok_def list_all_iff)
  with v w have "timestamp_in_window K now v" by (blast intro: window_contained_sound)
  with Some v(1) show ?thesis by (auto simp: matches_time_def list_ex_iff)
qed

lemma narrows_amount_sound:
  assumes "narrows_amount p c" and "p = None \<longrightarrow> c = None" and "within_amount c a"
  shows "within_amount p a"
  using assms
  by (auto simp: narrows_amount_def within_amount_def valid_amount_iff split: option.splits)

lemma narrows_counterparties_sound:
  assumes "narrows_list (cp_allow (unwrap_counterparties (s_counterparties p)))
      (cp_allow (unwrap_counterparties (s_counterparties c)))"
    and "narrows_deny (unwrap_counterparties (s_counterparties p))
      (unwrap_counterparties (s_counterparties c))"
    and "matches_counterparty c r"
  shows "matches_counterparty p r"
  using assms unfolding narrows_list_iff narrows_deny_iff matches_counterparty_iff by fast

lemma narrows_lists_sound:
  "narrows_list (s_resources p) (s_resources c) \<Longrightarrow> matches_resources c r \<Longrightarrow> matches_resources p r"
  "narrows_list (s_data_categories p) (s_data_categories c) \<Longrightarrow>
     matches_data_categories c r \<Longrightarrow> matches_data_categories p r"
  by (auto simp: narrows_list_iff matches_resources_def matches_data_categories_def
      list_ex_iff list_all_iff split: option.splits)

text \<open>What narrowing guarantees, with the two conditions \<open>narrows\<close> does not check itself.\<close>

definition narrows_safely :: "scope \<Rightarrow> scope \<Rightarrow> bool" where
  "narrows_safely p c \<longleftrightarrow> narrows p c \<and> no_new_money p c \<and> times_ok p \<and> times_ok c"

lemma narrows_safely_sound:
  assumes n: "narrows_safely p c" and m: "matches K c r now"
  shows "matches K p r now"
proof -
  note rules = n [unfolded narrows_safely_def narrows_iff_rules no_new_money_def]
    m [unfolded matches_iff_rules]
  have "matches_time K p now" using rules narrows_windows_sound by blast
  moreover have "matches_counterparty p r" using rules narrows_counterparties_sound by blast
  moreover have "matches_resources p r" "matches_data_categories p r"
    using rules narrows_lists_sound by blast+
  moreover have "within_amount (s_max_amount p) (r_amount r)"
    using narrows_amount_sound [of "s_max_amount p" "s_max_amount c"] rules by simp
  moreover have "r_action r \<in> set (s_actions p)" using rules by blast
  ultimately show ?thesis by (simp add: matches_iff_rules)
qed

interpretation scope_narrowing:
  narrowing "\<lambda>s (K, r, now). matches K s r now" narrows_safely
  by unfold_locales (auto intro: narrows_safely_sound)

text \<open>C6: If narrows accepts the child, the child introduces no ceiling the parent lacks and
  all window times are well formed, then every request the child scope authorizes at any
  time is also authorized by the parent.\<close>
theorem narrows_sound:
  assumes "narrows p c" and "no_new_money p c" and "times_ok p" and "times_ok c"
    and "matches K c r now"
  shows "matches K p r now"
  using narrows_safely_sound [of p c K r now] assms by (simp add: narrows_safely_def)

lemma narrowing_chain_sound:
  assumes "successively (\<lambda>child parent. narrows_safely parent child) scopes" and "scopes \<noteq> []"
    and "matches K (hd scopes) r now"
  shows "\<forall>s \<in> set scopes. matches K s r now"
  using scope_narrowing.chain_accepts [OF assms(1,2), of "(K, r, now)"] assms(3) by simp

lemma narrows_list_trans: "narrows_list a b \<Longrightarrow> narrows_list b c \<Longrightarrow> narrows_list a c"
  by (fastforce simp: narrows_list_iff)

lemma narrows_amount_trans: "narrows_amount a b \<Longrightarrow> narrows_amount b c \<Longrightarrow> narrows_amount a c"
  by (auto simp: narrows_amount_def split: option.splits intro: f64_le_trans)

lemma hm_compare_trans:
  assumes "hm_compare R a b" and "hm_compare R b c" and "\<And>x y z. R x y \<Longrightarrow> R y z \<Longrightarrow> R x z"
  shows "hm_compare R a c"
  using assms by (auto simp: hm_compare_def split: option.splits)

lemma window_contained_trans:
  assumes "window_contained a b" and "window_contained b c"
  shows "window_contained a c"
proof -
  note ab = assms(1) [unfolded window_contained_def list_all_member_subset]
    and bc = assms(2) [unfolded window_contained_def list_all_member_subset]
  have "hm_compare (\<lambda>c p. p \<le> c) (w_start c) (w_start a)"
    by (rule hm_compare_trans [where b = "w_start b"]) (use ab bc in auto)
  moreover have "hm_compare (\<lambda>c p. c \<le> p) (w_end c) (w_end a)"
    by (rule hm_compare_trans [where b = "w_end b"]) (use ab bc in auto)
  ultimately show ?thesis
    using ab bc unfolding window_contained_def list_all_member_subset by simp blast
qed

lemma narrows_windows_trans:
  "narrows_windows a b \<Longrightarrow> narrows_windows b c \<Longrightarrow> narrows_windows a c"
  unfolding narrows_windows_def
  by (auto simp: list_all_iff list_ex_iff split: option.splits) (meson window_contained_trans)

lemma narrows_trans: "narrows a b \<Longrightarrow> narrows b c \<Longrightarrow> narrows a c"
  unfolding narrows_iff_rules narrows_deny_iff
  by (meson narrows_list_trans narrows_amount_trans narrows_windows_trans subset_trans)

section \<open>Where \<open>narrows\<close> lets a child exceed its parent\<close>

text \<open>
  A parent without a ceiling rejects every request with an amount, yet accepts a child
  that introduces one; and lexicographic comparison of unnormalised \<open>HH:MM\<close> pairs is
  not the order of the minutes they denote.
\<close>

definition payments :: scope where
  "payments = default_scope\<lparr>s_actions := [''create_payment'']\<rparr>"

definition payments_to_100 :: scope where
  "payments_to_100 = payments\<lparr>s_max_amount := Some \<lparr>a_value = Fin 100, a_currency = ''EUR''\<rparr>\<rparr>"

definition pay_50 :: action_request where
  "pay_50 = \<lparr>r_action = ''create_payment'', r_resource = None,
     r_amount = Some \<lparr>a_value = Fin 50, a_currency = ''EUR''\<rparr>, r_counterparty = None,
     r_data_categories = None, r_timestamp = 0\<rparr>"

definition monday :: "string \<Rightarrow> string \<Rightarrow> time_window" where
  "monday s e = \<lparr>w_days = [Mon], w_start = s, w_end = e, w_timezone = ''UTC''\<rparr>"

definition payments_until :: "string \<Rightarrow> scope" where
  "payments_until e = payments_to_100\<lparr>s_time_windows := Some [monday ''09:00'' e]\<rparr>"

text \<open>A clock that shows Monday 11:15, for the concrete inputs.\<close>

definition monday_1115 :: chrono where
  "monday_1115 = \<lparr>tz_parse = (\<lambda>s. Some s),
     with_timezone = (\<lambda>z t. \<lparr>lt_weekday = CMon, lt_hour = 11, lt_minute = 15\<rparr>),
     from_timestamp = (\<lambda>n. Some (n * 1000000000)), dt_timestamp = (\<lambda>t. t div 1000000000),
     dt_checked_add_months = (\<lambda>t n. Some t), parse_rfc3339 = (\<lambda>s. None),
     parse_ymd_midnight = (\<lambda>s. None)\<rparr>"

lemma monday_1115_ok: "chrono_ok monday_1115"
  by (simp add: chrono_ok_def monday_1115_def)

lemma hm_values:
  "parse_hm ''09:00'' = Some (9, 0)" "parse_hm ''11:00'' = Some (11, 0)"
  "parse_hm ''10:90'' = Some (10, 90)" "parse_hm ''12:00'' = Some (12, 0)"
  by (simp_all add: parse_hm_def parse_u32_def parse_uint_def is_digit_def digits_value_def
      digit_value_def)

lemma narrows_admits_new_money:
  "\<exists>K p c r now. chrono_ok K \<and> narrows p c \<and> times_ok p \<and> times_ok c
     \<and> matches K c r now \<and> \<not> matches K p r now"
proof -
  have "narrows payments payments_to_100" "times_ok payments" "times_ok payments_to_100"
    "matches monday_1115 payments_to_100 pay_50 0" "\<not> matches monday_1115 payments pay_50 0"
    by (simp_all add: narrows_iff_rules matches_iff_rules payments_def payments_to_100_def
        default_scope_def pay_50_def narrows_list_def narrows_amount_def narrows_deny_iff
        narrows_windows_def times_ok_def matches_resources_def matches_counterparty_def
        matches_data_categories_def matches_time_def within_amount_def unwrap_counterparties_def default_counterparties_def denied_def opt_set_def)
  with monday_1115_ok show ?thesis by blast
qed

lemma narrows_admits_later_hours:
  "\<exists>K p c r now. chrono_ok K \<and> narrows p c \<and> no_new_money p c
     \<and> matches K c r now \<and> \<not> matches K p r now"
proof -
  let ?p = "payments_until ''11:00''" and ?c = "payments_until ''10:90''"
  have "narrows ?p ?c" "no_new_money ?p ?c"
    "matches monday_1115 ?c pay_50 0" "\<not> matches monday_1115 ?p pay_50 0"
    by (simp_all add: narrows_iff_rules matches_iff_rules payments_def payments_to_100_def
        payments_until_def monday_def default_scope_def pay_50_def narrows_list_def
        narrows_amount_def narrows_deny_iff narrows_windows_def window_contained_def
        hm_compare_def hm_values no_new_money_def valid_amount_def
        matches_resources_def matches_counterparty_def matches_data_categories_def
        matches_time_def timestamp_in_window_def monday_1115_def within_amount_def
        unwrap_counterparties_def default_counterparties_def denied_def opt_set_def)
  with monday_1115_ok show ?thesis by blast
qed

section \<open>Concrete inputs\<close>

lemma payments_until_safe: "narrows_safely (payments_until ''12:00'') (payments_until ''12:00'')"
  by (simp add: narrows_safely_def narrows_iff_rules payments_def payments_to_100_def
      payments_until_def monday_def default_scope_def narrows_list_def
      narrows_amount_def narrows_deny_iff narrows_windows_def window_contained_def
      hm_compare_def hm_values no_new_money_def valid_amount_def times_ok_def window_ok_def hm_ok_def
      unwrap_counterparties_def default_counterparties_def)

lemma payments_until_matches: "matches monday_1115 (payments_until ''12:00'') pay_50 0"
  by (simp add: matches_iff_rules payments_def payments_to_100_def
      payments_until_def monday_def default_scope_def pay_50_def hm_values
      matches_resources_def matches_counterparty_def matches_data_categories_def
      matches_time_def timestamp_in_window_def monday_1115_def within_amount_def
      unwrap_counterparties_def default_counterparties_def)

lemmas payments_until_facts =
  payments_until_safe [unfolded narrows_safely_def] payments_until_matches

theorem narrows_sound_witness: "matches monday_1115 (payments_until ''12:00'') pay_50 0"
  by (rule narrows_sound [of "payments_until ''12:00''" "payments_until ''12:00''"])
    (simp_all add: payments_until_facts)

end
