(* ===== verification/CoreVerifier.thy ===== *)
theory CoreVerifier
  imports CoreJws CoreScope
begin

text \<open>
  The relying party of \<open>aap-core\<close>: the replay store (nonce.rs), revocation (status.rs),
  the principal registry (resolver.rs), issuance (delegation.rs, message.rs), receipts
  (receipt.rs) and the verification flow itself (verifier.rs). The verifier is generic in
  its four services, as the code is in its four traits; the in-memory services of the
  crate provide them. The nonce store is the only service a verification changes, so its
  state is threaded through. \<open>Uuid::new_v4()\<close> and \<open>Utc::now()\<close> are arguments.
\<close>

section \<open>Replay store, revocation, registry\<close>

text \<open>\<open>InMemoryNonceStore\<close>: \<open>HashSet::insert\<close> tells whether the pair is new.\<close>

type_synonym nonces = "(string \<times> string) set"

definition nonce_store_new :: nonces where "nonce_store_new = {}"

definition nonce_seen_and_record :: "string \<Rightarrow> string \<Rightarrow> nonces \<Rightarrow> bool \<times> nonces" where
  "nonce_seen_and_record agent nonce seen =
     ((agent, nonce) \<in> seen, insert (agent, nonce) seen)"

type_synonym status = "uuid set"

definition revoke :: "uuid \<Rightarrow> status \<Rightarrow> status" where
  "revoke delegation revoked = insert delegation revoked"

definition is_revoked_in :: "status \<Rightarrow> uuid \<Rightarrow> bool" where
  "is_revoked_in revoked delegation \<longleftrightarrow> delegation \<in> revoked"

type_synonym registry = "string \<rightharpoonup> public_key_jwk"

definition register :: "string \<Rightarrow> public_key_jwk \<Rightarrow> registry \<Rightarrow> registry" where
  "register pid key reg = reg(pid \<mapsto> key)"

definition resolve_in :: "crypto \<Rightarrow> registry \<Rightarrow> string \<Rightarrow> message + verifying_key" where
  "resolve_in C reg pid =
     rbind (ok_or (reg pid) [Lit ''unknown principal_id: '', Lit pid])
       (\<lambda>jwk. map_err jws_error_text (jwk_to_public_key C jwk))"

section \<open>Codecs, receipts, the verifier\<close>

datatype receipt_outcome = Accepted | Rejected (reason: message)

record receipt =
  receipt_id :: uuid
  rc_verifier_id :: string
  rc_agent_id :: string
  delegation_ids :: "uuid list"
  request_digest :: string
  rc_outcome :: receipt_outcome
  decided_at :: datetime

text \<open>The serializers and deserializers serde derives for the signed payloads.\<close>

record core_codec =
  enc_delegation :: "delegation \<Rightarrow> message + bytes"
  dec_delegation :: "bytes \<Rightarrow> message + delegation"
  enc_message :: "agent_message \<Rightarrow> message + bytes"
  dec_message :: "bytes \<Rightarrow> message + agent_message"
  enc_receipt :: "receipt \<Rightarrow> message + bytes"

definition digest_request :: "crypto \<Rightarrow> string \<Rightarrow> string" where
  "digest_request C agent_message_jws = ''sha256:'' @ b64_encode C (sha256 C agent_message_jws)"

record verified_action =
  va_chain :: "delegation list"
  va_message :: agent_message

record issued_receipt =
  ir_jws :: string
  ir_payload :: receipt

record verification_outcome =
  decision :: "verification_failure + verified_action"
  vo_receipt :: issued_receipt

record 'n verifier =
  verifier_id :: string
  audience :: string
  resolve_principal_key :: "string \<Rightarrow> message + verifying_key"
  is_revoked :: "uuid \<Rightarrow> bool"
  seen_and_record :: "string \<Rightarrow> string \<Rightarrow> 'n \<Rightarrow> bool \<times> 'n"
  receipt_signer :: "receipt \<Rightarrow> jws_error + string"
  max_message_age :: int
  max_clock_skew :: int

definition seconds :: "int \<Rightarrow> int" where "seconds n = n * 1000000000"

definition DEFAULT_MAX_MESSAGE_AGE_SECS :: i64 where "DEFAULT_MAX_MESSAGE_AGE_SECS = 300"
definition DEFAULT_MAX_CLOCK_SKEW_SECS :: i64 where "DEFAULT_MAX_CLOCK_SKEW_SECS = 60"

definition verifier_new ::
  "string \<Rightarrow> string \<Rightarrow> (string \<Rightarrow> message + verifying_key) \<Rightarrow> (uuid \<Rightarrow> bool)
   \<Rightarrow> (string \<Rightarrow> string \<Rightarrow> 'n \<Rightarrow> bool \<times> 'n) \<Rightarrow> (receipt \<Rightarrow> jws_error + string) \<Rightarrow> 'n verifier" where
  "verifier_new vid aud resolver status nonces signer =
     \<lparr>verifier_id = vid, audience = aud, resolve_principal_key = resolver,
      is_revoked = status, seen_and_record = nonces, receipt_signer = signer,
      max_message_age = seconds DEFAULT_MAX_MESSAGE_AGE_SECS,
      max_clock_skew = seconds DEFAULT_MAX_CLOCK_SKEW_SECS\<rparr>"

definition with_message_freshness :: "'n verifier \<Rightarrow> int \<Rightarrow> int \<Rightarrow> 'n verifier" where
  "with_message_freshness V max_age max_skew =
     V\<lparr>max_message_age := max_age, max_clock_skew := max_skew\<rparr>"

section \<open>The verification flow\<close>

text \<open>
  The key a link must be signed with: the agent key its parent names, or for the last
  link the principal's.
\<close>

definition link_signer_key ::
  "crypto \<Rightarrow> core_codec \<Rightarrow> 'n verifier \<Rightarrow> delegation unverified_token \<Rightarrow> string list
   \<Rightarrow> verification_failure + verifying_key" where
  "link_signer_key C D V unverified parents =
     (case parents of
        parent # _ \<Rightarrow>
          rbind (map_err (\<lambda>_. ChainBroken [Lit ''cannot parse parent link''])
                   (token_from_jws C (dec_delegation D) parent)) (\<lambda>parent_unverified.
          map_err (\<lambda>_. InvalidDelegationSignature)
            (jwk_to_public_key C (agent_public_key (ut_payload parent_unverified))))
      | [] \<Rightarrow>
          map_err KeyResolutionFailed
            (resolve_principal_key V (principal_id (ut_payload unverified))))"

definition verify_link ::
  "crypto \<Rightarrow> core_codec \<Rightarrow> 'n verifier \<Rightarrow> datetime \<Rightarrow> string \<Rightarrow> string list
   \<Rightarrow> verification_failure + delegation" where
  "verify_link C D V now jws parents =
     rbind (map_err (\<lambda>_. InvalidDelegationSignature)
              (token_from_jws C (dec_delegation D) jws)) (\<lambda>unverified.
     rbind (link_signer_key C D V unverified parents) (\<lambda>signer_key.
     rbind (map_err (\<lambda>_. InvalidDelegationSignature)
              (token_verify_signature C (dec_delegation D) unverified signer_key)) (\<lambda>verified.
     if now < valid_from (vt_payload verified) then Inl NotYetValid
     else if now > valid_until (vt_payload verified) then Inl Expired
     else if is_revoked V (delegation_id (vt_payload verified)) then Inl Revoked
     else Inr (vt_payload verified))))"

fun verify_links ::
  "crypto \<Rightarrow> core_codec \<Rightarrow> 'n verifier \<Rightarrow> datetime \<Rightarrow> string list
   \<Rightarrow> verification_failure + delegation list" where
  "verify_links C D V now [] = Inr []"
| "verify_links C D V now (jws # parents) =
     rbind (verify_link C D V now jws parents) (\<lambda>d.
     rbind (verify_links C D V now parents) (\<lambda>ds. Inr (d # ds)))"

definition check_link :: "nat \<Rightarrow> delegation \<Rightarrow> delegation \<Rightarrow> verification_failure + unit" where
  "check_link i child parent =
     (if parent_delegation_id child \<noteq> Some (delegation_id parent) then
        Inl (ChainBroken [Lit ''parent_delegation_id does not match the next link''])
      else if principal_id child \<noteq> principal_id parent
           \<or> principal_type_of child \<noteq> principal_type_of parent then
        Inl (ChainBroken [Lit ''sub-delegation names a different principal than its parent''])
      else if valid_from child < valid_from parent \<or> valid_until child > valid_until parent then
        Inl (ChainBroken [Lit ''sub-delegation is valid outside its parent's validity period''])
      else if \<not> can_delegate parent then
        Inl (ChainBroken [Lit ''parent delegation does not permit sub-delegation''])
      else if (case max_delegation_depth parent of None \<Rightarrow> False
               | Some max_depth \<Rightarrow> (word_of_nat (i + 1) :: u32) > max_depth) then
        Inl ChainTooDeep
      else if \<not> narrows (d_scope parent) (d_scope child) then
        Inl ScopeNotNarrowed
      else Inr ())"

fun check_links :: "nat \<Rightarrow> delegation list \<Rightarrow> verification_failure + unit" where
  "check_links i (child # parent # ds) =
     rbind (check_link i child parent) (\<lambda>_. check_links (i + 1) (parent # ds))"
| "check_links i ds = Inr ()"

definition check_message ::
  "crypto \<Rightarrow> core_codec \<Rightarrow> 'n verifier \<Rightarrow> datetime \<Rightarrow> delegation \<Rightarrow> string
   \<Rightarrow> verification_failure + agent_message" where
  "check_message C D V now leaf agent_message_jws =
     rbind (map_err (\<lambda>_. InvalidAgentSignature)
              (jwk_to_public_key C (agent_public_key leaf))) (\<lambda>agent_key.
     rbind (map_err (\<lambda>_. InvalidAgentSignature)
              (token_from_jws C (dec_message D) agent_message_jws)) (\<lambda>unverified.
     rbind (map_err (\<lambda>_. InvalidAgentSignature)
              (token_verify_signature C (dec_message D) unverified agent_key)) (\<lambda>verified_msg.
     let m = vt_payload verified_msg in
     if m_audience m \<noteq> audience V then Inl AudienceMismatch
     else if m_agent_id m \<noteq> d_agent_id leaf then
       Inl (ChainBroken [Lit ''agent_id in message does not match the leaf delegation''])
     else if m_issued_at m > now + max_clock_skew V then Inl MessageFromFuture
     else if m_issued_at m < now - max_message_age V then Inl StaleMessage
     else Inr m)))"

text \<open>Everything before the nonce store is asked.\<close>

definition verify_stateless ::
  "crypto \<Rightarrow> core_codec \<Rightarrow> 'n verifier \<Rightarrow> datetime \<Rightarrow> string list \<Rightarrow> string
   \<Rightarrow> verification_failure + delegation list \<times> agent_message" where
  "verify_stateless C D V now delegation_chain_jws agent_message_jws =
     (if delegation_chain_jws = [] then Inl (ChainBroken [Lit ''empty chain''])
      else
        rbind (verify_links C D V now delegation_chain_jws) (\<lambda>verified_payloads.
        rbind (check_links 0 verified_payloads) (\<lambda>_.
        rbind (check_message C D V now (hd verified_payloads) agent_message_jws) (\<lambda>m.
        Inr (verified_payloads, m)))))"

definition verify_inner ::
  "crypto \<Rightarrow> chrono \<Rightarrow> core_codec \<Rightarrow> 'n verifier \<Rightarrow> string list \<Rightarrow> string \<Rightarrow> datetime \<Rightarrow> 'n
   \<Rightarrow> (verification_failure + verified_action) \<times> 'n" where
  "verify_inner C K D V delegation_chain_jws agent_message_jws now nonces =
     (case verify_stateless C D V now delegation_chain_jws agent_message_jws of
        Inl e \<Rightarrow> (Inl e, nonces)
      | Inr (verified_payloads, m) \<Rightarrow>
          (let (seen, nonces') = seen_and_record V (m_agent_id m) (m_nonce m) nonces in
           if seen then (Inl NonceReplayed, nonces')
           else if \<not> matches K (d_scope (hd verified_payloads)) (m_request m) now
           then (Inl ScopeDenied, nonces')
           else (Inr \<lparr>va_chain = verified_payloads, va_message = m\<rparr>, nonces')))"

text \<open>
  The receipt of one call. The signing error is the panic of
  \<open>expect("signing a receipt with a local key must not fail")\<close>.
\<close>

definition receipt_subject ::
  "crypto \<Rightarrow> core_codec \<Rightarrow> string list \<Rightarrow> string \<Rightarrow> verification_failure + verified_action
   \<Rightarrow> uuid list \<times> string \<times> receipt_outcome" where
  "receipt_subject C D delegation_chain_jws agent_message_jws d =
     (case d of
        Inr action \<Rightarrow>
          (map delegation_id (va_chain action), m_agent_id (va_message action), Accepted)
      | Inl failure \<Rightarrow>
          (let leaf = (case delegation_chain_jws of [] \<Rightarrow> None
                       | jws # _ \<Rightarrow> ok (token_from_jws C (dec_delegation D) jws));
               agent_id =
                 (case ok (token_from_jws C (dec_message D) agent_message_jws) of
                    Some t \<Rightarrow> m_agent_id (ut_payload t)
                  | None \<Rightarrow> (case leaf of Some t \<Rightarrow> d_agent_id (ut_payload t) | None \<Rightarrow> ''unknown''));
               ids = (case leaf of Some t \<Rightarrow> [delegation_id (ut_payload t)] | None \<Rightarrow> [])
           in (ids, agent_id, Rejected (failure_text failure))))"

definition receipt_payload ::
  "crypto \<Rightarrow> core_codec \<Rightarrow> 'n verifier \<Rightarrow> uuid \<Rightarrow> string list \<Rightarrow> string
   \<Rightarrow> verification_failure + verified_action \<Rightarrow> datetime \<Rightarrow> receipt" where
  "receipt_payload C D V new_id delegation_chain_jws agent_message_jws d now =
     (let (ids, agent_id, outcome) =
            receipt_subject C D delegation_chain_jws agent_message_jws d
      in \<lparr>receipt_id = new_id, rc_verifier_id = verifier_id V,
          rc_agent_id = agent_id, delegation_ids = ids,
          request_digest = digest_request C agent_message_jws,
          rc_outcome = outcome, decided_at = now\<rparr>)"

definition issue_receipt ::
  "crypto \<Rightarrow> core_codec \<Rightarrow> 'n verifier \<Rightarrow> uuid \<Rightarrow> string list \<Rightarrow> string
   \<Rightarrow> verification_failure + verified_action \<Rightarrow> datetime \<Rightarrow> jws_error + issued_receipt" where
  "issue_receipt C D V new_id delegation_chain_jws agent_message_jws d now =
     (let payload = receipt_payload C D V new_id delegation_chain_jws agent_message_jws d now
      in rbind (receipt_signer V payload) (\<lambda>jws. Inr \<lparr>ir_jws = jws, ir_payload = payload\<rparr>))"

definition verify_at ::
  "crypto \<Rightarrow> chrono \<Rightarrow> core_codec \<Rightarrow> 'n verifier \<Rightarrow> uuid \<Rightarrow> string list \<Rightarrow> string \<Rightarrow> datetime \<Rightarrow> 'n
   \<Rightarrow> (jws_error + verification_outcome) \<times> 'n" where
  "verify_at C K D V new_id delegation_chain_jws agent_message_jws now nonces =
     (let (d, nonces') = verify_inner C K D V delegation_chain_jws agent_message_jws now nonces
      in (rbind (issue_receipt C D V new_id delegation_chain_jws agent_message_jws d now)
            (\<lambda>r. Inr \<lparr>decision = d, vo_receipt = r\<rparr>), nonces'))"

text \<open>A verifier's history: calls in the order in which they reach the replay store.\<close>

fun verify_all ::
  "crypto \<Rightarrow> chrono \<Rightarrow> core_codec \<Rightarrow> 'n verifier \<Rightarrow> (string list \<times> string \<times> datetime) list \<Rightarrow> 'n
   \<Rightarrow> (verification_failure + verified_action) list \<times> 'n" where
  "verify_all C K D V [] nonces = ([], nonces)"
| "verify_all C K D V ((chain, msg, now) # calls) nonces =
     (let (d, nonces') = verify_inner C K D V chain msg now nonces;
          (ds, nonces'') = verify_all C K D V calls nonces'
      in (d # ds, nonces''))"

definition accepted_pair :: "verification_failure + verified_action \<Rightarrow> (string \<times> string) list" where
  "accepted_pair d = (case d of Inl _ \<Rightarrow> []
     | Inr act \<Rightarrow> [(m_agent_id (va_message act), m_nonce (va_message act))])"

definition accepted_pairs :: "(verification_failure + verified_action) list \<Rightarrow> (string \<times> string) list" where
  "accepted_pairs ds = concat (map accepted_pair ds)"

section \<open>Issuance\<close>

record issued_delegation =
  id_jws :: string
  id_payload :: delegation

record delegation_params =
  p_principal_id :: string
  p_principal_type :: principal_type
  p_agent_id :: string
  p_agent_public_key :: public_key_jwk
  p_scope :: scope
  p_valid_for :: int
  p_status_endpoint :: string
  p_can_delegate :: bool
  p_max_delegation_depth :: "u32 option"
  p_parent_delegation_id :: "uuid option"
  p_metadata :: "json option"

definition delegation_issue ::
  "crypto \<Rightarrow> core_codec \<Rightarrow> local_signer \<Rightarrow> uuid \<Rightarrow> datetime \<Rightarrow> delegation_params
   \<Rightarrow> jws_error + issued_delegation" where
  "delegation_issue C D principal_signer new_id now params =
     (let payload = \<lparr>delegation_id = new_id, principal_id = p_principal_id params,
            principal_type_of = p_principal_type params, d_agent_id = p_agent_id params,
            agent_public_key = p_agent_public_key params, d_scope = p_scope params,
            valid_from = now, valid_until = now + p_valid_for params,
            status_endpoint = p_status_endpoint params, can_delegate = p_can_delegate params,
            max_delegation_depth = p_max_delegation_depth params,
            parent_delegation_id = p_parent_delegation_id params, d_issued_at = now,
            d_metadata = p_metadata params\<rparr>
      in rbind (sign_payload C (enc_delegation D) principal_signer payload)
           (\<lambda>jws. Inr \<lparr>id_jws = jws, id_payload = payload\<rparr>))"

record issued_agent_message =
  im_jws :: string
  im_payload :: agent_message

definition message_issue ::
  "crypto \<Rightarrow> core_codec \<Rightarrow> local_signer \<Rightarrow> string \<Rightarrow> datetime \<Rightarrow> string \<Rightarrow> string \<Rightarrow> action_request
   \<Rightarrow> jws_error + issued_agent_message" where
  "message_issue C D agent_signer new_nonce now agent_id aud request =
     (let payload = \<lparr>m_agent_id = agent_id, m_audience = aud, m_nonce = new_nonce,
            m_issued_at = now, m_request = request\<rparr>
      in rbind (sign_payload C (enc_message D) agent_signer payload)
           (\<lambda>jws. Inr \<lparr>im_jws = jws, im_payload = payload\<rparr>))"

section \<open>The replay-store contract\<close>

text \<open>
  What the verifier relies on of a \<open>NonceStore\<close>: the answer tells whether the pair was
  recorded, and the pair is recorded either way. The argument about sequences of
  verifications is made once, for any store that keeps the contract.
\<close>

locale nonce_store =
  fixes record_nonce :: "string \<Rightarrow> string \<Rightarrow> 'n \<Rightarrow> bool \<times> 'n"
    and recorded :: "'n \<Rightarrow> (string \<times> string) set"
  assumes answers: "fst (record_nonce agent nonce s) \<longleftrightarrow> (agent, nonce) \<in> recorded s"
    and records: "recorded (snd (record_nonce agent nonce s)) = insert (agent, nonce) (recorded s)"
begin

lemma verify_inner_cases:
  assumes "seen_and_record V = record_nonce"
  shows "verify_inner C K D V chain msg now s =
    (case verify_stateless C D V now chain msg of
       Inl e \<Rightarrow> (Inl e, s)
     | Inr (ds, m) \<Rightarrow>
         (if (m_agent_id m, m_nonce m) \<in> recorded s then Inl NonceReplayed
          else if \<not> matches K (d_scope (hd ds)) (m_request m) now then Inl ScopeDenied
          else Inr \<lparr>va_chain = ds, va_message = m\<rparr>,
          snd (record_nonce (m_agent_id m) (m_nonce m) s)))"
  using answers by (simp add: verify_inner_def assms case_prod_unfold split: sum.split)

lemma verify_inner_recorded:
  assumes "seen_and_record V = record_nonce"
  shows "recorded (snd (verify_inner C K D V chain msg now s)) =
    (case verify_stateless C D V now chain msg of
       Inl e \<Rightarrow> recorded s | Inr (ds, m) \<Rightarrow> insert (m_agent_id m, m_nonce m) (recorded s))"
  using records by (simp add: verify_inner_cases [OF assms] split: sum.split)

lemma accepted_was_new:
  assumes "seen_and_record V = record_nonce"
    and "verify_inner C K D V chain msg now s = (Inr act, s')"
  shows "(m_agent_id (va_message act), m_nonce (va_message act)) \<notin> recorded s"
    and "(m_agent_id (va_message act), m_nonce (va_message act)) \<in> recorded s'"
    and "recorded s \<subseteq> recorded s'"
  using assms(2) records
  by (auto simp: verify_inner_cases [OF assms(1)] split: sum.splits if_splits)

lemma verify_inner_step:
  assumes "seen_and_record V = record_nonce"
    and "verify_inner C K D V chain msg now s = (d, s')"
  shows "recorded s \<subseteq> recorded s'" "distinct (accepted_pair d)"
    "set (accepted_pair d) \<inter> recorded s = {}" "set (accepted_pair d) \<subseteq> recorded s'"
  using assms(2) records
  by (auto simp: verify_inner_cases [OF assms(1)] accepted_pair_def split: sum.splits if_splits)

lemma accepted_once:
  assumes "seen_and_record V = record_nonce" and "verify_all C K D V calls s = (ds, s')"
  shows "distinct (accepted_pairs ds) \<and> set (accepted_pairs ds) \<inter> recorded s = {}"
  using assms(2)
proof (induction calls arbitrary: s ds s')
  case Nil
  then show ?case by (simp add: accepted_pairs_def)
next
  case (Cons call calls)
  obtain chain msg now where call: "call = (chain, msg, now)" by (cases call)
  obtain d s1 where d: "verify_inner C K D V chain msg now s = (d, s1)" by fastforce
  obtain ds' s2 where ds': "verify_all C K D V calls s1 = (ds', s2)" by fastforce
  from Cons.prems call d ds' have ds: "ds = d # ds'" by simp
  from Cons.IH [OF ds'] verify_inner_step [OF assms(1) d] show ?case
    unfolding ds accepted_pairs_def by auto
qed

end

interpretation in_memory: nonce_store nonce_seen_and_record "\<lambda>s. s"
  by unfold_locales (simp_all add: nonce_seen_and_record_def)

end
