(* ===== verification/CoreFlow.thy ===== *)
theory CoreFlow
  imports CoreVerifier
begin

text \<open>
  What the verification flow of \<open>aap-core\<close> guarantees: acceptance is equivalent to a
  declarative trust-chain specification, replays are rejected over any sequence of calls,
  authority only shrinks along the chain, every call leaves a receipt, and an honestly
  issued request is accepted.
\<close>

section \<open>The trust chain\<close>

definition signed_under ::
  "crypto \<Rightarrow> core_codec \<Rightarrow> string \<Rightarrow> 'e + verifying_key \<Rightarrow> delegation \<Rightarrow> bool" where
  "signed_under C D jws key d =
     (case key of Inl _ \<Rightarrow> False | Inr k \<Rightarrow> jws_verify C (dec_delegation D) jws k = Inr d)"

text \<open>
  Leaf first: every link is signed with the agent key of the next, the last with the
  key registered for its principal.
\<close>

fun signed_chain :: "crypto \<Rightarrow> core_codec \<Rightarrow> 'n verifier \<Rightarrow> string list \<Rightarrow> delegation list \<Rightarrow> bool" where
  "signed_chain C D V [] [] = True"
| "signed_chain C D V [jws] [d] =
     signed_under C D jws (resolve_principal_key V (principal_id d)) d"
| "signed_chain C D V (jws # jws' # chain) (d # parent # ds) =
     (signed_under C D jws (jwk_to_public_key C (agent_public_key parent)) d
      \<and> signed_chain C D V (jws' # chain) (parent # ds))"
| "signed_chain C D V _ _ = False"

definition in_force :: "'n verifier \<Rightarrow> datetime \<Rightarrow> delegation \<Rightarrow> bool" where
  "in_force V now d \<longleftrightarrow>
     valid_from d \<le> now \<and> now \<le> valid_until d \<and> \<not> is_revoked V (delegation_id d)"

text \<open>What \<open>parent\<close> must allow for the link at position \<open>i\<close> below it.\<close>

definition sub_delegation :: "nat \<Rightarrow> delegation \<Rightarrow> delegation \<Rightarrow> bool" where
  "sub_delegation i child parent \<longleftrightarrow>
     parent_delegation_id child = Some (delegation_id parent)
     \<and> principal_id child = principal_id parent
     \<and> principal_type_of child = principal_type_of parent
     \<and> valid_from parent \<le> valid_from child \<and> valid_until child \<le> valid_until parent
     \<and> can_delegate parent
     \<and> (\<forall>max_depth. max_delegation_depth parent = Some max_depth
          \<longrightarrow> (word_of_nat (i + 1) :: u32) \<le> max_depth)
     \<and> narrows (d_scope parent) (d_scope child)"

definition message_ok ::
  "crypto \<Rightarrow> core_codec \<Rightarrow> 'n verifier \<Rightarrow> datetime \<Rightarrow> delegation \<Rightarrow> string \<Rightarrow> agent_message \<Rightarrow> bool" where
  "message_ok C D V now leaf msg m \<longleftrightarrow>
     (\<exists>key. jwk_to_public_key C (agent_public_key leaf) = Inr key
        \<and> jws_verify C (dec_message D) msg key = Inr m)
     \<and> m_audience m = audience V \<and> m_agent_id m = d_agent_id leaf
     \<and> now - max_message_age V \<le> m_issued_at m \<and> m_issued_at m \<le> now + max_clock_skew V"

lemma verify_link_eq_Inr:
  "verify_link C D V now jws parents = Inr d \<longleftrightarrow>
     (\<exists>key. link_signer_key C D V (UnverifiedToken jws d) parents = Inr key
        \<and> jws_verify C (dec_delegation D) jws key = Inr d) \<and> in_force V now d"
  (is "?l \<longleftrightarrow> ?r")
proof
  assume ?l
  then obtain u key v where
    *: "token_from_jws C (dec_delegation D) jws = Inr u"
      "link_signer_key C D V u parents = Inr key"
      "token_verify_signature C (dec_delegation D) u key = Inr v"
      "in_force V now (vt_payload v)" "d = vt_payload v"
    by (auto simp: verify_link_def in_force_def split: if_splits)
  then have "ut_jws u = jws" and dec: "decode_unverified C (dec_delegation D) jws = Inr (ut_payload u)"
    by (simp_all add: token_from_jws_eq_Inr)
  moreover have "jws_verify C (dec_delegation D) jws key = Inr d"
    using * \<open>ut_jws u = jws\<close> by (simp add: token_verify_signature_eq_Inr)
  moreover from jws_verify_decodes [OF this] dec have "ut_payload u = d" by simp
  ultimately have "u = UnverifiedToken jws d" by (cases u) simp
  with * \<open>jws_verify C (dec_delegation D) jws key = Inr d\<close> show ?r by auto
next
  assume ?r
  then obtain key where
    key: "link_signer_key C D V (UnverifiedToken jws d) parents = Inr key"
      "jws_verify C (dec_delegation D) jws key = Inr d" and "in_force V now d"
    by blast
  moreover from jws_verify_decodes [OF key(2)]
  have "token_from_jws C (dec_delegation D) jws = Inr (UnverifiedToken jws d)"
    by (simp add: token_from_jws_def)
  ultimately show ?l
    by (simp add: verify_link_def token_verify_signature_def in_force_def)
qed

lemma link_signer_key_root:
  "link_signer_key C D V u [] = Inr key \<longleftrightarrow>
     resolve_principal_key V (principal_id (ut_payload u)) = Inr key"
  by (simp add: link_signer_key_def)

lemma link_signer_key_parent:
  "decode_unverified C (dec_delegation D) jws' = Inr parent \<Longrightarrow>
   link_signer_key C D V u (jws' # chain) = Inr key \<longleftrightarrow>
     jwk_to_public_key C (agent_public_key parent) = Inr key"
  by (simp add: link_signer_key_def token_from_jws_def)

lemma signed_under_iff:
  "signed_under C D jws k d \<longleftrightarrow> (\<exists>key. k = Inr key \<and> jws_verify C (dec_delegation D) jws key = Inr d)"
  by (auto simp: signed_under_def split: sum.splits)

lemma verify_link_root:
  "verify_link C D V now jws [] = Inr d \<longleftrightarrow> signed_chain C D V [jws] [d] \<and> in_force V now d"
  by (simp add: verify_link_eq_Inr link_signer_key_root signed_under_iff)

lemma verify_link_decodes:
  "verify_link C D V now jws parents = Inr d \<Longrightarrow> decode_unverified C (dec_delegation D) jws = Inr d"
  using jws_verify_decodes by (auto simp: verify_link_eq_Inr)

lemma verify_links_eq_Inr:
  "verify_links C D V now chain = Inr ds \<longleftrightarrow>
     signed_chain C D V chain ds \<and> (\<forall>d \<in> set ds. in_force V now d)"
proof (induction chain arbitrary: ds)
  case Nil
  then show ?case by (cases ds) auto
next
  case (Cons jws chain)
  show ?case
  proof (cases chain)
    case Nil
    then show ?thesis
      using verify_link_root [of C D V now jws]
      by (cases ds; cases "tl ds") (auto simp del: signed_chain.simps(2))
  next
    case tail: (Cons jws' chain')
    show ?thesis
    proof (cases ds)
      case ds: (Cons d ds')
      show ?thesis
      proof (cases ds')
        case Nil
        with tail ds Cons.IH [of "[]"] show ?thesis by simp
      next
        case ds': (Cons parent ds'')
        have step: "verify_link C D V now jws chain = Inr d \<longleftrightarrow>
            signed_under C D jws (jwk_to_public_key C (agent_public_key parent)) d \<and> in_force V now d"
          if "verify_links C D V now chain = Inr ds'"
        proof -
          from that tail ds' have "verify_link C D V now jws' chain' = Inr parent" by auto
          from verify_link_decodes [OF this] show ?thesis
            by (simp add: tail verify_link_eq_Inr signed_under_iff link_signer_key_parent)
        qed
        have "verify_links C D V now (jws # chain) = Inr ds \<longleftrightarrow>
            verify_link C D V now jws chain = Inr d \<and> verify_links C D V now chain = Inr ds'"
          using ds by auto
        then show ?thesis
          using Cons.IH [of ds'] step ds ds' tail by auto
      qed
    qed (use tail in auto)
  qed
qed

lemma check_link_eq_Inr: "check_link i child parent = Inr u \<longleftrightarrow> sub_delegation i child parent"
  by (cases "max_delegation_depth parent")
    (auto simp: check_link_def sub_delegation_def not_less not_le)

lemma all_nat_cases: "(\<forall>j. P j) \<longleftrightarrow> P 0 \<and> (\<forall>j. P (Suc j))"
  by (metis nat.exhaust)

lemma check_links_eq_Inr:
  "check_links i ds = Inr u \<longleftrightarrow>
     (\<forall>j. Suc j < length ds \<longrightarrow> sub_delegation (i + j) (ds ! j) (ds ! Suc j))"
proof (induction i ds rule: check_links.induct)
  case (1 i child parent ds)
  have "(\<forall>j. Suc j < length (child # parent # ds) \<longrightarrow>
      sub_delegation (i + j) ((child # parent # ds) ! j) ((child # parent # ds) ! Suc j)) \<longleftrightarrow>
    sub_delegation i child parent
    \<and> (\<forall>j. Suc j < length (parent # ds) \<longrightarrow>
        sub_delegation (i + 1 + j) ((parent # ds) ! j) ((parent # ds) ! Suc j))"
    by (subst all_nat_cases) simp
  with 1 show ?case
    by (cases "sub_delegation i child parent") (simp_all add: check_link_eq_Inr)
qed auto

lemma check_message_eq_Inr:
  "check_message C D V now leaf msg = Inr m \<longleftrightarrow> message_ok C D V now leaf msg m" (is "?l \<longleftrightarrow> ?r")
proof
  show "?l \<Longrightarrow> ?r"
    by (auto simp: check_message_def message_ok_def Let_def token_from_jws_eq_Inr
      token_verify_signature_eq_Inr split: if_splits)
next
  assume ?r
  then obtain key where key: "jwk_to_public_key C (agent_public_key leaf) = Inr key"
      "jws_verify C (dec_message D) msg key = Inr m"
    and rest: "m_audience m = audience V" "m_agent_id m = d_agent_id leaf"
      "\<not> m_issued_at m < now - max_message_age V" "\<not> now + max_clock_skew V < m_issued_at m"
    by (auto simp: message_ok_def)
  have "token_from_jws C (dec_message D) msg = Inr (UnverifiedToken msg m)"
    using jws_verify_decodes [OF key(2)] by (simp add: token_from_jws_def)
  with key rest show ?l
    by (simp add: check_message_def token_verify_signature_def Let_def)
qed

lemma signed_chain_length: "signed_chain C D V chain ds \<Longrightarrow> length chain = length ds"
  by (induction C D V chain ds rule: signed_chain.induct) auto

text \<open>The specification of everything but the nonce and the scope of the request.\<close>

definition authenticated ::
  "crypto \<Rightarrow> core_codec \<Rightarrow> 'n verifier \<Rightarrow> datetime \<Rightarrow> string list \<Rightarrow> string
   \<Rightarrow> delegation list \<Rightarrow> agent_message \<Rightarrow> bool" where
  "authenticated C D V now chain msg ds m \<longleftrightarrow>
     ds \<noteq> [] \<and> signed_chain C D V chain ds \<and> (\<forall>d \<in> set ds. in_force V now d)
     \<and> (\<forall>j. Suc j < length ds \<longrightarrow> sub_delegation j (ds ! j) (ds ! Suc j))
     \<and> message_ok C D V now (hd ds) msg m"

lemma verify_stateless_eq_Inr:
  "verify_stateless C D V now chain msg = Inr (ds, m) \<longleftrightarrow> authenticated C D V now chain msg ds m"
proof (cases "chain = []")
  case True
  then show ?thesis
    by (auto simp: verify_stateless_def authenticated_def dest: signed_chain_length)
next
  case False
  then have "signed_chain C D V chain ds \<Longrightarrow> ds \<noteq> []"
    by (auto dest: signed_chain_length)
  with False show ?thesis
    by (auto simp: verify_stateless_def authenticated_def verify_links_eq_Inr
      check_links_eq_Inr check_message_eq_Inr)
qed

section \<open>Acceptance\<close>

text \<open>C1: The verifier accepts exactly when the trust-chain specification holds (every link
  signed by the next link's agent key and the root by the registered principal, all in
  force and unrevoked, each a well-formed sub-delegation of its parent, a fresh message for
  this audience under the leaf's agent key), the nonce is new and the leaf scope matches;
  it then records exactly that nonce.\<close>
theorem accepts_iff_authorized:
  assumes "seen_and_record V = nonce_seen_and_record"
  shows "verify_inner C K D V chain msg now seen = (Inr \<lparr>va_chain = ds, va_message = m\<rparr>, seen') \<longleftrightarrow>
    authenticated C D V now chain msg ds m
    \<and> (m_agent_id m, m_nonce m) \<notin> seen
    \<and> matches K (d_scope (hd ds)) (m_request m) now
    \<and> seen' = insert (m_agent_id m, m_nonce m) seen"
proof (cases "verify_stateless C D V now chain msg")
  case (Inl e)
  then show ?thesis
    by (simp add: verify_inner_def verify_stateless_eq_Inr [symmetric])
next
  case (Inr p)
  then show ?thesis
    by (cases p) (auto simp: in_memory.verify_inner_cases [OF assms] nonce_seen_and_record_def
      verify_stateless_eq_Inr [symmetric])
qed

lemma stateless_failures:
  "verify_stateless C D V now chain msg = Inl e \<Longrightarrow> e \<noteq> NonceReplayed \<and> e \<noteq> ScopeDenied"
proof -
  have link: "verify_link C D V now jws parents = Inl e \<Longrightarrow> e \<noteq> NonceReplayed \<and> e \<noteq> ScopeDenied"
    for jws parents e
    by (cases parents)
      (auto simp: verify_link_def link_signer_key_def rbind_eq_Inl map_err_eq_Inl split: if_splits)
  have links: "verify_links C D V now chain = Inl e \<Longrightarrow> e \<noteq> NonceReplayed \<and> e \<noteq> ScopeDenied" for e
    by (induction chain) (auto simp: rbind_eq_Inl dest: link)
  have checks: "check_links i ds = Inl e \<Longrightarrow> e \<noteq> NonceReplayed \<and> e \<noteq> ScopeDenied" for i ds e
    by (induction i ds rule: check_links.induct)
      (auto simp: rbind_eq_Inl check_link_def split: if_splits)
  have message: "check_message C D V now leaf msg = Inl e \<Longrightarrow> e \<noteq> NonceReplayed \<and> e \<noteq> ScopeDenied"
    for leaf e
    by (auto simp: check_message_def rbind_eq_Inl map_err_eq_Inl Let_def split: if_splits)
  assume "verify_stateless C D V now chain msg = Inl e"
  then show ?thesis
    by (auto simp: verify_stateless_def rbind_eq_Inl split: if_splits dest: links checks message)
qed

lemma nonce_burned_iff_authenticated:
  assumes "seen_and_record V = nonce_seen_and_record"
    and "verify_inner C K D V chain msg now seen = (d, seen')"
  shows "(authenticated C D V now chain msg ds m \<longrightarrow>
        seen' = insert (m_agent_id m, m_nonce m) seen
        \<and> d = (if (m_agent_id m, m_nonce m) \<in> seen then Inl NonceReplayed
               else if \<not> matches K (d_scope (hd ds)) (m_request m) now then Inl ScopeDenied
               else Inr \<lparr>va_chain = ds, va_message = m\<rparr>))
    \<and> ((\<nexists>ds m. authenticated C D V now chain msg ds m) \<longrightarrow> seen' = seen
        \<and> (\<exists>e. d = Inl e \<and> e \<noteq> NonceReplayed \<and> e \<noteq> ScopeDenied))"
proof (cases "verify_stateless C D V now chain msg")
  case (Inl e)
  with assms(2) stateless_failures [OF Inl] show ?thesis
    by (auto simp: verify_inner_def verify_stateless_eq_Inr [symmetric])
next
  case (Inr p)
  with assms(2) show ?thesis
    by (cases p) (auto simp: in_memory.verify_inner_cases [OF assms(1)] nonce_seen_and_record_def
      verify_stateless_eq_Inr [symmetric])
qed

text \<open>C9: Over any sequence of calls, with any chains, messages and clocks, no (agent, nonce)
  pair is accepted twice, and none that the store already held.\<close>
theorem no_pair_accepted_twice:
  assumes "seen_and_record V = nonce_seen_and_record"
    and "verify_all C K D V calls seen = (ds, seen')"
  shows "distinct (accepted_pairs ds) \<and> set (accepted_pairs ds) \<inter> seen = {}"
  using in_memory.accepted_once [OF assms] by simp

lemma authenticated_message:
  "authenticated C D V now chain msg ds m \<Longrightarrow> message_ok C D V now (hd ds) msg m"
  by (simp add: authenticated_def)

lemma message_ok_decodes:
  "message_ok C D V now leaf msg m \<Longrightarrow> decode_unverified C (dec_message D) msg = Inr m"
  using jws_verify_decodes by (auto simp: message_ok_def)

lemma replay_window_bounded:
  assumes "verify_stateless C D V t1 chain1 msg = Inr (ds1, m1)"
    and "verify_stateless C D V t2 chain2 msg = Inr (ds2, m2)"
  shows "m1 = m2 \<and> \<bar>t2 - t1\<bar> \<le> max_message_age V + max_clock_skew V"
proof -
  note ok = assms [unfolded verify_stateless_eq_Inr, THEN authenticated_message]
  from message_ok_decodes [OF ok(1)] message_ok_decodes [OF ok(2)] have "m1 = m2" by simp
  with ok show ?thesis by (auto simp: message_ok_def)
qed

section \<open>Attenuation along the chain\<close>

lemma sub_delegations_below_root:
  assumes "\<forall>j. Suc j < length ds \<longrightarrow> sub_delegation j (ds ! j) (ds ! Suc j)" and "i < length ds"
  shows "i \<le> k \<Longrightarrow> k < length ds \<Longrightarrow>
    principal_id (ds ! i) = principal_id (ds ! k)
    \<and> principal_type_of (ds ! i) = principal_type_of (ds ! k)
    \<and> valid_from (ds ! k) \<le> valid_from (ds ! i) \<and> valid_until (ds ! i) \<le> valid_until (ds ! k)"
proof (induction k)
  case (Suc k)
  show ?case
  proof (cases "i = Suc k")
    case False
    with Suc have "i \<le> k" "k < length ds" by auto
    with Suc.IH assms(1) [rule_format, OF Suc.prems(2)] show ?thesis
      by (auto simp: sub_delegation_def)
  qed simp
qed simp

lemma u32_of_nat_le: "k < 2 ^ 32 \<Longrightarrow> (word_of_nat k :: u32) \<le> m \<longleftrightarrow> k \<le> unat m"
  by (simp add: word_le_nat_alt unat_of_nat)

lemma authority_only_shrinks:
  assumes "verify_stateless C D V now chain msg = Inr (ds, m)" and "length chain < 2 ^ 32"
    and "i < k" "k < length ds"
  shows "principal_id (ds ! i) = principal_id (ds ! k)
    \<and> principal_type_of (ds ! i) = principal_type_of (ds ! k)
    \<and> valid_from (ds ! k) \<le> valid_from (ds ! i) \<and> valid_until (ds ! i) \<le> valid_until (ds ! k)
    \<and> can_delegate (ds ! k)
    \<and> (case max_delegation_depth (ds ! k) of None \<Rightarrow> True | Some depth \<Rightarrow> k \<le> unat depth)"
proof -
  from assms(1) have auth: "\<forall>j. Suc j < length ds \<longrightarrow> sub_delegation j (ds ! j) (ds ! Suc j)"
    and len: "length ds = length chain"
    by (auto simp: verify_stateless_eq_Inr authenticated_def dest: signed_chain_length)
  obtain j where j: "k = Suc j" using assms(3) by (cases k) auto
  from auth assms(4) j have "sub_delegation j (ds ! j) (ds ! k)" by simp
  moreover have "k < 2 ^ 32" using assms(2,4) len by simp
  ultimately have "can_delegate (ds ! k)"
    "case max_delegation_depth (ds ! k) of None \<Rightarrow> True | Some depth \<Rightarrow> k \<le> unat depth"
    using u32_of_nat_le [of k] j by (auto simp: sub_delegation_def split: option.split)
  with sub_delegations_below_root [OF auth, of i k] assms(3,4) show ?thesis by simp
qed

lemma narrowed_chain:
  assumes "\<forall>j. Suc j < length ds \<longrightarrow> sub_delegation j (ds ! j) (ds ! Suc j)"
    and "\<forall>j. Suc j < length ds \<longrightarrow> no_new_money (d_scope (ds ! Suc j)) (d_scope (ds ! j))"
    and "\<forall>d \<in> set ds. times_ok (d_scope d)"
  shows "successively (\<lambda>child parent. narrows_safely parent child) (map d_scope ds)"
  unfolding successively_conv_nth
proof (intro allI impI)
  fix j assume j: "Suc j < length (map d_scope ds)"
  then have "sub_delegation j (ds ! j) (ds ! Suc j)"
    and "no_new_money (d_scope (ds ! Suc j)) (d_scope (ds ! j))"
    and "ds ! j \<in> set ds" "ds ! Suc j \<in> set ds"
    using assms(1,2) by auto
  with assms(3) j show "narrows_safely (map d_scope ds ! Suc j) (map d_scope ds ! j)"
    by (simp add: narrows_safely_def sub_delegation_def)
qed

lemma accepted_within_every_scope:
  assumes "fst (verify_inner C K D V chain msg now nonces) = Inr \<lparr>va_chain = ds, va_message = m\<rparr>"
    and "\<forall>j. Suc j < length ds \<longrightarrow> no_new_money (d_scope (ds ! Suc j)) (d_scope (ds ! j))"
    and "\<forall>d \<in> set ds. times_ok (d_scope d)"
    and "d \<in> set ds"
  shows "matches K (d_scope d) (m_request m) now"
proof -
  from assms(1) have auth: "authenticated C D V now chain msg ds m"
    and leaf: "matches K (d_scope (hd ds)) (m_request m) now"
    by (auto simp: verify_inner_def verify_stateless_eq_Inr [symmetric]
      split: sum.splits prod.splits if_splits)
  from auth have ds: "ds \<noteq> []"
    and links: "\<forall>j. Suc j < length ds \<longrightarrow> sub_delegation j (ds ! j) (ds ! Suc j)"
    by (simp_all add: authenticated_def)
  from narrowed_chain [OF links assms(2,3)] ds leaf
  have "\<forall>s \<in> set (map d_scope ds). matches K s (m_request m) now"
    using scope_narrowing.chain_accepts [of "map d_scope ds" "(K, m_request m, now)"]
    by (simp add: hd_map)
  with assms(4) show ?thesis by simp
qed

lemma revoke_takes_effect:
  assumes "is_revoked V = is_revoked_in (revoke i revoked)"
    and "j < length chain" "decode_unverified C (dec_delegation D) (chain ! j) = Inr d"
    and "delegation_id d = i"
  shows "\<exists>e. verify_inner C K D V chain msg now nonces = (Inl e, nonces)"
proof (cases "verify_stateless C D V now chain msg")
  case (Inr p)
  obtain ds m where p: "p = (ds, m)" by (cases p)
  with Inr have auth: "authenticated C D V now chain msg ds m"
    by (simp add: verify_stateless_eq_Inr)
  have decodes: "signed_chain C D V chain ds \<Longrightarrow> j < length chain \<Longrightarrow>
      decode_unverified C (dec_delegation D) (chain ! j) = Inr (ds ! j)" for chain ds j
  proof (induction C D V chain ds arbitrary: j rule: signed_chain.induct)
    case (3 C D V jws jws' chain d parent ds)
    then show ?case by (cases j) (auto simp: signed_under_iff dest: jws_verify_decodes)
  qed (auto simp: signed_under_iff dest: jws_verify_decodes)
  from auth have "signed_chain C D V chain ds" by (simp add: authenticated_def)
  with decodes assms(2,3) have "d = ds ! j" "j < length ds"
    by (force dest: signed_chain_length)+
  with auth have "in_force V now d" by (simp add: authenticated_def)
  with assms show ?thesis by (simp add: in_force_def is_revoked_in_def revoke_def)
qed (simp add: verify_inner_def)

section \<open>Receipts\<close>

lemma signed_verifies:
  assumes "b64_ok C" "signatures_ok C" "public_keys_ok C" "header_read_ok C"
    and "enc payload = Inr bs" "de bs = Inr v"
  obtains jws where "sign_payload C enc s payload = Inr jws"
    and "jws_verify C de jws (verifying_key_of C (signer_key s)) = Inr v"
    and "jwk_to_public_key C (public_jwk C s) = Inr (verifying_key_of C (signer_key s))"
proof -
  obtain jws where jws: "sign_payload C enc s payload = Inr jws"
    using assms(5) by (simp add: sign_payload_def jws_sign_def Let_def)
  with assms have "jws_verify C de jws (verifying_key_of C (signer_key s)) = Inr v"
    using jws_sign_verify [of C de bs v enc payload "signer_key s" jws]
    by (simp add: sign_payload_def)
  with jws that show ?thesis
    using jwk_round_trip [OF assms(1,3), of "signer_key s"] by (simp add: public_jwk_def)
qed

lemma every_call_leaves_a_receipt:
  assumes "b64_ok C" "signatures_ok C" "public_keys_ok C" "header_read_ok C"
    and "receipt_signer V = sign_payload C (enc_receipt D) signer"
    and "verify_inner C K D V chain msg now nonces = (d, nonces')"
    and "r = receipt_payload C D V new_id chain msg d now"
    and "enc_receipt D r = Inr bs" "de bs = Inr r"
  shows "\<exists>jws key. verify_at C K D V new_id chain msg now nonces =
      (Inr \<lparr>decision = d, vo_receipt = \<lparr>ir_jws = jws, ir_payload = r\<rparr>\<rparr>, nonces')
    \<and> jwk_to_public_key C (public_jwk C signer) = Inr key \<and> jws_verify C de jws key = Inr r
    \<and> request_digest r = digest_request C msg \<and> decided_at r = now
    \<and> rc_outcome r = (case d of Inl e \<Rightarrow> Rejected (failure_text e) | Inr _ \<Rightarrow> Accepted)
    \<and> (\<forall>ds m. d = Inr \<lparr>va_chain = ds, va_message = m\<rparr> \<longrightarrow>
         delegation_ids r = map delegation_id ds \<and> rc_agent_id r = m_agent_id m)"
proof -
  obtain jws where "sign_payload C (enc_receipt D) signer r = Inr jws"
    and verified: "jws_verify C de jws (verifying_key_of C (signer_key signer)) = Inr r"
      "jwk_to_public_key C (public_jwk C signer) = Inr (verifying_key_of C (signer_key signer))"
    using signed_verifies [of C "enc_receipt D" r bs de r signer] assms(1-4,8,9) by metis
  then have "verify_at C K D V new_id chain msg now nonces =
      (Inr \<lparr>decision = d, vo_receipt = \<lparr>ir_jws = jws, ir_payload = r\<rparr>\<rparr>, nonces')"
    using assms(5-7) by (simp add: verify_at_def issue_receipt_def)
  with verified show ?thesis
    using assms(7) by (cases d)
      (auto simp: receipt_payload_def receipt_subject_def Let_def split: prod.splits)
qed

section \<open>An honest request is accepted\<close>

lemma delegation_issue_fields:
  assumes "delegation_issue C D signer did t0 params = Inr del"
  shows "principal_id (id_payload del) = p_principal_id params"
    "agent_public_key (id_payload del) = p_agent_public_key params"
    "d_agent_id (id_payload del) = p_agent_id params" "d_scope (id_payload del) = p_scope params"
    "valid_from (id_payload del) = t0" "valid_until (id_payload del) = t0 + p_valid_for params"
    "delegation_id (id_payload del) = did"
    "parent_delegation_id (id_payload del) = p_parent_delegation_id params"
    "principal_type_of (id_payload del) = p_principal_type params"
    "can_delegate (id_payload del) = p_can_delegate params"
    "max_delegation_depth (id_payload del) = p_max_delegation_depth params"
    "sign_payload C (enc_delegation D) signer (id_payload del) = Inr (id_jws del)"
  using assms by (auto simp: delegation_issue_def Let_def)

lemma message_issue_fields:
  assumes "message_issue C D signer nonce t1 agent aud req = Inr im"
  shows "m_agent_id (im_payload im) = agent" "m_audience (im_payload im) = aud"
    "m_nonce (im_payload im) = nonce" "m_issued_at (im_payload im) = t1"
    "m_request (im_payload im) = req"
    "sign_payload C (enc_message D) signer (im_payload im) = Inr (im_jws im)"
  using assms by (auto simp: message_issue_def Let_def)

lemma delegation_issue_signed:
  assumes "b64_ok C" "signatures_ok C" "public_keys_ok C" "header_read_ok C"
    and "delegation_issue C D signer did t0 params = Inr del"
    and "enc_delegation D (id_payload del) = Inr db" "dec_delegation D db = Inr (id_payload del)"
  shows "signed_under C D (id_jws del) (jwk_to_public_key C (public_jwk C signer)) (id_payload del)"
  using signed_verifies [OF assms(1-4), of "enc_delegation D" "id_payload del" db
      "dec_delegation D" "id_payload del" signer] assms(6,7) delegation_issue_fields(12) [OF assms(5)]
  by (auto simp: signed_under_iff)

lemma message_issue_signed:
  assumes "b64_ok C" "signatures_ok C" "public_keys_ok C" "header_read_ok C"
    and "message_issue C D signer nonce t1 agent aud req = Inr im"
    and "enc_message D (im_payload im) = Inr mb" "dec_message D mb = Inr (im_payload im)"
  shows "\<exists>key. jwk_to_public_key C (public_jwk C signer) = Inr key
    \<and> jws_verify C (dec_message D) (im_jws im) key = Inr (im_payload im)"
  using signed_verifies [OF assms(1-4), of "enc_message D" "im_payload im" mb
      "dec_message D" "im_payload im" signer] assms(6,7) message_issue_fields(6) [OF assms(5)]
  by auto

text \<open>C13: A request issued by the agent a registered principal delegated to is accepted within
  the validity period and freshness window when it is in scope and its nonce is new:
  issuance and verification agree.\<close>
theorem honest_request_accepted:
  assumes "b64_ok C" "signatures_ok C" "public_keys_ok C" "header_read_ok C"
    and "seen_and_record V = nonce_seen_and_record"
    and "resolve_principal_key V =
      resolve_in C (register (p_principal_id params) (public_jwk C principal_signer) reg)"
    and "delegation_issue C D principal_signer did t0 params = Inr del"
    and "p_agent_public_key params = public_jwk C agent_signer"
    and "message_issue C D agent_signer nonce t1 (p_agent_id params) (audience V) req = Inr im"
    and "enc_delegation D (id_payload del) = Inr db" "dec_delegation D db = Inr (id_payload del)"
    and "enc_message D (im_payload im) = Inr mb" "dec_message D mb = Inr (im_payload im)"
    and "t0 \<le> now" "now \<le> t0 + p_valid_for params" "\<not> is_revoked V did"
    and "now - max_message_age V \<le> t1" "t1 \<le> now + max_clock_skew V"
    and "(p_agent_id params, nonce) \<notin> seen" "matches K (p_scope params) req now"
  shows "verify_inner C K D V [id_jws del] (im_jws im) now seen =
    (Inr \<lparr>va_chain = [id_payload del], va_message = im_payload im\<rparr>,
     insert (p_agent_id params, nonce) seen)"
proof -
  note del = delegation_issue_fields [OF assms(7)] and im = message_issue_fields [OF assms(9)]
  have "signed_chain C D V [id_jws del] [id_payload del]"
    using delegation_issue_signed [OF assms(1-4,7,10,11)] del(1) assms(6)
    by (auto simp: signed_under_iff resolve_in_def register_def)
  moreover have "\<exists>key. jwk_to_public_key C (agent_public_key (id_payload del)) = Inr key
      \<and> jws_verify C (dec_message D) (im_jws im) key = Inr (im_payload im)"
    using message_issue_signed [OF assms(1-4,9,12,13)] del(2) assms(8) by simp
  ultimately have "verify_stateless C D V now [id_jws del] (im_jws im)
      = Inr ([id_payload del], im_payload im)"
    unfolding verify_stateless_eq_Inr authenticated_def message_ok_def
    using del im assms(14-18) by (simp add: in_force_def)
  with del im assms(5,19,20) show ?thesis
    by (simp add: in_memory.verify_inner_cases nonce_seen_and_record_def)
qed

section \<open>A concrete chain\<close>

text \<open>
  Alice registers a key and delegates payments to agent A, which sub-delegates the same
  scope to agent B; B asks the shop for a payment of 50 at time 0.
\<close>

definition alice :: local_signer where "alice = from_ed25519_bytes ''alice''"
definition agent_a :: local_signer where "agent_a = from_ed25519_bytes ''a''"
definition agent_b :: local_signer where "agent_b = from_ed25519_bytes ''b''"

definition root_params :: delegation_params where
  "root_params = \<lparr>p_principal_id = ''alice'', p_principal_type = NaturalPerson,
     p_agent_id = ''a'', p_agent_public_key = public_jwk core_crypto agent_a,
     p_scope = payments_until ''12:00'', p_valid_for = 100, p_status_endpoint = [],
     p_can_delegate = True, p_max_delegation_depth = Some 1,
     p_parent_delegation_id = None, p_metadata = None\<rparr>"

definition leaf_params :: delegation_params where
  "leaf_params = root_params\<lparr>p_agent_id := ''b'',
     p_agent_public_key := public_jwk core_crypto agent_b, p_can_delegate := False,
     p_max_delegation_depth := None, p_parent_delegation_id := Some ''root''\<rparr>"

text \<open>A codec for exactly the payloads of the example.\<close>

definition codec_for :: "delegation \<Rightarrow> delegation \<Rightarrow> agent_message \<Rightarrow> core_codec" where
  "codec_for leaf parent m = \<lparr>enc_delegation = (\<lambda>d. Inr (delegation_id d)),
     dec_delegation = (\<lambda>bs. Inr (if bs = ''leaf'' then leaf else parent)),
     enc_message = (\<lambda>_. Inr ''m''), dec_message = (\<lambda>_. Inr m),
     enc_receipt = (\<lambda>_. Inr ''r'')\<rparr>"

definition any_codec :: core_codec where
  "any_codec = \<lparr>enc_delegation = (\<lambda>d. Inr (delegation_id d)), dec_delegation = (\<lambda>_. Inl []),
     enc_message = (\<lambda>_. Inr ''m''), dec_message = (\<lambda>_. Inl []),
     enc_receipt = (\<lambda>_. Inr ''r'')\<rparr>"

definition root_issued :: issued_delegation where
  "root_issued = projr (delegation_issue core_crypto any_codec alice ''root'' 0 root_params)"

definition leaf_issued :: issued_delegation where
  "leaf_issued = projr (delegation_issue core_crypto any_codec agent_a ''leaf'' 0 leaf_params)"

definition message_b :: issued_agent_message where
  "message_b = projr (message_issue core_crypto any_codec agent_b ''n1'' 0 ''b'' ''shop'' pay_50)"

definition message_a :: issued_agent_message where
  "message_a = projr (message_issue core_crypto any_codec agent_a ''n1'' 0 ''a'' ''shop'' pay_50)"

definition shop_codec :: "agent_message \<Rightarrow> core_codec" where
  "shop_codec m = codec_for (id_payload leaf_issued) (id_payload root_issued) m"

definition shop :: "core_codec \<Rightarrow> status \<Rightarrow> nonces verifier" where
  "shop D revoked = verifier_new ''shop-1'' ''shop''
     (resolve_in core_crypto (register ''alice'' (public_jwk core_crypto alice) Map.empty))
     (is_revoked_in revoked) nonce_seen_and_record
     (sign_payload core_crypto (enc_receipt D) (from_ed25519_bytes ''shop''))"

lemma issued:
  "delegation_issue core_crypto (shop_codec m) alice ''root'' 0 root_params = Inr root_issued"
  "delegation_issue core_crypto (shop_codec m) agent_a ''leaf'' 0 leaf_params = Inr leaf_issued"
  "message_issue core_crypto (shop_codec m) agent_b ''n1'' 0 ''b'' ''shop'' pay_50 = Inr message_b"
  "message_issue core_crypto (shop_codec m) agent_a ''n1'' 0 ''a'' ''shop'' pay_50 = Inr message_a"
  by (simp_all add: root_issued_def leaf_issued_def message_b_def message_a_def shop_codec_def
    codec_for_def any_codec_def delegation_issue_def message_issue_def sign_payload_def jws_sign_def Let_def)

lemma issued_payloads:
  "delegation_id (id_payload root_issued) = ''root''" "delegation_id (id_payload leaf_issued) = ''leaf''"
  by (simp_all add: root_issued_def leaf_issued_def any_codec_def delegation_issue_def
    sign_payload_def jws_sign_def Let_def)

lemma shop_fields:
  "audience (shop D R) = ''shop''" "max_message_age (shop D R) = 300000000000"
  "max_clock_skew (shop D R) = 60000000000" "seen_and_record (shop D R) = nonce_seen_and_record"
  "is_revoked (shop D R) = is_revoked_in R"
  "resolve_principal_key (shop D R) =
     resolve_in core_crypto (register ''alice'' (public_jwk core_crypto alice) Map.empty)"
  by (simp_all add: shop_def verifier_new_def seconds_def DEFAULT_MAX_MESSAGE_AGE_SECS_def
    DEFAULT_MAX_CLOCK_SKEW_SECS_def)

lemma codec_round_trips:
  "enc_delegation (shop_codec m) (id_payload root_issued) = Inr ''root''"
  "dec_delegation (shop_codec m) ''root'' = Inr (id_payload root_issued)"
  "enc_delegation (shop_codec m) (id_payload leaf_issued) = Inr ''leaf''"
  "dec_delegation (shop_codec m) ''leaf'' = Inr (id_payload leaf_issued)"
  "enc_message (shop_codec m) m' = Inr ''m''" "dec_message (shop_codec m) ''m'' = Inr m"
  by (simp_all add: shop_codec_def codec_for_def issued_payloads)

lemma params_fields:
  "p_principal_id root_params = ''alice''" "p_agent_id root_params = ''a''"
  "p_agent_public_key root_params = public_jwk core_crypto agent_a"
  "p_valid_for root_params = 100" "p_scope root_params = payments_until ''12:00''"
  by (simp_all add: root_params_def)

theorem honest_request_accepted_witness:
  "verify_inner core_crypto monday_1115 (shop_codec (im_payload message_a))
     (shop (shop_codec (im_payload message_a)) {}) [id_jws root_issued] (im_jws message_a) 0 {}
   = (Inr \<lparr>va_chain = [id_payload root_issued], va_message = im_payload message_a\<rparr>,
      insert (''a'', ''n1'') {})"
  using honest_request_accepted [OF core_crypto_ok, of "shop (shop_codec (im_payload message_a)) {}"
      root_params alice Map.empty "shop_codec (im_payload message_a)" "''root''" 0 root_issued
      agent_a "''n1''" 0 pay_50 message_a "''root''" "''m''" 0 "{}" monday_1115]
  by (simp add: shop_fields params_fields issued issued [of "im_payload message_a"]
    codec_round_trips is_revoked_in_def payments_until_matches)

definition toy_chain :: "string list" where
  "toy_chain = [id_jws leaf_issued, id_jws root_issued]"

abbreviation D_b :: core_codec where "D_b \<equiv> shop_codec (im_payload message_b)"

lemma two_link_chain_authenticated:
  "verify_stateless core_crypto D_b (shop D_b {}) 0 toy_chain (im_jws message_b)
   = Inr ([id_payload leaf_issued, id_payload root_issued], im_payload message_b)"
proof -
  note root = delegation_issue_fields [OF issued(1)] and leaf = delegation_issue_fields [OF issued(2)]
    and m = message_issue_fields [OF issued(3)]
  have "signed_chain core_crypto D_b (shop D_b {}) toy_chain
      [id_payload leaf_issued, id_payload root_issued]"
    using delegation_issue_signed [OF core_crypto_ok issued(1) codec_round_trips(1,2)]
      delegation_issue_signed [OF core_crypto_ok issued(2) codec_round_trips(3,4)]
      root(1,2)
    by (auto simp: toy_chain_def signed_under_iff shop_fields params_fields resolve_in_def register_def)
  moreover have "\<exists>key. jwk_to_public_key core_crypto (agent_public_key (id_payload leaf_issued)) = Inr key
      \<and> jws_verify core_crypto (dec_message D_b) (im_jws message_b) key = Inr (im_payload message_b)"
    using message_issue_signed [OF core_crypto_ok issued(3) codec_round_trips(5,6)] leaf(2)
    by (simp add: leaf_params_def)
  moreover have "sub_delegation 0 (id_payload leaf_issued) (id_payload root_issued)"
    using root leaf payments_until_safe
    by (simp add: sub_delegation_def leaf_params_def root_params_def narrows_safely_def)
  ultimately show ?thesis
    unfolding verify_stateless_eq_Inr authenticated_def message_ok_def
    using root leaf m
    by (simp add: in_force_def shop_fields is_revoked_in_def leaf_params_def root_params_def)
qed

lemma two_link_chain_accepted:
  "verify_inner core_crypto monday_1115 D_b (shop D_b {}) toy_chain (im_jws message_b) 0 {}
   = (Inr \<lparr>va_chain = [id_payload leaf_issued, id_payload root_issued],
        va_message = im_payload message_b\<rparr>, {(''b'', ''n1'')})"
  using delegation_issue_fields(4) [OF issued(2)] message_issue_fields [OF issued(3)]
  by (simp add: in_memory.verify_inner_cases shop_fields two_link_chain_authenticated
    nonce_seen_and_record_def leaf_params_def root_params_def payments_until_matches)

theorem accepts_iff_authorized_witness:
  "authenticated core_crypto D_b (shop D_b {}) 0 toy_chain (im_jws message_b)
     [id_payload leaf_issued, id_payload root_issued] (im_payload message_b)"
  using two_link_chain_accepted
  unfolding accepts_iff_authorized [OF shop_fields(4)] by simp

theorem no_pair_accepted_twice_witness:
  "distinct (accepted_pairs (fst (verify_all core_crypto monday_1115 D_b (shop D_b {})
     [(toy_chain, im_jws message_b, 0), (toy_chain, im_jws message_b, 0)] {})))"
  using no_pair_accepted_twice [OF shop_fields(4) surjective_pairing] by blast

end
