(* ===== verification/SdJose.thy ===== *)
theory SdJose
  imports External
begin

text \<open>
  The base of the SD-JWT crate: positions and errors (crates/sdjwt/src/error.rs), the
  \<open>_sd_alg\<close> hash (hash.rs), keys and JWKs (keys.rs), and compact JWS with its header
  checks (jws.rs).
\<close>

section \<open>Errors\<close>

datatype position = Root | Link nat | KeyBindingJwt

datatype error_kind =
    Malformed string
  | Base64
  | Json message
  | UnsupportedHeader string
  | AlgorithmMismatch string "string option"
  | BadSignature
  | WrongTyp "string list" "string option"
  | UnsupportedSdAlg string
  | InvalidDisclosure message
  | UnreferencedDisclosure
  | DuplicateDisclosure
  | DuplicateDigest string
  | ClaimCollision string
  | ReservedName string
  | InvalidClaim string
  | MissingCnf
  | UnexpectedCnf
  | BadKey message
  | BindingMismatch string
  | AmbiguousBinding
  | DelegatePayloadError string
  | Expired
  | NotYetValid
  | MissingExp
  | IatOutOfWindow
  | AudienceMismatch
  | NonceMismatch
  | MissingKeyBinding
  | UnexpectedKeyBinding
  | InvalidPointer string
  | Signing string
  | Issuance string

record sd_error =
  err_position :: "position option"
  err_kind :: error_kind

definition at_position :: "error_kind \<Rightarrow> position \<Rightarrow> sd_error" where
  "at_position kind pos = \<lparr>err_position = Some pos, err_kind = kind\<rparr>"

definition error_from :: "error_kind \<Rightarrow> sd_error" where
  "error_from kind = \<lparr>err_position = None, err_kind = kind\<rparr>"

text \<open>The \<open>Display\<close> texts; \<open>dbg_list\<close> is a \<open>Vec<String>\<close> under \<open>{:?}\<close>.\<close>

fun dbg_items :: "string list \<Rightarrow> message" where
  "dbg_items [] = []"
| "dbg_items [s] = [Dbg s]"
| "dbg_items (s # t # ss) = Dbg s # Lit '', '' # dbg_items (t # ss)"

definition dbg_list :: "string list \<Rightarrow> message" where
  "dbg_list ss = Lit ''['' # dbg_items ss @ [Lit '']'']"

fun position_text :: "position \<Rightarrow> message" where
  "position_text Root = [Lit ''root'']"
| "position_text (Link n) = [Lit ''link '', Num (int n)]"
| "position_text KeyBindingJwt = [Lit ''key binding JWT'']"

fun error_kind_text :: "error_kind \<Rightarrow> message" where
  "error_kind_text (Malformed t) = [Lit ''malformed serialization: '', Lit t]"
| "error_kind_text Base64 = [Lit ''invalid base64url'']"
| "error_kind_text (Json m) = Lit ''invalid JSON: '' # m"
| "error_kind_text (UnsupportedHeader h) = [Lit ''unsupported or forbidden JOSE header: '', Lit h]"
| "error_kind_text (AlgorithmMismatch expected found) =
     [Lit ''alg header '', DbgOpt found, Lit '' does not match the key's algorithm '', Lit expected]"
| "error_kind_text BadSignature = [Lit ''signature verification failed'']"
| "error_kind_text (WrongTyp expected found) =
     [Lit ''typ header '', DbgOpt found, Lit '' not allowed here (expected one of ''] @ dbg_list expected @ [Lit '')'']"
| "error_kind_text (UnsupportedSdAlg a) = [Lit ''unsupported _sd_alg '', Dbg a]"
| "error_kind_text (InvalidDisclosure m) = Lit ''invalid disclosure: '' # m"
| "error_kind_text UnreferencedDisclosure = [Lit ''disclosure is not referenced by any digest'']"
| "error_kind_text DuplicateDisclosure = [Lit ''the same disclosure is sent more than once'']"
| "error_kind_text (DuplicateDigest d) = [Lit ''digest '', Lit d, Lit '' appears more than once'']"
| "error_kind_text (ClaimCollision c) = [Lit ''disclosed claim '', Dbg c, Lit '' already exists at its level'']"
| "error_kind_text (ReservedName r) = [Lit ''reserved name '', Dbg r, Lit '' used outside its purpose'']"
| "error_kind_text (InvalidClaim c) = [Lit ''missing or invalid claim '', Dbg c]"
| "error_kind_text MissingCnf = [Lit ''cnf is required here but missing'']"
| "error_kind_text UnexpectedCnf = [Lit ''a terminal (kb+sd-jwt) link must not carry cnf'']"
| "error_kind_text (BadKey m) = Lit ''unsupported or invalid key: '' # m"
| "error_kind_text (BindingMismatch b) = [Lit b, Lit '' does not match the preceding element'']"
| "error_kind_text AmbiguousBinding = [Lit ''exactly one of sd_hash and issuer_jwt_hash is required'']"
| "error_kind_text (DelegatePayloadError t) = [Lit ''delegate_payload: '', Lit t]"
| "error_kind_text Expired = [Lit ''expired'']"
| "error_kind_text NotYetValid = [Lit ''not yet valid'']"
| "error_kind_text MissingExp = [Lit ''exp is required but missing'']"
| "error_kind_text IatOutOfWindow = [Lit ''iat outside the acceptable window'']"
| "error_kind_text AudienceMismatch = [Lit ''aud does not match the expected audience'']"
| "error_kind_text NonceMismatch = [Lit ''nonce does not match the expected nonce'']"
| "error_kind_text MissingKeyBinding =
     [Lit ''key binding is required but the presentation has none'']"
| "error_kind_text UnexpectedKeyBinding =
     [Lit ''the presentation carries a key binding JWT the verifier does not expect'']"
| "error_kind_text (InvalidPointer t) = [Lit ''invalid or unresolvable JSON pointer '', Dbg t]"
| "error_kind_text (Signing t) = [Lit ''signing failed: '', Lit t]"
| "error_kind_text (Issuance t) = [Lit ''cannot build token: '', Lit t]"

definition sd_error_text :: "sd_error \<Rightarrow> message" where
  "sd_error_text e =
     (case err_position e of
        Some p \<Rightarrow> position_text p @ Lit '': '' # error_kind_text (err_kind e)
      | None \<Rightarrow> error_kind_text (err_kind e))"

section \<open>The hash named by \<open>_sd_alg\<close>\<close>

datatype sd_alg = Sha256 | Sha384 | Sha512

fun sd_alg_name :: "sd_alg \<Rightarrow> string" where
  "sd_alg_name Sha256 = ''sha-256''"
| "sd_alg_name Sha384 = ''sha-384''"
| "sd_alg_name Sha512 = ''sha-512''"

definition sd_alg_from_name :: "string \<Rightarrow> error_kind + sd_alg" where
  "sd_alg_from_name name =
     (if name = ''sha-256'' then Inr Sha256
      else if name = ''sha-384'' then Inr Sha384
      else if name = ''sha-512'' then Inr Sha512
      else Inl (UnsupportedSdAlg name))"

definition sd_alg_of_payload :: "object \<Rightarrow> error_kind + sd_alg" where
  "sd_alg_of_payload payload =
     (case obj_get payload ''_sd_alg'' of
        None \<Rightarrow> Inr Sha256
      | Some (JStr name) \<Rightarrow> sd_alg_from_name name
      | Some _ \<Rightarrow> Inl (InvalidClaim ''_sd_alg''))"

definition sd_digest :: "crypto \<Rightarrow> sd_alg \<Rightarrow> string \<Rightarrow> string" where
  "sd_digest C alg input =
     b64_encode C (case alg of Sha256 \<Rightarrow> sha256 C input | Sha384 \<Rightarrow> sha384 C input
       | Sha512 \<Rightarrow> sha512 C input)"

section \<open>Keys\<close>

datatype algorithm = Es256 | EdDsa

fun algorithm_as_str :: "algorithm \<Rightarrow> string" where
  "algorithm_as_str Es256 = ''ES256''"
| "algorithm_as_str EdDsa = ''EdDSA''"

text \<open>The trait \<open>Signer\<close>: an algorithm and a signing function.\<close>

record signer =
  sg_algorithm :: algorithm
  sg_sign :: "bytes \<Rightarrow> error_kind + bytes"

datatype sd_signing_key = SkEd25519 bytes | SkP256 bytes

datatype sd_verifying_key = VkEd25519 bytes | VkP256 bytes bytes

definition sd_verifying_key_of :: "crypto \<Rightarrow> sd_signing_key \<Rightarrow> sd_verifying_key" where
  "sd_verifying_key_of C k = (case k of SkEd25519 sk \<Rightarrow> VkEd25519 (ed_public C sk)
     | SkP256 sk \<Rightarrow> VkP256 (fst (p256_public C sk)) (snd (p256_public C sk)))"

fun sd_signing_algorithm :: "sd_signing_key \<Rightarrow> algorithm" where
  "sd_signing_algorithm (SkEd25519 _) = EdDsa"
| "sd_signing_algorithm (SkP256 _) = Es256"

text \<open>\<open>rng\<close> is what \<open>OsRng\<close> yields for this signature.\<close>

definition sd_key_sign :: "crypto \<Rightarrow> bytes \<Rightarrow> sd_signing_key \<Rightarrow> bytes \<Rightarrow> error_kind + bytes" where
  "sd_key_sign C rng k signing_input =
     Inr (case k of SkEd25519 sk \<Rightarrow> ed_sign C sk signing_input
          | SkP256 sk \<Rightarrow> p256_sign_with_rng C rng sk signing_input)"

definition key_signer :: "crypto \<Rightarrow> bytes \<Rightarrow> sd_signing_key \<Rightarrow> signer" where
  "key_signer C rng k = \<lparr>sg_algorithm = sd_signing_algorithm k, sg_sign = sd_key_sign C rng k\<rparr>"

fun sd_verifying_algorithm :: "sd_verifying_key \<Rightarrow> algorithm" where
  "sd_verifying_algorithm (VkEd25519 _) = EdDsa"
| "sd_verifying_algorithm (VkP256 _ _) = Es256"

definition sd_key_verify :: "crypto \<Rightarrow> sd_verifying_key \<Rightarrow> bytes \<Rightarrow> bytes \<Rightarrow> bool" where
  "sd_key_verify C k msg sig_bytes =
     (case k of
        VkEd25519 pk \<Rightarrow> (if length sig_bytes = 64 then ed_verify_strict C pk msg sig_bytes else False)
      | VkP256 x y \<Rightarrow> (if p256_sig_ok C sig_bytes then p256_verify C x y msg sig_bytes else False))"

definition to_jwk :: "crypto \<Rightarrow> sd_verifying_key \<Rightarrow> json" where
  "to_jwk C k =
     (case k of
        VkEd25519 pk \<Rightarrow> JObj [(''crv'', JStr ''Ed25519''), (''kty'', JStr ''OKP''),
          (''x'', JStr (b64_encode C pk))]
      | VkP256 x y \<Rightarrow> JObj [(''crv'', JStr ''P-256''), (''kty'', JStr ''EC''),
          (''x'', JStr (b64_encode C x)), (''y'', JStr (b64_encode C y))])"

definition to_cnf :: "crypto \<Rightarrow> sd_verifying_key \<Rightarrow> json" where
  "to_cnf C k = JObj [(''jwk'', to_jwk C k)]"

definition jwk_coord :: "crypto \<Rightarrow> object \<Rightarrow> string \<Rightarrow> error_kind + bytes" where
  "jwk_coord C ob name =
     rbind (ok_or (obj_str ob name) (BadKey [Lit ''JWK is missing '', Lit name])) (\<lambda>s.
     rbind (map_err (\<lambda>_. Base64) (b64_decode C s)) (\<lambda>bs.
     if length bs = 32 then Inr bs
     else Inl (BadKey [Lit ''JWK '', Lit name, Lit '' is not 32 bytes''])))"

definition jwk_key :: "crypto \<Rightarrow> object \<Rightarrow> error_kind + sd_verifying_key" where
  "jwk_key C ob =
     (if obj_str ob ''kty'' = Some ''EC'' \<and> obj_str ob ''crv'' = Some ''P-256'' then
        rbind (jwk_coord C ob ''x'') (\<lambda>x.
        rbind (jwk_coord C ob ''y'') (\<lambda>y.
        case p256_point_ok C x y of Some e \<Rightarrow> Inl (BadKey e) | None \<Rightarrow> Inr (VkP256 x y)))
      else if obj_str ob ''kty'' = Some ''OKP'' \<and> obj_str ob ''crv'' = Some ''Ed25519'' then
        rbind (jwk_coord C ob ''x'') (\<lambda>x.
        case ed_key_ok C x of Some e \<Rightarrow> Inl (BadKey e) | None \<Rightarrow> Inr (VkEd25519 x))
      else Inl (BadKey [Lit ''unsupported key type '', DbgOpt (obj_str ob ''kty''), Lit ''/'',
        DbgOpt (obj_str ob ''crv'')]))"

definition from_jwk :: "crypto \<Rightarrow> json \<Rightarrow> error_kind + sd_verifying_key" where
  "from_jwk C jwk =
     rbind (ok_or (as_object jwk) (BadKey [Lit ''JWK is not an object''])) (\<lambda>ob.
     rbind (jwk_key C ob) (\<lambda>key.
     let mismatch = (\<lambda>v. Inl (BadKey [Lit ''JWK alg '', Lit (json_text C v),
           Lit '' does not match its key type''])) in
     case obj_get ob ''alg'' of
       None \<Rightarrow> Inr key
     | Some (JStr a) \<Rightarrow>
         if a = algorithm_as_str (sd_verifying_algorithm key) then Inr key else mismatch (JStr a)
     | Some other \<Rightarrow> mismatch other))"

definition from_cnf :: "crypto \<Rightarrow> json \<Rightarrow> error_kind + sd_verifying_key" where
  "from_cnf C cnf =
     rbind (ok_or (Option.bind (as_object cnf) (\<lambda>c. obj_get c ''jwk''))
       (BadKey [Lit ''cnf has no jwk member''])) (from_jwk C)"

section \<open>Compact JWS\<close>

record jws =
  jws_raw :: string
  jws_header :: object
  jws_payload :: object

definition looks_like_jwt :: "string \<Rightarrow> bool" where
  "looks_like_jwt s =
     (let parts = split_on CHR ''.'' s in length parts = 3 \<and> list_all (\<lambda>p. p \<noteq> []) parts)"

definition decode_object :: "crypto \<Rightarrow> string \<Rightarrow> error_kind + object" where
  "decode_object C segment =
     rbind (map_err (\<lambda>_. Base64) (b64_decode C segment)) (\<lambda>bs.
     rbind (map_err Json (json_read C bs)) (\<lambda>v.
     case v of JObj ob \<Rightarrow> Inr ob
     | _ \<Rightarrow> Inl (Json [Lit ''JWS header/payload is not an object''])))"

definition jws_parse :: "crypto \<Rightarrow> string \<Rightarrow> error_kind + jws" where
  "jws_parse C raw =
     (if \<not> looks_like_jwt raw then Inl (Malformed ''JWT must have 3 non-empty segments'')
      else
        let parts = split_on CHR ''.'' raw in
        rbind (decode_object C (parts ! 0)) (\<lambda>header.
        rbind (decode_object C (parts ! 1)) (\<lambda>payload.
        Inr \<lparr>jws_raw = raw, jws_header = header, jws_payload = payload\<rparr>)))"

definition jws_typ :: "jws \<Rightarrow> string option" where
  "jws_typ j = obj_str (jws_header j) ''typ''"

definition typ_normalize :: "string \<Rightarrow> string" where
  "typ_normalize t =
     (let t' = to_ascii_lowercase t in
      case strip_prefix ''application/'' t' of Some rest \<Rightarrow> rest | None \<Rightarrow> t')"

text \<open>A header value as shown in an error: a string itself, anything else as JSON text.\<close>

definition shown_value :: "crypto \<Rightarrow> json \<Rightarrow> string" where
  "shown_value C v = (case v of JStr s \<Rightarrow> s | other \<Rightarrow> json_text C other)"

definition check_typ :: "crypto \<Rightarrow> jws \<Rightarrow> string list \<Rightarrow> error_kind + unit" where
  "check_typ C j allowed =
     (let mismatch = Inl (WrongTyp allowed (map_option (shown_value C) (obj_get (jws_header j) ''typ'')))
      in case jws_typ j of
           Some t \<Rightarrow> if list_ex (\<lambda>a. typ_normalize a = typ_normalize t) allowed then Inr () else mismatch
         | None \<Rightarrow> mismatch)"

definition check_jws_alg :: "crypto \<Rightarrow> jws \<Rightarrow> sd_verifying_key \<Rightarrow> error_kind + unit" where
  "check_jws_alg C j key =
     (let expected = algorithm_as_str (sd_verifying_algorithm key);
          found = obj_get (jws_header j) ''alg'';
          mismatch = Inl (AlgorithmMismatch expected (map_option (shown_value C) found))
      in case found of
           Some (JStr a) \<Rightarrow> if a = expected then Inr () else mismatch
         | _ \<Rightarrow> mismatch)"

definition sd_jws_verify :: "crypto \<Rightarrow> jws \<Rightarrow> sd_verifying_key \<Rightarrow> error_kind + unit" where
  "sd_jws_verify C j key =
     rbind (check_jws_alg C j key) (\<lambda>_.
     if obj_contains (jws_header j) ''crit'' then Inl (UnsupportedHeader ''crit'')
     else
       let (signing_input, sig_b64) = the (rsplit_once CHR ''.'' (jws_raw j)) in
       rbind (map_err (\<lambda>_. Base64) (b64_decode C sig_b64)) (\<lambda>sig_bytes.
       if sd_key_verify C key signing_input sig_bytes then Inr () else Inl BadSignature))"

definition sd_jws_sign ::
  "crypto \<Rightarrow> string \<Rightarrow> object \<Rightarrow> object \<Rightarrow> signer \<Rightarrow> error_kind + string" where
  "sd_jws_sign C typ extra payload sg =
     (if list_ex (obj_contains extra) [''alg'', ''typ'', ''crit''] then
        Inl (Issuance ''alg, typ and crit header parameters are set by this crate'')
      else
        let header = obj_insert ''typ'' (JStr typ)
              (obj_insert ''alg'' (JStr (algorithm_as_str (sg_algorithm sg))) extra);
            to_json = (\<lambda>ob. map_err Json (json_write C (JObj ob)))
        in
        rbind (to_json header) (\<lambda>h.
        rbind (to_json payload) (\<lambda>p.
        let signing_input = b64_encode C h @ ''.'' @ b64_encode C p in
        rbind (sg_sign sg signing_input) (\<lambda>sig_bytes.
        Inr (signing_input @ ''.'' @ b64_encode C sig_bytes)))))"

record verified_jwt =
  vj_header :: object
  vj_claims :: object

definition verify_jwt ::
  "crypto \<Rightarrow> string \<Rightarrow> sd_verifying_key \<Rightarrow> string list \<Rightarrow> sd_error + verified_jwt" where
  "verify_jwt C jwt key allowed_typ =
     map_err error_from
       (rbind (jws_parse C jwt) (\<lambda>j.
        rbind (check_typ C j allowed_typ) (\<lambda>_.
        rbind (sd_jws_verify C j key) (\<lambda>_.
        Inr \<lparr>vj_header = jws_header j, vj_claims = jws_payload j\<rparr>))))"

definition sign_jwt ::
  "crypto \<Rightarrow> string \<Rightarrow> object \<Rightarrow> object \<Rightarrow> signer \<Rightarrow> sd_error + string" where
  "sign_jwt C typ header claims sg = map_err error_from (sd_jws_sign C typ header claims sg)"

section \<open>What the operations do\<close>

lemma jws_parse_eq_Inr:
  "jws_parse C raw = Inr j \<longleftrightarrow>
     (\<exists>h p g. split_on CHR ''.'' raw = [h, p, g] \<and> h \<noteq> [] \<and> p \<noteq> [] \<and> g \<noteq> []
        \<and> decode_object C h = Inr (jws_header j) \<and> decode_object C p = Inr (jws_payload j)
        \<and> jws_raw j = raw)"
  (is "?l \<longleftrightarrow> ?r")
proof (cases "length (split_on CHR ''.'' raw) = 3")
  case True
  then obtain h p g where parts: "split_on CHR ''.'' raw = [h, p, g]"
    by (auto simp: numeral_3_eq_3 length_Suc_conv)
  show ?thesis
    by (cases j) (auto simp: jws_parse_def looks_like_jwt_def parts Let_def)
next
  case False
  then show ?thesis by (auto simp: jws_parse_def looks_like_jwt_def Let_def)
qed

lemma jws_parse_raw: "jws_parse C raw = Inr j \<Longrightarrow> jws_raw j = raw"
  by (auto simp: jws_parse_eq_Inr)

text \<open>The header and signature parts that a parsed JWS is split into for verification.\<close>

lemma split_three:
  "split_on CHR ''.'' raw = [h, p, g] \<Longrightarrow> rsplit_once CHR ''.'' raw = Some (h @ ''.'' @ p, g)"
proof -
  assume parts: "split_on CHR ''.'' raw = [h, p, g]"
  then have "raw = h @ ''.'' @ p @ ''.'' @ g"
    using join_split_on [of "CHR ''.''" raw] by simp
  moreover from parts have "CHR ''.'' \<notin> set g"
    using split_on_no_sep [of g "CHR ''.''" raw] by simp
  ultimately show ?thesis
    using rsplit_once_append [of "CHR ''.''" g "h @ ''.'' @ p"] by simp
qed

lemma check_jws_alg_eq_Inr [simp]:
  "check_jws_alg C j key = Inr u \<longleftrightarrow>
     obj_str (jws_header j) ''alg'' = Some (algorithm_as_str (sd_verifying_algorithm key))"
  by (auto simp: check_jws_alg_def Let_def obj_str_def split: option.splits json.splits if_splits)

lemma sd_jws_verify_eq_Inr:
  "sd_jws_verify C j key = Inr u \<longleftrightarrow>
     obj_str (jws_header j) ''alg'' = Some (algorithm_as_str (sd_verifying_algorithm key))
     \<and> \<not> obj_contains (jws_header j) ''crit''
     \<and> (\<exists>sig_bytes. b64_decode C (snd (the (rsplit_once CHR ''.'' (jws_raw j)))) = Inr sig_bytes
          \<and> sd_key_verify C key (fst (the (rsplit_once CHR ''.'' (jws_raw j)))) sig_bytes)"
  by (auto simp: sd_jws_verify_def Let_def split: prod.splits)

lemma check_typ_eq_Inr [simp]:
  "check_typ C j allowed = Inr u \<longleftrightarrow>
     (\<exists>t. jws_typ j = Some t \<and> (\<exists>a \<in> set allowed. typ_normalize a = typ_normalize t))"
  by (auto simp: check_typ_def Let_def list_ex_iff split: option.splits)

lemma sd_key_verify_sign:
  "signatures_ok C \<Longrightarrow> sd_key_sign C rng k m = Inr g \<Longrightarrow>
   sd_key_verify C (sd_verifying_key_of C k) m g \<and> g \<noteq> []"
proof -
  assume C: "signatures_ok C" and g: "sd_key_sign C rng k m = Inr g"
  have "g \<noteq> []" if "length g = 64" using that by auto
  with C g show ?thesis
    by (cases k) (auto simp: signatures_ok_def sd_key_verify_def sd_key_sign_def sd_verifying_key_of_def)
qed

lemma sd_verifying_algorithm_of [simp]:
  "sd_verifying_algorithm (sd_verifying_key_of C k) = sd_signing_algorithm k"
  by (cases k) (simp_all add: sd_verifying_key_of_def)

lemma json_okE:
  assumes "json_ok C" "json_fits 127 v"
  obtains bs where "json_write C v = Inr bs" "bs \<noteq> []" "json_read C bs = Inr v"
  using assms unfolding json_ok_def by blast

lemma decode_object_encoded:
  "b64_ok C \<Longrightarrow> json_read C bs = Inr (JObj ob) \<Longrightarrow> decode_object C (b64_encode C bs) = Inr ob"
  by (simp add: decode_object_def b64_okD)

definition signed_header :: "string \<Rightarrow> object \<Rightarrow> algorithm \<Rightarrow> object" where
  "signed_header typ extra alg =
     obj_insert ''typ'' (JStr typ) (obj_insert ''alg'' (JStr (algorithm_as_str alg)) extra)"

lemma signed_header_fits: "json_fits d (JObj extra) \<Longrightarrow> json_fits d (JObj (signed_header typ extra alg))"
  unfolding signed_header_def by (intro json_fits_insert) simp_all

text \<open>
  Signing: the token parses back to its header and payload, and verifies under the
  signer's public key.
\<close>

lemma sd_jws_sign_ok:
  assumes "b64_ok C" "json_ok C" "signatures_ok C"
    and "json_fits 127 (JObj extra)" "json_fits 127 (JObj payload)"
    and "\<not> list_ex (obj_contains extra) [''alg'', ''typ'', ''crit'']"
  obtains raw where
    "sd_jws_sign C typ extra payload (key_signer C rng k) = Inr raw"
    "jws_parse C raw = Inr \<lparr>jws_raw = raw,
       jws_header = signed_header typ extra (sd_signing_algorithm k), jws_payload = payload\<rparr>"
    "sd_jws_verify C \<lparr>jws_raw = raw,
       jws_header = signed_header typ extra (sd_signing_algorithm k), jws_payload = payload\<rparr>
       (sd_verifying_key_of C k) = Inr ()"
    "CHR ''~'' \<notin> set raw"
proof -
  let ?header = "signed_header typ extra (sd_signing_algorithm k)"
  obtain h where h: "json_write C (JObj ?header) = Inr h" "h \<noteq> []" "json_read C h = Inr (JObj ?header)"
    using json_okE [OF assms(2) signed_header_fits [OF assms(4)]] by blast
  obtain p where p: "json_write C (JObj payload) = Inr p" "p \<noteq> []" "json_read C p = Inr (JObj payload)"
    using json_okE [OF assms(2,5)] by blast
  let ?si = "b64_encode C h @ ''.'' @ b64_encode C p"
  obtain g where g: "sd_key_sign C rng k ?si = Inr g"
    by (simp add: sd_key_sign_def)
  note verified = sd_key_verify_sign [OF assms(3) g]
  let ?raw = "?si @ ''.'' @ b64_encode C g"
  have parts: "split_on CHR ''.'' ?raw = [b64_encode C h, b64_encode C p, b64_encode C g]"
    by (simp add: split_on_append split_on_absent b64_okD [OF assms(1)])
  have "sd_jws_sign C typ extra payload (key_signer C rng k) = Inr ?raw"
    using assms(6) h(1) p(1) g
    by (simp add: sd_jws_sign_def Let_def key_signer_def signed_header_def [symmetric])
  moreover have "jws_parse C ?raw = Inr \<lparr>jws_raw = ?raw, jws_header = ?header, jws_payload = payload\<rparr>"
    unfolding jws_parse_eq_Inr using parts h p verified
    by (simp add: decode_object_encoded [OF assms(1)] b64_okD [OF assms(1)])
  moreover have "sd_jws_verify C \<lparr>jws_raw = ?raw, jws_header = ?header, jws_payload = payload\<rparr>
      (sd_verifying_key_of C k) = Inr ()"
    using split_three [OF parts] verified assms(6)
    by (simp add: sd_jws_verify_eq_Inr b64_okD [OF assms(1)] signed_header_def)
  moreover have "CHR ''~'' \<notin> set ?raw"
    by (simp add: b64_okD [OF assms(1)])
  ultimately show ?thesis by (rule that)
qed

lemma signed_jwt_ok:
  assumes "b64_ok C" "json_ok C" "signatures_ok C"
    and "json_fits 127 (JObj header)" "json_fits 127 (JObj claims)"
    and "\<not> list_ex (obj_contains header) [''alg'', ''typ'', ''crit'']"
    and "a \<in> set allowed" "typ_normalize a = typ_normalize typ"
  shows "\<exists>raw h. sign_jwt C typ header claims (key_signer C rng k) = Inr raw
    \<and> verify_jwt C raw (sd_verifying_key_of C k) allowed = Inr \<lparr>vj_header = h, vj_claims = claims\<rparr>
    \<and> obj_str h ''typ'' = Some typ
    \<and> (\<forall>name v. name \<noteq> ''alg'' \<longrightarrow> name \<noteq> ''typ'' \<longrightarrow> obj_get h name = obj_get header name)"
proof -
  obtain raw where raw: "sd_jws_sign C typ header claims (key_signer C rng k) = Inr raw"
    "jws_parse C raw = Inr \<lparr>jws_raw = raw,
       jws_header = signed_header typ header (sd_signing_algorithm k), jws_payload = claims\<rparr>"
    "sd_jws_verify C \<lparr>jws_raw = raw,
       jws_header = signed_header typ header (sd_signing_algorithm k), jws_payload = claims\<rparr>
       (sd_verifying_key_of C k) = Inr ()"
    using sd_jws_sign_ok [OF assms(1-6)] by metis
  have "check_typ C \<lparr>jws_raw = raw,
      jws_header = signed_header typ header (sd_signing_algorithm k), jws_payload = claims\<rparr> allowed = Inr ()"
    using assms(7,8) by (auto simp: jws_typ_def signed_header_def)
  with raw show ?thesis
    by (auto simp: sign_jwt_def verify_jwt_def signed_header_def)
qed

lemma signed_jwt_verifies:
  assumes "b64_ok C" "json_ok C" "signatures_ok C"
    and "json_fits 127 (JObj header)" "json_fits 127 (JObj claims)"
    and "\<not> list_ex (obj_contains header) [''alg'', ''typ'', ''crit'']"
    and "a \<in> set allowed" "typ_normalize a = typ_normalize typ"
  shows "\<exists>raw h. sign_jwt C typ header claims (key_signer C rng k) = Inr raw
    \<and> verify_jwt C raw (sd_verifying_key_of C k) allowed = Inr \<lparr>vj_header = h, vj_claims = claims\<rparr>
    \<and> obj_str h ''typ'' = Some typ
    \<and> (\<forall>name v. name \<noteq> ''alg'' \<longrightarrow> name \<noteq> ''typ'' \<longrightarrow> obj_get h name = obj_get header name)"
  using assms by (rule signed_jwt_ok)

lemma verify_jwt_eq_Inr:
  "verify_jwt C jwt key allowed = Inr v \<longleftrightarrow>
     (\<exists>j. jws_parse C jwt = Inr j \<and> check_typ C j allowed = Inr () \<and> sd_jws_verify C j key = Inr ()
        \<and> v = \<lparr>vj_header = jws_header j, vj_claims = jws_payload j\<rparr>)"
  by (auto simp: verify_jwt_def)

lemma verify_jwt_sound:
  assumes "verify_jwt C jwt key allowed = Inr v"
  shows "\<exists>h p g sig_bytes t. split_on CHR ''.'' jwt = [h, p, g]
    \<and> decode_object C h = Inr (vj_header v) \<and> decode_object C p = Inr (vj_claims v)
    \<and> obj_str (vj_header v) ''alg'' = Some (algorithm_as_str (sd_verifying_algorithm key))
    \<and> \<not> obj_contains (vj_header v) ''crit''
    \<and> obj_str (vj_header v) ''typ'' = Some t
    \<and> typ_normalize t \<in> typ_normalize ` set allowed
    \<and> b64_decode C g = Inr sig_bytes \<and> sd_key_verify C key (h @ ''.'' @ p) sig_bytes"
proof -
  from assms obtain j where j: "jws_parse C jwt = Inr j" "check_typ C j allowed = Inr ()"
    "sd_jws_verify C j key = Inr ()" and v: "vj_header v = jws_header j" "vj_claims v = jws_payload j"
    unfolding verify_jwt_eq_Inr by force
  from j(1) obtain h p g where parts: "split_on CHR ''.'' jwt = [h, p, g]"
    "decode_object C h = Inr (jws_header j)" "decode_object C p = Inr (jws_payload j)"
    and raw: "jws_raw j = jwt"
    by (auto simp: jws_parse_eq_Inr)
  with j(3) split_three [OF parts(1)] v
  have "obj_str (vj_header v) ''alg'' = Some (algorithm_as_str (sd_verifying_algorithm key))"
    "\<not> obj_contains (vj_header v) ''crit''"
    "\<exists>sig_bytes. b64_decode C g = Inr sig_bytes \<and> sd_key_verify C key (h @ ''.'' @ p) sig_bytes"
    by (simp_all add: sd_jws_verify_eq_Inr)
  moreover from j(2) v have "\<exists>t. obj_str (vj_header v) ''typ'' = Some t
      \<and> typ_normalize t \<in> typ_normalize ` set allowed"
    unfolding check_typ_eq_Inr jws_typ_def by (metis imageI)
  ultimately show ?thesis
    using parts v by auto
qed

lemma sd_jwk_round_trip:
  assumes "b64_ok C" "public_keys_ok C"
  shows "from_cnf C (to_cnf C (sd_verifying_key_of C k)) = Inr (sd_verifying_key_of C k)"
  using assms(2)
  by (cases k) (simp_all add: from_cnf_def to_cnf_def from_jwk_def jwk_key_def jwk_coord_def to_jwk_def
    sd_verifying_key_of_def public_keys_ok_def b64_okD [OF assms(1)] obj_str_def)

lemma ascii_lower_idem [simp]: "ascii_lower_char (ascii_lower_char c) = ascii_lower_char c"
  by (auto simp: ascii_lower_char_def Let_def)

lemma typ_normalize_case [simp]: "typ_normalize (to_ascii_lowercase t) = typ_normalize t"
  by (simp add: typ_normalize_def to_ascii_lowercase_def comp_def)

lemma kb_jwt_typ: "typ_normalize ''kb+jwt'' = typ_normalize ''application/KB+JWT''"
  by (simp add: typ_normalize_def to_ascii_lowercase_def ascii_lower_char_def Let_def char_of_def bit_0)

abbreviation toy_token :: string where
  "toy_token \<equiv> projr (sign_jwt toy_crypto ''application/KB+JWT'' [] [(''a'', JBool True)]
     (key_signer toy_crypto ''r'' (SkP256 ''k'')))"

lemma toy_token_accepted:
  "\<exists>v. verify_jwt toy_crypto toy_token (sd_verifying_key_of toy_crypto (SkP256 ''k'')) [''kb+jwt''] = Inr v"
proof -
  let ?j = "\<lambda>raw. \<lparr>jws_raw = raw, jws_header = signed_header ''application/KB+JWT'' [] Es256,
       jws_payload = [(''a'', JBool True)]\<rparr>"
  obtain raw where "sd_jws_sign toy_crypto ''application/KB+JWT'' [] [(''a'', JBool True)]
        (key_signer toy_crypto ''r'' (SkP256 ''k'')) = Inr raw"
    "jws_parse toy_crypto raw = Inr (?j raw)"
    "sd_jws_verify toy_crypto (?j raw) (sd_verifying_key_of toy_crypto (SkP256 ''k'')) = Inr ()"
    using sd_jws_sign_ok [OF toy_crypto_ok(1-3), of "[]" "[(''a'', JBool True)]"
        "''application/KB+JWT''" "''r''" "SkP256 ''k''"] by (auto simp: obj_wf_def)
  moreover have "check_typ toy_crypto (?j raw) [''kb+jwt''] = Inr ()"
    unfolding check_typ_eq_Inr using kb_jwt_typ
    by (simp add: jws_typ_def signed_header_def obj_str_def)
  ultimately show ?thesis
    by (simp add: sign_jwt_def verify_jwt_def)
qed

end
