(* ===== verification/SdProcess.thy ===== *)
theory SdProcess
  imports SdJose
begin

text \<open>
  Selective disclosure in the SD-JWT crate: disclosures (crates/sdjwt/src/disclosure.rs),
  JSON pointers (pointer.rs) and the walk that replaces digests by disclosed values
  (process.rs). The walk carries the set of digests seen and the path of every disclosure.
  It follows digests into disclosures, so it is defined with fuel; \<open>process\<close> supplies
  enough for every input (lemma \<open>walk_fuel\<close>).
\<close>

section \<open>Disclosures\<close>

record disclosure =
  d_encoded :: string
  d_salt :: string
  d_name :: "string option"
  d_value :: json

text \<open>\<open>[salt, value]\<close> or \<open>[salt, name, value]\<close>, with a string salt and name.\<close>

definition disclosure_shape :: "json list \<Rightarrow> (string \<times> string option \<times> json) option" where
  "disclosure_shape items =
     (case items of
        [JStr salt, v] \<Rightarrow> Some (salt, None, v)
      | [JStr salt, JStr name, v] \<Rightarrow> Some (salt, Some name, v)
      | _ \<Rightarrow> None)"

definition disclosure_parse :: "crypto \<Rightarrow> string \<Rightarrow> error_kind + disclosure" where
  "disclosure_parse C encoded =
     rbind (map_err (\<lambda>_. Base64) (b64_decode C encoded)) (\<lambda>bs.
     rbind (case json_read C bs of
              Inr (JArr a) \<Rightarrow> Inr a
            | Inr _ \<Rightarrow> Inl (InvalidDisclosure [Lit ''not a JSON array''])
            | Inl e \<Rightarrow> Inl (InvalidDisclosure e)) (\<lambda>items.
     case disclosure_shape items of
       Some (salt, name, v) \<Rightarrow>
         Inr \<lparr>d_encoded = encoded, d_salt = salt, d_name = name, d_value = v\<rparr>
     | None \<Rightarrow> Inl (InvalidDisclosure
         [Lit ''expected [salt, value] or [salt, name, value] with string salt and name''])))"

text \<open>The JSON text of the array is \<open>to_string\<close>; \<open>salt\<close> is the fresh random salt.\<close>

definition disclosure_create :: "crypto \<Rightarrow> string \<Rightarrow> string option \<Rightarrow> json \<Rightarrow> disclosure" where
  "disclosure_create C salt name v =
     (let items = (case name of Some n \<Rightarrow> JArr [JStr salt, JStr n, v] | None \<Rightarrow> JArr [JStr salt, v])
      in \<lparr>d_encoded = b64_encode C (json_text C items), d_salt = salt, d_name = name, d_value = v\<rparr>)"

definition d_digest :: "crypto \<Rightarrow> sd_alg \<Rightarrow> disclosure \<Rightarrow> string" where
  "d_digest C alg d = sd_digest C alg (d_encoded d)"

section \<open>JSON pointers\<close>

datatype segment = Key string | Index nat

type_synonym path = "segment list"

fun valid_escapes :: "string \<Rightarrow> bool" where
  "valid_escapes [] = True"
| "valid_escapes (c # r) =
     ((c = CHR ''~'' \<longrightarrow> (case r of [] \<Rightarrow> False | d # _ \<Rightarrow> d = CHR ''0'' \<or> d = CHR ''1''))
      \<and> valid_escapes r)"

text \<open>\<open>s.replace("ab", "c")\<close> for a two-character pattern.\<close>

fun replace_pair :: "char \<Rightarrow> char \<Rightarrow> char \<Rightarrow> string \<Rightarrow> string" where
  "replace_pair a b c (x # y # r) =
     (if x = a \<and> y = b then c # replace_pair a b c r else x # replace_pair a b c (y # r))"
| "replace_pair a b c r = r"

definition unescape :: "string \<Rightarrow> string" where
  "unescape raw =
     replace_pair CHR ''~'' CHR ''0'' CHR ''~'' (replace_pair CHR ''~'' CHR ''1'' CHR ''/'' raw)"

definition resolve_token :: "string \<Rightarrow> json \<Rightarrow> string \<Rightarrow> error_kind + segment \<times> json" where
  "resolve_token pointer current raw =
     (let invalid = InvalidPointer pointer in
      if CHR ''~'' \<in> set raw \<and> \<not> valid_escapes raw then Inl invalid
      else
        let token = unescape raw in
        case current of
          JObj ob \<Rightarrow> rbind (ok_or (obj_get ob token) invalid) (\<lambda>v. Inr (Key token, v))
        | JArr items \<Rightarrow>
            (if token = [] \<or> (length token > 1 \<and> hd token = CHR ''0'') then Inl invalid
             else rbind (ok_or (parse_uint 64 token) invalid) (\<lambda>i.
               if i < length items then Inr (Index i, items ! i) else Inl invalid))
        | _ \<Rightarrow> Inl invalid)"

fun resolve_tokens :: "string \<Rightarrow> json \<Rightarrow> string list \<Rightarrow> error_kind + path" where
  "resolve_tokens pointer current [] = Inr []"
| "resolve_tokens pointer current (raw # rest) =
     rbind (resolve_token pointer current raw) (\<lambda>(seg, v).
     rbind (resolve_tokens pointer v rest) (\<lambda>path. Inr (seg # path)))"

definition resolve :: "json \<Rightarrow> string \<Rightarrow> error_kind + path" where
  "resolve doc pointer =
     rbind (ok_or (strip_prefix ''/'' pointer) (InvalidPointer pointer)) (\<lambda>rest.
     resolve_tokens pointer doc (split_on CHR ''/'' rest))"

text \<open>The value at a path.\<close>

fun lookup_path :: "json \<Rightarrow> path \<Rightarrow> json option" where
  "lookup_path v [] = Some v"
| "lookup_path v (Key k # p) =
     (case v of JObj ob \<Rightarrow> Option.bind (obj_get ob k) (\<lambda>w. lookup_path w p) | _ \<Rightarrow> None)"
| "lookup_path v (Index i # p) =
     (case v of JArr xs \<Rightarrow> if i < length xs then lookup_path (xs ! i) p else None | _ \<Rightarrow> None)"

section \<open>The walk\<close>

record walker =
  wk_seen :: "string set"
  wk_paths :: "path option list"

text \<open>What does not change during the walk.\<close>

record walk_env =
  we_disclosures :: "disclosure list"
  we_by_digest :: "string \<rightharpoonup> nat"

text \<open>\<open>None\<close> in an error is the lack of fuel.\<close>

type_synonym 'a walking = "walker \<Rightarrow> error_kind option + 'a \<times> walker"

definition fail :: "error_kind \<Rightarrow> error_kind option + 'a" where
  "fail e = Inl (Some e)"

definition walk_lookup :: "walk_env \<Rightarrow> string \<Rightarrow> nat option walking" where
  "walk_lookup E digest w =
     (if digest \<in> wk_seen w then fail (DuplicateDigest digest)
      else Inr (we_by_digest E digest, w\<lparr>wk_seen := insert digest (wk_seen w)\<rparr>))"

text \<open>Recording where the value of disclosure \<open>i\<close> lands.\<close>

definition place :: "nat \<Rightarrow> path \<Rightarrow> walker \<Rightarrow> walker" where
  "place i path w = w\<lparr>wk_paths := (wk_paths w)[i := Some path]\<rparr>"

text \<open>\<open>Some digest\<close> for \<open>{"...": "<digest>"}\<close>.\<close>

definition element_digest :: "json \<Rightarrow> error_kind + string option" where
  "element_digest item =
     (case as_object item of
        None \<Rightarrow> Inr None
      | Some ob \<Rightarrow>
          (case obj_get ob ''...'' of
             None \<Rightarrow> Inr None
           | Some (JStr d) \<Rightarrow> if length ob = 1 then Inr (Some d) else Inl (ReservedName ''...'')
           | Some _ \<Rightarrow> Inl (ReservedName ''...'')))"

text \<open>The loops of \<open>object\<close> and \<open>array\<close>; \<open>rec\<close> is the recursive call on a value.\<close>

fun walk_fields :: "(json \<Rightarrow> path \<Rightarrow> json walking) \<Rightarrow> object \<Rightarrow> path \<Rightarrow> object \<Rightarrow> object walking" where
  "walk_fields rec [] path out w = Inr (out, w)"
| "walk_fields rec ((name, v) # es) path out w =
     rbind (rec v (path @ [Key name]) w) (\<lambda>(v', w').
     walk_fields rec es path (obj_insert name v' out) w')"

fun walk_digests ::
  "walk_env \<Rightarrow> (json \<Rightarrow> path \<Rightarrow> json walking) \<Rightarrow> json list \<Rightarrow> path \<Rightarrow> object \<Rightarrow> object walking" where
  "walk_digests E rec [] path out w = Inr (out, w)"
| "walk_digests E rec (digest # ds) path out w =
     (case as_str digest of
        None \<Rightarrow> fail (InvalidClaim ''_sd'')
      | Some dg \<Rightarrow>
          rbind (walk_lookup E dg w) (\<lambda>(found, w1).
          case found of
            None \<Rightarrow> walk_digests E rec ds path out w1
          | Some i \<Rightarrow>
              (let d = we_disclosures E ! i in
               case d_name d of
                 None \<Rightarrow> fail (InvalidDisclosure
                   [Lit ''array-element disclosure referenced from _sd''])
               | Some name \<Rightarrow>
                   if name = ''_sd'' \<or> name = ''...'' then fail (ReservedName name)
                   else if obj_contains out name then fail (ClaimCollision name)
                   else
                     let path' = path @ [Key name] in
                     rbind (rec (d_value d) path' (place i path' w1))
                       (\<lambda>(v, w2). walk_digests E rec ds path (obj_insert name v out) w2))))"

definition walk_object ::
  "walk_env \<Rightarrow> (json \<Rightarrow> path \<Rightarrow> json walking) \<Rightarrow> object \<Rightarrow> path \<Rightarrow> object walking" where
  "walk_object E rec ob path w =
     (if obj_contains ob ''...'' then fail (ReservedName ''...'')
      else
        rbind (walk_fields rec (filter (\<lambda>(k, _). k \<noteq> ''_sd'') ob) path [] w) (\<lambda>(out, w').
        case obj_get ob ''_sd'' of
          None \<Rightarrow> Inr (out, w')
        | Some sd \<Rightarrow>
            (case as_array sd of
               None \<Rightarrow> fail (InvalidClaim ''_sd'')
             | Some digests \<Rightarrow> walk_digests E rec digests path out w')))"

fun walk_array ::
  "walk_env \<Rightarrow> (json \<Rightarrow> path \<Rightarrow> json walking) \<Rightarrow> json list \<Rightarrow> path \<Rightarrow> json list \<Rightarrow> json list walking" where
  "walk_array E rec [] path out w = Inr (out, w)"
| "walk_array E rec (item # items) path out w =
     (let path' = path @ [Index (length out)] in
      rbind (map_err Some (element_digest item)) (\<lambda>digest.
      case digest of
        Some dg \<Rightarrow>
          rbind (walk_lookup E dg w) (\<lambda>(found, w1).
          case found of
            None \<Rightarrow> walk_array E rec items path out w1
          | Some i \<Rightarrow>
              (let d = we_disclosures E ! i in
               if d_name d \<noteq> None then
                 fail (InvalidDisclosure [Lit ''property disclosure referenced from an array''])
               else
                 rbind (rec (d_value d) path' (place i path' w1))
                   (\<lambda>(v, w2). walk_array E rec items path (out @ [v]) w2)))
      | None \<Rightarrow>
          rbind (rec item path' w) (\<lambda>(v, w1). walk_array E rec items path (out @ [v]) w1)))"

fun walk :: "nat \<Rightarrow> walk_env \<Rightarrow> json \<Rightarrow> path \<Rightarrow> json walking" where
  "walk 0 E v path w = Inl None"
| "walk (Suc fuel) E v path w =
     (case v of
        JObj ob \<Rightarrow> rbind (walk_object E (walk fuel E) ob path w) (\<lambda>(ob', w'). Inr (JObj ob', w'))
      | JArr items \<Rightarrow> rbind (walk_array E (walk fuel E) items path [] w) (\<lambda>(xs, w'). Inr (JArr xs, w'))
      | other \<Rightarrow> Inr (other, w))"

fun index_digests :: "crypto \<Rightarrow> sd_alg \<Rightarrow> nat \<Rightarrow> disclosure list \<Rightarrow> (string \<rightharpoonup> nat) \<Rightarrow> error_kind + (string \<rightharpoonup> nat)" where
  "index_digests C alg i [] by_digest = Inr by_digest"
| "index_digests C alg i (d # ds) by_digest =
     (let dg = d_digest C alg d in
      if by_digest dg \<noteq> None then Inl DuplicateDisclosure
      else index_digests C alg (i + 1) ds (by_digest(dg \<mapsto> i)))"

record processed =
  pr_claims :: object
  pr_paths :: "path list"

definition walk_fuel_for :: "object \<Rightarrow> disclosure list \<Rightarrow> nat" where
  "walk_fuel_for payload ds = Suc (size (JObj payload) + sum_list (map (\<lambda>d. Suc (size (d_value d))) ds))"

definition process :: "crypto \<Rightarrow> object \<Rightarrow> disclosure list \<Rightarrow> sd_alg \<Rightarrow> error_kind + processed" where
  "process C payload ds alg =
     rbind (index_digests C alg 0 ds Map.empty) (\<lambda>by_digest.
     let E = \<lparr>we_disclosures = ds, we_by_digest = by_digest\<rparr> in
     rbind (map_err the (walk_object E (walk (walk_fuel_for payload ds) E) payload []
       \<lparr>wk_seen = {}, wk_paths = replicate (length ds) None\<rparr>)) (\<lambda>(claims, w).
     rbind (collect (\<lambda>p. ok_or p UnreferencedDisclosure) (wk_paths w)) (\<lambda>paths.
     Inr \<lparr>pr_claims = obj_remove ''_sd_alg'' claims, pr_paths = paths\<rparr>)))"

section \<open>The walk ends within its fuel\<close>

lemma size_element: "x \<in> set xs \<Longrightarrow> size x < size (JArr xs)"
  by (induction xs) auto

lemma size_member: "(k, v) \<in> set ob \<Longrightarrow> size v < size (JObj ob)"
  by (induction ob) auto

lemma walk_lookup_eq_Inr:
  "walk_lookup E dg w = Inr (found, w') \<longleftrightarrow>
     dg \<notin> wk_seen w \<and> found = we_by_digest E dg \<and> w' = w\<lparr>wk_seen := insert dg (wk_seen w)\<rparr>"
  by (auto simp: walk_lookup_def fail_def)

lemma fail_neq [simp]: "fail e \<noteq> Inl None" "fail e \<noteq> Inr x"
  by (simp_all add: fail_def)

lemma walk_lookup_fuel [simp]: "walk_lookup E dg w \<noteq> Inl None"
  by (simp add: walk_lookup_def)

text \<open>A successful walk only adds to the digests seen.\<close>

definition rec_grows :: "(json \<Rightarrow> path \<Rightarrow> json walking) \<Rightarrow> bool" where
  "rec_grows rec \<longleftrightarrow> (\<forall>v p w v' w'. rec v p w = Inr (v', w') \<longrightarrow> wk_seen w \<subseteq> wk_seen w')"

lemma rec_growsD: "rec_grows rec \<Longrightarrow> rec v p w = Inr (v', w') \<Longrightarrow> wk_seen w \<subseteq> wk_seen w'"
  by (simp add: rec_grows_def)

text \<open>One step of each loop that succeeded, by cases.\<close>

lemma walk_fields_ConsE:
  assumes "walk_fields rec ((k, v) # es) p out w = Inr r"
  obtains v' w1 where "rec v (p @ [Key k]) w = Inr (v', w1)"
    "walk_fields rec es p (obj_insert k v' out) w1 = Inr r"
  using assms by auto

lemma walk_digests_ConsE:
  assumes "walk_digests E rec (d # ds) p out w = Inr r"
  obtains (skip) dg w1 where "d = JStr dg" "walk_lookup E dg w = Inr (None, w1)"
      "walk_digests E rec ds p out w1 = Inr r"
  | (follow) dg i w1 name v w2 where "d = JStr dg" "walk_lookup E dg w = Inr (Some i, w1)"
      "d_name (we_disclosures E ! i) = Some name" "name \<noteq> ''_sd''" "name \<noteq> ''...''"
      "\<not> obj_contains out name"
      "rec (d_value (we_disclosures E ! i)) (p @ [Key name]) (place i (p @ [Key name]) w1) = Inr (v, w2)"
      "walk_digests E rec ds p (obj_insert name v out) w2 = Inr r"
proof -
  from assms obtain dg where d: "d = JStr dg"
    by (cases d) (simp_all add: as_str_def)
  with assms obtain found w1 where lookup: "walk_lookup E dg w = Inr (found, w1)" by auto
  show ?thesis
  proof (cases found)
    case None
    with assms d lookup skip show ?thesis by simp
  next
    case (Some i)
    with assms d lookup obtain name where name: "d_name (we_disclosures E ! i) = Some name"
      by (cases "d_name (we_disclosures E ! i)") (simp_all add: Let_def)
    with assms d lookup Some have ok: "name \<noteq> ''_sd''" "name \<noteq> ''...''" "\<not> obj_contains out name"
      by (auto simp: Let_def split: if_splits)
    with assms d lookup Some name follow show ?thesis by (auto simp: Let_def)
  qed
qed

lemma walk_array_ConsE:
  assumes "walk_array E rec (item # items) p out w = Inr r"
  obtains (plain) v w1 where "element_digest item = Inr None"
      "rec item (p @ [Index (length out)]) w = Inr (v, w1)"
      "walk_array E rec items p (out @ [v]) w1 = Inr r"
  | (skip) dg w1 where "element_digest item = Inr (Some dg)" "walk_lookup E dg w = Inr (None, w1)"
      "walk_array E rec items p out w1 = Inr r"
  | (follow) dg i w1 v w2 where "element_digest item = Inr (Some dg)"
      "walk_lookup E dg w = Inr (Some i, w1)" "d_name (we_disclosures E ! i) = None"
      "rec (d_value (we_disclosures E ! i)) (p @ [Index (length out)])
         (place i (p @ [Index (length out)]) w1) = Inr (v, w2)"
      "walk_array E rec items p (out @ [v]) w2 = Inr r"
proof -
  from assms obtain digest where digest: "element_digest item = Inr digest"
    by (auto simp: Let_def)
  show ?thesis
  proof (cases digest)
    case None
    with assms digest plain show ?thesis by (auto simp: Let_def)
  next
    case (Some dg)
    with assms digest obtain found w1 where lookup: "walk_lookup E dg w = Inr (found, w1)"
      by (auto simp: Let_def)
    show ?thesis
    proof (cases found)
      case None
      with assms digest Some lookup skip show ?thesis by (simp add: Let_def)
    next
      case (Some i)
      with assms digest \<open>digest = Some dg\<close> lookup
      have "d_name (we_disclosures E ! i) = None" by (auto simp: Let_def split: if_splits)
      with assms digest \<open>digest = Some dg\<close> lookup Some follow show ?thesis by (auto simp: Let_def)
    qed
  qed
qed

lemma walk_object_InrE:
  assumes "walk_object E rec ob p w = Inr (ob', w')"
  obtains (plain) "\<not> obj_contains ob ''...''" "obj_get ob ''_sd'' = None"
      "walk_fields rec (filter (\<lambda>(k, _). k \<noteq> ''_sd'') ob) p [] w = Inr (ob', w')"
  | (digests) out w1 ds where "\<not> obj_contains ob ''...''" "obj_get ob ''_sd'' = Some (JArr ds)"
      "walk_fields rec (filter (\<lambda>(k, _). k \<noteq> ''_sd'') ob) p [] w = Inr (out, w1)"
      "walk_digests E rec ds p out w1 = Inr (ob', w')"
proof -
  from assms have dots: "\<not> obj_contains ob ''...''" by (auto simp: walk_object_def split: if_splits)
  with assms obtain out w1 where
    fields: "walk_fields rec (filter (\<lambda>(k, _). k \<noteq> ''_sd'') ob) p [] w = Inr (out, w1)"
    by (auto simp: walk_object_def)
  show ?thesis
  proof (cases "obj_get ob ''_sd''")
    case None
    with assms dots fields plain show ?thesis by (simp add: walk_object_def)
  next
    case (Some sd)
    with assms dots fields obtain ds where "sd = JArr ds"
      by (cases "as_array sd") (simp_all add: walk_object_def)
    with assms dots fields Some digests show ?thesis by (simp add: walk_object_def)
  qed
qed

lemma place_seen [simp]: "wk_seen (place i p w) = wk_seen w"
  by (simp add: place_def)

lemma walk_lookup_grows: "walk_lookup E dg w = Inr (found, w1) \<Longrightarrow> wk_seen w \<subseteq> wk_seen w1"
  by (auto simp: walk_lookup_eq_Inr)

lemma walk_fields_grows:
  assumes "rec_grows rec"
  shows "walk_fields rec es p out w = Inr (out', w') \<Longrightarrow> wk_seen w \<subseteq> wk_seen w'"
proof (induction es arbitrary: out w)
  case (Cons e es)
  obtain k v where e: "e = (k, v)" by force
  from Cons.prems [unfolded e] show ?case
    by (rule walk_fields_ConsE) (meson Cons.IH rec_growsD [OF assms] order_trans)
qed simp

lemma walk_digests_grows:
  assumes "rec_grows rec"
  shows "walk_digests E rec ds p out w = Inr (out', w') \<Longrightarrow> wk_seen w \<subseteq> wk_seen w'"
proof (induction ds arbitrary: out w)
  case (Cons d ds)
  from Cons.prems show ?case
  proof (cases rule: walk_digests_ConsE)
    case (skip dg w1)
    then show ?thesis using walk_lookup_grows Cons.IH by blast
  next
    case (follow dg i w1 name v w2)
    from walk_lookup_grows [OF follow(2)] rec_growsD [OF assms follow(7)] Cons.IH [OF follow(8)]
    show ?thesis by simp
  qed
qed simp

lemma walk_array_grows:
  assumes "rec_grows rec"
  shows "walk_array E rec items p out w = Inr (out', w') \<Longrightarrow> wk_seen w \<subseteq> wk_seen w'"
proof (induction items arbitrary: out w)
  case (Cons item items)
  from Cons.prems show ?case
  proof (cases rule: walk_array_ConsE)
    case (plain v w1)
    from rec_growsD [OF assms plain(2)] Cons.IH [OF plain(3)] show ?thesis by blast
  next
    case (skip dg w1)
    then show ?thesis using walk_lookup_grows Cons.IH by blast
  next
    case (follow dg i w1 v w2)
    from walk_lookup_grows [OF follow(2)] rec_growsD [OF assms follow(4)] Cons.IH [OF follow(5)]
    show ?thesis by simp
  qed
qed simp

lemma walk_object_grows:
  assumes "rec_grows rec" "walk_object E rec ob p w = Inr (ob', w')"
  shows "wk_seen w \<subseteq> wk_seen w'"
  using assms(2)
proof (cases rule: walk_object_InrE)
  case plain
  then show ?thesis using walk_fields_grows [OF assms(1)] by blast
next
  case (digests out w1 ds)
  from walk_fields_grows [OF assms(1) digests(3)] walk_digests_grows [OF assms(1) digests(4)]
  show ?thesis by blast
qed

lemma walk_Suc_InrE:
  assumes "walk (Suc fuel) E v p w = Inr (v', w')"
  obtains (obj) ob ob' where "v = JObj ob" "v' = JObj ob'" "walk_object E (walk fuel E) ob p w = Inr (ob', w')"
  | (arr) xs xs' where "v = JArr xs" "v' = JArr xs'" "walk_array E (walk fuel E) xs p [] w = Inr (xs', w')"
  | (leaf) "v' = v" "w' = w" "as_object v = None" "as_array v = None"
  using assms by (cases v) (auto simp: as_object_def as_array_def)

lemma walk_grows: "rec_grows (walk fuel E)"
proof (induction fuel)
  case (Suc fuel)
  show ?case
    unfolding rec_grows_def
  proof (intro allI impI)
    fix v p w v' w' assume "walk (Suc fuel) E v p w = Inr (v', w')"
    then show "wk_seen w \<subseteq> wk_seen w'"
      by (cases rule: walk_Suc_InrE)
        (simp_all add: walk_object_grows [OF Suc] walk_array_grows [OF Suc])
  qed
qed (simp add: rec_grows_def)

text \<open>What the disclosures not yet referenced can still cost.\<close>

definition pending :: "walk_env \<Rightarrow> walker \<Rightarrow> nat" where
  "pending E w = (\<Sum>dg \<in> dom (we_by_digest E) - wk_seen w.
     Suc (size (d_value (we_disclosures E ! the (we_by_digest E dg)))))"

lemma pending_mono:
  "finite (dom (we_by_digest E)) \<Longrightarrow> wk_seen w \<subseteq> wk_seen w' \<Longrightarrow> pending E w' \<le> pending E w"
  unfolding pending_def by (rule sum_mono2) auto

lemma pending_jump:
  assumes "finite (dom (we_by_digest E))" "dg \<notin> wk_seen w" "we_by_digest E dg = Some i"
    and "wk_seen w' = insert dg (wk_seen w)"
  shows "size (d_value (we_disclosures E ! i)) + pending E w' < pending E w"
proof -
  have "dom (we_by_digest E) - wk_seen w = insert dg (dom (we_by_digest E) - wk_seen w')"
    and "dg \<notin> dom (we_by_digest E) - wk_seen w'"
    using assms(2-4) by auto
  then show ?thesis using assms(1,3) by (simp add: pending_def)
qed

definition rec_fuel :: "nat \<Rightarrow> walk_env \<Rightarrow> (json \<Rightarrow> path \<Rightarrow> json walking) \<Rightarrow> bool" where
  "rec_fuel n E rec \<longleftrightarrow> rec_grows rec \<and> finite (dom (we_by_digest E))
     \<and> (\<forall>v p w. size v + pending E w < n \<longrightarrow> rec v p w \<noteq> Inl None)"

lemma rec_fuelD:
  "rec_fuel n E rec \<Longrightarrow> size v + pending E w < n \<Longrightarrow> rec v p w \<noteq> Inl None"
  "rec_fuel n E rec \<Longrightarrow> rec_grows rec"
  "rec_fuel n E rec \<Longrightarrow> finite (dom (we_by_digest E))"
  by (auto simp: rec_fuel_def)

lemma rec_fuel_pending:
  "rec_fuel n E rec \<Longrightarrow> rec v p w = Inr (v', w') \<Longrightarrow> pending E w' \<le> pending E w"
  using pending_mono rec_growsD by (metis rec_fuelD(2,3))

lemma rbind_neq_None:
  "m \<noteq> Inl None \<Longrightarrow> (\<And>a. m = Inr a \<Longrightarrow> f a \<noteq> Inl None) \<Longrightarrow> rbind m f \<noteq> Inl None"
  by (cases m) auto

definition fueled :: "error_kind option + 'a \<Rightarrow> bool" where
  "fueled m \<longleftrightarrow> m \<noteq> Inl None"

lemma fueled_simps [simp]: "fueled (fail e)" "fueled (Inr x)" "fueled (walk_lookup E dg w)"
  by (simp_all add: fueled_def)

lemma fueled_rbind: "fueled m \<Longrightarrow> (\<And>a. m = Inr a \<Longrightarrow> fueled (f a)) \<Longrightarrow> fueled (rbind m f)"
  unfolding fueled_def by (rule rbind_neq_None)

lemma fueled_lookup:
  "(\<And>found w1. walk_lookup E dg w = Inr (found, w1) \<Longrightarrow> fueled (f (found, w1))) \<Longrightarrow>
   fueled (rbind (walk_lookup E dg w) f)"
  by (rule fueled_rbind) auto

lemma walk_fields_fuel:
  assumes "rec_fuel n E rec"
  shows "\<forall>(k, v) \<in> set es. size v + pending E w < n \<Longrightarrow> walk_fields rec es p out w \<noteq> Inl None"
proof (induction es arbitrary: out w)
  case (Cons e es)
  obtain k v where e: "e = (k, v)" by force
  have "rec v (p @ [Key k]) w \<noteq> Inl None"
    using Cons.prems by (intro rec_fuelD(1) [OF assms]) (simp add: e)
  moreover have "walk_fields rec es p out' w' \<noteq> Inl None"
    if "rec v (p @ [Key k]) w = Inr (v', w')" for v' w' out'
  proof (rule Cons.IH)
    from rec_fuel_pending [OF assms that] Cons.prems
    show "\<forall>(k, v) \<in> set es. size v + pending E w' < n" by fastforce
  qed
  ultimately show ?case
    unfolding e walk_fields.simps by (intro rbind_neq_None) auto
qed simp

lemma jump_fuel:
  assumes "rec_fuel n E rec" "pending E w < n" "walk_lookup E dg w = Inr (Some i, w1)"
  shows "rec (d_value (we_disclosures E ! i)) p' (place i p' w1) \<noteq> Inl None"
proof -
  from assms(3) have "dg \<notin> wk_seen w" "we_by_digest E dg = Some i"
    "wk_seen (place i p' w1) = insert dg (wk_seen w)"
    by (auto simp: walk_lookup_eq_Inr)
  from pending_jump [OF rec_fuelD(3) [OF assms(1)] this] assms(2)
  show ?thesis by (intro rec_fuelD(1) [OF assms(1)]) simp
qed

lemma lookup_pending:
  assumes "rec_fuel n E rec" "walk_lookup E dg w = Inr (found, w1)"
  shows "pending E w1 \<le> pending E w"
  using pending_mono [OF rec_fuelD(3) [OF assms(1)] walk_lookup_grows [OF assms(2)]] .

lemma follow_pending:
  assumes "rec_fuel n E rec" "walk_lookup E dg w = Inr (found, w1)"
    and "rec v p' (place i p' w1) = Inr (v', w2)"
  shows "pending E w2 \<le> pending E w"
  using lookup_pending [OF assms(1,2)] rec_fuel_pending [OF assms(1,3)]
  by (simp add: pending_def)

lemma walk_digests_fuel:
  assumes "rec_fuel n E rec"
  shows "pending E w < n \<Longrightarrow> walk_digests E rec ds p out w \<noteq> Inl None"
proof (induction ds arbitrary: out w)
  case (Cons d ds)
  have skip: "walk_digests E rec ds p out w1 \<noteq> Inl None"
    if "walk_lookup E dg w = Inr (None, w1)" for dg w1
    using lookup_pending [OF assms that] Cons.prems by (intro Cons.IH) simp
  have follow: "rbind (rec (d_value (we_disclosures E ! i)) p' (place i p' w1))
      (\<lambda>(v, w2). walk_digests E rec ds p (obj_insert name v out) w2) \<noteq> Inl None"
    if "walk_lookup E dg w = Inr (Some i, w1)" for dg i w1 p' name
  proof (intro rbind_neq_None)
    show "rec (d_value (we_disclosures E ! i)) p' (place i p' w1) \<noteq> Inl None"
      by (rule jump_fuel [OF assms Cons.prems that])
    fix r assume r: "rec (d_value (we_disclosures E ! i)) p' (place i p' w1) = Inr r"
    obtain v w2 where "r = (v, w2)" by force
    with follow_pending [OF assms that r [unfolded this]] Cons.prems
    show "(case r of (v, w2) \<Rightarrow> walk_digests E rec ds p (obj_insert name v out) w2) \<noteq> Inl None"
      by (simp add: Cons.IH)
  qed
  show ?case
    unfolding fueled_def [symmetric]
    using skip [unfolded fueled_def [symmetric]] follow [unfolded fueled_def [symmetric]]
    by (auto simp: Let_def split: option.split intro!: fueled_lookup)
qed simp

lemma walk_object_fuel:
  assumes "rec_fuel n E rec" "\<forall>(k, v) \<in> set ob. size v + pending E w < n" "pending E w < n"
  shows "walk_object E rec ob p w \<noteq> Inl None"
proof -
  let ?fields = "walk_fields rec (filter (\<lambda>(k, _). k \<noteq> ''_sd'') ob) p [] w"
  have "?fields \<noteq> Inl None"
    using assms(2) by (intro walk_fields_fuel [OF assms(1)]) auto
  moreover have "walk_digests E rec ds p out w' \<noteq> Inl None" if "?fields = Inr (out, w')" for ds out w'
  proof -
    from walk_fields_grows [OF rec_fuelD(2) [OF assms(1)] that]
    have "pending E w' \<le> pending E w" by (rule pending_mono [OF rec_fuelD(3) [OF assms(1)]])
    with assms(3) show ?thesis by (intro walk_digests_fuel [OF assms(1)]) simp
  qed
  ultimately show ?thesis
    unfolding fueled_def [symmetric]
    by (auto simp: walk_object_def split: option.splits intro!: fueled_rbind)
qed

lemma walk_array_fuel:
  assumes "rec_fuel n E rec"
  shows "\<forall>x \<in> set items. size x + pending E w < n \<Longrightarrow> pending E w < n \<Longrightarrow>
    walk_array E rec items p out w \<noteq> Inl None"
proof (induction items arbitrary: out w)
  case (Cons item items)
  have rest: "walk_array E rec items p out' w' \<noteq> Inl None"
    if "pending E w' \<le> pending E w" for out' w'
  proof (rule Cons.IH)
    show "\<forall>x \<in> set items. size x + pending E w' < n"
      using Cons.prems(1) that by fastforce
    show "pending E w' < n" using Cons.prems(2) that by simp
  qed
  have plain: "rbind (rec item p' w) (\<lambda>(v, w1). walk_array E rec items p (out @ [v]) w1) \<noteq> Inl None"
    for p'
    using rec_fuelD(1) [OF assms] Cons.prems(1) rest rec_fuel_pending [OF assms]
    by (intro rbind_neq_None) auto
  have follow: "rbind (rec (d_value (we_disclosures E ! i)) p' (place i p' w1))
      (\<lambda>(v, w2). walk_array E rec items p (out @ [v]) w2) \<noteq> Inl None"
    if "walk_lookup E dg w = Inr (Some i, w1)" for dg i w1 p'
    using jump_fuel [OF assms Cons.prems(2) that] rest follow_pending [OF assms that]
    by (intro rbind_neq_None) auto
  have "map_err Some (element_digest item) \<noteq> Inl None"
    by (cases "element_digest item") auto
  then show ?case
    unfolding walk_array.simps Let_def
  proof (rule rbind_neq_None)
    fix digest
    show "(case digest of None \<Rightarrow> rbind (rec item (p @ [Index (length out)]) w)
          (\<lambda>(v, w1). walk_array E rec items p (out @ [v]) w1)
      | Some dg \<Rightarrow> rbind (walk_lookup E dg w) (\<lambda>(found, w1). case found of
          None \<Rightarrow> walk_array E rec items p out w1
        | Some i \<Rightarrow> if d_name (we_disclosures E ! i) \<noteq> None
            then fail (InvalidDisclosure [Lit ''property disclosure referenced from an array''])
            else rbind (rec (d_value (we_disclosures E ! i)) (p @ [Index (length out)])
                (place i (p @ [Index (length out)]) w1))
              (\<lambda>(v, w2). walk_array E rec items p (out @ [v]) w2))) \<noteq> Inl None"
      unfolding fueled_def [symmetric]
      using plain [unfolded fueled_def [symmetric]] follow [unfolded fueled_def [symmetric]]
        rest [unfolded fueled_def [symmetric]] lookup_pending [OF assms]
      by (auto split: option.split intro!: fueled_lookup)
  qed
qed simp

lemma walk_fuel:
  "finite (dom (we_by_digest E)) \<Longrightarrow> rec_fuel fuel E (walk fuel E)"
proof (induction fuel)
  case (Suc fuel)
  then have fuel: "rec_fuel fuel E (walk fuel E)" by simp
  have "walk (Suc fuel) E v p w \<noteq> Inl None" if "size v + pending E w < Suc fuel" for v p w
  proof (cases v)
    case (JObj ob)
    have "\<forall>(k, x) \<in> set ob. size x + pending E w < fuel" "pending E w < fuel"
      using that JObj size_member by fastforce+
    from walk_object_fuel [OF fuel this] JObj show ?thesis by (auto simp: rbind_eq_Inl)
  next
    case (JArr items)
    have "\<forall>x \<in> set items. size x + pending E w < fuel" "pending E w < fuel"
      using that JArr size_element by fastforce+
    from walk_array_fuel [OF fuel this] JArr show ?thesis by (auto simp: rbind_eq_Inl)
  qed simp_all
  with Suc.prems walk_grows [of "Suc fuel" E] show ?case unfolding rec_fuel_def by blast
qed (simp add: rec_fuel_def walk_grows)

end
