(* ===== verification/SdPointer.thy ===== *)
theory SdPointer
  imports SdProcess
begin

text \<open>
  JSON pointers (crates/sdjwt/src/pointer.rs): a resolved pointer names a value of the
  document, and the escaped spelling of a path of keys resolves to that path.
\<close>

section \<open>Resolving is sound\<close>

lemma resolve_token_step:
  assumes "resolve_token pointer current raw = Inr (seg, v)"
  shows "lookup_path current (seg # p) = lookup_path v p"
  using assms
  by (cases current) (auto simp: resolve_token_def Let_def split: if_splits)

lemma resolve_tokens_sound:
  "resolve_tokens pointer current raws = Inr path \<Longrightarrow>
   (\<exists>v. lookup_path current path = Some v) \<and> length path = length raws"
proof (induction raws arbitrary: current path)
  case (Cons raw raws)
  then show ?case using resolve_token_step by fastforce
qed simp

section \<open>Escaping\<close>

fun escape :: "string \<Rightarrow> string" where
  "escape [] = []"
| "escape (c # k) =
     (if c = CHR ''~'' then ''~0'' else if c = CHR ''/'' then ''~1'' else [c]) @ escape k"

fun escape_tilde :: "string \<Rightarrow> string" where
  "escape_tilde [] = []"
| "escape_tilde (c # k) = (if c = CHR ''~'' then ''~0'' else [c]) @ escape_tilde k"

lemma replace_pair_skip: "x \<noteq> a \<Longrightarrow> replace_pair a b c (x # r) = x # replace_pair a b c r"
  by (cases r) simp_all

lemma replace_pair_keep:
  "y \<noteq> b \<Longrightarrow> y \<noteq> a \<Longrightarrow> replace_pair a b c (a # y # r) = a # y # replace_pair a b c r"
  by (simp add: replace_pair_skip)

lemma unescape_slash: "replace_pair CHR ''~'' CHR ''1'' CHR ''/'' (escape k) = escape_tilde k"
  by (induction k) (simp_all add: replace_pair_skip replace_pair_keep)

lemma unescape_tilde: "replace_pair CHR ''~'' CHR ''0'' CHR ''~'' (escape_tilde k) = k"
  by (induction k) (simp_all add: replace_pair_skip)

lemma unescape_escape: "unescape (escape k) = k"
  by (simp add: unescape_def unescape_slash unescape_tilde)

lemma escape_valid: "valid_escapes (escape k)"
  by (induction k) (auto split: list.splits)

lemma escape_no_slash: "CHR ''/'' \<notin> set (escape k)"
  by (induction k) auto

definition key_pointer :: "string list \<Rightarrow> string" where
  "key_pointer ks = concat (map (\<lambda>k. ''/'' @ escape k) ks)"

lemma split_key_pointer:
  "split_on CHR ''/'' (escape k @ key_pointer ks) = map escape (k # ks)"
proof (induction ks arbitrary: k)
  case Nil
  then show ?case by (simp add: key_pointer_def split_on_absent escape_no_slash)
next
  case (Cons k' ks)
  then show ?case by (simp add: key_pointer_def split_on_append escape_no_slash)
qed

lemma resolve_tokens_keys:
  "lookup_path doc (map Key ks) \<noteq> None \<Longrightarrow> resolve_tokens pointer doc (map escape ks) = Inr (map Key ks)"
proof (induction ks arbitrary: doc)
  case (Cons k ks)
  from Cons.prems obtain ob v where "doc = JObj ob" "obj_get ob k = Some v" "lookup_path v (map Key ks) \<noteq> None"
    by (auto simp: Option.bind_eq_Some_conv split: json.splits)
  with Cons.IH show ?case
    by (simp add: resolve_token_def Let_def escape_valid unescape_escape)
qed simp

lemma key_pointer_resolves:
  assumes "ks \<noteq> []" and "lookup_path doc (map Key ks) = Some v"
  shows "resolve doc (key_pointer ks) = Inr (map Key ks)"
proof -
  obtain k ks' where ks: "ks = k # ks'" using assms(1) by (cases ks) auto
  have "strip_prefix ''/'' (key_pointer ks) = Some (escape k @ key_pointer ks')"
    by (simp add: ks key_pointer_def)
  then show ?thesis
    using resolve_tokens_keys [of doc ks] assms(2)
    by (simp add: resolve_def split_key_pointer ks)
qed

lemma resolved_pointer_names_a_value:
  assumes "resolve doc pointer = Inr path"
  shows "path \<noteq> [] \<and> (\<exists>v. lookup_path doc path = Some v)"
proof -
  from assms obtain rest where tokens: "resolve_tokens pointer doc (split_on CHR ''/'' rest) = Inr path"
    by (auto simp: resolve_def)
  from resolve_tokens_sound [OF this] show ?thesis
    using split_on_not_Nil [of "CHR ''/''" rest] by auto
qed

text \<open>
  An array index may carry a plus sign, and with it leading zeros: \<open>usize::parse\<close> is
  more liberal than the syntax of the RFC.
\<close>

lemma pointer_accepts_plus:
  "resolve (JObj [(''a'', JArr [JNull, JBool True])]) ''/a/+01'' = Inr [Key ''a'', Index 1]"
  by (simp add: resolve_def resolve_token_def Let_def unescape_def parse_uint_def is_digit_def
    digits_value_def digit_value_def)

end
