(* ===== verification/AuthSchema.thy ===== *)
theory AuthSchema
  imports External
begin

text \<open>
  The type names, the money type and the strict JSON reader of the crate \<open>aap-authority\<close>
  (crates/authority/src/names.rs, amount.rs and schema.rs). A \<open>Fields\<close> reader is a
  record passed from one read to the next: it remembers the names it was asked for, so that
  \<open>fl_finish\<close> can reject every other member.
\<close>

section \<open>Names\<close>

definition AAP_NAMESPACE :: string where "AAP_NAMESPACE = ''aap''"

definition aap :: "string \<Rightarrow> string" where "aap name = AAP_NAMESPACE @ ''.'' @ name"

definition AUTHORITY_OPEN :: string where "AUTHORITY_OPEN = aap ''authority.open.1''"
definition ACTION :: string where "ACTION = aap ''action.1''"
definition ACTIONS :: string where "ACTIONS = aap ''actions''"
definition RESOURCES :: string where "RESOURCES = aap ''resources''"
definition AMOUNT :: string where "AMOUNT = aap ''amount''"
definition COUNTERPARTIES :: string where "COUNTERPARTIES = aap ''counterparties''"
definition DATA_CATEGORIES :: string where "DATA_CATEGORIES = aap ''data_categories''"
definition TIME_WINDOWS :: string where "TIME_WINDOWS = aap ''time_windows''"
definition DELEGATION :: string where "DELEGATION = aap ''delegation''"
definition AGENT :: string where "AGENT = aap ''agent''"
definition NOTE :: string where "NOTE = aap ''note''"

definition CHECKOUT_OPEN :: string where "CHECKOUT_OPEN = ''mandate.checkout.open.1''"
definition CHECKOUT :: string where "CHECKOUT = ''mandate.checkout.1''"
definition PAYMENT_OPEN :: string where "PAYMENT_OPEN = ''mandate.payment.open.1''"
definition PAYMENT :: string where "PAYMENT = ''mandate.payment.1''"
definition ALLOWED_MERCHANTS :: string where "ALLOWED_MERCHANTS = ''checkout.allowed_merchants''"
definition LINE_ITEMS :: string where "LINE_ITEMS = ''checkout.line_items''"
definition AMOUNT_RANGE :: string where "AMOUNT_RANGE = ''payment.amount_range''"
definition ALLOWED_PAYEES :: string where "ALLOWED_PAYEES = ''payment.allowed_payees''"
definition ALLOWED_PAYMENT_INSTRUMENTS :: string where
  "ALLOWED_PAYMENT_INSTRUMENTS = ''payment.allowed_payment_instruments''"
definition ALLOWED_PISPS :: string where "ALLOWED_PISPS = ''payment.allowed_pisps''"
definition BUDGET :: string where "BUDGET = ''payment.budget''"
definition AGENT_RECURRENCE :: string where "AGENT_RECURRENCE = ''payment.agent_recurrence''"
definition EXECUTION_DATE :: string where "EXECUTION_DATE = ''payment.execution_date''"
definition REFERENCE :: string where "REFERENCE = ''payment.reference''"

definition RECEIPT_TYP :: string where "RECEIPT_TYP = ''mandate-receipt+jwt''"

lemmas aap_names = AAP_NAMESPACE_def aap_def AUTHORITY_OPEN_def ACTION_def ACTIONS_def RESOURCES_def
  AMOUNT_def COUNTERPARTIES_def DATA_CATEGORIES_def TIME_WINDOWS_def DELEGATION_def AGENT_def NOTE_def

lemmas ap2_names = CHECKOUT_OPEN_def CHECKOUT_def PAYMENT_OPEN_def PAYMENT_def ALLOWED_MERCHANTS_def
  LINE_ITEMS_def AMOUNT_RANGE_def ALLOWED_PAYEES_def ALLOWED_PAYMENT_INSTRUMENTS_def ALLOWED_PISPS_def
  BUDGET_def AGENT_RECURRENCE_def EXECUTION_DATE_def REFERENCE_def

section \<open>Money\<close>

type_synonym currency = bytes

definition is_ascii_uppercase :: "char \<Rightarrow> bool" where
  "is_ascii_uppercase c \<longleftrightarrow> 65 \<le> (of_char c :: nat) \<and> (of_char c :: nat) \<le> 90"

definition currency_parse :: "string \<Rightarrow> message + currency" where
  "currency_parse code =
     (if length code = 3 \<and> list_all is_ascii_uppercase code then Inr code
      else Inl [Dbg code, Lit '' is not an ISO 4217 code (three capital letters)''])"

record amount_v1 =
  am_minor :: u64
  am_currency :: currency

section \<open>Errors\<close>

record schema_error =
  se_context :: string
  se_message :: message

definition schema_error_new :: "string \<Rightarrow> message \<Rightarrow> schema_error" where
  "schema_error_new context message = \<lparr>se_context = context, se_message = message\<rparr>"

section \<open>Values\<close>

definition string_value :: "json \<Rightarrow> string option" where
  "string_value v = (case as_str v of Some s \<Rightarrow> if s \<noteq> [] then Some s else None | None \<Rightarrow> None)"

definition uint_value :: "json \<Rightarrow> u64 option" where
  "uint_value v = (case v of JNum n \<Rightarrow> number_as_u64 n | _ \<Rightarrow> None)"

fun strings_from :: "string list \<Rightarrow> json list \<Rightarrow> string list option" where
  "strings_from out [] = Some out"
| "strings_from out (item # items) =
     (case string_value item of
        None \<Rightarrow> None
      | Some s \<Rightarrow> if s \<in> set out then None else strings_from (out @ [s]) items)"

definition strings_value :: "json \<Rightarrow> string list option" where
  "strings_value v =
     (case as_array v of
        Some items \<Rightarrow> if items \<noteq> [] then strings_from [] items else None
      | None \<Rightarrow> None)"

section \<open>Readers\<close>

record fields =
  fl_context :: string
  fl_object :: object
  fl_read :: "string list"

definition fields_new :: "json \<Rightarrow> string \<Rightarrow> schema_error + fields" where
  "fields_new v context =
     rbind (ok_or (as_object v) (schema_error_new context [Lit ''not a JSON object'']))
       (\<lambda>ob. Inr \<lparr>fl_context = context, fl_object = ob, fl_read = []\<rparr>)"

definition fl_error :: "fields \<Rightarrow> message \<Rightarrow> schema_error" where
  "fl_error f message = schema_error_new (fl_context f) message"

definition fl_allow :: "string list \<Rightarrow> fields \<Rightarrow> fields" where
  "fl_allow names f = f\<lparr>fl_read := fl_read f @ names\<rparr>"

definition fl_opt :: "string \<Rightarrow> fields \<Rightarrow> json option \<times> fields" where
  "fl_opt name f = (obj_get (fl_object f) name, f\<lparr>fl_read := fl_read f @ [name]\<rparr>)"

definition fl_req :: "string \<Rightarrow> fields \<Rightarrow> schema_error + json \<times> fields" where
  "fl_req name f =
     (let (v, f') = fl_opt name f in
      rbind (ok_or v (fl_error f' [Lit ''missing '', Dbg name])) (\<lambda>v. Inr (v, f')))"

text \<open>The shape of the typed readers: a member, read by a function, with the text of its error.\<close>

definition fl_req_as :: "(json \<Rightarrow> 'a option) \<Rightarrow> string \<Rightarrow> string \<Rightarrow> fields \<Rightarrow> schema_error + 'a \<times> fields" where
  "fl_req_as read what name f =
     rbind (fl_req name f) (\<lambda>(v, f').
     rbind (ok_or (read v) (fl_error f' [Dbg name, Lit what])) (\<lambda>x. Inr (x, f')))"

definition fl_opt_as ::
  "(json \<Rightarrow> 'a option) \<Rightarrow> string \<Rightarrow> string \<Rightarrow> fields \<Rightarrow> schema_error + 'a option \<times> fields" where
  "fl_opt_as read what name f =
     (case fl_opt name f of
        (None, f') \<Rightarrow> Inr (None, f')
      | (Some v, f') \<Rightarrow> rbind (ok_or (read v) (fl_error f' [Dbg name, Lit what])) (\<lambda>x. Inr (Some x, f')))"

definition fl_string :: "string \<Rightarrow> fields \<Rightarrow> schema_error + string \<times> fields" where
  "fl_string = fl_req_as string_value '' must be a non-empty string''"

definition fl_opt_string :: "string \<Rightarrow> fields \<Rightarrow> schema_error + string option \<times> fields" where
  "fl_opt_string = fl_opt_as string_value '' must be a non-empty string''"

definition fl_uint :: "string \<Rightarrow> fields \<Rightarrow> schema_error + u64 \<times> fields" where
  "fl_uint = fl_req_as uint_value '' must be a non-negative integer''"

definition fl_opt_uint :: "string \<Rightarrow> fields \<Rightarrow> schema_error + u64 option \<times> fields" where
  "fl_opt_uint = fl_opt_as uint_value '' must be a non-negative integer''"

definition fl_strings :: "string \<Rightarrow> fields \<Rightarrow> schema_error + string list \<times> fields" where
  "fl_strings = fl_req_as strings_value '' must be a non-empty array of distinct non-empty strings''"

definition fl_opt_strings :: "string \<Rightarrow> fields \<Rightarrow> schema_error + string list option \<times> fields" where
  "fl_opt_strings = fl_opt_as strings_value '' must be a non-empty array of distinct non-empty strings''"

definition fl_currency :: "string \<Rightarrow> fields \<Rightarrow> schema_error + currency \<times> fields" where
  "fl_currency name f =
     rbind (fl_string name f) (\<lambda>(s, f').
     rbind (map_err (fl_error f') (currency_parse s)) (\<lambda>c. Inr (c, f')))"

definition fl_array ::
  "string \<Rightarrow> (json \<Rightarrow> schema_error + 'a) \<Rightarrow> fields \<Rightarrow> schema_error + 'a list \<times> fields" where
  "fl_array name item f =
     rbind (fl_req name f) (\<lambda>(v, f').
     rbind (ok_or (as_array v) (fl_error f' [Dbg name, Lit '' must be an array''])) (\<lambda>items.
     if items = [] then
       Inl (fl_error f' [Dbg name, Lit '' has no (disclosed) elements, so nothing is allowed''])
     else rbind (collect item items) (\<lambda>xs. Inr (xs, f'))))"

definition fl_finish :: "fields \<Rightarrow> schema_error + unit" where
  "fl_finish f =
     (case find (\<lambda>k. k \<notin> set (fl_read f)) (obj_keys (fl_object f)) of
        Some unknown \<Rightarrow> Inl (schema_error_new (fl_context f) [Lit ''unknown member '', Dbg unknown])
      | None \<Rightarrow> Inr ())"

definition schema_amount :: "json \<Rightarrow> string \<Rightarrow> schema_error + amount_v1" where
  "schema_amount v context =
     rbind (fields_new v context) (\<lambda>f.
     rbind (fl_uint ''amount'' f) (\<lambda>(minor, f).
     rbind (fl_currency ''currency'' f) (\<lambda>(currency, f).
     rbind (fl_finish f) (\<lambda>_.
     Inr \<lparr>am_minor = minor, am_currency = currency\<rparr>))))"

section \<open>What the readers accept\<close>

lemma string_value_eq_Some [simp]: "string_value v = Some s \<longleftrightarrow> v = JStr s \<and> s \<noteq> []"
  by (auto simp: string_value_def split: option.splits)

lemma uint_value_eq_Some [simp]: "uint_value v = Some n \<longleftrightarrow> v = JNum (PosInt n)"
  by (auto simp: uint_value_def number_as_u64_def split: json.splits number.splits)

lemma strings_from_eq_Some:
  "strings_from out items = Some ss \<longleftrightarrow>
     (\<exists>new. ss = out @ new \<and> items = map JStr new \<and> [] \<notin> set new \<and> distinct new
       \<and> set new \<inter> set out = {})"
proof (induction items arbitrary: out)
  case (Cons item items)
  show ?case
  proof (cases "string_value item")
    case None
    then show ?thesis by (auto simp: string_value_def split: if_splits)
  next
    case (Some s)
    then have item: "item = JStr s" "s \<noteq> []" by simp_all
    show ?thesis
    proof (cases "s \<in> set out")
      case True
      with Some have "strings_from out (item # items) = None"
        by (simp del: string_value_eq_Some)
      with True item show ?thesis by auto
    next
      case False
      with Some have "strings_from out (item # items) = Some ss \<longleftrightarrow>
          (\<exists>new. ss = out @ s # new \<and> items = map JStr new \<and> [] \<notin> set new \<and> distinct new
            \<and> set new \<inter> insert s (set out) = {})"
        by (simp add: Cons.IH del: string_value_eq_Some)
      also have "\<dots> \<longleftrightarrow> (\<exists>new'. ss = out @ new' \<and> item # items = map JStr new' \<and> [] \<notin> set new'
            \<and> distinct new' \<and> set new' \<inter> set out = {})"
        using item False by (auto simp: map_eq_Cons_conv Cons_eq_map_conv)
      finally show ?thesis .
    qed
  qed
qed auto

lemma strings_value_eq_Some:
  "strings_value v = Some ss \<longleftrightarrow> v = JArr (map JStr ss) \<and> ss \<noteq> [] \<and> [] \<notin> set ss \<and> distinct ss"
  by (auto simp: strings_value_def strings_from_eq_Some split: option.splits)

lemma fields_new_eq_Inr [simp]:
  "fields_new v context = Inr f \<longleftrightarrow> (\<exists>ob. v = JObj ob \<and> f = \<lparr>fl_context = context, fl_object = ob, fl_read = []\<rparr>)"
  by (auto simp: fields_new_def)

lemma fl_req_eq_Inr [simp]:
  "fl_req name f = Inr (v, f') \<longleftrightarrow>
     obj_get (fl_object f) name = Some v \<and> f' = f\<lparr>fl_read := fl_read f @ [name]\<rparr>"
  by (auto simp: fl_req_def fl_opt_def)

lemma fl_req_as_eq_Inr [simp]:
  "fl_req_as read what name f = Inr (x, f') \<longleftrightarrow>
     (\<exists>v. obj_get (fl_object f) name = Some v \<and> read v = Some x) \<and> f' = f\<lparr>fl_read := fl_read f @ [name]\<rparr>"
  by (auto simp: fl_req_as_def)

lemma fl_opt_as_eq_Inr [simp]:
  "fl_opt_as read what name f = Inr (x, f') \<longleftrightarrow>
     (case obj_get (fl_object f) name of None \<Rightarrow> x = None | Some v \<Rightarrow> read v \<noteq> None \<and> x = read v)
     \<and> f' = f\<lparr>fl_read := fl_read f @ [name]\<rparr>"
  by (auto simp: fl_opt_as_def fl_opt_def split: option.splits)

lemma currency_parse_eq_Inr [simp]:
  "currency_parse code = Inr c \<longleftrightarrow> c = code \<and> length code = 3 \<and> list_all is_ascii_uppercase code"
  by (auto simp: currency_parse_def)

lemma fl_currency_eq_Inr [simp]:
  "fl_currency name f = Inr (c, f') \<longleftrightarrow>
     obj_get (fl_object f) name = Some (JStr c) \<and> length c = 3 \<and> list_all is_ascii_uppercase c
     \<and> f' = f\<lparr>fl_read := fl_read f @ [name]\<rparr>"
  by (auto simp: fl_currency_def fl_string_def)

lemma fl_array_eq_Inr:
  "fl_array name item f = Inr (xs, f') \<longleftrightarrow>
     (\<exists>items. obj_get (fl_object f) name = Some (JArr items) \<and> items \<noteq> [] \<and> collect item items = Inr xs)
     \<and> f' = f\<lparr>fl_read := fl_read f @ [name]\<rparr>"
  by (auto simp: fl_array_def split: if_splits)

lemma fl_finish_eq_Inr [simp]:
  "fl_finish f = Inr () \<longleftrightarrow> set (obj_keys (fl_object f)) \<subseteq> set (fl_read f)"
proof (cases "find (\<lambda>k. k \<notin> set (fl_read f)) (obj_keys (fl_object f))")
  case None
  then have "set (obj_keys (fl_object f)) \<subseteq> set (fl_read f)" by (auto simp: find_None_iff)
  with None show ?thesis by (simp add: fl_finish_def)
next
  case (Some k)
  then have "k \<in> set (obj_keys (fl_object f)) \<and> k \<notin> set (fl_read f)" by (auto simp: find_Some_iff)
  with Some show ?thesis by (auto simp: fl_finish_def)
qed

text \<open>The readers named after their types, as the parsers use them.\<close>

lemmas fl_readers = fl_string_def fl_opt_string_def fl_uint_def fl_opt_uint_def fl_strings_def
  fl_opt_strings_def

lemma schema_amount_eq_Inr:
  "schema_amount v context = Inr a \<longleftrightarrow>
     (\<exists>ob. v = JObj ob \<and> set (obj_keys ob) \<subseteq> {''amount'', ''currency''}
        \<and> obj_get ob ''amount'' = Some (JNum (PosInt (am_minor a)))
        \<and> obj_get ob ''currency'' = Some (JStr (am_currency a))
        \<and> length (am_currency a) = 3 \<and> list_all is_ascii_uppercase (am_currency a))"
  by (cases a) (auto simp: schema_amount_def fl_uint_def)

end
