(* ===== verification/AuthTime.thy ===== *)
theory AuthTime
  imports AuthSchema
begin

text \<open>
  The time windows of mandates (crates/authority/src/time_window.rs): parsing, the test of
  the verifier's clock, and the coverage test between windows, with the proof that coverage
  is exactly inclusion of the accepted minutes of the week. Minutes are natural numbers: a
  parsed window has days below 7 and minutes up to 1440, so that no value of the code's
  \<open>u32\<close> arithmetic exceeds the minutes of a week (lemma \<open>intervals_bounded\<close>).
\<close>

definition DAY :: nat where "DAY = 24 * 60"
definition WEEK :: nat where "WEEK = 7 * DAY"
definition DAYS :: "string list" where
  "DAYS = [''mon'', ''tue'', ''wed'', ''thu'', ''fri'', ''sat'', ''sun'']"

record time_window_v1 =
  tw_days :: "nat list"
  tw_start :: nat
  tw_end :: nat
  tw_timezone :: tz

definition window_parse_hm :: "string \<Rightarrow> bool \<Rightarrow> nat option" where
  "window_parse_hm s allow_24 =
     (case split_once CHR '':'' s of
        None \<Rightarrow> None
      | Some (h, m) \<Rightarrow>
          if length h \<noteq> 2 \<or> length m \<noteq> 2 \<or> \<not> list_all is_digit (h @ m) then None
          else (case (parse_uint 32 h, parse_uint 32 m) of
              (Some h, Some m) \<Rightarrow>
                (if h = 24 \<and> m = 0 \<and> allow_24 then Some DAY
                 else if h \<le> 23 \<and> m \<le> 59 then Some (h * 60 + m) else None)
            | _ \<Rightarrow> None))"

definition window_parse :: "chrono \<Rightarrow> json \<Rightarrow> schema_error + time_window_v1" where
  "window_parse K v =
     rbind (fields_new v ''time window'') (\<lambda>f.
     rbind (fl_strings ''days'' f) (\<lambda>(names, f).
     rbind (collect (\<lambda>d. ok_or (position_of (\<lambda>x. x = d) DAYS)
         (fl_error f [Dbg d, Lit '' is not a weekday (mon..sun)''])) names) (\<lambda>days.
     rbind (fl_string ''start'' f) (\<lambda>(start_text, f).
     rbind (fl_string ''end'' f) (\<lambda>(end_text, f).
     rbind (ok_or (window_parse_hm start_text False) (fl_error f [Lit ''start must be HH:MM''])) (\<lambda>start_min.
     rbind (ok_or (window_parse_hm end_text True) (fl_error f [Lit ''end must be HH:MM or 24:00'']))
       (\<lambda>end_min.
     if start_min = end_min then Inl (fl_error f [Lit ''start equals end: ambiguous (never, or all day)''])
     else
     rbind (fl_string ''timezone'' f) (\<lambda>(tz, f).
     rbind (ok_or (tz_parse K tz) (fl_error f [Dbg tz, Lit '' is not an IANA time zone''])) (\<lambda>timezone.
     rbind (fl_finish f) (\<lambda>_.
     Inr \<lparr>tw_days = sort days, tw_start = start_min, tw_end = end_min, tw_timezone = timezone\<rparr>))))))))))"

definition day_intervals :: "time_window_v1 \<Rightarrow> nat \<Rightarrow> (nat \<times> nat) list" where
  "day_intervals w d =
     (let base = d * DAY in
      if tw_start w < tw_end w then [(base + tw_start w, base + tw_end w)]
      else (base + tw_start w, base + DAY) #
        (if tw_end w > 0 then (let nxt = ((d + 1) mod 7) * DAY in [(nxt, nxt + tw_end w)]) else []))"

definition intervals :: "time_window_v1 \<Rightarrow> (nat \<times> nat) list" where
  "intervals w = concat (map (day_intervals w) (tw_days w))"

definition local_minute :: "local_time \<Rightarrow> u32" where
  "local_minute l = num_days_from_monday (lt_weekday l) * of_nat DAY + lt_hour l * 60 + lt_minute l"

definition window_contains :: "chrono \<Rightarrow> time_window_v1 \<Rightarrow> i64 \<Rightarrow> bool" where
  "window_contains K w now =
     (case from_timestamp K now of
        None \<Rightarrow> False
      | Some utc \<Rightarrow>
          (let m = unat (local_minute (with_timezone K (tw_timezone w) utc)) in
           list_ex (\<lambda>(a, b). a \<le> m \<and> m < b) (intervals w)))"

text \<open>The merge loop: an interval that starts inside the last one, or at its end, extends it.\<close>

definition push_interval :: "(nat \<times> nat) list \<Rightarrow> nat \<times> nat \<Rightarrow> (nat \<times> nat) list" where
  "push_interval merged ab =
     (if merged \<noteq> [] \<and> fst ab \<le> snd (last merged)
      then butlast merged @ [(fst (last merged), max (snd (last merged)) (snd ab))]
      else merged @ [ab])"

definition interval_union :: "time_window_v1 list \<Rightarrow> tz \<Rightarrow> (nat \<times> nat) list" where
  "interval_union parents timezone =
     foldl push_interval []
       (sort (concat (map intervals (filter (\<lambda>p. tw_timezone p = timezone) parents))))"

definition covered_by :: "time_window_v1 \<Rightarrow> time_window_v1 list \<Rightarrow> bool" where
  "covered_by w parents =
     (let merged = interval_union parents (tw_timezone w) in
      list_all (\<lambda>(a, b). list_ex (\<lambda>(x, y). x \<le> a \<and> b \<le> y) merged) (intervals w))"

section \<open>Parsed windows\<close>

definition window_wf :: "time_window_v1 \<Rightarrow> bool" where
  "window_wf w \<longleftrightarrow> tw_days w \<noteq> [] \<and> (\<forall>d \<in> set (tw_days w). d < 7)
     \<and> tw_start w < DAY \<and> tw_end w \<le> DAY \<and> tw_start w \<noteq> tw_end w"

lemma window_parse_hm_bounds:
  "window_parse_hm s allow_24 = Some n \<Longrightarrow> n \<le> DAY \<and> (\<not> allow_24 \<longrightarrow> n < DAY)"
  by (auto simp: window_parse_hm_def DAY_def split: option.splits if_splits)

lemma window_parse_wf:
  assumes "window_parse K v = Inr w"
  shows "window_wf w"
proof -
  from assms obtain f names f' days where f: "fl_strings ''days'' f = Inr (names, f')"
      and days: "collect (\<lambda>d. ok_or (position_of (\<lambda>x. x = d) DAYS)
         (fl_error f' [Dbg d, Lit '' is not a weekday (mon..sun)''])) names = Inr days"
      and w: "tw_days w = sort days" "tw_start w \<noteq> tw_end w"
        "\<exists>s. window_parse_hm s False = Some (tw_start w)" "\<exists>s. window_parse_hm s True = Some (tw_end w)"
    unfolding window_parse_def by (force split: if_splits prod.splits)
  have len: "length DAYS = 7" by (simp add: DAYS_def)
  have "names \<noteq> []" using f by (auto simp: fl_strings_def strings_value_eq_Some)
  with collect_length [OF days] have "days \<noteq> []" by auto
  moreover have "d < 7" if "d \<in> set days" for d
  proof -
    from collect_in_set [OF days that] obtain x where "position_of (\<lambda>y. y = x) DAYS = Some d" by auto
    from position_of_Some [OF this] len show ?thesis by simp
  qed
  moreover have "tw_start w < DAY" "tw_end w \<le> DAY"
    using w(3,4) window_parse_hm_bounds [of _ False]
      window_parse_hm_bounds [of _ True] by blast+
  moreover have "tw_days w = [] \<longleftrightarrow> days = []" using w(1) by (metis set_empty set_sort)
  ultimately show ?thesis using w(1,2) by (simp add: window_wf_def)
qed

lemma window_wf_intervals:
  assumes "window_wf w" and "(a, b) \<in> set (intervals w)"
  shows "a < b" and "b \<le> WEEK"
proof -
  from assms obtain d where d: "d \<in> set (tw_days w)" "(a, b) \<in> set (day_intervals w d)"
    by (auto simp: intervals_def)
  from assms(1) d(1) have "d \<le> 6" "(d + 1) mod 7 \<le> 6"
    by (auto simp: window_wf_def less_Suc_eq_le)
  with assms(1) d(2) show "a < b" "b \<le> WEEK"
    by (auto simp: window_wf_def day_intervals_def WEEK_def DAY_def Let_def split: if_splits)
qed

lemma intervals_bounded:
  "window_parse K v = Inr w \<Longrightarrow> (a, b) \<in> set (intervals w) \<Longrightarrow> a < b \<and> b \<le> WEEK"
  using window_parse_wf window_wf_intervals by blast

section \<open>Merging\<close>

definition in_intervals :: "(nat \<times> nat) list \<Rightarrow> nat \<Rightarrow> bool" where
  "in_intervals ivs m \<longleftrightarrow> (\<exists>(a, b) \<in> set ivs. a \<le> m \<and> m < b)"

text \<open>Non-empty intervals in ascending order, with a gap between any two of them.\<close>

definition separated :: "(nat \<times> nat) list \<Rightarrow> bool" where
  "separated u \<longleftrightarrow> (\<forall>(a, b) \<in> set u. a < b) \<and> sorted_wrt (\<lambda>(a, b) (c, d). b < c) u"

lemma separated_snoc:
  "separated (u @ [(c, d)]) \<longleftrightarrow> separated u \<and> c < d \<and> (\<forall>(a, b) \<in> set u. b < c)"
  by (auto simp: separated_def sorted_wrt_append)

lemma in_intervals_append [simp]: "in_intervals (u @ v) m \<longleftrightarrow> in_intervals u m \<or> in_intervals v m"
  by (auto simp: in_intervals_def)

lemma in_intervals_simps [simp]:
  "\<not> in_intervals [] m" "in_intervals ((a, b) # u) m \<longleftrightarrow> a \<le> m \<and> m < b \<or> in_intervals u m"
  by (auto simp: in_intervals_def)

lemma push_interval_separated:
  assumes "separated u" and "a < b" and "u \<noteq> [] \<Longrightarrow> fst (last u) \<le> a"
  shows "separated (push_interval u (a, b))"
    and "in_intervals (push_interval u (a, b)) m \<longleftrightarrow> in_intervals u m \<or> a \<le> m \<and> m < b"
    and "fst (last (push_interval u (a, b))) \<le> a"
proof -
  have "separated (push_interval u (a, b))
      \<and> (in_intervals (push_interval u (a, b)) m \<longleftrightarrow> in_intervals u m \<or> a \<le> m \<and> m < b)
      \<and> fst (last (push_interval u (a, b))) \<le> a"
  proof (cases "u = []")
    case True
    with assms(2) show ?thesis by (simp add: push_interval_def separated_def)
  next
    case False
    then obtain u' c d where u: "u = u' @ [(c, d)]"
      by (metis append_butlast_last_id prod.collapse)
    with assms have sep: "separated u'" "c < d" "\<forall>(x, y) \<in> set u'. y < c" "c \<le> a"
      by (auto simp: separated_snoc)
    show ?thesis
    proof (cases "a \<le> d")
      case True
      with u sep show ?thesis by (auto simp: push_interval_def separated_snoc max_def)
    next
      case False
      have "y < a" if "(x, y) \<in> set u'" for x y
        using sep(2,3) False that by fastforce
      moreover have "separated ((u' @ [(c, d)]) @ [(a, b)])"
        unfolding separated_snoc [of "u' @ [(c, d)]"] separated_snoc [of u']
        using sep assms(2) False calculation by auto
      ultimately show ?thesis using False u by (simp add: push_interval_def)
    qed
  qed
  then show "separated (push_interval u (a, b))"
    and "in_intervals (push_interval u (a, b)) m \<longleftrightarrow> in_intervals u m \<or> a \<le> m \<and> m < b"
    and "fst (last (push_interval u (a, b))) \<le> a" by blast+
qed

lemma foldl_push_interval:
  assumes "separated u" and "\<forall>(a, b) \<in> set ivs. a < b"
    and "sorted (map fst ivs)" and "u \<noteq> [] \<Longrightarrow> \<forall>(a, b) \<in> set ivs. fst (last u) \<le> a"
  shows "separated (foldl push_interval u ivs)
    \<and> (in_intervals (foldl push_interval u ivs) m \<longleftrightarrow> in_intervals u m \<or> in_intervals ivs m)"
  using assms
proof (induction ivs arbitrary: u)
  case (Cons ab ivs)
  obtain a b where ab: "ab = (a, b)" by force
  have step: "separated u" "a < b" "u \<noteq> [] \<Longrightarrow> fst (last u) \<le> a" using Cons.prems ab by auto
  have "\<forall>(c, d) \<in> set ivs. a \<le> c" using Cons.prems(3) ab by auto
  then have "\<forall>(c, d) \<in> set ivs. fst (last (push_interval u (a, b))) \<le> c"
    using push_interval_separated(3) [OF step] by fastforce
  with Cons.IH [OF push_interval_separated(1) [OF step]] Cons.prems(2,3)
    push_interval_separated(2) [OF step, of m] ab
  show ?case by auto
qed auto

text \<open>An interval whose minutes all lie in separated intervals lies in one of them.\<close>

lemma separated_contains:
  assumes "separated u" and "a < b" and "\<And>m. a \<le> m \<Longrightarrow> m < b \<Longrightarrow> in_intervals u m"
  shows "\<exists>(x, y) \<in> set u. x \<le> a \<and> b \<le> y"
  using assms
proof (induction u rule: rev_induct)
  case (snoc xy u)
  obtain x y where xy: "xy = (x, y)" by force
  with snoc.prems(1) have sep: "separated u" "x < y" "\<forall>(c, d) \<in> set u. d < x"
    by (auto simp: separated_snoc)
  have gap: "\<not> in_intervals u m" if "x \<le> Suc m" for m
    using sep(3) that by (fastforce simp: in_intervals_def)
  show ?case
  proof (cases "x \<le> a")
    case True
    then have "\<not> in_intervals u (b - 1)" using gap [of "b - 1"] snoc.prems(2) by simp
    with snoc.prems(2) snoc.prems(3) [of "b - 1"] xy have "b - 1 < y" by auto
    with True xy snoc.prems(2) show ?thesis by force
  next
    case False
    have "b \<le> x"
    proof (rule ccontr)
      assume "\<not> b \<le> x"
      moreover from False have "x - 1 < x" "a \<le> x - 1" by simp_all
      ultimately show False using gap [of "x - 1"] snoc.prems(3) [of "x - 1"] xy by auto
    qed
    then have "in_intervals u m" if "a \<le> m" "m < b" for m
      using snoc.prems(3) [OF that] that xy by auto
    from snoc.IH [OF sep(1) snoc.prems(2) this] show ?thesis by auto
  qed
qed auto

section \<open>Coverage\<close>

text \<open>The minutes of the week a window accepts.\<close>

definition covers_minute :: "time_window_v1 \<Rightarrow> nat \<Rightarrow> bool" where
  "covers_minute w m \<longleftrightarrow> in_intervals (intervals w) m"

lemma interval_union_exact:
  assumes "\<forall>p \<in> set parents. window_wf p"
  shows "separated (interval_union parents timezone)"
    and "in_intervals (interval_union parents timezone) m \<longleftrightarrow>
      (\<exists>p \<in> set parents. tw_timezone p = timezone \<and> covers_minute p m)"
proof -
  let ?ivs = "concat (map intervals (filter (\<lambda>p. tw_timezone p = timezone) parents))"
  have "\<forall>(a, b) \<in> set (sort ?ivs). a < b" using assms window_wf_intervals by fastforce
  moreover have "sorted (map fst (sort ?ivs))"
    unfolding sorted_map
    by (rule sorted_wrt_mono_rel [OF _ sorted_sort]) (auto simp: less_eq_prod_def)
  ultimately have "separated (foldl push_interval [] (sort ?ivs))
      \<and> (in_intervals (foldl push_interval [] (sort ?ivs)) m \<longleftrightarrow> in_intervals (sort ?ivs) m)"
    using foldl_push_interval [of "[]" "sort ?ivs" m] by (simp add: separated_def)
  then show "separated (interval_union parents timezone)"
    and "in_intervals (interval_union parents timezone) m \<longleftrightarrow>
      (\<exists>p \<in> set parents. tw_timezone p = timezone \<and> covers_minute p m)"
    by (auto simp: interval_union_def in_intervals_def covers_minute_def)
qed

lemma covered_by_iff:
  assumes "window_wf w" and "\<forall>p \<in> set parents. window_wf p"
  shows "covered_by w parents \<longleftrightarrow>
    (\<forall>m. covers_minute w m \<longrightarrow> (\<exists>p \<in> set parents. tw_timezone p = tw_timezone w \<and> covers_minute p m))"
    (is "_ \<longleftrightarrow> (\<forall>m. _ \<longrightarrow> ?par m)")
proof
  let ?u = "interval_union parents (tw_timezone w)"
  note exact = interval_union_exact [OF assms(2), where timezone = "tw_timezone w"]
  {
    assume cov: "covered_by w parents"
    have "?par m" if "covers_minute w m" for m
    proof -
      from that obtain a b where ab: "(a, b) \<in> set (intervals w)" "a \<le> m" "m < b"
        by (auto simp: covers_minute_def in_intervals_def)
      with cov obtain x y where "(x, y) \<in> set ?u" "x \<le> a" "b \<le> y"
        by (fastforce simp: covered_by_def Let_def list_all_iff list_ex_iff)
      with ab have "in_intervals ?u m"
        unfolding in_intervals_def by (intro bexI [of _ "(x, y)"]) auto
      with exact(2) show ?thesis by simp
    qed
    then show "\<forall>m. covers_minute w m \<longrightarrow> ?par m" by blast
  next
    assume inc: "\<forall>m. covers_minute w m \<longrightarrow> ?par m"
    have "\<exists>(x, y) \<in> set ?u. x \<le> a \<and> b \<le> y" if "(a, b) \<in> set (intervals w)" for a b
    proof (rule separated_contains [OF exact(1)])
      show "a < b" using window_wf_intervals [OF assms(1) that] by simp
      show "in_intervals ?u m" if "a \<le> m" "m < b" for m
        using inc \<open>(a, b) \<in> set (intervals w)\<close> that exact(2) [of m]
        by (force simp: covers_minute_def in_intervals_def)
    qed
    then show "covered_by w parents"
      by (fastforce simp: covered_by_def Let_def list_all_iff list_ex_iff)
  }
qed

lemma window_contains_iff:
  "window_contains K w now \<longleftrightarrow>
     (\<exists>utc. from_timestamp K now = Some utc
        \<and> covers_minute w (unat (local_minute (with_timezone K (tw_timezone w) utc))))"
  by (auto simp: window_contains_def covers_minute_def in_intervals_def Let_def list_ex_iff
      split: option.splits)

lemma covered_by_sound:
  assumes "window_wf w" and "\<forall>p \<in> set parents. window_wf p"
    and "covered_by w parents" and "window_contains K w now"
  shows "\<exists>p \<in> set parents. window_contains K p now"
  using assms(3,4) unfolding covered_by_iff [OF assms(1,2)] window_contains_iff by metis

lemma windows_parse_wf: "collect (window_parse K) vs = Inr ws \<Longrightarrow> w \<in> set ws \<Longrightarrow> window_wf w"
  by (metis collect_in_set window_parse_wf)

text \<open>C16: The interval cover test of time windows is exact: a parsed window is covered by
  parsed parents precisely when every minute of the week it contains lies in a parent of
  the same zone, midnight wrap and touching windows included, and then every instant it
  accepts a parent accepts.\<close>
theorem window_cover_exact:
  assumes "window_parse K v = Inr w" and "collect (window_parse K) vs = Inr parents"
  shows "(covered_by w parents \<longleftrightarrow>
      (\<forall>m. covers_minute w m \<longrightarrow> (\<exists>p \<in> set parents. tw_timezone p = tw_timezone w \<and> covers_minute p m)))
    \<and> (covered_by w parents \<and> window_contains K w now \<longrightarrow> (\<exists>p \<in> set parents. window_contains K p now))"
proof -
  have "window_wf w" "\<forall>p \<in> set parents. window_wf p"
    using window_parse_wf [OF assms(1)] windows_parse_wf [OF assms(2)] by blast+
  from covered_by_iff [OF this] covered_by_sound [OF this] show ?thesis by blast
qed

section \<open>A concrete week\<close>

text \<open>A calendar whose every instant is Monday, 10:00, and two touching windows that cover a third.\<close>

definition monday_ten :: chrono where
  "monday_ten = \<lparr>tz_parse = Some, with_timezone = (\<lambda>z t. \<lparr>lt_weekday = CMon, lt_hour = 10, lt_minute = 0\<rparr>),
     from_timestamp = Some, dt_timestamp = (\<lambda>t. t), dt_checked_add_months = (\<lambda>t n. Some (t + int n * 2592000)),
     parse_rfc3339 = (\<lambda>s. None), parse_ymd_midnight = (\<lambda>s. Some 0)\<rparr>"

definition window_json :: "string \<Rightarrow> string \<Rightarrow> json" where
  "window_json a b = JObj [(''days'', JArr [JStr ''mon'']), (''end'', JStr b), (''start'', JStr a),
     (''timezone'', JStr ''UTC'')]"

definition monday_window :: "nat \<Rightarrow> nat \<Rightarrow> time_window_v1" where
  "monday_window a b = \<lparr>tw_days = [0], tw_start = a, tw_end = b, tw_timezone = ''UTC''\<rparr>"

lemma monday_windows:
  "window_parse monday_ten (window_json ''09:00'' ''12:00'') = Inr (monday_window 540 720)"
  "window_parse monday_ten (window_json ''08:00'' ''10:30'') = Inr (monday_window 480 630)"
  "window_parse monday_ten (window_json ''10:30'' ''13:00'') = Inr (monday_window 630 780)"
  by (simp_all add: window_parse_def window_json_def monday_ten_def monday_window_def fields_new_def
      fl_strings_def fl_string_def fl_req_as_def fl_req_def fl_opt_def fl_finish_def strings_value_def
      string_value_def as_array_def as_str_def obj_keys_def DAYS_def window_parse_hm_def parse_uint_def
      is_digit_def digits_value_def digit_value_def)

theorem window_cover_exact_witness:
  "covered_by (monday_window 540 720) [monday_window 480 630, monday_window 630 780]
    \<and> (\<exists>p \<in> set [monday_window 480 630, monday_window 630 780]. window_contains monday_ten p 0)"
proof -
  have "collect (window_parse monday_ten) [window_json ''08:00'' ''10:30'', window_json ''10:30'' ''13:00'']
      = Inr [monday_window 480 630, monday_window 630 780]" by (simp add: monday_windows)
  note exact = window_cover_exact [OF monday_windows(1) this, of 0]
  moreover have "covered_by (monday_window 540 720) [monday_window 480 630, monday_window 630 780]"
    "window_contains monday_ten (monday_window 540 720) 0" by code_simp+
  ultimately show ?thesis by blast
qed

end
