(* ===== verification/AuthConstraint.thy ===== *)
theory AuthConstraint
  imports AuthTime
begin

text \<open>
  The constraint types of a mandate and their parsers (crates/authority/src/constraint/mod.rs,
  aap.rs and ap2.rs), with the mandate family each belongs to. Evaluation is in AuthEvaluate.
\<close>

section \<open>AP2 objects\<close>

record merchant =
  mc_id :: string
  mc_name :: "string option"
  mc_website :: "string option"

definition merchant_parse :: "json \<Rightarrow> schema_error + merchant" where
  "merchant_parse v =
     rbind (fields_new v ''merchant'') (\<lambda>f.
     rbind (fl_string ''id'' f) (\<lambda>(i, f).
     rbind (fl_opt_string ''name'' f) (\<lambda>(name, f).
     rbind (fl_opt_string ''website'' f) (\<lambda>(website, f).
     Inr \<lparr>mc_id = i, mc_name = name, mc_website = website\<rparr>))))"

record payment_instrument =
  pi_id :: string
  pi_kind :: string

definition payment_instrument_parse :: "json \<Rightarrow> schema_error + payment_instrument" where
  "payment_instrument_parse v =
     rbind (fields_new v ''payment instrument'') (\<lambda>f.
     rbind (fl_string ''id'' f) (\<lambda>(i, f).
     rbind (fl_string ''type'' f) (\<lambda>(kind, f).
     Inr \<lparr>pi_id = i, pi_kind = kind\<rparr>)))"

record pisp =
  ps_legal_name :: string
  ps_brand_name :: string
  ps_domain_name :: string

definition pisp_parse :: "json \<Rightarrow> schema_error + pisp" where
  "pisp_parse v =
     rbind (fields_new v ''pisp'') (\<lambda>f.
     rbind (fl_string ''legal_name'' f) (\<lambda>(l, f).
     rbind (fl_string ''brand_name'' f) (\<lambda>(b, f).
     rbind (fl_string ''domain_name'' f) (\<lambda>(d, f).
     Inr \<lparr>ps_legal_name = l, ps_brand_name = b, ps_domain_name = d\<rparr>))))"

record line_item_requirement =
  li_id :: string
  li_acceptable :: "string list"
  li_quantity :: u64

definition line_item_requirement_parse :: "json \<Rightarrow> schema_error + line_item_requirement" where
  "line_item_requirement_parse v =
     rbind (fields_new v ''line item requirement'') (\<lambda>f.
     rbind (fl_string ''id'' f) (\<lambda>(i, f).
     rbind (fl_array ''acceptable_items''
         (\<lambda>item. rbind (fields_new item ''acceptable item'') (\<lambda>g.
           rbind (fl_string ''id'' g) (\<lambda>(s, g). Inr s))) f) (\<lambda>(acceptable, f).
     rbind (fl_uint ''quantity'' f) (\<lambda>(quantity, f).
     if quantity = 0 then Inl (fl_error f [Lit ''quantity must be at least 1''])
     else
     rbind (fl_finish f) (\<lambda>_.
     Inr \<lparr>li_id = i, li_acceptable = remdups_adj (sort acceptable), li_quantity = quantity\<rparr>)))))"

section \<open>Constraint contents\<close>

record amount_cap =
  ac_max :: u64
  ac_currency :: currency

definition amount_cap_parse :: "fields \<Rightarrow> schema_error + amount_cap \<times> fields" where
  "amount_cap_parse f =
     rbind (fl_uint ''max'' f) (\<lambda>(m, f).
     rbind (fl_currency ''currency'' f) (\<lambda>(c, f).
     Inr (\<lparr>ac_max = m, ac_currency = c\<rparr>, f)))"

record counterparties_v1 =
  cv_allow :: "string list option"
  cv_deny :: "string list option"

definition counterparties_parse :: "fields \<Rightarrow> schema_error + counterparties_v1 \<times> fields" where
  "counterparties_parse f =
     rbind (fl_opt_strings ''allow'' f) (\<lambda>(allow, f).
     rbind (fl_opt_strings ''deny'' f) (\<lambda>(deny, f).
     if allow = None \<and> deny = None then Inl (fl_error f [Lit ''needs allow, deny, or both''])
     else Inr (\<lparr>cv_allow = allow, cv_deny = deny\<rparr>, f)))"

record amount_range =
  ar_currency :: currency
  ar_min :: "u64 option"
  ar_max :: u64

definition amount_range_parse :: "fields \<Rightarrow> schema_error + amount_range \<times> fields" where
  "amount_range_parse f =
     rbind (fl_currency ''currency'' f) (\<lambda>(c, f).
     rbind (fl_opt_uint ''min'' f) (\<lambda>(lo, f).
     rbind (fl_uint ''max'' f) (\<lambda>(hi, f).
     if (case lo of Some m \<Rightarrow> m > hi | None \<Rightarrow> False)
     then Inl (fl_error f [Lit ''min is greater than max''])
     else Inr (\<lparr>ar_currency = c, ar_min = lo, ar_max = hi\<rparr>, f))))"

record budget =
  bg_max :: u64
  bg_currency :: currency

definition budget_parse :: "fields \<Rightarrow> schema_error + budget \<times> fields" where
  "budget_parse f =
     rbind (fl_uint ''max'' f) (\<lambda>(m, f).
     rbind (fl_currency ''currency'' f) (\<lambda>(c, f).
     Inr (\<lparr>bg_max = m, bg_currency = c\<rparr>, f)))"

datatype frequency = OnDemand | Daily | Weekly | Biweekly | Monthly | Quarterly | Annually

definition frequency_parse :: "string \<Rightarrow> frequency option" where
  "frequency_parse s =
     (if s = ''ON_DEMAND'' then Some OnDemand
      else if s = ''DAILY'' then Some Daily
      else if s = ''WEEKLY'' then Some Weekly
      else if s = ''BIWEEKLY'' then Some Biweekly
      else if s = ''MONTHLY'' then Some Monthly
      else if s = ''QUARTERLY'' then Some Quarterly
      else if s = ''ANNUALLY'' then Some Annually
      else None)"

record agent_recurrence =
  re_frequency :: frequency
  re_max_occurrences :: "u64 option"

definition agent_recurrence_parse :: "fields \<Rightarrow> schema_error + agent_recurrence \<times> fields" where
  "agent_recurrence_parse f =
     rbind (fl_string ''frequency'' f) (\<lambda>(s, f).
     rbind (ok_or (frequency_parse s) (fl_error f [Lit ''unknown frequency '', Dbg s])) (\<lambda>fr.
     rbind (fl_opt_uint ''max_occurrences'' f) (\<lambda>(m, f).
     Inr (\<lparr>re_frequency = fr, re_max_occurrences = m\<rparr>, f))))"

text \<open>A date-time is one instant, a bare date the whole UTC day.\<close>

definition instant_range :: "chrono \<Rightarrow> string \<Rightarrow> (i64 \<times> i64) option" where
  "instant_range K s =
     (case parse_rfc3339 K s of
        Some t \<Rightarrow> Some (dt_timestamp K t, dt_timestamp K t)
      | None \<Rightarrow> (case parse_ymd_midnight K s of
          Some d \<Rightarrow> Some (dt_timestamp K d, i64_wrap (dt_timestamp K d + 86399))
        | None \<Rightarrow> None))"

record execution_date =
  ed_not_before :: "i64 option"
  ed_not_after :: "i64 option"

definition date_bound :: "chrono \<Rightarrow> string \<Rightarrow> bool \<Rightarrow> fields \<Rightarrow> schema_error + i64 option \<times> fields" where
  "date_bound K name end_of_day f =
     rbind (fl_opt_string name f) (\<lambda>(s, f).
     case s of
       None \<Rightarrow> Inr (None, f)
     | Some s \<Rightarrow>
         rbind (ok_or (instant_range K s)
             (fl_error f [Lit name, Lit '' '', Dbg s, Lit '' is not an ISO 8601 date'']))
           (\<lambda>(a, b). Inr (Some (if end_of_day then b else a), f)))"

definition execution_date_parse :: "chrono \<Rightarrow> fields \<Rightarrow> schema_error + execution_date \<times> fields" where
  "execution_date_parse K f =
     rbind (date_bound K ''not_before'' False f) (\<lambda>(nb, f).
     rbind (date_bound K ''not_after'' True f) (\<lambda>(na, f).
     case (nb, na) of
       (None, None) \<Rightarrow> Inl (fl_error f [Lit ''needs not_before, not_after, or both''])
     | (Some a, Some b) \<Rightarrow>
         (if a > b then Inl (fl_error f [Lit ''not_before is after not_after''])
          else Inr (\<lparr>ed_not_before = nb, ed_not_after = na\<rparr>, f))
     | _ \<Rightarrow> Inr (\<lparr>ed_not_before = nb, ed_not_after = na\<rparr>, f)))"

section \<open>Constraints\<close>

datatype family = Authority | Checkout | Payment

datatype constraint =
    C_Actions "string list"
  | C_Resources "string list"
  | C_Amount amount_cap
  | C_Counterparties counterparties_v1
  | C_DataCategories "string list"
  | C_TimeWindows "time_window_v1 list"
  | C_Delegation u32
  | C_AllowedMerchants "merchant list"
  | C_LineItems "line_item_requirement list"
  | C_AmountRange amount_range
  | C_AllowedPayees "merchant list"
  | C_AllowedPaymentInstruments "payment_instrument list"
  | C_AllowedPisps "pisp list"
  | C_Budget budget
  | C_AgentRecurrence agent_recurrence
  | C_ExecutionDate execution_date
  | C_Reference string

datatype constraint_error = UnknownConstraint string | MalformedConstraint schema_error

text \<open>Why a constraint does not accept a closed mandate.\<close>

datatype failure = Violated message | Unresolved message

fun constraint_type_name :: "constraint \<Rightarrow> string" where
  "constraint_type_name (C_Actions _) = ACTIONS"
| "constraint_type_name (C_Resources _) = RESOURCES"
| "constraint_type_name (C_Amount _) = AMOUNT"
| "constraint_type_name (C_Counterparties _) = COUNTERPARTIES"
| "constraint_type_name (C_DataCategories _) = DATA_CATEGORIES"
| "constraint_type_name (C_TimeWindows _) = TIME_WINDOWS"
| "constraint_type_name (C_Delegation _) = DELEGATION"
| "constraint_type_name (C_AllowedMerchants _) = ALLOWED_MERCHANTS"
| "constraint_type_name (C_LineItems _) = LINE_ITEMS"
| "constraint_type_name (C_AmountRange _) = AMOUNT_RANGE"
| "constraint_type_name (C_AllowedPayees _) = ALLOWED_PAYEES"
| "constraint_type_name (C_AllowedPaymentInstruments _) = ALLOWED_PAYMENT_INSTRUMENTS"
| "constraint_type_name (C_AllowedPisps _) = ALLOWED_PISPS"
| "constraint_type_name (C_Budget _) = BUDGET"
| "constraint_type_name (C_AgentRecurrence _) = AGENT_RECURRENCE"
| "constraint_type_name (C_ExecutionDate _) = EXECUTION_DATE"
| "constraint_type_name (C_Reference _) = REFERENCE"

fun constraint_family :: "constraint \<Rightarrow> family option" where
  "constraint_family (C_Delegation _) = None"
| "constraint_family (C_Actions _) = Some Authority"
| "constraint_family (C_Resources _) = Some Authority"
| "constraint_family (C_Amount _) = Some Authority"
| "constraint_family (C_Counterparties _) = Some Authority"
| "constraint_family (C_DataCategories _) = Some Authority"
| "constraint_family (C_TimeWindows _) = Some Authority"
| "constraint_family (C_AllowedMerchants _) = Some Checkout"
| "constraint_family (C_LineItems _) = Some Checkout"
| "constraint_family _ = Some Payment"

text \<open>A read value wrapped by a constructor.\<close>

definition read_as :: "('a \<Rightarrow> 'b) \<Rightarrow> 'e + 'a \<times> 's \<Rightarrow> 'e + 'b \<times> 's" where
  "read_as con r = rbind r (\<lambda>(x, f). Inr (con x, f))"

definition delegation_parse :: "fields \<Rightarrow> schema_error + constraint \<times> fields" where
  "delegation_parse f =
     rbind (fl_uint ''max_depth'' f) (\<lambda>(depth, f).
     if unat depth < 2 ^ 32 then Inr (C_Delegation (ucast depth), f)
     else Inl (fl_error f [Lit ''max_depth is too large'']))"

text \<open>The \<open>match\<close> on the type name; nothing for a name it does not know.\<close>

definition constraint_reader ::
  "chrono \<Rightarrow> string \<Rightarrow> (fields \<Rightarrow> schema_error + constraint \<times> fields) option" where
  "constraint_reader K t =
     (if t = ACTIONS then Some (\<lambda>f. read_as C_Actions (fl_strings ''allowed'' f))
      else if t = RESOURCES then Some (\<lambda>f. read_as C_Resources (fl_strings ''allowed'' f))
      else if t = DATA_CATEGORIES then Some (\<lambda>f. read_as C_DataCategories (fl_strings ''allowed'' f))
      else if t = AMOUNT then Some (\<lambda>f. read_as C_Amount (amount_cap_parse f))
      else if t = COUNTERPARTIES then Some (\<lambda>f. read_as C_Counterparties (counterparties_parse f))
      else if t = TIME_WINDOWS then Some (\<lambda>f. read_as C_TimeWindows (fl_array ''windows'' (window_parse K) f))
      else if t = DELEGATION then Some delegation_parse
      else if t = ALLOWED_MERCHANTS then
        Some (\<lambda>f. read_as C_AllowedMerchants (fl_array ''allowed'' merchant_parse f))
      else if t = LINE_ITEMS then
        Some (\<lambda>f. read_as C_LineItems (fl_array ''items'' line_item_requirement_parse f))
      else if t = AMOUNT_RANGE then Some (\<lambda>f. read_as C_AmountRange (amount_range_parse f))
      else if t = ALLOWED_PAYEES then Some (\<lambda>f. read_as C_AllowedPayees (fl_array ''allowed'' merchant_parse f))
      else if t = ALLOWED_PAYMENT_INSTRUMENTS then
        Some (\<lambda>f. read_as C_AllowedPaymentInstruments (fl_array ''allowed'' payment_instrument_parse f))
      else if t = ALLOWED_PISPS then Some (\<lambda>f. read_as C_AllowedPisps (fl_array ''allowed'' pisp_parse f))
      else if t = BUDGET then Some (\<lambda>f. read_as C_Budget (budget_parse f))
      else if t = AGENT_RECURRENCE then Some (\<lambda>f. read_as C_AgentRecurrence (agent_recurrence_parse f))
      else if t = EXECUTION_DATE then Some (\<lambda>f. read_as C_ExecutionDate (execution_date_parse K f))
      else if t = REFERENCE then Some (\<lambda>f. read_as C_Reference (fl_string ''conditional_transaction_id'' f))
      else None)"

definition constraint_parse :: "chrono \<Rightarrow> json \<Rightarrow> constraint_error + constraint" where
  "constraint_parse K v =
     rbind (ok_or (Option.bind (json_get v ''type'') as_str)
         (MalformedConstraint (schema_error_new ''constraint'' [Lit ''missing string member \"type\"''])))
       (\<lambda>type_name.
     rbind (map_err MalformedConstraint (fields_new v type_name)) (\<lambda>f.
     case constraint_reader K type_name of
       None \<Rightarrow> Inl (UnknownConstraint type_name)
     | Some rd \<Rightarrow>
         rbind (map_err MalformedConstraint (rd (fl_allow [''type''] f))) (\<lambda>(c, f).
         rbind (map_err MalformedConstraint (fl_finish f)) (\<lambda>_. Inr c))))"

section \<open>What parsing guarantees\<close>

lemma read_as_eq_Inr [simp]:
  "read_as con r = Inr (y, f) \<longleftrightarrow> (\<exists>x. r = Inr (x, f) \<and> y = con x)"
  by (auto simp: read_as_def)

text \<open>A constraint carries the type name it was parsed under.\<close>

lemma constraint_reader_type:
  "constraint_reader K t = Some rd \<Longrightarrow> rd f = Inr (c, f') \<Longrightarrow> constraint_type_name c = t"
  by (auto simp: constraint_reader_def delegation_parse_def split: if_splits)

lemma constraint_parse_type:
  assumes "constraint_parse K v = Inr c"
  shows "json_get v ''type'' = Some (JStr (constraint_type_name c))"
  using assms constraint_reader_type
  by (force simp: constraint_parse_def Option.bind_eq_Some_conv split: option.splits)

text \<open>The windows of a parsed constraint are well formed.\<close>

definition constraint_wf :: "constraint \<Rightarrow> bool" where
  "constraint_wf c = (case c of C_TimeWindows ws \<Rightarrow> list_all window_wf ws | _ \<Rightarrow> True)"

lemma windows_wf:
  "fl_array name (window_parse K) f = Inr (ws, f') \<Longrightarrow> list_all window_wf ws"
  using collect_in_set window_parse_wf by (fastforce simp: fl_array_eq_Inr list_all_iff)

lemma constraint_parse_wf:
  assumes "constraint_parse K v = Inr c"
  shows "constraint_wf c"
proof (cases c)
  case (C_TimeWindows ws)
  with assms obtain t rd f f' where "constraint_reader K t = Some rd" "rd f = Inr (C_TimeWindows ws, f')"
    by (force simp: constraint_parse_def split: option.splits)
  then have "list_all window_wf ws"
    by (auto simp: constraint_reader_def delegation_parse_def intro: windows_wf split: if_splits)
  with C_TimeWindows show ?thesis by (simp add: constraint_wf_def)
qed (simp_all add: constraint_wf_def)

end
