(* ===== verification/SdPresentation.thy ===== *)
theory SdPresentation
  imports SdProcess
begin

text \<open>
  One element of a presentation (crates/sdjwt/src/sdjwt.rs) and the compact serialization
  of whole presentations (presentation.rs): parsing with its splitting rule, printing,
  and the proof that both are inverse to each other.
\<close>

section \<open>Elements\<close>

record sd_jwt =
  sj_jws :: jws
  sj_disclosures :: "disclosure list"

definition sd_jwt_from_parts :: "crypto \<Rightarrow> string \<Rightarrow> string list \<Rightarrow> error_kind + sd_jwt" where
  "sd_jwt_from_parts C jwt disclosures =
     rbind (jws_parse C jwt) (\<lambda>j.
     rbind (collect (disclosure_parse C) disclosures) (\<lambda>ds.
     Inr \<lparr>sj_jws = j, sj_disclosures = ds\<rparr>))"

definition sj_jwt :: "sd_jwt \<Rightarrow> string" where
  "sj_jwt e = jws_raw (sj_jws e)"

definition sj_sd_alg :: "sd_jwt \<Rightarrow> error_kind + sd_alg" where
  "sj_sd_alg e = sd_alg_of_payload (jws_payload (sj_jws e))"

definition sj_serialize :: "sd_jwt \<Rightarrow> string" where
  "sj_serialize e = jws_raw (sj_jws e) @ ''~'' @ concat (map (\<lambda>d. d_encoded d @ ''~'') (sj_disclosures e))"

text \<open>\<open>at.starts_with(w) || w.starts_with(at)\<close>.\<close>

fun starts_with :: "path \<Rightarrow> path \<Rightarrow> bool" where
  "starts_with p [] = True"
| "starts_with [] (s # q) = False"
| "starts_with (s # p) (t # q) = (s = t \<and> starts_with p q)"

definition sj_select :: "crypto \<Rightarrow> sd_jwt \<Rightarrow> string list \<Rightarrow> sd_error + sd_jwt" where
  "sj_select C e pointers =
     map_err error_from
       (rbind (sj_sd_alg e) (\<lambda>alg.
        rbind (process C (jws_payload (sj_jws e)) (sj_disclosures e) alg) (\<lambda>pr.
        rbind (collect (resolve (JObj (pr_claims pr))) pointers) (\<lambda>wanted.
        Inr (e\<lparr>sj_disclosures := map fst (filter
          (\<lambda>(d, p). list_ex (\<lambda>w. starts_with p w \<or> starts_with w p) wanted)
          (zip (sj_disclosures e) (pr_paths pr)))\<rparr>)))))"

section \<open>Presentations\<close>

record presentation =
  pn_root :: sd_jwt
  pn_links :: "sd_jwt list"
  pn_key_binding :: "jws option"

definition presentation_new :: "sd_jwt \<Rightarrow> presentation" where
  "presentation_new root_jwt = \<lparr>pn_root = root_jwt, pn_links = [], pn_key_binding = None\<rparr>"

definition pn_elements :: "presentation \<Rightarrow> sd_jwt list" where
  "pn_elements p = pn_root p # pn_links p"

definition pn_last :: "presentation \<Rightarrow> sd_jwt" where
  "pn_last p = (if pn_links p = [] then pn_root p else last (pn_links p))"

text \<open>
  The inner loop: the disclosures up to the next empty component, or up to the final
  KB-JWT; the components not consumed come last.
\<close>

fun take_disclosures ::
  "crypto \<Rightarrow> string list \<Rightarrow> error_kind + string list \<times> jws option \<times> string list" where
  "take_disclosures C [] = Inr ([], None, [])"
| "take_disclosures C (c # rest) =
     (if c = [] then Inr ([], None, c # rest)
      else if looks_like_jwt c then
        (if rest \<noteq> [] then Inl (Malformed ''a KB-JWT must be the last component'')
         else rbind (jws_parse C c) (\<lambda>kb. Inr ([], Some kb, c # rest)))
      else if CHR ''.'' \<in> set c then Inl (Malformed ''component is neither JWT nor disclosure'')
      else rbind (take_disclosures C rest) (\<lambda>(ds, kb, rest'). Inr (c # ds, kb, rest')))"

lemma take_disclosures_rest:
  "take_disclosures C cs = Inr (ds, kb, rest) \<Longrightarrow> cs = ds @ rest"
  by (induction cs arbitrary: ds kb rest) (auto split: if_splits)

text \<open>The outer loop, one element per turn. The code never enters it without a component.\<close>

function parse_elements :: "crypto \<Rightarrow> string list \<Rightarrow> error_kind + sd_jwt list \<times> jws option" where
  "parse_elements C [] = Inl (Malformed ''expected a JWT'')"
| "parse_elements C (jwt # rest) =
     (if \<not> looks_like_jwt jwt then Inl (Malformed ''expected a JWT'')
      else
        rbind (take_disclosures C rest) (\<lambda>(disclosures, key_binding, rest').
        rbind (sd_jwt_from_parts C jwt disclosures) (\<lambda>e.
        if key_binding \<noteq> None then Inr ([e], key_binding)
        else case rest' of
          [] \<Rightarrow> Inl (Malformed ''missing the final ~'')
        | _ # next \<Rightarrow>
            (if next = [] then Inr ([e], None)
             else rbind (parse_elements C next) (\<lambda>(es, kb). Inr (e # es, kb))))))"
  by pat_completeness auto
termination
  by (relation "measure (\<lambda>(C, cs). length cs)") (auto dest: take_disclosures_rest)

definition presentation_parse :: "crypto \<Rightarrow> string \<Rightarrow> error_kind + presentation" where
  "presentation_parse C input =
     (let components = split_on CHR ''~'' input in
      if length components < 2 then Inl (Malformed ''missing the final ~'')
      else
        rbind (parse_elements C components) (\<lambda>(elements, key_binding).
        Inr \<lparr>pn_root = hd elements, pn_links = tl elements, pn_key_binding = key_binding\<rparr>))"

definition presentation_serialize :: "presentation \<Rightarrow> string" where
  "presentation_serialize p =
     sj_serialize (pn_root p) @ concat (map (\<lambda>l. ''~'' @ sj_serialize l) (pn_links p))
     @ (case pn_key_binding p of Some kb \<Rightarrow> jws_raw kb | None \<Rightarrow> [])"

definition presentation_select :: "crypto \<Rightarrow> presentation \<Rightarrow> nat \<Rightarrow> string list \<Rightarrow> sd_error + presentation" where
  "presentation_select C p index pointers =
     (if pn_key_binding p \<noteq> None then Inl (error_from (Issuance ''presentation is already key-bound''))
      else
        let pos = (case index of 0 \<Rightarrow> Root | Suc n \<Rightarrow> Link index) in
        rbind (case index of
                 0 \<Rightarrow> Inr (pn_root p)
               | Suc n \<Rightarrow> (if n < length (pn_links p) then Inr (pn_links p ! n)
                           else Inl (error_from (Issuance ''no element at that index'')))) (\<lambda>element.
        rbind (map_err (\<lambda>e. at_position (err_kind e) pos) (sj_select C element pointers)) (\<lambda>e.
        Inr (case index of 0 \<Rightarrow> p\<lparr>pn_root := e\<rparr>
             | Suc n \<Rightarrow> p\<lparr>pn_links := (pn_links p)[n := e]\<rparr>))))"

section \<open>Printing undoes parsing\<close>

lemma join_with_Cons: "ps \<noteq> [] \<Longrightarrow> join_with c (p # ps) = p @ c # join_with c ps"
  by (cases ps) simp_all

text \<open>The text of a list of elements and a final KB-JWT.\<close>

fun elements_text :: "sd_jwt list \<Rightarrow> string \<Rightarrow> string" where
  "elements_text [] kb = kb"
| "elements_text [e] kb = sj_serialize e @ kb"
| "elements_text (e # e' # es) kb = sj_serialize e @ CHR ''~'' # elements_text (e' # es) kb"

definition kb_text :: "jws option \<Rightarrow> string" where
  "kb_text kb = (case kb of Some j \<Rightarrow> jws_raw j | None \<Rightarrow> [])"

lemma elements_text_concat:
  "es \<noteq> [] \<Longrightarrow> elements_text es kb = sj_serialize (hd es) @ concat (map (\<lambda>l. ''~'' @ sj_serialize l) (tl es)) @ kb"
  by (induction es kb rule: elements_text.induct) simp_all

lemma presentation_serialize_text:
  "presentation_serialize p = elements_text (pn_elements p) (kb_text (pn_key_binding p))"
  by (simp add: presentation_serialize_def pn_elements_def elements_text_concat kb_text_def)

lemma take_disclosures_kb:
  "take_disclosures C cs = Inr (ds, kb, rest) \<Longrightarrow>
   (case kb of None \<Rightarrow> rest = [] \<or> (\<exists>next. rest = [] # next) | Some j \<Rightarrow> rest = [jws_raw j])"
  by (induction cs arbitrary: ds kb rest)
    (auto split: if_splits option.splits dest: jws_parse_raw)

lemma disclosure_parse_encoded: "disclosure_parse C c = Inr d \<Longrightarrow> d_encoded d = c"
  by (auto simp: disclosure_parse_def split: option.splits)

lemma from_parts_text:
  assumes "sd_jwt_from_parts C jwt ds = Inr e"
  shows "jws_raw (sj_jws e) = jwt" "map d_encoded (sj_disclosures e) = ds"
proof -
  from assms obtain j ds' where "jws_parse C jwt = Inr j" "collect (disclosure_parse C) ds = Inr ds'"
    "e = \<lparr>sj_jws = j, sj_disclosures = ds'\<rparr>"
    by (auto simp: sd_jwt_from_parts_def)
  then show "jws_raw (sj_jws e) = jwt" "map d_encoded (sj_disclosures e) = ds"
    by (auto simp: jws_parse_raw collect_eq_Inr list_all2_conv_all_nth disclosure_parse_encoded
      intro!: nth_equalityI)
qed

lemma join_disclosures:
  "rest \<noteq> [] \<Longrightarrow> join_with CHR ''~'' (ds @ rest) = concat (map (\<lambda>d. d @ ''~'') ds) @ join_with CHR ''~'' rest"
  by (induction ds) (simp_all add: join_with_Cons)

lemma join_element:
  assumes "sd_jwt_from_parts C jwt ds = Inr e" "rest \<noteq> []"
  shows "join_with CHR ''~'' (jwt # ds @ rest) = sj_serialize e @ join_with CHR ''~'' rest"
  using from_parts_text [OF assms(1)] assms(2)
  by (auto simp: sj_serialize_def join_with_Cons join_disclosures comp_def)

lemma parse_elements_text:
  "parse_elements C cs = Inr (es, kb) \<Longrightarrow>
   es \<noteq> [] \<and> join_with CHR ''~'' cs = elements_text es (kb_text kb)"
proof (induction C cs arbitrary: es kb rule: parse_elements.induct)
  case (2 C jwt rest)
  from "2.prems" obtain ds kb' rest' e where
    step: "looks_like_jwt jwt" "take_disclosures C rest = Inr (ds, kb', rest')"
      "sd_jwt_from_parts C jwt ds = Inr e"
    by (auto split: if_splits)
  note rest = take_disclosures_rest [OF step(2)] and kb = take_disclosures_kb [OF step(2)]
  show ?case
  proof (cases kb')
    case (Some j)
    with "2.prems" step kb have "es = [e]" "kb = Some j" "rest' = [jws_raw j]" by auto
    with join_element [OF step(3), of rest'] rest show ?thesis by (simp add: kb_text_def)
  next
    case None
    with "2.prems" step kb obtain "next" where rest': "rest' = [] # next" by (auto split: list.splits)
    show ?thesis
    proof (cases "next = []")
      case True
      with "2.prems" step None rest' have "es = [e]" "kb = None" by auto
      with join_element [OF step(3), of rest'] rest rest' True show ?thesis by (simp add: kb_text_def)
    next
      case False
      with "2.prems" step None rest' obtain es' where es': "parse_elements C next = Inr (es', kb)" "es = e # es'"
        by auto
      with "2.IH" [OF _ step(2) refl refl step(3)] step(1) None rest' False
      have IH: "es' \<noteq> []" "join_with CHR ''~'' next = elements_text es' (kb_text kb)" by auto
      then obtain e' es'' where "es' = e' # es''" by (cases es') auto
      with IH join_element [OF step(3), of rest'] rest rest' False es' show ?thesis
        by (simp add: join_with_Cons)
    qed
  qed
qed simp

lemma serialize_parse:
  assumes "presentation_parse C input = Inr p"
  shows "presentation_serialize p = input"
proof -
  from assms obtain es kb where es: "parse_elements C (split_on CHR ''~'' input) = Inr (es, kb)"
    and p: "p = \<lparr>pn_root = hd es, pn_links = tl es, pn_key_binding = kb\<rparr>"
    by (auto simp: presentation_parse_def Let_def split: if_splits)
  from parse_elements_text [OF es] p show ?thesis
    by (simp add: presentation_serialize_text pn_elements_def)
qed

section \<open>Parsing undoes printing\<close>

definition element_wf :: "crypto \<Rightarrow> sd_jwt \<Rightarrow> bool" where
  "element_wf C e \<longleftrightarrow> jws_parse C (jws_raw (sj_jws e)) = Inr (sj_jws e)
     \<and> CHR ''~'' \<notin> set (jws_raw (sj_jws e))
     \<and> list_all (\<lambda>d. disclosure_parse C (d_encoded d) = Inr d \<and> d_encoded d \<noteq> []
          \<and> CHR ''~'' \<notin> set (d_encoded d) \<and> CHR ''.'' \<notin> set (d_encoded d)) (sj_disclosures e)"

definition kb_wf :: "crypto \<Rightarrow> jws option \<Rightarrow> bool" where
  "kb_wf C kb = (case kb of None \<Rightarrow> True
     | Some j \<Rightarrow> jws_parse C (jws_raw j) = Inr j \<and> CHR ''~'' \<notin> set (jws_raw j))"

definition presentation_wf :: "crypto \<Rightarrow> presentation \<Rightarrow> bool" where
  "presentation_wf C p \<longleftrightarrow> list_all (element_wf C) (pn_elements p) \<and> kb_wf C (pn_key_binding p)"

fun components_of :: "sd_jwt list \<Rightarrow> string \<Rightarrow> string list" where
  "components_of [] kb = [kb]"
| "components_of [e] kb = jws_raw (sj_jws e) # map d_encoded (sj_disclosures e) @ [kb]"
| "components_of (e # e' # es) kb =
     jws_raw (sj_jws e) # map d_encoded (sj_disclosures e) @ [] # components_of (e' # es) kb"

lemma components_not_Nil [simp]: "components_of es kb \<noteq> []"
  by (cases "(es, kb)" rule: components_of.cases) simp_all

lemma elements_text_join: "elements_text es kb = join_with CHR ''~'' (components_of es kb)"
  by (induction es kb rule: components_of.induct)
    (simp_all add: sj_serialize_def join_with_Cons join_disclosures comp_def)

lemma element_plain:
  "element_wf C e \<Longrightarrow>
   list_all (\<lambda>c. CHR ''~'' \<notin> set c) (jws_raw (sj_jws e) # map d_encoded (sj_disclosures e))"
  by (simp add: element_wf_def list_all_iff)

lemma components_plain:
  "list_all (element_wf C) es \<Longrightarrow> CHR ''~'' \<notin> set kb \<Longrightarrow>
   list_all (\<lambda>c. CHR ''~'' \<notin> set c) (components_of es kb)"
proof (induction es kb rule: components_of.induct)
  case (2 e kb)
  with element_plain [of C e] show ?case by simp
next
  case (3 e e' es kb)
  with element_plain [of C e] show ?case by simp
qed simp

lemma jws_parse_shape: "jws_parse C raw = Inr j \<Longrightarrow> looks_like_jwt raw"
  by (auto simp: jws_parse_def split: if_splits)

lemma no_dot_no_jwt: "CHR ''.'' \<notin> set c \<Longrightarrow> \<not> looks_like_jwt c"
  by (simp add: looks_like_jwt_def split_on_absent)

lemma no_jwt_Nil [simp]: "\<not> looks_like_jwt []"
  by (simp add: looks_like_jwt_def)

lemma take_disclosures_append:
  "list_all (\<lambda>d. d \<noteq> [] \<and> CHR ''.'' \<notin> set d) ds \<Longrightarrow>
   take_disclosures C (ds @ rest) = rbind (take_disclosures C rest) (\<lambda>(ds', kb, r). Inr (ds @ ds', kb, r))"
proof (induction ds)
  case Nil
  then show ?case by (cases "take_disclosures C rest") auto
next
  case (Cons d ds)
  then show ?case
    by (cases "take_disclosures C rest") (auto simp: no_dot_no_jwt)
qed

lemma element_wf_parts:
  assumes "element_wf C e"
  shows "sd_jwt_from_parts C (jws_raw (sj_jws e)) (map d_encoded (sj_disclosures e)) = Inr e"
    and "list_all (\<lambda>d. d \<noteq> [] \<and> CHR ''.'' \<notin> set d) (map d_encoded (sj_disclosures e))"
    and "looks_like_jwt (jws_raw (sj_jws e))"
proof -
  have "collect (disclosure_parse C) (map d_encoded ds) = Inr ds"
    if "list_all (\<lambda>d. disclosure_parse C (d_encoded d) = Inr d) ds" for ds
    using that by (induction ds) auto
  with assms show "sd_jwt_from_parts C (jws_raw (sj_jws e)) (map d_encoded (sj_disclosures e)) = Inr e"
    "list_all (\<lambda>d. d \<noteq> [] \<and> CHR ''.'' \<notin> set d) (map d_encoded (sj_disclosures e))"
    by (simp_all add: sd_jwt_from_parts_def element_wf_def list_all_iff)
  from assms show "looks_like_jwt (jws_raw (sj_jws e))"
    by (auto simp: element_wf_def dest: jws_parse_shape)
qed

lemma parse_elements_components:
  "es \<noteq> [] \<Longrightarrow> list_all (element_wf C) es \<Longrightarrow> kb_wf C kb \<Longrightarrow>
   parse_elements C (components_of es (kb_text kb)) = Inr (es, kb)"
proof (induction es "kb_text kb" rule: components_of.induct)
  case (2 e)
  from 2 have wf: "element_wf C e" by simp
  show ?case
  proof (cases kb)
    case None
    then show ?thesis
      by (simp add: element_wf_parts [OF wf] take_disclosures_append kb_text_def)
  next
    case (Some j)
    with 2 have "jws_parse C (jws_raw j) = Inr j" by (simp add: kb_wf_def)
    with Some jws_parse_shape [OF this] show ?thesis
      by (auto simp: element_wf_parts [OF wf] take_disclosures_append kb_text_def)
  qed
next
  case (3 e e' es)
  from 3 have wf: "element_wf C e" by simp
  from 3 show ?case
    by (simp add: element_wf_parts [OF wf] take_disclosures_append)
qed simp

lemma presentation_parse_serialize:
  assumes "presentation_wf C p"
  shows "presentation_parse C (presentation_serialize p) = Inr p"
proof -
  let ?cs = "components_of (pn_elements p) (kb_text (pn_key_binding p))"
  have "CHR ''~'' \<notin> set (kb_text (pn_key_binding p))"
    using assms by (auto simp: presentation_wf_def kb_wf_def kb_text_def split: option.splits)
  then have "split_on CHR ''~'' (presentation_serialize p) = ?cs"
    unfolding presentation_serialize_text elements_text_join
    using assms components_plain [of C "pn_elements p"]
    by (intro split_join_with) (simp_all add: presentation_wf_def list_all_iff)
  moreover have "parse_elements C ?cs = Inr (pn_elements p, pn_key_binding p)"
    using assms by (intro parse_elements_components) (auto simp: presentation_wf_def pn_elements_def)
  moreover have "2 \<le> length ?cs"
    by (cases "(pn_elements p, kb_text (pn_key_binding p))" rule: components_of.cases)
      (auto simp: pn_elements_def Suc_le_eq)
  ultimately show ?thesis
    by (simp add: presentation_parse_def Let_def pn_elements_def)
qed

lemma presentation_parse_wf:
  assumes "presentation_parse C input = Inr p"
  shows "list_all (\<lambda>e. jws_parse C (jws_raw (sj_jws e)) = Inr (sj_jws e)) (pn_elements p)"
proof -
  have parts: "jws_parse C (jws_raw (sj_jws e)) = Inr (sj_jws e)"
    if "sd_jwt_from_parts C jwt ds = Inr e" for jwt ds e
    using that by (auto simp: sd_jwt_from_parts_def jws_parse_raw)
  have "parse_elements C cs = Inr (es, kb) \<Longrightarrow>
      list_all (\<lambda>e. jws_parse C (jws_raw (sj_jws e)) = Inr (sj_jws e)) es" for C cs es kb
  proof (induction C cs arbitrary: es kb rule: parse_elements.induct)
    case (2 C jwt rest)
    from "2.prems" obtain ds kb' rest' e where
      step: "looks_like_jwt jwt" "take_disclosures C rest = Inr (ds, kb', rest')"
        "sd_jwt_from_parts C jwt ds = Inr e"
      by (auto split: if_splits)
    have e: "jws_parse C (jws_raw (sj_jws e)) = Inr (sj_jws e)"
      using step(3) by (auto simp: sd_jwt_from_parts_def jws_parse_raw)
    from "2.IH" [OF _ step(2) refl refl step(3)] "2.prems" step e show ?case
      by (auto split: list.splits if_splits)
  qed simp
  note jws = this
  from assms obtain es kb where es: "parse_elements C (split_on CHR ''~'' input) = Inr (es, kb)"
    and p: "p = \<lparr>pn_root = hd es, pn_links = tl es, pn_key_binding = kb\<rparr>"
    by (auto simp: presentation_parse_def Let_def split: if_splits)
  with parse_elements_text [OF es] have "pn_elements p = es" by (simp add: pn_elements_def)
  with jws [OF es] show ?thesis by simp
qed

section \<open>Properties\<close>

lemma parsed_presentation_prints_back:
  assumes "presentation_parse C input = Inr p"
  shows "presentation_serialize p = input"
  by (rule serialize_parse [OF assms])

text \<open>C18: Every well-formed presentation (an SD-JWT and any number of links with their
  disclosures, with or without a key binding JWT) parses back from its serialization
  unchanged.\<close>
theorem printed_presentation_parses_back:
  assumes "presentation_wf C p"
  shows "presentation_parse C (presentation_serialize p) = Inr p"
  by (rule presentation_parse_serialize [OF assms])

section \<open>A concrete presentation\<close>

lemma toy_jws:
  obtains j where "jws_parse toy_crypto (jws_raw j) = Inr j" "CHR ''~'' \<notin> set (jws_raw j)"
proof -
  have wf: "json_fits 127 (JObj [])" by simp
  let ?h = "signed_header ''typ'' [] (sd_signing_algorithm (SkP256 ''k''))"
  obtain raw where raw: "jws_parse toy_crypto raw = Inr \<lparr>jws_raw = raw, jws_header = ?h, jws_payload = []\<rparr>"
    "CHR ''~'' \<notin> set raw"
    by (rule sd_jws_sign_ok [OF toy_crypto_ok(1-3) wf wf, of "''typ''" "''r''" "SkP256 ''k''"]) simp_all
  from that [of "\<lparr>jws_raw = raw, jws_header = ?h, jws_payload = []\<rparr>"] raw show ?thesis by simp
qed

theorem printed_presentation_parses_back_witness:
  "\<exists>p. pn_links p \<noteq> [] \<and> pn_key_binding p \<noteq> None
     \<and> presentation_parse toy_crypto (presentation_serialize p) = Inr p"
proof -
  obtain j where j: "jws_parse toy_crypto (jws_raw j) = Inr j" "CHR ''~'' \<notin> set (jws_raw j)"
    by (rule toy_jws)
  let ?e = "\<lparr>sj_jws = j, sj_disclosures = []\<rparr>"
  let ?p = "\<lparr>pn_root = ?e, pn_links = [?e], pn_key_binding = Some j\<rparr>"
  have "presentation_wf toy_crypto ?p"
    using j by (simp add: presentation_wf_def pn_elements_def element_wf_def kb_wf_def)
  from printed_presentation_parses_back [OF this] show ?thesis by (intro exI [of _ ?p]) simp
qed

end
