(* ===== verification/SdProcessFacts.thy ===== *)
theory SdProcessFacts
  imports SdProcess
begin

text \<open>
  What processing an SD-JWT payload guarantees: it ends within the fuel it is given, no
  digest marker survives in the claims, every disclosure is reached from the signed
  payload through digests, and its recorded path leads to a value of the claims.
\<close>

section \<open>Enough fuel\<close>

lemma index_digests_dom:
  "index_digests C alg i ds m = Inr m' \<Longrightarrow> dom m' = dom m \<union> d_digest C alg ` set ds"
  by (induction ds arbitrary: i m) (auto simp: Let_def split: if_splits)

lemma index_digests_sum:
  fixes f :: "nat \<Rightarrow> nat"
  assumes "index_digests C alg i ds m = Inr m'" "finite (dom m)"
  shows "(\<Sum>dg \<in> dom m'. f (the (m' dg))) =
    (\<Sum>dg \<in> dom m. f (the (m dg))) + (\<Sum>j < length ds. f (i + j))"
  using assms
proof (induction ds arbitrary: i m)
  case (Cons d ds)
  let ?dg = "d_digest C alg d" and ?m = "m(d_digest C alg d \<mapsto> i)"
  from Cons.prems have new: "?dg \<notin> dom m" and rest: "index_digests C alg (i + 1) ds ?m = Inr m'"
    by (auto simp: Let_def domIff split: if_splits)
  have "(\<Sum>dg \<in> dom ?m. f (the (?m dg))) = f i + (\<Sum>dg \<in> dom m. f (the (m dg)))"
    using new Cons.prems(2) by (auto simp: domIff intro!: sum.cong)
  moreover have "(\<Sum>j < length (d # ds). f (i + j)) = f i + (\<Sum>j < length ds. f (i + 1 + j))"
    by (simp add: sum.lessThan_Suc_shift del: sum.lessThan_Suc)
  moreover have "finite (dom ?m)" using Cons.prems(2) by simp
  ultimately show ?case using Cons.IH [OF rest] by linarith
qed simp

lemma index_digests_nth:
  assumes "index_digests C alg i ds m = Inr m'" "m' dg = Some j"
  shows "m dg = Some j \<or> (i \<le> j \<and> j < i + length ds \<and> d_digest C alg (ds ! (j - i)) = dg)"
  using assms
proof (induction ds arbitrary: i m)
  case (Cons d ds)
  from Cons.prems have "index_digests C alg (i + 1) ds (m(d_digest C alg d \<mapsto> i)) = Inr m'"
    by (simp add: Let_def split: if_splits)
  from Cons.IH [OF this Cons.prems(2)] show ?case
  proof
    assume "(m(d_digest C alg d \<mapsto> i)) dg = Some j"
    then show ?thesis by (auto split: if_splits)
  next
    assume *: "i + 1 \<le> j \<and> j < i + 1 + length ds \<and> d_digest C alg (ds ! (j - (i + 1))) = dg"
    then obtain k where "j = i + 1 + k" using le_Suc_ex by blast
    with * show ?thesis by simp
  qed
qed simp

lemma process_walk_fuel:
  assumes "index_digests C alg 0 ds Map.empty = Inr by_digest"
  shows "walk_object \<lparr>we_disclosures = ds, we_by_digest = by_digest\<rparr>
      (walk (walk_fuel_for payload ds) \<lparr>we_disclosures = ds, we_by_digest = by_digest\<rparr>) payload p
      \<lparr>wk_seen = {}, wk_paths = ps\<rparr> \<noteq> Inl None"
proof -
  let ?E = "\<lparr>we_disclosures = ds, we_by_digest = by_digest\<rparr>" and ?w = "\<lparr>wk_seen = {}, wk_paths = ps\<rparr>"
  have fin: "finite (dom by_digest)" using index_digests_dom [OF assms] by simp
  have "pending ?E ?w = (\<Sum>j < length ds. Suc (size (d_value (ds ! j))))"
    using index_digests_sum [OF assms, of "\<lambda>j. Suc (size (d_value (ds ! j)))"]
    by (simp add: pending_def)
  then have pending: "pending ?E ?w = sum_list (map (\<lambda>d. Suc (size (d_value d))) ds)"
    by (simp add: sum_list_sum_nth lessThan_atLeast0)
  have fuel: "rec_fuel (walk_fuel_for payload ds) ?E (walk (walk_fuel_for payload ds) ?E)"
    using walk_fuel fin by simp
  have "\<forall>(k, v) \<in> set payload. size v + pending ?E ?w < walk_fuel_for payload ds"
    using size_member unfolding pending walk_fuel_for_def by fastforce
  moreover have "pending ?E ?w < walk_fuel_for payload ds"
    unfolding pending walk_fuel_for_def by simp
  ultimately show ?thesis by (rule walk_object_fuel [OF fuel])
qed

text \<open>A successful \<open>process\<close> taken apart.\<close>

lemma process_InrE:
  assumes "process C payload ds alg = Inr r"
  obtains by_digest claims w where "index_digests C alg 0 ds Map.empty = Inr by_digest"
    "walk_object \<lparr>we_disclosures = ds, we_by_digest = by_digest\<rparr>
       (walk (walk_fuel_for payload ds) \<lparr>we_disclosures = ds, we_by_digest = by_digest\<rparr>) payload []
       \<lparr>wk_seen = {}, wk_paths = replicate (length ds) None\<rparr> = Inr (claims, w)"
    "wk_paths w = map Some (pr_paths r)" "pr_claims r = obj_remove ''_sd_alg'' claims"
proof -
  have collect: "collect (\<lambda>p. ok_or p e) xs = Inr ys \<longleftrightarrow> xs = map Some ys" for xs :: "path option list" and ys e
    by (simp add: collect_eq_Inr list_all2_conv_all_nth list_eq_iff_nth_eq) auto
  from assms that show ?thesis
    by (auto simp: process_def Let_def collect)
qed

section \<open>No digest markers survive\<close>

fun json_clean :: "json \<Rightarrow> bool" where
  "json_clean (JArr xs) = (\<forall>x \<in> set xs. json_clean x)"
| "json_clean (JObj ob) =
     (\<forall>e \<in> set ob. fst e \<noteq> ''_sd'' \<and> fst e \<noteq> ''...'' \<and> json_clean (snd e))"
| "json_clean v = True"

abbreviation clean :: "json \<Rightarrow> bool" where "clean v \<equiv> json_clean v \<and> json_wf v"

definition rec_clean :: "(json \<Rightarrow> path \<Rightarrow> json walking) \<Rightarrow> bool" where
  "rec_clean rec \<longleftrightarrow> (\<forall>v p w v' w'. rec v p w = Inr (v', w') \<longrightarrow> clean v')"

lemma rec_cleanD: "rec_clean rec \<Longrightarrow> rec v p w = Inr (v', w') \<Longrightarrow> clean v'"
  unfolding rec_clean_def by blast

lemma clean_insert:
  assumes "clean (JObj out)" "clean v" "k \<noteq> ''_sd''" "k \<noteq> ''...''"
  shows "clean (JObj (obj_insert k v out))"
  using assms set_obj_insert_subset [of k v out] by fastforce

lemma walk_fields_clean:
  assumes "rec_clean rec"
  shows "walk_fields rec es p out w = Inr (out', w') \<Longrightarrow> clean (JObj out) \<Longrightarrow>
    \<forall>(k, v) \<in> set es. k \<noteq> ''_sd'' \<and> k \<noteq> ''...'' \<Longrightarrow> clean (JObj out')"
proof (induction es arbitrary: out w)
  case (Cons e es)
  obtain k v where e: "e = (k, v)" by force
  from Cons.prems(1) [unfolded e] show ?case
  proof (rule walk_fields_ConsE)
    fix v' w1
    assume rec: "rec v (p @ [Key k]) w = Inr (v', w1)"
      and rest: "walk_fields rec es p (obj_insert k v' out) w1 = Inr (out', w')"
    from Cons.prems(3) e have "k \<noteq> ''_sd''" "k \<noteq> ''...''" by auto
    from clean_insert [OF Cons.prems(2) rec_cleanD [OF assms rec] this] Cons.prems(3)
    show ?thesis by (intro Cons.IH [OF rest]) auto
  qed
qed auto

lemma walk_digests_clean:
  assumes "rec_clean rec"
  shows "walk_digests E rec ds p out w = Inr (out', w') \<Longrightarrow> clean (JObj out) \<Longrightarrow> clean (JObj out')"
proof (induction ds arbitrary: out w)
  case (Cons d ds)
  from Cons.prems(1) show ?case
  proof (cases rule: walk_digests_ConsE)
    case (skip dg w1)
    then show ?thesis using Cons.IH Cons.prems(2) by blast
  next
    case (follow dg i w1 name v w2)
    from clean_insert [OF Cons.prems(2) rec_cleanD [OF assms follow(7)] follow(4,5)]
    show ?thesis by (rule Cons.IH [OF follow(8)])
  qed
qed auto

lemma walk_array_clean:
  assumes "rec_clean rec"
  shows "walk_array E rec items p out w = Inr (out', w') \<Longrightarrow> clean (JArr out) \<Longrightarrow> clean (JArr out')"
proof (induction items arbitrary: out w)
  case (Cons item items)
  from Cons.prems(1) show ?case
  proof (cases rule: walk_array_ConsE)
    case (plain v w1)
    from rec_cleanD [OF assms plain(2)] Cons.prems(2) have "clean (JArr (out @ [v]))" by auto
    then show ?thesis by (rule Cons.IH [OF plain(3)])
  next
    case (skip dg w1)
    then show ?thesis using Cons.IH Cons.prems(2) by blast
  next
    case (follow dg i w1 v w2)
    from rec_cleanD [OF assms follow(4)] Cons.prems(2) have "clean (JArr (out @ [v]))" by auto
    then show ?thesis by (rule Cons.IH [OF follow(5)])
  qed
qed auto

lemma walk_object_clean:
  assumes "rec_clean rec" "walk_object E rec ob p w = Inr (ob', w')"
  shows "clean (JObj ob')"
proof -
  have fields: "clean (JObj out)"
    if "\<not> obj_contains ob ''...''"
      "walk_fields rec (filter (\<lambda>(k, _). k \<noteq> ''_sd'') ob) p [] w = Inr (out, w1)" for out w1
  proof (rule walk_fields_clean [OF assms(1) that(2)])
    from that(1) have "''...'' \<notin> fst ` set ob" by (simp add: obj_contains_iff obj_keys_def)
    then show "\<forall>(k, v) \<in> set (filter (\<lambda>(k, _). k \<noteq> ''_sd'') ob). k \<noteq> ''_sd'' \<and> k \<noteq> ''...''"
      by force
  qed simp
  from assms(2) show ?thesis
    by (cases rule: walk_object_InrE)
      (rule fields, assumption+, rule walk_digests_clean [OF assms(1)], assumption, rule fields)
qed

lemma walk_clean: "rec_clean (walk fuel E)"
proof (induction fuel)
  case (Suc fuel)
  show ?case
    unfolding rec_clean_def
  proof (intro allI impI)
    fix v p w v' w' assume "walk (Suc fuel) E v p w = Inr (v', w')"
    then show "clean v'"
    proof (cases rule: walk_Suc_InrE)
      case (obj ob ob')
      then show ?thesis using walk_object_clean [OF Suc] by blast
    next
      case (arr xs xs')
      then show ?thesis using walk_array_clean [OF Suc arr(3)] by simp
    next
      case leaf
      then show ?thesis by (cases v) (simp_all add: as_array_def)
    qed
  qed
qed (simp add: rec_clean_def)

lemma clean_remove: "clean (JObj ob) \<Longrightarrow> clean (JObj (obj_remove k ob))"
  by (auto simp: obj_remove_def obj_wf_remove [unfolded obj_remove_def])

lemma process_clean:
  assumes "process C payload ds alg = Inr r"
  shows "clean (JObj (pr_claims r))"
  using assms
  by (rule process_InrE) (simp only: clean_remove walk_object_clean [OF walk_clean])

section \<open>One path for every disclosure\<close>

definition rec_length :: "(json \<Rightarrow> path \<Rightarrow> json walking) \<Rightarrow> bool" where
  "rec_length rec \<longleftrightarrow> (\<forall>v p w v' w'. rec v p w = Inr (v', w') \<longrightarrow>
     length (wk_paths w') = length (wk_paths w))"

lemma rec_lengthD:
  "rec_length rec \<Longrightarrow> rec v p w = Inr (v', w') \<Longrightarrow> length (wk_paths w') = length (wk_paths w)"
  unfolding rec_length_def by blast

lemma place_length [simp]: "length (wk_paths (place i p w)) = length (wk_paths w)"
  by (simp add: place_def)

lemma walk_lookup_paths: "walk_lookup E dg w = Inr (found, w1) \<Longrightarrow> wk_paths w1 = wk_paths w"
  by (auto simp: walk_lookup_eq_Inr)

lemma walk_fields_length:
  assumes "rec_length rec"
  shows "walk_fields rec es p out w = Inr (out', w') \<Longrightarrow> length (wk_paths w') = length (wk_paths w)"
proof (induction es arbitrary: out w)
  case (Cons e es)
  obtain k v where e: "e = (k, v)" by force
  from Cons.prems [unfolded e] show ?case
    by (rule walk_fields_ConsE) (simp add: Cons.IH rec_lengthD [OF assms])
qed simp

lemma walk_digests_length:
  assumes "rec_length rec"
  shows "walk_digests E rec ds p out w = Inr (out', w') \<Longrightarrow> length (wk_paths w') = length (wk_paths w)"
proof (induction ds arbitrary: out w)
  case (Cons d ds)
  from Cons.prems show ?case
    by (cases rule: walk_digests_ConsE)
      (simp_all add: Cons.IH walk_lookup_paths rec_lengthD [OF assms])
qed simp

lemma walk_array_length:
  assumes "rec_length rec"
  shows "walk_array E rec items p out w = Inr (out', w') \<Longrightarrow> length (wk_paths w') = length (wk_paths w)"
proof (induction items arbitrary: out w)
  case (Cons item items)
  from Cons.prems show ?case
    by (cases rule: walk_array_ConsE)
      (simp_all add: Cons.IH walk_lookup_paths rec_lengthD [OF assms])
qed simp

lemma walk_object_length:
  assumes "rec_length rec" "walk_object E rec ob p w = Inr (ob', w')"
  shows "length (wk_paths w') = length (wk_paths w)"
  using assms(2)
  by (cases rule: walk_object_InrE)
    (simp_all add: walk_fields_length [OF assms(1)] walk_digests_length [OF assms(1)])

lemma walk_length: "rec_length (walk fuel E)"
proof (induction fuel)
  case (Suc fuel)
  show ?case
    unfolding rec_length_def
  proof (intro allI impI)
    fix v p w v' w' assume "walk (Suc fuel) E v p w = Inr (v', w')"
    then show "length (wk_paths w') = length (wk_paths w)"
      by (cases rule: walk_Suc_InrE)
        (simp_all add: walk_object_length [OF Suc] walk_array_length [OF Suc])
  qed
qed (simp add: rec_length_def)

section \<open>Every disclosure is committed to\<close>

text \<open>The digests a value embeds directly, in \<open>_sd\<close> arrays and as array elements.\<close>

definition sd_entries :: "json \<Rightarrow> string set" where
  "sd_entries v = (case v of JArr ds \<Rightarrow> {dg. JStr dg \<in> set ds} | _ \<Rightarrow> {})"

definition element_entry :: "json \<Rightarrow> string set" where
  "element_entry x = (case element_digest x of Inr (Some dg) \<Rightarrow> {dg} | _ \<Rightarrow> {})"

fun digests_of :: "json \<Rightarrow> string set" where
  "digests_of (JArr xs) = (\<Union>x \<in> set xs. digests_of x \<union> element_entry x)"
| "digests_of (JObj ob) =
     (\<Union>e \<in> set ob. if fst e = ''_sd'' then sd_entries (snd e) else digests_of (snd e))"
| "digests_of v = {}"

text \<open>Reachable from the signed payload through digests and the disclosures they match.\<close>

inductive committed :: "crypto \<Rightarrow> sd_alg \<Rightarrow> object \<Rightarrow> disclosure list \<Rightarrow> string \<Rightarrow> bool"
  for C alg payload ds where
  signed: "dg \<in> digests_of (JObj payload) \<Longrightarrow> committed C alg payload ds dg"
| nested: "committed C alg payload ds (d_digest C alg d) \<Longrightarrow> d \<in> set ds \<Longrightarrow>
    dg \<in> digests_of (d_value d) \<Longrightarrow> committed C alg payload ds dg"

definition closed_under :: "walk_env \<Rightarrow> string set \<Rightarrow> bool" where
  "closed_under E S \<longleftrightarrow> (\<forall>dg i. dg \<in> S \<longrightarrow> we_by_digest E dg = Some i \<longrightarrow>
     digests_of (d_value (we_disclosures E ! i)) \<subseteq> S)"

definition placed_seen :: "walk_env \<Rightarrow> walker \<Rightarrow> bool" where
  "placed_seen E w \<longleftrightarrow> (\<forall>i < length (wk_paths w). wk_paths w ! i \<noteq> None \<longrightarrow>
     (\<exists>dg \<in> wk_seen w. we_by_digest E dg = Some i))"

text \<open>The state stays within \<open>S\<close>, and only disclosures whose digest was seen are placed.\<close>

definition inside :: "walk_env \<Rightarrow> string set \<Rightarrow> walker \<Rightarrow> bool" where
  "inside E S w \<longleftrightarrow> closed_under E S \<and> wk_seen w \<subseteq> S \<and> placed_seen E w"

definition rec_within :: "walk_env \<Rightarrow> string set \<Rightarrow> (json \<Rightarrow> path \<Rightarrow> json walking) \<Rightarrow> bool" where
  "rec_within E S rec \<longleftrightarrow> (\<forall>v p w v' w'. digests_of v \<subseteq> S \<longrightarrow> inside E S w \<longrightarrow>
     rec v p w = Inr (v', w') \<longrightarrow> inside E S w')"

lemma rec_withinD:
  "rec_within E S rec \<Longrightarrow> rec v p w = Inr (v', w') \<Longrightarrow> digests_of v \<subseteq> S \<Longrightarrow> inside E S w \<Longrightarrow> inside E S w'"
  unfolding rec_within_def by blast

lemma lookup_within:
  assumes "walk_lookup E dg w = Inr (found, w1)" "inside E S w" "dg \<in> S"
  shows "inside E S w1"
  using assms by (auto simp: walk_lookup_eq_Inr inside_def placed_seen_def)

lemma follow_within:
  assumes "walk_lookup E dg w = Inr (Some i, w1)" "inside E S w" "dg \<in> S"
  shows "inside E S (place i p w1)" "digests_of (d_value (we_disclosures E ! i)) \<subseteq> S"
proof -
  from assms have i: "we_by_digest E dg = Some i" "dg \<in> wk_seen w1"
    and w1: "inside E S w1"
    using lookup_within [OF assms] by (auto simp: walk_lookup_eq_Inr)
  have "placed_seen E (place i p w1)"
    unfolding placed_seen_def
  proof (intro allI impI)
    fix j assume j: "j < length (wk_paths (place i p w1))" "wk_paths (place i p w1) ! j \<noteq> None"
    show "\<exists>dg \<in> wk_seen (place i p w1). we_by_digest E dg = Some j"
    proof (cases "j = i")
      case True
      with i show ?thesis by auto
    next
      case False
      with j w1 show ?thesis by (simp add: inside_def placed_seen_def place_def)
    qed
  qed
  with w1 show "inside E S (place i p w1)" by (simp add: inside_def)
  from w1 i assms(3) show "digests_of (d_value (we_disclosures E ! i)) \<subseteq> S"
    unfolding inside_def closed_under_def by blast
qed

lemma walk_fields_within:
  assumes "rec_within E S rec"
  shows "walk_fields rec es p out w = Inr (out', w') \<Longrightarrow> \<forall>(k, v) \<in> set es. digests_of v \<subseteq> S \<Longrightarrow>
    inside E S w \<Longrightarrow> inside E S w'"
proof (induction es arbitrary: out w)
  case (Cons e es)
  obtain k v where e: "e = (k, v)" by force
  from Cons.prems(1) [unfolded e] show ?case
  proof (rule walk_fields_ConsE)
    fix v' w1
    assume "rec v (p @ [Key k]) w = Inr (v', w1)"
      and rest: "walk_fields rec es p (obj_insert k v' out) w1 = Inr (out', w')"
    with rec_withinD [OF assms] Cons.prems(2,3) e have "inside E S w1" by fastforce
    with Cons.prems(2) show ?thesis by (intro Cons.IH [OF rest]) auto
  qed
qed simp

lemma walk_digests_within:
  assumes "rec_within E S rec"
  shows "walk_digests E rec ds p out w = Inr (out', w') \<Longrightarrow> sd_entries (JArr ds) \<subseteq> S \<Longrightarrow>
    inside E S w \<Longrightarrow> inside E S w'"
proof (induction ds arbitrary: out w)
  case (Cons d ds)
  from Cons.prems(2) have rest: "sd_entries (JArr ds) \<subseteq> S" by (auto simp: sd_entries_def)
  from Cons.prems(1) show ?case
  proof (cases rule: walk_digests_ConsE)
    case (skip dg w1)
    then have "dg \<in> S" using Cons.prems(2) by (auto simp: sd_entries_def)
    from Cons.IH [OF skip(3) rest lookup_within [OF skip(2) Cons.prems(3) this]] show ?thesis .
  next
    case (follow dg i w1 name v w2)
    then have "dg \<in> S" using Cons.prems(2) by (auto simp: sd_entries_def)
    note follow_within [OF follow(2) Cons.prems(3) this]
    from rec_withinD [OF assms follow(7) this(2,1)] show ?thesis
      by (rule Cons.IH [OF follow(8) rest])
  qed
qed simp

lemma walk_array_within:
  assumes "rec_within E S rec"
  shows "walk_array E rec items p out w = Inr (out', w') \<Longrightarrow> digests_of (JArr items) \<subseteq> S \<Longrightarrow>
    inside E S w \<Longrightarrow> inside E S w'"
proof (induction items arbitrary: out w)
  case (Cons item items)
  from Cons.prems(2) have rest: "digests_of (JArr items) \<subseteq> S" and here: "digests_of item \<subseteq> S"
    and entry: "element_entry item \<subseteq> S" by auto
  from Cons.prems(1) show ?case
  proof (cases rule: walk_array_ConsE)
    case (plain v w1)
    from rec_withinD [OF assms plain(2) here Cons.prems(3)] show ?thesis
      by (rule Cons.IH [OF plain(3) rest])
  next
    case (skip dg w1)
    then have "dg \<in> S" using entry by (simp add: element_entry_def)
    from Cons.IH [OF skip(3) rest lookup_within [OF skip(2) Cons.prems(3) this]] show ?thesis .
  next
    case (follow dg i w1 v w2)
    then have "dg \<in> S" using entry by (simp add: element_entry_def)
    note follow_within [OF follow(2) Cons.prems(3) this]
    from rec_withinD [OF assms follow(4) this(2,1)] show ?thesis
      by (rule Cons.IH [OF follow(5) rest])
  qed
qed simp

lemma digests_of_field: "(k, v) \<in> set ob \<Longrightarrow> k \<noteq> ''_sd'' \<Longrightarrow> digests_of v \<subseteq> digests_of (JObj ob)"
  by force

lemma digests_of_sd: "(''_sd'', v) \<in> set ob \<Longrightarrow> sd_entries v \<subseteq> digests_of (JObj ob)"
  by force

lemma walk_object_within:
  assumes "rec_within E S rec" "walk_object E rec ob p w = Inr (ob', w')"
    and "digests_of (JObj ob) \<subseteq> S" "inside E S w"
  shows "inside E S w'"
proof -
  have fields: "\<forall>(k, v) \<in> set (filter (\<lambda>(k, _). k \<noteq> ''_sd'') ob). digests_of v \<subseteq> S"
  proof clarify
    fix k v x assume "(k, v) \<in> set (filter (\<lambda>(k, _). k \<noteq> ''_sd'') ob)" and x: "x \<in> digests_of v"
    then have "(k, v) \<in> set ob" "k \<noteq> ''_sd''" by simp_all
    from digests_of_field [OF this] x assms(3) show "x \<in> S" by blast
  qed
  have entries: "sd_entries sd \<subseteq> S" if "obj_get ob ''_sd'' = Some sd" for sd
    using digests_of_sd [OF obj_get_in_set [OF that]] assms(3) by (rule order_trans)
  from assms(2) show ?thesis
  proof (cases rule: walk_object_InrE)
    case plain
    from walk_fields_within [OF assms(1) plain(3) fields assms(4)] show ?thesis .
  next
    case (digests out w1 ds)
    from walk_fields_within [OF assms(1) digests(3) fields assms(4)] show ?thesis
      by (rule walk_digests_within [OF assms(1) digests(4) entries [OF digests(2)]])
  qed
qed

lemma walk_within: "rec_within E S (walk fuel E)"
proof (induction fuel)
  case (Suc fuel)
  show ?case
    unfolding rec_within_def
  proof (intro allI impI)
    fix v p w v' w'
    assume v: "digests_of v \<subseteq> S" and w: "inside E S w" and "walk (Suc fuel) E v p w = Inr (v', w')"
    from this(3) show "inside E S w'"
    proof (cases rule: walk_Suc_InrE)
      case (obj ob ob')
      with v w walk_object_within [OF Suc obj(3)] show ?thesis by simp
    next
      case (arr xs xs')
      with v w walk_array_within [OF Suc arr(3)] show ?thesis by simp
    qed (use w in simp)
  qed
qed (simp add: rec_within_def)

lemma committed_closed:
  assumes "index_digests C alg 0 ds Map.empty = Inr by_digest"
  shows "closed_under \<lparr>we_disclosures = ds, we_by_digest = by_digest\<rparr> {dg. committed C alg payload ds dg}"
  unfolding closed_under_def
proof (intro allI impI)
  fix dg i assume dg: "dg \<in> {dg. committed C alg payload ds dg}"
    and "we_by_digest \<lparr>we_disclosures = ds, we_by_digest = by_digest\<rparr> dg = Some i"
  then have "i < length ds" "d_digest C alg (ds ! i) = dg"
    using index_digests_nth [OF assms, of dg i] by auto
  then show "digests_of (d_value (we_disclosures \<lparr>we_disclosures = ds, we_by_digest = by_digest\<rparr> ! i))
      \<subseteq> {dg. committed C alg payload ds dg}"
    using dg by (auto intro: committed.nested [of C alg payload ds "ds ! i"])
qed

lemma process_committed:
  assumes "process C payload ds alg = Inr r" "d \<in> set ds"
  shows "committed C alg payload ds (d_digest C alg d)"
  using assms(1)
proof (rule process_InrE)
  fix by_digest claims w
  let ?E = "\<lparr>we_disclosures = ds, we_by_digest = by_digest\<rparr>" and ?S = "{dg. committed C alg payload ds dg}"
  let ?w0 = "\<lparr>wk_seen = {}, wk_paths = replicate (length ds) None\<rparr>"
  assume index: "index_digests C alg 0 ds Map.empty = Inr by_digest"
    and walk: "walk_object ?E (walk (walk_fuel_for payload ds) ?E) payload [] ?w0 = Inr (claims, w)"
    and paths: "wk_paths w = map Some (pr_paths r)"
  have "digests_of (JObj payload) \<subseteq> ?S"
    using committed.signed [of _ payload C alg ds] by blast
  moreover have "inside ?E ?S ?w0"
    using committed_closed [OF index] by (simp add: inside_def placed_seen_def)
  ultimately have w: "inside ?E ?S w"
    by (rule walk_object_within [OF walk_within walk])
  have len: "length (wk_paths w) = length ds"
    using walk_object_length [OF walk_length walk] by simp
  from assms(2) obtain i where i: "i < length ds" "ds ! i = d" by (auto simp: in_set_conv_nth)
  with len paths have "wk_paths w ! i \<noteq> None" by simp
  with w i len obtain dg where "dg \<in> ?S" "by_digest dg = Some i"
    unfolding inside_def placed_seen_def by fastforce
  with index_digests_nth [OF index, of dg i] i show ?thesis by auto
qed

section \<open>Recorded paths lead to the disclosed values\<close>

text \<open>A property disclosure lands under its name, an element disclosure at an index.\<close>

definition last_ok :: "disclosure \<Rightarrow> path \<Rightarrow> bool" where
  "last_ok d p \<longleftrightarrow> p \<noteq> [] \<and>
     (case d_name d of Some n \<Rightarrow> last p = Key n | None \<Rightarrow> (\<exists>k. last p = Index k))"

text \<open>Every path set between \<open>w\<close> and \<open>w'\<close> leads below \<open>p\<close> to a value inside \<open>v\<close>.\<close>

definition lands :: "walk_env \<Rightarrow> path \<Rightarrow> json \<Rightarrow> walker \<Rightarrow> walker \<Rightarrow> bool" where
  "lands E p v w w' \<longleftrightarrow> length (wk_paths w') = length (wk_paths w) \<and>
     (\<forall>i < length (wk_paths w). wk_paths w' ! i = wk_paths w ! i \<or>
        (\<exists>q. wk_paths w' ! i = Some (p @ q) \<and> lookup_path v q \<noteq> None
           \<and> last_ok (we_disclosures E ! i) (p @ q)))"

definition extends :: "json \<Rightarrow> json \<Rightarrow> bool" where
  "extends v v' \<longleftrightarrow> (\<forall>q. lookup_path v q \<noteq> None \<longrightarrow> lookup_path v' q \<noteq> None)"

lemma extends_refl [simp]: "extends v v"
  by (simp add: extends_def)

lemma extends_obj:
  assumes "obj_get out k = None"
  shows "extends (JObj out) (JObj (obj_insert k v out))"
  unfolding extends_def
proof (intro allI impI)
  fix q assume "lookup_path (JObj out) q \<noteq> None"
  with assms show "lookup_path (JObj (obj_insert k v out)) q \<noteq> None"
    by (cases q; cases "hd q") (auto simp: Option.bind_eq_Some_conv split: if_splits)
qed

lemma extends_arr: "extends (JArr out) (JArr (out @ [v]))"
  unfolding extends_def
proof (intro allI impI)
  fix q assume "lookup_path (JArr out) q \<noteq> None"
  then show "lookup_path (JArr (out @ [v])) q \<noteq> None"
    by (cases q; cases "hd q") (auto simp: nth_append split: if_splits)
qed

lemma lands_refl: "lands E p v w w"
  by (simp add: lands_def)

lemma lands_trans:
  assumes "lands E p v w w1" "lands E p v' w1 w2" "extends v v'"
  shows "lands E p v' w w2"
  using assms unfolding lands_def extends_def by metis

lemma lands_paths: "lands E p v w1 w2 \<Longrightarrow> wk_paths w1 = wk_paths w \<Longrightarrow> lands E p v w w2"
  by (simp add: lands_def)

lemma lands_below:
  assumes "lands E (p @ [s]) v w w'" "\<And>q. lookup_path whole (s # q) = lookup_path v q"
  shows "lands E p whole w w'"
proof -
  have "lookup_path v q \<noteq> None \<Longrightarrow> lookup_path whole (s # q) \<noteq> None" for q
    using assms(2) by simp
  with assms(1) show ?thesis
    unfolding lands_def by (metis append.assoc append_Cons append_Nil)
qed

text \<open>Following a digest: the disclosure's own path, and those inside its value.\<close>

lemma lands_follow:
  assumes "lands E (p @ [s]) v (place i (p @ [s]) w1) w2" "wk_paths w1 = wk_paths w"
    and "\<And>q. lookup_path whole (s # q) = lookup_path v q"
    and "last_ok (we_disclosures E ! i) (p @ [s])"
  shows "lands E p whole w w2"
proof -
  note below = lands_below [OF assms(1,3)]
  have self: "lookup_path whole [s] \<noteq> None" using assms(3) [of "[]"] by simp
  have place: "lands E p whole w (place i (p @ [s]) w1)"
    unfolding lands_def
  proof (intro conjI allI impI)
    show "length (wk_paths (place i (p @ [s]) w1)) = length (wk_paths w)"
      using assms(2) by simp
    fix j assume "j < length (wk_paths w)"
    with assms(2,4) self show "wk_paths (place i (p @ [s]) w1) ! j = wk_paths w ! j
      \<or> (\<exists>q. wk_paths (place i (p @ [s]) w1) ! j = Some (p @ q) \<and> lookup_path whole q \<noteq> None
           \<and> last_ok (we_disclosures E ! j) (p @ q))"
      by (cases "j = i") (auto simp: place_def intro!: exI [of _ "[s]"])
  qed
  from lands_trans [OF place below] show ?thesis by simp
qed

definition env_wf :: "walk_env \<Rightarrow> bool" where
  "env_wf E \<longleftrightarrow> (\<forall>dg i. we_by_digest E dg = Some i \<longrightarrow> json_wf (d_value (we_disclosures E ! i)))"

definition rec_lands :: "walk_env \<Rightarrow> (json \<Rightarrow> path \<Rightarrow> json walking) \<Rightarrow> bool" where
  "rec_lands E rec \<longleftrightarrow> env_wf E \<and> (\<forall>v p w v' w'. json_wf v \<longrightarrow> rec v p w = Inr (v', w') \<longrightarrow>
     lands E p v' w w')"

lemma rec_landsD:
  "rec_lands E rec \<Longrightarrow> rec v p w = Inr (v', w') \<Longrightarrow> json_wf v \<Longrightarrow> lands E p v' w w'"
  unfolding rec_lands_def by blast

lemma rec_lands_follow:
  assumes "rec_lands E rec" "walk_lookup E dg w = Inr (Some i, w1)"
    and "rec (d_value (we_disclosures E ! i)) (p @ [s]) (place i (p @ [s]) w1) = Inr (v, w2)"
    and "\<And>q. lookup_path whole (s # q) = lookup_path v q"
    and "last_ok (we_disclosures E ! i) (p @ [s])"
  shows "lands E p whole w w2"
proof (rule lands_follow [OF rec_landsD [OF assms(1,3)] walk_lookup_paths [OF assms(2)] assms(4,5)])
  show "json_wf (d_value (we_disclosures E ! i))"
    using assms(1,2) by (auto simp: rec_lands_def env_wf_def walk_lookup_eq_Inr)
qed

lemma walk_fields_lands:
  assumes "rec_lands E rec"
  shows "walk_fields rec es p out w = Inr (out', w') \<Longrightarrow> \<forall>(k, v) \<in> set es. json_wf v \<Longrightarrow>
    distinct (map fst es) \<Longrightarrow> \<forall>(k, v) \<in> set es. obj_get out k = None \<Longrightarrow>
    extends (JObj out) (JObj out') \<and> lands E p (JObj out') w w'"
proof (induction es arbitrary: out w)
  case (Cons e es)
  obtain k v where e: "e = (k, v)" by force
  from Cons.prems(1) [unfolded e] show ?case
  proof (rule walk_fields_ConsE)
    fix v' w1
    let ?out = "obj_insert k v' out"
    assume rec: "rec v (p @ [Key k]) w = Inr (v', w1)"
      and rest: "walk_fields rec es p ?out w1 = Inr (out', w')"
    from Cons.prems(2,4) e have k: "json_wf v" "obj_get out k = None" by auto
    from Cons.prems(3,4) e have "\<forall>(k', v) \<in> set es. obj_get ?out k' = None" by force
    with Cons.prems(2,3) e have IH: "extends (JObj ?out) (JObj out')" "lands E p (JObj out') w1 w'"
      using Cons.IH [OF rest] by auto
    have "lands E p (JObj ?out) w w1"
      using rec_landsD [OF assms rec k(1)] by (rule lands_below) simp
    from lands_trans [OF this IH(2,1)] extends_obj [OF k(2), of v'] IH(1) show ?thesis
      unfolding extends_def by blast
  qed
qed (simp add: lands_refl)

lemma walk_digests_lands:
  assumes "rec_lands E rec"
  shows "walk_digests E rec ds p out w = Inr (out', w') \<Longrightarrow>
    extends (JObj out) (JObj out') \<and> lands E p (JObj out') w w'"
proof (induction ds arbitrary: out w)
  case (Cons d ds)
  from Cons.prems show ?case
  proof (cases rule: walk_digests_ConsE)
    case (skip dg w1)
    from Cons.IH [OF skip(3)] lands_paths [OF _ walk_lookup_paths [OF skip(2)]] show ?thesis by blast
  next
    case (follow dg i w1 name v w2)
    let ?out = "obj_insert name v out"
    note IH = Cons.IH [OF follow(8)]
    have "lands E p (JObj ?out) w w2"
      by (rule rec_lands_follow [OF assms follow(2,7)]) (simp_all add: last_ok_def follow(3))
    from lands_trans [OF this conjunct2 [OF IH] conjunct1 [OF IH]]
      extends_obj [of out name v] follow(6) IH show ?thesis
      unfolding extends_def obj_contains_def by blast
  qed
qed (simp add: lands_refl)

lemma walk_array_lands:
  assumes "rec_lands E rec"
  shows "walk_array E rec items p out w = Inr (out', w') \<Longrightarrow> \<forall>x \<in> set items. json_wf x \<Longrightarrow>
    extends (JArr out) (JArr out') \<and> lands E p (JArr out') w w'"
proof (induction items arbitrary: out w)
  case (Cons item items)
  have grow: "extends (JArr out) (JArr out') \<and> lands E p (JArr out') w w'"
    if "lands E p (JArr (out @ [v])) w w2" "walk_array E rec items p (out @ [v]) w2 = Inr (out', w')" for v w2
  proof -
    have IH: "extends (JArr (out @ [v])) (JArr out')" "lands E p (JArr out') w2 w'"
      using Cons.IH [OF that(2)] Cons.prems(2) by auto
    from lands_trans [OF that(1) IH(2,1)] extends_arr [of out v] IH(1) show ?thesis
      unfolding extends_def by blast
  qed
  from Cons.prems(1) show ?case
  proof (cases rule: walk_array_ConsE)
    case (plain v w1)
    have "lands E (p @ [Index (length out)]) v w w1"
      by (rule rec_landsD [OF assms plain(2)]) (use Cons.prems(2) in simp)
    then have "lands E p (JArr (out @ [v])) w w1"
      by (rule lands_below) simp
    then show ?thesis by (rule grow [OF _ plain(3)])
  next
    case (skip dg w1)
    from Cons.IH [OF skip(3)] Cons.prems(2) lands_paths [OF _ walk_lookup_paths [OF skip(2)]]
    show ?thesis by auto
  next
    case (follow dg i w1 v w2)
    have "lands E p (JArr (out @ [v])) w w2"
      by (rule rec_lands_follow [OF assms follow(2,4)]) (simp_all add: last_ok_def follow(3))
    then show ?thesis by (rule grow [OF _ follow(5)])
  qed
qed (simp add: lands_refl)

lemma walk_object_lands:
  assumes "rec_lands E rec" "walk_object E rec ob p w = Inr (ob', w')" "json_wf (JObj ob)"
  shows "lands E p (JObj ob') w w'"
proof -
  let ?es = "filter (\<lambda>(k, _). k \<noteq> ''_sd'') ob"
  have "\<forall>(k, v) \<in> set ?es. json_wf v" using assms(3) by auto
  moreover have "distinct (map fst ?es)"
    using assms(3) obj_wf_distinct [of ob] by (simp add: distinct_map_filter)
  ultimately have fields: "lands E p (JObj out) w w1" if "walk_fields rec ?es p [] w = Inr (out, w1)" for out w1
    using walk_fields_lands [OF assms(1) that] by simp
  from assms(2) show ?thesis
  proof (cases rule: walk_object_InrE)
    case plain
    then show ?thesis using fields by blast
  next
    case (digests out w1 ds)
    from walk_digests_lands [OF assms(1) digests(4)] lands_trans [OF fields [OF digests(3)]]
    show ?thesis by blast
  qed
qed

lemma walk_lands: "env_wf E \<Longrightarrow> rec_lands E (walk fuel E)"
proof (induction fuel)
  case (Suc fuel)
  have "lands E p v' w w'" if "json_wf v" "walk (Suc fuel) E v p w = Inr (v', w')" for v p w v' w'
    using that(2)
  proof (cases rule: walk_Suc_InrE)
    case (obj ob ob')
    with walk_object_lands [OF Suc.IH [OF Suc.prems] obj(3)] that(1) show ?thesis by simp
  next
    case (arr xs xs')
    with walk_array_lands [OF Suc.IH [OF Suc.prems] arr(3)] that(1) show ?thesis by simp
  qed (simp add: lands_refl)
  with Suc.prems show ?case unfolding rec_lands_def by blast
qed (simp add: rec_lands_def)

lemma process_paths:
  assumes "process C payload ds alg = Inr r" "json_wf (JObj payload)" "\<forall>d \<in> set ds. json_wf (d_value d)"
  shows "length (pr_paths r) = length ds"
    and "i < length ds \<Longrightarrow> last_ok (ds ! i) (pr_paths r ! i)"
    and "i < length ds \<Longrightarrow> hd (pr_paths r ! i) \<noteq> Key ''_sd_alg'' \<Longrightarrow>
      lookup_path (JObj (pr_claims r)) (pr_paths r ! i) \<noteq> None"
proof -
  obtain by_digest claims w where index: "index_digests C alg 0 ds Map.empty = Inr by_digest"
    and walk: "walk_object \<lparr>we_disclosures = ds, we_by_digest = by_digest\<rparr>
       (walk (walk_fuel_for payload ds) \<lparr>we_disclosures = ds, we_by_digest = by_digest\<rparr>) payload []
       \<lparr>wk_seen = {}, wk_paths = replicate (length ds) None\<rparr> = Inr (claims, w)"
    and paths: "wk_paths w = map Some (pr_paths r)" and claims: "pr_claims r = obj_remove ''_sd_alg'' claims"
    using assms(1) by (rule process_InrE)
  let ?E = "\<lparr>we_disclosures = ds, we_by_digest = by_digest\<rparr>"
  have "env_wf ?E"
    using index_digests_nth [OF index] assms(3) by (auto simp: env_wf_def)
  note lands = walk_object_lands [OF walk_lands [OF this] walk assms(2)]
  show len: "length (pr_paths r) = length ds"
    using lands by (simp add: lands_def paths)
  assume i: "i < length ds"
  then have nth: "wk_paths w ! i = Some (pr_paths r ! i)" using len paths by simp
  from lands have all: "\<forall>i < length ds. wk_paths w ! i = None \<or>
      (\<exists>q. wk_paths w ! i = Some q \<and> lookup_path (JObj claims) q \<noteq> None \<and> last_ok (ds ! i) q)"
    by (simp add: lands_def)
  from all [rule_format, OF i]
  have ok: "lookup_path (JObj claims) (pr_paths r ! i) \<noteq> None" "last_ok (ds ! i) (pr_paths r ! i)"
    unfolding nth by auto
  from ok(2) show "last_ok (ds ! i) (pr_paths r ! i)" .
  assume "hd (pr_paths r ! i) \<noteq> Key ''_sd_alg''"
  with ok show "lookup_path (JObj (pr_claims r)) (pr_paths r ! i) \<noteq> None"
    unfolding claims
    by (cases "pr_paths r ! i"; cases "hd (pr_paths r ! i)") (auto simp: last_ok_def)
qed

section \<open>Properties\<close>

text \<open>C17: Disclosure processing always ends: with the fuel the model derives from the payload
  and the disclosures, the recursion of the walker, which expands a disclosure at most
  once, never runs out.\<close>
theorem process_ends_within_fuel:
  assumes "index_digests C alg 0 ds Map.empty = Inr by_digest"
  shows "walk_object \<lparr>we_disclosures = ds, we_by_digest = by_digest\<rparr>
      (walk (walk_fuel_for payload ds) \<lparr>we_disclosures = ds, we_by_digest = by_digest\<rparr>) payload []
      \<lparr>wk_seen = {}, wk_paths = replicate (length ds) None\<rparr> \<noteq> Inl None"
  by (rule process_walk_fuel [OF assms])

text \<open>C7: When processing succeeds every disclosure it was given is reached from the signed
  payload through a chain of digests: its own digest stands in an _sd array or an element
  placeholder of the payload or of another committed disclosure.\<close>
theorem disclosures_are_committed:
  assumes "process C payload ds alg = Inr r" and "d \<in> set ds"
  shows "committed C alg payload ds (d_digest C alg d)"
  by (rule process_committed [OF assms])

lemma processed_claims_clean:
  assumes "process C payload ds alg = Inr r"
  shows "json_clean (JObj (pr_claims r)) \<and> json_wf (JObj (pr_claims r))
    \<and> \<not> obj_contains (pr_claims r) ''_sd_alg''"
proof -
  have "\<not> obj_contains (pr_claims r) ''_sd_alg''"
    using assms by (rule process_InrE) simp
  with process_clean [OF assms] show ?thesis by blast
qed

lemma recorded_paths_lead_to_values:
  assumes "process C payload ds alg = Inr r"
    and "json_wf (JObj payload)" "\<forall>d \<in> set ds. json_wf (d_value d)"
    and "i < length ds"
  shows "length (pr_paths r) = length ds
    \<and> (case d_name (ds ! i) of Some n \<Rightarrow> last (pr_paths r ! i) = Key n
        | None \<Rightarrow> (\<exists>k. last (pr_paths r ! i) = Index k))
    \<and> (hd (pr_paths r ! i) = Key ''_sd_alg'' \<or>
        (\<exists>v. lookup_path (JObj (pr_claims r)) (pr_paths r ! i) = Some v))"
  using process_paths [OF assms(1-3)] assms(4) by (auto simp: last_ok_def)

section \<open>Concrete inputs\<close>

definition d_region :: disclosure where
  "d_region = disclosure_create toy_crypto ''s2'' (Some ''region'') (JStr ''TX'')"

definition d_named :: "string \<Rightarrow> disclosure" where
  "d_named name = \<lparr>d_encoded = ''d'', d_salt = ''s'', d_name = Some name, d_value = JNull\<rparr>"

definition payload_for :: "disclosure \<Rightarrow> object" where
  "payload_for d = [(''_sd'', JArr [JStr (d_digest toy_crypto Sha256 d), JStr ''decoy''])]"

lemma named_processed:
  assumes "name \<noteq> ''_sd''" "name \<noteq> ''...''" "d_digest toy_crypto Sha256 (d_named name) \<noteq> ''decoy''"
  shows "process toy_crypto (payload_for (d_named name)) [d_named name] Sha256 =
    Inr \<lparr>pr_claims = obj_remove ''_sd_alg'' [(name, JNull)], pr_paths = [[Key name]]\<rparr>"
  using assms
  by (simp add: process_def payload_for_def walk_fuel_for_def walk_object_def walk_lookup_def
    obj_contains_def d_named_def place_def)

lemma length_hex_encode: "length (hex_encode bs) = 2 * length bs"
  by (induction bs) (simp_all add: hex_encode_def Let_def)

lemma toy_digest_length: "length (d_digest toy_crypto alg d) \<ge> 64"
  by (cases alg) (simp_all add: d_digest_def sd_digest_def toy_crypto_def length_hex_encode)

lemma toy_digest_not_decoy: "d_digest toy_crypto alg d \<noteq> ''decoy''"
  using toy_digest_length [of alg d] by auto

lemmas name_processed = named_processed [of "''name''", simplified, OF toy_digest_not_decoy]

text \<open>
  A disclosed claim named \<open>_sd_alg\<close> at the top level passes the reserved-name check and is
  then removed with the hash name: its recorded path leads nowhere.
\<close>

lemma sd_alg_disclosure_lost:
  "process toy_crypto (payload_for (d_named ''_sd_alg'')) [d_named ''_sd_alg''] Sha256 =
    Inr \<lparr>pr_claims = [], pr_paths = [[Key ''_sd_alg'']]\<rparr>"
  by (simp add: named_processed toy_digest_not_decoy obj_remove_def)

theorem process_ends_within_fuel_witness:
  "walk_object \<lparr>we_disclosures = [d_region], we_by_digest = [d_digest toy_crypto Sha256 d_region \<mapsto> 0]\<rparr>
      (walk (walk_fuel_for [] [d_region]) \<lparr>we_disclosures = [d_region],
         we_by_digest = [d_digest toy_crypto Sha256 d_region \<mapsto> 0]\<rparr>) [] []
      \<lparr>wk_seen = {}, wk_paths = replicate (length [d_region]) None\<rparr> \<noteq> Inl None"
  by (rule process_ends_within_fuel [of toy_crypto Sha256]) simp

theorem disclosures_are_committed_witness:
  "committed toy_crypto Sha256 (payload_for (d_named ''name'')) [d_named ''name'']
     (d_digest toy_crypto Sha256 (d_named ''name''))"
  by (rule disclosures_are_committed [OF name_processed]) simp

end
