(* ===== verification/SdVerify.thy ===== *)
theory SdVerify
  imports SdPresentation SdProcessFacts
begin

text \<open>
  Verification of a presentation (crates/sdjwt/src/verify.rs): the shape check against the
  verifier's policy, the root, every link under the key of the element before it, and the
  final binding to the verifier's audience, nonce and clock. \<open>verify_chain\<close> is the only
  function that yields a \<open>verified_chain\<close>.
\<close>

section \<open>Policy and results\<close>

definition KB_JWT :: string where "KB_JWT = ''kb+jwt''"
definition KB_SD_JWT :: string where "KB_SD_JWT = ''kb+sd-jwt''"
definition KB_SD_JWT_KB :: string where "KB_SD_JWT_KB = ''kb-sd-jwt+kb''"
definition KB_SD_JWT_KB_DRAFT_00 :: string where "KB_SD_JWT_KB_DRAFT_00 = ''kb+sd-jwt+kb''"

datatype key_binding = NotRequired | KbJwt string string | TerminalLink string string

datatype root_form = Credential | DelegatePayload

record verify_options =
  vo_now :: i64
  vo_root_typ :: "string list"
  vo_root_form :: root_form
  vo_key_binding :: key_binding
  vo_leeway :: i64
  vo_max_age :: i64
  vo_max_future :: i64
  vo_require_exp :: bool
  vo_max_links :: nat

definition verify_options_new :: "i64 \<Rightarrow> string \<Rightarrow> key_binding \<Rightarrow> verify_options" where
  "verify_options_new now root_typ kb =
     \<lparr>vo_now = now, vo_root_typ = [root_typ], vo_root_form = Credential, vo_key_binding = kb,
      vo_leeway = 0, vo_max_age = 300, vo_max_future = 30, vo_require_exp = True, vo_max_links = 16\<rparr>"

datatype link_kind = RootLink | Delegation | Terminal

record verified_link =
  vl_position :: position
  vl_kind :: link_kind
  vl_header :: object
  vl_claims :: object
  vl_envelope :: object
  vl_cnf :: "sd_verifying_key option"
  vl_sd_alg :: sd_alg
  vl_sd_jwt :: string

record verified_key_binding =
  vkb_header :: object
  vkb_claims :: object

record verified_chain =
  vc_links :: "verified_link list"
  vc_key_binding :: "verified_key_binding option"
  vc_serialized :: string

definition vc_leaf :: "verified_chain \<Rightarrow> verified_link" where
  "vc_leaf c = last (vc_links c)"

definition vc_root :: "verified_chain \<Rightarrow> verified_link" where
  "vc_root c = vc_links c ! 0"

definition vc_delegations :: "verified_chain \<Rightarrow> verified_link list" where
  "vc_delegations c = tl (vc_links c)"

section \<open>Claims\<close>

definition numeric :: "object \<Rightarrow> string \<Rightarrow> error_kind + f64 option" where
  "numeric claims name =
     (case obj_get claims name of
        None \<Rightarrow> Inr None
      | Some (JNum n) \<Rightarrow> rbind (ok_or (number_as_f64 n) (InvalidClaim name)) (\<lambda>x. Inr (Some x))
      | Some _ \<Rightarrow> Inl (InvalidClaim name))"

definition single_string :: "object \<Rightarrow> string \<Rightarrow> error_kind + string" where
  "single_string claims name = ok_or (obj_str claims name) (InvalidClaim name)"

definition check_validity :: "object \<Rightarrow> verify_options \<Rightarrow> bool \<Rightarrow> error_kind + unit" where
  "check_validity claims opts require_exp =
     (let now = f64_of_int (vo_now opts); leeway = f64_of_int (vo_leeway opts) in
      rbind (numeric claims ''exp'') (\<lambda>exp.
      rbind (case exp of
               Some e \<Rightarrow> if now \<ge> e + leeway then Inl Expired else Inr ()
             | None \<Rightarrow> if require_exp then Inl MissingExp else Inr ()) (\<lambda>_.
      rbind (numeric claims ''nbf'') (\<lambda>nbf.
      case nbf of
        Some b \<Rightarrow> if now + leeway < b then Inl NotYetValid else Inr ()
      | None \<Rightarrow> Inr ()))))"

definition read_cnf :: "crypto \<Rightarrow> object \<Rightarrow> bool \<Rightarrow> error_kind + sd_verifying_key option" where
  "read_cnf C claims required =
     (case obj_get claims ''cnf'' of
        Some cnf \<Rightarrow> (if required then rbind (from_cnf C cnf) (\<lambda>k. Inr (Some k))
                     else Inr (ok (from_cnf C cnf)))
      | None \<Rightarrow> (if required then Inl MissingCnf else Inr None))"

definition check_transaction ::
  "f64 \<Rightarrow> string \<Rightarrow> string \<Rightarrow> string \<Rightarrow> string \<Rightarrow> verify_options \<Rightarrow> error_kind + unit" where
  "check_transaction iat aud nonce expected_aud expected_nonce opts =
     (if aud \<noteq> expected_aud then Inl AudienceMismatch
      else if nonce \<noteq> expected_nonce then Inl NonceMismatch
      else
        let now = f64_of_int (vo_now opts) in
        if iat < now - f64_of_int (vo_max_age opts) \<or> iat > now + f64_of_int (vo_max_future opts)
        then Inl IatOutOfWindow else Inr ())"

definition check_hash_binding :: "crypto \<Rightarrow> object \<Rightarrow> sd_jwt \<Rightarrow> sd_alg \<Rightarrow> error_kind + unit" where
  "check_hash_binding C payload prev alg =
     (case (obj_get payload ''sd_hash'', obj_get payload ''issuer_jwt_hash'') of
        (Some _, None) \<Rightarrow>
          rbind (single_string payload ''sd_hash'') (\<lambda>h.
          if h \<noteq> sd_digest C alg (sj_serialize prev) then Inl (BindingMismatch ''sd_hash'') else Inr ())
      | (None, Some _) \<Rightarrow>
          rbind (single_string payload ''issuer_jwt_hash'') (\<lambda>h.
          if h \<noteq> sd_digest C alg (sj_jwt prev) then Inl (BindingMismatch ''issuer_jwt_hash'') else Inr ())
      | _ \<Rightarrow> Inl AmbiguousBinding)"

definition check_raw_delegate_payload :: "object \<Rightarrow> error_kind + unit" where
  "check_raw_delegate_payload payload =
     rbind (case Option.bind (obj_get payload ''delegate_payload'') as_array of
              Some a \<Rightarrow> if a \<noteq> [] then Inr a
                else Inl (DelegatePayloadError ''missing or not a non-empty array'')
            | None \<Rightarrow> Inl (DelegatePayloadError ''missing or not a non-empty array'')) (\<lambda>raw.
     if length raw > 1 then
       try_each (\<lambda>item. rbind (element_digest item) (\<lambda>dg.
         if dg = None then
           Inl (DelegatePayloadError ''with several elements, each must be a disclosure digest'')
         else Inr ())) raw
     else Inr ())"

text \<open>Removes the single disclosed element; returns it and the rest of the envelope.\<close>

definition take_delegate_payload :: "object \<Rightarrow> error_kind + object \<times> object" where
  "take_delegate_payload envelope =
     rbind (case obj_get envelope ''delegate_payload'' of
              Some (JArr items) \<Rightarrow>
                (case items of
                   [JObj claims] \<Rightarrow> Inr claims
                 | [_] \<Rightarrow> Inl (DelegatePayloadError ''disclosed element is not an object'')
                 | _ \<Rightarrow> Inl (DelegatePayloadError ''exactly one element must be disclosed''))
            | _ \<Rightarrow> Inl (DelegatePayloadError ''missing or not a non-empty array'')) (\<lambda>claims.
     if obj_contains claims ''_sd_alg'' then Inl (ReservedName ''_sd_alg'')
     else Inr (claims, obj_remove ''delegate_payload'' envelope))"

section \<open>Elements\<close>

definition verify_root ::
  "crypto \<Rightarrow> sd_jwt \<Rightarrow> sd_verifying_key \<Rightarrow> verify_options \<Rightarrow> bool \<Rightarrow> error_kind + verified_link" where
  "verify_root C root_jwt issuer_key opts needs_cnf =
     (let j = sj_jws root_jwt in
      rbind (check_typ C j (vo_root_typ opts)) (\<lambda>_.
      rbind (sd_jws_verify C j issuer_key) (\<lambda>_.
      rbind (sd_alg_of_payload (jws_payload j)) (\<lambda>alg.
      rbind (process C (jws_payload j) (sj_disclosures root_jwt) alg) (\<lambda>pr.
      rbind (case vo_root_form opts of
               Credential \<Rightarrow> Inr (pr_claims pr, [])
             | DelegatePayload \<Rightarrow>
                 rbind (check_raw_delegate_payload (jws_payload j)) (\<lambda>_.
                 rbind (take_delegate_payload (pr_claims pr)) (\<lambda>(claims, envelope).
                 rbind (check_validity envelope opts False) (\<lambda>_. Inr (claims, envelope)))))
        (\<lambda>(claims, envelope).
      rbind (check_validity claims opts (vo_require_exp opts)) (\<lambda>_.
      rbind (read_cnf C claims needs_cnf) (\<lambda>cnf.
      Inr \<lparr>vl_position = Root, vl_kind = RootLink, vl_header = jws_header j, vl_claims = claims,
           vl_envelope = envelope, vl_cnf = cnf, vl_sd_alg = alg, vl_sd_jwt = sj_serialize root_jwt\<rparr>))))))))"

definition allowed_link_typ :: "key_binding \<Rightarrow> bool \<Rightarrow> string list" where
  "allowed_link_typ kb is_last =
     (case (kb, is_last) of
        (NotRequired, True) \<Rightarrow> [KB_SD_JWT, KB_SD_JWT_KB, KB_SD_JWT_KB_DRAFT_00]
      | (TerminalLink _ _, True) \<Rightarrow> [KB_SD_JWT]
      | _ \<Rightarrow> [KB_SD_JWT_KB, KB_SD_JWT_KB_DRAFT_00])"

definition link_cnf ::
  "crypto \<Rightarrow> link_kind \<Rightarrow> object \<Rightarrow> bool \<Rightarrow> error_kind + sd_verifying_key option" where
  "link_cnf C kind claims needs_cnf =
     (if kind = Terminal then
        (if obj_contains claims ''cnf'' then Inl UnexpectedCnf else Inr None)
      else if \<not> obj_contains claims ''cnf'' then Inl MissingCnf
      else read_cnf C claims needs_cnf)"

definition check_link_iat ::
  "f64 \<Rightarrow> string \<Rightarrow> string \<Rightarrow> bool \<Rightarrow> verify_options \<Rightarrow> error_kind + unit" where
  "check_link_iat iat aud nonce is_last opts =
     (case (vo_key_binding opts, is_last) of
        (TerminalLink audience expected, True) \<Rightarrow> check_transaction iat aud nonce audience expected opts
      | _ \<Rightarrow> if iat > f64_of_int (i64_wrap (vo_now opts + vo_max_future opts))
             then Inl IatOutOfWindow else Inr ())"

definition verify_sd_link ::
  "crypto \<Rightarrow> sd_jwt \<Rightarrow> verified_link \<Rightarrow> sd_jwt \<Rightarrow> bool \<Rightarrow> verify_options \<Rightarrow> bool \<Rightarrow> position
   \<Rightarrow> error_kind + verified_link" where
  "verify_sd_link C element prev prev_element is_last opts needs_cnf pos =
     (let j = sj_jws element; payload = jws_payload j in
      rbind (check_typ C j (allowed_link_typ (vo_key_binding opts) is_last)) (\<lambda>_.
      rbind (ok_or (vl_cnf prev) MissingCnf) (\<lambda>key.
      rbind (sd_jws_verify C j key) (\<lambda>_.
      rbind (check_hash_binding C payload prev_element (vl_sd_alg prev)) (\<lambda>_.
      rbind (rbind (numeric payload ''iat'') (\<lambda>iat. ok_or iat (InvalidClaim ''iat''))) (\<lambda>iat.
      rbind (single_string payload ''aud'') (\<lambda>aud.
      rbind (single_string payload ''nonce'') (\<lambda>nonce.
      rbind (check_raw_delegate_payload payload) (\<lambda>_.
      rbind (sd_alg_of_payload payload) (\<lambda>alg.
      rbind (process C payload (sj_disclosures element) alg) (\<lambda>pr.
      rbind (take_delegate_payload (pr_claims pr)) (\<lambda>(claims, envelope).
      let kind = (if is_ok (check_typ C j [KB_SD_JWT]) then Terminal else Delegation) in
      rbind (link_cnf C kind claims needs_cnf) (\<lambda>cnf.
      rbind (check_validity envelope opts False) (\<lambda>_.
      rbind (check_validity claims opts (vo_require_exp opts \<and> kind = Delegation)) (\<lambda>_.
      rbind (check_link_iat iat aud nonce is_last opts) (\<lambda>_.
      Inr \<lparr>vl_position = pos, vl_kind = kind, vl_header = jws_header j, vl_claims = claims,
           vl_envelope = envelope, vl_cnf = cnf, vl_sd_alg = alg,
           vl_sd_jwt = sj_serialize element\<rparr>))))))))))))))))"

definition verify_kb_jwt ::
  "crypto \<Rightarrow> jws \<Rightarrow> verified_link \<Rightarrow> sd_jwt \<Rightarrow> string \<Rightarrow> string \<Rightarrow> verify_options
   \<Rightarrow> error_kind + verified_key_binding" where
  "verify_kb_jwt C kb prev prev_element audience expected_nonce opts =
     rbind (check_typ C kb [KB_JWT]) (\<lambda>_.
     rbind (ok_or (vl_cnf prev) MissingCnf) (\<lambda>key.
     rbind (sd_jws_verify C kb key) (\<lambda>_.
     let claims = jws_payload kb in
     rbind (single_string claims ''sd_hash'') (\<lambda>sd_hash.
     if sd_hash \<noteq> sd_digest C (vl_sd_alg prev) (sj_serialize prev_element)
     then Inl (BindingMismatch ''sd_hash'')
     else
     rbind (rbind (numeric claims ''iat'') (\<lambda>iat. ok_or iat (InvalidClaim ''iat''))) (\<lambda>iat.
     rbind (single_string claims ''aud'') (\<lambda>aud.
     rbind (single_string claims ''nonce'') (\<lambda>nonce.
     rbind (check_transaction iat aud nonce audience expected_nonce opts) (\<lambda>_.
     rbind (check_validity claims opts False) (\<lambda>_.
     Inr \<lparr>vkb_header = jws_header kb, vkb_claims = claims\<rparr>)))))))))"

section \<open>The chain\<close>

text \<open>The shape of the presentation against the policy.\<close>

definition check_shape :: "verify_options \<Rightarrow> presentation \<Rightarrow> sd_error + unit" where
  "check_shape opts p =
     (case (vo_key_binding opts, pn_key_binding p) of
        (NotRequired, Some _) \<Rightarrow> Inl (at_position UnexpectedKeyBinding KeyBindingJwt)
      | (TerminalLink _ _, Some _) \<Rightarrow> Inl (at_position UnexpectedKeyBinding KeyBindingJwt)
      | (KbJwt _ _, None) \<Rightarrow> Inl (at_position MissingKeyBinding KeyBindingJwt)
      | (TerminalLink _ _, None) \<Rightarrow>
          (if length (pn_links p) = 0 then Inl (at_position MissingKeyBinding Root) else Inr ())
      | _ \<Rightarrow> Inr ())"

definition needs_cnf :: "verify_options \<Rightarrow> nat \<Rightarrow> nat \<Rightarrow> bool" where
  "needs_cnf opts n index \<longleftrightarrow>
     index < n \<or> (case vo_key_binding opts of KbJwt _ _ \<Rightarrow> True | _ \<Rightarrow> False)"

text \<open>The loop over the links: \<open>i\<close> counts them, \<open>prev\<close> is the element before.\<close>

fun verify_sd_links ::
  "crypto \<Rightarrow> verify_options \<Rightarrow> nat \<Rightarrow> nat \<Rightarrow> verified_link \<Rightarrow> sd_jwt \<Rightarrow> sd_jwt list
   \<Rightarrow> sd_error + verified_link list" where
  "verify_sd_links C opts n i prev prev_element [] = Inr []"
| "verify_sd_links C opts n i prev prev_element (element # rest) =
     rbind (map_err (\<lambda>k. at_position k (Link (i + 1)))
       (verify_sd_link C element prev prev_element (i + 1 = n) opts (needs_cnf opts n (i + 1)) (Link (i + 1))))
       (\<lambda>link.
     rbind (verify_sd_links C opts n (i + 1) link element rest) (\<lambda>links. Inr (link # links)))"

definition verify_chain ::
  "crypto \<Rightarrow> presentation \<Rightarrow> sd_verifying_key \<Rightarrow> verify_options \<Rightarrow> sd_error + verified_chain" where
  "verify_chain C p issuer_key opts =
     (let n = length (pn_links p) in
      if n > vo_max_links opts then Inl (error_from (Malformed ''more links than max_links''))
      else
        rbind (check_shape opts p) (\<lambda>_.
        rbind (map_err (\<lambda>k. at_position k Root)
                (verify_root C (pn_root p) issuer_key opts (needs_cnf opts n 0))) (\<lambda>root_link.
        rbind (verify_sd_links C opts n 0 root_link (pn_root p) (pn_links p)) (\<lambda>links.
        rbind (case (vo_key_binding opts, pn_key_binding p) of
                 (KbJwt audience nonce, Some kb) \<Rightarrow>
                   rbind (map_err (\<lambda>k. at_position k KeyBindingJwt)
                     (verify_kb_jwt C kb (last (root_link # links)) (pn_last p) audience nonce opts))
                     (\<lambda>v. Inr (Some v))
               | _ \<Rightarrow> Inr None) (\<lambda>kb.
        Inr \<lparr>vc_links = root_link # links, vc_key_binding = kb,
             vc_serialized = presentation_serialize p\<rparr>)))))"

text \<open>\<open>Unverified::<Presentation>::parse(s)?.verify(key, options)\<close>.\<close>

definition parse_and_verify ::
  "crypto \<Rightarrow> string \<Rightarrow> sd_verifying_key \<Rightarrow> verify_options \<Rightarrow> sd_error + verified_chain" where
  "parse_and_verify C input issuer_key opts =
     rbind (map_err error_from (presentation_parse C input)) (\<lambda>p. verify_chain C p issuer_key opts)"

end
