(* ===== verification/AuthMandate.thy ===== *)
theory AuthMandate
  imports AuthConstraint SdVerify
begin

text \<open>
  Mandate content (crates/authority/src/mandate.rs and context.rs): the open mandates of a
  chain with their constraints and pre-set claims, the closed mandate of each family, the
  verifier's own facts about the transaction, and the binding of a closed mandate to it.
\<close>

section \<open>Families\<close>

fun open_vct :: "family \<Rightarrow> string" where
  "open_vct Authority = AUTHORITY_OPEN"
| "open_vct Checkout = CHECKOUT_OPEN"
| "open_vct Payment = PAYMENT_OPEN"

fun closed_vct :: "family \<Rightarrow> string" where
  "closed_vct Authority = ACTION"
| "closed_vct Checkout = CHECKOUT"
| "closed_vct Payment = PAYMENT"

definition all_families :: "family list" where
  "all_families = [Authority, Checkout, Payment]"

definition family_from_open :: "string \<Rightarrow> family option" where
  "family_from_open vct = find (\<lambda>f. open_vct f = vct) all_families"

definition family_from_closed :: "string \<Rightarrow> family option" where
  "family_from_closed vct = find (\<lambda>f. closed_vct f = vct) all_families"

datatype mandate_error =
    MissingType
  | UnknownType string
  | NotOpen string
  | NotClosed string
  | ConstraintError nat constraint_error
  | NotApplicable nat string string
  | SchemaError schema_error

definition mandate_vct :: "object \<Rightarrow> mandate_error + string" where
  "mandate_vct claims = ok_or (obj_str claims ''vct'') MissingType"

section \<open>Open mandates\<close>

definition STRUCTURAL :: "string list" where
  "STRUCTURAL = [''vct'', ''constraints'', ''cnf'', ''iat'', ''exp'', ''nbf'', ''status'', ''iss'', ''sub'',
     ''aud'', ''jti'', ''nonce'', ''risk_data'', AGENT, NOTE]"

record open_mandate =
  om_family :: family
  om_constraints :: "constraint list"
  om_presets :: object
  om_max_depth :: u32
  om_ledger_key :: string

text \<open>The loop over the raw constraints: parse, then check the family; the first error wins.\<close>

fun read_constraints :: "chrono \<Rightarrow> family \<Rightarrow> nat \<Rightarrow> json list \<Rightarrow> mandate_error + constraint list" where
  "read_constraints K family index [] = Inr []"
| "read_constraints K family index (item # items) =
     rbind (map_err (ConstraintError index) (constraint_parse K item)) (\<lambda>c.
     if (case constraint_family c of Some f \<Rightarrow> f \<noteq> family | None \<Rightarrow> False)
     then Inl (NotApplicable index (constraint_type_name c) (open_vct family))
     else rbind (read_constraints K family (index + 1) items) (\<lambda>cs. Inr (c # cs)))"

definition has_type :: "constraint list \<Rightarrow> string \<Rightarrow> bool" where
  "has_type cs t \<longleftrightarrow> list_ex (\<lambda>c. constraint_type_name c = t) cs"

definition depths :: "constraint list \<Rightarrow> u32 list" where
  "depths cs = concat (map (\<lambda>c. case c of C_Delegation d \<Rightarrow> [d] | _ \<Rightarrow> []) cs)"

definition smallest_depth :: "constraint list \<Rightarrow> u32" where
  "smallest_depth cs = (case depths cs of [] \<Rightarrow> 0 | d # ds \<Rightarrow> foldl min d ds)"

definition open_parse :: "chrono \<Rightarrow> object \<Rightarrow> string \<Rightarrow> mandate_error + open_mandate" where
  "open_parse K claims ledger_key =
     rbind (mandate_vct claims) (\<lambda>vct.
     rbind (case family_from_open vct of
              Some f \<Rightarrow> Inr f
            | None \<Rightarrow> Inl (case family_from_closed vct of
                  Some _ \<Rightarrow> NotOpen vct | None \<Rightarrow> UnknownType vct)) (\<lambda>family.
     rbind (case obj_get claims ''constraints'' of
              None \<Rightarrow> Inr []
            | Some (JArr items) \<Rightarrow> Inr items
            | Some _ \<Rightarrow> Inl (SchemaError
                (schema_error_new (open_vct family) [Lit ''constraints must be an array'']))) (\<lambda>raw.
     rbind (read_constraints K family 0 raw) (\<lambda>constraints.
     if family = Authority \<and> \<not> has_type constraints ACTIONS then
       Inl (SchemaError (schema_error_new (open_vct family)
         [Lit ''needs an '', Lit ACTIONS, Lit '' constraint'']))
     else if has_type constraints AGENT_RECURRENCE
         \<and> \<not> (has_type constraints AMOUNT_RANGE \<and> has_type constraints BUDGET) then
       Inl (SchemaError (schema_error_new (open_vct family)
         [Lit ''payment.agent_recurrence requires payment.amount_range and payment.budget'']))
     else
       Inr \<lparr>om_family = family, om_constraints = constraints,
            om_presets = filter (\<lambda>(k, v). k \<notin> set STRUCTURAL) claims,
            om_max_depth = smallest_depth constraints, om_ledger_key = ledger_key\<rparr>))))"

section \<open>Closed mandates\<close>

record action =
  act_action :: string
  act_resource :: "string option"
  act_amount :: "amount_v1 option"
  act_counterparty :: "string option"
  act_data_categories :: "string list option"

definition action_parse :: "json \<Rightarrow> schema_error + action" where
  "action_parse v =
     rbind (fields_new v ACTION) (\<lambda>f.
     let f = fl_allow [''vct'', ''iat'', ''exp'', ''nbf'', ''jti'', ''status'', NOTE, AGENT] f in
     rbind (fl_string ''action'' f) (\<lambda>(name, f).
     rbind (fl_opt_string ''resource'' f) (\<lambda>(resource, f).
     let (amount_member, f) = fl_opt ''amount'' f in
     rbind (opt_read (\<lambda>v. schema_amount v ''amount'') amount_member) (\<lambda>amount.
     rbind (fl_opt_string ''counterparty'' f) (\<lambda>(counterparty, f).
     rbind (fl_opt_strings ''data_categories'' f) (\<lambda>(categories, f).
     rbind (fl_finish f) (\<lambda>_.
     Inr \<lparr>act_action = name, act_resource = resource, act_amount = amount,
          act_counterparty = counterparty, act_data_categories = categories\<rparr>)))))))"

record checkout_mandate =
  cm_checkout_jwt :: "string option"
  cm_checkout_hash :: string

definition checkout_mandate_parse :: "json \<Rightarrow> schema_error + checkout_mandate" where
  "checkout_mandate_parse v =
     rbind (fields_new v CHECKOUT) (\<lambda>f.
     rbind (fl_opt_string ''checkout_jwt'' f) (\<lambda>(jwt, f).
     rbind (fl_string ''checkout_hash'' f) (\<lambda>(h, f).
     Inr \<lparr>cm_checkout_jwt = jwt, cm_checkout_hash = h\<rparr>)))"

record payment_mandate =
  pm_transaction_id :: string
  pm_payee :: merchant
  pm_pisp :: "pisp option"
  pm_payment_amount :: amount_v1
  pm_payment_instrument :: payment_instrument
  pm_execution_date :: "string option"

definition payment_mandate_parse :: "json \<Rightarrow> schema_error + payment_mandate" where
  "payment_mandate_parse v =
     rbind (fields_new v PAYMENT) (\<lambda>f.
     rbind (fl_string ''transaction_id'' f) (\<lambda>(tid, f).
     rbind (fl_req ''payee'' f) (\<lambda>(payee_member, f).
     rbind (merchant_parse payee_member) (\<lambda>payee.
     let (pisp_member, f) = fl_opt ''pisp'' f in
     rbind (opt_read pisp_parse pisp_member) (\<lambda>pisp.
     rbind (fl_req ''payment_amount'' f) (\<lambda>(amount_member, f).
     rbind (schema_amount amount_member ''payment_amount'') (\<lambda>amount.
     rbind (fl_req ''payment_instrument'' f) (\<lambda>(instrument_member, f).
     rbind (payment_instrument_parse instrument_member) (\<lambda>instrument.
     rbind (fl_opt_string ''execution_date'' f) (\<lambda>(date, f).
     Inr \<lparr>pm_transaction_id = tid, pm_payee = payee, pm_pisp = pisp, pm_payment_amount = amount,
          pm_payment_instrument = instrument, pm_execution_date = date\<rparr>))))))))))"

datatype closed_content =
    ClosedAction action
  | ClosedCheckout checkout_mandate
  | ClosedPayment payment_mandate

record closed_mandate =
  cl_content :: closed_content
  cl_claims :: object

definition closed_family :: "closed_mandate \<Rightarrow> family" where
  "closed_family m = (case cl_content m of ClosedAction _ \<Rightarrow> Authority
     | ClosedCheckout _ \<Rightarrow> Checkout | ClosedPayment _ \<Rightarrow> Payment)"

definition closed_parse :: "object \<Rightarrow> mandate_error + closed_mandate" where
  "closed_parse claims =
     rbind (mandate_vct claims) (\<lambda>vct.
     rbind (case family_from_closed vct of
              Some f \<Rightarrow> Inr f
            | None \<Rightarrow> Inl (case family_from_open vct of
                  Some _ \<Rightarrow> NotClosed vct | None \<Rightarrow> UnknownType vct)) (\<lambda>family.
     if obj_contains claims ''constraints'' then
       Inl (SchemaError (schema_error_new vct [Lit ''a closed mandate carries no constraints'']))
     else
       rbind (map_err SchemaError (case family of
            Authority \<Rightarrow> rbind (action_parse (JObj claims)) (\<lambda>a. Inr (ClosedAction a))
          | Checkout \<Rightarrow> rbind (checkout_mandate_parse (JObj claims)) (\<lambda>c. Inr (ClosedCheckout c))
          | Payment \<Rightarrow> rbind (payment_mandate_parse (JObj claims)) (\<lambda>p. Inr (ClosedPayment p))))
         (\<lambda>content. Inr \<lparr>cl_content = content, cl_claims = claims\<rparr>)))"

section \<open>The verifier's facts\<close>

datatype nonce_mode = Challenge string | AgentGenerated

record transaction_context =
  tx_nonce :: nonce_mode
  tx_checkout_jwt :: "string option"
  tx_merchant_key :: "sd_verifying_key option"
  tx_expected_checkout_hash :: "string option"
  tx_expected_transaction_id :: "string option"
  tx_open_checkout_hash :: "string option"

definition transaction_context_new :: "nonce_mode \<Rightarrow> transaction_context" where
  "transaction_context_new n = \<lparr>tx_nonce = n, tx_checkout_jwt = None, tx_merchant_key = None,
     tx_expected_checkout_hash = None, tx_expected_transaction_id = None, tx_open_checkout_hash = None\<rparr>"

record usage =
  us_total_minor :: u64
  us_uses :: u64
  us_last_use :: "i64 option"

text \<open>\<open>UsageLedger\<close> is a trait the embedding program implements: a function from keys.\<close>

type_synonym ledger = "string \<Rightarrow> message + usage"

record checkout =
  ck_merchant :: "merchant option"
  ck_line_items :: "(string \<times> u64) list"

record eval_env =
  ev_now :: i64
  ev_tx :: transaction_context
  ev_ledger :: "ledger option"
  ev_checkout :: "checkout option"

section \<open>Checkouts\<close>

text \<open>Adds a quantity to the entry of the item, or appends one; nothing on overflow.\<close>

fun add_line_item :: "string \<Rightarrow> u64 \<Rightarrow> (string \<times> u64) list \<Rightarrow> (string \<times> u64) list option" where
  "add_line_item sku quantity [] = Some [(sku, quantity)]"
| "add_line_item sku quantity ((s, q) # items) =
     (if s = sku then map_option (\<lambda>q'. (s, q') # items) (u64_checked_add q quantity)
      else map_option (\<lambda>r. (s, q) # r) (add_line_item sku quantity items))"

definition read_line_item :: "(string \<times> u64) list \<Rightarrow> json \<Rightarrow> schema_error + (string \<times> u64) list" where
  "read_line_item line_items item =
     rbind (fields_new item ''line item'') (\<lambda>li.
     rbind (fl_req ''item'' li) (\<lambda>(item_member, li).
     rbind (fields_new item_member ''item'') (\<lambda>g.
     rbind (fl_string ''id'' g) (\<lambda>(sku, g).
     rbind (fl_uint ''quantity'' li) (\<lambda>(quantity, li).
     if quantity = 0 then Inl (fl_error li [Lit ''quantity must be at least 1''])
     else ok_or (add_line_item sku quantity line_items) (fl_error li [Lit ''quantity overflow'']))))))"

definition checkout_parse :: "json \<Rightarrow> schema_error + checkout" where
  "checkout_parse v =
     rbind (fields_new v ''checkout'') (\<lambda>f.
     let (merchant_member, f) = fl_opt ''merchant'' f in
     rbind (opt_read merchant_parse merchant_member) (\<lambda>m.
     rbind (fl_req ''line_items'' f) (\<lambda>(items_member, f).
     rbind (ok_or (as_array items_member) (fl_error f [Lit ''line_items must be an array''])) (\<lambda>items.
     rbind (try_fold read_line_item [] items) (\<lambda>line_items.
     Inr \<lparr>ck_merchant = m, ck_line_items = line_items\<rparr>)))))"

definition decode_payload :: "crypto \<Rightarrow> string \<Rightarrow> json option" where
  "decode_payload C jwt =
     (case split_on CHR ''.'' jwt of
        [_, payload, _] \<Rightarrow> Option.bind (ok (b64_decode C payload)) (\<lambda>bs. ok (json_read C bs))
      | _ \<Rightarrow> None)"

definition schema_error_text :: "schema_error \<Rightarrow> message" where
  "schema_error_text e = Lit (se_context e) # Lit '': '' # se_message e"

section \<open>Binding\<close>

text \<open>The known \<open>checkout_jwt\<close>: disclosed, or the verifier's own, and not two different ones.\<close>

definition known_checkout_jwt :: "checkout_mandate \<Rightarrow> transaction_context \<Rightarrow> failure + string" where
  "known_checkout_jwt m tx =
     (case (cm_checkout_jwt m, tx_checkout_jwt tx) of
        (Some disclosed, Some own) \<Rightarrow>
          (if disclosed \<noteq> own
           then Inl (Violated [Lit ''the disclosed checkout_jwt is not the verifier's''])
           else Inr disclosed)
      | (Some jwt, None) \<Rightarrow> Inr jwt
      | (None, Some jwt) \<Rightarrow> Inr jwt
      | (None, None) \<Rightarrow> Inl (Unresolved
          [Lit ''checkout_jwt is neither disclosed nor known to the verifier, so checkout_hash cannot be checked'']))"

definition checkout_bind ::
  "crypto \<Rightarrow> checkout_mandate \<Rightarrow> sd_alg \<Rightarrow> transaction_context \<Rightarrow> failure + checkout option" where
  "checkout_bind C m alg tx =
     rbind (known_checkout_jwt m tx) (\<lambda>jwt.
     if sd_digest C alg jwt \<noteq> cm_checkout_hash m then
       Inl (Violated [Lit ''checkout_hash does not match checkout_jwt''])
     else if (case tx_expected_checkout_hash tx of Some h \<Rightarrow> h \<noteq> cm_checkout_hash m | None \<Rightarrow> False) then
       Inl (Violated [Lit ''checkout_hash is not the checkout the verifier expects''])
     else
       rbind (if tx_checkout_jwt tx \<noteq> None then
                rbind (ok_or (decode_payload C jwt) (Violated [Lit ''checkout_jwt is not a JWT'']))
                  (\<lambda>v. Inr (Some v))
              else (case tx_merchant_key tx of
                  Some key \<Rightarrow>
                    rbind (map_err (\<lambda>e. Violated (Lit ''checkout_jwt: '' # sd_error_text e))
                        (verify_jwt C jwt key [''JWT'']))
                      (\<lambda>v. Inr (Some (JObj (vj_claims v))))
                | None \<Rightarrow> Inr None)) (\<lambda>payload.
       case payload of
         None \<Rightarrow> Inr None
       | Some v \<Rightarrow>
           map_err (\<lambda>e. Violated (schema_error_text e))
             (rbind (checkout_parse v) (\<lambda>c. Inr (Some c)))))"

definition payment_bind :: "payment_mandate \<Rightarrow> transaction_context \<Rightarrow> failure + unit" where
  "payment_bind p tx =
     (case tx_expected_transaction_id tx of
        None \<Rightarrow> Inl (Unresolved
          [Lit ''the verifier must supply the transaction_id (checkout hash) it settles''])
      | Some t \<Rightarrow> (if t = pm_transaction_id p then Inr ()
          else Inl (Violated [Lit ''transaction_id is not the checkout being paid''])))"

section \<open>What a parsed open mandate guarantees\<close>

lemma family_from_open_Some: "family_from_open vct = Some f \<Longrightarrow> open_vct f = vct"
  by (auto simp: family_from_open_def all_families_def split: if_splits)

lemma family_from_closed_Some: "family_from_closed vct = Some f \<Longrightarrow> closed_vct f = vct"
  by (auto simp: family_from_closed_def all_families_def split: if_splits)

lemma read_constraints_family:
  "read_constraints K family i items = Inr cs \<Longrightarrow> c \<in> set cs
    \<Longrightarrow> constraint_family c = None \<or> constraint_family c = Some family"
  by (induction items arbitrary: i cs) (auto split: if_splits option.splits)

lemma foldl_min_le: "foldl min (d :: u32) ds \<le> d \<and> (\<forall>x \<in> set ds. foldl min d ds \<le> x)"
  by (induction ds arbitrary: d) (force simp: min_le_iff_disj)+

lemma foldl_min_mem: "foldl min (d :: u32) ds \<in> set (d # ds)"
proof (induction ds arbitrary: d)
  case (Cons x ds)
  have "min d x \<in> {d, x}" by (simp add: min_def)
  with Cons.IH [of "min d x"] show ?case by auto
qed simp

text \<open>The delegation depth: the least one granted, and zero where none is.\<close>

definition least_depth :: "constraint list \<Rightarrow> u32 \<Rightarrow> bool" where
  "least_depth cs d \<longleftrightarrow>
     (if \<exists>d'. C_Delegation d' \<in> set cs
      then C_Delegation d \<in> set cs \<and> (\<forall>d'. C_Delegation d' \<in> set cs \<longrightarrow> d \<le> d') else d = 0)"

lemma set_depths: "d \<in> set (depths cs) \<longleftrightarrow> C_Delegation d \<in> set cs"
  by (induction cs) (auto simp: depths_def split: constraint.splits)

lemma smallest_depth_least: "least_depth cs (smallest_depth cs)"
proof (cases "depths cs")
  case Nil
  then have "\<not> (\<exists>d'. C_Delegation d' \<in> set cs)" by (simp add: set_depths [symmetric])
  with Nil show ?thesis by (simp add: least_depth_def smallest_depth_def)
next
  case (Cons d ds)
  then have "smallest_depth cs \<in> set (depths cs)" "\<forall>x \<in> set (depths cs). smallest_depth cs \<le> x"
    using foldl_min_mem [of d ds] foldl_min_le [of d ds] by (simp_all add: smallest_depth_def)
  then show ?thesis unfolding least_depth_def set_depths [symmetric] by auto
qed

text \<open>The elements of the claim \<open>constraints\<close>; a mandate without the claim has none.\<close>

definition constraint_items :: "object \<Rightarrow> json list \<Rightarrow> bool" where
  "constraint_items claims items \<longleftrightarrow>
     (obj_get claims ''constraints'' = Some (JArr items) \<or> obj_get claims ''constraints'' = None \<and> items = [])"

lemma obj_get_filter_keys:
  "obj_get (filter (\<lambda>(k, v). k \<notin> S) ob) k = (if k \<in> S then None else obj_get ob k)"
  by (induction ob) (auto split: if_splits)

lemma family_from_open_vct: "family_from_open vct = Some f \<longleftrightarrow> open_vct f = vct"
  by (cases f) (auto simp: family_from_open_def all_families_def AUTHORITY_OPEN_def CHECKOUT_OPEN_def PAYMENT_OPEN_def
      aap_def AAP_NAMESPACE_def split: if_splits)

lemma read_constraints_Inr:
  "read_constraints K family i items = Inr cs \<longleftrightarrow>
     list_all2 (\<lambda>item c. constraint_parse K item = Inr c) items cs
     \<and> (\<forall>c \<in> set cs. constraint_family c \<in> {None, Some family})"
proof (induction items arbitrary: i cs)
  case (Cons item items)
  show ?case
    by (cases cs; cases "constraint_parse K item")
      (auto simp: Cons.IH split: option.splits)
qed auto

lemma open_parse_Inr:
  "open_parse K claims key = Inr m \<longleftrightarrow>
     (\<exists>items. obj_str claims ''vct'' = Some (open_vct (om_family m)) \<and> constraint_items claims items
      \<and> read_constraints K (om_family m) 0 items = Inr (om_constraints m)
      \<and> (om_family m = Authority \<longrightarrow> has_type (om_constraints m) ACTIONS)
      \<and> (has_type (om_constraints m) AGENT_RECURRENCE \<longrightarrow>
           has_type (om_constraints m) AMOUNT_RANGE \<and> has_type (om_constraints m) BUDGET)
      \<and> om_presets m = filter (\<lambda>(k, v). k \<notin> set STRUCTURAL) claims
      \<and> om_max_depth m = smallest_depth (om_constraints m) \<and> om_ledger_key m = key)"
proof -
  have vct: "mandate_vct claims = Inr vct \<longleftrightarrow> obj_str claims ''vct'' = Some vct" for vct
    by (auto simp: mandate_vct_def split: option.splits)
  have items: "(case obj_get claims ''constraints'' of None \<Rightarrow> Inr [] | Some (JArr items) \<Rightarrow> Inr items
      | Some _ \<Rightarrow> Inl e) = Inr items \<longleftrightarrow> constraint_items claims items" for e :: mandate_error and items
    by (auto simp: constraint_items_def split: option.splits json.splits)
  have fam: "(case family_from_open v of Some f \<Rightarrow> Inr f | None \<Rightarrow> Inl (e :: mandate_error)) = Inr f \<longleftrightarrow> open_vct f = v"
    for v e f by (auto simp: family_from_open_vct [symmetric] split: option.splits)
  show ?thesis
    unfolding open_parse_def rbind_eq_Inr vct items fam by (cases m) (auto simp: if_splits)
qed

lemma has_type_iff: "has_type cs t \<longleftrightarrow> t \<in> constraint_type_name ` set cs"
  by (auto simp: has_type_def list_ex_iff)

lemma least_depth_smallest: "least_depth cs d \<longleftrightarrow> d = smallest_depth cs"
  using smallest_depth_least [of cs] by (auto simp: least_depth_def split: if_splits intro: antisym)

text \<open>C40: OpenMandate::parse succeeds with exactly this result: the family of the vct, the
  constraints read from the items of the constraints claim in order, none dropped and each
  of that family or of none, an action allow-list for an AAP authority and an amount range
  and a budget for a recurring payment, as presets exactly the non-structural claims, as
  depth the least of the delegation constraints, zero without one, and the given ledger
  key; and it fails in every other case.\<close>
theorem parsed_open_mandate:
  "open_parse K claims key = Inr m \<longleftrightarrow>
     (\<exists>items. obj_str claims ''vct'' = Some (open_vct (om_family m)) \<and> constraint_items claims items
      \<and> list_all2 (\<lambda>item c. constraint_parse K item = Inr c) items (om_constraints m)
      \<and> (\<forall>c \<in> set (om_constraints m). constraint_family c \<in> {None, Some (om_family m)})
      \<and> (om_family m = Authority \<longrightarrow> ACTIONS \<in> constraint_type_name ` set (om_constraints m))
      \<and> (AGENT_RECURRENCE \<in> constraint_type_name ` set (om_constraints m) \<longrightarrow>
           {AMOUNT_RANGE, BUDGET} \<subseteq> constraint_type_name ` set (om_constraints m))
      \<and> om_presets m = filter (\<lambda>(k, v). k \<notin> set STRUCTURAL) claims
      \<and> least_depth (om_constraints m) (om_max_depth m) \<and> om_ledger_key m = key)"
  unfolding open_parse_Inr read_constraints_Inr has_type_iff least_depth_smallest by auto

section \<open>A concrete mandate\<close>

text \<open>An authority to pay up to 100 cents, which may be delegated once more, and its parsed form.\<close>

definition toy_raw :: "u64 \<Rightarrow> u64 \<Rightarrow> json list" where
  "toy_raw depth limit =
     [JObj [(''allowed'', JArr [JStr ''pay'']), (''type'', JStr ACTIONS)],
      JObj [(''currency'', JStr ''EUR''), (''max'', JNum (PosInt limit)), (''type'', JStr AMOUNT)],
      JObj [(''max_depth'', JNum (PosInt depth)), (''type'', JStr DELEGATION)]]"

definition toy_open_claims :: "u64 \<Rightarrow> u64 \<Rightarrow> object" where
  "toy_open_claims depth limit =
     [(''constraints'', JArr (toy_raw depth limit)),
      (''resource'', JStr ''account''), (''vct'', JStr AUTHORITY_OPEN)]"

definition toy_open :: "u32 \<Rightarrow> u64 \<Rightarrow> string \<Rightarrow> open_mandate" where
  "toy_open depth limit key = \<lparr>om_family = Authority,
     om_constraints = [C_Actions [''pay''], C_Amount \<lparr>ac_max = limit, ac_currency = ''EUR''\<rparr>, C_Delegation depth],
     om_presets = [(''resource'', JStr ''account'')], om_max_depth = depth, om_ledger_key = key\<rparr>"

lemma toy_constraints:
  "constraint_parse K (JObj [(''allowed'', JArr [JStr ''pay'']), (''type'', JStr ACTIONS)]) = Inr (C_Actions [''pay''])"
  "constraint_parse K (JObj [(''currency'', JStr ''EUR''), (''max'', JNum (PosInt limit)), (''type'', JStr AMOUNT)])
    = Inr (C_Amount \<lparr>ac_max = limit, ac_currency = ''EUR''\<rparr>)"
  "unat depth < 2 ^ 32 \<Longrightarrow>
   constraint_parse K (JObj [(''max_depth'', JNum (PosInt depth)), (''type'', JStr DELEGATION)])
    = Inr (C_Delegation (ucast depth))"
  by (simp_all add: constraint_parse_def constraint_reader_def json_get_def fields_new_def fl_allow_def read_as_def
      fl_readers fl_req_as_def fl_req_def fl_opt_def fl_finish_def strings_value_def string_value_def
      as_array_def as_str_def as_object_def obj_keys_def amount_cap_parse_def fl_currency_def uint_value_def
      number_as_u64_def currency_parse_def is_ascii_uppercase_def delegation_parse_def aap_names ap2_names)

lemma toy_read_constraints:
  "unat depth < 2 ^ 32 \<Longrightarrow>
   read_constraints K Authority i (toy_raw depth limit)
     = Inr [C_Actions [''pay''], C_Amount \<lparr>ac_max = limit, ac_currency = ''EUR''\<rparr>, C_Delegation (ucast depth)]"
  by (simp add: toy_raw_def toy_constraints)

lemma toy_open_parse:
  "open_parse K (toy_open_claims 1 100) key = Inr (toy_open 1 100 key)"
  "open_parse K (toy_open_claims 0 60) key = Inr (toy_open 0 60 key)"
  by (simp_all add: open_parse_def toy_open_claims_def toy_open_def toy_read_constraints mandate_vct_def obj_str_def
      as_str_def family_from_open_def all_families_def has_type_def smallest_depth_def depths_def
      STRUCTURAL_def AUTHORITY_OPEN_def CHECKOUT_OPEN_def PAYMENT_OPEN_def aap_def AAP_NAMESPACE_def
      AGENT_def NOTE_def AGENT_RECURRENCE_def ACTIONS_def AMOUNT_def DELEGATION_def)

text \<open>The closed mandate of a payment under it.\<close>

definition toy_closed_claims :: "u64 \<Rightarrow> object" where
  "toy_closed_claims amount =
     [(''action'', JStr ''pay''),
      (''amount'', JObj [(''amount'', JNum (PosInt amount)), (''currency'', JStr ''EUR'')]),
      (''resource'', JStr ''account''), (''vct'', JStr ACTION)]"

definition toy_payment :: "u64 \<Rightarrow> closed_mandate" where
  "toy_payment amount = \<lparr>cl_content = ClosedAction \<lparr>act_action = ''pay'', act_resource = Some ''account'',
       act_amount = Some \<lparr>am_minor = amount, am_currency = ''EUR''\<rparr>, act_counterparty = None,
       act_data_categories = None\<rparr>, cl_claims = toy_closed_claims amount\<rparr>"

lemma toy_closed_parse: "closed_parse (toy_closed_claims amount) = Inr (toy_payment amount)"
  by (simp add: closed_parse_def toy_closed_claims_def toy_payment_def mandate_vct_def obj_str_def as_str_def
      family_from_closed_def all_families_def obj_contains_def action_parse_def fields_new_def fl_allow_def
      fl_string_def fl_opt_string_def fl_opt_strings_def fl_readers fl_req_as_def fl_req_def fl_opt_def fl_opt_as_def
      fl_finish_def string_value_def as_object_def obj_keys_def schema_amount_def fl_uint_def fl_currency_def
      uint_value_def number_as_u64_def currency_parse_def is_ascii_uppercase_def
      ACTION_def CHECKOUT_def PAYMENT_def aap_def AAP_NAMESPACE_def)

theorem parsed_open_mandate_witness:
  "least_depth [C_Actions [''pay''], C_Amount \<lparr>ac_max = 100, ac_currency = ''EUR''\<rparr>, C_Delegation 1]
       (om_max_depth (toy_open 1 100 ''k''))
   \<and> (\<exists>items. constraint_items (toy_open_claims 1 100) items
        \<and> list_all2 (\<lambda>item c. constraint_parse monday_ten item = Inr c) items (om_constraints (toy_open 1 100 ''k'')))"
proof -
  have cs: "om_constraints (toy_open 1 100 ''k'')
      = [C_Actions [''pay''], C_Amount \<lparr>ac_max = 100, ac_currency = ''EUR''\<rparr>, C_Delegation 1]"
    by (simp add: toy_open_def)
  show ?thesis
    using iffD1 [OF parsed_open_mandate toy_open_parse(1) [of monday_ten "''k''"]] unfolding cs by blast
qed

end
