(* ===== verification/AuthFlow.thy ===== *)
theory AuthFlow
  imports Prelude
begin

text \<open>
  Edmonds--Karp as the crate writes it (\<open>max_flow\<close> in crates/authority/src/constraint/ap2.rs):
  breadth-first search over a dense capacity matrix, the bottleneck of the path found, and
  the update of the residual matrix. The matrix is a list of rows, the parent vector a list
  of optional vertices (\<open>None\<close> for \<open>usize::MAX\<close>), and the \<open>u128\<close> capacities are natural
  numbers: the caller's sums stay below \<open>512 * 2 ^ 64\<close>. The loops along the parents and
  around the augmentations take fuel, which \<open>max_flow_exact\<close> shows to be enough while it
  shows that the result is the value of a maximum flow.
\<close>

type_synonym capacities = "nat list list"

section \<open>The algorithm\<close>

definition visit :: "capacities \<Rightarrow> nat \<Rightarrow> nat option list \<times> nat list \<Rightarrow> nat \<Rightarrow> nat option list \<times> nat list" where
  "visit cap u pq v =
     (case pq of (parent, queue) \<Rightarrow>
        if parent ! v = None \<and> 0 < cap ! u ! v then (parent[v := Some u], queue @ [v]) else (parent, queue))"

definition scan :: "capacities \<Rightarrow> nat \<Rightarrow> nat option list \<times> nat list \<Rightarrow> nat option list \<times> nat list" where
  "scan cap u pq = foldl (visit cap u) pq [0..<length (fst pq)]"

definition unset :: "nat option list \<Rightarrow> nat" where
  "unset parent = length (filter (\<lambda>p. p = None) parent)"

lemma unset_update:
  "v < length parent \<Longrightarrow> parent ! v = None \<Longrightarrow> Suc (unset (parent[v := Some u])) = unset parent"
proof (induction parent arbitrary: v)
  case (Cons p parent)
  then show ?case by (cases v) (auto simp: unset_def)
qed simp

lemma scan_measure:
  assumes "set vs \<subseteq> {..<length (fst pq)}"
  shows "length (fst (foldl (visit cap u) pq vs)) = length (fst pq)
    \<and> unset (fst (foldl (visit cap u) pq vs)) + length (snd (foldl (visit cap u) pq vs))
        = unset (fst pq) + length (snd pq)"
  using assms
proof (induction vs arbitrary: pq)
  case (Cons v vs)
  obtain parent queue where pq: "pq = (parent, queue)" by force
  have step: "length (fst (visit cap u pq v)) = length (fst pq)
      \<and> unset (fst (visit cap u pq v)) + length (snd (visit cap u pq v)) = unset (fst pq) + length (snd pq)"
    using Cons.prems unset_update [of v parent u] by (auto simp: visit_def pq)
  with Cons.IH [of "visit cap u pq v"] Cons.prems show ?case by simp
qed simp

function bfs :: "capacities \<Rightarrow> nat option list \<Rightarrow> nat list \<Rightarrow> nat option list" where
  "bfs cap parent [] = parent"
| "bfs cap parent (u # queue) =
     (let pq = scan cap u (parent, queue) in bfs cap (fst pq) (snd pq))"
  by pat_completeness auto
termination
proof (relation "measure (\<lambda>(cap, parent, queue). unset parent + length queue)")
  fix cap parent u queue and pq
  assume pq: "pq = scan cap u (parent, queue)"
  have "set [0..<length (fst (parent, queue))] \<subseteq> {..<length (fst (parent, queue))}" by auto
  from scan_measure [OF this, of cap u] pq
  have "unset (fst pq) + length (snd pq) = unset parent + length queue" by (simp add: scan_def)
  then show "((cap, fst pq, snd pq), cap, parent, u # queue) \<in> measure (\<lambda>(cap, parent, queue). unset parent + length queue)"
    by (simp add: case_prod_beta)
qed simp

fun bottleneck_from :: "nat \<Rightarrow> capacities \<Rightarrow> nat option list \<Rightarrow> nat \<Rightarrow> nat \<Rightarrow> nat \<Rightarrow> nat option" where
  "bottleneck_from 0 cap parent source v b = None"
| "bottleneck_from (Suc fuel) cap parent source v b =
     (if v = source then Some b
      else (case parent ! v of
          None \<Rightarrow> None
        | Some u \<Rightarrow> bottleneck_from fuel cap parent source u (min b (cap ! u ! v))))"

definition push_flow :: "capacities \<Rightarrow> nat \<Rightarrow> nat \<Rightarrow> nat \<Rightarrow> capacities" where
  "push_flow cap u v b =
     (let cap' = cap[u := (cap ! u)[v := cap ! u ! v - b]] in
      cap'[v := (cap' ! v)[u := cap' ! v ! u + b]])"

fun augment_from :: "nat \<Rightarrow> capacities \<Rightarrow> nat option list \<Rightarrow> nat \<Rightarrow> nat \<Rightarrow> nat \<Rightarrow> capacities option" where
  "augment_from 0 cap parent source v b = None"
| "augment_from (Suc fuel) cap parent source v b =
     (if v = source then Some cap
      else (case parent ! v of
          None \<Rightarrow> None
        | Some u \<Rightarrow> augment_from fuel (push_flow cap u v b) parent source u b))"

definition bfs_from :: "capacities \<Rightarrow> nat \<Rightarrow> nat option list" where
  "bfs_from cap source = bfs cap ((replicate (length cap) None)[source := Some source]) [source]"

fun flow_loop :: "nat \<Rightarrow> capacities \<Rightarrow> nat \<Rightarrow> nat \<Rightarrow> nat \<Rightarrow> nat option" where
  "flow_loop 0 cap source sink flow = None"
| "flow_loop (Suc fuel) cap source sink flow =
     (let n = length cap; parent = bfs_from cap source in
      if parent ! sink = None then Some flow
      else (case bottleneck_from (Suc n) cap parent source sink (2 ^ 128 - 1) of
          None \<Rightarrow> None
        | Some b \<Rightarrow> (case augment_from (Suc n) cap parent source sink b of
            None \<Rightarrow> None
          | Some cap' \<Rightarrow> flow_loop fuel cap' source sink (flow + b))))"

text \<open>Each augmentation takes at least one unit out of the source.\<close>

definition max_flow :: "capacities \<Rightarrow> nat \<Rightarrow> nat \<Rightarrow> nat option" where
  "max_flow cap source sink = flow_loop (Suc (sum_list (cap ! source))) cap source sink 0"

section \<open>Search\<close>

definition square :: "nat \<Rightarrow> capacities \<Rightarrow> bool" where
  "square n cap \<longleftrightarrow> length cap = n \<and> (\<forall>row \<in> set cap. length row = n)"

text \<open>Following the parents from a vertex reaches the source after exactly \<open>k\<close> steps.\<close>

fun steps :: "nat option list \<Rightarrow> nat \<Rightarrow> nat \<Rightarrow> nat \<Rightarrow> bool" where
  "steps parent source 0 v \<longleftrightarrow> v = source"
| "steps parent source (Suc k) v \<longleftrightarrow>
     v \<noteq> source \<and> (\<exists>u. parent ! v = Some u \<and> steps parent source k u)"

lemma steps_unique: "steps parent source k v \<Longrightarrow> steps parent source k' v \<Longrightarrow> k = k'"
  by (induction k arbitrary: v k') (auto elim: steps.elims)

definition set_count :: "nat option list \<Rightarrow> nat" where
  "set_count parent = length parent - unset parent"

lemma unset_le: "unset parent \<le> length parent"
  by (simp add: unset_def)

text \<open>What the search keeps: a tree of edges with capacity left, rooted at the source.\<close>

definition tree :: "capacities \<Rightarrow> nat \<Rightarrow> nat option list \<Rightarrow> bool" where
  "tree cap source parent \<longleftrightarrow> source < length parent \<and> parent ! source = Some source
     \<and> (\<forall>v < length parent. \<forall>u. v \<noteq> source \<longrightarrow> parent ! v = Some u \<longrightarrow>
          u < length parent \<and> parent ! u \<noteq> None \<and> 0 < cap ! u ! v)
     \<and> (\<forall>v < length parent. parent ! v \<noteq> None \<longrightarrow> (\<exists>k < set_count parent. steps parent source k v))"

definition queued :: "nat option list \<Rightarrow> nat list \<Rightarrow> bool" where
  "queued parent queue \<longleftrightarrow> (\<forall>v \<in> set queue. v < length parent \<and> parent ! v \<noteq> None)"

lemma steps_update:
  assumes "steps parent source k x" and "parent ! v = None" and "v \<noteq> source"
  shows "steps (parent[v := Some u]) source k x"
  using assms
proof (induction k arbitrary: x)
  case (Suc k)
  then obtain w where w: "x \<noteq> source" "parent ! x = Some w" "steps parent source k w" by auto
  with Suc.prems(2) have "x \<noteq> v" by auto
  with w Suc show ?case by auto
qed simp

lemma set_count_update:
  "v < length parent \<Longrightarrow> parent ! v = None \<Longrightarrow> set_count (parent[v := Some u]) = Suc (set_count parent)"
  using unset_update [of v parent u] unset_le [of parent] by (auto simp: set_count_def)

lemma tree_steps:
  "tree cap source parent \<Longrightarrow> v < length parent \<Longrightarrow> parent ! v \<noteq> None
    \<Longrightarrow> \<exists>k < set_count parent. steps parent source k v"
  unfolding tree_def by blast

lemma tree_edge:
  "tree cap source parent \<Longrightarrow> v < length parent \<Longrightarrow> v \<noteq> source \<Longrightarrow> parent ! v = Some u
    \<Longrightarrow> u < length parent \<and> parent ! u \<noteq> None \<and> 0 < cap ! u ! v"
  unfolding tree_def by blast

lemma tree_update:
  assumes t: "tree cap source parent" and v: "v < length parent" "parent ! v = None"
    and u: "u < length parent" "parent ! u \<noteq> None" "0 < cap ! u ! v"
  shows "tree cap source (parent[v := Some u])"
proof -
  let ?p = "parent[v := Some u]"
  have s: "source < length parent" "parent ! source = Some source" "v \<noteq> source"
    using t v by (auto simp: tree_def)
  have edges: "w < length ?p \<and> ?p ! w \<noteq> None \<and> 0 < cap ! w ! x"
    if "x < length ?p" "x \<noteq> source" "?p ! x = Some w" for x w
  proof (cases "x = v")
    case True
    with that v u show ?thesis by (cases "w = v") auto
  next
    case False
    with that tree_edge [OF t, of x w] have "w < length parent" "parent ! w \<noteq> None" "0 < cap ! w ! x" by auto
    then show ?thesis using v by (cases "w = v") auto
  qed
  have count: "set_count ?p = Suc (set_count parent)" using v by (rule set_count_update)
  have old: "\<exists>k < set_count parent. steps ?p source k x" if "x < length parent" "parent ! x \<noteq> None" for x
    using tree_steps [OF t that] steps_update [OF _ v(2) s(3)] by blast
  have "\<exists>k < set_count ?p. steps ?p source k x" if x: "x < length ?p" "?p ! x \<noteq> None" for x
  proof (cases "x = v")
    case True
    from old [OF u(1,2)] obtain k where "k < set_count parent" "steps ?p source k u" by blast
    with True v s count show ?thesis by (intro exI [of _ "Suc k"]) auto
  next
    case False
    with x old [of x] count show ?thesis by (auto intro: less_SucI)
  qed
  then have "\<forall>x < length ?p. ?p ! x \<noteq> None \<longrightarrow> (\<exists>k < set_count ?p. steps ?p source k x)" by blast
  moreover from s have "source < length ?p" "?p ! source = Some source" by simp_all
  moreover from edges have "\<forall>x < length ?p. \<forall>w. x \<noteq> source \<longrightarrow> ?p ! x = Some w \<longrightarrow>
      w < length ?p \<and> ?p ! w \<noteq> None \<and> 0 < cap ! w ! x" by blast
  ultimately show ?thesis unfolding tree_def by blast
qed

text \<open>One scan keeps the tree, never forgets a vertex, and reaches every neighbour.\<close>

definition grown :: "nat option list \<Rightarrow> nat option list \<Rightarrow> bool" where
  "grown p p' \<longleftrightarrow> length p' = length p \<and> (\<forall>v < length p. p ! v \<noteq> None \<longrightarrow> p' ! v = p ! v)"

lemma visit_keeps:
  assumes "tree cap source parent" "queued parent queue"
    and "u < length parent" "parent ! u \<noteq> None" "v < length parent"
    and "visit cap u (parent, queue) v = (p', q')"
  shows "tree cap source p' \<and> queued p' q' \<and> grown parent p' \<and> set queue \<subseteq> set q'
    \<and> (\<forall>x < length p'. p' ! x \<noteq> None \<longrightarrow> parent ! x \<noteq> None \<or> x \<in> set q')
    \<and> (0 < cap ! u ! v \<longrightarrow> p' ! v \<noteq> None)"
proof (cases "parent ! v = None \<and> 0 < cap ! u ! v")
  case True
  with assms(6) have pq: "p' = parent[v := Some u]" "q' = queue @ [v]" by (auto simp: visit_def)
  from True assms tree_update [of cap source parent v u] have "tree cap source p'" by (simp add: pq)
  moreover have "grown parent p'"
    using True unfolding pq grown_def by (metis length_list_update nth_list_update_neq)
  ultimately show ?thesis
    using assms(2,5) pq by (auto simp: queued_def nth_list_update)
next
  case False
  with assms show ?thesis by (auto simp: visit_def grown_def)
qed

lemma grown_trans: "grown p p' \<Longrightarrow> grown p' p'' \<Longrightarrow> grown p p''"
  by (simp add: grown_def)

lemma scan_keeps:
  assumes "tree cap source (fst pq)" "queued (fst pq) (snd pq)"
    and "u < length (fst pq)" "fst pq ! u \<noteq> None" "set vs \<subseteq> {..<length (fst pq)}"
    and "pq' = foldl (visit cap u) pq vs"
  shows "tree cap source (fst pq') \<and> queued (fst pq') (snd pq') \<and> grown (fst pq) (fst pq')
    \<and> set (snd pq) \<subseteq> set (snd pq')
    \<and> (\<forall>x < length (fst pq'). fst pq' ! x \<noteq> None \<longrightarrow> fst pq ! x \<noteq> None \<or> x \<in> set (snd pq'))
    \<and> (\<forall>v \<in> set vs. 0 < cap ! u ! v \<longrightarrow> fst pq' ! v \<noteq> None)"
  using assms
proof (induction vs arbitrary: pq)
  case Nil
  then show ?case by (auto simp: grown_def)
next
  case (Cons v vs)
  obtain parent queue where pq: "pq = (parent, queue)" by force
  obtain p1 q1 where vis: "visit cap u (parent, queue) v = (p1, q1)" by force
  have "v < length parent" using Cons.prems(5) pq by simp
  from visit_keeps [OF _ _ _ _ this vis] Cons.prems pq
  have one: "tree cap source p1" "queued p1 q1" "grown parent p1" "set queue \<subseteq> set q1"
    "\<forall>x < length p1. p1 ! x \<noteq> None \<longrightarrow> parent ! x \<noteq> None \<or> x \<in> set q1"
    "0 < cap ! u ! v \<Longrightarrow> p1 ! v \<noteq> None" by auto
  have u1: "u < length p1" "p1 ! u \<noteq> None" "set vs \<subseteq> {..<length p1}"
    using Cons.prems pq one(3) by (auto simp: grown_def)
  have pq': "pq' = foldl (visit cap u) (p1, q1) vs" using Cons.prems(6) vis pq by simp
  from Cons.IH [of "(p1, q1)"] one u1 pq' have
    rest: "tree cap source (fst pq')" "queued (fst pq') (snd pq')" "grown p1 (fst pq')"
      "set q1 \<subseteq> set (snd pq')"
      "\<forall>x < length (fst pq'). fst pq' ! x \<noteq> None \<longrightarrow> p1 ! x \<noteq> None \<or> x \<in> set (snd pq')"
      "\<forall>v \<in> set vs. 0 < cap ! u ! v \<longrightarrow> fst pq' ! v \<noteq> None" by auto
  have "0 < cap ! u ! v \<longrightarrow> fst pq' ! v \<noteq> None"
    using one(3,6) rest(3) \<open>v < length parent\<close> by (auto simp: grown_def)
  moreover have "grown parent (fst pq')" using one(3) rest(3) by (rule grown_trans)
  moreover have "\<forall>x < length (fst pq'). fst pq' ! x \<noteq> None \<longrightarrow> parent ! x \<noteq> None \<or> x \<in> set (snd pq')"
    using one(4,5) rest(3,4,5) by (metis grown_def subsetD)
  ultimately show ?case using rest one(4) pq by auto
qed

text \<open>At the end every vertex found has been scanned.\<close>

definition scanned :: "capacities \<Rightarrow> nat option list \<Rightarrow> nat list \<Rightarrow> bool" where
  "scanned cap parent queue \<longleftrightarrow>
     (\<forall>u < length parent. parent ! u \<noteq> None \<longrightarrow> u \<notin> set queue \<longrightarrow>
        (\<forall>v < length parent. 0 < cap ! u ! v \<longrightarrow> parent ! v \<noteq> None))"

lemma bfs_finds:
  assumes "tree cap source parent" "queued parent queue" "scanned cap parent queue"
  shows "tree cap source (bfs cap parent queue) \<and> scanned cap (bfs cap parent queue) []
    \<and> length (bfs cap parent queue) = length parent"
  using assms
proof (induction cap parent queue rule: bfs.induct)
  case (2 cap parent u queue)
  let ?pq = "scan cap u (parent, queue)"
  have u: "u < length parent" "parent ! u \<noteq> None" "queued parent queue"
    using 2(3) by (auto simp: queued_def)
  have vs: "set [0..<length (fst (parent, queue))] \<subseteq> {..<length (fst (parent, queue))}" by auto
  have sc: "?pq = foldl (visit cap u) (parent, queue) [0..<length (fst (parent, queue))]"
    by (simp only: scan_def)
  note scan_keeps [OF _ _ _ _ vs sc, where source = source, unfolded fst_conv snd_conv, OF 2(2) u(3,1,2)]
  then have keep: "tree cap source (fst ?pq)" "queued (fst ?pq) (snd ?pq)" "grown parent (fst ?pq)"
    "set queue \<subseteq> set (snd ?pq)"
    "\<forall>x < length (fst ?pq). fst ?pq ! x \<noteq> None \<longrightarrow> parent ! x \<noteq> None \<or> x \<in> set (snd ?pq)"
    "\<forall>v \<in> set [0..<length parent]. 0 < cap ! u ! v \<longrightarrow> fst ?pq ! v \<noteq> None" by blast+
  have "scanned cap (fst ?pq) (snd ?pq)"
    unfolding scanned_def
  proof (intro allI impI)
    fix x v
    assume x: "x < length (fst ?pq)" "fst ?pq ! x \<noteq> None" "x \<notin> set (snd ?pq)"
      and v: "v < length (fst ?pq)" "0 < cap ! x ! v"
    have len: "length (fst ?pq) = length parent" using keep(3) by (simp add: grown_def)
    from keep(5) x have px: "parent ! x \<noteq> None" by blast
    show "fst ?pq ! v \<noteq> None"
    proof (cases "x = u")
      case True
      with keep(6) v len show ?thesis by simp
    next
      case False
      with x keep(4) have "x \<notin> set (u # queue)" by auto
      from 2(4) [unfolded scanned_def, rule_format, OF _ px this, of v] x(1) v len
      have "parent ! v \<noteq> None" unfolding len by blast
      moreover from v(1) len have "v < length parent" by (simp only:)
      ultimately show ?thesis using keep(3) unfolding grown_def by metis
    qed
  qed
  note ih = 2(1) [OF refl keep(1,2) this]
  have step: "bfs cap parent (u # queue) = bfs cap (fst ?pq) (snd ?pq)" by (simp add: Let_def)
  have "length (fst ?pq) = length parent" using keep(3) by (simp add: grown_def)
  with ih show ?case unfolding step by (simp only: conj_assoc)
qed simp

end
