(* ===== verification/AuthMaxFlow.thy ===== *)
theory AuthMaxFlow
  imports AuthFlow
begin

text \<open>
  Correctness of \<open>max_flow\<close>: every augmentation keeps the residual invariant and takes
  flow out of the source, so the fuel is enough, and when the search no longer reaches the
  sink the vertices it found are a cut that no flow can exceed.
\<close>

section \<open>One edge\<close>

definition row_sum :: "nat \<Rightarrow> capacities \<Rightarrow> nat \<Rightarrow> nat" where
  "row_sum n cap x = (\<Sum>y < n. cap ! x ! y)"

lemma square_row: "square n cap \<Longrightarrow> x < n \<Longrightarrow> length (cap ! x) = n"
  by (simp add: square_def)

lemma row_sum_eq: "square n cap \<Longrightarrow> x < n \<Longrightarrow> sum_list (cap ! x) = row_sum n cap x"
  by (simp add: row_sum_def sum_list_sum_nth square_row atLeast0LessThan)

lemma push_flow_entry:
  assumes "square n cap" "u < n" "v < n" "u \<noteq> v" "x < n" "y < n"
  shows "push_flow cap u v b ! x ! y =
    (if x = u \<and> y = v then cap ! u ! v - b
     else if x = v \<and> y = u then cap ! v ! u + b else cap ! x ! y)"
  using assms by (auto simp: push_flow_def Let_def square_def nth_list_update)

lemma push_flow_square:
  assumes "square n cap" "u < n" "v < n"
  shows "square n (push_flow cap u v b)"
proof -
  have "\<forall>i < n. length (push_flow cap u v b ! i) = n"
    using assms by (auto simp: push_flow_def Let_def square_def nth_list_update)
  moreover have "length (push_flow cap u v b) = n"
    using assms(1) by (simp add: push_flow_def Let_def square_def)
  ultimately show ?thesis by (auto simp: square_def in_set_conv_nth)
qed

lemma push_flow_pair:
  assumes "square n cap" "u < n" "v < n" "u \<noteq> v" "b \<le> cap ! u ! v" "x < n" "y < n"
  shows "push_flow cap u v b ! x ! y + push_flow cap u v b ! y ! x = cap ! x ! y + cap ! y ! x"
  using assms by (auto simp: push_flow_entry [OF assms(1-4)])

lemma push_flow_row:
  assumes "square n cap" "u < n" "v < n" "u \<noteq> v" "b \<le> cap ! u ! v" "x < n"
  shows "int (row_sum n (push_flow cap u v b) x) =
    int (row_sum n cap x) + (if x = v then int b else 0) - (if x = u then int b else 0)"
proof -
  have "int (push_flow cap u v b ! x ! y) = int (cap ! x ! y)
      + (if y = u then (if x = v then int b else 0) else 0)
      - (if y = v then (if x = u then int b else 0) else 0)" if "y < n" for y
    using push_flow_entry [OF assms(1-4,6) that, of b] assms(4,5) by auto
  then have "int (row_sum n (push_flow cap u v b) x) = (\<Sum>y < n. int (cap ! x ! y)
      + (if y = u then (if x = v then int b else 0) else 0)
      - (if y = v then (if x = u then int b else 0) else 0))"
    by (simp add: row_sum_def)
  then show ?thesis
    using assms(2,3) by (simp add: row_sum_def sum.distrib sum_subtractf)
qed

section \<open>One path\<close>

fun path_cap :: "capacities \<Rightarrow> nat option list \<Rightarrow> nat \<Rightarrow> nat \<Rightarrow> nat \<Rightarrow> bool" where
  "path_cap cap parent 0 v b \<longleftrightarrow> True"
| "path_cap cap parent (Suc k) v b \<longleftrightarrow>
     (\<exists>u. parent ! v = Some u \<and> b \<le> cap ! u ! v \<and> path_cap cap parent k u b)"

lemma path_cap_mono: "path_cap cap parent k v b \<Longrightarrow> b' \<le> b \<Longrightarrow> path_cap cap parent k v b'"
  by (induction k arbitrary: v) auto

lemma tree_path_cap:
  assumes t: "tree cap source parent"
  shows "v < length parent \<Longrightarrow> parent ! v \<noteq> None \<Longrightarrow> steps parent source k v \<Longrightarrow> path_cap cap parent k v 1"
proof (induction k arbitrary: v)
  case (Suc k)
  then obtain u where u: "v \<noteq> source" "parent ! v = Some u" "steps parent source k u" by auto
  from tree_edge [OF t Suc.prems(1) u(1,2)] Suc.IH [of u] u show ?case by auto
qed simp

lemma bottleneck_finds:
  assumes "steps parent source k v" "k < fuel" "path_cap cap parent k v 1" "0 < b0"
  shows "\<exists>b. bottleneck_from fuel cap parent source v b0 = Some b \<and> 0 < b \<and> b \<le> b0
    \<and> path_cap cap parent k v b"
  using assms
proof (induction k arbitrary: v fuel b0)
  case 0
  then obtain f where "fuel = Suc f" by (cases fuel) auto
  with 0 show ?case by simp
next
  case (Suc k)
  then obtain f where f: "fuel = Suc f" "k < f" by (cases fuel) auto
  from Suc.prems obtain u where u: "v \<noteq> source" "parent ! v = Some u" "steps parent source k u"
    "1 \<le> cap ! u ! v" "path_cap cap parent k u 1" by auto
  with Suc.IH [OF u(3) f(2) u(5), of "min b0 (cap ! u ! v)"] Suc.prems(4)
  obtain b where "bottleneck_from f cap parent source u (min b0 (cap ! u ! v)) = Some b" "0 < b"
    "b \<le> min b0 (cap ! u ! v)" "path_cap cap parent k u b" by auto
  with f u show ?case by auto
qed

lemma push_keeps_path:
  assumes "square n cap" "u < n" "v < n" "u \<noteq> v" and later: "steps parent source k0 v"
    and bound: "\<forall>x < n. \<forall>w. x \<noteq> source \<longrightarrow> parent ! x = Some w \<longrightarrow> w < n"
  shows "j < k0 \<Longrightarrow> x < n \<Longrightarrow> steps parent source j x \<Longrightarrow> path_cap cap parent j x b
    \<Longrightarrow> path_cap (push_flow cap u v b') parent j x b"
proof (induction j arbitrary: x)
  case (Suc j)
  then obtain w where w: "x \<noteq> source" "parent ! x = Some w" "steps parent source j w"
    "b \<le> cap ! w ! x" "path_cap cap parent j w b" by auto
  have "w < n" using bound Suc.prems(2) w by blast
  have "x \<noteq> v" using steps_unique [OF Suc.prems(3), of k0] later Suc.prems(1) by auto
  then have "b \<le> push_flow cap u v b' ! w ! x"
    using push_flow_entry [OF assms(1-4) \<open>w < n\<close> Suc.prems(2), of b'] w(4) by auto
  with w Suc.IH [of w] Suc.prems(1) \<open>w < n\<close> show ?case by auto
qed simp

lemma augment_updates:
  assumes "steps parent source k v" "k < fuel" "path_cap cap parent k v b" "square n cap" "v < n"
    and "source < n"
    and bound: "\<forall>x < n. \<forall>w. x \<noteq> source \<longrightarrow> parent ! x = Some w \<longrightarrow> w < n"
  shows "\<exists>cap'. augment_from fuel cap parent source v b = Some cap' \<and> square n cap'
    \<and> (\<forall>x < n. \<forall>y < n. cap' ! x ! y + cap' ! y ! x = cap ! x ! y + cap ! y ! x)
    \<and> (\<forall>x < n. int (row_sum n cap' x) =
        int (row_sum n cap x) + (if x = v then int b else 0) - (if x = source then int b else 0))"
  using assms(1-5)
proof (induction k arbitrary: v fuel cap)
  case 0
  then obtain f where "fuel = Suc f" by (cases fuel) auto
  with 0 show ?case by simp
next
  case (Suc k)
  then obtain f where f: "fuel = Suc f" "k < f" by (cases fuel) auto
  from Suc.prems obtain u where u: "v \<noteq> source" "parent ! v = Some u" "steps parent source k u"
    "b \<le> cap ! u ! v" "path_cap cap parent k u b" by auto
  have un: "u < n" using bound Suc.prems(5) u by blast
  have uv: "u \<noteq> v" using steps_unique [OF u(3), of "Suc k"] Suc.prems(1) by auto
  let ?c = "push_flow cap u v b"
  have sq: "square n ?c" using Suc.prems(4,5) un by (simp add: push_flow_square)
  have "path_cap ?c parent k u b"
    using push_keeps_path [OF Suc.prems(4) un Suc.prems(5) uv Suc.prems(1) bound _ un u(3,5)] by simp
  from Suc.IH [OF u(3) f(2) this sq un] obtain cap' where c':
    "augment_from f ?c parent source u b = Some cap'" "square n cap'"
    "\<forall>x < n. \<forall>y < n. cap' ! x ! y + cap' ! y ! x = ?c ! x ! y + ?c ! y ! x"
    "\<forall>x < n. int (row_sum n cap' x) =
        int (row_sum n ?c x) + (if x = u then int b else 0) - (if x = source then int b else 0)" by blast
  have "augment_from fuel cap parent source v b = Some cap'" using f u c'(1) by simp
  moreover have "\<forall>x < n. \<forall>y < n. cap' ! x ! y + cap' ! y ! x = cap ! x ! y + cap ! y ! x"
    using c'(3) push_flow_pair [OF Suc.prems(4) un Suc.prems(5) uv u(4)] by simp
  moreover have "\<forall>x < n. int (row_sum n cap' x) =
        int (row_sum n cap x) + (if x = v then int b else 0) - (if x = source then int b else 0)"
    using c'(4) push_flow_row [OF Suc.prems(4) un Suc.prems(5) uv u(4)] by simp
  ultimately show ?case using c'(2) by blast
qed

section \<open>The loop\<close>

definition residual :: "nat \<Rightarrow> capacities \<Rightarrow> nat \<Rightarrow> nat \<Rightarrow> capacities \<Rightarrow> nat \<Rightarrow> bool" where
  "residual n c0 source sink c flow \<longleftrightarrow> square n c
     \<and> (\<forall>x < n. \<forall>y < n. c ! x ! y + c ! y ! x = c0 ! x ! y + c0 ! y ! x)
     \<and> (\<forall>x < n. x \<noteq> source \<longrightarrow> x \<noteq> sink \<longrightarrow> row_sum n c x = row_sum n c0 x)
     \<and> row_sum n c source + flow = row_sum n c0 source"

lemma search_result:
  assumes "square n cap" "source < n"
  shows "tree cap source (bfs_from cap source) \<and> scanned cap (bfs_from cap source) []
    \<and> length (bfs_from cap source) = n"
proof -
  let ?p = "(replicate n None)[source := Some source]"
  have count: "set_count ?p = 1"
    using set_count_update [of source "replicate n None" source] assms(2)
    by (simp add: set_count_def unset_def)
  have only: "v = source" if "v < n" "?p ! v \<noteq> None" for v
    using that assms(2) by (cases "v = source") auto
  have "tree cap source ?p"
    unfolding tree_def
  proof (intro conjI allI impI)
    show "source < length ?p" "?p ! source = Some source" using assms(2) by simp_all
    show "w < length ?p" "?p ! w \<noteq> None" "0 < cap ! w ! v"
      if "v < length ?p" "v \<noteq> source" "?p ! v = Some w" for v w
      using that only [of v] by auto
    show "\<exists>k < set_count ?p. steps ?p source k v" if "v < length ?p" "?p ! v \<noteq> None" for v
      using only [of v] that count by (intro exI [of _ 0]) simp
  qed
  moreover have "queued ?p [source]" using assms(2) by (simp add: queued_def)
  moreover have "scanned cap ?p [source]" unfolding scanned_def using only by fastforce
  ultimately show ?thesis using bfs_finds [of cap source ?p "[source]"] assms(1)
    by (simp add: bfs_from_def square_def del: bfs.simps)
qed

lemma flow_loop_result:
  assumes "residual n c0 source sink c flow" "source < n" "sink < n" "source \<noteq> sink"
    and "row_sum n c source < fuel"
  shows "\<exists>F c' S. flow_loop fuel c source sink flow = Some F \<and> residual n c0 source sink c' F
    \<and> S \<subseteq> {..<n} \<and> source \<in> S \<and> sink \<notin> S \<and> (\<forall>u \<in> S. \<forall>v \<in> {..<n} - S. c' ! u ! v = 0)"
  using assms
proof (induction fuel arbitrary: c flow)
  case (Suc fuel)
  define p where "p = bfs_from c source"
  have sq: "square n c" and len: "length c = n" using Suc.prems(1) by (simp_all add: residual_def square_def)
  from search_result [OF sq Suc.prems(2), folded p_def]
  have p: "tree c source p" "scanned c p []" "length p = n" by blast+
  show ?case
  proof (cases "p ! sink")
    case None
    define S where "S = {u. u < n \<and> p ! u \<noteq> None}"
    have "source \<in> S" using p(1) Suc.prems(2) by (simp add: S_def tree_def)
    moreover have "sink \<notin> S" using None by (simp add: S_def)
    moreover have "c ! u ! v = 0" if "u \<in> S" "v \<in> {..<n} - S" for u v
    proof -
      from that have "u < length p" "p ! u \<noteq> None" "v < length p" "p ! v = None"
        by (auto simp: S_def p(3))
      with p(2) have "\<not> 0 < c ! u ! v" unfolding scanned_def by (metis empty_iff empty_set)
      then show ?thesis by simp
    qed
    moreover have "flow_loop (Suc fuel) c source sink flow = Some flow"
      using None by (simp add: Let_def len flip: p_def)
    moreover have "S \<subseteq> {..<n}" by (auto simp: S_def)
    ultimately show ?thesis using Suc.prems(1) by blast
  next
    case (Some w)
    then have sink: "sink < length p" "p ! sink \<noteq> None" using Suc.prems(3) p(3) by simp_all
    from tree_steps [OF p(1) this] obtain k where k: "steps p source k sink" "k < set_count p" by blast
    have kn: "k < Suc n" using k(2) unset_le [of p] p(3) by (simp add: set_count_def)
    from bottleneck_finds [OF k(1) kn tree_path_cap [OF p(1) sink k(1)], of "2 ^ 128 - 1"]
    obtain b where b: "bottleneck_from (Suc n) c p source sink (2 ^ 128 - 1) = Some b" "0 < b"
      "path_cap c p k sink b" by auto
    have bound: "\<forall>x < n. \<forall>w. x \<noteq> source \<longrightarrow> p ! x = Some w \<longrightarrow> w < n"
      using tree_edge [OF p(1)] p(3) by blast
    from augment_updates [OF k(1) kn b(3) sq Suc.prems(3,2) bound] obtain c1 where c1:
      "augment_from (Suc n) c p source sink b = Some c1" "square n c1"
      "\<forall>x < n. \<forall>y < n. c1 ! x ! y + c1 ! y ! x = c ! x ! y + c ! y ! x"
      "\<forall>x < n. int (row_sum n c1 x) =
        int (row_sum n c x) + (if x = sink then int b else 0) - (if x = source then int b else 0)" by blast
    have row: "row_sum n c1 source + b = row_sum n c source"
      using c1(4) Suc.prems(2,4) by (auto dest: spec [of _ source])
    have "residual n c0 source sink c1 (flow + b)"
      using Suc.prems(1) c1(2,3,4) row by (auto simp: residual_def)
    from Suc.IH [OF this Suc.prems(2,3,4)] row b(2) Suc.prems(5)
    show ?thesis using Some b(1) c1(1) by (simp add: Let_def len flip: p_def)
  qed
qed simp

section \<open>Maximum flow\<close>

text \<open>A net flow within the capacities, conserved at every vertex but the source and the sink.\<close>

definition is_flow :: "nat \<Rightarrow> capacities \<Rightarrow> nat \<Rightarrow> nat \<Rightarrow> (nat \<Rightarrow> nat \<Rightarrow> int) \<Rightarrow> bool" where
  "is_flow n cap source sink g \<longleftrightarrow>
     (\<forall>x < n. \<forall>y < n. g x y = - g y x \<and> g x y \<le> int (cap ! x ! y))
     \<and> (\<forall>x < n. x \<noteq> source \<longrightarrow> x \<noteq> sink \<longrightarrow> (\<Sum>y < n. g x y) = 0)"

lemma is_flow_cap: "is_flow n cap source sink g \<Longrightarrow> x < n \<Longrightarrow> y < n \<Longrightarrow> g x y \<le> int (cap ! x ! y)"
  and is_flow_anti: "is_flow n cap source sink g \<Longrightarrow> x < n \<Longrightarrow> y < n \<Longrightarrow> g x y = - g y x"
  and is_flow_cons: "is_flow n cap source sink g \<Longrightarrow> x < n \<Longrightarrow> x \<noteq> source \<Longrightarrow> x \<noteq> sink
    \<Longrightarrow> (\<Sum>y < n. g x y) = 0"
  unfolding is_flow_def by blast+

definition flow_value :: "nat \<Rightarrow> nat \<Rightarrow> (nat \<Rightarrow> nat \<Rightarrow> int) \<Rightarrow> int" where
  "flow_value n source g = (\<Sum>y < n. g source y)"

lemma flow_across_cut:
  assumes g: "is_flow n cap source sink g" and S: "S \<subseteq> {..<n}" "source \<in> S" "sink \<notin> S"
  shows "flow_value n source g = (\<Sum>u \<in> S. \<Sum>v \<in> {..<n} - S. g u v)"
proof -
  have fin: "finite S" using S(1) finite_subset by blast
  have anti: "(\<Sum>u \<in> S. \<Sum>v \<in> S. g u v) = 0"
  proof -
    have "(\<Sum>u \<in> S. \<Sum>v \<in> S. g u v) = (\<Sum>u \<in> S. \<Sum>v \<in> S. - g v u)"
      using g S(1) by (intro sum.cong) (auto simp: is_flow_def)
    also have "\<dots> = - (\<Sum>v \<in> S. \<Sum>u \<in> S. g v u)" by (subst sum.swap) (simp add: sum_negf)
    finally show ?thesis by simp
  qed
  have inner: "(\<Sum>v < n. g u v) = 0" if "u \<in> S - {source}" for u
    using that g S(1,3) unfolding is_flow_def by (metis Diff_iff insertI1 lessThan_iff subsetD)
  have "(\<Sum>u \<in> S. \<Sum>v < n. g u v) = flow_value n source g + (\<Sum>u \<in> S - {source}. \<Sum>v < n. g u v)"
    using fin S(2) by (simp add: sum.remove flow_value_def)
  with inner have "flow_value n source g = (\<Sum>u \<in> S. \<Sum>v < n. g u v)" by simp
  also have "\<dots> = (\<Sum>u \<in> S. (\<Sum>v \<in> {..<n} - S. g u v) + (\<Sum>v \<in> S. g u v))"
    using S(1) by (intro sum.cong refl sum.subset_diff) auto
  finally show ?thesis using anti by (simp add: sum.distrib)
qed

lemma max_flow_exact:
  assumes "square n c0" "source < n" "sink < n" "source \<noteq> sink"
  shows "\<exists>F g. max_flow c0 source sink = Some F \<and> is_flow n c0 source sink g
    \<and> flow_value n source g = int F
    \<and> (\<forall>h. is_flow n c0 source sink h \<longrightarrow> flow_value n source h \<le> int F)"
proof -
  have "residual n c0 source sink c0 0" using assms(1) by (simp add: residual_def)
  from flow_loop_result [OF this assms(2-4)] obtain F c S where
    loop: "max_flow c0 source sink = Some F" and res: "residual n c0 source sink c F"
    and S: "S \<subseteq> {..<n}" "source \<in> S" "sink \<notin> S" "\<forall>u \<in> S. \<forall>v \<in> {..<n} - S. c ! u ! v = 0"
    unfolding max_flow_def using row_sum_eq [OF assms(1,2)] by (metis lessI)
  define g where "g x y = int (c0 ! x ! y) - int (c ! x ! y)" for x y
  have pair: "c ! x ! y + c ! y ! x = c0 ! x ! y + c0 ! y ! x" if "x < n" "y < n" for x y
    using res that by (auto simp: residual_def)
  have sums: "(\<Sum>y < n. g x y) = int (row_sum n c0 x) - int (row_sum n c x)" for x
    by (simp add: g_def row_sum_def sum_subtractf)
  have flow: "is_flow n c0 source sink g"
    unfolding is_flow_def
  proof (intro conjI allI impI)
    fix x y
    assume "x < n" "y < n"
    from pair [OF this] show "g x y = - g y x" by (simp add: g_def)
    show "g x y \<le> int (c0 ! x ! y)" by (simp add: g_def)
  next
    fix x
    assume "x < n" "x \<noteq> source" "x \<noteq> sink"
    with res show "(\<Sum>y < n. g x y) = 0" by (simp add: sums residual_def)
  qed
  have val: "flow_value n source g = int F"
    using res sums [of source] by (simp add: flow_value_def residual_def)
  have "flow_value n source h \<le> int F" if h: "is_flow n c0 source sink h" for h
  proof -
    have "flow_value n source h = (\<Sum>u \<in> S. \<Sum>v \<in> {..<n} - S. h u v)"
      using flow_across_cut [OF h S(1-3)] .
    also have "\<dots> \<le> (\<Sum>u \<in> S. \<Sum>v \<in> {..<n} - S. g u v)"
    proof (intro sum_mono)
      fix u v
      assume uv: "u \<in> S" "v \<in> {..<n} - S"
      with S(1) have "u < n" "v < n" by auto
      with h have "h u v \<le> int (c0 ! u ! v)" unfolding is_flow_def by blast
      moreover have "c ! u ! v = 0" using S(4) uv by blast
      ultimately show "h u v \<le> g u v" by (simp add: g_def)
    qed
    also have "\<dots> = int F" using flow_across_cut [OF flow S(1-3)] val by simp
    finally show ?thesis .
  qed
  with loop flow val show ?thesis by blast
qed

text \<open>C15: The Edmonds-Karp routine ends on every square capacity matrix and returns the value
  of a flow that respects the capacities and that no other flow exceeds.\<close>
theorem max_flow_is_maximal:
  assumes "square n cap" "source < n" "sink < n" "source \<noteq> sink"
  shows "\<exists>F g. max_flow cap source sink = Some F \<and> is_flow n cap source sink g
    \<and> flow_value n source g = int F
    \<and> (\<forall>h. is_flow n cap source sink h \<longrightarrow> flow_value n source h \<le> int F)"
  using assms by (rule max_flow_exact)

text \<open>A network on four vertices whose first path has to be undone in part.\<close>

theorem max_flow_is_maximal_witness:
  "\<exists>F g. max_flow [[0, 3, 2, 0], [0, 0, 5, 2], [0, 0, 0, 3], [0, 0, 0, 0]] 0 3 = Some F
    \<and> is_flow 4 [[0, 3, 2, 0], [0, 0, 5, 2], [0, 0, 0, 3], [0, 0, 0, 0]] 0 3 g
    \<and> flow_value 4 0 g = int F"
  using max_flow_is_maximal [of 4 "[[0, 3, 2, 0], [0, 0, 5, 2], [0, 0, 0, 3], [0, 0, 0, 0]]" 0 3]
  by (auto simp: square_def)

end
