(* ===== verification/AuthLineItems.thy ===== *)
theory AuthLineItems
  imports AuthMandate AuthMaxFlow
begin

text \<open>
  The constraint \<open>checkout.line_items\<close> (\<open>line_items\<close> in
  crates/authority/src/constraint/ap2.rs): the cart of the checkout fills every requirement
  exactly. The code decides it as a maximum-flow problem; \<open>line_items_iff\<close> shows that the
  decision is the existence of an assignment of cart units to requirements. Sums of \<open>u64\<close>
  quantities are natural numbers, as at most 512 of them stay far below \<open>2 ^ 128\<close>.
\<close>

definition MAX_LINE_ITEM_NODES :: nat where "MAX_LINE_ITEM_NODES = 512"

text \<open>
  The network: vertex 0 is the source, then the \<open>r\<close> requirements, the \<open>s\<close> items and the
  sink; edges lead from each layer to the next only.
\<close>

definition layered ::
  "nat \<Rightarrow> nat \<Rightarrow> (nat \<Rightarrow> nat) \<Rightarrow> (nat \<Rightarrow> nat \<Rightarrow> nat) \<Rightarrow> (nat \<Rightarrow> nat) \<Rightarrow> nat \<Rightarrow> nat \<Rightarrow> nat" where
  "layered r s a m b u v =
     (if u = 0 then (if 1 \<le> v \<and> v \<le> r then a (v - 1) else 0)
      else if u \<le> r then (if r < v \<and> v \<le> r + s then m (u - 1) (v - r - 1) else 0)
      else if u \<le> r + s then (if v = r + s + 1 then b (u - r - 1) else 0)
      else 0)"

definition total_wanted :: "line_item_requirement list \<Rightarrow> nat" where
  "total_wanted requirements = sum_list (map (\<lambda>x. unat (li_quantity x)) requirements)"

definition total_present :: "(string \<times> u64) list \<Rightarrow> nat" where
  "total_present cart = sum_list (map (\<lambda>e. unat (snd e)) cart)"

definition line_item_caps :: "line_item_requirement list \<Rightarrow> (string \<times> u64) list \<Rightarrow> capacities" where
  "line_item_caps requirements cart =
     (let r = length requirements; s = length cart; n = r + s + 2 in
      map (\<lambda>u. map (\<lambda>v. layered r s (\<lambda>i. unat (li_quantity (requirements ! i)))
          (\<lambda>i j. if fst (cart ! j) \<in> set (li_acceptable (requirements ! i)) then total_present cart else 0)
          (\<lambda>j. unat (snd (cart ! j))) u v) [0..<n]) [0..<n])"

definition line_items :: "line_item_requirement list \<Rightarrow> eval_env \<Rightarrow> failure + unit" where
  "line_items requirements env =
     rbind (ok_or (ev_checkout env) (Unresolved [Lit ''no trusted checkout to read line items from'']))
       (\<lambda>checkout.
     let cart = ck_line_items checkout in
     if cart = [] then Inl (Violated [Lit ''the checkout has no line items''])
     else
     case find (\<lambda>e. \<not> list_ex (\<lambda>r. fst e \<in> set (li_acceptable r)) requirements) cart of
       Some (sku, _) \<Rightarrow>
         Inl (Violated [Lit ''item '', Dbg sku, Lit '' is not acceptable for any requirement''])
     | None \<Rightarrow>
         (let r = length requirements; s = length cart in
          if r + s > MAX_LINE_ITEM_NODES then Inl (Unresolved [Lit ''too many line items to evaluate''])
          else if total_wanted requirements \<noteq> total_present cart then
            Inl (Violated [Lit ''the checkout has '', Num (int (total_present cart)),
              Lit '' items, the mandate requires exactly '', Num (int (total_wanted requirements))])
          else if max_flow (line_item_caps requirements cart) 0 (r + s + 2 - 1)
              = Some (total_wanted requirements) then Inr ()
          else Inl (Violated
            [Lit ''the checkout's items cannot be assigned to the required line items''])))"

section \<open>The network's layers\<close>

lemma layered_simps [simp]:
  "i < r \<Longrightarrow> layered r s a m b 0 (Suc i) = a i"
  "i < r \<Longrightarrow> j < s \<Longrightarrow> layered r s a m b (Suc i) (Suc (r + j)) = m i j"
  "j < s \<Longrightarrow> layered r s a m b (Suc (r + j)) (Suc (r + s)) = b j"
  "layered r s a m b 0 0 = 0" "layered r s a m b 0 (Suc (r + k)) = 0"
  "i < r \<Longrightarrow> layered r s a m b (Suc i) 0 = 0"
  "i < r \<Longrightarrow> i' < r \<Longrightarrow> layered r s a m b (Suc i) (Suc i') = 0"
  "i < r \<Longrightarrow> layered r s a m b (Suc i) (Suc (r + s)) = 0"
  "j < s \<Longrightarrow> layered r s a m b (Suc (r + j)) 0 = 0"
  "j < s \<Longrightarrow> i < r \<Longrightarrow> layered r s a m b (Suc (r + j)) (Suc i) = 0"
  "j < s \<Longrightarrow> j' < s \<Longrightarrow> layered r s a m b (Suc (r + j)) (Suc (r + j')) = 0"
  "layered r s a m b (Suc (r + s)) v = 0"
  by (auto simp: layered_def)

lemma node_cases:
  assumes "y < r + s + 2"
  obtains "y = 0" | i where "i < r" "y = Suc i" | j where "j < s" "y = Suc (r + j)" | "y = Suc (r + s)"
proof -
  consider "y = 0" | "1 \<le> y" "y \<le> r" | "r < y" "y \<le> r + s" | "y = Suc (r + s)" using assms by linarith
  then show ?thesis
  proof cases
    case 2
    with that(2) [of "y - 1"] show ?thesis by simp
  next
    case 3
    with that(3) [of "y - r - 1"] show ?thesis by simp
  qed (use that in simp_all)
qed

lemma sum_nodes:
  fixes f :: "nat \<Rightarrow> 'a::comm_monoid_add"
  shows "(\<Sum>y < r + s + 2. f y) = f 0 + (\<Sum>i < r. f (Suc i)) + (\<Sum>j < s. f (Suc (r + j))) + f (Suc (r + s))"
proof -
  have "(\<Sum>y < Suc (r + s). f y) = f 0 + (\<Sum>y < r + s. f (Suc y))" by (rule sum.lessThan_Suc_shift)
  then have "(\<Sum>y < r + s + 2. f y) = f 0 + (\<Sum>y < r + s. f (Suc y)) + f (Suc (r + s))"
    by (metis add_2_eq_Suc' sum.lessThan_Suc)
  also have "(\<Sum>y < r + s. f (Suc y)) = (\<Sum>i < r. f (Suc i)) + (\<Sum>j < s. f (Suc (r + j)))"
    by (induction s) (simp_all add: add.assoc)
  finally show ?thesis by (simp add: add.assoc)
qed

lemma sum_list_nth: "sum_list (map f xs) = (\<Sum>i < length xs. f (xs ! i))"
  by (simp add: sum_list_sum_nth atLeast0LessThan)

lemma matrix_entry: "u < n \<Longrightarrow> v < n \<Longrightarrow> map (\<lambda>u. map (f u) [0..<n]) [0..<n] ! u ! v = f u v"
  by simp

lemma line_item_caps_entry:
  "u < length rs + length cart + 2 \<Longrightarrow> v < length rs + length cart + 2 \<Longrightarrow>
   line_item_caps rs cart ! u ! v =
     layered (length rs) (length cart) (\<lambda>i. unat (li_quantity (rs ! i)))
       (\<lambda>i j. if fst (cart ! j) \<in> set (li_acceptable (rs ! i)) then total_present cart else 0)
       (\<lambda>j. unat (snd (cart ! j))) u v"
  unfolding line_item_caps_def Let_def by (rule matrix_entry)

lemma line_item_caps_square: "square (length rs + length cart + 2) (line_item_caps rs cart)"
  by (auto simp: square_def line_item_caps_def Let_def)

section \<open>Assignments\<close>

text \<open>
  \<open>x i j\<close> units of cart entry \<open>j\<close> are assigned to requirement \<open>i\<close>, which accepts the
  item; every requirement is filled exactly and every unit is used.
\<close>

definition assignment ::
  "line_item_requirement list \<Rightarrow> (string \<times> u64) list \<Rightarrow> (nat \<Rightarrow> nat \<Rightarrow> nat) \<Rightarrow> bool" where
  "assignment rs cart x \<longleftrightarrow>
     (\<forall>i < length rs. \<forall>j < length cart. 0 < x i j \<longrightarrow> fst (cart ! j) \<in> set (li_acceptable (rs ! i)))
     \<and> (\<forall>i < length rs. (\<Sum>j < length cart. x i j) = unat (li_quantity (rs ! i)))
     \<and> (\<forall>j < length cart. (\<Sum>i < length rs. x i j) = unat (snd (cart ! j)))"

lemma assignment_totals: "assignment rs cart x \<Longrightarrow> total_wanted rs = total_present cart"
  unfolding total_wanted_def total_present_def sum_list_nth
  using sum.swap [of x "{..<length cart}" "{..<length rs}"] by (simp add: assignment_def)

text \<open>An assignment is a flow of the wanted value.\<close>

lemma assignment_flow:
  assumes x: "assignment rs cart x"
  defines "r \<equiv> length rs" and "s \<equiv> length cart"
  defines "f \<equiv> layered r s (\<lambda>i. unat (li_quantity (rs ! i))) x (\<lambda>j. unat (snd (cart ! j)))"
  defines "h \<equiv> \<lambda>u v. int (f u v) - int (f v u)"
  shows "is_flow (r + s + 2) (line_item_caps rs cart) 0 (Suc (r + s)) h"
    and "flow_value (r + s + 2) 0 h = int (total_wanted rs)"
proof -
  have le: "x i j \<le> total_present cart" if "i < r" "j < s" for i j
  proof -
    have "x i j \<le> (\<Sum>j < s. x i j)" using that by (intro member_le_sum) auto
    also have "\<dots> = unat (li_quantity (rs ! i))" using x that by (simp add: assignment_def r_def s_def)
    also have "\<dots> \<le> total_wanted rs" using that
      by (simp add: total_wanted_def r_def member_le_sum_list)
    finally show ?thesis using assignment_totals [OF x] by simp
  qed
  have cap: "f u v \<le> line_item_caps rs cart ! u ! v" if "u < r + s + 2" "v < r + s + 2" for u v
  proof -
    have acc: "x i j = 0" if "i < r" "j < s" "fst (cart ! j) \<notin> set (li_acceptable (rs ! i))" for i j
      using x that unfolding assignment_def r_def s_def by (metis not_gr_zero)
    have "line_item_caps rs cart ! u ! v = layered r s (\<lambda>i. unat (li_quantity (rs ! i)))
       (\<lambda>i j. if fst (cart ! j) \<in> set (li_acceptable (rs ! i)) then total_present cart else 0)
       (\<lambda>j. unat (snd (cart ! j))) u v" using line_item_caps_entry that by (simp add: r_def s_def)
    then show ?thesis using le acc by (auto simp: f_def layered_def)
  qed
  show "is_flow (r + s + 2) (line_item_caps rs cart) 0 (Suc (r + s)) h"
    unfolding is_flow_def
  proof (intro conjI allI impI)
    fix u v
    assume uv: "u < r + s + 2" "v < r + s + 2"
    show "h u v = - h v u" by (simp add: h_def)
    show "h u v \<le> int (line_item_caps rs cart ! u ! v)" using cap [OF uv] by (simp add: h_def)
  next
    fix u
    assume u: "u < r + s + 2" "u \<noteq> 0" "u \<noteq> Suc (r + s)"
    from u(1) show "(\<Sum>v < r + s + 2. h u v) = 0"
    proof (cases rule: node_cases)
      case (2 i)
      moreover have "(\<Sum>j < s. x i j) = unat (li_quantity (rs ! i))"
        using x 2 by (simp add: assignment_def r_def s_def)
      ultimately show ?thesis
        unfolding sum_nodes by (simp add: h_def f_def sum_subtractf flip: of_nat_sum)
    next
      case (3 j)
      moreover have "(\<Sum>i < r. x i j) = unat (snd (cart ! j))"
        using x 3 by (simp add: assignment_def r_def s_def)
      ultimately show ?thesis
        unfolding sum_nodes by (simp add: h_def f_def sum_subtractf sum_negf flip: of_nat_sum)
    qed (use u in simp_all)
  qed
  show "flow_value (r + s + 2) 0 h = int (total_wanted rs)"
    unfolding flow_value_def sum_nodes
    by (simp add: h_def f_def total_wanted_def sum_list_nth r_def sum_subtractf)
qed

text \<open>A flow of the wanted value is an assignment.\<close>

lemma flow_assignment:
  assumes tot: "total_wanted rs = total_present cart"
  defines "r \<equiv> length rs" and "s \<equiv> length cart"
  assumes g: "is_flow (r + s + 2) (line_item_caps rs cart) 0 (Suc (r + s)) g"
    and val: "flow_value (r + s + 2) 0 g = int (total_wanted rs)"
  shows "assignment rs cart (\<lambda>i j. nat (g (Suc i) (Suc (r + j))))"
proof -
  let ?q = "\<lambda>i. unat (li_quantity (rs ! i))" and ?p = "\<lambda>j. unat (snd (cart ! j))"
  let ?m = "\<lambda>i j. if fst (cart ! j) \<in> set (li_acceptable (rs ! i)) then total_present cart else 0"
  let ?c = "layered r s ?q ?m ?p"
  let ?x = "\<lambda>i j. g (Suc i) (Suc (r + j))"
  note anti = is_flow_anti [OF g]
  have up: "g u v \<le> int (?c u v)" if "u < r + s + 2" "v < r + s + 2" for u v
    using is_flow_cap [OF g that] line_item_caps_entry [of u rs cart v] that by (simp add: r_def s_def)
  have zero: "g u v = 0" if "u < r + s + 2" "v < r + s + 2" "?c u v = 0" "?c v u = 0" for u v
    using up [OF that(1,2)] up [OF that(2,1)] anti [OF that(1,2)] that(3,4) by simp
  have down: "0 \<le> g u v" if "u < r + s + 2" "v < r + s + 2" "?c v u = 0" for u v
    using up [OF that(2,1)] anti [OF that(1,2)] that(3) by simp
  have cons: "(\<Sum>v < r + s + 2. g u v) = 0" if "u < r + s + 2" "u \<noteq> 0" "u \<noteq> Suc (r + s)" for u
    using is_flow_cons [OF g that] .
  have nonneg: "0 \<le> ?x i j" if "i < r" "j < s" for i j
    using that by (intro down) simp_all
  have into: "(\<Sum>i < r. g 0 (Suc i)) = int (total_wanted rs)"
    using val zero [of 0 0] zero [of 0 "Suc (r + s)"] zero [of 0 "Suc (r + _)"]
    unfolding flow_value_def sum_nodes by simp
  have full: "g 0 (Suc i) = int (?q i)" if "i < r" for i
  proof (rule sum_mono_inv [where I = "{..<r}" and f = "\<lambda>i. g 0 (Suc i)" and g = "\<lambda>i. int (?q i)"])
    show "(\<Sum>i < r. g 0 (Suc i)) = (\<Sum>i < r. int (?q i))"
      using into by (simp add: total_wanted_def sum_list_nth r_def)
    show "g 0 (Suc i) \<le> int (?q i)" if "i \<in> {..<r}" for i using up [of 0 "Suc i"] that by simp
  qed (use that in simp_all)
  have row: "(\<Sum>j < s. ?x i j) = int (?q i)" if "i < r" for i
    using cons [of "Suc i"] that full [OF that] anti [of "Suc i" 0] zero [of "Suc i" "Suc _"]
    unfolding sum_nodes by simp
  have out: "(\<Sum>i < r. ?x i j) = g (Suc (r + j)) (Suc (r + s))" if "j < s" for j
  proof -
    have "g (Suc (r + j)) (Suc i) = - ?x i j" if "i < r" for i
      using anti [of "Suc (r + j)" "Suc i"] that \<open>j < s\<close> by simp
    then have "(\<Sum>i < r. g (Suc (r + j)) (Suc i)) = - (\<Sum>i < r. ?x i j)" by (simp add: sum_negf)
    then show ?thesis
      using cons [of "Suc (r + j)"] that zero [of "Suc (r + j)" 0] zero [of "Suc (r + j)" "Suc (r + _)"]
      unfolding sum_nodes by simp
  qed
  have all: "(\<Sum>j < s. \<Sum>i < r. ?x i j) = (\<Sum>j < s. int (?p j))"
  proof -
    have "(\<Sum>j < s. \<Sum>i < r. ?x i j) = (\<Sum>i < r. \<Sum>j < s. ?x i j)" by (rule sum.swap)
    also have "\<dots> = (\<Sum>i < r. int (?q i))" using row by simp
    also have "\<dots> = int (total_wanted rs)" by (simp add: total_wanted_def sum_list_nth r_def)
    also have "\<dots> = int (total_present cart)" using tot by simp
    finally show ?thesis by (simp add: total_present_def sum_list_nth s_def)
  qed
  have col: "(\<Sum>i < r. ?x i j) = int (?p j)" if "j < s" for j
  proof (rule sum_mono_inv [where I = "{..<s}" and f = "\<lambda>j. \<Sum>i < r. ?x i j" and g = "\<lambda>j. int (?p j)", OF all])
    show "(\<Sum>i < r. ?x i j) \<le> int (?p j)" if "j \<in> {..<s}" for j
      using out [of j] up [of "Suc (r + j)" "Suc (r + s)"] that by simp
  qed (use that in simp_all)
  have acc: "fst (cart ! j) \<in> set (li_acceptable (rs ! i))" if "i < r" "j < s" "0 < ?x i j" for i j
    using up [of "Suc i" "Suc (r + j)"] that by (auto split: if_splits)
  have rows: "(\<Sum>j < s. nat (?x i j)) = ?q i" if "i < r" for i
  proof -
    have "int (\<Sum>j < s. nat (?x i j)) = (\<Sum>j < s. ?x i j)" using nonneg [OF that] by simp
    with row [OF that] have "int (\<Sum>j < s. nat (?x i j)) = int (?q i)" by metis
    then show ?thesis by (rule of_nat_eq_iff [THEN iffD1])
  qed
  have cols: "(\<Sum>i < r. nat (?x i j)) = ?p j" if "j < s" for j
  proof -
    have "int (\<Sum>i < r. nat (?x i j)) = (\<Sum>i < r. ?x i j)" using nonneg that by simp
    with col [OF that] have "int (\<Sum>i < r. nat (?x i j)) = int (?p j)" by metis
    then show ?thesis by (rule of_nat_eq_iff [THEN iffD1])
  qed
  show ?thesis
    unfolding assignment_def using acc rows cols by (simp add: r_def s_def)
qed

section \<open>The decision\<close>

lemma max_flow_assignment:
  assumes "total_wanted rs = total_present cart"
  shows "max_flow (line_item_caps rs cart) 0 (Suc (length rs + length cart)) = Some (total_wanted rs)
    \<longleftrightarrow> (\<exists>x. assignment rs cart x)"
proof -
  let ?n = "length rs + length cart + 2" and ?t = "Suc (length rs + length cart)"
  from max_flow_exact [OF line_item_caps_square [of rs cart], of 0 ?t] obtain F g where
    F: "max_flow (line_item_caps rs cart) 0 ?t = Some F" "is_flow ?n (line_item_caps rs cart) 0 ?t g"
      "flow_value ?n 0 g = int F"
      "\<forall>h. is_flow ?n (line_item_caps rs cart) 0 ?t h \<longrightarrow> flow_value ?n 0 h \<le> int F" by auto
  have "F \<le> total_wanted rs"
  proof -
    have "int F \<le> (\<Sum>v < ?n. int (line_item_caps rs cart ! 0 ! v))"
      unfolding F(3) [symmetric] flow_value_def by (intro sum_mono is_flow_cap [OF F(2)]) auto
    also have "\<dots> = int (total_wanted rs)"
      unfolding sum_nodes by (simp add: line_item_caps_entry total_wanted_def sum_list_nth)
    finally show ?thesis by simp
  qed
  moreover have "total_wanted rs \<le> F" if "assignment rs cart x" for x
    using F(4) assignment_flow [OF that] by fastforce
  moreover have "\<exists>x. assignment rs cart x" if "F = total_wanted rs"
    using flow_assignment [OF assms] F(2,3) that by blast
  ultimately show ?thesis using F(1) by (auto intro: order.antisym)
qed

lemma line_items_iff:
  assumes "ev_checkout env = Some ck" and "length rs + length (ck_line_items ck) \<le> MAX_LINE_ITEM_NODES"
  shows "line_items rs env = Inr () \<longleftrightarrow>
    ck_line_items ck \<noteq> []
    \<and> (\<forall>e \<in> set (ck_line_items ck). \<exists>r \<in> set rs. fst e \<in> set (li_acceptable r))
    \<and> (\<exists>x. assignment rs (ck_line_items ck) x)"
proof (cases "\<forall>e \<in> set (ck_line_items ck). \<exists>r \<in> set rs. fst e \<in> set (li_acceptable r)")
  case True
  then have "find (\<lambda>e. \<not> list_ex (\<lambda>r. fst e \<in> set (li_acceptable r)) rs) (ck_line_items ck) = None"
    unfolding find_None_iff list_ex_iff by blast
  with True assms show ?thesis
    using max_flow_assignment [of rs "ck_line_items ck"] assignment_totals [of rs "ck_line_items ck"]
    by (auto simp: line_items_def Let_def)
next
  case False
  then obtain e where "find (\<lambda>e. \<not> list_ex (\<lambda>r. fst e \<in> set (li_acceptable r)) rs) (ck_line_items ck) = Some e"
    by (cases "find (\<lambda>e. \<not> list_ex (\<lambda>r. fst e \<in> set (li_acceptable r)) rs) (ck_line_items ck)")
      (auto simp: find_None_iff list_ex_iff)
  with False assms show ?thesis by (auto simp: line_items_def Let_def split: prod.splits)
qed

text \<open>C8: The line-item constraint accepts a checkout exactly when the quantities in the cart
  can be assigned to the requirements so that every requirement is filled exactly with
  acceptable items and nothing is left over, the cart is not empty and the size limit
  holds.\<close>
theorem line_items_exact:
  assumes "ev_checkout env = Some ck" and "length rs + length (ck_line_items ck) \<le> MAX_LINE_ITEM_NODES"
  shows "line_items rs env = Inr () \<longleftrightarrow>
    ck_line_items ck \<noteq> []
    \<and> (\<forall>e \<in> set (ck_line_items ck). \<exists>r \<in> set rs. fst e \<in> set (li_acceptable r))
    \<and> (\<exists>x. assignment rs (ck_line_items ck) x)"
  using assms by (rule line_items_iff)

text \<open>Two requirements that share an item: only one of the two greedy choices fits.\<close>

definition toy_requirements :: "line_item_requirement list" where
  "toy_requirements = [\<lparr>li_id = ''any'', li_acceptable = [''apple'', ''pear''], li_quantity = 2\<rparr>,
     \<lparr>li_id = ''fruit'', li_acceptable = [''apple''], li_quantity = 1\<rparr>]"

definition toy_cart :: "(string \<times> u64) list" where
  "toy_cart = [(''apple'', 2), (''pear'', 1)]"

definition toy_checkout_env :: eval_env where
  "toy_checkout_env = \<lparr>ev_now = 0, ev_tx = transaction_context_new AgentGenerated, ev_ledger = None,
     ev_checkout = Some \<lparr>ck_merchant = None, ck_line_items = toy_cart\<rparr>\<rparr>"

lemma toy_assignment:
  "assignment toy_requirements toy_cart (\<lambda>i j. if i = 0 then 1 else if j = 0 then 1 else 0)"
  by (auto simp: assignment_def toy_requirements_def toy_cart_def less_Suc_eq lessThan_Suc)

theorem line_items_exact_witness:
  "line_items toy_requirements toy_checkout_env = Inr ()"
proof -
  have "line_items toy_requirements toy_checkout_env = Inr () \<longleftrightarrow> toy_cart \<noteq> []
    \<and> (\<forall>e \<in> set toy_cart. \<exists>r \<in> set toy_requirements. fst e \<in> set (li_acceptable r))
    \<and> (\<exists>x. assignment toy_requirements toy_cart x)"
    using line_items_exact [of toy_checkout_env "\<lparr>ck_merchant = None, ck_line_items = toy_cart\<rparr>" toy_requirements]
    by (simp add: toy_checkout_env_def MAX_LINE_ITEM_NODES_def toy_requirements_def toy_cart_def)
  with toy_assignment show ?thesis by (auto simp: toy_requirements_def toy_cart_def)
qed

end
