(* ===== verification/AuthEvaluate.thy ===== *)
theory AuthEvaluate
  imports AuthLineItems Narrowing
begin

text \<open>
  Evaluation of constraints against a closed mandate, of whole mandates and of the chain of
  open mandates, and the issuance-time relation \<open>narrows\<close> with its per-constraint
  \<open>covers\<close> (crates/authority/src/evaluate.rs, constraint/mod.rs, aap.rs and ap2.rs).
\<close>

section \<open>AAP constraints\<close>

definition eval_actions :: "string list \<Rightarrow> action \<Rightarrow> failure + unit" where
  "eval_actions allowed a =
     (if act_action a \<in> set allowed then Inr ()
      else Inl (Violated [Lit ''action '', Dbg (act_action a), Lit '' is not allowed'']))"

definition eval_resources :: "string list \<Rightarrow> action \<Rightarrow> failure + unit" where
  "eval_resources allowed a =
     (case act_resource a of
        Some r \<Rightarrow> (if r \<in> set allowed then Inr ()
          else Inl (Violated [Lit ''resource '', Dbg r, Lit '' is not allowed'']))
      | None \<Rightarrow> Inl (Violated [Lit ''the mandate restricts resources, the action names none'']))"

definition eval_data_categories :: "string list \<Rightarrow> action \<Rightarrow> failure + unit" where
  "eval_data_categories allowed a =
     (case find (\<lambda>c. c \<notin> set allowed) (case act_data_categories a of Some cs \<Rightarrow> cs | None \<Rightarrow> []) of
        Some c \<Rightarrow> Inl (Violated [Lit ''data category '', Dbg c, Lit '' is not allowed''])
      | None \<Rightarrow> Inr ())"

definition eval_time_windows :: "chrono \<Rightarrow> time_window_v1 list \<Rightarrow> i64 \<Rightarrow> failure + unit" where
  "eval_time_windows K windows now =
     (if list_ex (\<lambda>w. window_contains K w now) windows then Inr ()
      else Inl (Violated [Lit ''the verifier's clock is outside every allowed time window'']))"

definition eval_amount_cap :: "amount_cap \<Rightarrow> action \<Rightarrow> failure + unit" where
  "eval_amount_cap cap a =
     (case act_amount a of
        None \<Rightarrow> Inr ()
      | Some amount \<Rightarrow>
          if am_currency amount \<noteq> ac_currency cap then
            Inl (Violated [Lit ''currency '', Lit (am_currency amount),
              Lit '' does not match the mandate's '', Lit (ac_currency cap)])
          else if am_minor amount > ac_max cap then
            Inl (Violated [Lit ''amount '', Num (uint (am_minor amount)), Lit '' exceeds the ceiling '',
              Num (uint (ac_max cap))])
          else Inr ())"

definition eval_counterparties :: "counterparties_v1 \<Rightarrow> action \<Rightarrow> failure + unit" where
  "eval_counterparties c a =
     (case act_counterparty a of
        None \<Rightarrow> Inl (Violated [Lit ''the mandate restricts counterparties, the action names none''])
      | Some cp \<Rightarrow>
          if (case cv_deny c of Some deny \<Rightarrow> cp \<in> set deny | None \<Rightarrow> False) then
            Inl (Violated [Lit ''counterparty '', Dbg cp, Lit '' is denied''])
          else (case cv_allow c of
              Some allow \<Rightarrow> (if cp \<notin> set allow
                then Inl (Violated [Lit ''counterparty '', Dbg cp, Lit '' is not allowed'']) else Inr ())
            | None \<Rightarrow> Inr ()))"

section \<open>AP2 constraints\<close>

definition eval_allowed_merchants :: "merchant list \<Rightarrow> eval_env \<Rightarrow> failure + unit" where
  "eval_allowed_merchants allowed env =
     rbind (ok_or (ev_checkout env) (Unresolved [Lit ''no trusted checkout to read the merchant from'']))
       (\<lambda>checkout.
     rbind (ok_or (ck_merchant checkout) (Violated [Lit ''the checkout names no merchant'']))
       (\<lambda>m.
     if list_ex (\<lambda>x. mc_id x = mc_id m) allowed then Inr ()
     else Inl (Violated [Lit ''merchant '', Dbg (mc_id m), Lit '' is not allowed''])))"

definition eval_amount_range :: "amount_range \<Rightarrow> payment_mandate \<Rightarrow> failure + unit" where
  "eval_amount_range r p =
     (let amount = pm_payment_amount p in
      if am_currency amount \<noteq> ar_currency r then
        Inl (Violated [Lit ''currency '', Lit (am_currency amount), Lit '' does not match '', Lit (ar_currency r)])
      else if am_minor amount > ar_max r then
        Inl (Violated [Lit ''amount '', Num (uint (am_minor amount)), Lit '' exceeds maximum '', Num (uint (ar_max r))])
      else (case ar_min r of
          Some lo \<Rightarrow> (if am_minor amount < lo then
              Inl (Violated [Lit ''amount '', Num (uint (am_minor amount)), Lit '' is below minimum '', Num (uint lo)])
            else Inr ())
        | None \<Rightarrow> Inr ()))"

definition eval_allowed_payees :: "merchant list \<Rightarrow> payment_mandate \<Rightarrow> failure + unit" where
  "eval_allowed_payees allowed p =
     (if list_ex (\<lambda>m. mc_id m = mc_id (pm_payee p)) allowed then Inr ()
      else Inl (Violated [Lit ''payee '', Dbg (mc_id (pm_payee p)), Lit '' is not allowed'']))"

definition eval_allowed_instruments :: "payment_instrument list \<Rightarrow> payment_mandate \<Rightarrow> failure + unit" where
  "eval_allowed_instruments allowed p =
     (if list_ex (\<lambda>i. pi_id i = pi_id (pm_payment_instrument p)) allowed then Inr ()
      else Inl (Violated [Lit ''payment instrument '', Dbg (pi_id (pm_payment_instrument p)),
        Lit '' is not allowed'']))"

definition eval_allowed_pisps :: "pisp list \<Rightarrow> payment_mandate \<Rightarrow> failure + unit" where
  "eval_allowed_pisps allowed p =
     (case pm_pisp p of
        Some x \<Rightarrow> (if x \<in> set allowed then Inr ()
          else Inl (Violated [Lit ''PISP '', Dbg (ps_domain_name x), Lit '' is not allowed'']))
      | None \<Rightarrow> Inl (Violated [Lit ''the payment names no PISP'']))"

text \<open>The counter of a mandate, or why there is none.\<close>

definition usage_of :: "string \<Rightarrow> eval_env \<Rightarrow> string \<Rightarrow> failure + usage" where
  "usage_of name env key =
     rbind (ok_or (ev_ledger env) (Unresolved [Lit name, Lit '' needs a usage ledger''])) (\<lambda>ledger.
     map_err (\<lambda>e. Unresolved (Lit ''usage ledger: '' # e)) (ledger key))"

definition eval_budget :: "budget \<Rightarrow> payment_mandate \<Rightarrow> eval_env \<Rightarrow> string \<Rightarrow> failure + unit" where
  "eval_budget b p env key =
     (if am_currency (pm_payment_amount p) \<noteq> bg_currency b then
        Inl (Violated [Lit ''currency '', Lit (am_currency (pm_payment_amount p)),
          Lit '' does not match the budget's '', Lit (bg_currency b)])
      else
        rbind (usage_of ''payment.budget'' env key) (\<lambda>usage.
        if (case u64_checked_add (us_total_minor usage) (am_minor (pm_payment_amount p)) of
              Some spent \<Rightarrow> spent \<le> bg_max b | None \<Rightarrow> False) then Inr ()
        else Inl (Violated [Lit ''cumulative spend would exceed the budget '', Num (uint (bg_max b)),
          Lit '' (spent '', Num (uint (us_total_minor usage)), Lit '')''])))"

definition add_months :: "chrono \<Rightarrow> i64 \<Rightarrow> nat \<Rightarrow> i64 option" where
  "add_months K l n =
     Option.bind (from_timestamp K l) (\<lambda>t.
     Option.bind (dt_checked_add_months K t n) (\<lambda>t'. Some (dt_timestamp K t')))"

fun next_after :: "chrono \<Rightarrow> frequency \<Rightarrow> i64 \<Rightarrow> i64 option" where
  "next_after K OnDemand l = Some l"
| "next_after K Daily l = i64_checked_add l 86400"
| "next_after K Weekly l = i64_checked_add l (7 * 86400)"
| "next_after K Biweekly l = i64_checked_add l (14 * 86400)"
| "next_after K Monthly l = add_months K l 1"
| "next_after K Quarterly l = add_months K l 3"
| "next_after K Annually l = add_months K l 12"

definition eval_recurrence :: "chrono \<Rightarrow> agent_recurrence \<Rightarrow> eval_env \<Rightarrow> string \<Rightarrow> failure + unit" where
  "eval_recurrence K r env key =
     rbind (usage_of ''payment.agent_recurrence'' env key) (\<lambda>usage.
     rbind (case re_max_occurrences r of
              Some m \<Rightarrow> (if us_uses usage \<ge> m then
                  Inl (Violated [Lit ''maximum occurrences reached ('', Num (uint (us_uses usage)),
                    Lit '' of '', Num (uint m), Lit '')''])
                else Inr ())
            | None \<Rightarrow> Inr ()) (\<lambda>_.
     case us_last_use usage of
       Some l \<Rightarrow>
         (case next_after K (re_frequency r) l of
            Some n \<Rightarrow> if ev_now env \<ge> n then Inr ()
              else Inl (Violated [Lit ''too soon after the previous use for its frequency''])
          | None \<Rightarrow> Inl (Violated [Lit ''too soon after the previous use for its frequency'']))
     | None \<Rightarrow> Inr ()))"

definition execution_range :: "chrono \<Rightarrow> payment_mandate \<Rightarrow> i64 \<Rightarrow> failure + i64 \<times> i64" where
  "execution_range K p now =
     (case pm_execution_date p of
        None \<Rightarrow> Inr (now, now)
      | Some s \<Rightarrow> ok_or (instant_range K s)
          (Violated [Lit ''execution_date '', Dbg s, Lit '' is not an ISO 8601 date'']))"

definition eval_execution_date :: "chrono \<Rightarrow> execution_date \<Rightarrow> payment_mandate \<Rightarrow> i64 \<Rightarrow> failure + unit" where
  "eval_execution_date K d p now =
     rbind (execution_range K p now) (\<lambda>(a, b).
     if (case ed_not_before d of Some nb \<Rightarrow> a < nb | None \<Rightarrow> False) then
       Inl (Violated [Lit ''execution date is before the allowed window''])
     else if (case ed_not_after d of Some na \<Rightarrow> b > na | None \<Rightarrow> False) then
       Inl (Violated [Lit ''execution date is after the allowed window''])
     else Inr ())"

definition eval_reference :: "string \<Rightarrow> eval_env \<Rightarrow> failure + unit" where
  "eval_reference i env =
     (case tx_open_checkout_hash (ev_tx env) of
        None \<Rightarrow> Inl (Unresolved [Lit ''payment.reference needs the open checkout mandate's hash''])
      | Some h \<Rightarrow> (if h = i then Inr ()
          else Inl (Violated [Lit ''payment is for open checkout '', Dbg h, Lit '', the mandate allows '', Dbg i])))"

section \<open>Evaluation of one constraint\<close>

definition does_not_apply :: "constraint \<Rightarrow> closed_mandate \<Rightarrow> failure + unit" where
  "does_not_apply c cl =
     Inl (Unresolved [Lit (constraint_type_name c), Lit '' does not apply to '',
       Lit (closed_vct (closed_family cl))])"

definition on_action ::
  "constraint \<Rightarrow> closed_mandate \<Rightarrow> (action \<Rightarrow> failure + unit) \<Rightarrow> failure + unit" where
  "on_action c cl ev = (case cl_content cl of ClosedAction a \<Rightarrow> ev a | _ \<Rightarrow> does_not_apply c cl)"

definition on_checkout :: "constraint \<Rightarrow> closed_mandate \<Rightarrow> failure + unit \<Rightarrow> failure + unit" where
  "on_checkout c cl r = (case cl_content cl of ClosedCheckout _ \<Rightarrow> r | _ \<Rightarrow> does_not_apply c cl)"

definition on_payment ::
  "constraint \<Rightarrow> closed_mandate \<Rightarrow> (payment_mandate \<Rightarrow> failure + unit) \<Rightarrow> failure + unit" where
  "on_payment c cl ev = (case cl_content cl of ClosedPayment p \<Rightarrow> ev p | _ \<Rightarrow> does_not_apply c cl)"

definition constraint_evaluate ::
  "chrono \<Rightarrow> constraint \<Rightarrow> closed_mandate \<Rightarrow> eval_env \<Rightarrow> string \<Rightarrow> failure + unit" where
  "constraint_evaluate K c cl env key =
     (case c of
        C_Delegation _ \<Rightarrow> Inr ()
      | C_Actions allowed \<Rightarrow> on_action c cl (eval_actions allowed)
      | C_Resources allowed \<Rightarrow> on_action c cl (eval_resources allowed)
      | C_Amount cap \<Rightarrow> on_action c cl (eval_amount_cap cap)
      | C_Counterparties cps \<Rightarrow> on_action c cl (eval_counterparties cps)
      | C_DataCategories allowed \<Rightarrow> on_action c cl (eval_data_categories allowed)
      | C_TimeWindows windows \<Rightarrow> on_action c cl (\<lambda>_. eval_time_windows K windows (ev_now env))
      | C_AllowedMerchants allowed \<Rightarrow> on_checkout c cl (eval_allowed_merchants allowed env)
      | C_LineItems items \<Rightarrow> on_checkout c cl (line_items items env)
      | C_AmountRange r \<Rightarrow> on_payment c cl (eval_amount_range r)
      | C_AllowedPayees allowed \<Rightarrow> on_payment c cl (eval_allowed_payees allowed)
      | C_AllowedPaymentInstruments allowed \<Rightarrow> on_payment c cl (eval_allowed_instruments allowed)
      | C_AllowedPisps allowed \<Rightarrow> on_payment c cl (eval_allowed_pisps allowed)
      | C_Budget b \<Rightarrow> on_payment c cl (\<lambda>p. eval_budget b p env key)
      | C_AgentRecurrence r \<Rightarrow> on_payment c cl (\<lambda>_. eval_recurrence K r env key)
      | C_ExecutionDate d \<Rightarrow> on_payment c cl (\<lambda>p. eval_execution_date K d p (ev_now env))
      | C_Reference i \<Rightarrow> on_payment c cl (\<lambda>_. eval_reference i env))"

section \<open>Mandates and chains\<close>

datatype cause =
    FamilyMismatch family family
  | Preset string
  | AmountWithoutCeiling
  | ConstraintCause string failure

definition has_ceiling :: "open_mandate \<Rightarrow> bool" where
  "has_ceiling m \<longleftrightarrow> list_ex (\<lambda>c. case c of C_Amount _ \<Rightarrow> True | _ \<Rightarrow> False) (om_constraints m)"

definition moves_money :: "closed_mandate \<Rightarrow> bool" where
  "moves_money cl \<longleftrightarrow> (case cl_content cl of ClosedAction a \<Rightarrow> act_amount a \<noteq> None | _ \<Rightarrow> False)"

definition open_accepts :: "chrono \<Rightarrow> open_mandate \<Rightarrow> closed_mandate \<Rightarrow> eval_env \<Rightarrow> cause + unit" where
  "open_accepts K m cl env =
     (if om_family m \<noteq> closed_family cl then
        Inl (FamilyMismatch (om_family m) (closed_family cl))
      else
        rbind (try_each (\<lambda>(claim, v). if obj_get (cl_claims cl) claim \<noteq> Some v
                 then Inl (Preset claim) else Inr ()) (om_presets m)) (\<lambda>_.
        if moves_money cl \<and> \<not> has_ceiling m then Inl AmountWithoutCeiling
        else try_each (\<lambda>c. map_err (ConstraintCause (constraint_type_name c))
               (constraint_evaluate K c cl env (om_ledger_key m))) (om_constraints m)))"

record chain_failure =
  cf_link :: nat
  cf_cause :: cause

fun evaluate_from :: "chrono \<Rightarrow> nat \<Rightarrow> open_mandate list \<Rightarrow> closed_mandate \<Rightarrow> eval_env \<Rightarrow> chain_failure + unit" where
  "evaluate_from K link [] cl env = Inr ()"
| "evaluate_from K link (m # ms) cl env =
     rbind (map_err (\<lambda>cause. \<lparr>cf_link = link, cf_cause = cause\<rparr>) (open_accepts K m cl env)) (\<lambda>_.
     evaluate_from K (link + 1) ms cl env)"

definition evaluate_chain ::
  "chrono \<Rightarrow> open_mandate list \<Rightarrow> closed_mandate \<Rightarrow> eval_env \<Rightarrow> chain_failure + unit" where
  "evaluate_chain K opens cl env = evaluate_from K 0 opens cl env"

section \<open>Narrowing\<close>

definition allow_covers :: "string list option \<Rightarrow> string list option \<Rightarrow> bool" where
  "allow_covers p c =
     (case p of None \<Rightarrow> True
      | Some ps \<Rightarrow> (case c of Some cs \<Rightarrow> list_all (\<lambda>x. x \<in> set ps) cs | None \<Rightarrow> False))"

definition counterparties_covers :: "counterparties_v1 \<Rightarrow> counterparties_v1 \<Rightarrow> bool" where
  "counterparties_covers p c \<longleftrightarrow>
     allow_covers (cv_allow p) (cv_allow c)
     \<and> list_all (\<lambda>d. d \<in> set (case cv_deny c of Some ds \<Rightarrow> ds | None \<Rightarrow> []))
         (case cv_deny p of Some ds \<Rightarrow> ds | None \<Rightarrow> [])"

definition amount_cap_covers :: "amount_cap \<Rightarrow> amount_cap \<Rightarrow> bool" where
  "amount_cap_covers p c \<longleftrightarrow> ac_currency p = ac_currency c \<and> ac_max c \<le> ac_max p"

definition amount_range_covers :: "amount_range \<Rightarrow> amount_range \<Rightarrow> bool" where
  "amount_range_covers p c \<longleftrightarrow> ar_currency p = ar_currency c \<and> ar_max c \<le> ar_max p
     \<and> (case ar_min c of Some x \<Rightarrow> x | None \<Rightarrow> 0) \<ge> (case ar_min p of Some x \<Rightarrow> x | None \<Rightarrow> 0)"

definition recurrence_covers :: "agent_recurrence \<Rightarrow> agent_recurrence \<Rightarrow> bool" where
  "recurrence_covers p c \<longleftrightarrow> re_frequency p = re_frequency c
     \<and> (case re_max_occurrences p of None \<Rightarrow> True
        | Some pm \<Rightarrow> (case re_max_occurrences c of Some cm \<Rightarrow> cm \<le> pm | None \<Rightarrow> False))"

definition execution_date_covers :: "execution_date \<Rightarrow> execution_date \<Rightarrow> bool" where
  "execution_date_covers p c \<longleftrightarrow>
     (case ed_not_before p of None \<Rightarrow> True
      | Some pb \<Rightarrow> (case ed_not_before c of Some cb \<Rightarrow> cb \<ge> pb | None \<Rightarrow> False))
     \<and> (case ed_not_after p of None \<Rightarrow> True
      | Some pa \<Rightarrow> (case ed_not_after c of Some ca \<Rightarrow> ca \<le> pa | None \<Rightarrow> False))"

definition constraint_covers :: "constraint \<Rightarrow> constraint \<Rightarrow> bool" where
  "constraint_covers p child =
     (case p of
        C_Actions ps \<Rightarrow> (case child of C_Actions cs \<Rightarrow> list_all (\<lambda>x. x \<in> set ps) cs | _ \<Rightarrow> False)
      | C_Resources ps \<Rightarrow> (case child of C_Resources cs \<Rightarrow> list_all (\<lambda>x. x \<in> set ps) cs | _ \<Rightarrow> False)
      | C_DataCategories ps \<Rightarrow>
          (case child of C_DataCategories cs \<Rightarrow> list_all (\<lambda>x. x \<in> set ps) cs | _ \<Rightarrow> False)
      | C_Amount pc \<Rightarrow> (case child of C_Amount cc \<Rightarrow> amount_cap_covers pc cc | _ \<Rightarrow> False)
      | C_Counterparties pc \<Rightarrow> (case child of C_Counterparties cc \<Rightarrow> counterparties_covers pc cc | _ \<Rightarrow> False)
      | C_TimeWindows ps \<Rightarrow>
          (case child of C_TimeWindows cs \<Rightarrow> list_all (\<lambda>w. covered_by w ps) cs | _ \<Rightarrow> False)
      | C_Delegation _ \<Rightarrow> (case child of C_Delegation _ \<Rightarrow> True | _ \<Rightarrow> False)
      | C_AllowedMerchants ps \<Rightarrow>
          (case child of C_AllowedMerchants cs \<Rightarrow> list_all (\<lambda>m. list_ex (\<lambda>x. mc_id x = mc_id m) ps) cs | _ \<Rightarrow> False)
      | C_AllowedPayees ps \<Rightarrow>
          (case child of C_AllowedPayees cs \<Rightarrow> list_all (\<lambda>m. list_ex (\<lambda>x. mc_id x = mc_id m) ps) cs | _ \<Rightarrow> False)
      | C_LineItems ps \<Rightarrow> (case child of C_LineItems cs \<Rightarrow> ps = cs | _ \<Rightarrow> False)
      | C_AmountRange pr \<Rightarrow> (case child of C_AmountRange cr \<Rightarrow> amount_range_covers pr cr | _ \<Rightarrow> False)
      | C_AllowedPaymentInstruments ps \<Rightarrow>
          (case child of C_AllowedPaymentInstruments cs \<Rightarrow>
             list_all (\<lambda>i. list_ex (\<lambda>x. pi_id x = pi_id i) ps) cs | _ \<Rightarrow> False)
      | C_AllowedPisps ps \<Rightarrow> (case child of C_AllowedPisps cs \<Rightarrow> list_all (\<lambda>i. i \<in> set ps) cs | _ \<Rightarrow> False)
      | C_Budget pb \<Rightarrow>
          (case child of C_Budget cb \<Rightarrow> bg_currency pb = bg_currency cb \<and> bg_max cb \<le> bg_max pb | _ \<Rightarrow> False)
      | C_AgentRecurrence pr \<Rightarrow> (case child of C_AgentRecurrence cr \<Rightarrow> recurrence_covers pr cr | _ \<Rightarrow> False)
      | C_ExecutionDate pd \<Rightarrow> (case child of C_ExecutionDate cd \<Rightarrow> execution_date_covers pd cd | _ \<Rightarrow> False)
      | C_Reference ph \<Rightarrow> (case child of C_Reference ch \<Rightarrow> ph = ch | _ \<Rightarrow> False))"

definition is_delegation :: "constraint \<Rightarrow> bool" where
  "is_delegation c = (case c of C_Delegation _ \<Rightarrow> True | _ \<Rightarrow> False)"

definition narrows_v1 :: "open_mandate \<Rightarrow> open_mandate \<Rightarrow> bool" where
  "narrows_v1 parent child =
     (if om_family parent \<noteq> om_family child
         \<or> u32_saturating_add (om_max_depth child) 1 > om_max_depth parent then False
      else if list_ex (\<lambda>(k, v). obj_get (om_presets child) k \<noteq> Some v) (om_presets parent) then False
      else if has_ceiling child \<and> \<not> has_ceiling parent then False
      else list_all (\<lambda>p. list_ex (\<lambda>c. constraint_type_name c = constraint_type_name p
               \<and> constraint_covers p c) (om_constraints child))
             (filter (\<lambda>p. \<not> is_delegation p) (om_constraints parent)))"

end
