(* ===== verification/AuthNarrow.thy ===== *)
theory AuthNarrow
  imports AuthEvaluate
begin

text \<open>
  What narrowing guarantees: a constraint that covers another accepts whatever the other
  accepts, for all seventeen types, and a parent accepts whatever a mandate that narrows it
  accepts. The chain is related to its mandates one by one; what each of them asks is
  stated in AuthPermit.
\<close>

section \<open>Chains\<close>

lemma evaluate_from_Inr:
  "evaluate_from K link ms cl env = Inr () \<longleftrightarrow> (\<forall>m \<in> set ms. open_accepts K m cl env = Inr ())"
  by (induction ms arbitrary: link) auto

lemma evaluate_from_Inl:
  "evaluate_from K link ms cl env = Inl f \<longleftrightarrow>
     (\<exists>i < length ms. cf_link f = link + i \<and> open_accepts K (ms ! i) cl env = Inl (cf_cause f)
        \<and> (\<forall>j < i. open_accepts K (ms ! j) cl env = Inr ()))"
proof (induction ms arbitrary: link)
  case (Cons m ms)
  show ?case
  proof (cases "open_accepts K m cl env")
    case (Inl c)
    have "(\<exists>i < length (m # ms). cf_link f = link + i \<and> open_accepts K ((m # ms) ! i) cl env = Inl (cf_cause f)
        \<and> (\<forall>j < i. open_accepts K ((m # ms) ! j) cl env = Inr ()))
      \<longleftrightarrow> cf_link f = link \<and> c = cf_cause f" (is "?l \<longleftrightarrow> ?r")
    proof
      assume ?l
      then obtain i where i: "cf_link f = link + i" "open_accepts K ((m # ms) ! i) cl env = Inl (cf_cause f)"
        "\<forall>j < i. open_accepts K ((m # ms) ! j) cl env = Inr ()" by blast
      with Inl have "i = 0" by (cases i) auto
      with i Inl show ?r by simp
    qed (use Inl in \<open>auto intro: exI [of _ 0]\<close>)
    with Inl show ?thesis by (cases f) auto
  next
    case (Inr u)
    then have "evaluate_from K link (m # ms) cl env = evaluate_from K (Suc link) ms cl env" by simp
    also have "\<dots> = Inl f \<longleftrightarrow> (\<exists>i < length ms. cf_link f = Suc link + i
        \<and> open_accepts K (ms ! i) cl env = Inl (cf_cause f)
        \<and> (\<forall>j < i. open_accepts K (ms ! j) cl env = Inr ()))" by (rule Cons.IH)
    also have "\<dots> \<longleftrightarrow> (\<exists>i < length (m # ms). cf_link f = link + i
        \<and> open_accepts K ((m # ms) ! i) cl env = Inl (cf_cause f)
        \<and> (\<forall>j < i. open_accepts K ((m # ms) ! j) cl env = Inr ()))"
      (is "(\<exists>i < _. ?A i) \<longleftrightarrow> (\<exists>i < _. ?B i)")
    proof
      assume "\<exists>i < length ms. ?A i"
      then obtain i where "i < length ms" "?A i" by blast
      with Inr have "Suc i < length (m # ms)" "?B (Suc i)" by (auto simp: less_Suc_eq_0_disj)
      then show "\<exists>i < length (m # ms). ?B i" by blast
    next
      assume "\<exists>i < length (m # ms). ?B i"
      then obtain i where i: "i < length (m # ms)" "?B i" by blast
      with Inr obtain k where k: "i = Suc k" by (cases i) auto
      from i(2) have "\<forall>j < k. open_accepts K ((m # ms) ! Suc j) cl env = Inr ()"
        unfolding k by (meson Suc_less_eq)
      with i k have "k < length ms" "?A k" by simp_all
      then show "\<exists>i < length ms. ?A i" by blast
    qed
    finally show ?thesis .
  qed
qed simp

lemma open_accepts_Inr:
  "open_accepts K m cl env = Inr () \<longleftrightarrow>
     om_family m = closed_family cl
     \<and> (\<forall>(k, v) \<in> set (om_presets m). obj_get (cl_claims cl) k = Some v)
     \<and> (moves_money cl \<longrightarrow> has_ceiling m)
     \<and> (\<forall>c \<in> set (om_constraints m). constraint_evaluate K c cl env (om_ledger_key m) = Inr ())"
proof -
  have "(case x of (claim, v) \<Rightarrow> if obj_get (cl_claims cl) claim \<noteq> Some v then Inl (Preset claim) else Inr ())
      = Inr () \<longleftrightarrow> (case x of (k, v) \<Rightarrow> obj_get (cl_claims cl) k = Some v)" for x
    by (cases x) auto
  then show ?thesis by (auto simp: open_accepts_def)
qed

section \<open>Constraints\<close>

type_synonym evaluation = "chrono \<times> closed_mandate \<times> eval_env \<times> string"

definition constraint_ok :: "constraint \<Rightarrow> evaluation \<Rightarrow> bool" where
  "constraint_ok c e = (case e of (K, cl, env, key) \<Rightarrow> constraint_evaluate K c cl env key = Inr ())"

definition constraint_narrower :: "constraint \<Rightarrow> constraint \<Rightarrow> bool" where
  "constraint_narrower p c \<longleftrightarrow> constraint_wf p \<and> constraint_wf c \<and> constraint_covers p c"

named_theorems evaluation "the evaluators"

lemmas [evaluation] = constraint_ok_def constraint_narrower_def constraint_evaluate_def constraint_covers_def
  on_action_def on_checkout_def on_payment_def does_not_apply_def

lemma find_subset:
  "(case find (\<lambda>c. c \<notin> A) cs of Some c \<Rightarrow> Inl (f c) | None \<Rightarrow> Inr ()) = Inr () \<longleftrightarrow> set cs \<subseteq> A"
  by (induction cs) auto

lemma eval_data_categories_Inr:
  "eval_data_categories allowed a = Inr () \<longleftrightarrow>
     set (case act_data_categories a of Some cs \<Rightarrow> cs | None \<Rightarrow> []) \<subseteq> set allowed"
  unfolding eval_data_categories_def by (rule find_subset)

lemma counterparties_covers_sound:
  "counterparties_covers p c \<Longrightarrow> eval_counterparties c a = Inr () \<Longrightarrow> eval_counterparties p a = Inr ()"
  by (auto simp: counterparties_covers_def allow_covers_def eval_counterparties_def list_all_iff
      split: option.splits if_splits)

lemma amount_range_covers_sound:
  "amount_range_covers p c \<Longrightarrow> eval_amount_range c m = Inr () \<Longrightarrow> eval_amount_range p m = Inr ()"
  by (auto simp: amount_range_covers_def eval_amount_range_def Let_def split: option.splits if_splits)

lemma recurrence_covers_sound:
  "recurrence_covers p c \<Longrightarrow> eval_recurrence K c env key = Inr () \<Longrightarrow> eval_recurrence K p env key = Inr ()"
  by (cases "usage_of ''payment.agent_recurrence'' env key")
    (auto simp: recurrence_covers_def eval_recurrence_def split: option.splits if_splits)

lemma execution_date_covers_sound:
  "execution_date_covers p c \<Longrightarrow> eval_execution_date K c m now = Inr () \<Longrightarrow> eval_execution_date K p m now = Inr ()"
  by (cases "execution_range K m now")
    (auto simp: execution_date_covers_def eval_execution_date_def split: option.splits if_splits)

lemma budget_covers_sound:
  "bg_currency p = bg_currency c \<Longrightarrow> bg_max c \<le> bg_max p \<Longrightarrow> eval_budget c m env key = Inr ()
    \<Longrightarrow> eval_budget p m env key = Inr ()"
  by (cases "usage_of ''payment.budget'' env key") (auto simp: eval_budget_def split: option.splits if_splits)

lemma windows_cover_sound:
  assumes "list_all window_wf ps" "list_all window_wf cs" "list_all (\<lambda>w. covered_by w ps) cs"
    and "eval_time_windows K cs now = Inr ()"
  shows "eval_time_windows K ps now = Inr ()"
  using assms covered_by_sound by (fastforce simp: eval_time_windows_def list_all_iff list_ex_iff split: if_splits)

lemma constraint_covers_sound:
  assumes "constraint_narrower p c" and "constraint_ok c e"
  shows "constraint_ok p e"
proof -
  obtain K cl env key where e: "e = (K, cl, env, key)" by (cases e) auto
  note assms = assms [unfolded e]
  have "constraint_ok p (K, cl, env, key)"
  proof (cases p)
    case (C_Counterparties pc)
    with assms counterparties_covers_sound show ?thesis
      by (auto simp: evaluation split: constraint.splits closed_content.splits)
  next
    case (C_TimeWindows ps)
    with assms obtain cs where c: "c = C_TimeWindows cs" by (auto simp: evaluation split: constraint.splits)
    with C_TimeWindows assms windows_cover_sound show ?thesis
      by (auto simp: evaluation constraint_wf_def split: closed_content.splits)
  next
    case (C_AmountRange pr)
    with assms amount_range_covers_sound show ?thesis
      by (auto simp: evaluation split: constraint.splits closed_content.splits)
  next
    case (C_Budget pb)
    with assms budget_covers_sound show ?thesis
      by (auto simp: evaluation split: constraint.splits closed_content.splits)
  next
    case (C_AgentRecurrence pr)
    with assms recurrence_covers_sound show ?thesis
      by (auto simp: evaluation split: constraint.splits closed_content.splits)
  next
    case (C_ExecutionDate pd)
    with assms execution_date_covers_sound show ?thesis
      by (auto simp: evaluation split: constraint.splits closed_content.splits)
  next
    case (C_DataCategories ps)
    with assms show ?thesis
      by (auto simp: evaluation eval_data_categories_Inr list_all_iff
          split: constraint.splits closed_content.splits)
  next
    case (C_AllowedMerchants ps)
    with assms show ?thesis
      by (fastforce simp: evaluation eval_allowed_merchants_def list_all_iff list_ex_iff
          split: constraint.splits closed_content.splits if_splits)
  next
    case (C_AllowedPayees ps)
    with assms show ?thesis
      by (fastforce simp: evaluation eval_allowed_payees_def list_all_iff list_ex_iff
          split: constraint.splits closed_content.splits if_splits)
  next
    case (C_AllowedPaymentInstruments ps)
    with assms show ?thesis
      by (fastforce simp: evaluation eval_allowed_instruments_def list_all_iff list_ex_iff
          split: constraint.splits closed_content.splits if_splits)
  qed (use assms in \<open>auto simp: evaluation eval_actions_def eval_resources_def eval_amount_cap_def amount_cap_covers_def
      eval_allowed_pisps_def list_all_iff split: constraint.splits closed_content.splits option.splits if_splits\<close>)
  then show ?thesis by (simp add: e)
qed

interpretation constraints: narrowing constraint_ok constraint_narrower
  by unfold_locales (rule constraint_covers_sound)

section \<open>Mandates\<close>

definition mandate_wf :: "open_mandate \<Rightarrow> bool" where
  "mandate_wf m \<longleftrightarrow> list_all constraint_wf (om_constraints m)"

lemma read_constraints_wf:
  "read_constraints K family i items = Inr cs \<Longrightarrow> list_all constraint_wf cs"
  by (induction items arbitrary: i cs) (auto split: if_splits dest: constraint_parse_wf)

lemma open_parse_wf: "open_parse K claims key = Inr m \<Longrightarrow> mandate_wf m"
  by (auto simp: open_parse_def mandate_wf_def dest: read_constraints_wf split: if_splits)

definition stateful :: "constraint \<Rightarrow> bool" where
  "stateful c = (case c of C_Budget _ \<Rightarrow> True | C_AgentRecurrence _ \<Rightarrow> True | _ \<Rightarrow> False)"

text \<open>Only the stateful constraints read the usage counter.\<close>

lemma stateless_key:
  "\<not> stateful c \<Longrightarrow> constraint_evaluate K c cl env key = constraint_evaluate K c cl env key'"
  by (auto simp: stateful_def constraint_evaluate_def split: constraint.splits)

lemma narrows_v1_accepts:
  assumes narrows: "narrows_v1 parent child" and wf: "mandate_wf parent" "mandate_wf child"
    and child: "open_accepts K child cl env = Inr ()"
    and counted: "\<forall>c \<in> set (om_constraints parent). stateful c \<longrightarrow>
      constraint_evaluate K c cl env (om_ledger_key parent) = Inr ()"
  shows "open_accepts K parent cl env = Inr ()"
  unfolding open_accepts_Inr
proof (intro conjI)
  note child = child [unfolded open_accepts_Inr]
  from narrows have fam: "om_family parent = om_family child"
    and pre: "\<forall>(k, v) \<in> set (om_presets parent). obj_get (om_presets child) k = Some v"
    and ceil: "has_ceiling child \<Longrightarrow> has_ceiling parent"
    and cov: "\<forall>p \<in> set (filter (\<lambda>p. \<not> is_delegation p) (om_constraints parent)).
      \<exists>c \<in> set (om_constraints child). constraint_covers p c"
    by (auto simp: narrows_v1_def list_ex_iff list_all_iff split: if_splits)
  show "om_family parent = closed_family cl" using fam child by simp
  show "\<forall>(k, v) \<in> set (om_presets parent). obj_get (cl_claims cl) k = Some v"
    using pre child obj_get_in_set by fastforce
  show "moves_money cl \<longrightarrow> has_ceiling parent" using child ceil by blast
  show "\<forall>p \<in> set (om_constraints parent). constraint_evaluate K p cl env (om_ledger_key parent) = Inr ()"
  proof
    fix p
    assume p: "p \<in> set (om_constraints parent)"
    show "constraint_evaluate K p cl env (om_ledger_key parent) = Inr ()"
    proof (cases "is_delegation p \<or> stateful p")
      case True
      with p counted show ?thesis by (auto simp: is_delegation_def constraint_evaluate_def split: constraint.splits)
    next
      case False
      let ?ps = "filter (\<lambda>p. \<not> is_delegation p) (om_constraints parent)"
      have "\<forall>p \<in> set ?ps. \<exists>c \<in> set (om_constraints child). constraint_narrower p c"
        using cov wf by (fastforce simp: constraint_narrower_def mandate_wf_def list_all_iff)
      moreover have "\<forall>c \<in> set (om_constraints child). constraint_ok c (K, cl, env, om_ledger_key child)"
        using child by (simp add: constraint_ok_def)
      ultimately have "\<forall>p \<in> set ?ps. constraint_ok p (K, cl, env, om_ledger_key child)"
        by (rule constraints.all_covered)
      with p False have "constraint_evaluate K p cl env (om_ledger_key child) = Inr ()"
        by (auto simp: constraint_ok_def)
      moreover from False have "\<not> stateful p" by simp
      ultimately show ?thesis
        using stateless_key [of p K cl env "om_ledger_key parent" "om_ledger_key child"] by simp
    qed
  qed
qed

text \<open>C4: If narrows accepts a child mandate, every closed mandate the child accepts is
  accepted by the parent as well as far as its counters for budgets and recurrences allow,
  for all seventeen constraint types, and the parent grants at least one more level of
  delegation, more than the child unless both are unbounded.\<close>
theorem narrowing_is_sound:
  assumes "open_parse K parent_claims parent_key = Inr parent" and "open_parse K child_claims child_key = Inr child"
    and "narrows_v1 parent child" and "open_accepts K child cl env = Inr ()"
    and "\<forall>c \<in> set (om_constraints parent). stateful c \<longrightarrow>
      constraint_evaluate K c cl env (om_ledger_key parent) = Inr ()"
  shows "open_accepts K parent cl env = Inr () \<and> 1 \<le> om_max_depth parent
    \<and> (om_max_depth child < om_max_depth parent \<or> om_max_depth child = - 1 \<and> om_max_depth parent = - 1)"
proof -
  from assms(3) have "u32_saturating_add (om_max_depth child) 1 \<le> om_max_depth parent"
    by (auto simp: narrows_v1_def split: if_splits)
  then have "unat (om_max_depth child) + 1 \<le> unat (om_max_depth parent)
      \<or> om_max_depth child = - 1 \<and> om_max_depth parent = - 1"
    by (rule u32_saturating_add_1_le)
  then have "1 \<le> om_max_depth parent
      \<and> (om_max_depth child < om_max_depth parent \<or> om_max_depth child = - 1 \<and> om_max_depth parent = - 1)"
    using word_order.extremum [of "1 :: u32"] by (auto simp: word_le_nat_alt word_less_nat_alt)
  moreover have "open_accepts K parent cl env = Inr ()"
    using narrows_v1_accepts [OF assms(3) open_parse_wf [OF assms(1)] open_parse_wf [OF assms(2)] assms(4,5)] .
  ultimately show ?thesis by blast
qed

lemma evaluate_chain_Inl:
  "evaluate_chain K ms cl env = Inl f \<longleftrightarrow>
     cf_link f < length ms \<and> open_accepts K (ms ! cf_link f) cl env = Inl (cf_cause f)
     \<and> (\<forall>j < cf_link f. open_accepts K (ms ! j) cl env = Inr ())"
  by (auto simp: evaluate_chain_def evaluate_from_Inl)

section \<open>A concrete delegation\<close>

text \<open>A payment under a mandate for up to 100 cents narrowed to one for up to 60.\<close>

definition toy_env :: eval_env where
  "toy_env = \<lparr>ev_now = 1000, ev_tx = transaction_context_new AgentGenerated, ev_ledger = None, ev_checkout = None\<rparr>"

lemmas toy_evaluation = open_accepts_def toy_open_def toy_payment_def toy_closed_claims_def toy_env_def closed_family_def moves_money_def
  has_ceiling_def constraint_evaluate_def on_action_def eval_actions_def eval_amount_cap_def

lemma toy_child_accepts: "open_accepts K (toy_open 0 60 ''child'') (toy_payment 60) toy_env = Inr ()"
  by (simp add: toy_evaluation)

lemma toy_narrows: "narrows_v1 (toy_open 1 100 ''parent'') (toy_open 0 60 ''child'')"
  by (simp add: narrows_v1_def toy_open_def has_ceiling_def u32_saturating_add_def is_delegation_def
      constraint_covers_def amount_cap_covers_def)

theorem narrowing_is_sound_witness:
  "open_accepts monday_ten (toy_open 1 100 ''parent'') (toy_payment 60) toy_env = Inr ()"
proof -
  have "\<forall>c \<in> set (om_constraints (toy_open 1 100 ''parent'')). stateful c \<longrightarrow>
      constraint_evaluate monday_ten c (toy_payment 60) toy_env (om_ledger_key (toy_open 1 100 ''parent'')) = Inr ()"
    by (simp add: toy_open_def stateful_def)
  from narrowing_is_sound [OF toy_open_parse(1) toy_open_parse(2) toy_narrows toy_child_accepts this]
  show ?thesis by blast
qed

end
