(* ===== verification/AuthVerifier.thy ===== *)
theory AuthVerifier
  imports AuthNarrow
begin

text \<open>
  The v1 verifier (crates/authority/src/verifier.rs, status.rs, nonce.rs and receipt.rs): the
  checks V2 to V5 on a verified chain, the replay store, and the receipt of every outcome.
  The verifier's status checker, usage ledger and nonce store are trait objects; the state
  of the nonce store, the only one it changes, is passed through.
\<close>

section \<open>Status\<close>

datatype token_status = StatusValid | StatusInvalid | StatusSuspended

type_synonym status_checker = "json \<Rightarrow> i64 \<Rightarrow> message + token_status"

definition no_status_list :: status_checker where
  "no_status_list status now = Inl [Lit ''this verifier has no status list'']"

section \<open>The replay store\<close>

type_synonym nonce_map = "string \<rightharpoonup> i64"

type_synonym 's nonce_store_op = "string \<Rightarrow> i64 \<Rightarrow> i64 \<Rightarrow> 's \<Rightarrow> (message + bool) \<times> 's"

definition retain_live :: "i64 \<Rightarrow> nonce_map \<Rightarrow> nonce_map" where
  "retain_live now seen = (\<lambda>k. case seen k of Some e \<Rightarrow> if e > now then Some e else None | None \<Rightarrow> None)"

definition check_and_insert :: "nonce_map nonce_store_op" where
  "check_and_insert nonce expires_at now seen =
     (let seen' = retain_live now seen in
      if seen' nonce \<noteq> None then (Inr False, seen') else (Inr True, seen'(nonce \<mapsto> expires_at)))"

section \<open>Policy and outcomes\<close>

datatype root_policy =
    RootCredential "string list" "string list"
  | UserSignedMandate "string list"

record policy =
  po_audience :: string
  po_root :: root_policy
  po_leeway :: i64
  po_max_age :: i64
  po_max_future :: i64
  po_max_open_mandates :: nat
  po_max_validity_without_status :: i64
  po_allow_unbound_root_mandate :: bool

definition policy_new :: "string \<Rightarrow> root_policy \<Rightarrow> policy" where
  "policy_new audience rp = \<lparr>po_audience = audience, po_root = rp, po_leeway = 0, po_max_age = 300,
     po_max_future = 30, po_max_open_mandates = 4, po_max_validity_without_status = 3600,
     po_allow_unbound_root_mandate = False\<rparr>"

datatype principal_v1 =
    CredentialHolder "string option" "sd_verifying_key option"
  | UserKey sd_verifying_key

datatype reason =
    R_Credential sd_error
  | R_Unbound
  | R_NoMandate
  | R_RootNotAccepted
  | R_Revoked position token_status
  | R_StatusUnavailable position message
  | R_Unrevocable position
  | R_TooManyMandates
  | R_DelegationDepth position u32 nat
  | R_Mandate position mandate_error
  | R_Binding position failure
  | R_Chain position cause
  | R_Freshness string
  | R_Replay
  | R_NonceStore message

datatype error_code =
  InvalidCredential | UnresolvedConstraint | InvalidMandate | MandatesNotSupported | InsufficientMandate

fun error_code_as_str :: "error_code \<Rightarrow> string" where
  "error_code_as_str InvalidCredential = ''invalid_credential''"
| "error_code_as_str UnresolvedConstraint = ''unresolved_constraint''"
| "error_code_as_str InvalidMandate = ''invalid_mandate''"
| "error_code_as_str MandatesNotSupported = ''mandates_not_supported''"
| "error_code_as_str InsufficientMandate = ''insufficient_mandate''"

definition mandate_error_code :: "mandate_error \<Rightarrow> error_code" where
  "mandate_error_code e =
     (case e of
        ConstraintError _ (UnknownConstraint _) \<Rightarrow> UnresolvedConstraint
      | NotApplicable _ _ _ \<Rightarrow> UnresolvedConstraint
      | _ \<Rightarrow> InvalidMandate)"

definition reason_code :: "reason \<Rightarrow> error_code" where
  "reason_code r =
     (case r of
        R_Mandate _ e \<Rightarrow> mandate_error_code e
      | R_Binding _ (Unresolved _) \<Rightarrow> UnresolvedConstraint
      | R_Chain _ (ConstraintCause _ (Unresolved _)) \<Rightarrow> UnresolvedConstraint
      | R_TooManyMandates \<Rightarrow> InvalidMandate
      | R_DelegationDepth _ _ _ \<Rightarrow> InvalidMandate
      | R_Binding _ _ \<Rightarrow> InvalidMandate
      | R_Chain _ _ \<Rightarrow> InvalidMandate
      | _ \<Rightarrow> InvalidCredential)"

record authorized =
  au_chain :: verified_chain
  au_closed :: closed_mandate
  au_principal :: principal_v1
  au_ledger_keys :: "string list"

record 's verifier_v1 =
  ve_policy :: policy
  ve_issuer :: string
  ve_receipt_signer :: signer
  ve_status :: status_checker
  ve_nonces :: "'s nonce_store_op option"
  ve_ledger :: "ledger option"

definition verifier_v1_new ::
  "policy \<Rightarrow> string \<Rightarrow> signer \<Rightarrow> status_checker \<Rightarrow> 's verifier_v1" where
  "verifier_v1_new p issuer receipt_signer status = \<lparr>ve_policy = p, ve_issuer = issuer,
     ve_receipt_signer = receipt_signer, ve_status = status, ve_nonces = None, ve_ledger = None\<rparr>"

definition with_nonce_store :: "'s verifier_v1 \<Rightarrow> 's nonce_store_op \<Rightarrow> 's verifier_v1" where
  "with_nonce_store V store = V\<lparr>ve_nonces := Some store\<rparr>"

definition with_ledger :: "'s verifier_v1 \<Rightarrow> ledger \<Rightarrow> 's verifier_v1" where
  "with_ledger V ledger = V\<lparr>ve_ledger := Some ledger\<rparr>"

section \<open>V2 to V4\<close>

definition check_status :: "'s verifier_v1 \<Rightarrow> verified_link \<Rightarrow> i64 \<Rightarrow> reason + unit" where
  "check_status V element now =
     (case obj_get (vl_claims element) ''status'' of
        None \<Rightarrow> Inr ()
      | Some status \<Rightarrow>
          (case ve_status V status now of
             Inr StatusValid \<Rightarrow> Inr ()
           | Inr s \<Rightarrow> Inl (R_Revoked (vl_position element) s)
           | Inl e \<Rightarrow> Inl (R_StatusUnavailable (vl_position element) (Lit ''status unavailable: '' # e))))"

definition ledger_key :: "crypto \<Rightarrow> verified_link \<Rightarrow> string" where
  "ledger_key C link = sd_digest C Sha256 (hd (split_on CHR ''~'' (vl_sd_jwt link)))"

text \<open>An open mandate without \<open>status\<close> must expire soon.\<close>

definition check_revocable :: "policy \<Rightarrow> verified_link \<Rightarrow> i64 \<Rightarrow> reason + unit" where
  "check_revocable p link now =
     (if obj_contains (vl_claims link) ''status'' then Inr ()
      else
        (case Option.bind (obj_get (vl_claims link) ''exp'') as_f64 of
           Some e \<Rightarrow>
             if e - f64_of_int now \<le> f64_of_int (po_max_validity_without_status p) then Inr ()
             else Inl (R_Unrevocable (vl_position link))
         | None \<Rightarrow> Inl (R_Unrevocable (vl_position link))))"

definition read_open :: "crypto \<Rightarrow> chrono \<Rightarrow> policy \<Rightarrow> i64 \<Rightarrow> verified_link \<Rightarrow> reason + open_mandate" where
  "read_open C K p now link =
     rbind (map_err (R_Mandate (vl_position link)) (open_parse K (vl_claims link) (ledger_key C link))) (\<lambda>m.
     rbind (check_revocable p link now) (\<lambda>_. Inr m))"

text \<open>The depth loop over the mandates and their links, \<open>further\<close> mandates after each.\<close>

fun check_depth :: "(open_mandate \<times> verified_link) list \<Rightarrow> reason + unit" where
  "check_depth [] = Inr ()"
| "check_depth ((m, link) # rest) =
     (if length rest > unat (om_max_depth m) then
        Inl (R_DelegationDepth (vl_position link) (om_max_depth m) (length rest))
      else check_depth rest)"

definition bind_closed ::
  "crypto \<Rightarrow> verified_link \<Rightarrow> closed_mandate \<Rightarrow> transaction_context \<Rightarrow> failure + checkout option" where
  "bind_closed C leaf cl tx =
     (case cl_content cl of
        ClosedCheckout c \<Rightarrow> checkout_bind C c (vl_sd_alg leaf) tx
      | ClosedPayment p \<Rightarrow> rbind (payment_bind p tx) (\<lambda>_. Inr None)
      | ClosedAction _ \<Rightarrow> Inr None)"

definition root_principal ::
  "policy \<Rightarrow> verified_chain \<Rightarrow> sd_verifying_key \<Rightarrow> reason + principal_v1 \<times> nat" where
  "root_principal p chain issuer_key =
     (case po_root p of
        RootCredential _ vct \<Rightarrow>
          (let claims = vl_claims (vc_root chain) in
           if \<not> (case obj_str claims ''vct'' of Some v \<Rightarrow> v \<in> set vct | None \<Rightarrow> False)
           then Inl R_RootNotAccepted
           else Inr (CredentialHolder (obj_str claims ''iss'') (vl_cnf (vc_root chain)), 1))
      | UserSignedMandate _ \<Rightarrow> Inr (UserKey issuer_key, 0))"

text \<open>Everything of \<open>authorize\<close> before the freshness and replay checks.\<close>

definition authorize_content ::
  "crypto \<Rightarrow> chrono \<Rightarrow> 's verifier_v1 \<Rightarrow> verified_chain \<Rightarrow> sd_verifying_key \<Rightarrow> transaction_context \<Rightarrow> i64
   \<Rightarrow> reason + authorized \<times> verified_link" where
  "authorize_content C K V chain issuer_key tx now =
     rbind (root_principal (ve_policy V) chain issuer_key) (\<lambda>(prin, first).
     let mandate_links = drop first (vc_links chain) in
     if mandate_links = [] then Inl R_NoMandate
     else
     let leaf = last mandate_links; opens = butlast mandate_links in
     if length opens > po_max_open_mandates (ve_policy V) then Inl R_TooManyMandates
     else
     rbind (try_each (\<lambda>element. check_status V element now) (vc_links chain)) (\<lambda>_.
     rbind (map_err (R_Mandate (vl_position leaf)) (closed_parse (vl_claims leaf))) (\<lambda>cl.
     rbind (collect (read_open C K (ve_policy V) now) opens) (\<lambda>mandates.
     rbind (check_depth (zip mandates opens)) (\<lambda>_.
     rbind (map_err (R_Binding (vl_position leaf)) (bind_closed C leaf cl tx)) (\<lambda>checkout.
     let env = \<lparr>ev_now = now, ev_tx = tx, ev_ledger = ve_ledger V, ev_checkout = checkout\<rparr> in
     rbind (map_err (\<lambda>f. R_Chain (vl_position (opens ! cf_link f)) (cf_cause f))
              (evaluate_chain K mandates cl env)) (\<lambda>_.
     Inr (\<lparr>au_chain = chain, au_closed = cl, au_principal = prin,
            au_ledger_keys = map om_ledger_key mandates\<rparr>, leaf))))))))"

section \<open>V5\<close>

definition check_freshness :: "policy \<Rightarrow> verified_link \<Rightarrow> string \<Rightarrow> i64 \<Rightarrow> reason + i64" where
  "check_freshness p leaf nonce now =
     (let env = vl_envelope leaf in
      if obj_str env ''aud'' \<noteq> Some (po_audience p) then Inl (R_Freshness ''aud is not this verifier'')
      else if obj_str env ''nonce'' \<noteq> Some nonce then Inl (R_Freshness ''nonce mismatch'')
      else
        rbind (ok_or (Option.bind (obj_get env ''iat'') as_f64) (R_Freshness ''no iat'')) (\<lambda>iat.
        let now_f = f64_of_int now in
        if iat < now_f - f64_of_int (po_max_age p) \<or> iat > now_f + f64_of_int (po_max_future p)
        then Inl (R_Freshness ''iat outside the freshness window'')
        else Inr (f64_to_i64 iat)))"

definition check_replay ::
  "'s verifier_v1 \<Rightarrow> verified_link \<Rightarrow> transaction_context \<Rightarrow> string \<Rightarrow> i64 \<Rightarrow> 's \<Rightarrow> (reason + unit) \<times> 's" where
  "check_replay V leaf tx nonce now s =
     (case check_freshness (ve_policy V) leaf nonce now of
        Inl e \<Rightarrow> (Inl e, s)
      | Inr iat \<Rightarrow>
          if tx_nonce tx \<noteq> AgentGenerated then (Inr (), s)
          else
            (case ve_nonces V of
               None \<Rightarrow> (Inl (R_NonceStore [Lit ''no nonce store configured'']), s)
             | Some insert_nonce \<Rightarrow>
                 (case insert_nonce nonce (i64_wrap (iat + po_max_age (ve_policy V))) now s of
                    (Inr True, s') \<Rightarrow> (Inr (), s')
                  | (Inr False, s') \<Rightarrow> (Inl R_Replay, s')
                  | (Inl e, s') \<Rightarrow> (Inl (R_NonceStore (Lit ''nonce store: '' # e)), s'))))"

definition authorize ::
  "crypto \<Rightarrow> chrono \<Rightarrow> 's verifier_v1 \<Rightarrow> verified_chain \<Rightarrow> sd_verifying_key \<Rightarrow> transaction_context
   \<Rightarrow> string option \<Rightarrow> i64 \<Rightarrow> 's \<Rightarrow> (reason + authorized) \<times> 's" where
  "authorize C K V chain issuer_key tx nonce now s =
     (case authorize_content C K V chain issuer_key tx now of
        Inl e \<Rightarrow> (Inl e, s)
      | Inr (a, leaf) \<Rightarrow>
          (case nonce of
             None \<Rightarrow> (Inr a, s)
           | Some n \<Rightarrow>
               (case check_replay V leaf tx n now s of
                  (Inl e, s') \<Rightarrow> (Inl e, s')
                | (Inr _, s') \<Rightarrow> (Inr a, s'))))"

section \<open>The whole check\<close>

text \<open>The key binding the policy asks for, and the nonce that is replay-checked after.\<close>

definition choose_binding ::
  "policy \<Rightarrow> presentation \<Rightarrow> transaction_context \<Rightarrow> reason + key_binding \<times> string option" where
  "choose_binding p pn tx =
     (if pn_links pn \<noteq> [] then
        rbind (case tx_nonce tx of
                 Challenge n \<Rightarrow> Inr n
               | AgentGenerated \<Rightarrow>
                   ok_or (obj_str (jws_payload (sj_jws (pn_last pn))) ''nonce'')
                     (R_Freshness ''the closed mandate has no nonce''))
          (\<lambda>n. Inr (TerminalLink (po_audience p) n, Some n))
      else if po_allow_unbound_root_mandate p
          \<and> (case po_root p of UserSignedMandate _ \<Rightarrow> True | RootCredential _ _ \<Rightarrow> False)
      then Inr (NotRequired, None)
      else Inl R_Unbound)"

definition options_for :: "policy \<Rightarrow> key_binding \<Rightarrow> i64 \<Rightarrow> verify_options" where
  "options_for p kb now =
     \<lparr>vo_now = now,
      vo_root_typ = (case po_root p of RootCredential t _ \<Rightarrow> t | UserSignedMandate t \<Rightarrow> t),
      vo_root_form = (case po_root p of RootCredential _ _ \<Rightarrow> Credential | UserSignedMandate _ \<Rightarrow> DelegatePayload),
      vo_key_binding = kb, vo_leeway = po_leeway p, vo_max_age = po_max_age p,
      vo_max_future = po_max_future p, vo_require_exp = True, vo_max_links = po_max_open_mandates p + 1\<rparr>"

definition check_presentation ::
  "crypto \<Rightarrow> chrono \<Rightarrow> 's verifier_v1 \<Rightarrow> presentation \<Rightarrow> sd_verifying_key \<Rightarrow> transaction_context \<Rightarrow> i64
   \<Rightarrow> 's \<Rightarrow> (reason + authorized) \<times> 's" where
  "check_presentation C K V pn issuer_key tx now s =
     (case choose_binding (ve_policy V) pn tx of
        Inl e \<Rightarrow> (Inl e, s)
      | Inr (kb, nonce) \<Rightarrow>
          (case verify_chain C pn issuer_key (options_for (ve_policy V) kb now) of
             Inl e \<Rightarrow> (Inl (R_Credential e), s)
           | Inr chain \<Rightarrow> authorize C K V chain issuer_key tx nonce now s))"

section \<open>Messages\<close>

fun constraint_error_text :: "constraint_error \<Rightarrow> message" where
  "constraint_error_text (UnknownConstraint t) = [Lit ''unknown constraint type '', Dbg t]"
| "constraint_error_text (MalformedConstraint e) = schema_error_text e"

fun mandate_error_text :: "mandate_error \<Rightarrow> message" where
  "mandate_error_text MissingType = [Lit ''missing or non-string vct'']"
| "mandate_error_text (UnknownType t) = [Lit ''unknown mandate type '', Dbg t]"
| "mandate_error_text (NotOpen t) =
     [Dbg t, Lit '' is a closed mandate, but an open mandate is required here'']"
| "mandate_error_text (NotClosed t) =
     [Dbg t, Lit '' is an open mandate, but the chain must end in a closed mandate'']"
| "mandate_error_text (ConstraintError i e) =
     Lit ''constraint '' # Num (int i) # Lit '': '' # constraint_error_text e"
| "mandate_error_text (NotApplicable i t v) =
     [Lit ''constraint '', Num (int i), Lit '': '', Lit t, Lit '' does not apply to '', Lit v]"
| "mandate_error_text (SchemaError e) = schema_error_text e"

fun failure_message :: "failure \<Rightarrow> message" where
  "failure_message (Violated m) = m"
| "failure_message (Unresolved m) = Lit ''cannot evaluate: '' # m"

fun family_debug :: "family \<Rightarrow> string" where
  "family_debug Authority = ''Authority''"
| "family_debug Checkout = ''Checkout''"
| "family_debug Payment = ''Payment''"

fun cause_text :: "cause \<Rightarrow> message" where
  "cause_text (FamilyMismatch op cl) =
     [Lit ''the closed mandate is '', Lit (family_debug cl), Lit '', the open mandate is '', Lit (family_debug op)]"
| "cause_text (Preset c) =
     [Lit ''pre-set claim '', Dbg c, Lit '' is missing or changed in the closed mandate'']"
| "cause_text AmountWithoutCeiling =
     [Lit ''the action carries an amount, but the mandate has no '', Lit AMOUNT]"
| "cause_text (ConstraintCause t f) = Lit t # Lit '': '' # failure_message f"

fun status_debug :: "token_status \<Rightarrow> string" where
  "status_debug StatusValid = ''Valid''"
| "status_debug StatusInvalid = ''Invalid''"
| "status_debug StatusSuspended = ''Suspended''"

fun reason_text :: "reason \<Rightarrow> message" where
  "reason_text (R_Credential e) = Lit ''presentation does not verify: '' # sd_error_text e"
| "reason_text R_Unbound =
     [Lit ''the closed mandate is not bound to this transaction (no aud/nonce/iat)'']"
| "reason_text R_NoMandate = [Lit ''the presentation contains no mandate'']"
| "reason_text R_RootNotAccepted = [Lit ''root credential type not accepted'']"
| "reason_text (R_Revoked p s) = position_text p @ [Lit '': status is '', Lit (status_debug s)]"
| "reason_text (R_StatusUnavailable p m) = position_text p @ Lit '': '' # m"
| "reason_text (R_Unrevocable p) =
     position_text p @ [Lit '': no status entry and valid for too long to go unrevocable'']"
| "reason_text R_TooManyMandates = [Lit ''more open mandates than this verifier accepts'']"
| "reason_text (R_DelegationDepth p d k) =
     position_text p @ [Lit '': '', Num (int k), Lit '' further open mandate(s), but max_depth is '', Num (uint d)]"
| "reason_text (R_Mandate p e) = position_text p @ Lit '': '' # mandate_error_text e"
| "reason_text (R_Binding p f) = position_text p @ Lit '': '' # failure_message f"
| "reason_text (R_Chain p c) = position_text p @ Lit '': '' # cause_text c"
| "reason_text (R_Freshness t) = [Lit ''key binding: '', Lit t]"
| "reason_text R_Replay = [Lit ''nonce already used'']"
| "reason_text (R_NonceStore m) = m"

section \<open>Receipts\<close>

record mandate_receipt =
  mr_iss :: string
  mr_iat :: i64
  mr_reference :: string
  mr_error :: "(error_code \<times> message) option"
  mr_aap_chain :: "string list"

definition receipt_result :: "mandate_receipt \<Rightarrow> string" where
  "receipt_result r = (if mr_error r = None then ''success'' else ''error'')"

text \<open>\<open>render\<close> is the formatting of a message by the standard library.\<close>

definition receipt_claims :: "(message \<Rightarrow> string) \<Rightarrow> mandate_receipt \<Rightarrow> object" where
  "receipt_claims render r =
     (let base = obj_insert ''reference'' (JStr (mr_reference r))
            (obj_insert ''result'' (JStr (receipt_result r))
              (obj_insert ''iat'' (json_of_i64 (mr_iat r))
                (obj_insert ''iss'' (JStr (mr_iss r)) [])));
          with_error = (case mr_error r of
              Some (code, description) \<Rightarrow>
                obj_insert ''error_description'' (JStr (render description))
                  (obj_insert ''error'' (JStr (error_code_as_str code)) base)
            | None \<Rightarrow> base)
      in obj_insert ''aap_chain'' (JArr (map JStr (mr_aap_chain r))) with_error)"

definition receipt_sign ::
  "crypto \<Rightarrow> (message \<Rightarrow> string) \<Rightarrow> mandate_receipt \<Rightarrow> signer \<Rightarrow> sd_error + string" where
  "receipt_sign C render r sg = sign_jwt C RECEIPT_TYP [] (receipt_claims render r) sg"

record decision =
  de_outcome :: "reason + authorized"
  de_receipt :: mandate_receipt
  de_receipt_jwt :: string

definition element_hash :: "crypto \<Rightarrow> sd_jwt \<Rightarrow> string" where
  "element_hash C e = sd_digest C (case sj_sd_alg e of Inr alg \<Rightarrow> alg | Inl _ \<Rightarrow> Sha256) (sj_serialize e)"

definition outcome_error :: "reason + 'a \<Rightarrow> (error_code \<times> message) option" where
  "outcome_error o' = (case o' of Inl r \<Rightarrow> Some (reason_code r, reason_text r) | Inr _ \<Rightarrow> None)"

definition verify_v1 ::
  "crypto \<Rightarrow> chrono \<Rightarrow> (message \<Rightarrow> string) \<Rightarrow> 's verifier_v1 \<Rightarrow> string \<Rightarrow> sd_verifying_key
   \<Rightarrow> transaction_context \<Rightarrow> i64 \<Rightarrow> 's \<Rightarrow> (sd_error + decision) \<times> 's" where
  "verify_v1 C K render V input issuer_key tx now s =
     (let (outcome, reference, chain, s') =
        (case presentation_parse C input of
           Inl e \<Rightarrow> (Inl (R_Credential (error_from e)), sd_digest C Sha256 input, [], s)
         | Inr pn \<Rightarrow>
             (case check_presentation C K V pn issuer_key tx now s of
                (outcome, s') \<Rightarrow>
                  (outcome, element_hash C (pn_last pn), map (element_hash C) (pn_elements pn), s')));
          receipt = \<lparr>mr_iss = ve_issuer V, mr_iat = now, mr_reference = reference,
            mr_error = outcome_error outcome, mr_aap_chain = chain\<rparr>
      in (rbind (receipt_sign C render receipt (ve_receipt_signer V)) (\<lambda>jwt.
            Inr \<lparr>de_outcome = outcome, de_receipt = receipt, de_receipt_jwt = jwt\<rparr>), s'))"

end
