(* ===== verification/AuthPermit.thy ===== *)
theory AuthPermit
  imports AuthNarrow
begin

text \<open>
  What an open mandate grants, stated without the evaluators of crates/authority/src/evaluate.rs,
  constraint/aap.rs and constraint/ap2.rs: sets, natural numbers, minutes of the week and
  assignments of items in place of the loops and the machine arithmetic. The evaluators are
  shown to decide it, for all seventeen constraint types, and to name the first obstacle.
\<close>

section \<open>Clocks and calendars\<close>

text \<open>A window is open on day \<open>d\<close> (from Monday) at minute \<open>t\<close>; one that ends before it starts runs on.\<close>

definition window_open :: "time_window_v1 \<Rightarrow> nat \<Rightarrow> nat \<Rightarrow> bool" where
  "window_open w d t \<longleftrightarrow>
     (if tw_start w < tw_end w then d \<in> set (tw_days w) \<and> tw_start w \<le> t \<and> t < tw_end w
      else d \<in> set (tw_days w) \<and> tw_start w \<le> t \<or> (\<exists>e \<in> set (tw_days w). d = (e + 1) mod 7 \<and> t < tw_end w))"

text \<open>The minute of the week a clock shows, in \<open>u32\<close> arithmetic.\<close>

definition week_minute :: "local_time \<Rightarrow> nat" where
  "week_minute l =
     (unat (num_days_from_monday (lt_weekday l)) * 1440 + unat (lt_hour l) * 60 + unat (lt_minute l)) mod 2 ^ 32"

definition inside :: "chrono \<Rightarrow> i64 \<Rightarrow> time_window_v1 \<Rightarrow> bool" where
  "inside K now w \<longleftrightarrow> (\<exists>utc m. from_timestamp K now = Some utc
     \<and> m = week_minute (with_timezone K (tw_timezone w) utc) \<and> window_open w (m div 1440) (m mod 1440))"

text \<open>When a recurring payment may be used again.\<close>

definition due :: "chrono \<Rightarrow> frequency \<Rightarrow> i64 \<Rightarrow> i64 \<Rightarrow> bool" where
  "due K f l n \<longleftrightarrow>
     (let days = (\<lambda>d. n = l + d * 86400 \<and> i64_ok n);
          months = (\<lambda>k. \<exists>t t'. from_timestamp K l = Some t \<and> dt_checked_add_months K t k = Some t'
                      \<and> n = dt_timestamp K t')
      in case f of OnDemand \<Rightarrow> n = l | Daily \<Rightarrow> days 1 | Weekly \<Rightarrow> days 7 | Biweekly \<Rightarrow> days 14
         | Monthly \<Rightarrow> months 1 | Quarterly \<Rightarrow> months 3 | Annually \<Rightarrow> months 12)"

text \<open>The instants a payment may be executed at: a stated date-time, a stated day, or now.\<close>

definition executed :: "chrono \<Rightarrow> i64 \<Rightarrow> string option \<Rightarrow> i64 \<Rightarrow> i64 \<Rightarrow> bool" where
  "executed K now stated a b \<longleftrightarrow>
     (case stated of None \<Rightarrow> a = now \<and> b = now
      | Some s \<Rightarrow> (\<exists>t. parse_rfc3339 K s = Some t \<and> a = dt_timestamp K t \<and> b = a)
          \<or> parse_rfc3339 K s = None \<and> (\<exists>d. parse_ymd_midnight K s = Some d
               \<and> a = dt_timestamp K d \<and> b = i64_wrap (a + 86399)))"

section \<open>The constraints\<close>

definition counted :: "eval_env \<Rightarrow> string \<Rightarrow> usage \<Rightarrow> bool" where
  "counted env key u \<longleftrightarrow> (\<exists>ledger. ev_ledger env = Some ledger \<and> ledger key = Inr u)"

fun action_met :: "chrono \<Rightarrow> eval_env \<Rightarrow> action \<Rightarrow> constraint \<Rightarrow> bool" where
  "action_met K env a (C_Actions allowed) \<longleftrightarrow> act_action a \<in> set allowed"
| "action_met K env a (C_Resources allowed) \<longleftrightarrow> (\<exists>r \<in> set allowed. act_resource a = Some r)"
| "action_met K env a (C_Amount cap) \<longleftrightarrow>
     (\<forall>x. act_amount a = Some x \<longrightarrow> am_currency x = ac_currency cap \<and> unat (am_minor x) \<le> unat (ac_max cap))"
| "action_met K env a (C_Counterparties c) \<longleftrightarrow>
     (\<exists>p. act_counterparty a = Some p \<and> (\<forall>deny. cv_deny c = Some deny \<longrightarrow> p \<notin> set deny)
        \<and> (\<forall>allow. cv_allow c = Some allow \<longrightarrow> p \<in> set allow))"
| "action_met K env a (C_DataCategories allowed) \<longleftrightarrow>
     (\<forall>cs. act_data_categories a = Some cs \<longrightarrow> set cs \<subseteq> set allowed)"
| "action_met K env a (C_TimeWindows ws) \<longleftrightarrow> (\<exists>w \<in> set ws. inside K (ev_now env) w)"
| "action_met K env a _ \<longleftrightarrow> False"

fun checkout_met :: "eval_env \<Rightarrow> constraint \<Rightarrow> bool" where
  "checkout_met env (C_AllowedMerchants allowed) \<longleftrightarrow>
     (\<exists>ck m. ev_checkout env = Some ck \<and> ck_merchant ck = Some m \<and> mc_id m \<in> mc_id ` set allowed)"
| "checkout_met env (C_LineItems rs) \<longleftrightarrow>
     (\<exists>ck x. ev_checkout env = Some ck \<and> ck_line_items ck \<noteq> []
        \<and> length rs + length (ck_line_items ck) \<le> MAX_LINE_ITEM_NODES
        \<and> fst ` set (ck_line_items ck) \<subseteq> (\<Union>r \<in> set rs. set (li_acceptable r))
        \<and> assignment rs (ck_line_items ck) x)"
| "checkout_met env _ \<longleftrightarrow> False"

fun payment_met :: "chrono \<Rightarrow> eval_env \<Rightarrow> string \<Rightarrow> payment_mandate \<Rightarrow> constraint \<Rightarrow> bool" where
  "payment_met K env key p (C_AmountRange r) \<longleftrightarrow>
     am_currency (pm_payment_amount p) = ar_currency r
     \<and> unat (am_minor (pm_payment_amount p)) \<le> unat (ar_max r)
     \<and> (\<forall>lo. ar_min r = Some lo \<longrightarrow> unat lo \<le> unat (am_minor (pm_payment_amount p)))"
| "payment_met K env key p (C_AllowedPayees allowed) \<longleftrightarrow> mc_id (pm_payee p) \<in> mc_id ` set allowed"
| "payment_met K env key p (C_AllowedPaymentInstruments allowed) \<longleftrightarrow>
     pi_id (pm_payment_instrument p) \<in> pi_id ` set allowed"
| "payment_met K env key p (C_AllowedPisps allowed) \<longleftrightarrow> (\<exists>x \<in> set allowed. pm_pisp p = Some x)"
| "payment_met K env key p (C_Budget b) \<longleftrightarrow>
     am_currency (pm_payment_amount p) = bg_currency b
     \<and> (\<exists>u. counted env key u
          \<and> unat (us_total_minor u) + unat (am_minor (pm_payment_amount p)) \<le> unat (bg_max b))"
| "payment_met K env key p (C_AgentRecurrence r) \<longleftrightarrow>
     (\<exists>u. counted env key u \<and> (\<forall>n. re_max_occurrences r = Some n \<longrightarrow> unat (us_uses u) < unat n)
        \<and> (\<forall>l. us_last_use u = Some l \<longrightarrow> (\<exists>n. due K (re_frequency r) l n \<and> n \<le> ev_now env)))"
| "payment_met K env key p (C_ExecutionDate d) \<longleftrightarrow>
     (\<exists>a b. executed K (ev_now env) (pm_execution_date p) a b
        \<and> (\<forall>nb. ed_not_before d = Some nb \<longrightarrow> nb \<le> a) \<and> (\<forall>na. ed_not_after d = Some na \<longrightarrow> b \<le> na))"
| "payment_met K env key p (C_Reference i) \<longleftrightarrow> tx_open_checkout_hash (ev_tx env) = Some i"
| "payment_met K env key p _ \<longleftrightarrow> False"

text \<open>A delegation constraint asks nothing of a closed mandate, any other only of one of its kind.\<close>

definition constraint_met ::
  "chrono \<Rightarrow> closed_mandate \<Rightarrow> eval_env \<Rightarrow> string \<Rightarrow> constraint \<Rightarrow> bool" where
  "constraint_met K cl env key c \<longleftrightarrow>
     (\<exists>d. c = C_Delegation d)
     \<or> (\<exists>a. cl_content cl = ClosedAction a \<and> action_met K env a c)
     \<or> (\<exists>x. cl_content cl = ClosedCheckout x \<and> checkout_met env c)
     \<or> (\<exists>p. cl_content cl = ClosedPayment p \<and> payment_met K env key p c)"

text \<open>What leaves a constraint undecided, rather than violated.\<close>

definition undecided :: "closed_mandate \<Rightarrow> eval_env \<Rightarrow> string \<Rightarrow> constraint \<Rightarrow> bool" where
  "undecided cl env key c \<longleftrightarrow>
     (\<exists>f. constraint_family c = Some f \<and> f \<noteq> closed_family cl)
     \<or> (case c of
          C_AllowedMerchants _ \<Rightarrow> ev_checkout env = None
        | C_LineItems rs \<Rightarrow> ev_checkout env = None
            \<or> (\<exists>ck. ev_checkout env = Some ck \<and> ck_line_items ck \<noteq> []
                 \<and> fst ` set (ck_line_items ck) \<subseteq> (\<Union>r \<in> set rs. set (li_acceptable r))
                 \<and> MAX_LINE_ITEM_NODES < length rs + length (ck_line_items ck))
        | C_Budget b \<Rightarrow> (\<exists>p. cl_content cl = ClosedPayment p
            \<and> am_currency (pm_payment_amount p) = bg_currency b) \<and> (\<nexists>u. counted env key u)
        | C_AgentRecurrence _ \<Rightarrow> (\<nexists>u. counted env key u)
        | C_Reference _ \<Rightarrow> tx_open_checkout_hash (ev_tx env) = None
        | _ \<Rightarrow> False)"

section \<open>The evaluators decide them\<close>

lemma day_part:
  assumes "hi \<le> (1440 :: nat)"
  shows "k * 1440 + lo \<le> m \<and> m < k * 1440 + hi \<longleftrightarrow> m div 1440 = k \<and> lo \<le> m mod 1440 \<and> m mod 1440 < hi"
proof -
  define q r where "q = m div 1440" and "r = m mod 1440"
  then have m: "m div 1440 = q" "m mod 1440 = r" "m = q * 1440 + r" "r < 1440" by simp_all
  have "k * 1440 + lo \<le> q * 1440 + r \<and> q * 1440 + r < k * 1440 + hi \<longleftrightarrow> q = k \<and> lo \<le> r \<and> r < hi"
    using assms m(4) by (cases q k rule: linorder_cases) auto
  then show ?thesis unfolding m(1,2) by (simp add: m(3) [symmetric])
qed

lemma window_open_week:
  assumes "window_wf w"
  shows "covers_minute w m \<longleftrightarrow> window_open w (m div 1440) (m mod 1440)"
proof -
  have bounds: "tw_start w < 1440" "tw_end w \<le> 1440" "m mod 1440 < 1440"
    using assms by (simp_all add: window_wf_def DAY_def)
  have "covers_minute w m \<longleftrightarrow>
      (\<exists>d \<in> set (tw_days w). \<exists>(a, b) \<in> set (day_intervals w d). a \<le> m \<and> m < b)"
    by (auto simp: covers_minute_def in_intervals_def intervals_def)
  also have "\<dots> \<longleftrightarrow> (\<exists>d \<in> set (tw_days w).
      if tw_start w < tw_end w then m div 1440 = d \<and> tw_start w \<le> m mod 1440 \<and> m mod 1440 < tw_end w
      else m div 1440 = d \<and> tw_start w \<le> m mod 1440 \<or> m div 1440 = (d + 1) mod 7 \<and> m mod 1440 < tw_end w)"
    using day_part [of "tw_end w" _ "tw_start w" m] day_part [of 1440 _ "tw_start w" m]
      day_part [of "tw_end w" _ 0 m] bounds
    by (auto simp: day_intervals_def DAY_def Let_def)
  also have "\<dots> \<longleftrightarrow> window_open w (m div 1440) (m mod 1440)"
    by (auto simp: window_open_def)
  finally show ?thesis .
qed

lemma week_minute: "unat (local_minute l) = week_minute l"
  by (simp add: week_minute_def local_minute_def DAY_def unat_word_ariths mod_simps)

lemma window_contains_inside: "window_wf w \<Longrightarrow> window_contains K w now \<longleftrightarrow> inside K now w"
  by (auto simp: window_contains_iff inside_def week_minute window_open_week)

lemma next_after_due: "next_after K f l = Some n \<longleftrightarrow> due K f l n"
  by (cases f) (auto simp: due_def i64_checked_add_def add_months_def bind_eq_Some_conv)

lemma execution_range_executed: "execution_range K p now = Inr (a, b) \<longleftrightarrow> executed K now (pm_execution_date p) a b"
  by (auto simp: execution_range_def executed_def instant_range_def split: option.splits)

lemma usage_counted: "usage_of name env key = Inr u \<longleftrightarrow> counted env key u"
  by (auto simp: usage_of_def counted_def)

lemma line_items_met:
  "line_items rs env = Inr () \<longleftrightarrow>
     (\<exists>ck x. ev_checkout env = Some ck \<and> ck_line_items ck \<noteq> []
        \<and> length rs + length (ck_line_items ck) \<le> MAX_LINE_ITEM_NODES
        \<and> fst ` set (ck_line_items ck) \<subseteq> (\<Union>r \<in> set rs. set (li_acceptable r))
        \<and> assignment rs (ck_line_items ck) x)"
proof (cases "ev_checkout env")
  case (Some ck)
  show ?thesis
  proof (cases "length rs + length (ck_line_items ck) \<le> MAX_LINE_ITEM_NODES")
    case True
    show ?thesis unfolding line_items_iff [OF Some True] using Some True by auto
  next
    case False
    then show ?thesis
      using Some by (auto simp: line_items_def Let_def split: option.splits)
  qed
qed (simp add: line_items_def)

lemma list_ex_id: "list_ex (\<lambda>x. f x = y) xs \<longleftrightarrow> y \<in> f ` set xs"
  by (auto simp: list_ex_iff)

lemmas evaluators = eval_actions_def eval_resources_def eval_amount_cap_def eval_counterparties_def
  eval_time_windows_def eval_allowed_merchants_def eval_amount_range_def eval_allowed_payees_def
  eval_allowed_instruments_def eval_allowed_pisps_def eval_reference_def

lemma action_met_Inr:
  assumes "constraint_wf c" and "cl_content cl = ClosedAction a"
  shows "constraint_evaluate K c cl env key = Inr () \<longleftrightarrow> (\<exists>d. c = C_Delegation d) \<or> action_met K env a c"
proof (cases c)
  case (C_TimeWindows ws)
  with assms(1) have "\<forall>w \<in> set ws. window_contains K w (ev_now env) \<longleftrightarrow> inside K (ev_now env) w"
    using window_contains_inside by (auto simp: constraint_wf_def list_all_iff)
  with C_TimeWindows assms(2) show ?thesis by (auto simp: evaluation eval_time_windows_def list_ex_iff)
next
  case (C_DataCategories allowed)
  with assms(2) show ?thesis
    by (cases "act_data_categories a") (auto simp: evaluation eval_data_categories_Inr)
qed (use assms(2) in \<open>auto simp: evaluation evaluators word_le_nat_alt word_less_nat_alt split: option.splits\<close>)

lemma checkout_met_Inr:
  assumes "cl_content cl = ClosedCheckout x"
  shows "constraint_evaluate K c cl env key = Inr () \<longleftrightarrow> (\<exists>d. c = C_Delegation d) \<or> checkout_met env c"
  using assms by (cases c) (auto simp: evaluation evaluators line_items_met list_ex_id simp del: image_iff)

lemma budget_met:
  "eval_budget b p env key = Inr () \<longleftrightarrow> payment_met K env key p (C_Budget b)"
proof -
  have "(case u64_checked_add t a of Some spent \<Rightarrow> spent \<le> m | None \<Rightarrow> False) \<longleftrightarrow> unat t + unat a \<le> unat m"
    for t a m :: u64
  proof -
    have "unat m < 2 ^ 64" by (rule order.strict_trans2 [OF unsigned_less]) simp
    then show ?thesis
      by (auto simp: u64_checked_add_None word_le_nat_alt split: option.splits dest!: u64_checked_add_Some)
  qed
  then show ?thesis by (auto simp: eval_budget_def usage_counted)
qed

lemma recurrence_met:
  "eval_recurrence K r env key = Inr () \<longleftrightarrow> payment_met K env key p (C_AgentRecurrence r)"
proof (cases "usage_of ''payment.agent_recurrence'' env key")
  case (Inl e)
  then have "\<not> counted env key u" for u using usage_counted [of "''payment.agent_recurrence''" env key u] by simp
  with Inl show ?thesis by (simp add: eval_recurrence_def)
next
  case (Inr u)
  then have u: "counted env key u' \<longleftrightarrow> u' = u" for u'
    using usage_counted [of "''payment.agent_recurrence''" env key u'] by auto
  have "due K (re_frequency r) l n \<longleftrightarrow> next_after K (re_frequency r) l = Some n" for l n
    by (simp add: next_after_due)
  with Inr u show ?thesis
    by (auto simp: eval_recurrence_def word_le_nat_alt not_le split: option.splits)
qed

lemma payment_met_Inr:
  assumes "cl_content cl = ClosedPayment p"
  shows "constraint_evaluate K c cl env key = Inr () \<longleftrightarrow> (\<exists>d. c = C_Delegation d) \<or> payment_met K env key p c"
proof (cases c)
  case (C_Budget b)
  with assms show ?thesis by (simp add: evaluation budget_met [of b p env key K] del: payment_met.simps)
next
  case (C_AgentRecurrence r)
  with assms show ?thesis by (simp add: evaluation recurrence_met [of K r env key p] del: payment_met.simps)
next
  case (C_ExecutionDate d)
  have "eval_execution_date K d p (ev_now env) = Inr () \<longleftrightarrow> payment_met K env key p c"
  proof (cases "execution_range K p (ev_now env)")
    case (Inl e)
    then have "\<not> executed K (ev_now env) (pm_execution_date p) a b" for a b
      by (simp add: execution_range_executed [symmetric])
    with Inl C_ExecutionDate show ?thesis by (simp add: eval_execution_date_def)
  next
    case (Inr ab)
    then have "executed K (ev_now env) (pm_execution_date p) a b \<longleftrightarrow> (a, b) = ab" for a b
      by (auto simp: execution_range_executed [symmetric])
    with Inr C_ExecutionDate show ?thesis
      by (cases ab) (auto simp: eval_execution_date_def not_less split: option.splits)
  qed
  with C_ExecutionDate assms show ?thesis by (simp add: evaluation)
qed (use assms in \<open>auto simp: evaluation evaluators Let_def list_ex_id word_le_nat_alt word_less_nat_alt
  split: option.splits\<close>)

lemma constraint_met_Inr:
  assumes "constraint_wf c"
  shows "constraint_evaluate K c cl env key = Inr () \<longleftrightarrow> constraint_met K cl env key c"
  using action_met_Inr [OF assms] checkout_met_Inr payment_met_Inr
  by (cases "cl_content cl") (auto simp: constraint_met_def)

lemma usage_Inl:
  assumes "usage_of name env key = Inl e"
  shows "(\<nexists>u. counted env key u) \<and> (\<exists>m. e = Unresolved m)"
proof -
  have "\<nexists>u. counted env key u" using assms usage_counted [of name env key] by force
  moreover have "\<exists>m. e = Unresolved m"
  proof (cases "ev_ledger env")
    case (Some ledger)
    with assms show ?thesis by (cases "ledger key") (auto simp: usage_of_def)
  qed (use assms in \<open>auto simp: usage_of_def\<close>)
  ultimately show ?thesis by blast
qed

lemma recurrence_undecided:
  assumes "eval_recurrence K r env key = Inl f"
  shows "(\<exists>m. f = Unresolved m) \<longleftrightarrow> (\<nexists>u. counted env key u)"
proof (cases "usage_of ''payment.agent_recurrence'' env key")
  case (Inl e)
  from usage_Inl [OF this] Inl assms show ?thesis by (simp add: eval_recurrence_def)
next
  case (Inr u)
  then have "counted env key u" by (simp add: usage_counted)
  with Inr assms show ?thesis by (auto simp: eval_recurrence_def split: option.splits if_splits)
qed

lemma budget_undecided:
  assumes "eval_budget b p env key = Inl f"
  shows "(\<exists>m. f = Unresolved m) \<longleftrightarrow>
    am_currency (pm_payment_amount p) = bg_currency b \<and> (\<nexists>u. counted env key u)"
proof (cases "usage_of ''payment.budget'' env key")
  case (Inl e)
  from usage_Inl [OF this] Inl assms show ?thesis by (auto simp: eval_budget_def split: if_splits)
next
  case (Inr u)
  then have "counted env key u" by (simp add: usage_counted)
  with Inr assms show ?thesis by (auto simp: eval_budget_def split: option.splits if_splits)
qed

lemma line_items_undecided:
  assumes "line_items rs env = Inl f"
  shows "(\<exists>m. f = Unresolved m) \<longleftrightarrow> ev_checkout env = None
     \<or> (\<exists>ck. ev_checkout env = Some ck \<and> ck_line_items ck \<noteq> []
          \<and> fst ` set (ck_line_items ck) \<subseteq> (\<Union>r \<in> set rs. set (li_acceptable r))
          \<and> MAX_LINE_ITEM_NODES < length rs + length (ck_line_items ck))"
proof (cases "ev_checkout env")
  case (Some ck)
  let ?bad = "find (\<lambda>e. \<not> list_ex (\<lambda>r. fst e \<in> set (li_acceptable r)) rs) (ck_line_items ck)"
  have "?bad = None \<longleftrightarrow> fst ` set (ck_line_items ck) \<subseteq> (\<Union>r \<in> set rs. set (li_acceptable r))"
    unfolding find_None_iff list_ex_iff by fastforce
  with Some assms show ?thesis
    by (auto simp: line_items_def Let_def split: option.splits if_splits prod.splits)
qed (use assms in \<open>auto simp: line_items_def\<close>)

lemma execution_date_decided:
  assumes "eval_execution_date K d p now = Inl f"
  shows "f \<noteq> Unresolved m"
proof (cases "execution_range K p now")
  case (Inl e)
  then have "\<exists>msg. e = Violated msg"
  proof (cases "pm_execution_date p")
    case (Some s)
    with Inl show ?thesis by (cases "instant_range K s") (auto simp: execution_range_def)
  qed (simp add: execution_range_def)
  with Inl assms show ?thesis by (auto simp: eval_execution_date_def)
qed (use assms in \<open>auto simp: eval_execution_date_def split: prod.splits if_splits\<close>)

lemma undecided_iff:
  assumes "constraint_evaluate K c cl env key = Inl f"
  shows "(\<exists>m. f = Unresolved m) \<longleftrightarrow> undecided cl env key c"
proof (cases "\<exists>g. constraint_family c = Some g \<and> g \<noteq> closed_family cl")
  case True
  with assms show ?thesis
    by (cases c; cases "cl_content cl") (auto simp: evaluation undecided_def closed_family_def)
next
  case False
  show ?thesis
  proof (cases c)
    case (C_Budget b)
    with False assms obtain p where "cl_content cl = ClosedPayment p"
      by (auto simp: closed_family_def split: closed_content.splits)
    with C_Budget False assms show ?thesis
      using budget_undecided [of b p env key f] by (simp add: evaluation undecided_def)
  next
    case (C_AgentRecurrence r)
    with False assms show ?thesis
      using recurrence_undecided [of K r env key f]
      by (auto simp: evaluation undecided_def closed_family_def split: closed_content.splits)
  next
    case (C_LineItems rs)
    with False assms show ?thesis
      using line_items_undecided [of rs env f]
      by (auto simp: evaluation undecided_def closed_family_def split: closed_content.splits)
  next
    case (C_AllowedMerchants allowed)
    with False assms have r: "eval_allowed_merchants allowed env = Inl f"
      by (auto simp: evaluation closed_family_def split: closed_content.splits)
    have "(\<exists>m. f = Unresolved m) \<longleftrightarrow> ev_checkout env = None"
    proof (cases "ev_checkout env")
      case (Some ck)
      with r show ?thesis
        by (cases "ck_merchant ck") (auto simp: eval_allowed_merchants_def split: if_splits)
    qed (use r in \<open>auto simp: eval_allowed_merchants_def\<close>)
    with C_AllowedMerchants False show ?thesis by (simp add: undecided_def)
  next
    case (C_ExecutionDate d)
    with False assms show ?thesis
      using execution_date_decided
      by (auto simp: evaluation undecided_def closed_family_def split: closed_content.splits)
  next
    case (C_DataCategories allowed)
    with False assms show ?thesis
      by (auto simp: evaluation undecided_def closed_family_def eval_data_categories_def
          split: closed_content.splits option.splits if_splits)
  qed (use False assms in \<open>auto simp: evaluation evaluators undecided_def closed_family_def Let_def
      split: closed_content.splits option.splits if_splits\<close>)
qed

section \<open>Mandates and chains\<close>

definition kept :: "closed_mandate \<Rightarrow> string \<times> json \<Rightarrow> bool" where
  "kept cl p \<longleftrightarrow> obj_get (cl_claims cl) (fst p) = Some (snd p)"

text \<open>An action that moves money needs a ceiling.\<close>

definition ceiling_stated :: "open_mandate \<Rightarrow> closed_mandate \<Rightarrow> bool" where
  "ceiling_stated m cl \<longleftrightarrow>
     (\<exists>a. cl_content cl = ClosedAction a \<and> act_amount a \<noteq> None) \<longrightarrow> (\<exists>cap. C_Amount cap \<in> set (om_constraints m))"

definition permits :: "chrono \<Rightarrow> closed_mandate \<Rightarrow> eval_env \<Rightarrow> open_mandate \<Rightarrow> bool" where
  "permits K cl env m \<longleftrightarrow>
     om_family m = closed_family cl \<and> (\<forall>p \<in> set (om_presets m). kept cl p) \<and> ceiling_stated m cl
     \<and> (\<forall>c \<in> set (om_constraints m). constraint_met K cl env (om_ledger_key m) c)"

definition first_that :: "('a \<Rightarrow> bool) \<Rightarrow> 'a list \<Rightarrow> 'a \<Rightarrow> bool" where
  "first_that P xs x \<longleftrightarrow> (\<exists>ys zs. xs = ys @ x # zs \<and> P x \<and> (\<forall>y \<in> set ys. \<not> P y))"

text \<open>
  The first obstacle of a mandate: another family, else its first changed preset, else a
  missing ceiling, else its first constraint that is not met, which is reported as
  undecided exactly when it is.
\<close>

fun obstacle :: "chrono \<Rightarrow> closed_mandate \<Rightarrow> eval_env \<Rightarrow> open_mandate \<Rightarrow> cause \<Rightarrow> bool" where
  "obstacle K cl env m (FamilyMismatch f g) \<longleftrightarrow> f = om_family m \<and> g = closed_family cl \<and> f \<noteq> g"
| "obstacle K cl env m (Preset k) \<longleftrightarrow>
     om_family m = closed_family cl \<and> (\<exists>v. first_that (\<lambda>p. \<not> kept cl p) (om_presets m) (k, v))"
| "obstacle K cl env m AmountWithoutCeiling \<longleftrightarrow>
     om_family m = closed_family cl \<and> (\<forall>p \<in> set (om_presets m). kept cl p) \<and> \<not> ceiling_stated m cl"
| "obstacle K cl env m (ConstraintCause t f) \<longleftrightarrow>
     om_family m = closed_family cl \<and> (\<forall>p \<in> set (om_presets m). kept cl p) \<and> ceiling_stated m cl
     \<and> (\<exists>c. first_that (\<lambda>c. \<not> constraint_met K cl env (om_ledger_key m) c) (om_constraints m) c
          \<and> t = constraint_type_name c \<and> constraint_evaluate K c cl env (om_ledger_key m) = Inl f
          \<and> ((\<exists>msg. f = Unresolved msg) \<longleftrightarrow> undecided cl env (om_ledger_key m) c))"

lemma first_that_Nil [simp]: "\<not> first_that P [] x"
  by (simp add: first_that_def)

lemma first_that_Cons: "first_that P (y # ys) x \<longleftrightarrow> (if P y then x = y else first_that P ys x)"
  unfolding first_that_def by (auto simp: Cons_eq_append_conv) (metis append_Cons set_ConsD)

lemma try_each_Inl:
  "try_each f xs = Inl e \<longleftrightarrow> (\<exists>x. first_that (\<lambda>x. f x \<noteq> Inr ()) xs x \<and> f x = Inl e)"
proof (induction xs)
  case (Cons x xs)
  then show ?case by (cases "f x") (auto simp: first_that_Cons)
qed simp

lemma first_that_cong:
  "(\<And>x. x \<in> set xs \<Longrightarrow> P x \<longleftrightarrow> Q x) \<Longrightarrow> first_that P xs x \<longleftrightarrow> first_that Q xs x"
  unfolding first_that_def by (intro ex_cong1 conj_cong) auto

lemma ceiling_stated_iff: "ceiling_stated m cl \<longleftrightarrow> (moves_money cl \<longrightarrow> has_ceiling m)"
  by (auto simp: ceiling_stated_def moves_money_def has_ceiling_def list_ex_iff
      split: closed_content.splits constraint.splits)

lemma open_accepts_permits:
  assumes "mandate_wf m"
  shows "open_accepts K m cl env = Inr () \<longleftrightarrow> permits K cl env m"
proof -
  have "\<forall>c \<in> set (om_constraints m). constraint_evaluate K c cl env (om_ledger_key m) = Inr ()
      \<longleftrightarrow> constraint_met K cl env (om_ledger_key m) c"
    using assms constraint_met_Inr by (auto simp: mandate_wf_def list_all_iff)
  then show ?thesis
    unfolding open_accepts_Inr permits_def ceiling_stated_iff kept_def by (auto simp: case_prod_unfold)
qed

lemma presets_kept:
  "try_each (\<lambda>(claim, v). if obj_get (cl_claims cl) claim \<noteq> Some v then Inl (Preset claim) else Inr ()) ps
     = (case find (\<lambda>p. \<not> kept cl p) ps of Some (k, v) \<Rightarrow> Inl (Preset k) | None \<Rightarrow> Inr ())"
  by (induction ps) (auto simp: kept_def)

lemma find_first_that: "find P xs = Some x \<longleftrightarrow> first_that P xs x"
  by (induction xs) (auto simp: first_that_Cons)

lemma constraints_first:
  assumes "mandate_wf m"
  shows "try_each (\<lambda>c. map_err (ConstraintCause (constraint_type_name c))
      (constraint_evaluate K c cl env (om_ledger_key m))) (om_constraints m) = Inl cause \<longleftrightarrow>
    (\<exists>c f. cause = ConstraintCause (constraint_type_name c) f
       \<and> first_that (\<lambda>c. \<not> constraint_met K cl env (om_ledger_key m) c) (om_constraints m) c
       \<and> constraint_evaluate K c cl env (om_ledger_key m) = Inl f)"
proof -
  let ?step = "\<lambda>c. map_err (ConstraintCause (constraint_type_name c)) (constraint_evaluate K c cl env (om_ledger_key m))"
  have met: "?step c \<noteq> Inr () \<longleftrightarrow> \<not> constraint_met K cl env (om_ledger_key m) c" if "c \<in> set (om_constraints m)" for c
    using assms that constraint_met_Inr by (simp add: mandate_wf_def list_all_iff)
  have first: "first_that (\<lambda>c. ?step c \<noteq> Inr ()) (om_constraints m) c
      \<longleftrightarrow> first_that (\<lambda>c. \<not> constraint_met K cl env (om_ledger_key m) c) (om_constraints m) c" for c
    by (rule first_that_cong) (rule met)
  have fails: "?step c = Inl cause \<longleftrightarrow> (\<exists>f. cause = ConstraintCause (constraint_type_name c) f
      \<and> constraint_evaluate K c cl env (om_ledger_key m) = Inl f)" for c
    by (cases "constraint_evaluate K c cl env (om_ledger_key m)") auto
  show ?thesis unfolding try_each_Inl first fails by blast
qed

lemma open_accepts_obstacle:
  assumes "mandate_wf m"
  shows "open_accepts K m cl env = Inl cause \<longleftrightarrow> obstacle K cl env m cause"
proof (cases "om_family m = closed_family cl")
  case False
  then show ?thesis by (cases cause) (auto simp: open_accepts_def)
next
  case fam: True
  show ?thesis
  proof (cases "find (\<lambda>p. \<not> kept cl p) (om_presets m)")
    case None
    then have keep: "\<forall>p \<in> set (om_presets m). kept cl p" by (auto simp: find_None_iff)
    then have "\<not> first_that (\<lambda>p. \<not> kept cl p) (om_presets m) p" for p by (auto simp: first_that_def)
    moreover have "open_accepts K m cl env = Inl cause \<longleftrightarrow>
        (if \<not> ceiling_stated m cl then cause = AmountWithoutCeiling
         else (\<exists>c f. cause = ConstraintCause (constraint_type_name c) f
           \<and> first_that (\<lambda>c. \<not> constraint_met K cl env (om_ledger_key m) c) (om_constraints m) c
           \<and> constraint_evaluate K c cl env (om_ledger_key m) = Inl f))"
      using fam None constraints_first [OF assms, of K cl env cause]
      by (auto simp: open_accepts_def presets_kept ceiling_stated_iff)
    ultimately show ?thesis
      using fam keep undecided_iff by (cases cause) auto
  next
    case (Some p)
    obtain k v where p: "p = (k, v)" by (cases p)
    have changed: "\<not> (\<forall>p \<in> set (om_presets m). kept cl p)"
      using Some by (metis find_None_iff option.distinct(1))
    have first: "first_that (\<lambda>p. \<not> kept cl p) (om_presets m) q \<longleftrightarrow> q = (k, v)" for q
      using Some p by (auto simp: find_first_that [symmetric])
    have "open_accepts K m cl env = Inl (Preset k)"
      using fam Some p by (simp add: open_accepts_def presets_kept)
    then show ?thesis using fam changed first by (cases cause) auto
  qed
qed

text \<open>The chain asks every open mandate, in order.\<close>

lemma evaluate_chain_permits:
  assumes "\<forall>m \<in> set ms. mandate_wf m"
  shows "evaluate_chain K ms cl env = Inr () \<longleftrightarrow> (\<forall>m \<in> set ms. permits K cl env m)"
    and "evaluate_chain K ms cl env = Inl f \<longleftrightarrow>
      cf_link f < length ms \<and> obstacle K cl env (ms ! cf_link f) (cf_cause f)
      \<and> (\<forall>j < cf_link f. permits K cl env (ms ! j))"
proof -
  show "evaluate_chain K ms cl env = Inr () \<longleftrightarrow> (\<forall>m \<in> set ms. permits K cl env m)"
    using assms open_accepts_permits by (auto simp: evaluate_chain_def evaluate_from_Inr)
  have "open_accepts K (ms ! i) cl env = Inl (cf_cause f) \<longleftrightarrow> obstacle K cl env (ms ! i) (cf_cause f)"
    "open_accepts K (ms ! i) cl env = Inr () \<longleftrightarrow> permits K cl env (ms ! i)" if "i < length ms" for i
    using assms that open_accepts_obstacle open_accepts_permits by simp_all
  then show "evaluate_chain K ms cl env = Inl f \<longleftrightarrow>
      cf_link f < length ms \<and> obstacle K cl env (ms ! cf_link f) (cf_cause f)
      \<and> (\<forall>j < cf_link f. permits K cl env (ms ! j))"
    unfolding evaluate_chain_Inl by (meson order.strict_trans)
qed

text \<open>C11: A chain of parsed open mandates accepts a closed mandate exactly when each of them
  permits it, stated without the evaluators: membership, sums of natural numbers within
  budgets, ceilings and ranges, minutes of the week, calendar steps and assignments of cart
  items for the seventeen constraint types, the presets kept, the same family, and a stated
  ceiling where an authority moves money. A rejection names the first mandate that does not
  permit it, with its first obstacle: the family, the preset, the missing ceiling, or the
  first constraint that is violated or cannot be decided.\<close>
theorem evaluation_exact:
  assumes "list_all2 (\<lambda>(claims, key) m. open_parse K claims key = Inr m) inputs ms"
  shows "(evaluate_chain K ms cl env = Inr () \<longleftrightarrow> (\<forall>m \<in> set ms. permits K cl env m))
    \<and> (evaluate_chain K ms cl env = Inl f \<longleftrightarrow>
         cf_link f < length ms \<and> obstacle K cl env (ms ! cf_link f) (cf_cause f)
         \<and> (\<forall>j < cf_link f. permits K cl env (ms ! j)))"
proof -
  have "\<forall>m \<in> set ms. mandate_wf m"
    using assms open_parse_wf by (fastforce simp: list_all2_conv_all_nth in_set_conv_nth)
  from evaluate_chain_permits [OF this] show ?thesis by blast
qed

section \<open>A concrete chain\<close>

lemma obstacle_not_permits: "mandate_wf m \<Longrightarrow> obstacle K cl env m cause \<Longrightarrow> \<not> permits K cl env m"
  by (simp add: open_accepts_obstacle [symmetric] open_accepts_permits [symmetric])

lemma toy_permits:
  "permits K (toy_payment 60) env (toy_open 1 100 key)" "permits K (toy_payment 60) env (toy_open 0 60 key)"
  "permits K (toy_payment 80) env (toy_open 1 100 key)" "\<not> permits K (toy_payment 80) env (toy_open 0 60 key)"
  by (auto simp: permits_def toy_open_def toy_payment_def toy_closed_claims_def closed_family_def kept_def
      ceiling_stated_def constraint_met_def)

theorem evaluation_exact_witness:
  "evaluate_chain monday_ten [toy_open 1 100 ''parent'', toy_open 0 60 ''child''] (toy_payment 60) toy_env = Inr ()
   \<and> (\<exists>f. evaluate_chain monday_ten [toy_open 1 100 ''parent'', toy_open 0 60 ''child''] (toy_payment 80) toy_env
        = Inl f \<and> cf_link f = 1)"
proof -
  let ?ms = "[toy_open 1 100 ''parent'', toy_open 0 60 ''child'']"
  have read: "list_all2 (\<lambda>(claims, key) m. open_parse monday_ten claims key = Inr m)
      [(toy_open_claims 1 100, ''parent''), (toy_open_claims 0 60, ''child'')] ?ms"
    by (simp add: toy_open_parse)
  have "evaluate_chain monday_ten ?ms (toy_payment 80) toy_env \<noteq> Inr ()"
    using evaluation_exact [OF read, of "toy_payment 80" toy_env] toy_permits by auto
  then obtain f where f: "evaluate_chain monday_ten ?ms (toy_payment 80) toy_env = Inl f"
    by (cases "evaluate_chain monday_ten ?ms (toy_payment 80) toy_env") auto
  with evaluation_exact [OF read, of "toy_payment 80" toy_env f]
  have link: "cf_link f < 2" "obstacle monday_ten (toy_payment 80) toy_env (?ms ! cf_link f) (cf_cause f)" by simp_all
  have "cf_link f \<noteq> 0"
  proof
    assume "cf_link f = 0"
    with link(2) have "obstacle monday_ten (toy_payment 80) toy_env (toy_open 1 100 ''parent'') (cf_cause f)" by simp
    from obstacle_not_permits [OF open_parse_wf [OF toy_open_parse(1)] this] toy_permits(3) show False by blast
  qed
  with link(1) f show ?thesis
    using evaluation_exact [OF read, of "toy_payment 60" toy_env] toy_permits by auto
qed

end
