(* ===== verification/AuthAuthorize.thy ===== *)
theory AuthAuthorize
  imports AuthVerifier AuthPermit
begin

text \<open>
  What the v1 verifier promises, stated without its control flow, and the proof that the
  checks of crates/authority/src/verifier.rs, in the order the code runs them, implement it:
  a presentation is authorized exactly when its chain verifies, every element that has a
  status has a good one, every open mandate has one or expires soon and permits the closed
  one (AuthPermit), the closed one is bound to the transaction, and the final binding is
  fresh and new. The root and the closed mandate need no status and may be valid for long.
\<close>

section \<open>The specification\<close>

text \<open>Revocation: a stated status is affirmed; an open mandate that states none must expire soon.\<close>

definition status_good :: "'s verifier_v1 \<Rightarrow> i64 \<Rightarrow> object \<Rightarrow> bool" where
  "status_good V now claims \<longleftrightarrow>
     (\<forall>status. obj_get claims ''status'' = Some status \<longrightarrow> ve_status V status now = Inr StatusValid)"

definition revocable_or_short :: "policy \<Rightarrow> i64 \<Rightarrow> object \<Rightarrow> bool" where
  "revocable_or_short p now claims \<longleftrightarrow> obj_contains claims ''status''
     \<or> (\<exists>v e. obj_get claims ''exp'' = Some v \<and> as_f64 v = Some e
          \<and> e - f64_of_int now \<le> f64_of_int (po_max_validity_without_status p))"

text \<open>On whose behalf, and how many elements of the chain come before the first mandate.\<close>

definition acts_for :: "policy \<Rightarrow> verified_chain \<Rightarrow> sd_verifying_key \<Rightarrow> principal_v1 \<Rightarrow> nat \<Rightarrow> bool" where
  "acts_for p chain issuer_key prin skipped \<longleftrightarrow>
     (case po_root p of
        RootCredential _ vct \<Rightarrow>
          (\<exists>v \<in> set vct. obj_str (vl_claims (vc_root chain)) ''vct'' = Some v)
          \<and> prin = CredentialHolder (obj_str (vl_claims (vc_root chain)) ''iss'') (vl_cnf (vc_root chain))
          \<and> skipped = 1
      | UserSignedMandate _ \<Rightarrow> prin = UserKey issuer_key \<and> skipped = 0)"

text \<open>Every open mandate allows at least as many further ones as follow it.\<close>

definition depths_allow :: "open_mandate list \<Rightarrow> bool" where
  "depths_allow mandates \<longleftrightarrow>
     (\<forall>i < length mandates. length mandates - Suc i \<le> unat (om_max_depth (mandates ! i)))"

text \<open>
  The closed mandate is about this transaction. A checkout is one whose JWT is known, from
  the mandate or from the verifier and never two different ones, and has the stated and
  the expected hash; it is read when the verifier has it itself or the merchant signed it.
\<close>

definition trusted_checkout :: "crypto \<Rightarrow> string \<Rightarrow> transaction_context \<Rightarrow> checkout option \<Rightarrow> bool" where
  "trusted_checkout C jwt tx checkout \<longleftrightarrow>
     (case (tx_checkout_jwt tx, tx_merchant_key tx) of
        (Some _, _) \<Rightarrow> (\<exists>h p g bs v c. split_on CHR ''.'' jwt = [h, p, g] \<and> b64_decode C p = Inr bs
            \<and> json_read C bs = Inr v \<and> checkout_parse v = Inr c \<and> checkout = Some c)
      | (None, Some key) \<Rightarrow> (\<exists>v c. verify_jwt C jwt key [''JWT''] = Inr v
            \<and> checkout_parse (JObj (vj_claims v)) = Inr c \<and> checkout = Some c)
      | (None, None) \<Rightarrow> checkout = None)"

definition bound_to ::
  "crypto \<Rightarrow> sd_alg \<Rightarrow> closed_mandate \<Rightarrow> transaction_context \<Rightarrow> checkout option \<Rightarrow> bool" where
  "bound_to C alg cl tx checkout \<longleftrightarrow>
     (\<exists>a. cl_content cl = ClosedAction a \<and> checkout = None)
     \<or> (\<exists>p. cl_content cl = ClosedPayment p \<and> tx_expected_transaction_id tx = Some (pm_transaction_id p)
          \<and> checkout = None)
     \<or> (\<exists>m jwt. cl_content cl = ClosedCheckout m
          \<and> Some jwt \<in> {cm_checkout_jwt m, tx_checkout_jwt tx}
          \<and> {cm_checkout_jwt m, tx_checkout_jwt tx} \<subseteq> {None, Some jwt}
          \<and> sd_digest C alg jwt = cm_checkout_hash m
          \<and> tx_expected_checkout_hash tx \<in> {None, Some (cm_checkout_hash m)}
          \<and> trusted_checkout C jwt tx checkout)"

text \<open>
  The final key binding: the last element is bound to this audience and to the verifier's
  challenge or the nonce the agent wrote into it; a presentation without links is bound to
  nothing, and only a mandate the user signed for a verifier that allows it may be.
\<close>

definition binding_asked ::
  "policy \<Rightarrow> presentation \<Rightarrow> transaction_context \<Rightarrow> key_binding \<Rightarrow> string option \<Rightarrow> bool" where
  "binding_asked p pn tx kb nonce \<longleftrightarrow>
     pn_links pn \<noteq> [] \<and> (\<exists>n. kb = TerminalLink (po_audience p) n \<and> nonce = Some n
        \<and> (tx_nonce tx = Challenge n
           \<or> tx_nonce tx = AgentGenerated
             \<and> obj_get (jws_payload (sj_jws (last (pn_links pn)))) ''nonce'' = Some (JStr n)))
     \<or> pn_links pn = [] \<and> po_allow_unbound_root_mandate p \<and> (\<exists>t. po_root p = UserSignedMandate t)
        \<and> kb = NotRequired \<and> nonce = None"

text \<open>What the policy demands of the chain: root type and form, times, an expiry, and at most
  one link more than it allows open mandates.\<close>

definition demands :: "policy \<Rightarrow> key_binding \<Rightarrow> i64 \<Rightarrow> verify_options \<Rightarrow> bool" where
  "demands p kb now opts \<longleftrightarrow>
     (\<forall>typs vcts. po_root p = RootCredential typs vcts \<longrightarrow> vo_root_typ opts = typs \<and> vo_root_form opts = Credential)
   \<and> (\<forall>typs. po_root p = UserSignedMandate typs \<longrightarrow> vo_root_typ opts = typs \<and> vo_root_form opts = DelegatePayload)
   \<and> vo_now opts = now \<and> vo_leeway opts = po_leeway p \<and> vo_max_age opts = po_max_age p
   \<and> vo_max_future opts = po_max_future p \<and> vo_key_binding opts = kb \<and> vo_require_exp opts
   \<and> vo_max_links opts = Suc (po_max_open_mandates p)"

definition granted ::
  "crypto \<Rightarrow> chrono \<Rightarrow> 's verifier_v1 \<Rightarrow> verified_chain \<Rightarrow> sd_verifying_key \<Rightarrow> transaction_context \<Rightarrow> i64
   \<Rightarrow> authorized \<Rightarrow> verified_link \<Rightarrow> bool" where
  "granted C K V chain issuer_key tx now a leaf \<longleftrightarrow>
     (\<exists>skipped opens mandates checkout.
        acts_for (ve_policy V) chain issuer_key (au_principal a) skipped
      \<and> drop skipped (vc_links chain) = opens @ [leaf]
      \<and> length opens \<le> po_max_open_mandates (ve_policy V)
      \<and> (\<forall>link \<in> set (vc_links chain). status_good V now (vl_claims link))
      \<and> closed_parse (vl_claims leaf) = Inr (au_closed a)
      \<and> list_all2 (\<lambda>link m. open_parse K (vl_claims link) (ledger_key C link) = Inr m
           \<and> revocable_or_short (ve_policy V) now (vl_claims link)) opens mandates
      \<and> depths_allow mandates
      \<and> bound_to C (vl_sd_alg leaf) (au_closed a) tx checkout
      \<and> (\<forall>m \<in> set mandates. permits K (au_closed a)
           \<lparr>ev_now = now, ev_tx = tx, ev_ledger = ve_ledger V, ev_checkout = checkout\<rparr> m)
      \<and> au_chain a = chain \<and> au_ledger_keys a = map om_ledger_key mandates)"

text \<open>The final binding names this verifier and the nonce, and its \<open>iat\<close> lies in the window.\<close>

definition binding_fresh :: "policy \<Rightarrow> i64 \<Rightarrow> string \<Rightarrow> verified_link \<Rightarrow> i64 \<Rightarrow> bool" where
  "binding_fresh p now nonce leaf iat \<longleftrightarrow>
     obj_str (vl_envelope leaf) ''aud'' = Some (po_audience p)
   \<and> obj_str (vl_envelope leaf) ''nonce'' = Some nonce
   \<and> (\<exists>v x. obj_get (vl_envelope leaf) ''iat'' = Some v \<and> as_f64 v = Some x \<and> iat = f64_to_i64 x
        \<and> \<not> x < f64_of_int now - f64_of_int (po_max_age p)
        \<and> \<not> x > f64_of_int now + f64_of_int (po_max_future p))"

text \<open>A nonce the agent chose is recorded as new; any other leaves the store alone.\<close>

definition nonce_accepted ::
  "'s verifier_v1 \<Rightarrow> transaction_context \<Rightarrow> i64 \<Rightarrow> string \<Rightarrow> i64 \<Rightarrow> 's \<Rightarrow> 's \<Rightarrow> bool" where
  "nonce_accepted V tx now nonce iat s s' \<longleftrightarrow>
     (if tx_nonce tx = AgentGenerated
      then \<exists>insert_nonce. ve_nonces V = Some insert_nonce
        \<and> insert_nonce nonce (i64_wrap (iat + po_max_age (ve_policy V))) now s = (Inr True, s')
      else s' = s)"

definition authorizes ::
  "crypto \<Rightarrow> chrono \<Rightarrow> 's verifier_v1 \<Rightarrow> presentation \<Rightarrow> sd_verifying_key \<Rightarrow> transaction_context \<Rightarrow> i64
   \<Rightarrow> 's \<Rightarrow> authorized \<Rightarrow> 's \<Rightarrow> bool" where
  "authorizes C K V pn issuer_key tx now s a s' \<longleftrightarrow>
     (\<exists>kb nonce opts chain leaf.
        binding_asked (ve_policy V) pn tx kb nonce
      \<and> demands (ve_policy V) kb now opts \<and> verify_chain C pn issuer_key opts = Inr chain
      \<and> granted C K V chain issuer_key tx now a leaf
      \<and> (case nonce of
           None \<Rightarrow> s' = s
         | Some n \<Rightarrow> \<exists>iat. binding_fresh (ve_policy V) now n leaf iat \<and> nonce_accepted V tx now n iat s s'))"

section \<open>The checks implement it\<close>

lemma check_status_Inr: "check_status V link now = Inr () \<longleftrightarrow> status_good V now (vl_claims link)"
  by (auto simp: check_status_def status_good_def split: option.splits sum.splits token_status.splits)

lemma check_revocable_Inr: "check_revocable p link now = Inr () \<longleftrightarrow> revocable_or_short p now (vl_claims link)"
  by (auto simp: check_revocable_def revocable_or_short_def bind_eq_Some_conv split: option.splits)

lemma read_open_Inr:
  "read_open C K p now link = Inr m \<longleftrightarrow>
     open_parse K (vl_claims link) (ledger_key C link) = Inr m \<and> revocable_or_short p now (vl_claims link)"
  by (auto simp: read_open_def check_revocable_Inr)

lemma check_depth_Inr:
  "length links = length ms \<Longrightarrow> check_depth (zip ms links) = Inr () \<longleftrightarrow> depths_allow ms"
proof (induction ms links rule: list_induct2')
  case (4 m ms l ls)
  have "depths_allow (m # ms) \<longleftrightarrow> length ms \<le> unat (om_max_depth m) \<and> depths_allow ms"
    by (auto simp: depths_allow_def less_Suc_eq_0_disj)
  with 4 show ?case by simp
qed (simp_all add: depths_allow_def)

lemma root_principal_Inr:
  "root_principal p chain key = Inr (prin, skipped) \<longleftrightarrow> acts_for p chain key prin skipped"
  by (auto simp: root_principal_def acts_for_def Let_def split: root_policy.splits option.splits if_splits)

lemma decode_payload_Some:
  "decode_payload C jwt = Some v \<longleftrightarrow>
     (\<exists>h p g bs. split_on CHR ''.'' jwt = [h, p, g] \<and> b64_decode C p = Inr bs \<and> json_read C bs = Inr v)"
  by (auto simp: decode_payload_def bind_eq_Some_conv ok_def split: list.splits sum.splits)

lemma known_checkout_Inr:
  "known_checkout_jwt m tx = Inr jwt \<longleftrightarrow>
     Some jwt \<in> {cm_checkout_jwt m, tx_checkout_jwt tx} \<and> {cm_checkout_jwt m, tx_checkout_jwt tx} \<subseteq> {None, Some jwt}"
  by (auto simp: known_checkout_jwt_def split: option.splits)

lemma checkout_bind_Inr:
  "checkout_bind C m alg tx = Inr checkout \<longleftrightarrow>
     (\<exists>jwt. known_checkout_jwt m tx = Inr jwt \<and> sd_digest C alg jwt = cm_checkout_hash m
        \<and> tx_expected_checkout_hash tx \<in> {None, Some (cm_checkout_hash m)} \<and> trusted_checkout C jwt tx checkout)"
proof -
  have expected: "(case h of None \<Rightarrow> False | Some h \<Rightarrow> h \<noteq> x) \<longleftrightarrow> h \<notin> {None, Some x}" for h and x :: string
    by (cases h) auto
  show ?thesis
    unfolding checkout_bind_def trusted_checkout_def expected
    by (cases "tx_checkout_jwt tx"; cases "tx_merchant_key tx")
      (fastforce simp: decode_payload_Some split: if_splits)+
qed

lemma bind_closed_Inr: "bind_closed C leaf cl tx = Inr checkout \<longleftrightarrow> bound_to C (vl_sd_alg leaf) cl tx checkout"
  by (cases "cl_content cl")
    (auto simp: bind_closed_def bound_to_def payment_bind_def checkout_bind_Inr known_checkout_Inr
      split: option.splits if_splits)

lemma choose_binding_Inr: "choose_binding p pn tx = Inr (kb, nonce) \<longleftrightarrow> binding_asked p pn tx kb nonce"
  by (auto simp: choose_binding_def binding_asked_def pn_last_def obj_str_eq_Some
      split: nonce_mode.splits root_policy.splits)

lemma demands_iff: "demands p kb now opts \<longleftrightarrow> opts = options_for p kb now"
  by (cases opts; cases "po_root p") (auto simp: demands_def options_for_def)

text \<open>The specification over the functions the code calls.\<close>

lemma granted_steps:
  "granted C K V chain issuer_key tx now a leaf \<longleftrightarrow>
     (\<exists>skipped opens mandates checkout.
        acts_for (ve_policy V) chain issuer_key (au_principal a) skipped
      \<and> drop skipped (vc_links chain) = opens @ [leaf]
      \<and> length opens \<le> po_max_open_mandates (ve_policy V)
      \<and> (\<forall>link \<in> set (vc_links chain). status_good V now (vl_claims link))
      \<and> closed_parse (vl_claims leaf) = Inr (au_closed a)
      \<and> list_all2 (\<lambda>link m. open_parse K (vl_claims link) (ledger_key C link) = Inr m
           \<and> revocable_or_short (ve_policy V) now (vl_claims link)) opens mandates
      \<and> depths_allow mandates
      \<and> bind_closed C leaf (au_closed a) tx = Inr checkout
      \<and> (\<forall>m \<in> set mandates. open_accepts K m (au_closed a)
           \<lparr>ev_now = now, ev_tx = tx, ev_ledger = ve_ledger V, ev_checkout = checkout\<rparr> = Inr ())
      \<and> au_chain a = chain \<and> au_ledger_keys a = map om_ledger_key mandates)"
proof -
  have wf: "\<forall>m \<in> set mandates. mandate_wf m"
    if "list_all2 (\<lambda>link m. open_parse K (vl_claims link) (ledger_key C link) = Inr m
        \<and> revocable_or_short (ve_policy V) now (vl_claims link)) opens mandates" for opens mandates
    using that open_parse_wf by (fastforce simp: list_all2_conv_all_nth in_set_conv_nth)
  show ?thesis
    unfolding granted_def bind_closed_Inr
    using open_accepts_permits wf by (intro ex_cong1 conj_cong refl) blast+
qed

lemma authorizes_steps:
  "authorizes C K V pn issuer_key tx now s a s' \<longleftrightarrow>
     (\<exists>kb nonce chain leaf.
        choose_binding (ve_policy V) pn tx = Inr (kb, nonce)
      \<and> verify_chain C pn issuer_key (options_for (ve_policy V) kb now) = Inr chain
      \<and> granted C K V chain issuer_key tx now a leaf
      \<and> (case nonce of
           None \<Rightarrow> s' = s
         | Some n \<Rightarrow> \<exists>iat. binding_fresh (ve_policy V) now n leaf iat \<and> nonce_accepted V tx now n iat s s'))"
  unfolding authorizes_def choose_binding_Inr demands_iff by blast

lemma authorize_content_Inr:
  "authorize_content C K V chain issuer_key tx now = Inr (a, leaf) \<longleftrightarrow> granted C K V chain issuer_key tx now a leaf"
    (is "?code \<longleftrightarrow> ?spec")
proof
  assume ?code
  then obtain prin skipped cl mandates checkout where
      first: "acts_for (ve_policy V) chain issuer_key prin skipped"
    and ne: "drop skipped (vc_links chain) \<noteq> []" and leaf: "leaf = last (drop skipped (vc_links chain))"
    and rest: "length (butlast (drop skipped (vc_links chain))) \<le> po_max_open_mandates (ve_policy V)"
      "\<forall>link \<in> set (vc_links chain). status_good V now (vl_claims link)" "closed_parse (vl_claims leaf) = Inr cl"
    and m: "list_all2 (\<lambda>link m. read_open C K (ve_policy V) now link = Inr m)
        (butlast (drop skipped (vc_links chain))) mandates"
    and depth: "check_depth (zip mandates (butlast (drop skipped (vc_links chain)))) = Inr ()"
    and bind: "bind_closed C leaf cl tx = Inr checkout"
    and accepts: "evaluate_chain K mandates cl
        \<lparr>ev_now = now, ev_tx = tx, ev_ledger = ve_ledger V, ev_checkout = checkout\<rparr> = Inr ()"
    and a: "a = \<lparr>au_chain = chain, au_closed = cl, au_principal = prin,
        au_ledger_keys = map om_ledger_key mandates\<rparr>"
    by (auto simp: authorize_content_def Let_def root_principal_Inr check_status_Inr collect_eq_Inr not_less
        split: if_splits)
  let ?opens = "butlast (drop skipped (vc_links chain))"
  have split: "drop skipped (vc_links chain) = ?opens @ [leaf]"
    by (simp only: leaf append_butlast_last_id [OF ne])
  have "depths_allow mandates"
    using depth list_all2_lengthD [OF m] check_depth_Inr [of ?opens mandates] by simp
  moreover note m [unfolded read_open_Inr] accepts [unfolded evaluate_chain_def evaluate_from_Inr]
  ultimately show ?spec
    unfolding granted_steps a using first split rest bind
    by (intro exI [of _ skipped] exI [of _ ?opens] exI [of _ mandates] exI [of _ checkout]) simp
next
  assume ?spec
  then obtain skipped opens mandates checkout where s:
      "acts_for (ve_policy V) chain issuer_key (au_principal a) skipped"
      "drop skipped (vc_links chain) = opens @ [leaf]"
      "length opens \<le> po_max_open_mandates (ve_policy V)"
      "\<forall>link \<in> set (vc_links chain). status_good V now (vl_claims link)"
      "closed_parse (vl_claims leaf) = Inr (au_closed a)"
      "list_all2 (\<lambda>link m. read_open C K (ve_policy V) now link = Inr m) opens mandates"
      "depths_allow mandates" "bind_closed C leaf (au_closed a) tx = Inr checkout"
      "evaluate_chain K mandates (au_closed a)
         \<lparr>ev_now = now, ev_tx = tx, ev_ledger = ve_ledger V, ev_checkout = checkout\<rparr> = Inr ()"
      "au_chain a = chain" "au_ledger_keys a = map om_ledger_key mandates"
    unfolding granted_steps read_open_Inr evaluate_chain_def evaluate_from_Inr by blast
  have "check_depth (zip mandates opens) = Inr ()"
    using s(7) check_depth_Inr [of opens mandates] list_all2_lengthD [OF s(6)] by simp
  moreover have "\<forall>link \<in> set (vc_links chain). check_status V link now = Inr ()"
    using s(4) by (simp add: check_status_Inr)
  moreover have "collect (read_open C K (ve_policy V) now) opens = Inr mandates"
    using s(6) by (simp add: collect_eq_Inr)
  moreover have "skipped < length (vc_links chain)"
    using arg_cong [OF s(2), of length] by simp
  moreover note s(1) [folded root_principal_Inr]
  ultimately show ?code
    using s(2-5) s(8-11) by (cases a) (simp add: authorize_content_def Let_def not_less)
qed

lemma check_freshness_Inr:
  "check_freshness p leaf nonce now = Inr iat \<longleftrightarrow> binding_fresh p now nonce leaf iat"
  by (auto simp: check_freshness_def binding_fresh_def Let_def bind_eq_Some_conv)

lemma check_replay_Inr:
  "check_replay V leaf tx nonce now s = (Inr (), s') \<longleftrightarrow>
     (\<exists>iat. binding_fresh (ve_policy V) now nonce leaf iat \<and> nonce_accepted V tx now nonce iat s s')"
proof (cases "check_freshness (ve_policy V) leaf nonce now")
  case (Inl e)
  then have "\<not> binding_fresh (ve_policy V) now nonce leaf iat" for iat
    by (simp add: check_freshness_Inr [symmetric])
  with Inl show ?thesis by (simp add: check_replay_def)
next
  case (Inr iat)
  then have "binding_fresh (ve_policy V) now nonce leaf iat' \<longleftrightarrow> iat' = iat" for iat'
    by (auto simp: check_freshness_Inr [symmetric])
  with Inr show ?thesis
    by (auto simp: check_replay_def nonce_accepted_def split: option.splits prod.splits sum.splits bool.splits)
qed

lemma authorize_steps:
  "authorize C K V chain issuer_key tx nonce now s = (Inr a, s') \<longleftrightarrow>
     (\<exists>leaf. authorize_content C K V chain issuer_key tx now = Inr (a, leaf)
      \<and> (case nonce of None \<Rightarrow> s' = s | Some n \<Rightarrow> check_replay V leaf tx n now s = (Inr (), s')))"
proof (cases "authorize_content C K V chain issuer_key tx now")
  case (Inr r)
  obtain a' leaf where r: "r = (a', leaf)" by (cases r)
  show ?thesis
  proof (cases nonce)
    case (Some n)
    obtain c s1 where "check_replay V leaf tx n now s = (c, s1)" by (cases "check_replay V leaf tx n now s")
    with Inr r Some show ?thesis by (cases c) (auto simp: authorize_def)
  qed (use Inr r in \<open>auto simp: authorize_def\<close>)
qed (simp add: authorize_def)

lemmas authorize_Inr = authorize_steps [unfolded authorize_content_Inr check_replay_Inr]

lemma check_presentation_Inr:
  "check_presentation C K V pn issuer_key tx now s = (Inr a, s') \<longleftrightarrow>
     authorizes C K V pn issuer_key tx now s a s'"
proof (cases "choose_binding (ve_policy V) pn tx")
  case (Inl e)
  then show ?thesis by (simp add: check_presentation_def authorizes_steps)
next
  case (Inr r)
  obtain kb nonce where r: "r = (kb, nonce)" by (cases r)
  show ?thesis
  proof (cases "verify_chain C pn issuer_key (options_for (ve_policy V) kb now)")
    case (Inl e)
    with Inr r show ?thesis by (simp add: check_presentation_def authorizes_steps)
  next
    case (Inr chain)
    with \<open>choose_binding _ _ _ = _\<close> r show ?thesis
      by (simp add: check_presentation_def authorizes_steps authorize_Inr)
  qed
qed

text \<open>C2: The checks of the v1 verifier, in the order the code runs them, authorize a
  presentation exactly when the declarative specification holds: the chain verifies under
  the options the policy and the key binding asked for demand, the root is accepted, every
  element that carries a status has a good one, every open mandate carries a status or
  expires soon, every open mandate permits the closed one (by the declarative rules of all
  seventeen constraints) within its delegation depth, the closed mandate is bound to the
  transaction and its checkout, the final binding is fresh and a nonce the agent chose is
  new. The root and the closed mandate need neither a status nor a short life.\<close>
theorem authorization_exact:
  "check_presentation C K V pn issuer_key tx now s = (Inr a, s') \<longleftrightarrow>
     authorizes C K V pn issuer_key tx now s a s'"
  by (rule check_presentation_Inr)

end
