(* ===== verification/SdChain.thy ===== *)
theory SdChain
  imports SdVerify
begin

text \<open>
  What a verified chain guarantees: every element is signed with the key the element
  before it names and bound to it by hash, every disclosure is committed to by a signed
  payload, no mandate in it is expired, only the last link can be terminal, and the final
  binding is to the verifier's audience, nonce and clock, so that a presentation cannot be
  used for two transactions.
\<close>

section \<open>One element\<close>

lemma read_cnf_Some:
  "read_cnf C claims required = Inr (Some key) \<Longrightarrow>
   \<exists>cnf. obj_get claims ''cnf'' = Some cnf \<and> from_cnf C cnf = Inr key"
  by (auto simp: read_cnf_def split: option.splits if_splits)

lemma read_cnf_required: "read_cnf C claims True = Inr k \<Longrightarrow> k \<noteq> None"
  by (auto simp: read_cnf_def split: option.splits)

text \<open>The key an element names for the next one.\<close>

definition names_key :: "crypto \<Rightarrow> verified_link \<Rightarrow> sd_verifying_key \<Rightarrow> bool" where
  "names_key C l key \<longleftrightarrow> vl_cnf l = Some key
     \<and> (\<exists>cnf. obj_get (vl_claims l) ''cnf'' = Some cnf \<and> from_cnf C cnf = Inr key)"

text \<open>The claims of an element are its processed payload, or the delegate payload in it.\<close>

definition authentic :: "crypto \<Rightarrow> sd_jwt \<Rightarrow> verified_link \<Rightarrow> bool" where
  "authentic C e l \<longleftrightarrow> vl_header l = jws_header (sj_jws e) \<and> vl_sd_jwt l = sj_serialize e
     \<and> sd_alg_of_payload (jws_payload (sj_jws e)) = Inr (vl_sd_alg l)
     \<and> (\<exists>pr. process C (jws_payload (sj_jws e)) (sj_disclosures e) (vl_sd_alg l) = Inr pr
          \<and> (vl_claims l = pr_claims pr \<or> take_delegate_payload (pr_claims pr) = Inr (vl_claims l, vl_envelope l)))"

lemma verify_root_InrD:
  assumes "verify_root C root_jwt key opts needs = Inr l"
  shows "check_typ C (sj_jws root_jwt) (vo_root_typ opts) = Inr ()"
    "sd_jws_verify C (sj_jws root_jwt) key = Inr ()"
    "authentic C root_jwt l" "vl_kind l = RootLink"
    "check_validity (vl_claims l) opts (vo_require_exp opts) = Inr ()"
    "read_cnf C (vl_claims l) needs = Inr (vl_cnf l)"
  using assms
  by (cases "vo_root_form opts"; auto simp: verify_root_def Let_def authentic_def simp del: check_typ_eq_Inr)+

lemma verify_sd_link_InrD:
  assumes "verify_sd_link C e prev prev_e is_last opts needs pos = Inr l"
  shows "check_typ C (sj_jws e) (allowed_link_typ (vo_key_binding opts) is_last) = Inr ()"
    "\<exists>key. vl_cnf prev = Some key \<and> sd_jws_verify C (sj_jws e) key = Inr ()"
    "check_hash_binding C (jws_payload (sj_jws e)) prev_e (vl_sd_alg prev) = Inr ()"
    "authentic C e l"
    "vl_kind l = (if is_ok (check_typ C (sj_jws e) [KB_SD_JWT]) then Terminal else Delegation)"
    "link_cnf C (vl_kind l) (vl_claims l) needs = Inr (vl_cnf l)"
    "check_validity (vl_claims l) opts (vo_require_exp opts \<and> vl_kind l = Delegation) = Inr ()"
    "\<exists>iat aud nonce. numeric (jws_payload (sj_jws e)) ''iat'' = Inr (Some iat)
       \<and> single_string (jws_payload (sj_jws e)) ''aud'' = Inr aud
       \<and> single_string (jws_payload (sj_jws e)) ''nonce'' = Inr nonce
       \<and> check_link_iat iat aud nonce is_last opts = Inr ()"
  using assms
  unfolding verify_sd_link_def Let_def authentic_def
  by (auto simp del: check_typ_eq_Inr)

lemma link_cnf_names:
  "link_cnf C kind claims needs = Inr (Some key) \<Longrightarrow>
   \<exists>cnf. obj_get claims ''cnf'' = Some cnf \<and> from_cnf C cnf = Inr key"
  by (auto simp: link_cnf_def dest: read_cnf_Some split: if_splits)

lemma root_names_key:
  "verify_root C root_jwt issuer_key opts needs = Inr l \<Longrightarrow> vl_cnf l = Some key \<Longrightarrow> names_key C l key"
  using verify_root_InrD(6) [of C root_jwt issuer_key opts needs l]
  by (auto simp: names_key_def dest: read_cnf_Some)

lemma link_names_key:
  "verify_sd_link C e prev prev_e is_last opts needs pos = Inr l \<Longrightarrow> vl_cnf l = Some key \<Longrightarrow> names_key C l key"
  using verify_sd_link_InrD(6) [of C e prev prev_e is_last opts needs pos l]
  by (auto simp: names_key_def dest: link_cnf_names)

section \<open>The links\<close>

lemma verify_sd_links_nth:
  assumes "verify_sd_links C opts n i prev prev_e es = Inr links"
  shows "length links = length es \<and> (\<forall>j < length es.
    verify_sd_link C (es ! j) ((prev # links) ! j) ((prev_e # es) ! j) (i + j + 1 = n) opts
      (needs_cnf opts n (i + j + 1)) (Link (i + j + 1)) = Inr (links ! j))"
  using assms
proof (induction C opts n i prev prev_e es arbitrary: links rule: verify_sd_links.induct)
  case (2 C opts n i prev prev_e e es)
  from "2.prems" obtain l ls where
    l: "verify_sd_link C e prev prev_e (i + 1 = n) opts (needs_cnf opts n (i + 1)) (Link (i + 1)) = Inr l"
    and ls: "verify_sd_links C opts n (i + 1) l e es = Inr ls" and links: "links = l # ls"
    by auto
  have "map_err (\<lambda>k. at_position k (Link (i + 1)))
     (verify_sd_link C e prev prev_e (i + 1 = n) opts (needs_cnf opts n (i + 1)) (Link (i + 1))) = Inr l"
    using l by simp
  from "2.IH" [OF this ls] l links show ?case
    by (auto simp: less_Suc_eq_0_disj)
qed simp

text \<open>The verified chain, element by element.\<close>

lemma verify_chain_InrE:
  assumes "verify_chain C p issuer_key opts = Inr c"
  obtains "length (pn_links p) \<le> vo_max_links opts" "check_shape opts p = Inr ()"
    "verify_root C (pn_root p) issuer_key opts (needs_cnf opts (length (pn_links p)) 0) = Inr (vc_links c ! 0)"
    "length (vc_links c) = Suc (length (pn_links p))"
    "\<And>j. j < length (pn_links p) \<Longrightarrow>
       verify_sd_link C (pn_links p ! j) (vc_links c ! j) (pn_elements p ! j) (j + 1 = length (pn_links p)) opts
         (needs_cnf opts (length (pn_links p)) (j + 1)) (Link (j + 1)) = Inr (vc_links c ! Suc j)"
    "vc_serialized c = presentation_serialize p"
    "\<And>audience nonce kb. vo_key_binding opts = KbJwt audience nonce \<Longrightarrow> pn_key_binding p = Some kb \<Longrightarrow>
       \<exists>v. verify_kb_jwt C kb (vc_leaf c) (pn_last p) audience nonce opts = Inr v \<and> vc_key_binding c = Some v"
proof -
  let ?n = "length (pn_links p)"
  from assms obtain root_link links where
    root: "verify_root C (pn_root p) issuer_key opts (needs_cnf opts ?n 0) = Inr root_link"
    and links: "verify_sd_links C opts ?n 0 root_link (pn_root p) (pn_links p) = Inr links"
    and c: "vc_links c = root_link # links"
    by (auto simp: verify_chain_def Let_def split: if_splits)
  note nth = verify_sd_links_nth [OF links]
  have "\<exists>v. verify_kb_jwt C kb (vc_leaf c) (pn_last p) audience nonce opts = Inr v \<and> vc_key_binding c = Some v"
    if "vo_key_binding opts = KbJwt audience nonce" "pn_key_binding p = Some kb" for audience nonce kb
    using assms that c by (auto simp: verify_chain_def Let_def vc_leaf_def split: if_splits)
  with that root nth c assms show ?thesis
    by (auto simp: verify_chain_def Let_def pn_elements_def not_less split: if_splits)
qed

lemma parse_and_verify_InrE:
  assumes "parse_and_verify C input issuer_key opts = Inr c"
  obtains p where "presentation_parse C input = Inr p" "verify_chain C p issuer_key opts = Inr c"
  using assms by (auto simp: parse_and_verify_def)

section \<open>Authenticity\<close>

lemma verify_chain_authentic:
  assumes "verify_chain C p issuer_key opts = Inr c"
  shows "\<forall>j < length (pn_elements p). authentic C (pn_elements p ! j) (vc_links c ! j)"
proof (intro allI impI)
  let ?n = "length (pn_links p)"
  from assms have root: "verify_root C (pn_root p) issuer_key opts (needs_cnf opts ?n 0) = Inr (vc_links c ! 0)"
    and links: "\<And>j. j < ?n \<Longrightarrow>
       verify_sd_link C (pn_links p ! j) (vc_links c ! j) (pn_elements p ! j) (j + 1 = ?n) opts
         (needs_cnf opts ?n (j + 1)) (Link (j + 1)) = Inr (vc_links c ! Suc j)"
    by (auto elim: verify_chain_InrE)
  fix j assume j: "j < length (pn_elements p)"
  show "authentic C (pn_elements p ! j) (vc_links c ! j)"
  proof (cases j)
    case 0
    then show ?thesis using verify_root_InrD(3) [OF root] by (simp add: pn_elements_def)
  next
    case (Suc i)
    with j have "i < ?n" by (simp add: pn_elements_def)
    from verify_sd_link_InrD(4) [OF links [OF this]] Suc show ?thesis by (simp add: pn_elements_def)
  qed
qed

lemma verify_chain_names_key:
  assumes "verify_chain C p issuer_key opts = Inr c" "l \<in> set (vc_links c)" "vl_cnf l = Some key"
  shows "names_key C l key"
proof -
  let ?n = "length (pn_links p)"
  from assms(1) have root: "verify_root C (pn_root p) issuer_key opts (needs_cnf opts ?n 0) = Inr (vc_links c ! 0)"
    and len: "length (vc_links c) = Suc ?n"
    and links: "\<And>j. j < ?n \<Longrightarrow>
       verify_sd_link C (pn_links p ! j) (vc_links c ! j) (pn_elements p ! j) (j + 1 = ?n) opts
         (needs_cnf opts ?n (j + 1)) (Link (j + 1)) = Inr (vc_links c ! Suc j)"
    by (auto elim: verify_chain_InrE)
  from assms(2) len obtain j where j: "j < Suc ?n" "l = vc_links c ! j" by (auto simp: in_set_conv_nth)
  show ?thesis
  proof (cases j)
    case 0
    with root_names_key [OF root] j assms(3) show ?thesis by simp
  next
    case (Suc i)
    with j have "i < ?n" by simp
    from link_names_key [OF links [OF this]] j Suc assms(3) show ?thesis by simp
  qed
qed

text \<open>
  The link names its predecessor by one of the two hashes, under the predecessor's hash
  algorithm: of the element with its disclosures, or of its JWT alone.
\<close>

definition bound_by_hash :: "crypto \<Rightarrow> object \<Rightarrow> sd_jwt \<Rightarrow> sd_alg \<Rightarrow> bool" where
  "bound_by_hash C payload prev alg \<longleftrightarrow>
     (obj_get payload ''issuer_jwt_hash'' = None
        \<and> obj_get payload ''sd_hash'' = Some (JStr (sd_digest C alg (sj_serialize prev))))
     \<or> (obj_get payload ''sd_hash'' = None
        \<and> obj_get payload ''issuer_jwt_hash'' = Some (JStr (sd_digest C alg (sj_jwt prev))))"

lemma check_hash_binding_eq_Inr:
  "check_hash_binding C payload prev alg = Inr () \<longleftrightarrow> bound_by_hash C payload prev alg"
  by (auto simp: check_hash_binding_def bound_by_hash_def single_string_def obj_str_def
    split: option.splits json.splits)

text \<open>C3: An accepted chain has one verified element per received one and at most max_links
  links; the root verifies under the issuer key, each link under the key that the cnf of
  the claims processed before it names, and each link carries, in exactly one of sd_hash
  and issuer_jwt_hash, the hash of its predecessor as it was received, under the hash
  algorithm of the predecessor.\<close>
theorem chain_is_signed_and_bound:
  assumes "parse_and_verify C input issuer_key opts = Inr c"
  shows "\<exists>p. presentation_parse C input = Inr p \<and> vc_serialized c = input
    \<and> length (vc_links c) = length (pn_elements p) \<and> length (pn_links p) \<le> vo_max_links opts
    \<and> sd_jws_verify C (sj_jws (pn_root p)) issuer_key = Inr ()
    \<and> (\<forall>j < length (pn_elements p). authentic C (pn_elements p ! j) (vc_links c ! j))
    \<and> (\<forall>j < length (pn_links p).
        (\<exists>key. names_key C (vc_links c ! j) key \<and> sd_jws_verify C (sj_jws (pn_links p ! j)) key = Inr ())
        \<and> bound_by_hash C (jws_payload (sj_jws (pn_links p ! j))) (pn_elements p ! j)
            (vl_sd_alg (vc_links c ! j)))"
proof -
  obtain p where p: "presentation_parse C input = Inr p" and v: "verify_chain C p issuer_key opts = Inr c"
    using assms by (rule parse_and_verify_InrE)
  let ?n = "length (pn_links p)"
  from v have root: "verify_root C (pn_root p) issuer_key opts (needs_cnf opts ?n 0) = Inr (vc_links c ! 0)"
    and len: "length (vc_links c) = Suc ?n" "?n \<le> vo_max_links opts"
    and links: "\<And>j. j < ?n \<Longrightarrow>
       verify_sd_link C (pn_links p ! j) (vc_links c ! j) (pn_elements p ! j) (j + 1 = ?n) opts
         (needs_cnf opts ?n (j + 1)) (Link (j + 1)) = Inr (vc_links c ! Suc j)"
    and ser: "vc_serialized c = presentation_serialize p"
    by (auto elim: verify_chain_InrE)
  have key: "\<exists>key. names_key C (vc_links c ! j) key \<and> sd_jws_verify C (sj_jws (pn_links p ! j)) key = Inr ()"
    if j: "j < ?n" for j
    using verify_sd_link_InrD(2) [OF links [OF j]] verify_chain_names_key [OF v, of "vc_links c ! j"] j len
    by auto
  show ?thesis
    using p len ser verify_chain_authentic [OF v] key verify_root_InrD(2) [OF root] verify_sd_link_InrD(3) [OF links] serialize_parse [OF p]
    by (intro exI [of _ p]) (simp add: pn_elements_def flip: check_hash_binding_eq_Inr)
qed

lemma authentic_committed:
  "authentic C e l \<Longrightarrow> d \<in> set (sj_disclosures e) \<Longrightarrow>
   committed C (vl_sd_alg l) (jws_payload (sj_jws e)) (sj_disclosures e) (d_digest C (vl_sd_alg l) d)"
  unfolding authentic_def using process_committed by blast

section \<open>Validity and kinds\<close>

lemma check_validity_eq_Inr:
  "check_validity claims opts require_exp = Inr () \<longleftrightarrow>
     (\<exists>exp. numeric claims ''exp'' = Inr exp
        \<and> (case exp of None \<Rightarrow> \<not> require_exp
           | Some e \<Rightarrow> \<not> f64_of_int (vo_now opts) \<ge> e + f64_of_int (vo_leeway opts)))
     \<and> (\<exists>nbf. numeric claims ''nbf'' = Inr nbf
        \<and> (case nbf of None \<Rightarrow> True
           | Some b \<Rightarrow> \<not> f64_of_int (vo_now opts) + f64_of_int (vo_leeway opts) < b))"
  by (auto simp: check_validity_def Let_def split: option.splits if_splits)

lemma typ_constants:
  "typ_normalize KB_SD_JWT = ''kb+sd-jwt''" "typ_normalize KB_SD_JWT_KB = ''kb-sd-jwt+kb''"
  "typ_normalize KB_SD_JWT_KB_DRAFT_00 = ''kb+sd-jwt+kb''"
  by (simp_all add: typ_normalize_def to_ascii_lowercase_def ascii_lower_char_def
    KB_SD_JWT_def KB_SD_JWT_KB_def KB_SD_JWT_KB_DRAFT_00_def Let_def)

lemma typ_kinds_differ:
  "typ_normalize KB_SD_JWT \<noteq> typ_normalize KB_SD_JWT_KB"
  "typ_normalize KB_SD_JWT \<noteq> typ_normalize KB_SD_JWT_KB_DRAFT_00"
  by (simp_all add: typ_constants)

lemma link_kind_by_typ:
  assumes "verify_sd_link C e prev prev_e is_last opts needs pos = Inr l"
  shows "\<not> is_last \<Longrightarrow> vl_kind l = Delegation"
    and "is_last \<Longrightarrow> vo_key_binding opts = TerminalLink a n \<Longrightarrow> vl_kind l = Terminal"
    and "vo_key_binding opts = KbJwt a n \<Longrightarrow> vl_kind l = Delegation"
  using verify_sd_link_InrD(1,5) [OF assms] typ_kinds_differ
  by (auto simp: allowed_link_typ_def is_ok_iff split: key_binding.splits bool.splits)

lemma only_the_last_link_is_terminal:
  assumes "parse_and_verify C input issuer_key opts = Inr c"
  shows "vl_kind (vc_root c) = RootLink
    \<and> (\<forall>j. 0 < j \<and> j + 1 < length (vc_links c) \<longrightarrow>
         vl_kind (vc_links c ! j) = Delegation \<and> vl_cnf (vc_links c ! j) \<noteq> None)
    \<and> (vl_kind (vc_leaf c) = Terminal \<longrightarrow> vl_cnf (vc_leaf c) = None \<and> \<not> obj_contains (vl_claims (vc_leaf c)) ''cnf'')
    \<and> (\<forall>a n. vo_key_binding opts = TerminalLink a n \<longrightarrow> vl_kind (vc_leaf c) = Terminal)"
proof -
  obtain p where p: "presentation_parse C input = Inr p" and v: "verify_chain C p issuer_key opts = Inr c"
    using assms by (rule parse_and_verify_InrE)
  let ?n = "length (pn_links p)"
  from v have root: "verify_root C (pn_root p) issuer_key opts (needs_cnf opts ?n 0) = Inr (vc_links c ! 0)"
    and len: "length (vc_links c) = Suc ?n" and shape: "check_shape opts p = Inr ()"
    and links: "\<And>j. j < ?n \<Longrightarrow>
       verify_sd_link C (pn_links p ! j) (vc_links c ! j) (pn_elements p ! j) (j + 1 = ?n) opts
         (needs_cnf opts ?n (j + 1)) (Link (j + 1)) = Inr (vc_links c ! Suc j)"
    by (auto elim: verify_chain_InrE)
  have leaf: "vc_leaf c = vc_links c ! ?n"
    using len by (simp add: vc_leaf_def last_conv_nth [of "vc_links c"] flip: length_0_conv)
  have root_kind: "vl_kind (vc_root c) = RootLink"
    using verify_root_InrD(4) [OF root] by (simp add: vc_root_def)
  have middle: "vl_kind (vc_links c ! j) = Delegation \<and> vl_cnf (vc_links c ! j) \<noteq> None"
    if "0 < j \<and> j + 1 < length (vc_links c)" for j
  proof -
    from that len obtain i where i: "j = Suc i" "i < ?n" "i + 1 \<noteq> ?n" "Suc i < ?n" by (cases j) auto
    from link_kind_by_typ(1) [OF links [OF i(2)]] i have "vl_kind (vc_links c ! j) = Delegation" by simp
    moreover from verify_sd_link_InrD(2) [OF links [OF i(4)]] i have "vl_cnf (vc_links c ! j) \<noteq> None" by auto
    ultimately show ?thesis by simp
  qed
  have last_link: "vl_cnf (vc_leaf c) = None \<and> \<not> obj_contains (vl_claims (vc_leaf c)) ''cnf''"
    if "vl_kind (vc_leaf c) = Terminal"
  proof (cases ?n)
    case 0
    with that root_kind leaf show ?thesis by (simp add: vc_root_def)
  next
    case (Suc i)
    with verify_sd_link_InrD(6) [OF links, of i] that leaf show ?thesis
      by (auto simp: link_cnf_def split: if_splits)
  qed
  have terminal: "vl_kind (vc_leaf c) = Terminal" if "vo_key_binding opts = TerminalLink a n" for a n
  proof (cases ?n)
    case 0
    with shape that show ?thesis by (simp add: check_shape_def split: option.splits)
  next
    case (Suc i)
    with link_kind_by_typ(2) [OF links, of i] that leaf show ?thesis by simp
  qed
  show ?thesis using root_kind middle last_link terminal by blast
qed

lemma nothing_in_the_chain_is_expired:
  assumes "parse_and_verify C input issuer_key opts = Inr c" and "l \<in> set (vc_links c)"
  shows "(\<exists>exp. numeric (vl_claims l) ''exp'' = Inr exp
        \<and> (case exp of None \<Rightarrow> \<not> (vo_require_exp opts \<and> vl_kind l \<noteq> Terminal)
           | Some e \<Rightarrow> \<not> f64_of_int (vo_now opts) \<ge> e + f64_of_int (vo_leeway opts)))
    \<and> (\<exists>nbf. numeric (vl_claims l) ''nbf'' = Inr nbf
        \<and> (case nbf of None \<Rightarrow> True
           | Some b \<Rightarrow> \<not> f64_of_int (vo_now opts) + f64_of_int (vo_leeway opts) < b))"
proof -
  obtain p where v: "verify_chain C p issuer_key opts = Inr c"
    using assms(1) by (rule parse_and_verify_InrE)
  let ?n = "length (pn_links p)"
  from v have root: "verify_root C (pn_root p) issuer_key opts (needs_cnf opts ?n 0) = Inr (vc_links c ! 0)"
    and len: "length (vc_links c) = Suc ?n"
    and links: "\<And>j. j < ?n \<Longrightarrow>
       verify_sd_link C (pn_links p ! j) (vc_links c ! j) (pn_elements p ! j) (j + 1 = ?n) opts
         (needs_cnf opts ?n (j + 1)) (Link (j + 1)) = Inr (vc_links c ! Suc j)"
    by (auto elim: verify_chain_InrE)
  from assms(2) len obtain j where j: "j < Suc ?n" "l = vc_links c ! j" by (auto simp: in_set_conv_nth)
  have "check_validity (vl_claims l) opts (vo_require_exp opts \<and> vl_kind l \<noteq> Terminal) = Inr ()"
  proof (cases j)
    case 0
    with verify_root_InrD(4,5) [OF root] j show ?thesis by simp
  next
    case (Suc i)
    with j have i: "i < ?n" by simp
    from verify_sd_link_InrD(5,7) [OF links [OF i]] Suc j(2) show ?thesis by (simp split: if_splits)
  qed
  then show ?thesis by (simp add: check_validity_eq_Inr)
qed

lemma chain_disclosures_are_committed:
  assumes "verify_chain C p issuer_key opts = Inr c"
    and "j < length (pn_elements p)" and "d \<in> set (sj_disclosures (pn_elements p ! j))"
  shows "committed C (vl_sd_alg (vc_links c ! j)) (jws_payload (sj_jws (pn_elements p ! j)))
    (sj_disclosures (pn_elements p ! j)) (d_digest C (vl_sd_alg (vc_links c ! j)) d)"
proof -
  have "authentic C (pn_elements p ! j) (vc_links c ! j)"
    using verify_chain_authentic [OF assms(1)] assms(2) by blast
  from authentic_committed [OF this assms(3)] show ?thesis .
qed

section \<open>The transaction\<close>

definition bound_to :: "verify_options \<Rightarrow> string \<Rightarrow> string \<Rightarrow> object \<Rightarrow> bool" where
  "bound_to opts audience nonce payload \<longleftrightarrow>
     obj_str payload ''aud'' = Some audience \<and> obj_str payload ''nonce'' = Some nonce
     \<and> (\<exists>iat. numeric payload ''iat'' = Inr (Some iat)
          \<and> \<not> iat < f64_of_int (vo_now opts) - f64_of_int (vo_max_age opts)
          \<and> \<not> iat > f64_of_int (vo_now opts) + f64_of_int (vo_max_future opts))"

lemma check_transaction_eq_Inr:
  "check_transaction iat aud nonce audience expected opts = Inr () \<longleftrightarrow>
     aud = audience \<and> nonce = expected
     \<and> \<not> iat < f64_of_int (vo_now opts) - f64_of_int (vo_max_age opts)
     \<and> \<not> iat > f64_of_int (vo_now opts) + f64_of_int (vo_max_future opts)"
  by (auto simp: check_transaction_def Let_def)

lemma single_string_eq_Inr: "single_string ob name = Inr s \<longleftrightarrow> obj_str ob name = Some s"
  by (simp add: single_string_def)

lemma verify_kb_jwt_InrD:
  assumes "verify_kb_jwt C kb prev prev_e audience nonce opts = Inr v"
  shows "\<exists>key. vl_cnf prev = Some key \<and> sd_jws_verify C kb key = Inr ()"
    "obj_str (jws_payload kb) ''sd_hash'' = Some (sd_digest C (vl_sd_alg prev) (sj_serialize prev_e))"
    "bound_to opts audience nonce (jws_payload kb)" "vkb_claims v = jws_payload kb"
  using assms
  by (auto simp: verify_kb_jwt_def Let_def bound_to_def check_transaction_eq_Inr single_string_eq_Inr
    simp del: check_typ_eq_Inr split: if_splits)

text \<open>What the policy demands of the end of the presentation.\<close>

definition transaction_of :: "key_binding \<Rightarrow> (string \<times> string) option" where
  "transaction_of kb = (case kb of NotRequired \<Rightarrow> None | KbJwt a n \<Rightarrow> Some (a, n) | TerminalLink a n \<Rightarrow> Some (a, n))"

text \<open>The JWS that carries the final binding: the KB-JWT, or the last element.\<close>

definition final_jws :: "presentation \<Rightarrow> jws" where
  "final_jws p = (case pn_key_binding p of Some kb \<Rightarrow> kb | None \<Rightarrow> sj_jws (pn_last p))"

lemma final_binding:
  assumes v: "verify_chain C p issuer_key opts = Inr c"
    and "transaction_of (vo_key_binding opts) = Some (audience, nonce)"
  shows "bound_to opts audience nonce (jws_payload (final_jws p))
    \<and> (\<exists>prev key. prev \<in> set (vc_links c) \<and> names_key C prev key \<and> sd_jws_verify C (final_jws p) key = Inr ())"
proof -
  let ?n = "length (pn_links p)"
  from v have shape: "check_shape opts p = Inr ()"
    and len: "length (vc_links c) = Suc ?n"
    and links: "\<And>j. j < ?n \<Longrightarrow>
       verify_sd_link C (pn_links p ! j) (vc_links c ! j) (pn_elements p ! j) (j + 1 = ?n) opts
         (needs_cnf opts ?n (j + 1)) (Link (j + 1)) = Inr (vc_links c ! Suc j)"
    and kb: "\<And>audience nonce kb. vo_key_binding opts = KbJwt audience nonce \<Longrightarrow> pn_key_binding p = Some kb \<Longrightarrow>
       \<exists>v. verify_kb_jwt C kb (vc_leaf c) (pn_last p) audience nonce opts = Inr v \<and> vc_key_binding c = Some v"
    by (auto elim: verify_chain_InrE)
  show ?thesis
  proof (cases "vo_key_binding opts")
    case NotRequired
    with assms(2) show ?thesis by (simp add: transaction_of_def)
  next
    case (KbJwt a n)
    with shape obtain j where j: "pn_key_binding p = Some j"
      by (auto simp: check_shape_def split: option.splits)
    from kb [OF KbJwt j] obtain v where "verify_kb_jwt C j (vc_leaf c) (pn_last p) a n opts = Inr v" by blast
    note kbD = verify_kb_jwt_InrD [OF this]
    then obtain key where "vl_cnf (vc_leaf c) = Some key" "sd_jws_verify C j key = Inr ()" by blast
    moreover have leaf: "vc_leaf c \<in> set (vc_links c)" using len by (auto simp: vc_leaf_def intro!: last_in_set)
    moreover have "names_key C (vc_leaf c) key" if "vl_cnf (vc_leaf c) = Some key" for key
      using verify_chain_names_key [OF v leaf that] .
    ultimately show ?thesis
      using kbD(3) KbJwt j assms(2) by (auto simp: final_jws_def transaction_of_def)
  next
    case (TerminalLink a n)
    with shape have none: "pn_key_binding p = None" and "?n \<noteq> 0"
      by (auto simp: check_shape_def split: option.splits if_splits)
    then obtain i where i: "?n = Suc i" by (cases ?n) auto
    then have last: "pn_last p = pn_links p ! i"
      by (auto simp: pn_last_def last_conv_nth)
    from i have "i < ?n" by simp
    note linkD = verify_sd_link_InrD [OF links [OF this]]
    from linkD(8) i TerminalLink assms(2) have "bound_to opts audience nonce (jws_payload (sj_jws (pn_links p ! i)))"
      by (auto simp: check_link_iat_def check_transaction_eq_Inr bound_to_def single_string_eq_Inr transaction_of_def)
    moreover from linkD(2) obtain key where key: "vl_cnf (vc_links c ! i) = Some key"
      "sd_jws_verify C (sj_jws (pn_links p ! i)) key = Inr ()" by blast
    moreover have "vc_links c ! i \<in> set (vc_links c)" using len i by simp
    ultimately show ?thesis
      using none last verify_chain_names_key [OF v _ key(1)] by (auto simp: final_jws_def)
  qed
qed

lemma final_binding_is_fresh:
  assumes "parse_and_verify C input issuer_key opts = Inr c"
    and "transaction_of (vo_key_binding opts) = Some (audience, nonce)"
  shows "\<exists>p. presentation_parse C input = Inr p
    \<and> bound_to opts audience nonce (jws_payload (final_jws p))
    \<and> (\<exists>prev key. prev \<in> set (vc_links c) \<and> names_key C prev key \<and> sd_jws_verify C (final_jws p) key = Inr ())"
  using assms(1) by (rule parse_and_verify_InrE) (use final_binding [OF _ assms(2)] in blast)

lemma one_presentation_one_transaction:
  assumes "parse_and_verify C input key1 opts1 = Inr c1"
    and "parse_and_verify C input key2 opts2 = Inr c2"
    and "transaction_of (vo_key_binding opts1) = Some t1"
    and "transaction_of (vo_key_binding opts2) = Some t2"
  shows "t1 = t2"
proof -
  obtain a1 n1 a2 n2 where t: "t1 = (a1, n1)" "t2 = (a2, n2)" by (cases t1, cases t2) blast
  from assms(1,2) obtain p where "verify_chain C p key1 opts1 = Inr c1" "verify_chain C p key2 opts2 = Inr c2"
    by (auto elim!: parse_and_verify_InrE)
  from final_binding [OF this(1)] final_binding [OF this(2)] assms(3,4) t show ?thesis
    by (auto simp: bound_to_def)
qed

end
