(* ===== verification/SdIssue.thy ===== *)
theory SdIssue
  imports SdPresentation SdProcessFacts
begin

text \<open>
  The issuing and holding side of the SD-JWT crate: concealing parts of a payload
  (crates/sdjwt/src/conceal.rs), building root elements and delegation links (sdjwt.rs),
  and extending a presentation by a link or the final KB-JWT (presentation.rs). Random
  salts and positions come from a supply \<open>rng\<close>; the counter threaded through says how
  much of it is used. A panic that the code excludes (\<open>expect\<close>, \<open>unreachable!\<close>) is
  \<open>None\<close> inside, and \<open>the\<close> at the boundary.
\<close>

section \<open>Concealing\<close>

record rng =
  rng_salt :: "nat \<Rightarrow> string"
  rng_pick :: "nat \<Rightarrow> nat \<Rightarrow> nat"

record sd_payload =
  sp_claims :: object
  sp_concealed :: "string list"
  sp_decoys :: "(string \<times> nat) list"

datatype conceal_op = Conceal path | Decoys path nat

definition sd_payload_new :: "object \<Rightarrow> sd_payload" where
  "sd_payload_new claims = \<lparr>sp_claims = claims, sp_concealed = [], sp_decoys = []\<rparr>"

definition payload_conceal :: "sd_payload \<Rightarrow> string \<Rightarrow> sd_payload" where
  "payload_conceal p pointer = p\<lparr>sp_concealed := sp_concealed p @ [pointer]\<rparr>"

definition payload_decoys :: "sd_payload \<Rightarrow> string \<Rightarrow> nat \<Rightarrow> sd_payload" where
  "payload_decoys p pointer count = p\<lparr>sp_decoys := sp_decoys p @ [(pointer, count)]\<rparr>"

text \<open>The first reserved name found, in document order.\<close>

fun reject_reserved :: "json \<Rightarrow> error_kind + unit" where
  "reject_reserved (JObj ob) =
     (if obj_contains ob ''_sd'' then Inl (ReservedName ''_sd'')
      else if obj_contains ob ''...'' then Inl (ReservedName ''...'')
      else try_each id (map (\<lambda>e. reject_reserved (snd e)) ob))"
| "reject_reserved (JArr xs) = try_each id (map reject_reserved xs)"
| "reject_reserved v = Inr ()"

text \<open>\<open>lookup_mut\<close> and a change of the value found; \<open>None\<close> when the path does not exist.\<close>

fun modify_at :: "json \<Rightarrow> path \<Rightarrow> (json \<Rightarrow> (json \<times> 'b) option) \<Rightarrow> (json \<times> 'b) option" where
  "modify_at v [] f = f v"
| "modify_at v (Key k # p) f =
     (case v of
        JObj ob \<Rightarrow> Option.bind (obj_get ob k) (\<lambda>w.
          Option.bind (modify_at w p f) (\<lambda>(w', b). Some (JObj (obj_insert k w' ob), b)))
      | _ \<Rightarrow> None)"
| "modify_at v (Index i # p) f =
     (case v of
        JArr xs \<Rightarrow> if i < length xs then
          Option.bind (modify_at (xs ! i) p f) (\<lambda>(w', b). Some (JArr (xs[i := w']), b)) else None
      | _ \<Rightarrow> None)"

text \<open>Where \<open>binary_search_by\<close> inserts: for a sorted array, before the first larger entry.\<close>

fun insert_digest :: "string \<Rightarrow> json list \<Rightarrow> json list" where
  "insert_digest dg [] = [JStr dg]"
| "insert_digest dg (d # ds) =
     (if (case as_str d of Some s \<Rightarrow> s | None \<Rightarrow> []) < dg then d # insert_digest dg ds else JStr dg # d # ds)"

definition push_sd :: "object \<Rightarrow> string \<Rightarrow> object option" where
  "push_sd ob digest =
     (case obj_get ob ''_sd'' of
        None \<Rightarrow> Some (obj_insert ''_sd'' (JArr [JStr digest]) ob)
      | Some (JArr ds) \<Rightarrow> Some (obj_insert ''_sd'' (JArr (insert_digest digest ds)) ob)
      | Some _ \<Rightarrow> None)"

definition conceal_segment ::
  "crypto \<Rightarrow> sd_alg \<Rightarrow> string \<Rightarrow> segment \<Rightarrow> json \<Rightarrow> (json \<times> disclosure) option" where
  "conceal_segment C alg salt seg parent =
     (case (seg, parent) of
        (Key name, JObj ob) \<Rightarrow>
          Option.bind (obj_get ob name) (\<lambda>v.
          let d = disclosure_create C salt (Some name) v in
          Option.bind (push_sd (obj_remove name ob) (d_digest C alg d)) (\<lambda>ob'. Some (JObj ob', d)))
      | (Index i, JArr items) \<Rightarrow>
          (if i < length items then
             let d = disclosure_create C salt None (items ! i) in
             Some (JArr (items[i := JObj [(''...'', JStr (d_digest C alg d))]]), d)
           else None)
      | _ \<Rightarrow> None)"

definition conceal_at ::
  "crypto \<Rightarrow> sd_alg \<Rightarrow> string \<Rightarrow> json \<Rightarrow> path \<Rightarrow> (json \<times> disclosure) option" where
  "conceal_at C alg salt doc path =
     (if path = [] then None else modify_at doc (butlast path) (conceal_segment C alg salt (last path)))"

text \<open>\<open>Vec::insert\<close>.\<close>

definition insert_at :: "nat \<Rightarrow> 'a \<Rightarrow> 'a list \<Rightarrow> 'a list" where
  "insert_at i x xs = take i xs @ x # drop i xs"

fun add_decoys :: "crypto \<Rightarrow> sd_alg \<Rightarrow> rng \<Rightarrow> nat \<Rightarrow> nat \<Rightarrow> json \<Rightarrow> (json \<times> nat) option" where
  "add_decoys C alg R k 0 container = Some (container, k)"
| "add_decoys C alg R k (Suc count) container =
     (let decoy = sd_digest C alg (rng_salt R k) in
      case container of
        JObj ob \<Rightarrow> Option.bind (push_sd ob decoy) (\<lambda>ob'. add_decoys C alg R (k + 1) count (JObj ob'))
      | JArr items \<Rightarrow>
          add_decoys C alg R (k + 1) count
            (JArr (insert_at (rng_pick R k (length items)) (JObj [(''...'', JStr decoy)]) items))
      | _ \<Rightarrow> None)"

definition conceal_ops :: "json \<Rightarrow> string list \<Rightarrow> conceal_op list \<Rightarrow> error_kind + conceal_op list" where
  "conceal_ops doc pointers ops =
     try_fold (\<lambda>ops p. rbind (resolve doc p) (\<lambda>path.
       if Conceal path \<in> set ops then Inl (InvalidPointer p) else Inr (ops @ [Conceal path]))) ops pointers"

definition decoy_ops :: "json \<Rightarrow> (string \<times> nat) list \<Rightarrow> conceal_op list \<Rightarrow> error_kind + conceal_op list" where
  "decoy_ops doc decoys ops =
     try_fold (\<lambda>ops (p, count).
       rbind (if p = [] then Inr [] else resolve doc p) (\<lambda>path.
       case lookup_path doc path of
         Some (JObj _) \<Rightarrow> Inr (ops @ [Decoys path count])
       | Some (JArr _) \<Rightarrow> Inr (ops @ [Decoys path count])
       | _ \<Rightarrow> Inl (InvalidPointer p))) ops decoys"

text \<open>Deepest first; at equal depth decoys before concealment.\<close>

definition op_key :: "conceal_op \<Rightarrow> int \<times> nat" where
  "op_key op = (case op of Conceal path \<Rightarrow> (- int (length path), 1) | Decoys path _ \<Rightarrow> (- int (length path), 0))"

fun apply_ops ::
  "crypto \<Rightarrow> sd_alg \<Rightarrow> rng \<Rightarrow> nat \<Rightarrow> conceal_op list \<Rightarrow> json \<Rightarrow> (json \<times> disclosure list \<times> nat) option" where
  "apply_ops C alg R k [] doc = Some (doc, [], k)"
| "apply_ops C alg R k (Conceal path # ops) doc =
     Option.bind (conceal_at C alg (rng_salt R k) doc path) (\<lambda>(doc', d).
     Option.bind (apply_ops C alg R (k + 1) ops doc') (\<lambda>(doc'', ds, k'). Some (doc'', d # ds, k')))"
| "apply_ops C alg R k (Decoys path count # ops) doc =
     Option.bind (modify_at doc path (add_decoys C alg R k count)) (\<lambda>(doc', k'). apply_ops C alg R k' ops doc')"

definition payload_build ::
  "crypto \<Rightarrow> sd_alg \<Rightarrow> rng \<Rightarrow> nat \<Rightarrow> sd_payload \<Rightarrow> error_kind + object \<times> disclosure list \<times> nat" where
  "payload_build C alg R k p =
     rbind (reject_reserved (JObj (sp_claims p))) (\<lambda>_.
     if obj_contains (sp_claims p) ''_sd_alg'' then Inl (ReservedName ''_sd_alg'')
     else
       let doc = JObj (sp_claims p) in
       rbind (conceal_ops doc (sp_concealed p) []) (\<lambda>ops.
       rbind (decoy_ops doc (sp_decoys p) ops) (\<lambda>ops'.
       let (doc', ds, k') = the (apply_ops C alg R k (sort_key op_key ops') doc) in
       Inr (the (as_object doc'), ds, k'))))"

section \<open>Builders\<close>

record sd_jwt_builder =
  sb_typ :: string
  sb_payload :: sd_payload
  sb_header :: object
  sb_sd_alg :: sd_alg
  sb_delegate_form :: bool

definition sd_jwt_builder_new :: "string \<Rightarrow> object \<Rightarrow> sd_jwt_builder" where
  "sd_jwt_builder_new typ claims = \<lparr>sb_typ = typ, sb_payload = sd_payload_new claims, sb_header = [],
     sb_sd_alg = Sha256, sb_delegate_form = False\<rparr>"

definition delegate_form :: "string \<Rightarrow> sd_payload \<Rightarrow> sd_jwt_builder" where
  "delegate_form typ payload = \<lparr>sb_typ = typ, sb_payload = payload, sb_header = [],
     sb_sd_alg = Sha256, sb_delegate_form = True\<rparr>"

definition builder_conceal :: "sd_jwt_builder \<Rightarrow> string \<Rightarrow> sd_jwt_builder" where
  "builder_conceal b pointer = b\<lparr>sb_payload := payload_conceal (sb_payload b) pointer\<rparr>"

definition builder_decoys :: "sd_jwt_builder \<Rightarrow> string \<Rightarrow> nat \<Rightarrow> sd_jwt_builder" where
  "builder_decoys b pointer count = b\<lparr>sb_payload := payload_decoys (sb_payload b) pointer count\<rparr>"

definition builder_header :: "sd_jwt_builder \<Rightarrow> string \<Rightarrow> json \<Rightarrow> sd_jwt_builder" where
  "builder_header b name v = b\<lparr>sb_header := obj_insert name v (sb_header b)\<rparr>"

definition builder_sd_alg :: "sd_jwt_builder \<Rightarrow> sd_alg \<Rightarrow> sd_jwt_builder" where
  "builder_sd_alg b alg = b\<lparr>sb_sd_alg := alg\<rparr>"

definition sd_jwt_builder_sign ::
  "crypto \<Rightarrow> rng \<Rightarrow> nat \<Rightarrow> sd_jwt_builder \<Rightarrow> signer \<Rightarrow> sd_error + sd_jwt \<times> nat" where
  "sd_jwt_builder_sign C R k b sg =
     map_err error_from
       (rbind (payload_build C (sb_sd_alg b) R k (sb_payload b)) (\<lambda>(payload, disclosures, k').
        let (payload', disclosures', k'') =
              (if sb_delegate_form b then
                 let wrapper = disclosure_create C (rng_salt R k') None (JObj payload) in
                 ([(''delegate_payload'',
                    JArr [JObj [(''...'', JStr (d_digest C (sb_sd_alg b) wrapper))]])],
                  wrapper # disclosures, k' + 1)
               else (payload, disclosures, k'));
            signed_payload = obj_insert ''_sd_alg'' (JStr (sd_alg_name (sb_sd_alg b))) payload'
        in
        rbind (sd_jws_sign C (sb_typ b) (sb_header b) signed_payload sg) (\<lambda>jwt.
        rbind (jws_parse C jwt) (\<lambda>j.
        Inr (\<lparr>sj_jws = j, sj_disclosures = disclosures'\<rparr>, k'')))))"

datatype hash_binding = SdHash | IssuerJwtHash

record binding_claims =
  bc_audience :: string
  bc_nonce :: string
  bc_issued_at :: i64

record link_builder =
  lb_payloads :: "sd_payload list"
  lb_binding :: hash_binding
  lb_header :: object
  lb_sd_alg :: sd_alg

definition link_builder_new :: "sd_payload \<Rightarrow> link_builder" where
  "link_builder_new payload = \<lparr>lb_payloads = [payload], lb_binding = SdHash, lb_header = [],
     lb_sd_alg = Sha256\<rparr>"

definition add_payload :: "link_builder \<Rightarrow> sd_payload \<Rightarrow> link_builder" where
  "add_payload b payload = b\<lparr>lb_payloads := lb_payloads b @ [payload]\<rparr>"

definition link_with_binding :: "link_builder \<Rightarrow> hash_binding \<Rightarrow> link_builder" where
  "link_with_binding b binding = b\<lparr>lb_binding := binding\<rparr>"

definition link_with_header :: "link_builder \<Rightarrow> string \<Rightarrow> json \<Rightarrow> link_builder" where
  "link_with_header b name v = b\<lparr>lb_header := obj_insert name v (lb_header b)\<rparr>"

definition link_with_sd_alg :: "link_builder \<Rightarrow> sd_alg \<Rightarrow> link_builder" where
  "link_with_sd_alg b alg = b\<lparr>lb_sd_alg := alg\<rparr>"

definition link_typ :: "link_builder \<Rightarrow> error_kind + string" where
  "link_typ b =
     (let with_cnf = length (filter (\<lambda>p. obj_contains (sp_claims p) ''cnf'') (lb_payloads b)) in
      if with_cnf = 0 then Inr ''kb+sd-jwt''
      else if with_cnf = length (lb_payloads b) then Inr ''kb-sd-jwt+kb''
      else Inl (Issuance ''all Delegate Payloads of a link must agree on carrying cnf''))"

text \<open>Every delegate payload is built and wrapped in an element disclosure of its own.\<close>

fun link_payloads ::
  "crypto \<Rightarrow> sd_alg \<Rightarrow> rng \<Rightarrow> nat \<Rightarrow> sd_payload list \<Rightarrow> error_kind + string list \<times> disclosure list \<times> nat" where
  "link_payloads C alg R k [] = Inr ([], [], k)"
| "link_payloads C alg R k (p # ps) =
     rbind (payload_build C alg R k p) (\<lambda>(ob, inner, k').
     let wrapper = disclosure_create C (rng_salt R k') None (JObj ob) in
     rbind (link_payloads C alg R (k' + 1) ps) (\<lambda>(digests, ds, k'').
     Inr (d_digest C alg wrapper # digests, wrapper # inner @ ds, k'')))"

definition binding_payload :: "binding_claims \<Rightarrow> object" where
  "binding_payload claims =
     obj_insert ''nonce'' (JStr (bc_nonce claims))
       (obj_insert ''aud'' (JStr (bc_audience claims))
         (obj_insert ''iat'' (json_of_i64 (bc_issued_at claims)) []))"

definition link_sign ::
  "crypto \<Rightarrow> rng \<Rightarrow> nat \<Rightarrow> link_builder \<Rightarrow> sd_jwt \<Rightarrow> binding_claims \<Rightarrow> signer \<Rightarrow> error_kind + sd_jwt \<times> nat" where
  "link_sign C R k b previous claims sg =
     rbind (link_typ b) (\<lambda>typ.
     rbind (link_payloads C (lb_sd_alg b) R k (lb_payloads b)) (\<lambda>(digests, disclosures, k').
     rbind (sj_sd_alg previous) (\<lambda>prev_alg.
     let (binding_name, binding_value) =
           (case lb_binding b of
              SdHash \<Rightarrow> (''sd_hash'', sd_digest C prev_alg (sj_serialize previous))
            | IssuerJwtHash \<Rightarrow> (''issuer_jwt_hash'', sd_digest C prev_alg (sj_jwt previous)));
         payload = obj_insert ''delegate_payload''
             (JArr (map (\<lambda>d. JObj [(''...'', JStr d)]) (sort digests)))
           (obj_insert ''_sd_alg'' (JStr (sd_alg_name (lb_sd_alg b)))
             (obj_insert binding_name (JStr binding_value) (binding_payload claims)))
     in
     rbind (sd_jws_sign C typ (lb_header b) payload sg) (\<lambda>jwt.
     rbind (jws_parse C jwt) (\<lambda>j.
     Inr (\<lparr>sj_jws = j, sj_disclosures = disclosures\<rparr>, k'))))))"

section \<open>Extending a presentation\<close>

definition presentation_delegate ::
  "crypto \<Rightarrow> rng \<Rightarrow> nat \<Rightarrow> presentation \<Rightarrow> link_builder \<Rightarrow> binding_claims \<Rightarrow> signer
   \<Rightarrow> sd_error + presentation \<times> nat" where
  "presentation_delegate C R k p link claims sg =
     (if pn_key_binding p \<noteq> None then Inl (error_from (Issuance ''presentation is already key-bound''))
      else
        rbind (map_err error_from (link_sign C R k link (pn_last p) claims sg)) (\<lambda>(e, k').
        Inr (p\<lparr>pn_links := pn_links p @ [e]\<rparr>, k')))"

definition presentation_bind ::
  "crypto \<Rightarrow> presentation \<Rightarrow> binding_claims \<Rightarrow> signer \<Rightarrow> sd_error + presentation" where
  "presentation_bind C p claims sg =
     (if pn_key_binding p \<noteq> None then Inl (error_from (Issuance ''presentation is already key-bound''))
      else
        map_err error_from
          (rbind (sj_sd_alg (pn_last p)) (\<lambda>alg.
           let sd_hash = sd_digest C alg (sj_serialize (pn_last p));
               payload = obj_insert ''sd_hash'' (JStr sd_hash) (binding_payload claims)
           in
           rbind (sd_jws_sign C ''kb+jwt'' [] payload sg) (\<lambda>jwt.
           rbind (jws_parse C jwt) (\<lambda>j. Inr (p\<lparr>pn_key_binding := Some j\<rparr>))))))"

end
