(* ===== verification/SdFlow.thy ===== *)
theory SdFlow
  imports SdChain SdIssue
begin

text \<open>
  Issuing and verifying agree: what the builder issues without concealed parts, bound by
  its holder to a transaction, is accepted by a verifier with matching policy, with
  exactly the issued claims.
\<close>

section \<open>Processing a payload without digests\<close>

lemma key_in_fst: "(k, v) \<in> set ob \<Longrightarrow> k \<in> fst ` set ob"
  by force

lemma reject_reserved_clean: "reject_reserved v = Inr () \<Longrightarrow> json_clean v"
  by (induction v rule: reject_reserved.induct)
    (auto simp: obj_contains_iff obj_keys_def split: if_splits dest: key_in_fst)

lemma obj_insert_last: "\<forall>x \<in> set (map fst out). x < k \<Longrightarrow> obj_insert k v out = out @ [(k, v)]"
  by (induction out) auto

lemma walk_fields_id:
  assumes "\<And>k v p w. (k, v) \<in> set es \<Longrightarrow> rec v p w = Inr (v, w)" and "obj_wf (out @ es)"
  shows "walk_fields rec es p out w = Inr (out @ es, w)"
  using assms
proof (induction es arbitrary: out)
  case (Cons e es)
  obtain k v where e: "e = (k, v)" by force
  from Cons.prems(2) have "\<forall>x \<in> set (map fst out). x < k"
    by (auto simp: obj_wf_def sorted_wrt_append e)
  note insert = obj_insert_last [OF this]
  have "walk_fields rec es p (out @ [(k, v)]) w = Inr ((out @ [(k, v)]) @ es, w)"
    using Cons.prems e by (intro Cons.IH) auto
  moreover have "rec v (p @ [Key k]) w = Inr (v, w)" using Cons.prems(1) [of k v] e by simp
  ultimately show ?case by (simp add: e insert)
qed simp

lemma clean_no_markers:
  "json_clean (JObj ob) \<Longrightarrow> \<not> obj_contains ob ''...''"
  "json_clean (JObj ob) \<Longrightarrow> obj_get ob ''_sd'' = None"
  "json_clean (JObj ob) \<Longrightarrow> filter (\<lambda>(k, _). k \<noteq> ''_sd'') ob = ob"
  by (auto simp: obj_contains_iff obj_keys_def obj_get_def map_of_eq_None_iff intro!: filter_True)

lemma walk_object_id:
  assumes "\<And>k v p w. (k, v) \<in> set ob \<Longrightarrow> rec v p w = Inr (v, w)" and "json_clean (JObj ob)" "obj_wf ob"
  shows "walk_object E rec ob p w = Inr (ob, w)"
proof -
  have "walk_fields rec ob p [] w = Inr ([] @ ob, w)"
    using assms(1,3) by (intro walk_fields_id) simp_all
  then show ?thesis
    using clean_no_markers [OF assms(2)] by (simp add: walk_object_def)
qed

lemma element_digest_clean: "json_clean v \<Longrightarrow> element_digest v = Inr None"
  using clean_no_markers(1)
  by (cases v) (auto simp: element_digest_def as_object_def obj_contains_def)

lemma walk_array_id:
  assumes "\<And>x p w. x \<in> set xs \<Longrightarrow> rec x p w = Inr (x, w)" and "\<forall>x \<in> set xs. json_clean x"
  shows "walk_array E rec xs p out w = Inr (out @ xs, w)"
  using assms by (induction xs arbitrary: out) (simp_all add: element_digest_clean)

lemma walk_id: "size v < fuel \<Longrightarrow> clean v \<Longrightarrow> walk fuel E v p w = Inr (v, w)"
proof (induction fuel arbitrary: v p w)
  case (Suc fuel)
  show ?case
  proof (cases v)
    case (JObj ob)
    have "walk fuel E x p w = Inr (x, w)" if "(k, x) \<in> set ob" for k x p w
      using size_member [OF that] that Suc.prems JObj by (intro Suc.IH) auto
    from walk_object_id [OF this] Suc.prems JObj show ?thesis by simp
  next
    case (JArr xs)
    have "walk fuel E x p w = Inr (x, w)" if "x \<in> set xs" for x p w
      using size_element [OF that] that Suc.prems JArr by (intro Suc.IH) auto
    from walk_array_id [OF this] Suc.prems JArr show ?thesis by simp
  qed simp_all
qed simp

lemma process_plain:
  assumes "clean (JObj payload)"
  shows "process C payload [] alg = Inr \<lparr>pr_claims = obj_remove ''_sd_alg'' payload, pr_paths = []\<rparr>"
proof -
  let ?E = "\<lparr>we_disclosures = [], we_by_digest = Map.empty\<rparr>"
  have "walk (walk_fuel_for payload []) ?E x p w = Inr (x, w)" if "(k, x) \<in> set payload" for k x p w
    using size_member [OF that] that assms by (intro walk_id) (auto simp: walk_fuel_for_def)
  from walk_object_id [OF this] assms show ?thesis
    by (simp add: process_def)
qed

section \<open>An honestly issued and bound credential\<close>

lemma obj_remove_insert: "\<not> obj_contains ob k \<Longrightarrow> obj_remove k (obj_insert k v ob) = ob"
proof (induction ob)
  case (Cons e ob)
  obtain k' v' where e: "e = (k', v')" by force
  with Cons.prems have ne: "k' \<noteq> k" and "\<not> obj_contains ob k"
    by (auto simp: obj_contains_def split: if_splits)
  moreover have "obj_remove k ob = ob"
    using \<open>\<not> obj_contains ob k\<close>
    by (auto simp: obj_remove_def obj_contains_iff obj_keys_def intro!: filter_True dest: key_in_fst)
  ultimately show ?case
    using Cons.IH by (auto simp: e obj_remove_def)
qed (simp add: obj_remove_def)

lemma sd_alg_of_built: "sd_alg_of_payload (obj_insert ''_sd_alg'' (JStr (sd_alg_name alg)) ob) = Inr alg"
  by (cases alg) (simp_all add: sd_alg_of_payload_def sd_alg_from_name_def)

lemma payload_build_plain:
  assumes "reject_reserved (JObj claims) = Inr ()" "\<not> obj_contains claims ''_sd_alg''"
  shows "payload_build C alg R k (sd_payload_new claims) = Inr (claims, [], k)"
  using assms by (simp add: payload_build_def sd_payload_new_def conceal_ops_def decoy_ops_def)

lemma binding_payload_fits: "i64_ok (bc_issued_at claims) \<Longrightarrow> json_fits 127 (JObj (binding_payload claims))"
  unfolding binding_payload_def by (intro json_fits_insert) (simp_all add: json_of_i64_fits i64_ok_def i64_min_def)

text \<open>The issued element.\<close>

lemma issue_plain:
  assumes C: "b64_ok C" "json_ok C" "signatures_ok C"
    and claims: "json_fits 127 (JObj claims)" "reject_reserved (JObj claims) = Inr ()"
      "\<not> obj_contains claims ''_sd_alg''"
  obtains j where
    "sd_jwt_builder_sign C R k (sd_jwt_builder_new typ claims) (key_signer C rng1 issuer)
       = Inr (\<lparr>sj_jws = j, sj_disclosures = []\<rparr>, k)"
    "jws_parse C (jws_raw j) = Inr j" "CHR ''~'' \<notin> set (jws_raw j)"
    "sd_jws_verify C j (sd_verifying_key_of C issuer) = Inr ()"
    "jws_typ j = Some typ" "jws_payload j = obj_insert ''_sd_alg'' (JStr (sd_alg_name Sha256)) claims"
proof -
  let ?payload = "obj_insert ''_sd_alg'' (JStr (sd_alg_name Sha256)) claims"
  let ?j = "\<lambda>raw. \<lparr>jws_raw = raw, jws_header = signed_header typ [] (sd_signing_algorithm issuer),
       jws_payload = ?payload\<rparr>"
  have wf: "json_fits 127 (JObj [])" "json_fits 127 (JObj ?payload)"
    by (simp, rule json_fits_insert [OF claims(1)], simp)
  obtain raw where raw: "sd_jws_sign C typ [] ?payload (key_signer C rng1 issuer) = Inr raw"
    "jws_parse C raw = Inr (?j raw)" "sd_jws_verify C (?j raw) (sd_verifying_key_of C issuer) = Inr ()"
    "CHR ''~'' \<notin> set raw"
    by (rule sd_jws_sign_ok [OF C wf, of "typ" rng1 issuer]) simp_all
  have "jws_typ (?j raw) = Some typ" by (simp add: jws_typ_def signed_header_def obj_str_def)
  with raw that [of "?j raw"] payload_build_plain [OF claims(2,3)] show ?thesis
    by (simp add: sd_jwt_builder_sign_def sd_jwt_builder_new_def)
qed

lemma bind_plain:
  assumes C: "b64_ok C" "json_ok C" "signatures_ok C"
    and "sj_sd_alg e = Inr alg" "i64_ok (bc_issued_at claims)"
  obtains kb where
    "presentation_bind C (presentation_new e) claims (key_signer C rng2 holder)
       = Inr \<lparr>pn_root = e, pn_links = [], pn_key_binding = Some kb\<rparr>"
    "jws_parse C (jws_raw kb) = Inr kb" "CHR ''~'' \<notin> set (jws_raw kb)"
    "sd_jws_verify C kb (sd_verifying_key_of C holder) = Inr ()"
    "jws_typ kb = Some ''kb+jwt''"
    "jws_payload kb = obj_insert ''sd_hash'' (JStr (sd_digest C alg (sj_serialize e))) (binding_payload claims)"
proof -
  let ?payload = "obj_insert ''sd_hash'' (JStr (sd_digest C alg (sj_serialize e))) (binding_payload claims)"
  let ?j = "\<lambda>raw. \<lparr>jws_raw = raw, jws_header = signed_header ''kb+jwt'' [] (sd_signing_algorithm holder),
       jws_payload = ?payload\<rparr>"
  have wf: "json_fits 127 (JObj [])" "json_fits 127 (JObj ?payload)"
    by (simp, rule json_fits_insert [OF binding_payload_fits [OF assms(5)]], simp)
  obtain raw where raw: "sd_jws_sign C ''kb+jwt'' [] ?payload (key_signer C rng2 holder) = Inr raw"
    "jws_parse C raw = Inr (?j raw)" "sd_jws_verify C (?j raw) (sd_verifying_key_of C holder) = Inr ()"
    "CHR ''~'' \<notin> set raw"
    by (rule sd_jws_sign_ok [OF C wf, of "''kb+jwt''" rng2 holder]) simp_all
  have "jws_typ (?j raw) = Some ''kb+jwt''" by (simp add: jws_typ_def signed_header_def obj_str_def)
  with raw that [of "?j raw"] assms(4) show ?thesis
    by (simp add: presentation_bind_def presentation_new_def pn_last_def)
qed

lemma binding_payload_claims:
  "obj_str (obj_insert ''sd_hash'' (JStr h) (binding_payload claims)) ''sd_hash'' = Some h"
  "obj_str (binding_payload claims) ''aud'' = Some (bc_audience claims)"
  "obj_str (binding_payload claims) ''nonce'' = Some (bc_nonce claims)"
  "numeric (obj_insert ''sd_hash'' v (binding_payload claims)) ''exp'' = Inr None"
  "numeric (obj_insert ''sd_hash'' v (binding_payload claims)) ''nbf'' = Inr None"
  by (simp_all add: binding_payload_def numeric_def obj_str_def)

lemma binding_payload_iat:
  "f64_exact (bc_issued_at claims) \<Longrightarrow>
   numeric (obj_insert ''sd_hash'' v (binding_payload claims)) ''iat'' = Inr (Some (Fin (of_int (bc_issued_at claims))))"
  using as_f64_of_i64 [of "bc_issued_at claims"]
  by (simp add: numeric_def binding_payload_def json_of_i64_def as_f64_def)

text \<open>The issued element verifies as a root.\<close>

lemma issued_root_verified:
  assumes "b64_ok C" "public_keys_ok C"
    and claims: "json_fits 127 (JObj claims)" "reject_reserved (JObj claims) = Inr ()"
      "\<not> obj_contains claims ''_sd_alg''" "obj_get claims ''cnf'' = Some (to_cnf C (sd_verifying_key_of C holder))"
    and policy: "vo_root_form opts = Credential" "a \<in> set (vo_root_typ opts)" "typ_normalize a = typ_normalize typ"
      "check_validity claims opts (vo_require_exp opts) = Inr ()"
    and j: "sd_jws_verify C j (sd_verifying_key_of C issuer) = Inr ()" "jws_typ j = Some typ"
      "jws_payload j = obj_insert ''_sd_alg'' (JStr (sd_alg_name Sha256)) claims"
  shows "verify_root C \<lparr>sj_jws = j, sj_disclosures = []\<rparr> (sd_verifying_key_of C issuer) opts True =
      Inr \<lparr>vl_position = Root, vl_kind = RootLink, vl_header = jws_header j, vl_claims = claims,
        vl_envelope = [], vl_cnf = Some (sd_verifying_key_of C holder), vl_sd_alg = Sha256,
        vl_sd_jwt = sj_serialize \<lparr>sj_jws = j, sj_disclosures = []\<rparr>\<rparr>"
proof -
  have "clean (JObj (jws_payload j))"
    unfolding j(3) using reject_reserved_clean [OF claims(2)] json_fits_wf [OF claims(1)]
    by (intro clean_insert) simp_all
  note processed = process_plain [OF this, unfolded j(3) obj_remove_insert [OF claims(3)]]
  have cnf: "read_cnf C claims True = Inr (Some (sd_verifying_key_of C holder))"
    using sd_jwk_round_trip [OF assms(1,2)] claims(4) by (simp add: read_cnf_def)
  have "check_typ C j (vo_root_typ opts) = Inr ()" using j(2) policy(2,3) by auto
  then show ?thesis
    using j(1) policy(1,4) cnf processed sd_alg_of_built [of Sha256]
    by (simp add: verify_root_def j(3))
qed

lemma honest_credential:
  assumes "b64_ok C" "json_ok C" "signatures_ok C" "public_keys_ok C"
    and claims: "json_fits 127 (JObj claims)" "reject_reserved (JObj claims) = Inr ()"
      "\<not> obj_contains claims ''_sd_alg''" "obj_get claims ''cnf'' = Some (to_cnf C (sd_verifying_key_of C holder))"
    and policy: "vo_root_form opts = Credential" "vo_key_binding opts = KbJwt (bc_audience bc) (bc_nonce bc)"
      "a \<in> set (vo_root_typ opts)" "typ_normalize a = typ_normalize typ"
      "check_validity claims opts (vo_require_exp opts) = Inr ()"
    and iat: "vo_now opts - vo_max_age opts \<le> bc_issued_at bc" "bc_issued_at bc \<le> vo_now opts + vo_max_future opts"
      "f64_exact (bc_issued_at bc)" "f64_exact (vo_now opts)" "f64_exact (vo_max_age opts)"
      "f64_exact (vo_max_future opts)" "f64_exact (vo_now opts - vo_max_age opts)"
      "f64_exact (vo_now opts + vo_max_future opts)"
  shows "\<exists>e p c. sd_jwt_builder_sign C R k (sd_jwt_builder_new typ claims) (key_signer C rng1 issuer) = Inr (e, k)
    \<and> presentation_bind C (presentation_new e) bc (key_signer C rng2 holder) = Inr p
    \<and> parse_and_verify C (presentation_serialize p) (sd_verifying_key_of C issuer) opts = Inr c
    \<and> vl_claims (vc_leaf c) = claims \<and> vl_cnf (vc_leaf c) = Some (sd_verifying_key_of C holder)"
proof -
  note C = assms(1-3)
  obtain j where e: "sd_jwt_builder_sign C R k (sd_jwt_builder_new typ claims) (key_signer C rng1 issuer)
       = Inr (\<lparr>sj_jws = j, sj_disclosures = []\<rparr>, k)"
    and j: "jws_parse C (jws_raw j) = Inr j" "CHR ''~'' \<notin> set (jws_raw j)"
      "sd_jws_verify C j (sd_verifying_key_of C issuer) = Inr ()"
      "jws_typ j = Some typ" "jws_payload j = obj_insert ''_sd_alg'' (JStr (sd_alg_name Sha256)) claims"
    by (rule issue_plain [OF C claims(1-3)])
  let ?e = "\<lparr>sj_jws = j, sj_disclosures = []\<rparr>"
  have alg: "sj_sd_alg ?e = Inr Sha256" using sd_alg_of_built [of Sha256] by (simp add: sj_sd_alg_def j(5))
  obtain kb where p: "presentation_bind C (presentation_new ?e) bc (key_signer C rng2 holder)
       = Inr \<lparr>pn_root = ?e, pn_links = [], pn_key_binding = Some kb\<rparr>"
    and kb: "jws_parse C (jws_raw kb) = Inr kb" "CHR ''~'' \<notin> set (jws_raw kb)"
      "sd_jws_verify C kb (sd_verifying_key_of C holder) = Inr ()" "jws_typ kb = Some ''kb+jwt''"
      "jws_payload kb = obj_insert ''sd_hash'' (JStr (sd_digest C Sha256 (sj_serialize ?e))) (binding_payload bc)"
    by (rule bind_plain [OF C alg f64_exact_i64_ok [OF iat(3)]])
  let ?p = "\<lparr>pn_root = ?e, pn_links = [], pn_key_binding = Some kb\<rparr>"
  have "presentation_wf C ?p"
    using j kb by (simp add: presentation_wf_def pn_elements_def element_wf_def kb_wf_def)
  note parsed = presentation_parse_serialize [OF this]
  let ?root = "\<lparr>vl_position = Root, vl_kind = RootLink, vl_header = jws_header j, vl_claims = claims,
      vl_envelope = [], vl_cnf = Some (sd_verifying_key_of C holder), vl_sd_alg = Sha256, vl_sd_jwt = sj_serialize ?e\<rparr>"
  note root = issued_root_verified [OF assms(1,4) claims policy(1,3-5) j(3-5)]
  have kb_typ: "check_typ C kb [KB_JWT] = Inr ()" using kb(4) by (simp add: KB_JWT_def)
  have bounds: "f64_of_int (vo_now opts) - f64_of_int (vo_max_age opts) = Fin (of_int (vo_now opts - vo_max_age opts))"
    "f64_of_int (vo_now opts) + f64_of_int (vo_max_future opts) = Fin (of_int (vo_now opts + vo_max_future opts))"
    by (simp_all only: f64_of_int_exact [OF iat(4)] f64_of_int_exact [OF iat(5)] f64_of_int_exact [OF iat(6)]
      f64_minus_exact [OF iat(7)] f64_plus_exact [OF iat(8)])
  have "check_transaction (Fin (of_int (bc_issued_at bc))) (bc_audience bc) (bc_nonce bc)
      (bc_audience bc) (bc_nonce bc) opts = Inr ()"
    unfolding check_transaction_def Let_def bounds
    using iat(1,2) by (simp del: of_int_diff of_int_add)
  then have "verify_kb_jwt C kb ?root ?e (bc_audience bc) (bc_nonce bc) opts =
      Inr \<lparr>vkb_header = jws_header kb, vkb_claims = jws_payload kb\<rparr>"
    using kb_typ kb(3) binding_payload_iat [OF iat(3)]
    by (simp add: verify_kb_jwt_def Let_def kb(5) single_string_def binding_payload_claims check_validity_def
      del: check_typ_eq_Inr)
  with root policy(2) have "verify_chain C ?p (sd_verifying_key_of C issuer) opts =
      Inr \<lparr>vc_links = [?root], vc_key_binding = Some \<lparr>vkb_header = jws_header kb, vkb_claims = jws_payload kb\<rparr>,
        vc_serialized = presentation_serialize ?p\<rparr>"
    by (simp add: verify_chain_def check_shape_def needs_cnf_def pn_last_def)
  with parsed e p show ?thesis
    by (auto simp: parse_and_verify_def vc_leaf_def)
qed

lemma honest_key_bound_credential_accepted:
  assumes "b64_ok C" "json_ok C" "signatures_ok C" "public_keys_ok C"
    and claims: "json_fits 127 (JObj claims)" "reject_reserved (JObj claims) = Inr ()"
      "\<not> obj_contains claims ''_sd_alg''" "obj_get claims ''cnf'' = Some (to_cnf C (sd_verifying_key_of C holder))"
    and policy: "vo_root_form opts = Credential" "vo_key_binding opts = KbJwt (bc_audience bc) (bc_nonce bc)"
      "a \<in> set (vo_root_typ opts)" "typ_normalize a = typ_normalize typ"
      "check_validity claims opts (vo_require_exp opts) = Inr ()"
    and iat: "vo_now opts - vo_max_age opts \<le> bc_issued_at bc" "bc_issued_at bc \<le> vo_now opts + vo_max_future opts"
      "f64_exact (bc_issued_at bc)" "f64_exact (vo_now opts)" "f64_exact (vo_max_age opts)"
      "f64_exact (vo_max_future opts)" "f64_exact (vo_now opts - vo_max_age opts)"
      "f64_exact (vo_now opts + vo_max_future opts)"
  shows "\<exists>e p c. sd_jwt_builder_sign C R k (sd_jwt_builder_new typ claims) (key_signer C rng1 issuer) = Inr (e, k)
    \<and> presentation_bind C (presentation_new e) bc (key_signer C rng2 holder) = Inr p
    \<and> parse_and_verify C (presentation_serialize p) (sd_verifying_key_of C issuer) opts = Inr c
    \<and> vl_claims (vc_leaf c) = claims \<and> vl_cnf (vc_leaf c) = Some (sd_verifying_key_of C holder)"
  using assms by (rule honest_credential)

section \<open>A concrete credential\<close>

definition toy_holder :: sd_signing_key where "toy_holder = SkEd25519 ''holder''"
definition toy_issuer :: sd_signing_key where "toy_issuer = SkP256 ''issuer''"

definition toy_claims :: object where
  "toy_claims = [(''cnf'', to_cnf toy_crypto (sd_verifying_key_of toy_crypto toy_holder)), (''exp'', json_of_i64 1000)]"

definition toy_binding :: binding_claims where
  "toy_binding = \<lparr>bc_audience = ''shop'', bc_nonce = ''n1'', bc_issued_at = 100\<rparr>"

definition toy_options :: verify_options where
  "toy_options = verify_options_new 110 ''dc+sd-jwt'' (KbJwt ''shop'' ''n1'')"

definition toy_rng :: rng where "toy_rng = \<lparr>rng_salt = (\<lambda>k. []), rng_pick = (\<lambda>k n. 0)\<rparr>"

lemma jwk_members_clean:
  "json_fits 1 (JObj [(''crv'', JStr a), (''kty'', JStr b), (''x'', JStr c)])"
  "json_fits 1 (JObj [(''crv'', JStr a), (''kty'', JStr b), (''x'', JStr c), (''y'', JStr d)])"
  "reject_reserved (JObj [(''crv'', JStr a), (''kty'', JStr b), (''x'', JStr c)]) = Inr ()"
  "reject_reserved (JObj [(''crv'', JStr a), (''kty'', JStr b), (''x'', JStr c), (''y'', JStr d)]) = Inr ()"
  by (simp_all add: obj_wf_def less_char_def obj_contains_def)

lemma to_jwk_clean: "json_fits 1 (to_jwk C k)" "reject_reserved (to_jwk C k) = Inr ()"
  unfolding to_jwk_def
  by (cases k; simp only: jwk_members_clean sd_verifying_key.case)+

lemma to_cnf_clean: "json_fits 2 (to_cnf C k)" "reject_reserved (to_cnf C k) = Inr ()"
  using to_jwk_clean [of C k] by (simp_all add: to_cnf_def obj_wf_def obj_contains_def)

lemma toy_claims_ok:
  "json_fits 127 (JObj toy_claims)" "reject_reserved (JObj toy_claims) = Inr ()"
  "\<not> obj_contains toy_claims ''_sd_alg''"
  "obj_get toy_claims ''cnf'' = Some (to_cnf toy_crypto (sd_verifying_key_of toy_crypto toy_holder))"
  using to_cnf_clean [of toy_crypto "sd_verifying_key_of toy_crypto toy_holder"]
    json_fits_mono [OF to_cnf_clean(1), of 126 toy_crypto "sd_verifying_key_of toy_crypto toy_holder"]
  by (simp_all add: toy_claims_def obj_wf_def obj_contains_def json_of_i64_def less_char_def)

lemma f64_1000: "f64_round 1000 = Fin 1000"
  using f64_round_of_int [of 1000] by (simp add: f64_exact_def)

lemma toy_options_ok:
  "vo_root_form toy_options = Credential"
  "vo_key_binding toy_options = KbJwt (bc_audience toy_binding) (bc_nonce toy_binding)"
  "''dc+sd-jwt'' \<in> set (vo_root_typ toy_options)"
  "check_validity toy_claims toy_options (vo_require_exp toy_options) = Inr ()"
  "vo_now toy_options = 110" "vo_max_age toy_options = 300" "vo_max_future toy_options = 30"
  "bc_issued_at toy_binding = 100"
  by (simp_all add: toy_options_def verify_options_new_def toy_binding_def check_validity_def numeric_def
    toy_claims_def json_of_i64_def number_as_f64_def f64_exact_def f64_1000)

lemma toy_accepted:
  obtains input c where
    "parse_and_verify toy_crypto input (sd_verifying_key_of toy_crypto toy_issuer) toy_options = Inr c"
    "vl_claims (vc_leaf c) = toy_claims"
proof -
  have "\<exists>e p c. sd_jwt_builder_sign toy_crypto toy_rng 0 (sd_jwt_builder_new ''dc+sd-jwt'' toy_claims)
        (key_signer toy_crypto ''r'' toy_issuer) = Inr (e, 0)
    \<and> presentation_bind toy_crypto (presentation_new e) toy_binding (key_signer toy_crypto ''r'' toy_holder) = Inr p
    \<and> parse_and_verify toy_crypto (presentation_serialize p) (sd_verifying_key_of toy_crypto toy_issuer) toy_options = Inr c
    \<and> vl_claims (vc_leaf c) = toy_claims \<and> vl_cnf (vc_leaf c) = Some (sd_verifying_key_of toy_crypto toy_holder)"
    by (rule honest_credential [OF toy_crypto_ok toy_claims_ok toy_options_ok(1-3) refl toy_options_ok(4)])
      (simp_all add: toy_options_ok f64_exact_def)
  with that show ?thesis by blast
qed

end
