(* ===== verification/AuthOutcome.thy ===== *)
theory AuthOutcome
  imports AuthAuthorize SdFlow
begin

text \<open>
  The receipt of every outcome (crates/authority/src/receipt.rs and \<open>Verifier::verify\<close>).
\<close>

section \<open>Receipts\<close>

lemma receipt_claims_fits:
  assumes "i64_ok (mr_iat r)"
  shows "json_fits 127 (JObj (receipt_claims render r))"
proof -
  let ?base = "obj_insert ''reference'' (JStr (mr_reference r)) (obj_insert ''result'' (JStr (receipt_result r))
      (obj_insert ''iat'' (json_of_i64 (mr_iat r)) (obj_insert ''iss'' (JStr (mr_iss r)) [])))"
  have leaves: "json_fits 127 (JObj [])" "json_fits (127 - 1) (JStr x)" "json_fits (127 - 1) (json_of_i64 (mr_iat r))"
      "json_fits (127 - 1) (JArr (map JStr xs))"
    for x xs using assms by (auto simp: obj_wf_def json_of_i64_fits i64_ok_def i64_min_def)
  have "json_fits 127 (JObj ?base)" by (intro json_fits_insert leaves)
  then show ?thesis
    unfolding receipt_claims_def Let_def
    by (cases "mr_error r") (auto intro!: json_fits_insert leaves simp del: json_fits.simps obj_insert.simps)
qed

lemma receipt_claims_get:
  "obj_str (receipt_claims render r) ''iss'' = Some (mr_iss r)"
  "obj_str (receipt_claims render r) ''result'' = Some (receipt_result r)"
  "obj_str (receipt_claims render r) ''reference'' = Some (mr_reference r)"
  "obj_get (receipt_claims render r) ''iat'' = Some (json_of_i64 (mr_iat r))"
  "obj_get (receipt_claims render r) ''aap_chain'' = Some (JArr (map JStr (mr_aap_chain r)))"
  "obj_str (receipt_claims render r) ''error'' = map_option (error_code_as_str \<circ> fst) (mr_error r)"
  "obj_str (receipt_claims render r) ''error_description'' = map_option (render \<circ> snd) (mr_error r)"
  by (auto simp: receipt_claims_def obj_str_def Let_def split: option.splits)

lemma receipt_signed:
  assumes "b64_ok C" "json_ok C" "signatures_ok C" "i64_ok (mr_iat r)"
  obtains jwt v where "receipt_sign C render r (key_signer C rng k) = Inr jwt"
    "verify_jwt C jwt (sd_verifying_key_of C k) [RECEIPT_TYP] = Inr v"
    "vj_claims v = receipt_claims render r"
proof -
  have "json_fits 127 (JObj [])" by (simp add: obj_wf_def)
  from signed_jwt_ok [OF assms(1-3) this receipt_claims_fits [OF assms(4), of render], of RECEIPT_TYP "[RECEIPT_TYP]" RECEIPT_TYP] that
  show ?thesis by (force simp: receipt_sign_def)
qed

text \<open>What the receipt of an outcome must say, and what the outcome is.\<close>

definition receipt_for ::
  "crypto \<Rightarrow> 's verifier_v1 \<Rightarrow> string \<Rightarrow> i64 \<Rightarrow> decision \<Rightarrow> bool" where
  "receipt_for C V input now d \<longleftrightarrow>
     mr_iss (de_receipt d) = ve_issuer V \<and> mr_iat (de_receipt d) = now
   \<and> mr_error (de_receipt d) =
       (case de_outcome d of Inl r \<Rightarrow> Some (reason_code r, reason_text r) | Inr _ \<Rightarrow> None)
   \<and> (case presentation_parse C input of
        Inl e \<Rightarrow> de_outcome d = Inl (R_Credential (error_from e))
          \<and> mr_reference (de_receipt d) = sd_digest C Sha256 input \<and> mr_aap_chain (de_receipt d) = []
      | Inr pn \<Rightarrow> mr_aap_chain (de_receipt d) = map (element_hash C) (pn_elements pn)
          \<and> mr_reference (de_receipt d) = last (mr_aap_chain (de_receipt d)))"

lemma pn_elements_not_Nil [simp]: "pn_elements pn \<noteq> []"
  by (simp add: pn_elements_def)

lemma verify_v1_receipt:
  assumes "b64_ok C" "json_ok C" "signatures_ok C" and "ve_receipt_signer V = key_signer C rng k" and "i64_ok now"
  shows "\<exists>d s'. verify_v1 C K render V input issuer_key tx now s = (Inr d, s') \<and> receipt_for C V input now d
    \<and> (presentation_parse C input = Inr pn \<longrightarrow>
         check_presentation C K V pn issuer_key tx now s = (de_outcome d, s'))
    \<and> (\<exists>v. verify_jwt C (de_receipt_jwt d) (sd_verifying_key_of C k) [RECEIPT_TYP] = Inr v
         \<and> vj_claims v = receipt_claims render (de_receipt d)
         \<and> obj_str (vj_claims v) ''result'' = Some (if isl (de_outcome d) then ''error'' else ''success'')
         \<and> obj_str (vj_claims v) ''reference'' = Some (mr_reference (de_receipt d))
         \<and> obj_str (vj_claims v) ''error'' =
             (case de_outcome d of Inl r \<Rightarrow> Some (error_code_as_str (reason_code r)) | Inr _ \<Rightarrow> None))"
proof -
  let ?checked = "case presentation_parse C input of
      Inl e \<Rightarrow> (Inl (R_Credential (error_from e)), sd_digest C Sha256 input, [], s)
    | Inr pn \<Rightarrow> (case check_presentation C K V pn issuer_key tx now s of
        (outcome, s') \<Rightarrow> (outcome, element_hash C (pn_last pn), map (element_hash C) (pn_elements pn), s'))"
  obtain outcome reference chain s' where checked: "?checked = (outcome, reference, chain, s')"
    by (cases ?checked)
  let ?r = "\<lparr>mr_iss = ve_issuer V, mr_iat = now, mr_reference = reference,
      mr_error = outcome_error outcome, mr_aap_chain = chain\<rparr>"
  have iat: "i64_ok (mr_iat ?r)" using assms(5) by simp
  obtain jwt v where jwt: "receipt_sign C render ?r (key_signer C rng k) = Inr jwt"
    and v: "verify_jwt C jwt (sd_verifying_key_of C k) [RECEIPT_TYP] = Inr v"
      "vj_claims v = receipt_claims render ?r"
    by (rule receipt_signed [OF assms(1-3) iat])
  let ?d = "\<lparr>de_outcome = outcome, de_receipt = ?r, de_receipt_jwt = jwt\<rparr>"
  have "verify_v1 C K render V input issuer_key tx now s = (Inr ?d, s')"
    using checked jwt by (simp add: verify_v1_def assms(4))
  moreover have "receipt_for C V input now ?d"
    using checked
    by (auto simp: receipt_for_def outcome_error_def pn_last_def last_map pn_elements_def split: sum.splits prod.splits)
  moreover have "check_presentation C K V pn issuer_key tx now s = (outcome, s')"
    if "presentation_parse C input = Inr pn"
    using checked that by (auto split: prod.splits)
  ultimately show ?thesis
    using v by (auto simp: receipt_claims_get receipt_result_def outcome_error_def split: sum.splits)
qed

lemma every_outcome_has_a_receipt:
  assumes "b64_ok C" "json_ok C" "signatures_ok C" and "ve_receipt_signer V = key_signer C rng k" and "i64_ok now"
  shows "\<exists>d s'. verify_v1 C K render V input issuer_key tx now s = (Inr d, s') \<and> receipt_for C V input now d
    \<and> (presentation_parse C input = Inr pn \<longrightarrow>
         check_presentation C K V pn issuer_key tx now s = (de_outcome d, s'))
    \<and> (\<exists>v. verify_jwt C (de_receipt_jwt d) (sd_verifying_key_of C k) [RECEIPT_TYP] = Inr v
         \<and> vj_claims v = receipt_claims render (de_receipt d)
         \<and> obj_str (vj_claims v) ''result'' = Some (if isl (de_outcome d) then ''error'' else ''success'')
         \<and> obj_str (vj_claims v) ''reference'' = Some (mr_reference (de_receipt d))
         \<and> obj_str (vj_claims v) ''error'' =
             (case de_outcome d of Inl r \<Rightarrow> Some (error_code_as_str (reason_code r)) | Inr _ \<Rightarrow> None))"
  using assms by (rule verify_v1_receipt)

end
