(* ===== verification/SdLink.thy ===== *)
theory SdLink
  imports SdFlow
begin

text \<open>
  Delegate chains, issued and verified: a credential of the builder, extended by any number
  of links that LinkBuilder signs with the key the element before names, the last of them
  terminal and bound to the verifier's transaction, is accepted with exactly the issued
  claims (crates/sdjwt/src/sdjwt.rs and presentation.rs against verify.rs).
\<close>

section \<open>Processing the payload of a link\<close>

definition link_payload :: "string \<Rightarrow> string \<Rightarrow> binding_claims \<Rightarrow> object" where
  "link_payload dg h bc =
     [(''_sd_alg'', JStr ''sha-256''), (''aud'', JStr (bc_audience bc)),
      (''delegate_payload'', JArr [JObj [(''...'', JStr dg)]]), (''iat'', json_of_i64 (bc_issued_at bc)),
      (''nonce'', JStr (bc_nonce bc)), (''sd_hash'', JStr h)]"

text \<open>What remains of it beside the delegated claims.\<close>

definition link_envelope :: "string \<Rightarrow> binding_claims \<Rightarrow> object" where
  "link_envelope h bc =
     [(''aud'', JStr (bc_audience bc)), (''iat'', json_of_i64 (bc_issued_at bc)),
      (''nonce'', JStr (bc_nonce bc)), (''sd_hash'', JStr h)]"

definition link_claims :: "object \<Rightarrow> string \<Rightarrow> binding_claims \<Rightarrow> object" where
  "link_claims claims h bc =
     [(''aud'', JStr (bc_audience bc)), (''delegate_payload'', JArr [JObj claims]),
      (''iat'', json_of_i64 (bc_issued_at bc)), (''nonce'', JStr (bc_nonce bc)), (''sd_hash'', JStr h)]"

lemma walk_leaf:
  "walk (Suc fuel) E (JStr s) p w = Inr (JStr s, w)"
  "walk (Suc fuel) E (json_of_i64 n) p w = Inr (json_of_i64 n, w)"
  by (simp_all add: json_of_i64_def)

lemma walk_wrapped:
  assumes "size (JObj claims) < fuel" "clean (JObj claims)" "d_name d = None" "d_value d = JObj claims"
  shows "walk (Suc fuel) \<lparr>we_disclosures = [d], we_by_digest = [dg \<mapsto> 0]\<rparr> (JArr [JObj [(''...'', JStr dg)]]) p
      \<lparr>wk_seen = {}, wk_paths = [None]\<rparr>
    = Inr (JArr [JObj claims], \<lparr>wk_seen = {dg}, wk_paths = [Some (p @ [Index 0])]\<rparr>)"
  using walk_id [OF assms(1,2)] assms(3,4)
  by (simp add: element_digest_def as_object_def walk_lookup_def place_def)

lemma process_link:
  assumes "clean (JObj claims)" "d_name d = None" "d_value d = JObj claims"
  shows "process C (link_payload (d_digest C Sha256 d) h bc) [d] Sha256 =
    Inr \<lparr>pr_claims = link_claims claims h bc, pr_paths = [[Key ''delegate_payload'', Index 0]]\<rparr>"
proof -
  let ?dg = "d_digest C Sha256 d" and ?E = "\<lparr>we_disclosures = [d], we_by_digest = [d_digest C Sha256 d \<mapsto> 0]\<rparr>"
  let ?payload = "link_payload ?dg h bc"
  obtain fuel where fuel: "walk_fuel_for ?payload [d] = Suc fuel" "size (JObj claims) < fuel"
    using assms(3) by (simp add: walk_fuel_for_def)
  have "walk_object ?E (walk (Suc fuel) ?E) ?payload [] \<lparr>wk_seen = {}, wk_paths = [None]\<rparr>
      = Inr ((''_sd_alg'', JStr ''sha-256'') # link_claims claims h bc,
          \<lparr>wk_seen = {?dg}, wk_paths = [Some [Key ''delegate_payload'', Index 0]]\<rparr>)"
    using walk_wrapped [OF fuel(2) assms, of ?dg]
    by (simp add: walk_object_def link_payload_def link_claims_def walk_leaf obj_contains_def less_char_def
        del: walk.simps)
  then show ?thesis
    using fuel(1) by (simp add: process_def link_claims_def obj_remove_def)
qed

section \<open>Signing a link\<close>

definition link_typ_of :: "object \<Rightarrow> string" where
  "link_typ_of claims = (if obj_contains claims ''cnf'' then KB_SD_JWT_KB else KB_SD_JWT)"

lemma created_disclosure:
  assumes "b64_ok C" "json_text_ok C" "json_fits 126 v" and "d = disclosure_create C salt None v"
  shows "d_name d = None" "d_value d = v" "disclosure_parse C (d_encoded d) = Inr d" "d_encoded d \<noteq> []"
    "CHR ''~'' \<notin> set (d_encoded d)" "CHR ''.'' \<notin> set (d_encoded d)"
proof -
  have "json_fits 127 (JArr [JStr salt, v])" using assms(3) by simp
  with assms(2) have read: "json_read C (json_text C (JArr [JStr salt, v])) = Inr (JArr [JStr salt, v])"
    "json_text C (JArr [JStr salt, v]) \<noteq> []" by (auto simp: json_text_ok_def simp del: json_fits.simps)
  moreover have "disclosure_shape [JStr salt, v] = Some (salt, None, v)"
    by (cases v) (simp_all add: disclosure_shape_def)
  ultimately show "d_name d = None" "d_value d = v" "disclosure_parse C (d_encoded d) = Inr d" "d_encoded d \<noteq> []"
    "CHR ''~'' \<notin> set (d_encoded d)" "CHR ''.'' \<notin> set (d_encoded d)"
    using b64_okD [OF assms(1)]
    by (simp_all add: assms(4) disclosure_create_def disclosure_parse_def)
qed

lemma link_payload_fits: "i64_ok (bc_issued_at bc) \<Longrightarrow> json_fits 127 (JObj (link_payload dg h bc))"
  by (simp add: link_payload_def obj_wf_def json_of_i64_fits i64_ok_def i64_min_def less_char_def)

lemma honest_link:
  assumes C: "b64_ok C" "json_ok C" "signatures_ok C" "json_text_ok C"
    and claims: "json_fits 126 (JObj claims)" "reject_reserved (JObj claims) = Inr ()" "\<not> obj_contains claims ''_sd_alg''"
    and prev: "sj_sd_alg pe = Inr Sha256" "i64_ok (bc_issued_at bc)"
  obtains e d where
    "link_sign C R k (link_builder_new (sd_payload_new claims)) pe bc (key_signer C rng key) = Inr (e, k + 1)"
    "element_wf C e" "sj_sd_alg e = Inr Sha256" "sj_disclosures e = [d]" "d_name d = None" "d_value d = JObj claims"
    "jws_payload (sj_jws e) = link_payload (d_digest C Sha256 d) (sd_digest C Sha256 (sj_serialize pe)) bc"
    "jws_typ (sj_jws e) = Some (link_typ_of claims)"
    "sd_jws_verify C (sj_jws e) (sd_verifying_key_of C key) = Inr ()"
proof -
  let ?d = "disclosure_create C (rng_salt R k) None (JObj claims)"
  let ?payload = "link_payload (d_digest C Sha256 ?d) (sd_digest C Sha256 (sj_serialize pe)) bc"
  let ?j = "\<lambda>raw. \<lparr>jws_raw = raw, jws_header = signed_header (link_typ_of claims) [] (sd_signing_algorithm key),
       jws_payload = ?payload\<rparr>"
  note d = created_disclosure [OF C(1,4) claims(1) refl, of "rng_salt R k"]
  have wf: "json_fits 127 (JObj [])" "json_fits 127 (JObj ?payload)"
    using link_payload_fits [OF prev(2)] by (simp_all add: obj_wf_def)
  obtain raw where raw: "sd_jws_sign C (link_typ_of claims) [] ?payload (key_signer C rng key) = Inr raw"
    "jws_parse C raw = Inr (?j raw)" "sd_jws_verify C (?j raw) (sd_verifying_key_of C key) = Inr ()"
    "CHR ''~'' \<notin> set raw"
    by (rule sd_jws_sign_ok [OF C(1-3) wf, of "link_typ_of claims" rng key]) simp_all
  let ?e = "\<lparr>sj_jws = ?j raw, sj_disclosures = [?d]\<rparr>"
  have payload: "obj_insert ''delegate_payload'' (JArr [JObj [(''...'', JStr (d_digest C Sha256 ?d))]])
      (obj_insert ''_sd_alg'' (JStr ''sha-256'')
        (obj_insert ''sd_hash'' (JStr (sd_digest C Sha256 (sj_serialize pe))) (binding_payload bc))) = ?payload"
    by (simp add: link_payload_def binding_payload_def less_char_def)
  have "link_typ (link_builder_new (sd_payload_new claims)) = Inr (link_typ_of claims)"
    by (simp add: link_typ_def link_builder_new_def sd_payload_new_def link_typ_of_def KB_SD_JWT_def KB_SD_JWT_KB_def Let_def)
  then have "link_sign C R k (link_builder_new (sd_payload_new claims)) pe bc (key_signer C rng key) = Inr (?e, k + 1)"
    using payload raw prev(1) payload_build_plain [OF claims(2,3)]
    by (simp add: link_sign_def link_builder_new_def Let_def)
  moreover have "element_wf C ?e" using raw d by (simp add: element_wf_def)
  moreover have "sj_sd_alg ?e = Inr Sha256"
    by (simp add: sj_sd_alg_def sd_alg_of_payload_def link_payload_def sd_alg_from_name_def)
  moreover have "jws_typ (?j raw) = Some (link_typ_of claims)"
    by (simp add: jws_typ_def signed_header_def obj_str_def)
  ultimately show ?thesis using raw d that [of ?e ?d] by simp
qed

section \<open>Verifying a link\<close>

text \<open>A verifier's clock and tolerances that are exact as \<open>f64\<close>, as all real ones are.\<close>

definition clock_exact :: "verify_options \<Rightarrow> bool" where
  "clock_exact opts \<longleftrightarrow> f64_exact (vo_now opts) \<and> f64_exact (vo_max_age opts) \<and> f64_exact (vo_max_future opts)
     \<and> f64_exact (vo_now opts - vo_max_age opts) \<and> f64_exact (vo_now opts + vo_max_future opts)"

definition on_time :: "verify_options \<Rightarrow> bool \<Rightarrow> binding_claims \<Rightarrow> bool" where
  "on_time opts is_last bc \<longleftrightarrow> f64_exact (bc_issued_at bc) \<and> bc_issued_at bc \<le> vo_now opts + vo_max_future opts
     \<and> (is_last \<longrightarrow> vo_now opts - vo_max_age opts \<le> bc_issued_at bc
          \<and> vo_key_binding opts = TerminalLink (bc_audience bc) (bc_nonce bc))"

lemma on_time_i64: "on_time opts is_last bc \<Longrightarrow> i64_ok (bc_issued_at bc)"
  by (simp add: on_time_def f64_exact_i64_ok)

lemma check_link_iat_on_time:
  assumes "clock_exact opts" "on_time opts is_last bc" "vo_key_binding opts = TerminalLink a n"
  shows "check_link_iat (Fin (of_int (bc_issued_at bc))) (bc_audience bc) (bc_nonce bc) is_last opts = Inr ()"
proof -
  note exact = assms(1) [unfolded clock_exact_def]
  have bounds: "f64_of_int (vo_now opts) - f64_of_int (vo_max_age opts) = Fin (of_int (vo_now opts - vo_max_age opts))"
    "f64_of_int (vo_now opts) + f64_of_int (vo_max_future opts) = Fin (of_int (vo_now opts + vo_max_future opts))"
    using exact by (simp_all only: f64_of_int_exact f64_minus_exact f64_plus_exact)
  have "i64_ok (vo_now opts + vo_max_future opts)"
    using exact by (auto simp: f64_exact_def i64_ok_def i64_min_def i64_max_def)
  then have wrapped: "f64_of_int (i64_wrap (vo_now opts + vo_max_future opts)) = Fin (of_int (vo_now opts + vo_max_future opts))"
    using exact by simp
  show ?thesis
  proof (cases is_last)
    case True
    then show ?thesis
      using assms(2) unfolding check_link_iat_def check_transaction_def Let_def bounds on_time_def
      by (simp del: of_int_diff of_int_add)
  next
    case False
    then show ?thesis
      using assms(2,3) unfolding check_link_iat_def wrapped on_time_def by (simp del: of_int_diff of_int_add)
  qed
qed

lemma link_payload_claims:
  "numeric (link_payload dg h bc) ''iat'' = numeric [(''iat'', json_of_i64 (bc_issued_at bc))] ''iat''"
  "obj_str (link_payload dg h bc) ''aud'' = Some (bc_audience bc)"
  "obj_str (link_payload dg h bc) ''nonce'' = Some (bc_nonce bc)"
  "obj_str (link_payload dg h bc) ''sd_hash'' = Some h"
  "obj_get (link_payload dg h bc) ''sd_hash'' = Some (JStr h)"
  "obj_get (link_payload dg h bc) ''issuer_jwt_hash'' = None"
  "sd_alg_of_payload (link_payload dg h bc) = Inr Sha256"
  "check_raw_delegate_payload (link_payload dg h bc) = Inr ()"
  by (simp_all add: link_payload_def obj_str_def numeric_def sd_alg_of_payload_def sd_alg_from_name_def
    check_raw_delegate_payload_def)

lemma numeric_iat:
  "f64_exact n \<Longrightarrow> numeric [(''iat'', json_of_i64 n)] ''iat'' = Inr (Some (Fin (of_int n)))"
  using as_f64_of_i64 [of n] by (simp add: numeric_def json_of_i64_def as_f64_def)

lemma take_link_claims:
  "\<not> obj_contains claims ''_sd_alg'' \<Longrightarrow>
   take_delegate_payload (link_claims claims h bc) = Inr (claims, link_envelope h bc)"
  by (simp add: take_delegate_payload_def link_claims_def link_envelope_def obj_remove_def)

lemma link_typ_facts:
  assumes "jws_typ j = Some (link_typ_of claims)"
  shows "obj_contains claims ''cnf'' \<Longrightarrow> check_typ C j (allowed_link_typ (TerminalLink a n) False) = Inr ()"
    and "\<not> obj_contains claims ''cnf'' \<Longrightarrow> check_typ C j (allowed_link_typ (TerminalLink a n) True) = Inr ()"
    and "is_ok (check_typ C j [KB_SD_JWT]) \<longleftrightarrow> \<not> obj_contains claims ''cnf''"
  using assms typ_kinds_differ
  by (auto simp: link_typ_of_def allowed_link_typ_def is_ok_iff simp del: check_typ_eq_Inr
    simp flip: not_None_eq split: if_splits) (auto simp: check_typ_eq_Inr)

lemma honest_link_verified:
  assumes keys: "b64_ok C" "public_keys_ok C"
    and claims: "clean (JObj claims)" "\<not> obj_contains claims ''_sd_alg''"
    and e: "sj_disclosures e = [d]" "d_name d = None" "d_value d = JObj claims"
      "jws_payload (sj_jws e) = link_payload (d_digest C Sha256 d) (sd_digest C Sha256 (sj_serialize pe)) bc"
      "jws_typ (sj_jws e) = Some (link_typ_of claims)"
      "sd_jws_verify C (sj_jws e) (sd_verifying_key_of C key) = Inr ()"
    and prev: "vl_cnf pl = Some (sd_verifying_key_of C key)" "vl_sd_alg pl = Sha256"
    and policy: "clock_exact opts" "on_time opts is_last bc" "vo_key_binding opts = TerminalLink a n"
      "check_validity claims opts (vo_require_exp opts \<and> \<not> is_last) = Inr ()"
    and cnf: "obj_get claims ''cnf'' = (if is_last then None else Some (to_cnf C (sd_verifying_key_of C holder)))"
  shows "verify_sd_link C e pl pe is_last opts (\<not> is_last) pos =
    Inr \<lparr>vl_position = pos, vl_kind = (if is_last then Terminal else Delegation), vl_header = jws_header (sj_jws e),
      vl_claims = claims, vl_envelope = link_envelope (sd_digest C Sha256 (sj_serialize pe)) bc,
      vl_cnf = (if is_last then None else Some (sd_verifying_key_of C holder)), vl_sd_alg = Sha256,
      vl_sd_jwt = sj_serialize e\<rparr>"
proof -
  let ?h = "sd_digest C Sha256 (sj_serialize pe)" and ?kind = "if is_last then Terminal else Delegation"
  have contains: "obj_contains claims ''cnf'' \<longleftrightarrow> \<not> is_last" using cnf by (simp add: obj_contains_def)
  have exact: "f64_exact (bc_issued_at bc)" using policy(2) by (simp add: on_time_def)
  have typ1: "check_typ C (sj_jws e) (allowed_link_typ (vo_key_binding opts) is_last) = Inr ()"
    using link_typ_facts(1,2) [OF e(5)] contains policy(3) by (cases is_last) simp_all
  have typ2: "(if is_ok (check_typ C (sj_jws e) [KB_SD_JWT]) then Terminal else Delegation) = ?kind"
    using link_typ_facts(3) [OF e(5)] contains by simp
  have bound: "check_hash_binding C (jws_payload (sj_jws e)) pe (vl_sd_alg pl) = Inr ()"
    by (simp add: check_hash_binding_def e(4) prev(2) link_payload_claims single_string_def)
  have key: "link_cnf C ?kind claims (\<not> is_last) = Inr (if is_last then None else Some (sd_verifying_key_of C holder))"
    using cnf contains sd_jwk_round_trip [OF keys] by (simp add: link_cnf_def read_cnf_def)
  have envelope: "check_validity (link_envelope ?h bc) opts False = Inr ()"
    by (simp add: check_validity_def numeric_def link_envelope_def Let_def)
  have valid: "check_validity claims opts (vo_require_exp opts \<and> ?kind = Delegation) = Inr ()"
    using policy(4) by (cases is_last) simp_all
  have "numeric (link_payload (d_digest C Sha256 d) ?h bc) ''iat'' = Inr (Some (Fin (of_int (bc_issued_at bc))))"
    using link_payload_claims(1) numeric_iat [OF exact] by simp
  with typ1 prev e(6) bound process_link [OF claims(1) e(2,3)] take_link_claims [OF claims(2)] key envelope valid
    check_link_iat_on_time [OF policy(1-3)]
  show ?thesis
    unfolding verify_sd_link_def Let_def typ2
    by (simp add: e(1,4) link_payload_claims single_string_def del: check_typ_eq_Inr)
qed

section \<open>Whole chains\<close>

text \<open>A link to issue: its claims, its binding and the key that signs it.\<close>

record honest_link =
  hl_claims :: object
  hl_binding :: binding_claims
  hl_signer :: sd_signing_key

fun delegate_all ::
  "crypto \<Rightarrow> rng \<Rightarrow> bytes \<Rightarrow> nat \<Rightarrow> presentation \<Rightarrow> honest_link list \<Rightarrow> sd_error + presentation \<times> nat" where
  "delegate_all C R rng k p [] = Inr (p, k)"
| "delegate_all C R rng k p (l # ls) =
     rbind (presentation_delegate C R k p (link_builder_new (sd_payload_new (hl_claims l))) (hl_binding l)
       (key_signer C rng (hl_signer l))) (\<lambda>(p', k'). delegate_all C R rng k' p' ls)"

text \<open>Each link is signed with the key the claims before it name, and only the last names none.\<close>

fun well_linked :: "crypto \<Rightarrow> verify_options \<Rightarrow> object \<Rightarrow> honest_link list \<Rightarrow> bool" where
  "well_linked C opts prev [] = (\<not> obj_contains prev ''cnf'')"
| "well_linked C opts prev (l # ls) =
     (obj_get prev ''cnf'' = Some (to_cnf C (sd_verifying_key_of C (hl_signer l)))
      \<and> json_fits 126 (JObj (hl_claims l)) \<and> reject_reserved (JObj (hl_claims l)) = Inr ()
      \<and> \<not> obj_contains (hl_claims l) ''_sd_alg''
      \<and> on_time opts (ls = []) (hl_binding l)
      \<and> check_validity (hl_claims l) opts (vo_require_exp opts \<and> ls \<noteq> []) = Inr ()
      \<and> well_linked C opts (hl_claims l) ls)"

definition codecs_ok :: "crypto \<Rightarrow> bool" where
  "codecs_ok C \<longleftrightarrow> b64_ok C \<and> json_ok C \<and> json_text_ok C \<and> signatures_ok C \<and> public_keys_ok C"

lemma pn_last_delegated: "pn_last (p\<lparr>pn_links := pn_links p @ [e]\<rparr>) = e"
  by (simp add: pn_last_def)

lemma cnf_of_well_linked:
  "well_linked C opts claims ls \<Longrightarrow>
    obj_get claims ''cnf'' = (if ls = [] then None else Some (to_cnf C (sd_verifying_key_of C (hl_signer (hd ls)))))"
  by (cases ls) (simp_all add: obj_contains_def)

lemma delegate_all_verified:
  assumes "codecs_ok C" and "clock_exact opts" and "vo_key_binding opts = TerminalLink a n"
    and "well_linked C opts prev ls" and "ls \<noteq> []"
    and "pn_key_binding p = None" "sj_sd_alg (pn_last p) = Inr Sha256" "vl_sd_alg pl = Sha256"
    and "vl_cnf pl = Some (sd_verifying_key_of C (hl_signer (hd ls)))"
  shows "\<exists>es links h dg. delegate_all C R rng k p ls = Inr (p\<lparr>pn_links := pn_links p @ es\<rparr>, k + length ls)
    \<and> length es = length ls \<and> list_all (element_wf C) es
    \<and> verify_sd_links C opts (i + length ls) i pl (pn_last p) es = Inr links
    \<and> map vl_claims links = map hl_claims ls
    \<and> vl_envelope (last links) = link_envelope h (hl_binding (last ls)) \<and> vl_sd_alg (last links) = Sha256
    \<and> jws_payload (sj_jws (last es)) = link_payload dg h (hl_binding (last ls))"
  using assms(4-9)
proof (induction ls arbitrary: prev k p pl i)
  case (Cons l ls)
  note C = assms(1) [unfolded codecs_ok_def]
  from Cons.prems(1) have claims: "json_fits 126 (JObj (hl_claims l))" "reject_reserved (JObj (hl_claims l)) = Inr ()"
      "\<not> obj_contains (hl_claims l) ''_sd_alg''"
    and time: "on_time opts (ls = []) (hl_binding l)"
    and valid: "check_validity (hl_claims l) opts (vo_require_exp opts \<and> \<not> (ls = [])) = Inr ()"
    and linked: "well_linked C opts (hl_claims l) ls" by simp_all
  obtain e d where e: "link_sign C R k (link_builder_new (sd_payload_new (hl_claims l))) (pn_last p) (hl_binding l)
        (key_signer C rng (hl_signer l)) = Inr (e, k + 1)"
    and wf: "element_wf C e" and alg: "sj_sd_alg e = Inr Sha256"
    and facts: "sj_disclosures e = [d]" "d_name d = None" "d_value d = JObj (hl_claims l)"
      "jws_payload (sj_jws e) = link_payload (d_digest C Sha256 d) (sd_digest C Sha256 (sj_serialize (pn_last p))) (hl_binding l)"
      "jws_typ (sj_jws e) = Some (link_typ_of (hl_claims l))"
      "sd_jws_verify C (sj_jws e) (sd_verifying_key_of C (hl_signer l)) = Inr ()"
    using honest_link [of C "hl_claims l" "pn_last p" "hl_binding l"] C claims Cons.prems(4) on_time_i64 [OF time] by metis
  have clean: "clean (JObj (hl_claims l))" using reject_reserved_clean [OF claims(2)] json_fits_wf [OF claims(1)] by blast
  let ?next = "sd_verifying_key_of C (hl_signer (hd ls))"
  let ?h = "sd_digest C Sha256 (sj_serialize (pn_last p))"
  let ?link = "\<lparr>vl_position = Link (i + 1), vl_kind = (if ls = [] then Terminal else Delegation),
      vl_header = jws_header (sj_jws e), vl_claims = hl_claims l, vl_envelope = link_envelope ?h (hl_binding l),
      vl_cnf = (if ls = [] then None else Some ?next), vl_sd_alg = Sha256, vl_sd_jwt = sj_serialize e\<rparr>"
  have verified: "verify_sd_link C e pl (pn_last p) (ls = []) opts (ls \<noteq> []) (Link (i + 1)) = Inr ?link"
    using C Cons.prems(5,6) by (intro honest_link_verified [OF _ _ clean claims(3) facts _ _ assms(2) time assms(3) valid])
      (simp_all add: cnf_of_well_linked [OF linked])
  have needs: "needs_cnf opts (i + length (l # ls)) (i + 1) = (ls \<noteq> [])"
    by (cases ls) (simp_all add: needs_cnf_def assms(3))
  let ?p = "p\<lparr>pn_links := pn_links p @ [e]\<rparr>"
  have step: "delegate_all C R rng k p (l # ls) = delegate_all C R rng (k + 1) ?p ls"
    using e Cons.prems(3) by (simp add: presentation_delegate_def)
  show ?case
  proof (cases "ls = []")
    case True
    then show ?thesis
      using step verified needs wf by (intro exI [of _ "[e]"] exI [of _ "[?link]"] exI [of _ ?h]
        exI [of _ "d_digest C Sha256 d"]) (simp add: facts(4))
  next
    case False
    obtain es links h dg where rest: "delegate_all C R rng (k + 1) ?p ls
          = Inr (?p\<lparr>pn_links := pn_links ?p @ es\<rparr>, (k + 1) + length ls)"
      "length es = length ls" "list_all (element_wf C) es"
      "verify_sd_links C opts (Suc i + length ls) (Suc i) ?link (pn_last ?p) es = Inr links"
      "map vl_claims links = map hl_claims ls"
      "vl_envelope (last links) = link_envelope h (hl_binding (last ls))" "vl_sd_alg (last links) = Sha256"
      "jws_payload (sj_jws (last es)) = link_payload dg h (hl_binding (last ls))"
      using Cons.IH [OF linked False, of ?p ?link "k + 1" "Suc i"] Cons.prems(3) alg False
      by (auto simp: pn_last_delegated)
    from rest(2,5) False have "links \<noteq> []" "es \<noteq> []" by auto
    with False rest step verified needs wf show ?thesis
      by (intro exI [of _ "e # es"] exI [of _ "?link # links"] exI [of _ h] exI [of _ dg]) (simp add: pn_last_delegated)
  qed
qed simp

text \<open>The outcome of issuing and verifying, with what the mandate layer reads of it.\<close>

lemma honest_chain:
  assumes C: "codecs_ok C"
    and claims: "json_fits 127 (JObj claims)" "reject_reserved (JObj claims) = Inr ()" "\<not> obj_contains claims ''_sd_alg''"
    and policy: "vo_root_form opts = Credential" "a \<in> set (vo_root_typ opts)" "typ_normalize a = typ_normalize typ"
      "check_validity claims opts (vo_require_exp opts) = Inr ()" "clock_exact opts"
      "vo_key_binding opts = TerminalLink audience nonce" "length ls \<le> vo_max_links opts"
    and links: "well_linked C opts claims ls" "ls \<noteq> []"
  obtains e p c h dg where
    "sd_jwt_builder_sign C R k (sd_jwt_builder_new typ claims) (key_signer C rng1 issuer) = Inr (e, k)"
    "delegate_all C R rng2 k (presentation_new e) ls = Inr (p, k + length ls)"
    "presentation_parse C (presentation_serialize p) = Inr p" "length (pn_links p) = length ls"
    "verify_chain C p (sd_verifying_key_of C issuer) opts = Inr c"
    "map vl_claims (vc_links c) = claims # map hl_claims ls"
    "vl_cnf (vc_root c) = Some (sd_verifying_key_of C (hl_signer (hd ls)))"
    "vl_envelope (vc_leaf c) = link_envelope h (hl_binding (last ls))" "vl_sd_alg (vc_leaf c) = Sha256"
    "jws_payload (sj_jws (pn_last p)) = link_payload dg h (hl_binding (last ls))"
proof -
  note keys = C [unfolded codecs_ok_def]
  obtain j where e: "sd_jwt_builder_sign C R k (sd_jwt_builder_new typ claims) (key_signer C rng1 issuer)
       = Inr (\<lparr>sj_jws = j, sj_disclosures = []\<rparr>, k)"
    and j: "jws_parse C (jws_raw j) = Inr j" "CHR ''~'' \<notin> set (jws_raw j)"
      "sd_jws_verify C j (sd_verifying_key_of C issuer) = Inr ()"
      "jws_typ j = Some typ" "jws_payload j = obj_insert ''_sd_alg'' (JStr (sd_alg_name Sha256)) claims"
    using issue_plain [of C claims R k "typ" rng1 issuer] keys claims by metis
  let ?e = "\<lparr>sj_jws = j, sj_disclosures = []\<rparr>" and ?holder = "hl_signer (hd ls)"
  have cnf: "obj_get claims ''cnf'' = Some (to_cnf C (sd_verifying_key_of C ?holder))"
    using cnf_of_well_linked [OF links(1)] links(2) by simp
  have alg: "sj_sd_alg ?e = Inr Sha256" using sd_alg_of_built [of Sha256] by (simp add: sj_sd_alg_def j(5))
  obtain root where root: "verify_root C ?e (sd_verifying_key_of C issuer) opts True = Inr root"
    "vl_claims root = claims" "vl_cnf root = Some (sd_verifying_key_of C ?holder)" "vl_sd_alg root = Sha256"
    using issued_root_verified [OF _ _ claims cnf policy(1-4) j(3-5)] keys by force
  have last: "pn_last (presentation_new ?e) = ?e" by (simp add: pn_last_def presentation_new_def)
  obtain es vs h dg where l: "delegate_all C R rng2 k (presentation_new ?e) ls
        = Inr ((presentation_new ?e)\<lparr>pn_links := es\<rparr>, k + length ls)"
    "length es = length ls" "list_all (element_wf C) es"
    "verify_sd_links C opts (length ls) 0 root ?e es = Inr vs"
    "map vl_claims vs = map hl_claims ls" "vl_envelope (last vs) = link_envelope h (hl_binding (last ls))"
    "vl_sd_alg (last vs) = Sha256" "jws_payload (sj_jws (last es)) = link_payload dg h (hl_binding (last ls))"
    using delegate_all_verified [OF C policy(5,6) links, of "presentation_new ?e" root R rng2 k 0] alg root(3,4) last
    by (auto simp: presentation_new_def)
  let ?p = "(presentation_new ?e)\<lparr>pn_links := es\<rparr>"
  have "presentation_wf C ?p"
    using j(1,2) l(3) by (simp add: presentation_wf_def pn_elements_def element_wf_def kb_wf_def presentation_new_def)
  note parsed = presentation_parse_serialize [OF this]
  have ne: "es \<noteq> []" "vs \<noteq> []" using l(2,5) links(2) by auto
  let ?c = "\<lparr>vc_links = root # vs, vc_key_binding = None, vc_serialized = presentation_serialize ?p\<rparr>"
  have "needs_cnf opts (length ls) 0 = True" using links(2) by (simp add: needs_cnf_def)
  then have "verify_chain C ?p (sd_verifying_key_of C issuer) opts = Inr ?c"
    using root(1) l(2,4) policy(6,7) links(2) ne
    by (simp add: verify_chain_def check_shape_def presentation_new_def Let_def not_less)
  moreover have "pn_last ?p = last es" using ne by (simp add: pn_last_def presentation_new_def)
  ultimately show ?thesis
    using that [OF e l(1) parsed, of ?c h dg] l ne root by (simp add: vc_root_def vc_leaf_def presentation_new_def)
qed

text \<open>C14: When JSON of at most 127 levels without floating-point numbers reads back as written
  (what serde_json does; its recursion limit is 128), a credential of the builder extended
  by any number of links that LinkBuilder signs with the keys the elements before them
  name, the last terminal and bound to the audience and nonce of the verifier, is accepted
  under a matching policy with exactly the issued claims at every position. The claims of
  the credential nest at most 127 deep, those of the links at most 126, and hold no
  floating-point number.\<close>
theorem honest_delegate_chain_accepted:
  assumes "codecs_ok C"
    and "json_fits 127 (JObj claims)" "reject_reserved (JObj claims) = Inr ()" "\<not> obj_contains claims ''_sd_alg''"
    and "vo_root_form opts = Credential" "a \<in> set (vo_root_typ opts)" "typ_normalize a = typ_normalize typ"
      "check_validity claims opts (vo_require_exp opts) = Inr ()" "clock_exact opts"
      "vo_key_binding opts = TerminalLink audience nonce" "length ls \<le> vo_max_links opts"
    and "well_linked C opts claims ls" "ls \<noteq> []"
  shows "\<exists>e p c h. sd_jwt_builder_sign C R k (sd_jwt_builder_new typ claims) (key_signer C rng1 issuer) = Inr (e, k)
    \<and> delegate_all C R rng2 k (presentation_new e) ls = Inr (p, k + length ls)
    \<and> parse_and_verify C (presentation_serialize p) (sd_verifying_key_of C issuer) opts = Inr c
    \<and> map vl_claims (vc_links c) = claims # map hl_claims ls
    \<and> vl_envelope (vc_leaf c) = link_envelope h (hl_binding (last ls))"
  by (rule honest_chain [OF assms, of R k rng1 issuer rng2]) (auto simp: parse_and_verify_def)

end
