(* ===== verification/AuthHonest.thy ===== *)
theory AuthHonest
  imports AuthOutcome SdLink
begin

text \<open>
  Liveness of the v1 verifier: what an honest issuer, user and agents sign with the builders
  of aap-sdjwt, with mandates that allow the action, is authorized, and the receipt says so.
\<close>

section \<open>Mandates under another counter\<close>

lemma open_parse_key:
  assumes "open_parse K claims key = Inr m"
  shows "open_parse K claims key' = Inr (m\<lparr>om_ledger_key := key'\<rparr>)"
proof -
  have "open_parse K claims key' = rbind (open_parse K claims key) (\<lambda>m. Inr (m\<lparr>om_ledger_key := key'\<rparr>))"
    by (simp add: open_parse_def rbind_def split: sum.split) blast
  with assms show ?thesis by simp
qed

lemma depths_allow_cong: "map om_max_depth ms = map om_max_depth ms' \<Longrightarrow> depths_allow ms = depths_allow ms'"
proof -
  assume d: "map om_max_depth ms = map om_max_depth ms'"
  then have "length ms = length ms'" by (rule map_eq_imp_length_eq)
  with d show ?thesis unfolding depths_allow_def by (metis nth_map)
qed

definition recount :: "crypto \<Rightarrow> verified_link list \<Rightarrow> open_mandate list \<Rightarrow> open_mandate list" where
  "recount C os ms = map2 (\<lambda>link m. m\<lparr>om_ledger_key := ledger_key C link\<rparr>) os ms"

lemma recount_parsed:
  assumes "list_all2 (\<lambda>l m. open_parse K (hl_claims l) [] = Inr m \<and> revocable_or_short p now (hl_claims l)) opens ms"
    and "map vl_claims os = map hl_claims opens"
  shows "list_all2 (\<lambda>link m. open_parse K (vl_claims link) (ledger_key C link) = Inr m
      \<and> revocable_or_short p now (vl_claims link)) os (recount C os ms)"
    and "depths_allow (recount C os ms) = depths_allow ms"
proof -
  note len = list_all2_lengthD [OF assms(1)] map_eq_imp_length_eq [OF assms(2)]
  have claims: "vl_claims (os ! i) = hl_claims (opens ! i)" if "i < length os" for i
    using assms(2) len that by (metis nth_map)
  show "list_all2 (\<lambda>link m. open_parse K (vl_claims link) (ledger_key C link) = Inr m
      \<and> revocable_or_short p now (vl_claims link)) os (recount C os ms)"
    using assms(1) len claims
    by (auto simp: list_all2_conv_all_nth recount_def intro: open_parse_key)
  have "map om_max_depth (recount C os ms) = map om_max_depth ms"
    using len by (intro nth_equalityI) (simp_all add: recount_def)
  then show "depths_allow (recount C os ms) = depths_allow ms" by (rule depths_allow_cong)
qed

lemma recount_accepts:
  "\<forall>m \<in> set ms. \<forall>key. open_accepts K (m\<lparr>om_ledger_key := key\<rparr>) cl env = Inr () \<Longrightarrow>
    \<forall>m \<in> set (recount C os ms). open_accepts K m cl env = Inr ()"
  by (auto simp: recount_def dest: set_zip_rightD)

section \<open>The final binding\<close>

lemma link_envelope_fresh:
  assumes "clock_exact opts" "on_time opts True bc" "vl_envelope leaf = link_envelope h bc"
    and "vo_now opts = now" "vo_max_age opts = po_max_age p" "vo_max_future opts = po_max_future p"
    and "vo_key_binding opts = TerminalLink (po_audience p) nonce"
  shows "binding_fresh p now nonce leaf (bc_issued_at bc)"
proof -
  note exact = assms(1) [unfolded clock_exact_def assms(4-6)]
  note time = assms(2) [unfolded on_time_def assms(4-7)]
  have bounds: "f64_of_int now - f64_of_int (po_max_age p) = Fin (of_int (now - po_max_age p))"
    "f64_of_int now + f64_of_int (po_max_future p) = Fin (of_int (now + po_max_future p))"
    using exact by (simp_all only: f64_of_int_exact f64_minus_exact f64_plus_exact)
  have iat: "as_f64 (json_of_i64 (bc_issued_at bc)) = Some (Fin (of_int (bc_issued_at bc)))"
    using as_f64_of_i64 time by blast
  have "f64_to_i64 (Fin (of_int (bc_issued_at bc))) = bc_issued_at bc"
    using time by (auto simp: f64_to_i64_def rat_trunc_def f64_exact_def i64_min_def i64_max_def)
  then show ?thesis
    using time unfolding binding_fresh_def bounds assms(3)
    by (auto simp: link_envelope_def obj_str_def iat simp del: of_int_diff of_int_add)
qed

section \<open>Honest chains are authorized\<close>

text \<open>The verifier's options for a chain with links.\<close>

abbreviation chain_options :: "policy \<Rightarrow> string \<Rightarrow> i64 \<Rightarrow> verify_options" where
  "chain_options p nonce now \<equiv> options_for p (TerminalLink (po_audience p) nonce) now"

lemma honest_granted:
  assumes root: "po_root (ve_policy V) = RootCredential typs vcts" "v \<in> set vcts" "obj_str claims ''vct'' = Some v"
    and chain: "map vl_claims (vc_links c) = claims # map hl_claims (opens @ [act_link])" "vl_sd_alg (vc_leaf c) = Sha256"
    and len: "length opens \<le> po_max_open_mandates (ve_policy V)"
    and status: "\<forall>cs \<in> insert claims (hl_claims ` set (opens @ [act_link])). status_good V now cs"
    and mandates: "list_all2 (\<lambda>l m. open_parse K (hl_claims l) [] = Inr m
        \<and> revocable_or_short (ve_policy V) now (hl_claims l)) opens ms" "depths_allow ms"
    and closed: "closed_parse (hl_claims act_link) = Inr cl" "cl_content cl = ClosedAction act"
    and accepts: "\<forall>m \<in> set ms. \<forall>key. open_accepts K (m\<lparr>om_ledger_key := key\<rparr>) cl
        \<lparr>ev_now = now, ev_tx = tx, ev_ledger = ve_ledger V, ev_checkout = None\<rparr> = Inr ()"
  shows "\<exists>a. granted C K V c issuer_key tx now a (vc_leaf c) \<and> au_chain a = c \<and> au_closed a = cl
    \<and> au_principal a = CredentialHolder (obj_str claims ''iss'') (vl_cnf (vc_root c))"
proof -
  obtain r vs where r: "vc_links c = r # vs" and rc: "vl_claims r = claims"
    and vs: "map vl_claims vs = map hl_claims (opens @ [act_link])"
    using chain(1) by (cases "vc_links c") auto
  then have "vs \<noteq> []" by auto
  then obtain os leaf where split: "vs = os @ [leaf]" by (metis append_butlast_last_id)
  with vs have os: "map vl_claims os = map hl_claims opens" and leaf: "vl_claims leaf = hl_claims act_link"
    by simp_all
  have c_leaf: "vc_leaf c = leaf" and c_root: "vc_root c = r"
    using r split by (simp_all add: vc_leaf_def vc_root_def)
  let ?a = "\<lparr>au_chain = c, au_closed = cl, au_principal = CredentialHolder (obj_str claims ''iss'') (vl_cnf r),
      au_ledger_keys = map om_ledger_key (recount C os ms)\<rparr>"
  have "acts_for (ve_policy V) c issuer_key (au_principal ?a) 1"
    using root by (simp add: acts_for_def c_root rc)
  moreover have "drop 1 (vc_links c) = os @ [leaf]" using r split by simp
  moreover have "length os \<le> po_max_open_mandates (ve_policy V)"
    using len map_eq_imp_length_eq [OF os] by simp
  moreover have "\<forall>link \<in> set (vc_links c). status_good V now (vl_claims link)"
  proof -
    have "set (map vl_claims (vc_links c)) = insert claims (hl_claims ` set (opens @ [act_link]))"
      using chain(1) by simp
    with status show ?thesis by (metis imageI set_map)
  qed
  moreover have "closed_parse (vl_claims leaf) = Inr (au_closed ?a)" using closed(1) leaf by simp
  moreover note recount_parsed [OF mandates(1) os, of C]
  moreover have "bind_closed C leaf (au_closed ?a) tx = Inr None" using closed(2) by (simp add: bind_closed_def)
  moreover note recount_accepts [OF accepts, of C os]
  ultimately have "granted C K V c issuer_key tx now ?a leaf"
    unfolding granted_steps using mandates(2)
    by (intro exI [of _ 1] exI [of _ os] exI [of _ "recount C os ms"] exI [of _ None]) simp
  then show ?thesis using c_leaf c_root by (intro exI [of _ ?a]) simp
qed

lemma honest_authorized:
  assumes C: "codecs_ok C"
    and claims: "json_fits 127 (JObj claims)" "reject_reserved (JObj claims) = Inr ()" "\<not> obj_contains claims ''_sd_alg''"
    and root: "po_root (ve_policy V) = RootCredential typs vcts" "t \<in> set typs" "typ_normalize t = typ_normalize typ"
      "v \<in> set vcts" "obj_str claims ''vct'' = Some v"
    and opts: "opts = chain_options (ve_policy V) nonce now" "check_validity claims opts True = Inr ()" "clock_exact opts"
    and links: "well_linked C opts claims (opens @ [act_link])" "length opens \<le> po_max_open_mandates (ve_policy V)"
    and status: "\<forall>cs \<in> insert claims (hl_claims ` set (opens @ [act_link])). status_good V now cs"
    and mandates: "list_all2 (\<lambda>l m. open_parse K (hl_claims l) [] = Inr m
        \<and> revocable_or_short (ve_policy V) now (hl_claims l)) opens ms" "depths_allow ms"
    and closed: "closed_parse (hl_claims act_link) = Inr cl" "cl_content cl = ClosedAction act"
    and accepts: "\<forall>m \<in> set ms. \<forall>key. open_accepts K (m\<lparr>om_ledger_key := key\<rparr>) cl
        \<lparr>ev_now = now, ev_tx = tx, ev_ledger = ve_ledger V, ev_checkout = None\<rparr> = Inr ()"
    and nonce: "tx_nonce tx = Challenge nonce \<or> tx_nonce tx = AgentGenerated"
      "nonce_accepted V tx now nonce (bc_issued_at (hl_binding act_link)) s s'"
  obtains e p c h a where
    "sd_jwt_builder_sign C R k (sd_jwt_builder_new typ claims) (key_signer C rng1 issuer) = Inr (e, k)"
    "delegate_all C R rng2 k (presentation_new e) (opens @ [act_link]) = Inr (p, k + Suc (length opens))"
    "presentation_parse C (presentation_serialize p) = Inr p"
    "check_presentation C K V p (sd_verifying_key_of C issuer) tx now s = (Inr a, s')"
    "au_closed a = cl" "vl_envelope (vc_leaf (au_chain a)) = link_envelope h (hl_binding act_link)"
    "au_principal a = CredentialHolder (obj_str claims ''iss'')
       (Some (sd_verifying_key_of C (hl_signer (hd (opens @ [act_link])))))"
proof -
  note opts_simps = opts(1) options_for_def root(1)
  have shape: "vo_root_form opts = Credential" "t \<in> set (vo_root_typ opts)"
    "check_validity claims opts (vo_require_exp opts) = Inr ()"
    "vo_key_binding opts = TerminalLink (po_audience (ve_policy V)) nonce"
    "length (opens @ [act_link]) \<le> vo_max_links opts"
    using root(2) opts(2) links(2) by (simp_all add: opts_simps)
  obtain e p c h dg where e: "sd_jwt_builder_sign C R k (sd_jwt_builder_new typ claims) (key_signer C rng1 issuer) = Inr (e, k)"
    and p: "delegate_all C R rng2 k (presentation_new e) (opens @ [act_link]) = Inr (p, k + length (opens @ [act_link]))"
    "presentation_parse C (presentation_serialize p) = Inr p" "length (pn_links p) = length (opens @ [act_link])"
    and c: "verify_chain C p (sd_verifying_key_of C issuer) opts = Inr c"
    "map vl_claims (vc_links c) = claims # map hl_claims (opens @ [act_link])"
    "vl_cnf (vc_root c) = Some (sd_verifying_key_of C (hl_signer (hd (opens @ [act_link]))))"
    "vl_envelope (vc_leaf c) = link_envelope h (hl_binding (last (opens @ [act_link])))" "vl_sd_alg (vc_leaf c) = Sha256"
    "jws_payload (sj_jws (pn_last p)) = link_payload dg h (hl_binding (last (opens @ [act_link])))"
    by (rule honest_chain [OF C claims shape(1,2) root(3) shape(3) opts(3) shape(4,5) links(1), of R k rng1 issuer rng2])
      simp
  have time: "on_time opts True (hl_binding act_link)"
    using links(1) by (induction opens arbitrary: claims) auto
  then have bound: "bc_nonce (hl_binding act_link) = nonce" by (simp add: on_time_def shape(4))
  have "obj_str (jws_payload (sj_jws (pn_last p))) ''nonce'' = Some nonce"
    using c(6) bound by (simp add: link_payload_claims)
  moreover have "pn_links p \<noteq> []" using p(3) by auto
  ultimately have binding: "choose_binding (ve_policy V) p tx
      = Inr (TerminalLink (po_audience (ve_policy V)) nonce, Some nonce)"
    using nonce(1) by (auto simp: choose_binding_def)
  have fresh: "binding_fresh (ve_policy V) now nonce (vc_leaf c) (bc_issued_at (hl_binding act_link))"
    using c(4) by (intro link_envelope_fresh [OF opts(3) time]) (simp_all add: opts_simps)
  obtain a where a: "granted C K V c (sd_verifying_key_of C issuer) tx now a (vc_leaf c)" "au_chain a = c" "au_closed a = cl"
    "au_principal a = CredentialHolder (obj_str claims ''iss'') (vl_cnf (vc_root c))"
    using honest_granted [OF root(1,4,5) c(2,5) links(2) status mandates closed accepts] by blast
  have "authorizes C K V p (sd_verifying_key_of C issuer) tx now s a s'"
    unfolding authorizes_steps using binding c(1) a(1) fresh nonce(2) by (auto simp: opts(1))
  then have "check_presentation C K V p (sd_verifying_key_of C issuer) tx now s = (Inr a, s')"
    by (simp add: check_presentation_Inr)
  with that [OF e _ p(2), of a h] p(1) a c(3,4) show ?thesis by simp
qed

text \<open>C12: When JSON of at most 127 levels without floating-point numbers reads back as written
  (what serde_json does; its recursion limit is 128), a user credential from an honest
  issuer, extended by open mandates of the user and agents and by a closed action, all
  signed with the builders, is authorized whenever the mandates allow the action and the
  nonce is new: the outcome is that action on behalf of the credential holder and the
  signed receipt says success. The claims of the credential nest at most 127 deep, those of
  the links at most 126, and hold no floating-point number.\<close>
theorem honest_action_authorized:
  assumes "codecs_ok C" and signer: "ve_receipt_signer V = key_signer C rng3 receipt_key"
    and "json_fits 127 (JObj claims)" "reject_reserved (JObj claims) = Inr ()" "\<not> obj_contains claims ''_sd_alg''"
    and "po_root (ve_policy V) = RootCredential typs vcts" "t \<in> set typs" "typ_normalize t = typ_normalize typ"
      "v \<in> set vcts" "obj_str claims ''vct'' = Some v"
    and "opts = chain_options (ve_policy V) nonce now" "check_validity claims opts True = Inr ()" "clock_exact opts"
    and "well_linked C opts claims (opens @ [act_link])" "length opens \<le> po_max_open_mandates (ve_policy V)"
    and "\<forall>cs \<in> insert claims (hl_claims ` set (opens @ [act_link])). status_good V now cs"
    and "list_all2 (\<lambda>l m. open_parse K (hl_claims l) [] = Inr m
        \<and> revocable_or_short (ve_policy V) now (hl_claims l)) opens ms" "depths_allow ms"
    and "closed_parse (hl_claims act_link) = Inr cl" "cl_content cl = ClosedAction act"
    and "\<forall>m \<in> set ms. \<forall>key. open_accepts K (m\<lparr>om_ledger_key := key\<rparr>) cl
        \<lparr>ev_now = now, ev_tx = tx, ev_ledger = ve_ledger V, ev_checkout = None\<rparr> = Inr ()"
    and "tx_nonce tx = Challenge nonce \<or> tx_nonce tx = AgentGenerated"
      "nonce_accepted V tx now nonce (bc_issued_at (hl_binding act_link)) s s'"
  shows "\<exists>e p d a r.
      sd_jwt_builder_sign C R k (sd_jwt_builder_new typ claims) (key_signer C rng1 issuer) = Inr (e, k)
    \<and> delegate_all C R rng2 k (presentation_new e) (opens @ [act_link]) = Inr (p, k + Suc (length opens))
    \<and> verify_v1 C K render V (presentation_serialize p) (sd_verifying_key_of C issuer) tx now s = (Inr d, s')
    \<and> de_outcome d = Inr a \<and> au_closed a = cl
    \<and> au_principal a = CredentialHolder (obj_str claims ''iss'')
         (Some (sd_verifying_key_of C (hl_signer (hd (opens @ [act_link])))))
    \<and> verify_jwt C (de_receipt_jwt d) (sd_verifying_key_of C receipt_key) [RECEIPT_TYP] = Inr r
    \<and> obj_str (vj_claims r) ''result'' = Some ''success''"
proof -
  obtain e p c h a where e: "sd_jwt_builder_sign C R k (sd_jwt_builder_new typ claims) (key_signer C rng1 issuer) = Inr (e, k)"
    and p: "delegate_all C R rng2 k (presentation_new e) (opens @ [act_link]) = Inr (p, k + Suc (length opens))"
    "presentation_parse C (presentation_serialize p) = Inr p"
    and a: "check_presentation C K V p (sd_verifying_key_of C issuer) tx now s = (Inr a, s')" "au_closed a = cl"
    "au_principal a = CredentialHolder (obj_str claims ''iss'')
       (Some (sd_verifying_key_of C (hl_signer (hd (opens @ [act_link])))))"
    by (rule honest_authorized [OF assms(1,3-23), of R k rng1 issuer rng2]) simp
  from assms(1) have codecs: "b64_ok C" "json_ok C" "signatures_ok C" by (simp_all add: codecs_ok_def)
  have "i64_ok now" using assms(11,13) by (auto simp: clock_exact_def options_for_def intro: f64_exact_i64_ok)
  from verify_v1_receipt [OF codecs signer this, of K render "presentation_serialize p" "sd_verifying_key_of C issuer" tx s p]
  obtain d s1 r where d: "verify_v1 C K render V (presentation_serialize p) (sd_verifying_key_of C issuer) tx now s = (Inr d, s1)"
    "check_presentation C K V p (sd_verifying_key_of C issuer) tx now s = (de_outcome d, s1)"
    and r: "verify_jwt C (de_receipt_jwt d) (sd_verifying_key_of C receipt_key) [RECEIPT_TYP] = Inr r"
    "obj_str (vj_claims r) ''result'' = Some (if isl (de_outcome d) then ''error'' else ''success'')"
    using p(2) by blast
  have "de_outcome d = Inr a" "s1 = s'" using d(2) a(1) by simp_all
  with d(1) r e p(1) a(2,3) show ?thesis by force
qed

section \<open>A concrete request\<close>

text \<open>
  A user with a credential allows an agent to pay up to 100 cents from one account, and
  the agent pays 60 at a shop, under a nonce it chose itself.
\<close>

definition toy_user :: sd_signing_key where "toy_user = SkEd25519 ''user''"
definition toy_agent :: sd_signing_key where "toy_agent = SkEd25519 ''agent''"

definition toy_user_claims :: object where
  "toy_user_claims = [(''cnf'', to_cnf toy_crypto (sd_verifying_key_of toy_crypto toy_user)),
     (''exp'', json_of_i64 5000), (''vct'', JStr ''user'')]"

definition toy_mandate_claims :: object where
  "toy_mandate_claims = [(''cnf'', to_cnf toy_crypto (sd_verifying_key_of toy_crypto toy_agent)),
     (''constraints'', JArr (toy_raw 0 100)), (''exp'', json_of_i64 3000),
     (''resource'', JStr ''account''), (''vct'', JStr AUTHORITY_OPEN)]"

definition toy_mandate_link :: honest_link where
  "toy_mandate_link = \<lparr>hl_claims = toy_mandate_claims,
     hl_binding = \<lparr>bc_audience = ''agent'', bc_nonce = ''n0'', bc_issued_at = 900\<rparr>, hl_signer = toy_user\<rparr>"

definition toy_action_link :: honest_link where
  "toy_action_link = \<lparr>hl_claims = toy_closed_claims 60,
     hl_binding = \<lparr>bc_audience = ''shop'', bc_nonce = ''n1'', bc_issued_at = 1000\<rparr>, hl_signer = toy_agent\<rparr>"

definition toy_shop :: "nonce_map verifier_v1" where
  "toy_shop = with_nonce_store
     (verifier_v1_new (policy_new ''shop'' (RootCredential [''dc+sd-jwt''] [''user''])) ''shop''
       (key_signer toy_crypto ''r'' (SkP256 ''k'')) no_status_list) check_and_insert"

lemma toy_mandate_parse: "open_parse K toy_mandate_claims key = Inr (toy_open 0 100 key)"
  by (simp add: open_parse_def toy_mandate_claims_def toy_open_def toy_read_constraints mandate_vct_def obj_str_def
      as_str_def family_from_open_def all_families_def has_type_def smallest_depth_def depths_def
      STRUCTURAL_def AUTHORITY_OPEN_def CHECKOUT_OPEN_def PAYMENT_OPEN_def aap_def AAP_NAMESPACE_def
      AGENT_def NOTE_def AGENT_RECURRENCE_def ACTIONS_def AMOUNT_def DELEGATION_def)

lemma toy_shop_simps [simp]:
  "ve_policy toy_shop = policy_new ''shop'' (RootCredential [''dc+sd-jwt''] [''user''])"
  "ve_nonces toy_shop = Some check_and_insert" "ve_ledger toy_shop = None"
  "ve_receipt_signer toy_shop = key_signer toy_crypto ''r'' (SkP256 ''k'')"
  by (simp_all add: toy_shop_def with_nonce_store_def verifier_v1_new_def)

lemma toy_claims_wf:
  "json_fits 127 (JObj toy_user_claims)" "json_fits 126 (JObj toy_mandate_claims)" "json_fits 126 (JObj (toy_closed_claims n))"
  using to_cnf_clean [of toy_crypto "sd_verifying_key_of toy_crypto toy_user"]
    to_cnf_clean [of toy_crypto "sd_verifying_key_of toy_crypto toy_agent"]
    json_fits_mono [OF to_cnf_clean(1), of 126 toy_crypto "sd_verifying_key_of toy_crypto toy_user"]
    json_fits_mono [OF to_cnf_clean(1), of 125 toy_crypto "sd_verifying_key_of toy_crypto toy_agent"]
  by (simp_all add: toy_user_claims_def toy_mandate_claims_def toy_closed_claims_def toy_raw_def obj_wf_def
      json_of_i64_def less_char_def)

lemma toy_claims_unreserved:
  "reject_reserved (JObj toy_user_claims) = Inr ()" "reject_reserved (JObj toy_mandate_claims) = Inr ()"
  "reject_reserved (JObj (toy_closed_claims n)) = Inr ()"
  "\<not> obj_contains toy_user_claims ''_sd_alg''" "\<not> obj_contains toy_mandate_claims ''_sd_alg''"
  "\<not> obj_contains (toy_closed_claims n) ''_sd_alg''"
  using to_cnf_clean [of toy_crypto "sd_verifying_key_of toy_crypto toy_user"]
    to_cnf_clean [of toy_crypto "sd_verifying_key_of toy_crypto toy_agent"]
  by (simp_all add: toy_user_claims_def toy_mandate_claims_def toy_closed_claims_def toy_raw_def obj_contains_def
      json_of_i64_def)

abbreviation toy_opts :: "i64 \<Rightarrow> verify_options" where
  "toy_opts now \<equiv> chain_options (ve_policy toy_shop) ''n1'' now"

lemma toy_clock:
  assumes "1000 \<le> now" "now \<le> 1300"
  shows "f64_exact now" "clock_exact (toy_opts now)"
  using assms by (simp_all add: clock_exact_def options_for_def policy_new_def f64_exact_def)

lemma valid_until:
  assumes "f64_exact now" "f64_exact e" "now < e" "vo_now opts = now" "vo_leeway opts = 0"
    and "obj_get claims ''exp'' = Some (json_of_i64 e)" "obj_get claims ''nbf'' = None"
  shows "check_validity claims opts b = Inr ()"
proof -
  have exp: "numeric claims ''exp'' = Inr (Some (Fin (of_int e)))"
    using as_f64_of_i64 [OF assms(2)] assms(6) by (simp add: numeric_def json_of_i64_def as_f64_def)
  have "numeric claims ''nbf'' = Inr None" using assms(7) by (simp add: numeric_def)
  moreover have "Fin (of_int e) + Fin (of_int 0) = Fin (of_int (e + 0))"
    using assms(2) by (intro f64_plus_exact) simp
  ultimately show ?thesis
    using exp assms(1,3-5) by (simp add: check_validity_def Let_def f64_exact_def)
qed

lemma toy_links:
  assumes "1000 \<le> now" "now \<le> 1300"
  shows "check_validity toy_user_claims (toy_opts now) True = Inr ()"
    and "well_linked toy_crypto (toy_opts now) toy_user_claims ([toy_mandate_link] @ [toy_action_link])"
proof -
  note now = toy_clock(1) [OF assms]
  show "check_validity toy_user_claims (toy_opts now) True = Inr ()"
    by (rule valid_until [OF now, of 5000])
      (use assms in \<open>simp_all add: options_for_def policy_new_def toy_user_claims_def f64_exact_def\<close>)
  have "check_validity toy_mandate_claims (toy_opts now) True = Inr ()"
    by (rule valid_until [OF now, of 3000])
      (use assms in \<open>simp_all add: options_for_def policy_new_def toy_mandate_claims_def f64_exact_def\<close>)
  moreover have "check_validity (toy_closed_claims 60) (toy_opts now) False = Inr ()"
    by (simp add: check_validity_def numeric_def toy_closed_claims_def Let_def)
  moreover have "on_time (toy_opts now) False (hl_binding toy_mandate_link)"
    "on_time (toy_opts now) True (hl_binding toy_action_link)"
    using assms by (simp_all add: on_time_def toy_mandate_link_def toy_action_link_def options_for_def policy_new_def f64_exact_def)
  moreover have "obj_get toy_user_claims ''cnf'' = Some (to_cnf toy_crypto (sd_verifying_key_of toy_crypto (hl_signer toy_mandate_link)))"
    "obj_get toy_mandate_claims ''cnf'' = Some (to_cnf toy_crypto (sd_verifying_key_of toy_crypto (hl_signer toy_action_link)))"
    "\<not> obj_contains (toy_closed_claims 60) ''cnf''"
    by (simp_all add: toy_user_claims_def toy_mandate_claims_def toy_mandate_link_def toy_action_link_def
        toy_closed_claims_def obj_contains_def)
  moreover have "hl_claims toy_mandate_link = toy_mandate_claims" "hl_claims toy_action_link = toy_closed_claims 60"
    by (simp_all add: toy_mandate_link_def toy_action_link_def)
  moreover have "vo_require_exp (toy_opts now)" by (simp add: options_for_def)
  ultimately show "well_linked toy_crypto (toy_opts now) toy_user_claims ([toy_mandate_link] @ [toy_action_link])"
    using toy_claims_wf toy_claims_unreserved by (simp del: json_fits.simps reject_reserved.simps)
qed

lemma toy_mandates:
  assumes "1000 \<le> now" "now \<le> 1300"
  shows "list_all2 (\<lambda>l m. open_parse K (hl_claims l) [] = Inr m
      \<and> revocable_or_short (ve_policy toy_shop) now (hl_claims l)) [toy_mandate_link] [toy_open 0 100 []]"
    and "depths_allow [toy_open 0 100 []]"
    and "\<forall>m \<in> set [toy_open 0 100 []]. \<forall>key. open_accepts K (m\<lparr>om_ledger_key := key\<rparr>) (toy_payment 60)
        \<lparr>ev_now = now, ev_tx = tx, ev_ledger = ve_ledger toy_shop, ev_checkout = None\<rparr> = Inr ()"
    and "\<forall>cs \<in> insert toy_user_claims (hl_claims ` set ([toy_mandate_link] @ [toy_action_link])).
        status_good toy_shop now cs"
proof -
  have "as_f64 (json_of_i64 3000) = Some (Fin 3000)" using as_f64_of_i64 [of 3000] by (simp add: f64_exact_def)
  moreover have "Fin (of_int 3000) - Fin (of_int now) = Fin (of_int (3000 - now))"
    using assms by (intro f64_minus_exact) (simp add: f64_exact_def)
  ultimately have "revocable_or_short (ve_policy toy_shop) now toy_mandate_claims"
    using assms toy_clock(1) [OF assms]
    by (simp add: revocable_or_short_def toy_mandate_claims_def policy_new_def f64_exact_def)
  then show "list_all2 (\<lambda>l m. open_parse K (hl_claims l) [] = Inr m
      \<and> revocable_or_short (ve_policy toy_shop) now (hl_claims l)) [toy_mandate_link] [toy_open 0 100 []]"
    by (simp add: toy_mandate_link_def toy_mandate_parse)
  show "depths_allow [toy_open 0 100 []]" by (simp add: depths_allow_def)
  show "\<forall>m \<in> set [toy_open 0 100 []]. \<forall>key. open_accepts K (m\<lparr>om_ledger_key := key\<rparr>) (toy_payment 60)
        \<lparr>ev_now = now, ev_tx = tx, ev_ledger = ve_ledger toy_shop, ev_checkout = None\<rparr> = Inr ()"
    by (simp add: toy_evaluation)
  show "\<forall>cs \<in> insert toy_user_claims (hl_claims ` set ([toy_mandate_link] @ [toy_action_link])).
        status_good toy_shop now cs"
    by (simp add: status_good_def toy_mandate_link_def toy_action_link_def toy_user_claims_def
        toy_mandate_claims_def toy_closed_claims_def)
qed

lemma toy_codecs: "codecs_ok toy_crypto"
  by (simp add: codecs_ok_def toy_crypto_ok toy_json_text_ok)

lemma toy_nonce:
  assumes "check_and_insert ''n1'' 1300 now s = (Inr True, s')"
  shows "nonce_accepted toy_shop (transaction_context_new AgentGenerated) now ''n1''
    (bc_issued_at (hl_binding toy_action_link)) s s'"
  using assms
  by (simp add: nonce_accepted_def transaction_context_new_def toy_action_link_def policy_new_def
      i64_ok_def i64_min_def i64_max_def)

lemma toy_policy:
  "po_root (ve_policy toy_shop) = RootCredential [''dc+sd-jwt''] [''user'']"
  "''dc+sd-jwt'' \<in> set [''dc+sd-jwt'']" "''user'' \<in> set [''user'']"
  "obj_str toy_user_claims ''vct'' = Some ''user''"
  "length [toy_mandate_link] \<le> po_max_open_mandates (ve_policy toy_shop)"
  by (simp_all add: policy_new_def obj_str_def toy_user_claims_def)

lemma toy_action:
  "closed_parse (hl_claims toy_action_link) = Inr (toy_payment 60)"
  "cl_content (toy_payment 60) = ClosedAction \<lparr>act_action = ''pay'', act_resource = Some ''account'',
     act_amount = Some \<lparr>am_minor = 60, am_currency = ''EUR''\<rparr>, act_counterparty = None, act_data_categories = None\<rparr>"
  "tx_nonce (transaction_context_new AgentGenerated) = Challenge ''n1''
     \<or> tx_nonce (transaction_context_new AgentGenerated) = AgentGenerated"
  by (simp_all add: toy_action_link_def toy_closed_parse toy_payment_def transaction_context_new_def)

theorem honest_action_authorized_witness:
  "\<exists>input d a. verify_v1 toy_crypto monday_ten (\<lambda>m. []) toy_shop input
      (sd_verifying_key_of toy_crypto toy_issuer) (transaction_context_new AgentGenerated) 1000 Map.empty
      = (Inr d, [''n1'' \<mapsto> 1300])
    \<and> de_outcome d = Inr a \<and> au_closed a = toy_payment 60"
proof -
  have "check_and_insert ''n1'' 1300 1000 Map.empty = (Inr True, [''n1'' \<mapsto> 1300])"
    by (simp add: check_and_insert_def retain_live_def)
  note nonce = toy_nonce [OF this]
  have now: "1000 \<le> (1000 :: i64)" "1000 \<le> (1300 :: i64)" by simp_all
  show ?thesis
    using honest_action_authorized [OF toy_codecs toy_shop_simps(4) toy_claims_wf(1) toy_claims_unreserved(1,4)
        toy_policy(1,2) refl toy_policy(3,4) refl toy_links(1) [OF now] toy_clock(2) [OF now] toy_links(2) [OF now]
        toy_policy(5) toy_mandates(4) [OF now] toy_mandates(1,2) [OF now] toy_action(1,2)
        toy_mandates(3) [OF now] toy_action(3) nonce, of toy_rng 0 "''r''" toy_issuer "''r''" monday_ten "\<lambda>m. []"]
    by blast
qed

lemma toy_chain_opts:
  shows "vo_root_form (toy_opts 1000) = Credential" "''dc+sd-jwt'' \<in> set (vo_root_typ (toy_opts 1000))"
    "check_validity toy_user_claims (toy_opts 1000) (vo_require_exp (toy_opts 1000)) = Inr ()"
    "clock_exact (toy_opts 1000)" "vo_key_binding (toy_opts 1000) = TerminalLink ''shop'' ''n1''"
    "length [toy_mandate_link, toy_action_link] \<le> vo_max_links (toy_opts 1000)"
    "well_linked toy_crypto (toy_opts 1000) toy_user_claims [toy_mandate_link, toy_action_link]"
  using toy_links [of 1000] toy_clock(2) [of 1000] by (simp_all add: options_for_def policy_new_def)

theorem honest_delegate_chain_accepted_witness:
  "\<exists>input c. parse_and_verify toy_crypto input (sd_verifying_key_of toy_crypto toy_issuer) (toy_opts 1000) = Inr c
    \<and> map vl_claims (vc_links c) = [toy_user_claims, toy_mandate_claims, toy_closed_claims 60]"
proof -
  have "[toy_mandate_link, toy_action_link] \<noteq> []" by simp
  from honest_delegate_chain_accepted [OF toy_codecs toy_claims_wf(1) toy_claims_unreserved(1,4) toy_chain_opts(1,2) refl
      toy_chain_opts(3-7) this, of toy_rng 0 "''r''" toy_issuer "''r''"]
  have "\<exists>input c. parse_and_verify toy_crypto input (sd_verifying_key_of toy_crypto toy_issuer) (toy_opts 1000) = Inr c
      \<and> map vl_claims (vc_links c) = toy_user_claims # map hl_claims [toy_mandate_link, toy_action_link]"
    by (elim exE conjE) (rule exI, rule exI, rule conjI, assumption, assumption)
  then show ?thesis by (simp add: toy_mandate_link_def toy_action_link_def)
qed

text \<open>The same chain: both of its links are signed by the key named before and bound by hash.\<close>

theorem chain_is_signed_and_bound_witness:
  "\<exists>input c p key. parse_and_verify toy_crypto input (sd_verifying_key_of toy_crypto toy_issuer) (toy_opts 1000) = Inr c
    \<and> presentation_parse toy_crypto input = Inr p \<and> length (pn_links p) = 2
    \<and> names_key toy_crypto (vc_links c ! 1) key \<and> sd_jws_verify toy_crypto (sj_jws (pn_links p ! 1)) key = Inr ()
    \<and> bound_by_hash toy_crypto (jws_payload (sj_jws (pn_links p ! 1))) (pn_elements p ! 1) (vl_sd_alg (vc_links c ! 1))"
proof -
  have "[toy_mandate_link, toy_action_link] \<noteq> []" by simp
  from toy_codecs toy_claims_wf(1) toy_claims_unreserved(1,4) toy_chain_opts(1,2) refl toy_chain_opts(3-7) this
  obtain e p c h dg where *: "presentation_parse toy_crypto (presentation_serialize p) = Inr p"
    "length (pn_links p) = length [toy_mandate_link, toy_action_link]"
    "verify_chain toy_crypto p (sd_verifying_key_of toy_crypto toy_issuer) (toy_opts 1000) = Inr c"
    by (rule honest_chain [of toy_crypto toy_user_claims "toy_opts 1000" "''dc+sd-jwt''" "''dc+sd-jwt''" "''shop''" "''n1''"
        "[toy_mandate_link, toy_action_link]" toy_rng 0 "''r''" toy_issuer "''r''"])
  then have c: "parse_and_verify toy_crypto (presentation_serialize p) (sd_verifying_key_of toy_crypto toy_issuer)
      (toy_opts 1000) = Inr c" by (simp add: parse_and_verify_def)
  from chain_is_signed_and_bound [OF c] * c show ?thesis by force
qed

end
