(* ===== verification/AuthReplay.thy ===== *)
theory AuthReplay
  imports AuthHonest
begin

text \<open>
  Replay protection of nonces the agent chose (crates/authority/src/nonce.rs): the contract
  the verifier needs of a nonce store as a locale, the in-memory store as its model, and
  what follows for sequences of calls: when a nonce can be accepted a second time.
\<close>

section \<open>Sequences of calls\<close>

record v1_call =
  rq_input :: string
  rq_key :: sd_verifying_key
  rq_tx :: transaction_context
  rq_now :: i64

text \<open>The calls of one verifier in the order they take the lock of the store.\<close>

fun run_v1 ::
  "crypto \<Rightarrow> chrono \<Rightarrow> (message \<Rightarrow> string) \<Rightarrow> 's verifier_v1 \<Rightarrow> v1_call list \<Rightarrow> 's
   \<Rightarrow> (sd_error + decision) list \<times> 's" where
  "run_v1 C K render V [] s = ([], s)"
| "run_v1 C K render V (q # qs) s =
     (case verify_v1 C K render V (rq_input q) (rq_key q) (rq_tx q) (rq_now q) s of
        (r, s1) \<Rightarrow> (case run_v1 C K render V qs s1 of (rs, s2) \<Rightarrow> (r # rs, s2)))"

definition accepted :: "sd_error + decision \<Rightarrow> authorized \<Rightarrow> bool" where
  "accepted r a \<longleftrightarrow> (\<exists>d. r = Inr d \<and> de_outcome d = Inr a)"

text \<open>The nonce and the \<open>iat\<close> of the final binding of an authorized action.\<close>

definition binding_nonce :: "authorized \<Rightarrow> string option" where
  "binding_nonce a = obj_str (vl_envelope (vc_leaf (au_chain a))) ''nonce''"

definition binding_iat :: "authorized \<Rightarrow> i64" where
  "binding_iat a = (case Option.bind (obj_get (vl_envelope (vc_leaf (au_chain a))) ''iat'') as_f64 of
     Some x \<Rightarrow> f64_to_i64 x | None \<Rightarrow> 0)"

lemma granted_leaf: "granted C K V chain key tx now a leaf \<Longrightarrow> au_chain a = chain \<and> vc_leaf chain = leaf"
proof -
  assume "granted C K V chain key tx now a leaf"
  then obtain skipped opens where "drop skipped (vc_links chain) = opens @ [leaf]" "au_chain a = chain"
    unfolding granted_steps by blast
  moreover have "vc_links chain = take skipped (vc_links chain) @ drop skipped (vc_links chain)" by simp
  ultimately have "last (vc_links chain) = leaf" by (metis last_snoc append_assoc)
  with \<open>au_chain a = chain\<close> show ?thesis by (simp add: vc_leaf_def)
qed

text \<open>An accepted call whose nonce the agent chose has a fresh binding and recorded the nonce.\<close>

lemma verify_v1_accepted:
  assumes "verify_v1 C K render V input key tx now s = (r, s')" and "accepted r a"
    and "\<not> po_allow_unbound_root_mandate (ve_policy V)" and "tx_nonce tx = AgentGenerated"
  obtains n insert_nonce where "binding_nonce a = Some n" "ve_nonces V = Some insert_nonce"
    "binding_fresh (ve_policy V) now n (vc_leaf (au_chain a)) (binding_iat a)"
    "insert_nonce n (i64_wrap (binding_iat a + po_max_age (ve_policy V))) now s = (Inr True, s')"
proof -
  obtain pn where "check_presentation C K V pn key tx now s = (Inr a, s')"
    using assms(1,2)
    by (auto simp: verify_v1_def accepted_def Let_def split: sum.splits prod.splits)
  then have "authorizes C K V pn key tx now s a s'" by (simp add: check_presentation_Inr)
  then obtain kb nonce chain leaf where b: "choose_binding (ve_policy V) pn tx = Inr (kb, nonce)"
    and g: "granted C K V chain key tx now a leaf"
    and n: "case nonce of None \<Rightarrow> s' = s
         | Some n \<Rightarrow> \<exists>iat. binding_fresh (ve_policy V) now n leaf iat \<and> nonce_accepted V tx now n iat s s'"
    unfolding authorizes_steps by blast
  from b assms(3) obtain m where "nonce = Some m"
    by (auto simp: choose_binding_def split: if_splits)
  with n obtain iat where m: "binding_fresh (ve_policy V) now m leaf iat" "nonce_accepted V tx now m iat s s'" by auto
  have leaf: "vc_leaf (au_chain a) = leaf" using granted_leaf [OF g] by simp
  with m(1) have "binding_nonce a = Some m" "binding_iat a = iat"
    by (auto simp: binding_fresh_def binding_nonce_def binding_iat_def)
  with m that leaf assms(4) show ?thesis by (auto simp: nonce_accepted_def)
qed

text \<open>A call touches the store at most once.\<close>

lemma verify_v1_store:
  assumes "verify_v1 C K render V input key tx now s = (r, s')"
  shows "s' = s \<or> (\<exists>insert_nonce n e b. ve_nonces V = Some insert_nonce \<and> insert_nonce n e now s = (b, s'))"
proof -
  have replay: "s1 = s \<or> (\<exists>insert_nonce n e b. ve_nonces V = Some insert_nonce \<and> insert_nonce n e now s = (b, s1))"
    if "check_replay V leaf tx n now s = (c, s1)" for leaf n c s1
    using that by (auto simp: check_replay_def split: sum.splits if_splits option.splits prod.splits bool.splits)
  have "s1 = s \<or> (\<exists>insert_nonce n e b. ve_nonces V = Some insert_nonce \<and> insert_nonce n e now s = (b, s1))"
    if "check_presentation C K V pn key tx now s = (c, s1)" for pn c s1
    using that replay by (auto simp: check_presentation_def authorize_def split: sum.splits option.splits prod.splits)
  with assms show ?thesis
    by (auto simp: verify_v1_def Let_def split: sum.splits prod.splits)
qed

section \<open>What the verifier needs of a nonce store\<close>

text \<open>
  \<open>live s n t\<close>: in state \<open>s\<close> the store still answers "already used" for \<open>n\<close> at
  time \<open>t\<close>. A store that answers "new" did not know the nonce and knows it until the
  expiry it was given; no later call makes it forget a nonce before its time.
\<close>

locale replay_store =
  fixes insert_nonce :: "string \<Rightarrow> i64 \<Rightarrow> i64 \<Rightarrow> 's \<Rightarrow> (message + bool) \<times> 's"
    and live :: "'s \<Rightarrow> string \<Rightarrow> i64 \<Rightarrow> bool"
  assumes unseen: "insert_nonce n e now s = (Inr True, s') \<Longrightarrow> \<not> live s n now"
    and remembers: "insert_nonce n e now s = (Inr True, s') \<Longrightarrow> t < e \<Longrightarrow> live s' n t"
    and keeps: "insert_nonce m e now s = (r, s') \<Longrightarrow> live s n t \<Longrightarrow> now \<le> t \<Longrightarrow> live s' n t"
begin

lemma call_keeps:
  assumes "ve_nonces V = Some insert_nonce" and "verify_v1 C K render V input key tx now s = (r, s')"
    and "live s n t" "now \<le> t"
  shows "live s' n t"
  using verify_v1_store [OF assms(2)] keeps assms(1,3,4) by auto

lemma run_keeps:
  assumes "ve_nonces V = Some insert_nonce" and "run_v1 C K render V qs s = (rs, s')"
    and "live s n t" "\<forall>q \<in> set qs. rq_now q \<le> t"
  shows "live s' n t"
  using assms(2-4)
proof (induction qs arbitrary: s rs)
  case (Cons q qs)
  obtain r s1 where r: "verify_v1 C K render V (rq_input q) (rq_key q) (rq_tx q) (rq_now q) s = (r, s1)" by fastforce
  obtain rs1 s2 where rs1: "run_v1 C K render V qs s1 = (rs1, s2)" by fastforce
  from Cons.prems r rs1 have "s2 = s'" by simp
  moreover have "live s1 n t" using call_keeps [OF assms(1) r Cons.prems(2)] Cons.prems(3) by simp
  ultimately show ?case using Cons.IH rs1 Cons.prems(3) by simp
qed simp

lemma not_accepted_while_live:
  assumes "ve_nonces V = Some insert_nonce" and "verify_v1 C K render V input key tx now s = (r, s')"
    and "accepted r a" "\<not> po_allow_unbound_root_mandate (ve_policy V)" "tx_nonce tx = AgentGenerated"
    and "binding_nonce a = Some n"
  shows "\<not> live s n now"
  using verify_v1_accepted [OF assms(2-5)] unseen assms(1,6) by (metis option.inject)

text \<open>After an acceptance the nonce is not accepted before its expiry.\<close>

lemma no_second_acceptance:
  assumes "ve_nonces V = Some insert_nonce" and "run_v1 C K render V qs s = (rs, s')"
    and "\<not> po_allow_unbound_root_mandate (ve_policy V)"
    and "sorted (map rq_now qs)" and "j < length qs" and "accepted (rs ! j) b"
    and "tx_nonce (rq_tx (qs ! j)) = AgentGenerated" "binding_nonce b = Some n"
  shows "\<not> live s n (rq_now (qs ! j))"
  using assms(2,4-7)
proof (induction qs arbitrary: s rs s' j)
  case (Cons q qs)
  obtain r s1 where r: "verify_v1 C K render V (rq_input q) (rq_key q) (rq_tx q) (rq_now q) s = (r, s1)" by fastforce
  obtain rs1 s2 where rs1: "run_v1 C K render V qs s1 = (rs1, s2)" by fastforce
  from Cons.prems(1) r rs1 have rs: "rs = r # rs1" by simp
  show ?case
  proof (cases j)
    case 0
    with Cons.prems(4,5) rs not_accepted_while_live [OF assms(1) r _ assms(3) _ assms(8)] show ?thesis by simp
  next
    case (Suc i)
    with Cons.prems rs have "\<not> live s1 n (rq_now (qs ! i))" by (intro Cons.IH [OF rs1]) simp_all
    moreover have "rq_now q \<le> rq_now (qs ! i)" using Cons.prems(2,3) Suc by simp
    ultimately show ?thesis using call_keeps [OF assms(1) r] Suc by auto
  qed
qed simp

lemma accepted_again_after_expiry:
  assumes "ve_nonces V = Some insert_nonce" and "run_v1 C K render V qs s = (rs, s')"
    and "\<not> po_allow_unbound_root_mandate (ve_policy V)"
    and "sorted (map rq_now qs)" and "i < j" "j < length qs" and "accepted (rs ! i) a" "accepted (rs ! j) b"
    and "tx_nonce (rq_tx (qs ! i)) = AgentGenerated" "tx_nonce (rq_tx (qs ! j)) = AgentGenerated"
    and "binding_nonce a = binding_nonce b"
  shows "i64_wrap (binding_iat a + po_max_age (ve_policy V)) \<le> rq_now (qs ! j)"
  using assms(2,4-10)
proof (induction qs arbitrary: s rs s' i j)
  case (Cons q qs)
  obtain r s1 where r: "verify_v1 C K render V (rq_input q) (rq_key q) (rq_tx q) (rq_now q) s = (r, s1)" by fastforce
  obtain rs1 s2 where rs1: "run_v1 C K render V qs s1 = (rs1, s2)" by fastforce
  from Cons.prems(1) r rs1 have rs: "rs = r # rs1" by simp
  from Cons.prems(3) obtain j' where j: "j = Suc j'" by (cases j) auto
  show ?case
  proof (cases i)
    case 0
    with Cons.prems(5,7) rs have "accepted r a" "tx_nonce (rq_tx q) = AgentGenerated" by simp_all
    from verify_v1_accepted [OF r this(1) assms(3) this(2)] assms(1) obtain n where
      n: "binding_nonce a = Some n"
        "insert_nonce n (i64_wrap (binding_iat a + po_max_age (ve_policy V))) (rq_now q) s = (Inr True, s1)"
      by (metis option.inject)
    have "\<not> live s1 n (rq_now (qs ! j'))"
      using Cons.prems rs j n(1) assms(11) by (intro no_second_acceptance [OF assms(1) rs1 assms(3)]) simp_all
    with remembers [OF n(2)] show ?thesis using j by (simp add: not_less [symmetric]) blast
  next
    case (Suc i')
    with Cons.prems rs j show ?thesis by (simp, intro Cons.IH [OF rs1]) simp_all
  qed
qed simp

end

text \<open>The in-memory store keeps the contract.\<close>

definition remembered :: "nonce_map \<Rightarrow> string \<Rightarrow> i64 \<Rightarrow> bool" where
  "remembered seen n t \<longleftrightarrow> (\<exists>e. seen n = Some e \<and> t < e)"

interpretation memory_store: replay_store check_and_insert remembered
  by unfold_locales
    (auto simp: check_and_insert_def retain_live_def remembered_def Let_def split: if_splits option.splits)

section \<open>When a nonce is accepted again\<close>

lemma rat_trunc_bounds: "of_int m \<le> q \<Longrightarrow> m \<le> rat_trunc q" "q \<le> of_int m \<Longrightarrow> rat_trunc q \<le> m"
  unfolding rat_trunc_def by (auto simp: le_floor_iff floor_le_iff) linarith+

text \<open>Times a verifier meets, all exact as \<open>f64\<close>; JSON texts only hold finite numbers.\<close>

definition ordinary_times :: "policy \<Rightarrow> i64 \<Rightarrow> bool" where
  "ordinary_times p now \<longleftrightarrow> \<bar>now\<bar> \<le> 2 ^ 51 \<and> 0 \<le> po_max_age p \<and> po_max_age p \<le> 2 ^ 51
     \<and> 0 \<le> po_max_future p \<and> po_max_future p \<le> 2 ^ 51"

definition finite_iat :: "authorized \<Rightarrow> bool" where
  "finite_iat a \<longleftrightarrow> (\<exists>v q. obj_get (vl_envelope (vc_leaf (au_chain a))) ''iat'' = Some v \<and> as_f64 v = Some (Fin q))"

lemma fresh_iat_bounds:
  assumes "binding_fresh p now n (vc_leaf (au_chain a)) (binding_iat a)" and "ordinary_times p now" "finite_iat a"
  shows "now - po_max_age p \<le> binding_iat a" "binding_iat a \<le> now + po_max_future p"
proof -
  have exact: "f64_exact now" "f64_exact (po_max_age p)" "f64_exact (po_max_future p)"
    "f64_exact (now - po_max_age p)" "f64_exact (now + po_max_future p)"
    using assms(2) by (auto simp: ordinary_times_def f64_exact_def abs_le_iff)
  have bounds: "f64_of_int now - f64_of_int (po_max_age p) = Fin (of_int (now - po_max_age p))"
    "f64_of_int now + f64_of_int (po_max_future p) = Fin (of_int (now + po_max_future p))"
    using exact by (simp_all only: f64_of_int_exact f64_minus_exact f64_plus_exact)
  from assms(1,3) obtain q where q: "binding_iat a = f64_to_i64 (Fin q)"
    "of_int (now - po_max_age p) \<le> q" "q \<le> of_int (now + po_max_future p)"
    unfolding binding_fresh_def bounds finite_iat_def
    by (auto simp: not_less simp del: of_int_diff of_int_add)
  note trunc = rat_trunc_bounds(1) [OF q(2)] rat_trunc_bounds(2) [OF q(3)]
  moreover have "f64_to_i64 (Fin q) = rat_trunc q"
    using trunc assms(2) by (auto simp: f64_to_i64_def ordinary_times_def i64_min_def i64_max_def abs_le_iff)
  ultimately show "now - po_max_age p \<le> binding_iat a" "binding_iat a \<le> now + po_max_future p"
    using q(1) by simp_all
qed

lemma run_v1_nth:
  "run_v1 C K render V qs s = (rs, s') \<Longrightarrow> i < length qs \<Longrightarrow>
    \<exists>t t'. verify_v1 C K render V (rq_input (qs ! i)) (rq_key (qs ! i)) (rq_tx (qs ! i)) (rq_now (qs ! i)) t = (rs ! i, t')"
proof (induction qs arbitrary: s rs s' i)
  case (Cons q qs)
  show ?case
  proof (cases i)
    case 0
    with Cons.prems show ?thesis by (fastforce split: prod.splits)
  next
    case (Suc k)
    with Cons.prems Cons.IH [of _ _ s' k] show ?thesis by (auto split: prod.splits)
  qed
qed simp

lemma accepted_fresh:
  assumes "run_v1 C K render V qs s = (rs, s')" "i < length qs" "accepted (rs ! i) a"
    and "\<not> po_allow_unbound_root_mandate (ve_policy V)" "tx_nonce (rq_tx (qs ! i)) = AgentGenerated"
    and "ordinary_times (ve_policy V) (rq_now (qs ! i))" "finite_iat a"
  shows "rq_now (qs ! i) - po_max_age (ve_policy V) \<le> binding_iat a"
    "binding_iat a \<le> rq_now (qs ! i) + po_max_future (ve_policy V)"
proof -
  obtain t t' where "verify_v1 C K render V (rq_input (qs ! i)) (rq_key (qs ! i)) (rq_tx (qs ! i)) (rq_now (qs ! i)) t = (rs ! i, t')"
    using run_v1_nth [OF assms(1,2)] by blast
  then obtain n where "binding_fresh (ve_policy V) (rq_now (qs ! i)) n (vc_leaf (au_chain a)) (binding_iat a)"
    by (rule verify_v1_accepted [OF _ assms(3-5)])
  from fresh_iat_bounds [OF this assms(6,7)]
  show "rq_now (qs ! i) - po_max_age (ve_policy V) \<le> binding_iat a"
    "binding_iat a \<le> rq_now (qs ! i) + po_max_future (ve_policy V)" .
qed

text \<open>C10: Over any sequence of calls with a non-decreasing clock, a nonce the agent chose is
  accepted a second time only once max_age has passed since the iat of the first binding,
  by a binding that is not older, and one with the same iat only in the very second in
  which max_age ends.\<close>
theorem agent_nonce_accepted_again:
  assumes "run_v1 C K render V qs s = (rs, s')" and "ve_nonces V = Some check_and_insert"
    and "\<not> po_allow_unbound_root_mandate (ve_policy V)"
    and "sorted (map rq_now qs)" and "i < j" "j < length qs" and "accepted (rs ! i) a" "accepted (rs ! j) b"
    and "tx_nonce (rq_tx (qs ! i)) = AgentGenerated" "tx_nonce (rq_tx (qs ! j)) = AgentGenerated"
    and "binding_nonce a = binding_nonce b"
    and "\<forall>q \<in> set qs. ordinary_times (ve_policy V) (rq_now q)" "finite_iat a" "finite_iat b"
  shows "binding_iat a + po_max_age (ve_policy V) \<le> rq_now (qs ! j)
    \<and> binding_iat a \<le> binding_iat b
    \<and> (binding_iat b = binding_iat a \<longrightarrow> rq_now (qs ! j) = binding_iat a + po_max_age (ve_policy V))"
proof -
  from assms(5,6) have i: "i < length qs" by simp
  have times: "ordinary_times (ve_policy V) (rq_now (qs ! i))" "ordinary_times (ve_policy V) (rq_now (qs ! j))"
    using assms(6,12) i by simp_all
  note a = accepted_fresh [OF assms(1) i assms(7,3,9) times(1) assms(13)]
  note b = accepted_fresh [OF assms(1,6,8,3,10) times(2) assms(14)]
  have "i64_ok (binding_iat a + po_max_age (ve_policy V))"
    using a times(1) by (auto simp: ordinary_times_def i64_ok_def i64_min_def i64_max_def abs_le_iff)
  with memory_store.accepted_again_after_expiry [OF assms(2,1,3-11)]
  have "binding_iat a + po_max_age (ve_policy V) \<le> rq_now (qs ! j)" by simp
  with b show ?thesis by linarith
qed

section \<open>A replay in the last second\<close>

text \<open>The request of the concrete shop, presented at 1000 and again at 1300.\<close>

definition toy_tx :: transaction_context where "toy_tx = transaction_context_new AgentGenerated"

definition toy_input :: string where
  "toy_input = presentation_serialize (fst (projr (delegate_all toy_crypto toy_rng ''r'' 0
     (presentation_new (fst (projr (sd_jwt_builder_sign toy_crypto toy_rng 0
        (sd_jwt_builder_new ''dc+sd-jwt'' toy_user_claims) (key_signer toy_crypto ''r'' toy_issuer)))))
     [toy_mandate_link, toy_action_link])))"

definition toy_call :: "i64 \<Rightarrow> v1_call" where
  "toy_call now = \<lparr>rq_input = toy_input, rq_key = sd_verifying_key_of toy_crypto toy_issuer,
     rq_tx = toy_tx, rq_now = now\<rparr>"

lemma toy_call_accepted:
  assumes now: "1000 \<le> now" "now \<le> 1300" and "check_and_insert ''n1'' 1300 now s = (Inr True, s')"
  shows "\<exists>r a. verify_v1 toy_crypto monday_ten (\<lambda>m. []) toy_shop toy_input
      (sd_verifying_key_of toy_crypto toy_issuer) toy_tx now s = (r, s')
    \<and> accepted r a \<and> binding_nonce a = Some ''n1'' \<and> binding_iat a = 1000 \<and> finite_iat a"
proof -
  note nonce = toy_nonce [OF assms(3), folded toy_tx_def]
  obtain e p c h a where
    e: "sd_jwt_builder_sign toy_crypto toy_rng 0 (sd_jwt_builder_new ''dc+sd-jwt'' toy_user_claims)
        (key_signer toy_crypto ''r'' toy_issuer) = Inr (e, 0)"
    and p: "delegate_all toy_crypto toy_rng ''r'' 0 (presentation_new e) ([toy_mandate_link] @ [toy_action_link])
        = Inr (p, 0 + Suc (length [toy_mandate_link]))"
    "presentation_parse toy_crypto (presentation_serialize p) = Inr p"
    and a: "check_presentation toy_crypto monday_ten toy_shop p (sd_verifying_key_of toy_crypto toy_issuer) toy_tx now s
        = (Inr a, s')"
    "vl_envelope (vc_leaf (au_chain a)) = link_envelope h (hl_binding toy_action_link)"
    by (rule honest_authorized [OF toy_codecs toy_claims_wf(1) toy_claims_unreserved(1,4)
        toy_policy(1,2) refl toy_policy(3,4) refl toy_links(1) [OF now] toy_clock(2) [OF now] toy_links(2) [OF now]
        toy_policy(5) toy_mandates(4) [OF now] toy_mandates(1,2) [OF now] toy_action(1,2)
        toy_mandates(3) [OF now] toy_action(3) [folded toy_tx_def] nonce]) blast
  have input: "toy_input = presentation_serialize p" using e p(1) by (simp add: toy_input_def del: delegate_all.simps)
  obtain d s1 where d: "verify_v1 toy_crypto monday_ten (\<lambda>m. []) toy_shop (presentation_serialize p)
        (sd_verifying_key_of toy_crypto toy_issuer) toy_tx now s = (Inr d, s1)"
    "check_presentation toy_crypto monday_ten toy_shop p (sd_verifying_key_of toy_crypto toy_issuer) toy_tx now s
        = (de_outcome d, s1)"
    using verify_v1_receipt [OF toy_crypto_ok(1-3) toy_shop_simps(4) f64_exact_i64_ok [OF toy_clock(1) [OF now]], of monday_ten "\<lambda>m. []" "presentation_serialize p"
        "sd_verifying_key_of toy_crypto toy_issuer" toy_tx s p] p(2) by blast
  have "as_f64 (json_of_i64 1000) = Some (Fin 1000)" using as_f64_of_i64 [of 1000] by (simp add: f64_exact_def)
  then have "binding_nonce a = Some ''n1''" "binding_iat a = 1000" "finite_iat a"
    using a(2) by (simp_all add: binding_nonce_def binding_iat_def finite_iat_def link_envelope_def obj_str_def
      toy_action_link_def f64_to_i64_def rat_trunc_def i64_min_def i64_max_def)
  moreover have "s1 = s'" "de_outcome d = Inr a" using d(2) a(1) by simp_all
  ultimately show ?thesis using d(1) input by (auto simp: accepted_def)
qed

lemma toy_store:
  "check_and_insert ''n1'' 1300 1000 Map.empty = (Inr True, [''n1'' \<mapsto> 1300])"
  "check_and_insert ''n1'' 1300 1300 [''n1'' \<mapsto> 1300] = (Inr True, [''n1'' \<mapsto> 1300])"
  by (auto simp: check_and_insert_def retain_live_def fun_eq_iff)

lemma toy_replayed:
  obtains r1 r2 a b where "run_v1 toy_crypto monday_ten (\<lambda>m. []) toy_shop [toy_call 1000, toy_call 1300] Map.empty
      = ([r1, r2], [''n1'' \<mapsto> 1300])"
    "accepted r1 a" "accepted r2 b" "binding_nonce a = Some ''n1''" "binding_nonce b = Some ''n1''"
    "binding_iat a = 1000" "binding_iat b = 1000" "finite_iat a" "finite_iat b"
proof -
  obtain r1 a where 1: "verify_v1 toy_crypto monday_ten (\<lambda>m. []) toy_shop toy_input
      (sd_verifying_key_of toy_crypto toy_issuer) toy_tx 1000 Map.empty = (r1, [''n1'' \<mapsto> 1300])"
    "accepted r1 a" "binding_nonce a = Some ''n1''" "binding_iat a = 1000" "finite_iat a"
    using toy_call_accepted [OF _ _ toy_store(1)] by auto
  obtain r2 b where 2: "verify_v1 toy_crypto monday_ten (\<lambda>m. []) toy_shop toy_input
      (sd_verifying_key_of toy_crypto toy_issuer) toy_tx 1300 [''n1'' \<mapsto> 1300] = (r2, [''n1'' \<mapsto> 1300])"
    "accepted r2 b" "binding_nonce b = Some ''n1''" "binding_iat b = 1000" "finite_iat b"
    using toy_call_accepted [OF _ _ toy_store(2)] by auto
  from 1(1) 2(1) have "run_v1 toy_crypto monday_ten (\<lambda>m. []) toy_shop [toy_call 1000, toy_call 1300] Map.empty
      = ([r1, r2], [''n1'' \<mapsto> 1300])" by (simp add: toy_call_def)
  with that 1(2-5) 2(2-5) show ?thesis by blast
qed

lemma agent_nonce_replayed_in_its_last_second:
  "\<exists>r1 r2 a b. run_v1 toy_crypto monday_ten (\<lambda>m. []) toy_shop [toy_call 1000, toy_call 1300] Map.empty
      = ([r1, r2], [''n1'' \<mapsto> 1300])
    \<and> rq_input (toy_call 1000) = rq_input (toy_call 1300) \<and> accepted r1 a \<and> accepted r2 b
    \<and> binding_nonce a = Some ''n1'' \<and> binding_nonce b = Some ''n1''"
  by (rule toy_replayed) (auto simp: toy_call_def simp del: run_v1.simps)

theorem agent_nonce_accepted_again_witness:
  "\<exists>rs a b. run_v1 toy_crypto monday_ten (\<lambda>m. []) toy_shop [toy_call 1000, toy_call 1300] Map.empty
      = (rs, [''n1'' \<mapsto> 1300]) \<and> accepted (rs ! 0) a \<and> accepted (rs ! 1) b
    \<and> binding_iat a + po_max_age (ve_policy toy_shop) \<le> rq_now ([toy_call 1000, toy_call 1300] ! 1)"
proof -
  obtain r1 r2 a b where r: "run_v1 toy_crypto monday_ten (\<lambda>m. []) toy_shop [toy_call 1000, toy_call 1300] Map.empty
      = ([r1, r2], [''n1'' \<mapsto> 1300])" and acc: "accepted r1 a" "accepted r2 b"
    and n: "binding_nonce a = Some ''n1''" "binding_nonce b = Some ''n1''" and f: "finite_iat a" "finite_iat b"
    by (rule toy_replayed)
  have "\<not> po_allow_unbound_root_mandate (ve_policy toy_shop)" by (simp add: policy_new_def)
  from agent_nonce_accepted_again [OF r toy_shop_simps(2) this, of 0 1 a b] acc n f r
  show ?thesis
    by (intro exI [of _ "[r1, r2]"] exI [of _ a] exI [of _ b])
      (simp add: toy_call_def toy_tx_def transaction_context_new_def ordinary_times_def policy_new_def)
qed

end
