(* ===== verification/StdText.thy ===== *)
theory StdText
  imports Prelude
begin

text \<open>
  The pieces of the Rust standard library that the services use on text: \<open>trim\<close>, the ASCII
  classes, the parser of signed integers, and the address parser of \<open>std::net\<close>.
\<close>

section \<open>Text\<close>

definition in_range :: "nat \<Rightarrow> nat \<Rightarrow> char \<Rightarrow> bool" where
  "in_range lo hi c \<longleftrightarrow> lo \<le> (of_char c :: nat) \<and> (of_char c :: nat) \<le> hi"

definition ascii_upper :: "char \<Rightarrow> bool" where "ascii_upper c \<longleftrightarrow> in_range 65 90 c"
definition ascii_lower :: "char \<Rightarrow> bool" where "ascii_lower c \<longleftrightarrow> in_range 97 122 c"

definition ascii_alnum :: "char \<Rightarrow> bool" where
  "ascii_alnum c \<longleftrightarrow> ascii_upper c \<or> ascii_lower c \<or> is_digit c"

text \<open>The UTF-8 forms of the characters with the Unicode property White\_Space.\<close>

definition white_spaces :: "string list" where
  "white_spaces = map (map char_of)
     ([[n]. n \<leftarrow> [9, 10, 11, 12, 13, 32]] @ [[194, 133], [194, 160], [225, 154, 128]]
      @ [[226, 128, n]. n \<leftarrow> [128..<139]] @ [[226, 128, 168], [226, 128, 169], [226, 128, 175],
         [226, 129, 159], [227, 128, 128 :: nat]])"

fun strip_any :: "string list \<Rightarrow> string \<Rightarrow> string option" where
  "strip_any [] s = None"
| "strip_any (p # ps) s =
     (case strip_prefix p s of Some r \<Rightarrow> if length r < length s then Some r else None
      | None \<Rightarrow> strip_any ps s)"

lemma strip_any_shorter: "strip_any ps s = Some r \<Longrightarrow> length r < length s"
  by (induction ps) (auto split: option.splits if_splits)

function trim_front :: "string list \<Rightarrow> string \<Rightarrow> string" where
  "trim_front ps s = (case strip_any ps s of Some r \<Rightarrow> trim_front ps r | None \<Rightarrow> s)"
  by auto
termination
  by (relation "measure (length \<circ> snd)") (auto dest: strip_any_shorter)

declare trim_front.simps [simp del]

text \<open>\<open>str::trim\<close>.\<close>

definition trim :: "string \<Rightarrow> string" where
  "trim s = rev (trim_front (map rev white_spaces) (rev (trim_front white_spaces s)))"

text \<open>
  \<open>str::replace\<close> with a pattern that is not empty: from left to right, \<open>n\<close> characters of
  a match still to be skipped.
\<close>

fun replace_from :: "string \<Rightarrow> string \<Rightarrow> nat \<Rightarrow> string \<Rightarrow> string" where
  "replace_from p r n [] = []"
| "replace_from p r (Suc n) (c # s) = replace_from p r n s"
| "replace_from p r 0 (c # s) =
     (if take (length p) (c # s) = p then r @ replace_from p r (length p - 1) s
      else c # replace_from p r 0 s)"

definition replace_all :: "string \<Rightarrow> string \<Rightarrow> string \<Rightarrow> string" where
  "replace_all p r s = replace_from p r 0 s"

section \<open>Addresses\<close>

text \<open>
  \<open>IpAddr\<close> as its octets, and the readers of \<open>std::net\<close>: each consumes a prefix of the
  text and returns the rest. \<open>read_num radix n zeros\<close> reads up to \<open>n\<close> digits and
  refuses a longer run of them; \<open>zeros\<close> allows a leading zero before other digits. The
  callers' numbers are read into 8 bits (radix 10) or 16 bits.
\<close>

datatype ip_addr = IpV4 "nat list" | IpV6 "nat list"

definition to_digit :: "nat \<Rightarrow> char \<Rightarrow> nat option" where
  "to_digit radix c =
     (let n = of_char c :: nat;
          d = (if is_digit c then n - 48 else if ascii_lower c then n - 87
               else if ascii_upper c then n - 55 else radix)
      in if d < radix then Some d else None)"

fun read_digits :: "nat \<Rightarrow> string \<Rightarrow> nat list \<times> string" where
  "read_digits radix [] = ([], [])"
| "read_digits radix (c # s) =
     (case to_digit radix c of
        None \<Rightarrow> ([], c # s)
      | Some d \<Rightarrow> (let (ds, r) = read_digits radix s in (d # ds, r)))"

definition read_num :: "nat \<Rightarrow> nat \<Rightarrow> nat \<Rightarrow> bool \<Rightarrow> string \<Rightarrow> (nat \<times> string) option" where
  "read_num bound radix n zeros s =
     (let (ds, r) = read_digits radix s;
          v = foldl (\<lambda>v d. v * radix + d) 0 ds
      in if ds = [] \<or> n < length ds \<or> bound \<le> v \<or> (\<not> zeros \<and> 1 < length ds \<and> hd ds = 0)
         then None else Some (v, r))"

definition read_sep :: "char \<Rightarrow> nat \<Rightarrow> (string \<Rightarrow> 'a option) \<Rightarrow> string \<Rightarrow> 'a option" where
  "read_sep c i inner s =
     (if 0 < i then (case s of x # r \<Rightarrow> if x = c then inner r else None | [] \<Rightarrow> None) else inner s)"

fun read_octets :: "nat \<Rightarrow> nat \<Rightarrow> string \<Rightarrow> (nat list \<times> string) option" where
  "read_octets i 0 s = Some ([], s)"
| "read_octets i (Suc k) s =
     (case read_sep CHR ''.'' i (read_num 256 10 3 False) s of
        None \<Rightarrow> None
      | Some (v, r) \<Rightarrow> map_option (\<lambda>(vs, r'). (v # vs, r')) (read_octets (Suc i) k r))"

definition read_ipv4 :: "string \<Rightarrow> (nat list \<times> string) option" where
  "read_ipv4 s = read_octets 0 4 s"

text \<open>The groups read, whether the last two came from an embedded IPv4 address, the rest.\<close>

fun read_groups :: "nat \<Rightarrow> nat \<Rightarrow> string \<Rightarrow> nat list \<times> bool \<times> string" where
  "read_groups i 0 s = ([], False, s)"
| "read_groups i (Suc k) s =
     (case (if 0 < k then read_sep CHR '':'' i read_ipv4 s else None) of
        Some (v4, r) \<Rightarrow> ([v4 ! 0 * 256 + v4 ! 1, v4 ! 2 * 256 + v4 ! 3], True, r)
      | None \<Rightarrow>
          (case read_sep CHR '':'' i (read_num 65536 16 4 True) s of
             None \<Rightarrow> ([], False, s)
           | Some (g, r) \<Rightarrow> (let (gs, v4, r') = read_groups (Suc i) k r in (g # gs, v4, r'))))"

definition group_octets :: "nat list \<Rightarrow> nat list" where
  "group_octets gs = concat (map (\<lambda>g. [g div 256, g mod 256]) gs)"

definition read_ipv6 :: "string \<Rightarrow> (nat list \<times> string) option" where
  "read_ipv6 s =
     (let (front, v4, r) = read_groups 0 8 s in
      if length front = 8 then Some (group_octets front, r)
      else if v4 then None
      else (case strip_prefix ''::'' r of
          None \<Rightarrow> None
        | Some r' \<Rightarrow>
            let (back, _, r'') = read_groups 0 (8 - (length front + 1)) r'
            in Some (group_octets (front @ replicate (8 - length front - length back) 0 @ back), r'')))"

definition read_ip :: "string \<Rightarrow> (ip_addr \<times> string) option" where
  "read_ip s =
     (case read_ipv4 s of
        Some (v, r) \<Rightarrow> Some (IpV4 v, r)
      | None \<Rightarrow> map_option (\<lambda>(v, r). (IpV6 v, r)) (read_ipv6 s))"

text \<open>\<open>str::parse::<IpAddr>\<close>: the whole text must be read.\<close>

definition parse_ip :: "string \<Rightarrow> ip_addr option" where
  "parse_ip s = (case read_ip s of Some (a, []) \<Rightarrow> Some a | _ \<Rightarrow> None)"

text \<open>\<open>str::parse::<SocketAddr>\<close>; the scope id of an IPv6 address is not kept.\<close>

definition read_port :: "string \<Rightarrow> (nat \<times> string) option" where
  "read_port s = (case s of x # r \<Rightarrow> if x = CHR '':'' then read_num 65536 10 (length r) True r else None
     | [] \<Rightarrow> None)"

definition read_scope :: "string \<Rightarrow> string" where
  "read_scope s =
     (case s of
        x # r \<Rightarrow> if x = CHR ''%'' then (case read_num (2 ^ 32) 10 (length r) True r of
                    Some (_, r') \<Rightarrow> r' | None \<Rightarrow> s) else s
      | [] \<Rightarrow> s)"

definition parse_socket :: "string \<Rightarrow> (ip_addr \<times> nat) option" where
  "parse_socket s =
     (case Option.bind (read_ipv4 s) (\<lambda>(v, r). map_option (\<lambda>(p, r'). (IpV4 v, p, r')) (read_port r)) of
        Some (a, p, r) \<Rightarrow> if r = [] then Some (a, p) else None
      | None \<Rightarrow>
          Option.bind (strip_prefix ''['' s) (\<lambda>r0.
          Option.bind (read_ipv6 r0) (\<lambda>(v, r1).
          Option.bind (strip_prefix '']'' (read_scope r1)) (\<lambda>r2.
          Option.bind (read_port r2) (\<lambda>(p, r3). if r3 = [] then Some (IpV6 v, p) else None)))))"

section \<open>Signed integers\<close>

text \<open>\<open>str::parse::<i64>\<close>.\<close>

definition parse_i64 :: "string \<Rightarrow> i64 option" where
  "parse_i64 s =
     (let neg = (case s of c # _ \<Rightarrow> c = CHR ''-'' | [] \<Rightarrow> False);
          ds = (case s of c # r \<Rightarrow> if c = CHR ''+'' \<or> c = CHR ''-'' then r else s | [] \<Rightarrow> s);
          v = (if neg then - int (digits_value ds) else int (digits_value ds))
      in if ds \<noteq> [] \<and> list_all is_digit ds \<and> i64_ok v then Some v else None)"

section \<open>Request headers\<close>

text \<open>
  The lines of a request's header, their names in lower case as the http crate keeps them.
  \<open>HeaderMap::get\<close> finds the first line of a name; \<open>to_str\<close> wants visible ASCII, space or
  tab.
\<close>

type_synonym headers = "(string \<times> bytes) list"

definition header_get :: "headers \<Rightarrow> string \<Rightarrow> bytes option" where
  "header_get hs name = map_option snd (find (\<lambda>(n, _). n = name) hs)"

definition visible_ascii :: "char \<Rightarrow> bool" where
  "visible_ascii c \<longleftrightarrow> (of_char c :: nat) = 9 \<or> 32 \<le> (of_char c :: nat) \<and> (of_char c :: nat) < 127"

definition header_to_str :: "bytes \<Rightarrow> string option" where
  "header_to_str v = (if list_all visible_ascii v then Some v else None)"

end
