(* ===== verification/IssuerLib.thy ===== *)
theory IssuerLib
  imports CoreJws StdText
begin

text \<open>
  What the issuer service calls outside the repository, as parameters: the CBOR decoder of
  \<open>ciborium\<close> (with its \<open>Value\<close> type), the certificates of \<open>x509-parser\<close>, the SEC1 and
  DER readers of \<open>p256\<close>, and the standard base64 alphabet. A certificate is the record
  of what the service reads of it.
\<close>

section \<open>Decoders and certificates\<close>

datatype cbor =
    CInteger int
  | CBytes bytes
  | CFloat f64
  | CText string
  | CBool bool
  | CNull
  | CTag u64 cbor
  | CArray "cbor list"
  | CMap "(cbor \<times> cbor) list"

fun cbor_as_map :: "cbor \<Rightarrow> (cbor \<times> cbor) list option" where
  "cbor_as_map (CMap m) = Some m"
| "cbor_as_map _ = None"

fun cbor_as_text :: "cbor \<Rightarrow> string option" where
  "cbor_as_text (CText s) = Some s"
| "cbor_as_text _ = None"

fun cbor_as_bytes :: "cbor \<Rightarrow> bytes option" where
  "cbor_as_bytes (CBytes b) = Some b"
| "cbor_as_bytes _ = None"

fun cbor_as_array :: "cbor \<Rightarrow> cbor list option" where
  "cbor_as_array (CArray xs) = Some xs"
| "cbor_as_array _ = None"

text \<open>
  \<open>spki_algorithm\<close> and \<open>spki_data\<close> are the two fields of a SubjectPublicKeyInfo;
  \<open>x_basic_ca\<close> is \<open>basic_constraints()\<close> reduced to its \<open>ca\<close> bit: \<open>Inl ()\<close> a
  parse error, \<open>Inr None\<close> no such extension.
\<close>

record spki =
  spki_algorithm :: bytes
  spki_data :: bytes

record x509 =
  x_tbs :: bytes
  x_signature :: bytes
  x_public_key :: spki
  x_is_ca :: bool
  x_basic_ca :: "unit + bool option"
  x_extensions :: "(string \<times> bytes) list"
  x_not_before :: int
  x_not_after :: int

text \<open>
  \<open>x509_verify c None\<close> checks a certificate's signature with its own key. A P-256 key
  read from its SEC1 form is its two coordinates, a DER signature its fixed form.
\<close>

record attest_lib =
  std_encode :: "bytes \<Rightarrow> string"
  std_decode :: "string \<Rightarrow> bytes option"
  cbor_read :: "bytes \<Rightarrow> cbor option"
  x509_from_der :: "bytes \<Rightarrow> x509 option"
  pem_read :: "bytes \<Rightarrow> bytes option"
  pem_parse_x509 :: "bytes \<Rightarrow> x509 option"
  x509_verify :: "x509 \<Rightarrow> spki option \<Rightarrow> bool"
  asn1_time :: "i64 \<Rightarrow> int option"
  sec1_key :: "bytes \<Rightarrow> (bytes \<times> bytes) option"
  sig_from_der :: "bytes \<Rightarrow> bytes option"

text \<open>\<open>Validity::is_valid_at\<close>: both ends are included.\<close>

definition valid_at :: "x509 \<Rightarrow> int \<Rightarrow> bool" where
  "valid_at c t \<longleftrightarrow> x_not_before c \<le> t \<and> t \<le> x_not_after c"

text \<open>An early return, read backwards from a success.\<close>

lemma guard_eq_Inr: "(if b then Inl e else m) = Inr x \<longleftrightarrow> \<not> b \<and> m = Inr x"
  by simp

end
