(* ===== verification/IssuerConfig.thy ===== *)
theory IssuerConfig
  imports IssuerLib
begin

text \<open>
  The issuer service's configuration and its error responses
  (crates/issuer-service/src/config.rs and error.rs): the environment the process reads,
  the checks that stop it before it listens, and the stable codes an error is answered with.
\<close>

section \<open>Configuration\<close>

datatype deploy_env = Staging | Production

fun env_as_str :: "deploy_env \<Rightarrow> string" where
  "env_as_str Staging = ''staging''"
| "env_as_str Production = ''production''"

datatype config_error = Missing string | InvalidValue string | DevelopmentInProduction

fun config_error_text :: "config_error \<Rightarrow> message" where
  "config_error_text (Missing n) = [Lit n, Lit '' must be set'']"
| "config_error_text (InvalidValue n) = [Lit n, Lit '' has an invalid value'']"
| "config_error_text DevelopmentInProduction =
     [Lit ''ISSUER_ALLOW_DEVELOPMENT_AAGUID=true is not allowed when ISSUER_ENV=production'']"

record rate_limits =
  challenge_per_min :: u32
  enrollment_per_min :: u32
  assertion_per_min :: u32

text \<open>\<open>challenge_ttl\<close> is a \<open>Duration\<close> in nanoseconds.\<close>

record config =
  cfg_env :: deploy_env
  cfg_bind :: "ip_addr \<times> nat"
  cfg_database_url :: string
  cfg_app_ids :: "string list"
  allow_development :: bool
  client_ip_header :: "string option"
  challenge_ttl :: nat
  cfg_rate_limits :: rate_limits

fun parse_bool :: "string \<Rightarrow> string option \<Rightarrow> config_error + bool" where
  "parse_bool name None = Inr False"
| "parse_bool name (Some v) =
     (if v = ''false'' then Inr False else if v = ''true'' then Inr True
      else Inl (InvalidValue name))"

definition valid_app_id :: "string \<Rightarrow> bool" where
  "valid_app_id ident =
     (case split_once CHR ''.'' ident of
        Some (team, bundle) \<Rightarrow>
          length team = 10 \<and> list_all (\<lambda>b. ascii_upper b \<or> is_digit b) team
          \<and> bundle \<noteq> [] \<and> length bundle \<le> 155
          \<and> list_all (\<lambda>b. ascii_alnum b \<or> b = CHR ''.'' \<or> b = CHR ''-'') bundle
      | None \<Rightarrow> False)"

fun config_u32 :: "string \<Rightarrow> string option \<Rightarrow> u32 \<Rightarrow> config_error + u32" where
  "config_u32 name None dflt = Inr dflt"
| "config_u32 name (Some s) dflt =
     (case parse_uint 32 s of
        Some n \<Rightarrow> if 0 < n then Inr (of_nat n) else Inl (InvalidValue name)
      | None \<Rightarrow> Inl (InvalidValue name))"

definition read_env :: "string option \<Rightarrow> config_error + deploy_env" where
  "read_env v =
     (case v of
        Some s \<Rightarrow> if s = ''staging'' then Inr Staging else if s = ''production'' then Inr Production
                  else Inl (InvalidValue ''ISSUER_ENV'')
      | None \<Rightarrow> Inl (Missing ''ISSUER_ENV''))"

definition read_app_ids :: "string option \<Rightarrow> config_error + string list" where
  "read_app_ids v =
     rbind (ok_or v (Missing ''ISSUER_APP_IDS'')) (\<lambda>s.
     let ids = map trim (split_on CHR '','' s) in
     if ids = [] \<or> \<not> list_all valid_app_id ids then Inl (InvalidValue ''ISSUER_APP_IDS'')
     else Inr ids)"

definition read_bind :: "string option \<Rightarrow> config_error + ip_addr \<times> nat" where
  "read_bind v =
     ok_or (parse_socket (case v of None \<Rightarrow> ''127.0.0.1:3010'' | Some s \<Rightarrow> s))
       (InvalidValue ''ISSUER_BIND'')"

definition read_ip_header :: "string option \<Rightarrow> config_error + string option" where
  "read_ip_header v =
     (case map_option to_ascii_lowercase v of
        None \<Rightarrow> Inr None
      | Some h \<Rightarrow>
          if h = [] \<or> \<not> list_all (\<lambda>b. ascii_alnum b \<or> b = CHR ''-'') h
          then Inl (InvalidValue ''ISSUER_CLIENT_IP_HEADER'') else Inr (Some h))"

definition read_rate :: "(string \<Rightarrow> string option) \<Rightarrow> string \<Rightarrow> u32 \<Rightarrow> config_error + u32" where
  "read_rate get name dflt = config_u32 name (get name) dflt"

definition from_lookup :: "(string \<Rightarrow> string option) \<Rightarrow> config_error + config" where
  "from_lookup get =
     rbind (read_env (get ''ISSUER_ENV'')) (\<lambda>env.
     rbind (parse_bool ''ISSUER_ALLOW_DEVELOPMENT_AAGUID'' (get ''ISSUER_ALLOW_DEVELOPMENT_AAGUID''))
       (\<lambda>dev.
     if env = Production \<and> dev then Inl DevelopmentInProduction
     else
     rbind (ok_or (get ''ISSUER_DATABASE_URL'') (Missing ''ISSUER_DATABASE_URL'')) (\<lambda>url.
     rbind (read_app_ids (get ''ISSUER_APP_IDS'')) (\<lambda>ids.
     rbind (read_bind (get ''ISSUER_BIND'')) (\<lambda>addr.
     rbind (read_ip_header (get ''ISSUER_CLIENT_IP_HEADER'')) (\<lambda>hdr.
     rbind (read_rate get ''ISSUER_RATE_CHALLENGE_PER_MIN'' 20) (\<lambda>challenges.
     rbind (read_rate get ''ISSUER_RATE_ENROLLMENT_PER_MIN'' 10) (\<lambda>enrollments.
     rbind (read_rate get ''ISSUER_RATE_ASSERTION_PER_MIN'' 120) (\<lambda>assertions.
     Inr \<lparr>cfg_env = env, cfg_bind = addr, cfg_database_url = url, cfg_app_ids = ids,
       allow_development = dev, client_ip_header = hdr, challenge_ttl = 300 * 10 ^ 9,
       cfg_rate_limits = \<lparr>challenge_per_min = challenges, enrollment_per_min = enrollments,
         assertion_per_min = assertions\<rparr>\<rparr>)))))))))"

text \<open>The settings of the \<open>migrate\<close> subcommand.\<close>

record migrate_config =
  mig_database_url :: string
  mig_app_role :: string

definition valid_role_name :: "string \<Rightarrow> bool" where
  "valid_role_name name \<longleftrightarrow>
     name \<noteq> [] \<and> length name \<le> 63 \<and> ascii_lower (hd name)
     \<and> list_all (\<lambda>b. ascii_lower b \<or> is_digit b \<or> b = CHR ''_'') name"

definition migrate_from_env :: "(string \<Rightarrow> string option) \<Rightarrow> config_error + migrate_config" where
  "migrate_from_env get =
     rbind (ok_or (get ''ISSUER_MIGRATE_DATABASE_URL'') (Missing ''ISSUER_MIGRATE_DATABASE_URL''))
       (\<lambda>url.
     let role = (case get ''ISSUER_APP_ROLE'' of None \<Rightarrow> ''aap_issuer_app'' | Some r \<Rightarrow> r) in
     if \<not> valid_role_name role then Inl (InvalidValue ''ISSUER_APP_ROLE'')
     else Inr \<lparr>mig_database_url = url, mig_app_role = role\<rparr>)"

section \<open>Errors\<close>

datatype api_error =
    BadRequest string
  | PayloadTooLarge
  | InvalidChallenge
  | Rejected string string
  | UnknownDevice
  | DeviceNotActive
  | AlreadyEnrolled
  | AssertionReplay
  | CounterConflict
  | RateLimited
  | Internal

fun api_status :: "api_error \<Rightarrow> nat" where
  "api_status (BadRequest _) = 400"
| "api_status InvalidChallenge = 400"
| "api_status PayloadTooLarge = 413"
| "api_status (Rejected _ _) = 422"
| "api_status UnknownDevice = 404"
| "api_status DeviceNotActive = 403"
| "api_status AlreadyEnrolled = 409"
| "api_status AssertionReplay = 409"
| "api_status CounterConflict = 409"
| "api_status RateLimited = 429"
| "api_status Internal = 500"

fun api_code :: "api_error \<Rightarrow> string" where
  "api_code (BadRequest _) = ''bad_request''"
| "api_code PayloadTooLarge = ''payload_too_large''"
| "api_code InvalidChallenge = ''invalid_challenge''"
| "api_code (Rejected err _) = err"
| "api_code UnknownDevice = ''unknown_device''"
| "api_code DeviceNotActive = ''device_not_active''"
| "api_code AlreadyEnrolled = ''already_enrolled''"
| "api_code AssertionReplay = ''assertion_replay''"
| "api_code CounterConflict = ''counter_conflict''"
| "api_code RateLimited = ''rate_limited''"
| "api_code Internal = ''internal''"

fun api_reason :: "api_error \<Rightarrow> string option" where
  "api_reason (BadRequest r) = Some r"
| "api_reason (Rejected _ r) = Some r"
| "api_reason _ = None"

definition api_response :: "api_error \<Rightarrow> nat \<times> json" where
  "api_response e =
     (api_status e,
      case api_reason e of
        Some r \<Rightarrow> JObj [(''error'', JStr (api_code e)), (''reason'', JStr r)]
      | None \<Rightarrow> JObj [(''error'', JStr (api_code e))])"

section \<open>What a configuration satisfies\<close>

lemma read_app_ids_Inr:
  "read_app_ids v = Inr ids \<Longrightarrow> ids \<noteq> [] \<and> list_all valid_app_id ids"
  by (auto simp: read_app_ids_def Let_def split: if_splits)

lemma config_u32_pos: "config_u32 name v dflt = Inr n \<Longrightarrow> 0 < dflt \<Longrightarrow> 0 < n"
proof (cases v)
  case (Some s)
  assume *: "config_u32 name v dflt = Inr n"
  then obtain k where k: "parse_uint 32 s = Some k" "0 < k" "n = of_nat k"
    using Some by (auto split: option.splits if_splits)
  from parse_uint_bound [OF k(1)] have "unat n = k"
    using k(3) by (simp add: unat_of_nat)
  with k(2) show ?thesis by (simp add: word_less_nat_alt)
qed simp

lemma from_lookup_Inr:
  assumes "from_lookup get = Inr cfg"
  shows "cfg_env cfg = Production \<Longrightarrow> \<not> allow_development cfg"
    and "cfg_app_ids cfg \<noteq> []" and "list_all valid_app_id (cfg_app_ids cfg)"
    and "get ''ISSUER_ENV'' = Some (env_as_str (cfg_env cfg))"
    and "challenge_ttl cfg = 300 * 10 ^ 9"
  using assms
  by (auto simp: from_lookup_def read_env_def dest: read_app_ids_Inr split: if_splits option.splits)

end
