(* ===== verification/IssuerAttest.thy ===== *)
theory IssuerAttest
  imports IssuerConfig
begin

text \<open>
  The evidence the issuer service checks (crates/issuer-service/src/jwk.rs and
  appattest.rs): the principal's public key and its thumbprint, and Apple App Attest
  attestations and assertions with their authenticator data. The root certificate's bytes
  are an argument.
\<close>

section \<open>The principal's key\<close>

record jwk_in =
  ji_kty :: string
  ji_crv :: string
  ji_x :: string
  ji_y :: string

record valid_jwk =
  vj_jwk :: public_key_jwk
  vj_thumbprint :: bytes
  vj_key :: verifying_key

definition canonical_coordinate :: "crypto \<Rightarrow> string \<Rightarrow> bool" where
  "canonical_coordinate C s \<longleftrightarrow>
     length s = 43
     \<and> (case b64_decode C s of Inr b \<Rightarrow> length b = 32 \<and> b64_encode C b = s | Inl _ \<Rightarrow> False)"

definition thumbprint :: "crypto \<Rightarrow> string \<Rightarrow> string \<Rightarrow> bytes" where
  "thumbprint C x y =
     sha256 C (''{\"crv\":\"P-256\",\"kty\":\"EC\",\"x\":\"'' @ x @ ''\",\"y\":\"'' @ y @ ''\"}'')"

definition jwk_validate :: "crypto \<Rightarrow> jwk_in \<Rightarrow> string + valid_jwk" where
  "jwk_validate C input =
     (if ji_kty input \<noteq> ''EC'' \<or> ji_crv input \<noteq> ''P-256'' then Inl ''jwk_not_p256''
      else if \<not> canonical_coordinate C (ji_x input) \<or> \<not> canonical_coordinate C (ji_y input)
      then Inl ''jwk_bad_coordinates''
      else
        let jwk = \<lparr>kty = ji_kty input, crv = ji_crv input, jwk_x = ji_x input, jwk_y = Some (ji_y input)\<rparr> in
        rbind (map_err (\<lambda>_. ''jwk_not_on_curve'') (jwk_to_public_key C jwk)) (\<lambda>key.
        Inr \<lparr>vj_jwk = jwk, vj_thumbprint = thumbprint C (ji_x input) (ji_y input), vj_key = key\<rparr>))"

section \<open>App Attest data\<close>

definition NONCE_EXTENSION_OID :: string where
  "NONCE_EXTENSION_OID = ''1.2.840.113635.100.8.2''"

definition AAGUID_DEVELOPMENT :: bytes where
  "AAGUID_DEVELOPMENT = ''appattestdevelop''"

definition AAGUID_PRODUCTION :: bytes where
  "AAGUID_PRODUCTION = ''appattest'' @ replicate 7 (char_of (0 :: nat))"

datatype attest_env = EnvDevelopment | EnvProduction

fun attest_env_as_str :: "attest_env \<Rightarrow> string" where
  "attest_env_as_str EnvDevelopment = ''development''"
| "attest_env_as_str EnvProduction = ''production''"

datatype app_attest_error =
    ACbor | AStructure | AFormat | ACertParse | AChainInvalid | ACertExpired
  | ANonceExtension | ANonceMismatch | AKeyIdMismatch | AAuthData | ARpIdNotAllowed
  | ACounterNotZero | AAaguidUnknown | ADevelopmentNotAccepted | ACredentialIdMismatch
  | ABadSignature | AAssertionRpIdMismatch | ABadPublicKey

fun attest_code :: "app_attest_error \<Rightarrow> string" where
  "attest_code ACbor = ''cbor''"
| "attest_code AStructure = ''structure''"
| "attest_code AFormat = ''format''"
| "attest_code ACertParse = ''cert_parse''"
| "attest_code AChainInvalid = ''chain_invalid''"
| "attest_code ACertExpired = ''cert_expired''"
| "attest_code ANonceExtension = ''nonce_extension''"
| "attest_code ANonceMismatch = ''nonce_mismatch''"
| "attest_code AKeyIdMismatch = ''key_id_mismatch''"
| "attest_code AAuthData = ''auth_data''"
| "attest_code ARpIdNotAllowed = ''rp_id_not_allowed''"
| "attest_code ACounterNotZero = ''counter_not_zero''"
| "attest_code AAaguidUnknown = ''aaguid_unknown''"
| "attest_code ADevelopmentNotAccepted = ''development_not_accepted''"
| "attest_code ACredentialIdMismatch = ''credential_id_mismatch''"
| "attest_code ABadSignature = ''bad_signature''"
| "attest_code AAssertionRpIdMismatch = ''assertion_rp_id_mismatch''"
| "attest_code ABadPublicKey = ''bad_public_key''"

record attest_policy =
  pol_app_ids :: "string list"
  pol_allow_development :: bool

record attested_key =
  ak_public_key :: bytes
  ak_environment :: attest_env
  ak_app_id :: string

record auth_data =
  ad_rp_id_hash :: bytes
  ad_counter :: u32
  ad_aaguid :: "bytes option"
  ad_credential_id :: "bytes option"

definition byte_at :: "bytes \<Rightarrow> nat \<Rightarrow> nat" where
  "byte_at bs i = of_char (bs ! i)"

definition be_value :: "bytes \<Rightarrow> nat" where
  "be_value bs = foldl (\<lambda>n c. n * 256 + of_char c) 0 bs"

definition sub_bytes :: "nat \<Rightarrow> nat \<Rightarrow> 'a list \<Rightarrow> 'a list" where
  "sub_bytes i j xs = drop i (take j xs)"

definition parse_auth_data :: "bytes \<Rightarrow> app_attest_error + auth_data" where
  "parse_auth_data data =
     (if length data < 37 then Inl AAuthData
      else
        let flags = (of_nat (byte_at data 32) :: 8 word);
            counter = (of_nat (be_value (sub_bytes 33 37 data)) :: u32);
            done = (\<lambda>aaguid cred. Inr \<lparr>ad_rp_id_hash = sub_bytes 0 32 data, ad_counter = counter,
              ad_aaguid = aaguid, ad_credential_id = cred\<rparr>)
        in if bit flags 6 \<and> 37 < length data then
             (if length data < 55 then Inl AAuthData
              else
                let len = be_value (sub_bytes 53 55 data) in
                if length data < 55 + len then Inl AAuthData
                else done (Some (sub_bytes 37 53 data)) (Some (sub_bytes 55 (55 + len) data)))
           else done None None)"

definition cbor_map_get :: "cbor \<Rightarrow> string \<Rightarrow> app_attest_error + cbor" where
  "cbor_map_get m key =
     rbind (ok_or (cbor_as_map m) AStructure) (\<lambda>entries.
     ok_or (map_option snd (find (\<lambda>(k, _). cbor_as_text k = Some key) entries)) AStructure)"

definition cbor_bytes :: "cbor \<Rightarrow> app_attest_error + bytes" where
  "cbor_bytes v = ok_or (cbor_as_bytes v) AStructure"

definition nonce_from_extension :: "bytes \<Rightarrow> app_attest_error + bytes" where
  "nonce_from_extension value =
     (if length value \<noteq> 38 \<or> byte_at value 0 \<noteq> 0x30 \<or> byte_at value 1 \<noteq> 36
         \<or> byte_at value 2 \<noteq> 0xa1 \<or> byte_at value 3 \<noteq> 34 \<or> byte_at value 4 \<noteq> 0x04
         \<or> byte_at value 5 \<noteq> 32
      then Inl ANonceExtension else Inr (drop 6 value))"

definition sha256_concat :: "crypto \<Rightarrow> bytes \<Rightarrow> bytes \<Rightarrow> bytes" where
  "sha256_concat C a b = sha256 C (a @ b)"

definition match_app_id :: "crypto \<Rightarrow> bytes \<Rightarrow> string list \<Rightarrow> string option" where
  "match_app_id C rp_id_hash app_ids = find (\<lambda>ident. sha256 C ident = rp_id_hash) app_ids"

section \<open>Attestations\<close>

text \<open>Step 1: the certificate chain, its signatures first, then its validity.\<close>

definition check_chain :: "attest_lib \<Rightarrow> bytes \<Rightarrow> cbor list \<Rightarrow> i64 \<Rightarrow> app_attest_error + x509" where
  "check_chain L root_pem x5c now_unix =
     rbind (rbind (cbor_bytes (x5c ! 0)) (\<lambda>d. ok_or (x509_from_der L d) ACertParse)) (\<lambda>leaf.
     rbind (rbind (cbor_bytes (x5c ! 1)) (\<lambda>d. ok_or (x509_from_der L d) ACertParse)) (\<lambda>mid.
     rbind (ok_or (pem_read L root_pem) ACertParse) (\<lambda>pem.
     rbind (ok_or (pem_parse_x509 L pem) ACertParse) (\<lambda>root_cert.
     if \<not> x509_verify L root_cert None then Inl AChainInvalid
     else if \<not> x509_verify L mid (Some (x_public_key root_cert)) then Inl AChainInvalid
     else if \<not> x509_verify L leaf (Some (x_public_key mid)) then Inl AChainInvalid
     else if \<not> x_is_ca mid then Inl AChainInvalid
     else if x_basic_ca leaf = Inr (Some True) then Inl AChainInvalid
     else
       rbind (ok_or (asn1_time L now_unix) ACertExpired) (\<lambda>now.
       if \<not> (valid_at leaf now \<and> valid_at mid now \<and> valid_at root_cert now)
       then Inl ACertExpired else Inr leaf)))))"

text \<open>Step 8: the environment the authenticator names, under the deployment's policy.\<close>

definition attested_environment :: "attest_policy \<Rightarrow> bytes \<Rightarrow> app_attest_error + attest_env" where
  "attested_environment pol a =
     (if a = AAGUID_PRODUCTION then Inr EnvProduction
      else if a = AAGUID_DEVELOPMENT then
        (if \<not> pol_allow_development pol then Inl ADevelopmentNotAccepted else Inr EnvDevelopment)
      else Inl AAaguidUnknown)"

definition verify_attestation_with_root ::
  "crypto \<Rightarrow> attest_lib \<Rightarrow> bytes \<Rightarrow> bytes \<Rightarrow> bytes \<Rightarrow> bytes \<Rightarrow> attest_policy \<Rightarrow> i64 \<Rightarrow> app_attest_error + attested_key"
where
  "verify_attestation_with_root C L root_pem attestation key_id client_data_hash pol now_unix =
     rbind (ok_or (cbor_read L attestation) ACbor) (\<lambda>obj.
     rbind (cbor_map_get obj ''fmt'') (\<lambda>fmt.
     if cbor_as_text fmt \<noteq> Some ''apple-appattest'' then Inl AFormat
     else
     rbind (cbor_map_get obj ''attStmt'') (\<lambda>att_stmt.
     rbind (rbind (cbor_map_get obj ''authData'') cbor_bytes) (\<lambda>auth_data_bytes.
     rbind (rbind (cbor_map_get att_stmt ''x5c'') (\<lambda>v. ok_or (cbor_as_array v) AStructure)) (\<lambda>x5c.
     if length x5c \<noteq> 2 then Inl AStructure
     else
     rbind (check_chain L root_pem x5c now_unix) (\<lambda>leaf.
     let nonce = sha256_concat C auth_data_bytes client_data_hash in
     rbind (ok_or (map_option snd (find (\<lambda>(oid, _). oid = NONCE_EXTENSION_OID) (x_extensions leaf)))
       ANonceExtension) (\<lambda>ext.
     rbind (nonce_from_extension ext) (\<lambda>found.
     if found \<noteq> nonce then Inl ANonceMismatch
     else
     let public_key = spki_data (x_public_key leaf) in
     if length public_key \<noteq> 65 \<or> byte_at public_key 0 \<noteq> 0x04 \<or> sec1_key L public_key = None
     then Inl ABadPublicKey
     else if sha256 C public_key \<noteq> key_id then Inl AKeyIdMismatch
     else
     rbind (parse_auth_data auth_data_bytes) (\<lambda>auth.
     rbind (ok_or (match_app_id C (ad_rp_id_hash auth) (pol_app_ids pol)) ARpIdNotAllowed) (\<lambda>app_id.
     if ad_counter auth \<noteq> 0 then Inl ACounterNotZero
     else
     rbind (rbind (ok_or (ad_aaguid auth) AAuthData) (attested_environment pol)) (\<lambda>environment.
     if ad_credential_id auth \<noteq> Some key_id then Inl ACredentialIdMismatch
     else Inr \<lparr>ak_public_key = public_key, ak_environment = environment, ak_app_id = app_id\<rparr>)))))))))))"

section \<open>Assertions\<close>

definition verify_assertion_object ::
  "crypto \<Rightarrow> attest_lib \<Rightarrow> bytes \<Rightarrow> bytes \<Rightarrow> string \<Rightarrow> bytes \<Rightarrow> app_attest_error + u32" where
  "verify_assertion_object C L assertion client_data_hash app_id public_key =
     rbind (ok_or (cbor_read L assertion) ACbor) (\<lambda>obj.
     rbind (rbind (cbor_map_get obj ''signature'') cbor_bytes) (\<lambda>der.
     rbind (ok_or (sig_from_der L der) ABadSignature) (\<lambda>sg.
     rbind (rbind (cbor_map_get obj ''authenticatorData'') cbor_bytes) (\<lambda>auth_data_bytes.
     let nonce = sha256_concat C auth_data_bytes client_data_hash in
     rbind (ok_or (sec1_key L public_key) ABadPublicKey) (\<lambda>(x, y).
     if \<not> p256_verify C x y nonce sg then Inl ABadSignature
     else
     rbind (parse_auth_data auth_data_bytes) (\<lambda>auth.
     if ad_rp_id_hash auth \<noteq> sha256 C app_id then Inl AAssertionRpIdMismatch
     else Inr (ad_counter auth)))))))"

end
