(* ===== verification/IssuerAuthData.thy ===== *)
theory IssuerAuthData
  imports IssuerAttest
begin

text \<open>
  What \<open>parse_auth_data\<close>, the attestation check and the assertion check of
  crates/issuer-service/src/appattest.rs accept: the byte layout of authenticator data,
  written as the encoder Apple's documentation describes, and the declarative content of an
  accepted attestation.
\<close>

section \<open>Big-endian numbers\<close>

fun be_bytes :: "nat \<Rightarrow> nat \<Rightarrow> bytes" where
  "be_bytes 0 n = []"
| "be_bytes (Suc k) n = be_bytes k (n div 256) @ [char_of (n mod 256)]"

lemma length_be_bytes [simp]: "length (be_bytes k n) = k"
  by (induction k arbitrary: n) auto

lemma be_value_snoc: "be_value (bs @ [c]) = be_value bs * 256 + of_char c"
  by (simp add: be_value_def)

lemma be_value_be_bytes [simp]: "be_value (be_bytes k n) = n mod 256 ^ k"
proof (induction k arbitrary: n)
  case (Suc k)
  have "n div 256 mod 256 ^ k * 256 + n mod 256 = n mod (256 * 256 ^ k)"
    using mod_mult2_eq [of n 256 "256 ^ k"] by simp
  with Suc show ?case by (simp add: be_value_snoc)
qed (simp add: be_value_def)

lemma be_bytes_be_value [simp]: "be_bytes (length bs) (be_value bs) = bs"
proof (induction bs rule: rev_induct)
  case (snoc c bs)
  with of_char_less_256 [of c] show ?case by (simp add: be_value_snoc)
qed simp

lemma be_value_less: "be_value bs < 256 ^ length bs"
  using be_value_be_bytes [of "length bs" "be_value bs"]
    mod_less_divisor [of "256 ^ length bs" "be_value bs"] by simp

section \<open>Authenticator data\<close>

definition encode_auth_data :: "auth_data \<Rightarrow> nat \<Rightarrow> bytes \<Rightarrow> bytes" where
  "encode_auth_data a flags rest =
     ad_rp_id_hash a @ [char_of flags] @ be_bytes 4 (unat (ad_counter a)) @
     (case (ad_aaguid a, ad_credential_id a) of
        (Some g, Some c) \<Rightarrow> g @ be_bytes 2 (length c) @ c @ rest
      | _ \<Rightarrow> rest)"

definition auth_data_wf :: "auth_data \<Rightarrow> nat \<Rightarrow> bytes \<Rightarrow> bool" where
  "auth_data_wf a flags rest \<longleftrightarrow>
     length (ad_rp_id_hash a) = 32 \<and> flags < 256
     \<and> (case (ad_aaguid a, ad_credential_id a) of
          (Some g, Some c) \<Rightarrow> bit flags 6 \<and> length g = 16 \<and> length c < 65536
        | (None, None) \<Rightarrow> \<not> bit flags 6 \<or> rest = []
        | _ \<Rightarrow> False)"

lemma bit_of_nat_u8: "flags < 256 \<Longrightarrow> bit (of_nat flags :: 8 word) 6 = bit flags 6"
  by (simp add: bit_of_nat_iff)

lemma sub_bytes_0 [simp]: "sub_bytes 0 n xs = take n xs"
  by (simp add: sub_bytes_def)

lemma sub_bytes_append [simp]:
  "sub_bytes i j (xs @ ys) = sub_bytes i j xs @ sub_bytes (i - length xs) (j - length xs) ys"
  by (cases "j \<le> length xs") (simp_all add: sub_bytes_def)

lemma sub_bytes_Cons [simp]:
  "0 < i \<Longrightarrow> 0 < j \<Longrightarrow> sub_bytes i j (x # xs) = sub_bytes (i - 1) (j - 1) xs"
  by (cases i; cases j) (simp_all add: sub_bytes_def)

lemma sub_bytes_past [simp]: "length xs \<le> i \<Longrightarrow> sub_bytes i j xs = []"
  by (simp add: sub_bytes_def)

lemma parse_encoded:
  assumes wf: "auth_data_wf a flags rest"
  shows "parse_auth_data (encode_auth_data a flags rest) = Inr a"
proof -
  obtain rp ctr g c where a: "a = \<lparr>ad_rp_id_hash = rp, ad_counter = ctr, ad_aaguid = g, ad_credential_id = c\<rparr>"
    by (cases a)
  have ctr: "unat ctr mod 4294967296 = unat ctr"
    using unsigned_less [of ctr, where ?'a = nat] by simp
  have rp: "length rp = 32" and fl: "flags < 256" using wf a by (simp_all add: auth_data_wf_def)
  show ?thesis
  proof (cases g)
    case None
    with wf a have c: "c = None" and r: "\<not> bit flags 6 \<or> rest = []"
      by (auto simp: auth_data_wf_def split: option.splits)
    show ?thesis using rp fl r ctr
      by (auto simp: parse_auth_data_def encode_auth_data_def a None c Let_def byte_at_def nth_append
        bit_of_nat_u8)
  next
    case (Some g')
    with wf a obtain c' where c: "c = Some c'" and r: "bit flags 6" "length g' = 16" "length c' < 65536"
      by (auto simp: auth_data_wf_def split: option.splits)
    show ?thesis using rp fl r ctr
      by (auto simp: parse_auth_data_def encode_auth_data_def a Some c Let_def byte_at_def nth_append
        bit_of_nat_u8)
  qed
qed

lemma length_sub_bytes: "j \<le> length xs \<Longrightarrow> length (sub_bytes i j xs) = j - i"
  by (simp add: sub_bytes_def)

lemma cut_bytes: "i \<le> j \<Longrightarrow> j \<le> length xs \<Longrightarrow> drop i xs = sub_bytes i j xs @ drop j xs"
proof -
  assume le: "i \<le> j" "j \<le> length xs"
  have "drop i xs = drop i (take j xs @ drop j xs)" by simp
  also have "\<dots> = sub_bytes i j xs @ drop j xs" using le by (simp add: sub_bytes_def del: append_take_drop_id)
  finally show ?thesis .
qed

lemma be_bytes_word:
  "length bs = 4 \<Longrightarrow> be_bytes 4 (unat (of_nat (be_value bs) :: u32)) = bs"
  using be_value_less [of bs] be_bytes_be_value [of bs] by (simp add: unat_of_nat)

lemma be_bytes_2: "length bs = 2 \<Longrightarrow> be_bytes 2 (be_value bs) = bs"
  using be_bytes_be_value [of bs] by simp

lemma encode_parsed:
  assumes p: "parse_auth_data data = Inr a"
  shows "\<exists>flags rest. auth_data_wf a flags rest \<and> data = encode_auth_data a flags rest"
proof -
  let ?f = "byte_at data 32" and ?n = "be_value (sub_bytes 53 55 data)"
  have len: "37 \<le> length data" using p by (auto simp: parse_auth_data_def split: if_splits)
  have f: "?f < 256" by (simp add: byte_at_def of_char_less_256)
  have front: "data = take 32 data @ [char_of ?f] @ sub_bytes 33 37 data @ drop 37 data"
    using len id_take_nth_drop [of 32 data] cut_bytes [of 33 37 data] by (simp add: byte_at_def)
  have ctr: "be_bytes 4 (unat (ad_counter a)) = sub_bytes 33 37 data" and rp: "ad_rp_id_hash a = take 32 data"
    using p len be_bytes_word [of "sub_bytes 33 37 data"]
    by (auto simp: parse_auth_data_def Let_def length_sub_bytes split: if_splits)
  show ?thesis
  proof (cases "bit ?f 6 \<and> 37 < length data")
    case True
    with p have more: "55 + ?n \<le> length data"
      and a: "ad_aaguid a = Some (sub_bytes 37 53 data)" "ad_credential_id a = Some (sub_bytes 55 (55 + ?n) data)"
      by (auto simp: parse_auth_data_def Let_def bit_of_nat_u8 f split: if_splits)
    have n: "?n < 65536" using be_value_less [of "sub_bytes 53 55 data"] more by (simp add: length_sub_bytes)
    have rear: "drop 37 data = sub_bytes 37 53 data @ be_bytes 2 ?n @ sub_bytes 55 (55 + ?n) data @ drop (55 + ?n) data"
      using more cut_bytes [of 37 53 data] cut_bytes [of 53 55 data] cut_bytes [of 55 "55 + ?n" data]
      by (simp add: be_bytes_2 length_sub_bytes)
    have "auth_data_wf a ?f (drop (55 + ?n) data)"
      using True len more n f a rp by (simp add: auth_data_wf_def length_sub_bytes)
    moreover have "data = encode_auth_data a ?f (drop (55 + ?n) data)"
      using front rear a rp ctr more by (simp add: encode_auth_data_def length_sub_bytes)
    ultimately show ?thesis by blast
  next
    case False
    with p len have a: "ad_aaguid a = None" "ad_credential_id a = None"
      by (auto simp: parse_auth_data_def Let_def bit_of_nat_u8 f split: if_splits)
    have "auth_data_wf a ?f (drop 37 data)"
      using False len f a rp by (auto simp: auth_data_wf_def)
    moreover have "data = encode_auth_data a ?f (drop 37 data)"
      using front a rp ctr by (simp add: encode_auth_data_def)
    ultimately show ?thesis by blast
  qed
qed

text \<open>parse_auth_data accepts exactly the byte strings of the authenticator-data layout
  (32 bytes of rpIdHash, flags, big-endian counter and, only when the AT flag is set and
  bytes follow, aaguid, length and credential id) and returns the fields they were laid out
  from.\<close>

lemma auth_data_layout:
  "parse_auth_data data = Inr a \<longleftrightarrow>
     (\<exists>flags rest. auth_data_wf a flags rest \<and> data = encode_auth_data a flags rest)"
  using encode_parsed parse_encoded by blast

section \<open>What an accepted attestation and assertion contain\<close>

lemma nonce_from_extension_Inr:
  "nonce_from_extension v = Inr n \<longleftrightarrow>
     length n = 32 \<and> v = map char_of [0x30, 36, 0xa1, 34, 0x04, 32 :: nat] @ n"
proof -
  have six: "\<exists>a b c d e f r. v = [a, b, c, d, e, f] @ r" if "length v = 38"
    using that by (cases v; cases "tl v"; cases "tl (tl v)"; cases "tl (tl (tl v))";
      cases "tl (tl (tl (tl v)))"; cases "tl (tl (tl (tl (tl v))))") auto
  have cmp: "(of_char c = (m :: nat)) = (c = char_of m)" if "m < 256" for c m
    using that by (metis char_of_char of_char_of mod_less)
  show ?thesis
  proof (cases "length v = 38")
    case True
    with six obtain a b c d e f r where v: "v = [a, b, c, d, e, f] @ r" by blast
    with True show ?thesis
      by (auto simp: nonce_from_extension_def byte_at_def cmp)
  qed (auto simp: nonce_from_extension_def)
qed

definition chain_trusted :: "attest_lib \<Rightarrow> bytes \<Rightarrow> x509 \<Rightarrow> x509 \<Rightarrow> i64 \<Rightarrow> bool" where
  "chain_trusted L root_pem leaf mid now_unix \<longleftrightarrow>
     (\<exists>pem anchor now. pem_read L root_pem = Some pem \<and> pem_parse_x509 L pem = Some anchor
        \<and> x509_verify L anchor None \<and> x509_verify L mid (Some (x_public_key anchor))
        \<and> x509_verify L leaf (Some (x_public_key mid))
        \<and> x_is_ca mid \<and> x_basic_ca leaf \<noteq> Inr (Some True)
        \<and> asn1_time L now_unix = Some now
        \<and> valid_at leaf now \<and> valid_at mid now \<and> valid_at anchor now)"

text \<open>
  The content of an accepted attestation: a statement of the format \<open>apple-appattest\<close> whose
  certificate chain leads to the anchor, whose leaf carries the nonce over the authenticator
  data and \<open>client_data_hash\<close>, and whose authenticator data names, at counter zero, one of
  the allowed apps, an accepted environment and the key with the given identifier.
\<close>

definition attests ::
  "crypto \<Rightarrow> attest_lib \<Rightarrow> bytes \<Rightarrow> bytes \<Rightarrow> bytes \<Rightarrow> bytes \<Rightarrow> attest_policy \<Rightarrow> i64 \<Rightarrow> attested_key \<Rightarrow> bool"
where
  "attests C L root_pem attestation key_id client_data_hash pol now_unix k \<longleftrightarrow>
     (\<exists>obj stmt auth leaf_der mid_der leaf mid ext flags rest guid.
        cbor_read L attestation = Some obj \<and> cbor_map_get obj ''fmt'' = Inr (CText ''apple-appattest'')
        \<and> cbor_map_get obj ''attStmt'' = Inr stmt
        \<and> cbor_map_get stmt ''x5c'' = Inr (CArray [CBytes leaf_der, CBytes mid_der])
        \<and> cbor_map_get obj ''authData'' = Inr (CBytes auth)
        \<and> x509_from_der L leaf_der = Some leaf \<and> x509_from_der L mid_der = Some mid
        \<and> chain_trusted L root_pem leaf mid now_unix
        \<and> find (\<lambda>(oid, _). oid = NONCE_EXTENSION_OID) (x_extensions leaf) = Some (NONCE_EXTENSION_OID, ext)
        \<and> ext = map char_of [0x30, 36, 0xa1, 34, 0x04, 32 :: nat] @ sha256 C (auth @ client_data_hash)
        \<and> length (sha256 C (auth @ client_data_hash)) = 32
        \<and> ak_public_key k = spki_data (x_public_key leaf) \<and> length (ak_public_key k) = 65
        \<and> byte_at (ak_public_key k) 0 = 4 \<and> sec1_key L (ak_public_key k) \<noteq> None
        \<and> key_id = sha256 C (ak_public_key k)
        \<and> find (\<lambda>ident. sha256 C ident = sha256 C (ak_app_id k)) (pol_app_ids pol) = Some (ak_app_id k)
        \<and> attested_environment pol guid = Inr (ak_environment k)
        \<and> (let a = \<lparr>ad_rp_id_hash = sha256 C (ak_app_id k), ad_counter = 0, ad_aaguid = Some guid,
                    ad_credential_id = Some key_id\<rparr>
           in auth_data_wf a flags rest \<and> auth = encode_auth_data a flags rest))"

lemma cbor_accessors [simp]:
  "cbor_as_text v = Some s \<longleftrightarrow> v = CText s"
  "cbor_as_array v = Some xs \<longleftrightarrow> v = CArray xs"
  "cbor_bytes v = Inr b \<longleftrightarrow> v = CBytes b"
  by (cases v; auto simp: cbor_bytes_def)+

lemma check_chain_Inr:
  "check_chain L root_pem [v, w] now_unix = Inr leaf \<longleftrightarrow>
     (\<exists>leaf_der mid_der mid. v = CBytes leaf_der \<and> w = CBytes mid_der
        \<and> x509_from_der L leaf_der = Some leaf \<and> x509_from_der L mid_der = Some mid
        \<and> chain_trusted L root_pem leaf mid now_unix)"
  by (auto simp: check_chain_def chain_trusted_def guard_eq_Inr)

lemma find_Some_pred: "find P xs = Some x \<Longrightarrow> P x"
  by (auto simp: find_Some_iff)

lemma attestation_exact:
  "verify_attestation_with_root C L root_pem attestation key_id cdh pol now_unix = Inr k \<longleftrightarrow>
     attests C L root_pem attestation key_id cdh pol now_unix k"
proof
  assume "verify_attestation_with_root C L root_pem attestation key_id cdh pol now_unix = Inr k"
  then obtain obj stmt auth x5c leaf ext a guid where
    obj: "cbor_read L attestation = Some obj" "cbor_map_get obj ''fmt'' = Inr (CText ''apple-appattest'')"
      "cbor_map_get obj ''attStmt'' = Inr stmt" "cbor_map_get obj ''authData'' = Inr (CBytes auth)"
      "cbor_map_get stmt ''x5c'' = Inr (CArray x5c)" "length x5c = 2"
    and chain: "check_chain L root_pem x5c now_unix = Inr leaf"
    and ext: "map_option snd (find (\<lambda>(oid, _). oid = NONCE_EXTENSION_OID) (x_extensions leaf)) = Some ext"
      "nonce_from_extension ext = Inr (sha256 C (auth @ cdh))"
    and key: "length (spki_data (x_public_key leaf)) = 65" "byte_at (spki_data (x_public_key leaf)) 0 = 4"
      "sec1_key L (spki_data (x_public_key leaf)) \<noteq> None" "key_id = sha256 C (spki_data (x_public_key leaf))"
    and a: "parse_auth_data auth = Inr a" "match_app_id C (ad_rp_id_hash a) (pol_app_ids pol) = Some (ak_app_id k)"
      "ad_counter a = 0" "ad_aaguid a = Some guid" "attested_environment pol guid = Inr (ak_environment k)"
      "ad_credential_id a = Some key_id" "ak_public_key k = spki_data (x_public_key leaf)"
    by (auto simp: verify_attestation_with_root_def Let_def guard_eq_Inr sha256_concat_def)
  obtain v w where x5c: "x5c = [v, w]" using obj(6) by (auto simp: length_Suc_conv numeral_2_eq_2)
  obtain oid where find: "find (\<lambda>(oid, _). oid = NONCE_EXTENSION_OID) (x_extensions leaf) = Some (oid, ext)"
    using ext(1) by auto
  with find_Some_pred [OF find] have find:
    "find (\<lambda>(oid, _). oid = NONCE_EXTENSION_OID) (x_extensions leaf) = Some (NONCE_EXTENSION_OID, ext)" by simp
  have rp: "ad_rp_id_hash a = sha256 C (ak_app_id k)"
    using find_Some_pred [OF a(2) [unfolded match_app_id_def]] by simp
  then have a': "a = \<lparr>ad_rp_id_hash = sha256 C (ak_app_id k), ad_counter = 0, ad_aaguid = Some guid,
      ad_credential_id = Some key_id\<rparr>" using a by (cases a) simp
  from encode_parsed [OF a(1)] obtain flags rest where
    "auth_data_wf a flags rest" "auth = encode_auth_data a flags rest" by blast
  with obj chain ext key a find rp show "attests C L root_pem attestation key_id cdh pol now_unix k"
    unfolding attests_def x5c check_chain_Inr nonce_from_extension_Inr match_app_id_def
    by (auto simp: a' Let_def) blast
next
  assume "attests C L root_pem attestation key_id cdh pol now_unix k"
  then show "verify_attestation_with_root C L root_pem attestation key_id cdh pol now_unix = Inr k"
    unfolding attests_def
    by (auto simp: verify_attestation_with_root_def Let_def guard_eq_Inr sha256_concat_def
      check_chain_Inr nonce_from_extension_Inr parse_encoded match_app_id_def)
qed

end
