(* ===== verification/Database.thy ===== *)
theory Database
  imports Prelude
begin

text \<open>
  A client's connection to a Postgres database, for the two services: the tables are a value
  of any type \<open>'d\<close>, an SQL statement a function of them. A call to the database may work,
  fail without effect, or take effect while its answer is lost; \<open>c_faults\<close> lists what
  happens to the next calls, and calls past its end work. An action is a sequence of such
  calls with an early return.
\<close>

datatype sql_error = UniqueViolation | OtherSqlError

datatype fault = Works | Fails | Lost

record 'd db_conn =
  c_db :: 'd
  c_faults :: "fault list"

type_synonym ('d, 'a) statement = "'d \<Rightarrow> (sql_error + 'a) \<times> 'd"

type_synonym ('d, 'e, 'a) action = "'d db_conn \<Rightarrow> ('e + 'a) \<times> 'd db_conn"

definition take_fault :: "'d db_conn \<Rightarrow> fault \<times> 'd db_conn" where
  "take_fault c = (case c_faults c of [] \<Rightarrow> (Works, c) | f # fs \<Rightarrow> (f, c\<lparr>c_faults := fs\<rparr>))"

definition execute :: "('d, 'a) statement \<Rightarrow> 'd db_conn \<Rightarrow> (sql_error + 'a) \<times> 'd db_conn" where
  "execute st c =
     (case take_fault c of
        (Works, c1) \<Rightarrow> (case st (c_db c1) of (r, d) \<Rightarrow> (r, c1\<lparr>c_db := d\<rparr>))
      | (Fails, c1) \<Rightarrow> (Inl OtherSqlError, c1)
      | (Lost, c1) \<Rightarrow> (Inl OtherSqlError, c1\<lparr>c_db := snd (st (c_db c1))\<rparr>))"

definition abind :: "('d, 'e, 'a) action \<Rightarrow> ('a \<Rightarrow> ('d, 'e, 'b) action) \<Rightarrow> ('d, 'e, 'b) action" where
  "abind m f c = (case m c of (Inl e, c') \<Rightarrow> (Inl e, c') | (Inr a, c') \<Rightarrow> f a c')"

definition areturn :: "'a \<Rightarrow> ('d, 'e, 'a) action" where
  "areturn a c = (Inr a, c)"

definition afail :: "'e \<Rightarrow> ('d, 'e, 'a) action" where
  "afail e c = (Inl e, c)"

definition aresult :: "'e + 'a \<Rightarrow> ('d, 'e, 'a) action" where
  "aresult r c = (r, c)"

text \<open>
  A transaction: begin, the body, commit. When the body fails the transaction is dropped, and
  the tables are as before; an answer to a commit can be lost. \<open>e\<close> is the error of a call to
  the database that did not work.
\<close>

definition in_transaction :: "'e \<Rightarrow> ('d, 'e, 'a) action \<Rightarrow> ('d, 'e, 'a) action" where
  "in_transaction e body c =
     (case take_fault c of
        (Works, c1) \<Rightarrow>
          (case body c1 of
             (Inl f, c2) \<Rightarrow> (Inl f, c2\<lparr>c_db := c_db c1\<rparr>)
           | (Inr a, c2) \<Rightarrow>
               (case take_fault c2 of
                  (Works, c3) \<Rightarrow> (Inr a, c3)
                | (Fails, c3) \<Rightarrow> (Inl e, c3\<lparr>c_db := c_db c1\<rparr>)
                | (Lost, c3) \<Rightarrow> (Inl e, c3)))
      | (_, c1) \<Rightarrow> (Inl e, c1))"

section \<open>Running actions\<close>

lemma abind_Inr: "m c = (Inr a, c') \<Longrightarrow> abind m f c = f a c'"
  and abind_Inl: "m c = (Inl e, c') \<Longrightarrow> abind m f c = (Inl e, c')"
  by (simp_all add: abind_def)

lemma abind_aresult [simp]:
  "abind (aresult (Inr a)) f = f a" "abind (aresult (Inl e)) f = afail e"
  by (auto simp: abind_def aresult_def afail_def)

lemma take_fault_db [simp]: "take_fault c = (f, c') \<Longrightarrow> c_db c' = c_db c"
  by (auto simp: take_fault_def split: list.splits)

text \<open>Without faults every call works, and its effect is the statement's.\<close>

definition no_faults :: "'d \<Rightarrow> 'd db_conn" where
  "no_faults d = \<lparr>c_db = d, c_faults = []\<rparr>"

lemma no_faults_simps [simp]:
  "take_fault (no_faults d) = (Works, no_faults d)" "c_db (no_faults d) = d"
  "no_faults d\<lparr>c_db := d'\<rparr> = no_faults d'"
  by (simp_all add: no_faults_def take_fault_def)

lemma execute_no_faults [simp]:
  "execute st (no_faults d) = (case st d of (r, d') \<Rightarrow> (r, no_faults d'))"
  by (simp add: execute_def split: prod.split)

text \<open>A statement that was run, or that was not: its answer is an error unless it was run and heard.\<close>

lemma executeE:
  assumes "execute st c = (r, c')"
  obtains (heard) "r = fst (st (c_db c))" "c_db c' = snd (st (c_db c))"
  | (unheard) "r = Inl OtherSqlError" "c_db c' = snd (st (c_db c))"
  | (lost) "r = Inl OtherSqlError" "c_db c' = c_db c"
  using assms by (auto simp: execute_def split: prod.splits fault.splits dest: take_fault_db)

lemma abindE:
  assumes "abind m f c = (r, c')"
  obtains (fails) e where "m c = (Inl e, c')" "r = Inl e"
  | (goes) a c1 where "m c = (Inr a, c1)" "f a c1 = (r, c')"
  using assms by (auto simp: abind_def split: prod.splits sum.splits)

text \<open>A transaction commits its body's effect, or leaves the tables unchanged.\<close>

lemma in_transactionE:
  assumes "in_transaction e body c = (r, c')"
  obtains (broken) "r = Inl e" "c_db c' = c_db c"
  | (rolled_back) f c1 c2 where "c_db c1 = c_db c" "body c1 = (Inl f, c2)" "r = Inl f" "c_db c' = c_db c"
  | (committed) a c1 c2 where "c_db c1 = c_db c" "body c1 = (Inr a, c2)" "r = Inr a \<or> r = Inl e"
      "c_db c' = c_db c2"
proof -
  obtain f c1 where t: "take_fault c = (f, c1)" by force
  then have db1: "c_db c1 = c_db c" by simp
  obtain rb c2 where b: "body c1 = (rb, c2)" by force
  show thesis
  proof (cases "f = Works")
    case False
    with assms t db1 show thesis by (cases f) (auto simp: in_transaction_def intro: broken)
  next
    case works: True
    show thesis
    proof (cases rb)
      case (Inl g)
      with assms t b db1 works show thesis
        by (intro rolled_back [of c1 g c2]) (auto simp: in_transaction_def)
    next
      case (Inr a)
      obtain f' c3 where t3: "take_fault c2 = (f', c3)" by force
      then have "c_db c3 = c_db c2" by simp
      with assms t works b Inr t3 db1 broken committed [OF db1 b [unfolded Inr]] show thesis
        by (cases f') (auto simp: in_transaction_def)
    qed
  qed
qed

lemma in_transaction_no_faults [simp]:
  "body (no_faults d) = (Inr a, no_faults d') \<Longrightarrow>
     in_transaction e body (no_faults d) = (Inr a, no_faults d')"
  "body (no_faults d) = (Inl f, no_faults d') \<Longrightarrow>
     in_transaction e body (no_faults d) = (Inl f, no_faults d)"
  by (simp_all add: in_transaction_def)

end
