(* ===== verification/IssuerDb.thy ===== *)
theory IssuerDb
  imports IssuerConfig Database
begin

text \<open>
  The issuer service's database: the four tables of
  crates/issuer-service/migrations/0001\_init.sql with their constraints, the SQL statements
  of crates/issuer-service/src/service.rs as functions of the tables, and the connection
  the handlers run them on (\<open>Database\<close>). A transaction that is dropped, or whose commit
  fails, leaves the tables as they were.
\<close>

section \<open>Tables\<close>

record challenge_row =
  ch_id :: uuid
  ch_challenge :: bytes
  ch_created_at :: datetime
  ch_expires_at :: datetime
  ch_consumed_at :: "datetime option"

record device_row =
  dv_id :: uuid
  dv_user_id :: uuid
  dv_principal_jwk :: json
  dv_thumbprint :: bytes
  dv_attestation_type :: string
  dv_key_id :: string
  dv_public_key :: bytes
  dv_app_id :: string
  dv_environment :: string
  dv_counter :: i64
  dv_last_digest :: "bytes option"
  dv_status :: string
  dv_flagged_at :: "datetime option"
  dv_flagged_reason :: "string option"
  dv_enrolled_at :: datetime
  dv_last_assertion_at :: "datetime option"

record user_row =
  us_id :: uuid
  us_created_at :: datetime

record audit_row =
  ev_occurred_at :: datetime
  ev_type :: string
  ev_user_id :: "uuid option"
  ev_device_id :: "uuid option"
  ev_detail :: json

record issuer_db =
  db_users :: "user_row list"
  db_devices :: "device_row list"
  db_challenges :: "challenge_row list"
  db_audit :: "audit_row list"

definition empty_db :: issuer_db where
  "empty_db = \<lparr>db_users = [], db_devices = [], db_challenges = [], db_audit = []\<rparr>"

section \<open>The connection\<close>

type_synonym conn = "issuer_db db_conn"

type_synonym 'a stmt = "(issuer_db, 'a) statement"

type_synonym 'a act = "(issuer_db, api_error, 'a) action"

text \<open>\<open>From<tokio_postgres::Error>\<close> and \<open>From<PoolError>\<close>: an opaque internal error.\<close>

definition query :: "'a stmt \<Rightarrow> 'a act" where
  "query st c = (case execute st c of (r, c') \<Rightarrow> (map_err (\<lambda>_. Internal) r, c'))"

definition pool_get :: "unit act" where
  "pool_get c = (case take_fault c of (Works, c') \<Rightarrow> (Inr (), c') | (_, c') \<Rightarrow> (Inl Internal, c'))"

definition transaction :: "'a act \<Rightarrow> 'a act" where
  "transaction = in_transaction Internal"

section \<open>Statements\<close>

definition update_where :: "('r \<Rightarrow> bool) \<Rightarrow> ('r \<Rightarrow> 'r) \<Rightarrow> 'r list \<Rightarrow> nat \<times> 'r list" where
  "update_where P f rows = (length (filter P rows), map (\<lambda>r. if P r then f r else r) rows)"

definition sql_insert_challenge :: "uuid \<Rightarrow> bytes \<Rightarrow> nat \<Rightarrow> datetime \<Rightarrow> datetime stmt" where
  "sql_insert_challenge cid challenge ttl now d =
     (let expires = now + int ttl in
      if length challenge \<noteq> 32 then (Inl OtherSqlError, d)
      else if cid \<in> set (map ch_id (db_challenges d)) then (Inl UniqueViolation, d)
      else (Inr expires, d\<lparr>db_challenges := db_challenges d @ [\<lparr>ch_id = cid, ch_challenge = challenge,
              ch_created_at = now, ch_expires_at = expires, ch_consumed_at = None\<rparr>]\<rparr>))"

definition one_hour :: int where "one_hour = 3600 * 10 ^ 9"

definition sql_purge_challenges :: "datetime \<Rightarrow> nat stmt" where
  "sql_purge_challenges now d =
     (let gone = (\<lambda>r. ch_expires_at r < now - one_hour) in
      (Inr (length (filter gone (db_challenges d))),
       d\<lparr>db_challenges := filter (\<lambda>r. \<not> gone r) (db_challenges d)\<rparr>))"

definition live_challenge :: "datetime \<Rightarrow> uuid \<Rightarrow> challenge_row \<Rightarrow> bool" where
  "live_challenge now cid r \<longleftrightarrow> ch_id r = cid \<and> ch_consumed_at r = None \<and> ch_expires_at r > now"

definition sql_consume_challenge :: "uuid \<Rightarrow> datetime \<Rightarrow> bytes option stmt" where
  "sql_consume_challenge cid now d =
     (Inr (map_option ch_challenge (find (live_challenge now cid) (db_challenges d))),
      d\<lparr>db_challenges := snd (update_where (live_challenge now cid) (\<lambda>r. r\<lparr>ch_consumed_at := Some now\<rparr>)
         (db_challenges d))\<rparr>)"

definition sql_insert_user :: "uuid \<Rightarrow> datetime \<Rightarrow> nat stmt" where
  "sql_insert_user uid now d =
     (if uid \<in> set (map us_id (db_users d)) then (Inl UniqueViolation, d)
      else (Inr 1, d\<lparr>db_users := db_users d @ [\<lparr>us_id = uid, us_created_at = now\<rparr>]\<rparr>))"

definition device_checks :: "device_row \<Rightarrow> bool" where
  "device_checks r \<longleftrightarrow>
     length (dv_thumbprint r) = 32 \<and> dv_attestation_type r = ''app_attest''
     \<and> length (dv_public_key r) = 65 \<and> dv_environment r \<in> {''development'', ''production''}
     \<and> 0 \<le> dv_counter r \<and> dv_counter r \<le> 4294967295
     \<and> (case dv_last_digest r of None \<Rightarrow> True | Some dg \<Rightarrow> length dg = 32)
     \<and> dv_status r \<in> {''active'', ''flagged'', ''revoked''}"

definition sql_insert_device :: "device_row \<Rightarrow> nat stmt" where
  "sql_insert_device r d =
     (if \<not> device_checks r then (Inl OtherSqlError, d)
      else if dv_id r \<in> set (map dv_id (db_devices d))
           \<or> dv_thumbprint r \<in> set (map dv_thumbprint (db_devices d))
           \<or> dv_key_id r \<in> set (map dv_key_id (db_devices d)) then (Inl UniqueViolation, d)
      else if dv_user_id r \<notin> set (map us_id (db_users d)) then (Inl OtherSqlError, d)
      else (Inr 1, d\<lparr>db_devices := db_devices d @ [r]\<rparr>))"

definition sql_find_device :: "uuid \<Rightarrow> device_row option stmt" where
  "sql_find_device did d = (Inr (find (\<lambda>r. dv_id r = did) (db_devices d)), d)"

text \<open>An update that would break a row's check constraints fails as a whole.\<close>

definition sql_update_devices :: "(device_row \<Rightarrow> bool) \<Rightarrow> (device_row \<Rightarrow> device_row) \<Rightarrow> nat stmt" where
  "sql_update_devices P f d =
     (let (n, rows) = update_where P f (db_devices d) in
      if list_all device_checks rows then (Inr n, d\<lparr>db_devices := rows\<rparr>) else (Inl OtherSqlError, d))"

definition sql_advance_counter :: "uuid \<Rightarrow> i64 \<Rightarrow> bytes \<Rightarrow> datetime \<Rightarrow> nat stmt" where
  "sql_advance_counter did n digest now =
     sql_update_devices (\<lambda>r. dv_id r = did \<and> dv_status r = ''active'' \<and> dv_counter r < n)
       (\<lambda>r. r\<lparr>dv_counter := n, dv_last_digest := Some digest, dv_last_assertion_at := Some now\<rparr>)"

definition sql_flag_device :: "uuid \<Rightarrow> i64 \<Rightarrow> bytes \<Rightarrow> datetime \<Rightarrow> nat stmt" where
  "sql_flag_device did n digest now =
     sql_update_devices (\<lambda>r. dv_id r = did \<and> dv_status r = ''active'' \<and> dv_counter r = n
         \<and> dv_last_digest r \<noteq> Some digest)
       (\<lambda>r. r\<lparr>dv_status := ''flagged'', dv_flagged_at := Some now,
              dv_flagged_reason := Some ''counter_conflict''\<rparr>)"

definition sql_still_active :: "uuid \<Rightarrow> bool stmt" where
  "sql_still_active did d =
     (Inr (list_ex (\<lambda>r. dv_id r = did \<and> dv_status r = ''active'') (db_devices d)), d)"

definition sql_insert_audit ::
  "string \<Rightarrow> uuid option \<Rightarrow> uuid option \<Rightarrow> json \<Rightarrow> datetime \<Rightarrow> nat stmt" where
  "sql_insert_audit typ uid did detail now d =
     (Inr 1, d\<lparr>db_audit := db_audit d @ [\<lparr>ev_occurred_at = now, ev_type = typ, ev_user_id = uid,
        ev_device_id = did, ev_detail = detail\<rparr>]\<rparr>)"

section \<open>Running actions\<close>

lemma no_faults_run [simp]:
  "pool_get (no_faults d) = (Inr (), no_faults d)"
  "query st (no_faults d) = (case st d of (r, d') \<Rightarrow> (map_err (\<lambda>_. Internal) r, no_faults d'))"
  by (simp_all add: pool_get_def query_def split: prod.split)

end
