(* ===== verification/IssuerService.thy ===== *)
theory IssuerService
  imports IssuerAuthData IssuerDb
begin

text \<open>
  The three operations of the issuer service (crates/issuer-service/src/service.rs):
  challenges, enrollment and assertion verification, with their parsing, their database
  statements and their audit events. The JSON decoders serde derives are parameters
  (\<open>service_codec\<close>), and so are the values a call draws: random bytes, fresh UUIDs and the
  clocks. \<open>cx_now\<close> is the database's \<open>now()\<close> in the call's single statements,
  \<open>cx_tx_now\<close> the one of its transaction, \<open>cx_now_unix\<close> the process clock.
\<close>

record call_ctx =
  cx_now :: datetime
  cx_tx_now :: datetime
  cx_now_unix :: i64

record enroll_request =
  er_challenge_id :: uuid
  er_key_id :: string
  er_attestation :: string
  er_principal_jwk :: jwk_in
  er_pop_jws :: string

record pop_payload =
  pp_purpose :: string
  pp_challenge :: string
  pp_key_id :: string
  pp_jwk_thumbprint :: string

record assertion_request =
  ar_device_id :: uuid
  ar_payload_digest :: string
  ar_assertion :: string

record service_codec =
  de_enroll :: "bytes \<Rightarrow> message + enroll_request"
  de_pop :: "bytes \<Rightarrow> message + pop_payload"
  de_assertion :: "bytes \<Rightarrow> message + assertion_request"

section \<open>Audit events\<close>

definition audit :: "string \<Rightarrow> uuid option \<Rightarrow> uuid option \<Rightarrow> json \<Rightarrow> datetime \<Rightarrow> unit act" where
  "audit typ uid did detail now =
     abind (query (sql_insert_audit typ uid did detail now)) (\<lambda>_. areturn ())"

definition audit_reject :: "string \<Rightarrow> uuid option \<Rightarrow> string \<Rightarrow> datetime \<Rightarrow> conn \<Rightarrow> conn" where
  "audit_reject typ did reason now c =
     snd (audit typ None did (JObj [(''reason'', JStr reason)]) now c)"

definition rejecting :: "string \<Rightarrow> uuid option \<Rightarrow> string \<Rightarrow> datetime \<Rightarrow> api_error \<Rightarrow> 'a act" where
  "rejecting typ did reason now e c = (Inl e, audit_reject typ did reason now c)"

section \<open>Challenges\<close>

record challenge_response =
  cr_challenge_id :: uuid
  cr_challenge :: string
  cr_expires_at :: datetime

definition create_challenge ::
  "crypto \<Rightarrow> config \<Rightarrow> call_ctx \<Rightarrow> bytes \<Rightarrow> uuid \<Rightarrow> challenge_response act" where
  "create_challenge C cfg cx challenge cid =
     abind pool_get (\<lambda>_.
     abind (query (sql_insert_challenge cid challenge (challenge_ttl cfg) (cx_now cx))) (\<lambda>expires.
     areturn \<lparr>cr_challenge_id = cid, cr_challenge = b64_encode C challenge, cr_expires_at = expires\<rparr>))"

definition purge_expired_challenges :: "call_ctx \<Rightarrow> nat act" where
  "purge_expired_challenges cx = abind pool_get (\<lambda>_. query (sql_purge_challenges (cx_now cx)))"

section \<open>Enrollment\<close>

definition MAX_KEY_ID_B64 :: nat where "MAX_KEY_ID_B64 = 44"
definition MAX_ATTESTATION_B64 :: nat where "MAX_ATTESTATION_B64 = 32 * 1024"
definition MAX_POP_JWS :: nat where "MAX_POP_JWS = 1024"
definition MAX_ASSERTION_B64 :: nat where "MAX_ASSERTION_B64 = 4 * 1024"

definition POP_PURPOSE :: string where "POP_PURPOSE = ''aap-enrollment-pop/v1''"

record parsed_enroll =
  pe_challenge_id :: uuid
  pe_key_id_b64 :: string
  pe_key_id :: bytes
  pe_attestation :: bytes
  pe_jwk :: valid_jwk
  pe_pop_jws :: string

definition decode_exact :: "crypto \<Rightarrow> string \<Rightarrow> nat \<Rightarrow> string \<Rightarrow> api_error + bytes" where
  "decode_exact C s max_len reason =
     (if max_len < length s then Inl (BadRequest reason)
      else map_err (\<lambda>_. BadRequest reason) (b64_decode C s))"

definition parse_enroll_request ::
  "crypto \<Rightarrow> attest_lib \<Rightarrow> service_codec \<Rightarrow> bytes \<Rightarrow> api_error + parsed_enroll" where
  "parse_enroll_request C L D body =
     rbind (map_err (\<lambda>_. BadRequest ''malformed_json'') (de_enroll D body)) (\<lambda>req.
     if MAX_KEY_ID_B64 < length (er_key_id req) then Inl (BadRequest ''key_id'')
     else
     rbind (ok_or (std_decode L (er_key_id req)) (BadRequest ''key_id'')) (\<lambda>key_id.
     if length key_id \<noteq> 32 \<or> std_encode L key_id \<noteq> er_key_id req then Inl (BadRequest ''key_id'')
     else
     rbind (decode_exact C (er_attestation req) MAX_ATTESTATION_B64 ''attestation'') (\<lambda>attestation.
     if attestation = [] then Inl (BadRequest ''attestation'')
     else if er_pop_jws req = [] \<or> MAX_POP_JWS < length (er_pop_jws req)
     then Inl (BadRequest ''pop_jws'')
     else
     rbind (map_err BadRequest (jwk_validate C (er_principal_jwk req))) (\<lambda>jwk.
     Inr \<lparr>pe_challenge_id = er_challenge_id req, pe_key_id_b64 = er_key_id req, pe_key_id = key_id,
       pe_attestation = attestation, pe_jwk = jwk, pe_pop_jws = er_pop_jws req\<rparr>))))"

definition attest_reject :: "app_attest_error \<Rightarrow> api_error" where
  "attest_reject e = Rejected ''attestation_rejected'' (attest_code e)"

definition pop_err :: "string \<Rightarrow> api_error" where
  "pop_err reason = Rejected ''pop_rejected'' reason"

definition pop_jws_error :: "jws_error \<Rightarrow> api_error" where
  "pop_jws_error e =
     (case e of AlgorithmMismatch \<Rightarrow> pop_err ''alg'' | UnsupportedHeader _ \<Rightarrow> pop_err ''alg''
      | BadSignature \<Rightarrow> pop_err ''signature'' | _ \<Rightarrow> pop_err ''malformed'')"

definition deployment_policy :: "config \<Rightarrow> attest_policy" where
  "deployment_policy cfg =
     \<lparr>pol_app_ids = cfg_app_ids cfg, pol_allow_development = allow_development cfg\<rparr>"

definition verify_enrollment_at ::
  "crypto \<Rightarrow> attest_lib \<Rightarrow> service_codec \<Rightarrow> config \<Rightarrow> bytes \<Rightarrow> parsed_enroll \<Rightarrow> bytes \<Rightarrow> i64
     \<Rightarrow> api_error + attested_key" where
  "verify_enrollment_at C L D cfg root_pem req challenge now_unix =
     rbind (map_err pop_jws_error (jws_verify C (de_pop D) (pe_pop_jws req) (vj_key (pe_jwk req)))) (\<lambda>pop.
     if pp_purpose pop \<noteq> POP_PURPOSE then Inl (pop_err ''purpose_mismatch'')
     else if pp_jwk_thumbprint pop \<noteq> b64_encode C (vj_thumbprint (pe_jwk req))
     then Inl (pop_err ''thumbprint_mismatch'')
     else if pp_challenge pop \<noteq> b64_encode C challenge then Inl (pop_err ''challenge_mismatch'')
     else if pp_key_id pop \<noteq> pe_key_id_b64 req then Inl (pop_err ''key_id_mismatch'')
     else
       let client_data_hash = sha256 C (challenge @ vj_thumbprint (pe_jwk req)) in
       map_err attest_reject (verify_attestation_with_root C L root_pem (pe_attestation req)
         (pe_key_id req) client_data_hash (deployment_policy cfg) now_unix))"

text \<open>The \<open>Serialize\<close> of \<open>PublicKeyJwk\<close>: \<open>y\<close> only when present.\<close>

definition jwk_value :: "public_key_jwk \<Rightarrow> json" where
  "jwk_value j = JObj ([(''crv'', JStr (crv j)), (''kty'', JStr (kty j)), (''x'', JStr (jwk_x j))]
     @ (case jwk_y j of None \<Rightarrow> [] | Some y \<Rightarrow> [(''y'', JStr y)]))"

definition new_device :: "uuid \<Rightarrow> uuid \<Rightarrow> parsed_enroll \<Rightarrow> attested_key \<Rightarrow> datetime \<Rightarrow> device_row" where
  "new_device uid did req attested now =
     \<lparr>dv_id = did, dv_user_id = uid, dv_principal_jwk = jwk_value (vj_jwk (pe_jwk req)),
      dv_thumbprint = vj_thumbprint (pe_jwk req), dv_attestation_type = ''app_attest'',
      dv_key_id = pe_key_id_b64 req, dv_public_key = ak_public_key attested,
      dv_app_id = ak_app_id attested, dv_environment = attest_env_as_str (ak_environment attested),
      dv_counter = 0, dv_last_digest = None, dv_status = ''active'', dv_flagged_at = None,
      dv_flagged_reason = None, dv_enrolled_at = now, dv_last_assertion_at = None\<rparr>"

definition enrolled_detail :: "crypto \<Rightarrow> parsed_enroll \<Rightarrow> attested_key \<Rightarrow> json" where
  "enrolled_detail C req attested =
     JObj [(''app_id'', JStr (ak_app_id attested)), (''attestation_type'', JStr ''app_attest''),
       (''environment'', JStr (attest_env_as_str (ak_environment attested))),
       (''jwk_thumbprint'', JStr (b64_encode C (vj_thumbprint (pe_jwk req))))]"

text \<open>The transaction: a unique violation of the second insert is \<open>AlreadyEnrolled\<close>.\<close>

definition insert_device_tx ::
  "crypto \<Rightarrow> datetime \<Rightarrow> uuid \<Rightarrow> uuid \<Rightarrow> parsed_enroll \<Rightarrow> attested_key \<Rightarrow> unit act" where
  "insert_device_tx C now uid did req attested =
     abind (query (sql_insert_user uid now)) (\<lambda>_.
     abind (\<lambda>c. case execute (sql_insert_device (new_device uid did req attested now)) c of
         (r, c') \<Rightarrow> (map_err (\<lambda>e. case e of UniqueViolation \<Rightarrow> AlreadyEnrolled | OtherSqlError \<Rightarrow> Internal) r, c'))
       (\<lambda>_.
     audit ''device_enrolled'' (Some uid) (Some did) (enrolled_detail C req attested) now))"

definition insert_device ::
  "crypto \<Rightarrow> datetime \<Rightarrow> uuid \<Rightarrow> uuid \<Rightarrow> parsed_enroll \<Rightarrow> attested_key \<Rightarrow> unit act" where
  "insert_device C now uid did req attested c =
     (case transaction (insert_device_tx C now uid did req attested) c of
        (Inl AlreadyEnrolled, c') \<Rightarrow>
          rejecting ''enrollment_rejected'' None ''already_enrolled'' now AlreadyEnrolled c'
      | (r, c') \<Rightarrow> (r, c'))"

record enroll_response =
  en_user_id :: uuid
  en_device_id :: uuid
  en_attestation_type :: string
  en_environment :: string

definition error_reason :: "api_error \<Rightarrow> string" where
  "error_reason e = (case api_reason e of Some r \<Rightarrow> r | None \<Rightarrow> api_code e)"

definition enroll ::
  "crypto \<Rightarrow> attest_lib \<Rightarrow> service_codec \<Rightarrow> config \<Rightarrow> bytes \<Rightarrow> call_ctx \<Rightarrow> uuid \<Rightarrow> uuid \<Rightarrow> bytes
     \<Rightarrow> enroll_response act" where
  "enroll C L D cfg root_pem cx uid did body =
     abind (aresult (parse_enroll_request C L D body)) (\<lambda>req.
     abind pool_get (\<lambda>_.
     abind (query (sql_consume_challenge (pe_challenge_id req) (cx_now cx))) (\<lambda>row.
     case row of
       None \<Rightarrow> rejecting ''enrollment_rejected'' None ''invalid_challenge'' (cx_now cx) InvalidChallenge
     | Some challenge \<Rightarrow>
         (case verify_enrollment_at C L D cfg root_pem req challenge (cx_now_unix cx) of
            Inr attested \<Rightarrow>
              abind (insert_device C (cx_tx_now cx) uid did req attested) (\<lambda>_.
              areturn \<lparr>en_user_id = uid, en_device_id = did, en_attestation_type = ''app_attest'',
                en_environment = attest_env_as_str (ak_environment attested)\<rparr>)
          | Inl e \<Rightarrow> rejecting ''enrollment_rejected'' None (error_reason e) (cx_now cx) e))))"

section \<open>Assertions\<close>

record parsed_assertion =
  pa_device_id :: uuid
  pa_payload_digest :: bytes
  pa_assertion :: bytes

definition parse_assertion_request ::
  "crypto \<Rightarrow> service_codec \<Rightarrow> bytes \<Rightarrow> api_error + parsed_assertion" where
  "parse_assertion_request C D body =
     rbind (map_err (\<lambda>_. BadRequest ''malformed_json'') (de_assertion D body)) (\<lambda>req.
     rbind (decode_exact C (ar_payload_digest req) 43 ''payload_digest'') (\<lambda>digest.
     if length digest \<noteq> 32 then Inl (BadRequest ''payload_digest'')
     else
     rbind (decode_exact C (ar_assertion req) MAX_ASSERTION_B64 ''assertion'') (\<lambda>assertion.
     if assertion = [] then Inl (BadRequest ''assertion'')
     else Inr \<lparr>pa_device_id = ar_device_id req, pa_payload_digest = digest, pa_assertion = assertion\<rparr>)))"

record assertion_response =
  as_verified :: bool
  as_device_id :: uuid
  as_user_id :: uuid
  as_counter :: u32
  as_attestation_type :: string
  as_environment :: string

definition assertion_rejected :: "string \<Rightarrow> api_error" where
  "assertion_rejected reason = Rejected ''assertion_rejected'' reason"

text \<open>The checks on the row read, before the assertion itself is looked at.\<close>

definition check_device :: "config \<Rightarrow> device_row \<Rightarrow> api_error + unit" where
  "check_device cfg r =
     (if dv_status r \<noteq> ''active'' then Inl DeviceNotActive
      else if dv_app_id r \<notin> set (cfg_app_ids cfg) then Inl (assertion_rejected ''app_id_not_allowed'')
      else if dv_environment r = attest_env_as_str EnvDevelopment \<and> \<not> allow_development cfg
      then Inl (assertion_rejected ''development_not_accepted'')
      else Inr ())"

definition verified_detail :: "crypto \<Rightarrow> bytes \<Rightarrow> u32 \<Rightarrow> json" where
  "verified_detail C digest n =
     JObj [(''counter'', JNum (PosInt (ucast n))), (''payload_digest'', JStr (b64_encode C digest))]"

definition stale_detail :: "bool \<Rightarrow> u32 \<Rightarrow> json" where
  "stale_detail flagged n =
     JObj [(''presented_counter'', JNum (PosInt (ucast n))),
       (''reason'', JStr (if flagged then ''counter_conflict'' else ''counter_not_advanced''))]"

definition accepted_response :: "parsed_assertion \<Rightarrow> device_row \<Rightarrow> u32 \<Rightarrow> assertion_response" where
  "accepted_response req r n =
     \<lparr>as_verified = True, as_device_id = pa_device_id req, as_user_id = dv_user_id r, as_counter = n,
      as_attestation_type = ''app_attest'', as_environment = dv_environment r\<rparr>"

text \<open>The transaction; its value is what is answered once it has committed.\<close>

definition settle_counter_tx ::
  "crypto \<Rightarrow> datetime \<Rightarrow> parsed_assertion \<Rightarrow> device_row \<Rightarrow> u32 \<Rightarrow> (api_error + assertion_response) act" where
  "settle_counter_tx C now req r n =
     abind (query (sql_advance_counter (pa_device_id req) (uint n) (pa_payload_digest req) now)) (\<lambda>advanced.
     if advanced = 1 then
       abind (audit ''assertion_verified'' (Some (dv_user_id r)) (Some (pa_device_id req))
         (verified_detail C (pa_payload_digest req) n) now) (\<lambda>_.
       areturn (Inr (accepted_response req r n)))
     else
     abind (query (sql_flag_device (pa_device_id req) (uint n) (pa_payload_digest req) now)) (\<lambda>flagged.
     abind (if flagged = 1 then areturn (''device_flagged'', CounterConflict)
            else abind (query (sql_still_active (pa_device_id req))) (\<lambda>still_active.
              if still_active then areturn (''assertion_replay_rejected'', AssertionReplay)
              else areturn (''assertion_rejected'', DeviceNotActive))) (\<lambda>(event, err).
     abind (audit event (Some (dv_user_id r)) (Some (pa_device_id req)) (stale_detail (flagged = 1) n) now)
       (\<lambda>_. areturn (Inl err)))))"

definition verify_assertion ::
  "crypto \<Rightarrow> attest_lib \<Rightarrow> service_codec \<Rightarrow> config \<Rightarrow> call_ctx \<Rightarrow> bytes \<Rightarrow> assertion_response act" where
  "verify_assertion C L D cfg cx body =
     abind (aresult (parse_assertion_request C D body)) (\<lambda>req.
     abind pool_get (\<lambda>_.
     abind (query (sql_find_device (pa_device_id req))) (\<lambda>row.
     case row of
       None \<Rightarrow> afail UnknownDevice
     | Some r \<Rightarrow>
         abind (aresult (check_device cfg r)) (\<lambda>_.
         case verify_assertion_object C L (pa_assertion req) (pa_payload_digest req) (dv_app_id r)
                (dv_public_key r) of
           Inl e \<Rightarrow> rejecting ''assertion_rejected'' (Some (pa_device_id req)) (attest_code e) (cx_now cx)
                     (assertion_rejected (attest_code e))
         | Inr n \<Rightarrow>
             abind (transaction (settle_counter_tx C (cx_tx_now cx) req r n)) aresult))))"

text \<open>\<open>ping\<close>: whether a connection and a trivial statement work.\<close>

definition ping :: "conn \<Rightarrow> bool \<times> conn" where
  "ping c =
     (case pool_get c of
        (Inr _, c1) \<Rightarrow> (case execute (\<lambda>d. (Inr (), d)) c1 of (r, c2) \<Rightarrow> (is_ok r, c2))
      | (Inl _, c1) \<Rightarrow> (False, c1))"

end
