(* ===== verification/IssuerSteps.thy ===== *)
theory IssuerSteps
  imports IssuerService
begin

text \<open>
  The abstract specification of the issuer service: a state machine whose steps are the
  changes the service may commit to its tables, each with its guard. Calls that overlap
  interleave such steps, since every change is one conditional statement committed with
  its audit event. Below it, its invariants: unique devices, counters that only grow,
  challenges that stay consumed, flags that stay.
\<close>

datatype change =
    Challenged challenge_row
  | Purged datetime
  | Consumed uuid datetime
  | Enrolled user_row device_row audit_row
  | Advanced uuid int bytes datetime audit_row
  | Flagged uuid int bytes datetime audit_row
  | Noted audit_row

definition update_device :: "uuid \<Rightarrow> (device_row \<Rightarrow> device_row) \<Rightarrow> issuer_db \<Rightarrow> issuer_db" where
  "update_device did f d = d\<lparr>db_devices := map (\<lambda>r. if dv_id r = did then f r else r) (db_devices d)\<rparr>"

definition log_event :: "audit_row \<Rightarrow> issuer_db \<Rightarrow> issuer_db" where
  "log_event ev d = d\<lparr>db_audit := db_audit d @ [ev]\<rparr>"

definition event_of :: "string \<Rightarrow> uuid \<Rightarrow> audit_row \<Rightarrow> bool" where
  "event_of typ did ev \<longleftrightarrow> ev_type ev = typ \<and> ev_device_id ev = Some did"

text \<open>The counter an audit event of an accepted assertion records.\<close>

definition logged_counter :: "audit_row \<Rightarrow> int option" where
  "logged_counter ev =
     (case json_get (ev_detail ev) ''counter'' of Some (JNum (PosInt w)) \<Rightarrow> Some (uint w) | _ \<Rightarrow> None)"

definition fresh_device :: "issuer_db \<Rightarrow> user_row \<Rightarrow> device_row \<Rightarrow> bool" where
  "fresh_device d u r \<longleftrightarrow>
     us_id u \<notin> us_id ` set (db_users d) \<and> dv_user_id r = us_id u
     \<and> dv_id r \<notin> dv_id ` set (db_devices d) \<and> dv_thumbprint r \<notin> dv_thumbprint ` set (db_devices d)
     \<and> dv_key_id r \<notin> dv_key_id ` set (db_devices d)
     \<and> device_checks r \<and> dv_counter r = 0 \<and> dv_last_digest r = None \<and> dv_status r = ''active''"

inductive db_step :: "issuer_db \<Rightarrow> change \<Rightarrow> issuer_db \<Rightarrow> bool" where
  challenged: "ch_id r \<notin> ch_id ` set (db_challenges d) \<Longrightarrow> ch_consumed_at r = None \<Longrightarrow>
     length (ch_challenge r) = 32 \<Longrightarrow>
     db_step d (Challenged r) (d\<lparr>db_challenges := db_challenges d @ [r]\<rparr>)"
| purged: "db_step d (Purged now)
     (d\<lparr>db_challenges := filter (\<lambda>r. \<not> ch_expires_at r < now - one_hour) (db_challenges d)\<rparr>)"
| consumed: "r \<in> set (db_challenges d) \<Longrightarrow> live_challenge now cid r \<Longrightarrow>
     db_step d (Consumed cid now) (d\<lparr>db_challenges := map (\<lambda>r. if ch_id r = cid
       then r\<lparr>ch_consumed_at := Some now\<rparr> else r) (db_challenges d)\<rparr>)"
| enrolled: "fresh_device d u r \<Longrightarrow> event_of ''device_enrolled'' (dv_id r) ev \<Longrightarrow>
     db_step d (Enrolled u r ev) (log_event ev (d\<lparr>db_users := db_users d @ [u],
       db_devices := db_devices d @ [r]\<rparr>))"
| advanced: "r \<in> set (db_devices d) \<Longrightarrow> dv_id r = did \<Longrightarrow> dv_status r = ''active'' \<Longrightarrow> dv_counter r < n \<Longrightarrow>
     n \<le> 4294967295 \<Longrightarrow> length digest = 32 \<Longrightarrow> event_of ''assertion_verified'' did ev \<Longrightarrow>
     logged_counter ev = Some n \<Longrightarrow>
     db_step d (Advanced did n digest now ev) (log_event ev (update_device did
       (\<lambda>r. r\<lparr>dv_counter := n, dv_last_digest := Some digest, dv_last_assertion_at := Some now\<rparr>) d))"
| flagged: "r \<in> set (db_devices d) \<Longrightarrow> dv_id r = did \<Longrightarrow> dv_status r = ''active'' \<Longrightarrow> dv_counter r = n \<Longrightarrow>
     dv_last_digest r \<noteq> Some digest \<Longrightarrow> event_of ''device_flagged'' did ev \<Longrightarrow>
     db_step d (Flagged did n digest now ev) (log_event ev (update_device did
       (\<lambda>r. r\<lparr>dv_status := ''flagged'', dv_flagged_at := Some now,
              dv_flagged_reason := Some ''counter_conflict''\<rparr>) d))"
| noted: "ev_type ev \<notin> {''device_enrolled'', ''assertion_verified'', ''device_flagged''} \<Longrightarrow>
     db_step d (Noted ev) (log_event ev d)"

inductive db_runs :: "issuer_db \<Rightarrow> change list \<Rightarrow> issuer_db \<Rightarrow> bool" where
  stop: "db_runs d [] d"
| go: "db_step d ch d1 \<Longrightarrow> db_runs d1 chs d2 \<Longrightarrow> db_runs d (ch # chs) d2"

inductive_simps db_runs_Nil: "db_runs d [] d'"
inductive_simps db_runs_Cons: "db_runs d (ch # chs) d'"

inductive_cases db_step_cases: "db_step d ch d'"

lemma db_runs_append: "db_runs d (xs @ ys) d' \<longleftrightarrow> (\<exists>d1. db_runs d xs d1 \<and> db_runs d1 ys d')"
  by (induction xs arbitrary: d) (auto simp: db_runs_Nil db_runs_Cons)

section \<open>Invariants\<close>

definition db_wf :: "issuer_db \<Rightarrow> bool" where
  "db_wf d \<longleftrightarrow>
     distinct (map dv_id (db_devices d)) \<and> distinct (map dv_thumbprint (db_devices d))
     \<and> distinct (map dv_key_id (db_devices d)) \<and> list_all device_checks (db_devices d)
     \<and> distinct (map us_id (db_users d)) \<and> set (map dv_user_id (db_devices d)) \<subseteq> set (map us_id (db_users d))
     \<and> distinct (map ch_id (db_challenges d))"

lemma db_wf_empty: "db_wf empty_db"
  by (simp add: db_wf_def empty_db_def)

lemma map_if_same: "(\<And>r. g (f r) = g r) \<Longrightarrow> map g (map (\<lambda>r. if P r then f r else r) rs) = map g rs"
  by (induction rs) auto

lemma db_wf_update_device:
  assumes "db_wf d"
    and "\<And>r. dv_id (f r) = dv_id r" "\<And>r. dv_thumbprint (f r) = dv_thumbprint r"
      "\<And>r. dv_key_id (f r) = dv_key_id r" "\<And>r. dv_user_id (f r) = dv_user_id r"
    and "\<And>r. r \<in> set (db_devices d) \<Longrightarrow> dv_id r = did \<Longrightarrow> device_checks (f r)"
  shows "db_wf (update_device did f d)"
proof -
  let ?rs = "map (\<lambda>r. if dv_id r = did then f r else r) (db_devices d)"
  have "list_all device_checks ?rs"
    using assms(1,6) by (auto simp: db_wf_def list_all_iff)
  with assms show ?thesis
    by (simp add: db_wf_def update_device_def map_if_same del: map_map set_map)
qed

lemma db_wf_log_event [simp]: "db_wf (log_event ev d) = db_wf d"
  by (simp add: db_wf_def log_event_def)

lemma db_step_wf: "db_step d ch d' \<Longrightarrow> db_wf d \<Longrightarrow> db_wf d'"
proof (induction rule: db_step.induct)
  case (challenged r d)
  then show ?case by (auto simp: db_wf_def)
next
  case (purged d now)
  then show ?case by (simp add: db_wf_def distinct_map_filter)
next
  case (consumed r d now cid)
  then show ?case by (simp add: db_wf_def map_if_same del: map_map)
next
  case (enrolled d u r ev)
  then show ?case by (auto simp: db_wf_def fresh_device_def log_event_def)
next
  case (advanced r d did n digest ev now)
  have "device_checks (s\<lparr>dv_counter := n, dv_last_digest := Some digest, dv_last_assertion_at := Some now\<rparr>)"
    if "s \<in> set (db_devices d)" "dv_id s = did" for s
  proof -
    from advanced have "distinct (map dv_id (db_devices d))" by (simp add: db_wf_def)
    with that advanced have "s = r" by (auto simp: distinct_map dest: inj_onD)
    moreover have "device_checks r" using advanced by (simp add: db_wf_def list_all_iff)
    ultimately show ?thesis using advanced by (simp add: device_checks_def)
  qed
  with advanced show ?case by (simp add: db_wf_update_device)
next
  case (flagged r d did n digest ev now)
  then have "\<forall>s \<in> set (db_devices d). device_checks s" by (simp add: db_wf_def list_all_iff)
  with flagged show ?case by (simp add: db_wf_update_device device_checks_def)
qed simp

lemma db_runs_wf: "db_runs d chs d' \<Longrightarrow> db_wf d \<Longrightarrow> db_wf d'"
  by (induction rule: db_runs.induct) (auto dest: db_step_wf)

text \<open>
  What happens to a device's row: its identity never changes, its counter never falls, and
  a row that is no longer active does not change at all.
\<close>

definition later_row :: "device_row \<Rightarrow> device_row \<Rightarrow> bool" where
  "later_row r r' \<longleftrightarrow>
     dv_id r' = dv_id r \<and> dv_user_id r' = dv_user_id r \<and> dv_principal_jwk r' = dv_principal_jwk r
     \<and> dv_thumbprint r' = dv_thumbprint r \<and> dv_key_id r' = dv_key_id r
     \<and> dv_public_key r' = dv_public_key r \<and> dv_app_id r' = dv_app_id r
     \<and> dv_environment r' = dv_environment r
     \<and> dv_counter r \<le> dv_counter r' \<and> (dv_status r \<noteq> ''active'' \<longrightarrow> r' = r)"

lemma later_row_refl [simp]: "later_row r r"
  by (simp add: later_row_def)

lemma later_row_trans: "later_row r s \<Longrightarrow> later_row s t \<Longrightarrow> later_row r t"
  by (auto simp: later_row_def)

lemma db_wf_same_id:
  "db_wf d \<Longrightarrow> r \<in> set (db_devices d) \<Longrightarrow> s \<in> set (db_devices d) \<Longrightarrow> dv_id r = dv_id s \<Longrightarrow> r = s"
  by (auto simp: db_wf_def distinct_map dest: inj_onD)

lemma devices_log_event [simp]: "db_devices (log_event ev d) = db_devices d"
  and challenges_log_event [simp]: "db_challenges (log_event ev d) = db_challenges d"
  and users_log_event [simp]: "db_users (log_event ev d) = db_users d"
  and audit_log_event [simp]: "db_audit (log_event ev d) = db_audit d @ [ev]"
  by (simp_all add: log_event_def)

lemma update_device_simps [simp]:
  "db_challenges (update_device did f d) = db_challenges d"
  "db_users (update_device did f d) = db_users d"
  "db_audit (update_device did f d) = db_audit d"
  "set (db_devices (update_device did f d)) =
     (\<lambda>r. if dv_id r = did then f r else r) ` set (db_devices d)"
  by (simp_all add: update_device_def)

lemma update_device_later:
  assumes "r \<in> set (db_devices d)" and "dv_id r = did \<Longrightarrow> later_row r (f r)"
  shows "\<exists>r' \<in> set (db_devices (update_device did f d)). later_row r r'"
proof (rule bexI)
  show "later_row r (if dv_id r = did then f r else r)" using assms(2) by simp
  show "(if dv_id r = did then f r else r) \<in> set (db_devices (update_device did f d))"
    using assms(1) by (simp only: update_device_simps) (rule imageI)
qed

lemma db_step_later:
  assumes "db_step d ch d'" and "db_wf d" and r: "r \<in> set (db_devices d)"
  shows "\<exists>r' \<in> set (db_devices d'). later_row r r'"
  using assms
proof (induction rule: db_step.induct)
  case (advanced s d did n digest ev now)
  have "dv_status r = ''active'' \<and> dv_counter r < n" if "dv_id r = did"
    using db_wf_same_id [of d r s] advanced that by simp
  then show ?case
    unfolding devices_log_event using advanced.prems
    by (intro update_device_later) (simp_all add: later_row_def)
next
  case (flagged s d did n digest ev now)
  have "dv_status r = ''active''" if "dv_id r = did"
    using db_wf_same_id [of d r s] flagged that by simp
  then show ?case
    unfolding devices_log_event using flagged.prems
    by (intro update_device_later) (simp_all add: later_row_def)
qed (auto intro: later_row_refl)

lemma db_runs_later:
  "db_runs d chs d' \<Longrightarrow> db_wf d \<Longrightarrow> r \<in> set (db_devices d) \<Longrightarrow>
     \<exists>r' \<in> set (db_devices d'). later_row r r'"
proof (induction arbitrary: r rule: db_runs.induct)
  case (go d ch d1 chs d2)
  from db_step_later [OF go.hyps(1) go.prems] obtain r1 where
    "r1 \<in> set (db_devices d1)" "later_row r r1" by blast
  with go.IH [of r1] db_step_wf [OF go.hyps(1) go.prems(1)] later_row_trans show ?case by blast
qed (auto intro: later_row_refl)

text \<open>A consumed challenge stays consumed as long as its row, and is not issued again while it stands.\<close>

definition used_up :: "uuid \<Rightarrow> issuer_db \<Rightarrow> bool" where
  "used_up cid d \<longleftrightarrow> (\<forall>r \<in> set (db_challenges d). ch_id r = cid \<longrightarrow> ch_consumed_at r \<noteq> None)"

fun issues :: "uuid \<Rightarrow> change \<Rightarrow> bool" where
  "issues cid (Challenged r) = (ch_id r = cid)"
| "issues cid _ = False"

lemma db_step_used_up: "db_step d ch d' \<Longrightarrow> used_up cid d \<Longrightarrow> \<not> issues cid ch \<Longrightarrow> used_up cid d'"
  by (induction rule: db_step.induct) (auto simp: used_up_def)

lemma db_runs_used_up:
  "db_runs d chs d' \<Longrightarrow> used_up cid d \<Longrightarrow> \<not> list_ex (issues cid) chs \<Longrightarrow> used_up cid d'"
  by (induction rule: db_runs.induct) (auto dest: db_step_used_up)

lemma used_up_not_live: "used_up cid d \<Longrightarrow> find (live_challenge now cid) (db_challenges d) = None"
  by (auto simp: used_up_def find_None_iff live_challenge_def)

text \<open>The log is append-only.\<close>

lemma db_step_log: "db_step d ch d' \<Longrightarrow> \<exists>evs. db_audit d' = db_audit d @ evs"
  by (induction rule: db_step.induct) auto

lemma db_runs_log: "db_runs d chs d' \<Longrightarrow> \<exists>evs. db_audit d' = db_audit d @ evs"
proof (induction rule: db_runs.induct)
  case (go d ch d1 chs d2)
  with db_step_log [OF go.hyps(1)] show ?case by auto
qed simp

section \<open>The counters in the log\<close>

lemma update_device_ids:
  assumes "\<And>r. dv_id (f r) = dv_id r"
  shows "dv_id ` set (db_devices (update_device did f d)) = dv_id ` set (db_devices d)"
proof -
  have "map dv_id (db_devices (update_device did f d)) = map dv_id (db_devices d)"
    using assms by (simp add: update_device_def map_if_same del: map_map)
  then show ?thesis by (metis list.set_map)
qed

definition log_counters :: "uuid \<Rightarrow> audit_row list \<Rightarrow> int list" where
  "log_counters did evs =
     map (the \<circ> logged_counter) (filter (event_of ''assertion_verified'' did) evs)"

definition log_ok :: "issuer_db \<Rightarrow> bool" where
  "log_ok d \<longleftrightarrow>
     (\<forall>did. sorted_wrt (<) (log_counters did (db_audit d)))
     \<and> (\<forall>r \<in> set (db_devices d). \<forall>n \<in> set (log_counters (dv_id r) (db_audit d)). n \<le> dv_counter r)
     \<and> (\<forall>did. did \<notin> dv_id ` set (db_devices d) \<longrightarrow> log_counters did (db_audit d) = [])"

lemma log_counters_simps [simp]:
  "log_counters did [] = []"
  "log_counters did (evs @ [ev]) = log_counters did evs
     @ (if event_of ''assertion_verified'' did ev then [the (logged_counter ev)] else [])"
  by (simp_all add: log_counters_def)

lemma log_ok_silent:
  assumes "log_ok d" and "\<And>did. log_counters did (db_audit d') = log_counters did (db_audit d)"
    and "\<forall>r' \<in> set (db_devices d'). (\<exists>r \<in> set (db_devices d). dv_id r = dv_id r' \<and> dv_counter r \<le> dv_counter r')
      \<or> dv_id r' \<notin> dv_id ` set (db_devices d)"
    and "dv_id ` set (db_devices d) \<subseteq> dv_id ` set (db_devices d')"
  shows "log_ok d'"
  unfolding log_ok_def assms(2)
proof (intro conjI allI ballI impI)
  fix r' n
  assume "r' \<in> set (db_devices d')" "n \<in> set (log_counters (dv_id r') (db_audit d))"
  with assms(1,3) show "n \<le> dv_counter r'" unfolding log_ok_def by fastforce
next
  fix did
  assume "did \<notin> dv_id ` set (db_devices d')"
  with assms(4) have "did \<notin> dv_id ` set (db_devices d)" by blast
  with assms(1) show "log_counters did (db_audit d) = []" by (simp add: log_ok_def)
qed (use assms(1) in \<open>simp add: log_ok_def\<close>)

lemma db_step_log_ok: "db_step d ch d' \<Longrightarrow> db_wf d \<Longrightarrow> log_ok d \<Longrightarrow> log_ok d'"
proof (induction rule: db_step.induct)
  case (enrolled d u r ev)
  have silent: "\<not> event_of ''assertion_verified'' did ev" for did
    using enrolled(2) by (simp add: event_of_def)
  have new: "dv_id r \<notin> dv_id ` set (db_devices d)"
    using enrolled(1) by (simp add: fresh_device_def)
  show ?case
  proof (rule log_ok_silent [OF enrolled(4)])
    show "\<forall>r' \<in> set (db_devices (log_event ev (d\<lparr>db_users := db_users d @ [u], db_devices := db_devices d @ [r]\<rparr>))).
      (\<exists>s \<in> set (db_devices d). dv_id s = dv_id r' \<and> dv_counter s \<le> dv_counter r')
      \<or> dv_id r' \<notin> dv_id ` set (db_devices d)"
      using new by (simp del: bex_simps) blast
  qed (auto simp: silent)
next
  case (advanced r d did n digest ev now)
  let ?f = "\<lambda>r. r\<lparr>dv_counter := n, dv_last_digest := Some digest, dv_last_assertion_at := Some now\<rparr>"
  have ev: "event_of ''assertion_verified'' i ev \<longleftrightarrow> i = did" for i
    using advanced by (auto simp: event_of_def)
  have below: "\<forall>m \<in> set (log_counters did (db_audit d)). m < n"
    using advanced by (fastforce simp: log_ok_def)
  have same: "s = r" if "s \<in> set (db_devices d)" "dv_id s = did" for s
    using db_wf_same_id [of d s r] advanced that by simp
  have srt: "sorted_wrt (<) (log_counters i (db_audit d @ [ev]))" for i
    using advanced below by (simp add: ev log_ok_def sorted_wrt_append)
  have bnd: "m \<le> dv_counter s'"
    if s': "s' \<in> set (db_devices (update_device did ?f d))" and m: "m \<in> set (log_counters (dv_id s') (db_audit d @ [ev]))"
    for s' m
  proof -
    from s' obtain s where s: "s \<in> set (db_devices d)" "s' = (if dv_id s = did then ?f s else s)" by auto
    show ?thesis
    proof (cases "dv_id s = did")
      case True
      with s m below advanced show ?thesis by (auto simp: ev)
    next
      case False
      with s m advanced.prems show ?thesis by (auto simp: ev log_ok_def)
    qed
  qed
  have ids: "dv_id ` set (db_devices (update_device did ?f d)) = dv_id ` set (db_devices d)"
    by (rule update_device_ids) simp
  have new: "log_counters i (db_audit d @ [ev]) = []" if "i \<notin> dv_id ` set (db_devices d)" for i
    using advanced that by (auto simp: log_ok_def ev)
  show ?case
    unfolding log_ok_def devices_log_event audit_log_event update_device_simps(3) ids
    using srt bnd new by blast
next
  case (flagged r d did n digest ev now)
  have silent: "\<not> event_of ''assertion_verified'' i ev" for i
    using flagged(6) by (simp add: event_of_def)
  let ?f = "\<lambda>r. r\<lparr>dv_status := ''flagged'', dv_flagged_at := Some now,
              dv_flagged_reason := Some ''counter_conflict''\<rparr>"
  have ids: "dv_id ` set (db_devices (update_device did ?f d)) = dv_id ` set (db_devices d)"
    by (rule update_device_ids) simp
  have "\<exists>s \<in> set (db_devices d). dv_id s = dv_id s' \<and> dv_counter s \<le> dv_counter s'"
    if "s' \<in> set (db_devices (update_device did ?f d))" for s'
    using that by auto
  then show ?case
    using ids silent by (intro log_ok_silent [OF flagged.prems(2)]) (simp_all del: update_device_simps(4))
next
  case (noted ev d)
  then have "\<not> event_of ''assertion_verified'' i ev" for i by (auto simp: event_of_def)
  then show ?case by (intro log_ok_silent [OF noted.prems(2)]) auto
qed (auto simp: log_ok_def)

lemma db_runs_log_ok: "db_runs d chs d' \<Longrightarrow> db_wf d \<Longrightarrow> log_ok d \<Longrightarrow> log_ok d'"
  by (induction rule: db_runs.induct) (auto dest: db_step_log_ok db_step_wf)

lemma log_ok_empty: "log_ok empty_db"
  by (simp add: log_ok_def empty_db_def)

end
