(* ===== verification/IssuerEffects.thy ===== *)
theory IssuerEffects
  imports IssuerSteps
begin

text \<open>
  What the operations of the issuer service do to the tables, whatever happens to the
  connection: each call commits a sequence of steps of the specification \<open>db_step\<close>, and
  its answer says which. The rules below split a run of an action by the outcome of each
  database call.
\<close>

section \<open>Outcomes of actions\<close>

lemma queryE:
  assumes "query st c = (r, c')"
  obtains (heard) "r = map_err (\<lambda>_. Internal) (fst (st (c_db c)))" "c_db c' = snd (st (c_db c))"
  | (unheard) "r = Inl Internal" "c_db c' = snd (st (c_db c))"
  | (lost) "r = Inl Internal" "c_db c' = c_db c"
  using assms
  by (auto simp: query_def execute_def split: prod.splits fault.splits dest: take_fault_db)

lemma pool_getE:
  assumes "pool_get c = (r, c')"
  obtains "c_db c' = c_db c" "r = Inr () \<or> r = Inl Internal"
  using assms by (auto simp: pool_get_def split: prod.splits fault.splits dest: take_fault_db)

lemma query_Inl: "query st c = (Inl e, c') \<Longrightarrow> e = Internal"
  by (auto simp: query_def map_err_eq_Inl split: prod.splits)

lemma transactionE:
  assumes "transaction body c = (r, c')"
  obtains (broken) "r = Inl Internal" "c_db c' = c_db c"
  | (rolled_back) e c1 c2 where "c_db c1 = c_db c" "body c1 = (Inl e, c2)" "r = Inl e" "c_db c' = c_db c"
  | (committed) a c1 c2 where "c_db c1 = c_db c" "body c1 = (Inr a, c2)" "r = Inr a \<or> r = Inl Internal"
      "c_db c' = c_db c2"
  using assms unfolding transaction_def by (rule in_transactionE) (rule that; assumption)+

lemmas act_simps = areturn_def afail_def aresult_def rejecting_def audit_reject_def audit_def

section \<open>Statements as steps\<close>

lemma find_where:
  assumes "distinct (map key rows)" and "\<And>r. P r \<Longrightarrow> key r = k"
  shows "update_where P f rows =
     (case find P rows of None \<Rightarrow> (0, rows)
      | Some r \<Rightarrow> (1, map (\<lambda>s. if key s = k then f s else s) rows))"
  using assms(1)
proof (induction rows)
  case (Cons x rows)
  show ?case
  proof (cases "P x")
    case True
    then have k: "key x = k" by (rule assms(2))
    with Cons.prems have "k \<notin> key ` set rows" by simp
    then have no: "\<forall>s \<in> set rows. key s \<noteq> k" by (auto simp: image_iff)
    then have "\<forall>s \<in> set rows. \<not> P s" using assms(2) by blast
    then have "filter P rows = []" "map (\<lambda>r. if P r then f r else r) rows = rows"
      by (auto simp: filter_empty_conv intro: map_idI)
    moreover have "map (\<lambda>s. if key s = k then f s else s) rows = rows"
      using no by (auto intro: map_idI)
    ultimately show ?thesis using True k by (simp add: update_where_def)
  next
    case False
    have "k \<noteq> key x" if "find P rows = Some r" for r
    proof -
      from that have "r \<in> set rows" "P r" by (auto simp: find_Some_iff)
      with Cons.prems assms(2) [of r] show ?thesis by (auto simp: image_iff)
    qed
    with Cons False show ?thesis by (auto simp: update_where_def split: option.splits)
  qed
qed (simp add: update_where_def)

lemma find_row: "find P rows = Some r \<Longrightarrow> r \<in> set rows \<and> P r"
  by (auto simp: find_Some_iff)

text \<open>Consuming: the row found becomes consumed, and unchanged changes when there is none.\<close>

lemma consume_step:
  assumes "db_wf d" and "sql_consume_challenge cid now d = (Inr row, d')"
  shows "case row of
      None \<Rightarrow> d' = d \<and> find (live_challenge now cid) (db_challenges d) = None
    | Some ch \<Rightarrow> db_step d (Consumed cid now) d' \<and> used_up cid d'
        \<and> (\<exists>r \<in> set (db_challenges d). live_challenge now cid r \<and> ch_challenge r = ch)"
proof -
  have key: "\<And>r. live_challenge now cid r \<Longrightarrow> ch_id r = cid" by (simp add: live_challenge_def)
  have u: "update_where (live_challenge now cid) f (db_challenges d) =
     (case find (live_challenge now cid) (db_challenges d) of None \<Rightarrow> (0, db_challenges d)
      | Some r \<Rightarrow> (1, map (\<lambda>s. if ch_id s = cid then f s else s) (db_challenges d)))" for f
    using assms(1) key by (intro find_where) (simp_all add: db_wf_def)
  show ?thesis
  proof (cases "find (live_challenge now cid) (db_challenges d)")
    case None
    with assms(2) u show ?thesis by (auto simp: sql_consume_challenge_def)
  next
    case (Some r)
    from find_row [OF Some] have r: "r \<in> set (db_challenges d)" "live_challenge now cid r" by simp_all
    have d': "d' = d\<lparr>db_challenges := map (\<lambda>s. if ch_id s = cid then s\<lparr>ch_consumed_at := Some now\<rparr> else s)
        (db_challenges d)\<rparr>" and row: "row = Some (ch_challenge r)"
      using assms(2) u Some by (simp_all add: sql_consume_challenge_def)
    have "\<forall>s \<in> set (map (\<lambda>s. if ch_id s = cid then s\<lparr>ch_consumed_at := Some now\<rparr> else s) cs).
        ch_id s = cid \<longrightarrow> ch_consumed_at s \<noteq> None" for cs
      by (induction cs) auto
    then have "used_up cid d'" by (simp add: d' used_up_def del: set_map)
    moreover have "db_step d (Consumed cid now) d'"
      unfolding d' using r by (rule db_step.consumed)
    ultimately show ?thesis using r row by auto
  qed
qed

text \<open>A conditional update of one device is a step, or changes unchanged.\<close>

lemma update_devices_one:
  assumes "db_wf d" and key: "\<And>r. P r \<Longrightarrow> dv_id r = did"
    and run: "sql_update_devices P f d = (r, d')"
  obtains (none) "find P (db_devices d) = None" "r = Inr 0" "d' = d"
  | (one) s where "find P (db_devices d) = Some s" "r = Inr 1" "d' = update_device did f d"
      "list_all device_checks (db_devices (update_device did f d))"
  | (refused) s where "find P (db_devices d) = Some s" "r = Inl OtherSqlError" "d' = d"
      "\<not> list_all device_checks (db_devices (update_device did f d))"
proof -
  have u: "update_where P f (db_devices d) =
     (case find P (db_devices d) of None \<Rightarrow> (0, db_devices d)
      | Some r \<Rightarrow> (1, map (\<lambda>s. if dv_id s = did then f s else s) (db_devices d)))"
    using assms(1) key by (intro find_where) (simp_all add: db_wf_def)
  have ok: "list_all device_checks (db_devices d)" using assms(1) by (simp add: db_wf_def)
  show thesis
  proof (cases "find P (db_devices d)")
    case None
    with run u ok show thesis by (intro none) (simp_all add: sql_update_devices_def)
  next
    case (Some s)
    show thesis
    proof (cases "list_all device_checks (map (\<lambda>s. if dv_id s = did then f s else s) (db_devices d))")
      case True
      with run u Some show thesis
        by (intro one [OF Some]) (auto simp: sql_update_devices_def update_device_def)
    next
      case False
      with run u Some show thesis
        by (intro refused [OF Some]) (auto simp: sql_update_devices_def update_device_def)
    qed
  qed
qed

section \<open>Enrollment\<close>

definition enroll_event :: "crypto \<Rightarrow> uuid \<Rightarrow> uuid \<Rightarrow> parsed_enroll \<Rightarrow> attested_key \<Rightarrow> datetime \<Rightarrow> audit_row" where
  "enroll_event C uid did req k now =
     \<lparr>ev_occurred_at = now, ev_type = ''device_enrolled'', ev_user_id = Some uid, ev_device_id = Some did,
      ev_detail = enrolled_detail C req k\<rparr>"

definition enroll_change :: "crypto \<Rightarrow> uuid \<Rightarrow> uuid \<Rightarrow> parsed_enroll \<Rightarrow> attested_key \<Rightarrow> datetime \<Rightarrow> change" where
  "enroll_change C uid did req k now =
     Enrolled \<lparr>us_id = uid, us_created_at = now\<rparr> (new_device uid did req k now)
       (enroll_event C uid did req k now)"

lemma query_Inr:
  assumes "query st c = (Inr a, c')"
  shows "st (c_db c) = (Inr a, c_db c')"
  using assms by (cases "st (c_db c)"; cases "fst (st (c_db c))") (auto elim!: queryE)

lemma execute_Inr:
  assumes "execute st c = (Inr a, c')"
  shows "st (c_db c) = (Inr a, c_db c')"
  using assms by (cases "st (c_db c)") (auto elim!: executeE)

lemma audit_Inr:
  assumes "audit typ uid did detail now c = (Inr u, c')"
  shows "c_db c' = log_event \<lparr>ev_occurred_at = now, ev_type = typ, ev_user_id = uid, ev_device_id = did,
      ev_detail = detail\<rparr> (c_db c)"
  using assms
  by (auto simp: audit_def areturn_def sql_insert_audit_def log_event_def elim!: abindE dest!: query_Inr)

lemma insert_device_tx_Inr:
  assumes "insert_device_tx C now uid did req k c = (Inr u, c')"
  shows "db_step (c_db c) (enroll_change C uid did req k now) (c_db c')"
proof -
  let ?u = "\<lparr>us_id = uid, us_created_at = now\<rparr>" and ?r = "new_device uid did req k now"
  from assms obtain c1 c2 n m where steps: "query (sql_insert_user uid now) c = (Inr n, c1)"
    "execute (sql_insert_device ?r) c1 = (Inr m, c2)"
    "audit ''device_enrolled'' (Some uid) (Some did) (enrolled_detail C req k) now c2 = (Inr u, c')"
    by (auto simp: insert_device_tx_def abind_def split: prod.splits sum.splits)
  note u = query_Inr [OF steps(1)] and r = execute_Inr [OF steps(2)]
  have a: "c_db c' = log_event (enroll_event C uid did req k now) (c_db c2)"
    using audit_Inr [OF steps(3)] by (simp add: enroll_event_def)
  from u have u': "us_id ?u \<notin> us_id ` set (db_users (c_db c))"
    "c_db c1 = (c_db c)\<lparr>db_users := db_users (c_db c) @ [?u]\<rparr>"
    by (auto simp: sql_insert_user_def split: if_splits)
  from r u'(2) have r': "dv_id ?r \<notin> dv_id ` set (db_devices (c_db c))" "device_checks ?r"
    "dv_thumbprint ?r \<notin> dv_thumbprint ` set (db_devices (c_db c))"
    "dv_key_id ?r \<notin> dv_key_id ` set (db_devices (c_db c))"
    "c_db c2 = (c_db c)\<lparr>db_users := db_users (c_db c) @ [?u], db_devices := db_devices (c_db c) @ [?r]\<rparr>"
    by (auto simp: sql_insert_device_def split: if_splits)
  have "fresh_device (c_db c) ?u ?r"
    using u' r' by (simp add: fresh_device_def) (simp add: new_device_def)
  then show ?thesis
    unfolding a r'(5) enroll_change_def
    by (rule db_step.enrolled) (simp add: event_of_def enroll_event_def new_device_def)
qed

lemma audit_reject_db:
  "c_db (audit_reject typ did reason now c) = c_db c \<or>
   (\<exists>ev. ev_type ev = typ \<and> c_db (audit_reject typ did reason now c) = log_event ev (c_db c))"
proof -
  obtain r c' where a: "audit typ None did (JObj [(''reason'', JStr reason)]) now c = (r, c')" by force
  then have "c_db c' = c_db c \<or> (\<exists>ev. ev_type ev = typ \<and> c_db c' = log_event ev (c_db c))"
    by (auto simp: audit_def areturn_def sql_insert_audit_def log_event_def elim!: abindE queryE
      dest!: query_Inr intro: exI [of _ "\<lparr>ev_occurred_at = now, ev_type = typ, ev_user_id = None,
        ev_device_id = did, ev_detail = JObj [(''reason'', JStr reason)]\<rparr>"])
  with a show ?thesis by (simp add: audit_reject_def)
qed

text \<open>A rejection leaves at most one audit event, which names no success.\<close>

definition noted :: "string \<Rightarrow> issuer_db \<Rightarrow> issuer_db \<Rightarrow> bool" where
  "noted typ d d' \<longleftrightarrow> d' = d \<or> (\<exists>ev. ev_type ev = typ \<and> db_step d (Noted ev) d')"

lemma noted_refl [simp]: "noted typ d d"
  by (simp add: noted_def)

definition rejection_types :: "string set" where
  "rejection_types = {''enrollment_rejected'', ''assertion_rejected'', ''assertion_replay_rejected''}"

lemma noted_log: "typ \<in> rejection_types \<Longrightarrow> ev_type ev = typ \<Longrightarrow> noted typ d (log_event ev d)"
proof -
  assume "typ \<in> rejection_types" "ev_type ev = typ"
  then have "db_step d (Noted ev) (log_event ev d)"
    by (intro db_step.noted) (auto simp: rejection_types_def)
  with \<open>ev_type ev = typ\<close> show ?thesis by (auto simp: noted_def)
qed

lemma rejecting_noted:
  assumes "rejecting typ did reason now e c = (r, c')" and "typ \<in> rejection_types"
  shows "r = Inl e" and "noted typ (c_db c) (c_db c')"
  using assms audit_reject_db [of "typ" did reason now c] noted_log
  by (auto simp: rejecting_def)

lemma noted_runs: "noted typ d d' \<Longrightarrow> \<exists>chs. db_runs d chs d' \<and> (\<forall>ch \<in> set chs. \<exists>ev. ch = Noted ev)"
  unfolding noted_def by (metis db_runs.intros emptyE insertE list.set(1) list.simps(15))

lemma insert_deviceE:
  assumes "insert_device C now uid did req k c = (r, c')"
  obtains (inserted) "r = Inr () \<or> r = Inl Internal"
      "db_step (c_db c) (enroll_change C uid did req k now) (c_db c')"
  | (refused) e where "r = Inl e" "noted ''enrollment_rejected'' (c_db c) (c_db c')"
proof -
  obtain rt ct where t: "transaction (insert_device_tx C now uid did req k) c = (rt, ct)" by force
  show thesis
  proof (cases "rt = Inl AlreadyEnrolled")
    case True
    with assms t have run: "rejecting ''enrollment_rejected'' None ''already_enrolled'' now AlreadyEnrolled ct = (r, c')"
      by (simp add: insert_device_def)
    have "c_db ct = c_db c" using t True by (auto elim!: transactionE)
    with rejecting_noted [OF run] show thesis by (intro refused) (auto simp: rejection_types_def)
  next
    case False
    with assms t have eq: "r = rt" "c' = ct"
      by (auto simp: insert_device_def split: sum.splits api_error.splits)
    from t show thesis
    proof (cases rule: transactionE)
      case (committed a c1 c2)
      from insert_device_tx_Inr [OF committed(2)] committed eq show thesis by (intro inserted) auto
    qed (use eq refused in auto)
  qed
qed

definition enroll_answer :: "uuid \<Rightarrow> uuid \<Rightarrow> attested_key \<Rightarrow> enroll_response" where
  "enroll_answer uid did k = \<lparr>en_user_id = uid, en_device_id = did, en_attestation_type = ''app_attest'',
     en_environment = attest_env_as_str (ak_environment k)\<rparr>"

text \<open>The answers that say the challenge was used.\<close>

fun spends :: "api_error \<Rightarrow> bool" where
  "spends (Rejected _ _) = True"
| "spends AlreadyEnrolled = True"
| "spends _ = False"

lemma jwk_error_reason: "parse_enroll_request C L D body = Inl e \<Longrightarrow> \<exists>reason. e = BadRequest reason"
  by (auto simp: parse_enroll_request_def decode_exact_def rbind_eq_Inl map_err_eq_Inl ok_or_def
    split: if_splits option.splits)

lemma enrollE:
  assumes run: "enroll C L D cfg root_pem cx uid did body c = (r, c')" and wf: "db_wf (c_db c)"
  obtains (untouched) e where "r = Inl e" "\<not> spends e" "noted ''enrollment_rejected'' (c_db c) (c_db c')"
  | (spent) e req d1 where "r = Inl e" "parse_enroll_request C L D body = Inr req"
      "db_step (c_db c) (Consumed (pe_challenge_id req) (cx_now cx)) d1" "used_up (pe_challenge_id req) d1"
      "noted ''enrollment_rejected'' d1 (c_db c')"
  | (finished) req row d1 k where "parse_enroll_request C L D body = Inr req"
      "row \<in> set (db_challenges (c_db c))" "live_challenge (cx_now cx) (pe_challenge_id req) row"
      "db_step (c_db c) (Consumed (pe_challenge_id req) (cx_now cx)) d1" "used_up (pe_challenge_id req) d1"
      "verify_enrollment_at C L D cfg root_pem req (ch_challenge row) (cx_now_unix cx) = Inr k"
      "db_step d1 (enroll_change C uid did req k (cx_tx_now cx)) (c_db c')"
      "r = Inr (enroll_answer uid did k) \<or> r = Inl Internal"
proof (cases "parse_enroll_request C L D body")
  case (Inl e)
  moreover from jwk_error_reason [OF Inl] have "\<not> spends e" by auto
  ultimately show thesis using run by (intro untouched [of e]) (simp_all add: enroll_def afail_def)
next
  case parsed: (Inr req)
  define rest where "rest = (\<lambda>row. case row of
       None \<Rightarrow> rejecting ''enrollment_rejected'' None ''invalid_challenge'' (cx_now cx) InvalidChallenge
     | Some challenge \<Rightarrow>
         (case verify_enrollment_at C L D cfg root_pem req challenge (cx_now_unix cx) of
            Inr attested \<Rightarrow>
              abind (insert_device C (cx_tx_now cx) uid did req attested) (\<lambda>_.
              areturn (enroll_answer uid did attested))
          | Inl e \<Rightarrow> rejecting ''enrollment_rejected'' None (error_reason e) (cx_now cx) e))"
  let ?consume = "sql_consume_challenge (pe_challenge_id req) (cx_now cx)"
  from run parsed have "abind pool_get (\<lambda>_. abind (query ?consume) rest) c = (r, c')"
    unfolding rest_def by (simp add: enroll_def enroll_answer_def cong: option.case_cong sum.case_cong)
  then show thesis
  proof (cases rule: abindE)
    case (fails e)
    then show thesis by (intro untouched [of e]) (auto elim!: pool_getE)
  next
    case (goes u c1)
    then have db1: "c_db c1 = c_db c" by (auto elim!: pool_getE)
    from goes(2) show thesis
    proof (cases rule: abindE)
      case (fails e)
      obtain row d1 where q: "?consume (c_db c) = (Inr row, d1)" by (simp add: sql_consume_challenge_def)
      from fails(1) q db1 have "c_db c' = c_db c \<or> c_db c' = d1" by (auto elim!: queryE)
      moreover have "\<not> spends e" using query_Inl [OF fails(1)] by simp
      ultimately show thesis
        using consume_step [OF wf q] fails(2) parsed untouched spent by (cases row) auto
    next
      case (goes row c2)
      from query_Inr [OF goes(1)] db1 have q: "?consume (c_db c) = (Inr row, c_db c2)" by simp
      show thesis
      proof (cases row)
        case None
        with consume_step [OF wf q] have db2: "c_db c2 = c_db c" by simp
        from goes(2) None have "rejecting ''enrollment_rejected'' None ''invalid_challenge'' (cx_now cx)
          InvalidChallenge c2 = (r, c')" by (simp add: rest_def)
        from rejecting_noted [OF this] db2 show thesis
          by (intro untouched) (auto simp: rejection_types_def)
      next
        case (Some challenge)
        with consume_step [OF wf q] obtain row' where
          step: "db_step (c_db c) (Consumed (pe_challenge_id req) (cx_now cx)) (c_db c2)"
            "used_up (pe_challenge_id req) (c_db c2)"
          and row': "row' \<in> set (db_challenges (c_db c))" "live_challenge (cx_now cx) (pe_challenge_id req) row'"
            "ch_challenge row' = challenge" by auto
        show thesis
        proof (cases "verify_enrollment_at C L D cfg root_pem req challenge (cx_now_unix cx)")
          case (Inl e)
          with goes(2) Some have "rejecting ''enrollment_rejected'' None (error_reason e) (cx_now cx) e c2
            = (r, c')" by (simp add: rest_def)
          from rejecting_noted [OF this] show thesis
            by (intro spent [OF _ parsed step]) (auto simp: rejection_types_def)
        next
          case (Inr k)
          obtain ri ci where i: "insert_device C (cx_tx_now cx) uid did req k c2 = (ri, ci)" by force
          with goes(2) Some Inr have r: "c' = ci" "r = (case ri of Inl e \<Rightarrow> Inl e | Inr _ \<Rightarrow> Inr (enroll_answer uid did k))"
            by (auto simp: rest_def abind_def areturn_def split: sum.splits)
          from i show thesis
          proof (cases rule: insert_deviceE)
            case inserted
            with r row' Inr step parsed show thesis by (intro finished [of req row' "c_db c2" k]) auto
          next
            case (refused e)
            with r spent [OF _ parsed step] show thesis by auto
          qed
        qed
      qed
    qed
  qed
qed

section \<open>Assertions\<close>

definition advance_change :: "crypto \<Rightarrow> parsed_assertion \<Rightarrow> uuid \<Rightarrow> u32 \<Rightarrow> datetime \<Rightarrow> change" where
  "advance_change C req uid n now =
     Advanced (pa_device_id req) (uint n) (pa_payload_digest req) now
       \<lparr>ev_occurred_at = now, ev_type = ''assertion_verified'', ev_user_id = Some uid,
        ev_device_id = Some (pa_device_id req), ev_detail = verified_detail C (pa_payload_digest req) n\<rparr>"

definition flag_change :: "parsed_assertion \<Rightarrow> uuid \<Rightarrow> u32 \<Rightarrow> datetime \<Rightarrow> change" where
  "flag_change req uid n now =
     Flagged (pa_device_id req) (uint n) (pa_payload_digest req) now
       \<lparr>ev_occurred_at = now, ev_type = ''device_flagged'', ev_user_id = Some uid,
        ev_device_id = Some (pa_device_id req), ev_detail = stale_detail True n\<rparr>"

lemma logged_verified:
  "ev_detail ev = verified_detail C digest n \<Longrightarrow> logged_counter ev = Some (uint n)"
proof -
  have "uint n < 2 ^ 64" using uint_lt2p [of n] by simp
  moreover assume "ev_detail ev = verified_detail C digest n"
  ultimately show ?thesis
    by (simp add: logged_counter_def verified_detail_def json_get_def unsigned_ucast_eq take_bit_int_eq_self)
qed

lemma advance_step:
  assumes wf: "db_wf d" and run: "sql_advance_counter did (uint (n :: u32)) digest now d = (r, d1)"
  shows "(r = Inr 1 \<longrightarrow> (\<exists>s \<in> set (db_devices d). dv_id s = did \<and> dv_status s = ''active''
      \<and> dv_counter s < uint n) \<and> (\<forall>ev. event_of ''assertion_verified'' did ev
        \<and> logged_counter ev = Some (uint n) \<longrightarrow>
      db_step d (Advanced did (uint n) digest now ev) (log_event ev d1)))
    \<and> (r \<noteq> Inr 1 \<longrightarrow> d1 = d)"
proof -
  let ?P = "\<lambda>s. dv_id s = did \<and> dv_status s = ''active'' \<and> dv_counter s < uint n"
  let ?f = "\<lambda>s. s\<lparr>dv_counter := uint n, dv_last_digest := Some digest, dv_last_assertion_at := Some now\<rparr>"
  from run have run: "sql_update_devices ?P ?f d = (r, d1)" by (simp add: sql_advance_counter_def)
  show ?thesis
  proof (rule update_devices_one [OF wf _ run, of did], goal_cases key none one refused)
    case (one s)
    from find_row [OF one(1)] have s: "s \<in> set (db_devices d)" "?P s" by simp_all
    have "?f s \<in> set (db_devices (update_device did ?f d))"
      using s by (simp only: update_device_simps) (rule image_eqI [of _ _ s], simp_all)
    with one(4) have "device_checks (?f s)" by (auto simp: list_all_iff)
    then have digest: "length digest = 32" by (simp add: device_checks_def)
    have n: "uint n \<le> 4294967295" using uint_lt2p [of n] by simp
    have "db_step d (Advanced did (uint n) digest now ev) (log_event ev (update_device did ?f d))"
      if "event_of ''assertion_verified'' did ev \<and> logged_counter ev = Some (uint n)" for ev
      using s n digest that by (intro db_step.advanced [of s]) simp_all
    with s one show ?thesis by auto
  qed auto
qed

lemma flag_step:
  assumes wf: "db_wf d" and run: "sql_flag_device did n digest now d = (r, d1)"
  shows "(r = Inr 1 \<longrightarrow> (\<exists>s \<in> set (db_devices d). dv_id s = did \<and> dv_status s = ''active''
      \<and> dv_counter s = n \<and> dv_last_digest s \<noteq> Some digest)
      \<and> (\<forall>ev. event_of ''device_flagged'' did ev \<longrightarrow> db_step d (Flagged did n digest now ev) (log_event ev d1)))
    \<and> (r \<noteq> Inr 1 \<longrightarrow> d1 = d)"
proof -
  let ?P = "\<lambda>s. dv_id s = did \<and> dv_status s = ''active'' \<and> dv_counter s = n \<and> dv_last_digest s \<noteq> Some digest"
  let ?f = "\<lambda>s. s\<lparr>dv_status := ''flagged'', dv_flagged_at := Some now,
              dv_flagged_reason := Some ''counter_conflict''\<rparr>"
  from run have run: "sql_update_devices ?P ?f d = (r, d1)" by (simp add: sql_flag_device_def)
  show ?thesis
  proof (rule update_devices_one [OF wf _ run, of did], goal_cases key none one refused)
    case (one s)
    from find_row [OF one(1)] have s: "s \<in> set (db_devices d)" "?P s" by simp_all
    have "db_step d (Flagged did n digest now ev) (log_event ev (update_device did ?f d))"
      if "event_of ''device_flagged'' did ev" for ev
      using s that by (intro db_step.flagged [of s]) simp_all
    with s one show ?thesis by auto
  qed auto
qed

text \<open>What the transaction answers and does when it commits.\<close>

lemma settle_counter_txE:
  assumes run: "settle_counter_tx C now req row n c = (Inr a, c')" and wf: "db_wf (c_db c)"
  obtains (accepted) s where "a = Inr (accepted_response req row n)"
      "db_step (c_db c) (advance_change C req (dv_user_id row) n now) (c_db c')"
      "s \<in> set (db_devices (c_db c))" "dv_id s = pa_device_id req" "dv_counter s < uint n"
  | (conflict) s where "a = Inl CounterConflict"
      "db_step (c_db c) (flag_change req (dv_user_id row) n now) (c_db c')"
      "s \<in> set (db_devices (c_db c))" "dv_id s = pa_device_id req" "dv_status s = ''active''"
      "dv_counter s = uint n" "dv_last_digest s \<noteq> Some (pa_payload_digest req)"
  | (stale) e event where "a = Inl e" "e = AssertionReplay \<or> e = DeviceNotActive"
      "event \<in> rejection_types" "noted event (c_db c) (c_db c')"
proof -
  let ?adv = "sql_advance_counter (pa_device_id req) (uint n) (pa_payload_digest req) now"
  let ?flag = "sql_flag_device (pa_device_id req) (uint n) (pa_payload_digest req) now"
  obtain k c1 where q: "query ?adv c = (Inr k, c1)" and rest: "(if k = 1 then
       abind (audit ''assertion_verified'' (Some (dv_user_id row)) (Some (pa_device_id req))
         (verified_detail C (pa_payload_digest req) n) now) (\<lambda>_. areturn (Inr (accepted_response req row n)))
     else
     abind (query ?flag) (\<lambda>flagged.
     abind (if flagged = 1 then areturn (''device_flagged'', CounterConflict)
            else abind (query (sql_still_active (pa_device_id req))) (\<lambda>still_active.
              if still_active then areturn (''assertion_replay_rejected'', AssertionReplay)
              else areturn (''assertion_rejected'', DeviceNotActive))) (\<lambda>(event, err).
     abind (audit event (Some (dv_user_id row)) (Some (pa_device_id req)) (stale_detail (flagged = 1) n) now)
       (\<lambda>_. areturn (Inl err))))) c1 = (Inr a, c')"
    using run unfolding settle_counter_tx_def by (rule abindE) simp_all
  note adv = advance_step [OF wf query_Inr [OF q]]
  show thesis
  proof (cases "k = 1")
    case True
    with rest obtain u c2 where au: "audit ''assertion_verified'' (Some (dv_user_id row))
        (Some (pa_device_id req)) (verified_detail C (pa_payload_digest req) n) now c1 = (Inr u, c2)"
      and eq: "a = Inr (accepted_response req row n)" "c' = c2"
      by (auto simp: areturn_def elim!: abindE)
    with adv True audit_Inr [OF au] show thesis
      by (auto simp: advance_change_def event_of_def logged_verified intro!: accepted)
  next
    case False
    with adv have db1: "c_db c1 = c_db c" by simp
    from rest False obtain f c2 event err c3 u where f: "query ?flag c1 = (Inr f, c2)"
      and ev: "(if f = 1 then areturn (''device_flagged'', CounterConflict)
            else abind (query (sql_still_active (pa_device_id req))) (\<lambda>still_active.
              if still_active then areturn (''assertion_replay_rejected'', AssertionReplay)
              else areturn (''assertion_rejected'', DeviceNotActive))) c2 = (Inr (event, err), c3)"
      and au: "audit event (Some (dv_user_id row)) (Some (pa_device_id req)) (stale_detail (f = 1) n) now c3
        = (Inr u, c')" and eq: "a = Inl err"
      by (auto simp: areturn_def elim!: abindE)
    note flag = flag_step [OF _ query_Inr [OF f]]
    show thesis
    proof (cases "f = 1")
      case True
      with ev have "event = ''device_flagged''" "err = CounterConflict" "c3 = c2" by (simp_all add: areturn_def)
      with flag wf db1 True audit_Inr [OF au] eq show thesis
        by (auto simp: flag_change_def event_of_def intro!: conflict)
    next
      case f0: False
      with flag wf db1 have db2: "c_db c2 = c_db c" by simp
      from f0 ev have e: "err = AssertionReplay \<or> err = DeviceNotActive" "event \<in> rejection_types"
        and db3: "c_db c3 = c_db c2"
        by (auto simp: areturn_def sql_still_active_def rejection_types_def elim!: abindE dest!: query_Inr
          split: if_splits)
      with audit_Inr [OF au] db2 noted_log [OF e(2)] show thesis
        by (intro stale [OF eq e]) simp
    qed
  qed
qed

lemma audit_Inl: "audit typ uid did detail now c = (Inl e, c') \<Longrightarrow> e = Internal"
  by (auto simp: audit_def areturn_def elim!: abindE dest: query_Inl)

lemma settle_counter_tx_Inl: "settle_counter_tx C now req row n c = (Inl e, c') \<Longrightarrow> e = Internal"
  by (auto simp: settle_counter_tx_def areturn_def elim!: abindE dest!: query_Inl audit_Inl split: if_splits)

lemma verify_assertionE:
  assumes run: "verify_assertion C L D cfg cx body c = (r, c')" and wf: "db_wf (c_db c)"
  obtains (refused) e event where "r = Inl e" "e \<noteq> CounterConflict"
      "event \<in> rejection_types" "noted event (c_db c) (c_db c')"
  | (accepted) req row n where "parse_assertion_request C D body = Inr req"
      "row \<in> set (db_devices (c_db c))" "dv_id row = pa_device_id req" "check_device cfg row = Inr ()"
      "verify_assertion_object C L (pa_assertion req) (pa_payload_digest req) (dv_app_id row)
         (dv_public_key row) = Inr n"
      "dv_counter row < uint n"
      "db_step (c_db c) (advance_change C req (dv_user_id row) n (cx_tx_now cx)) (c_db c')"
      "r = Inr (accepted_response req row n) \<or> r = Inl Internal"
  | (conflict) req row n where "parse_assertion_request C D body = Inr req"
      "row \<in> set (db_devices (c_db c))" "dv_id row = pa_device_id req" "check_device cfg row = Inr ()"
      "verify_assertion_object C L (pa_assertion req) (pa_payload_digest req) (dv_app_id row)
         (dv_public_key row) = Inr n"
      "dv_counter row = uint n" "dv_last_digest row \<noteq> Some (pa_payload_digest req)"
      "db_step (c_db c) (flag_change req (dv_user_id row) n (cx_tx_now cx)) (c_db c')"
      "r = Inl CounterConflict \<or> r = Inl Internal"
proof (cases "parse_assertion_request C D body")
  case (Inl e)
  then have "e \<noteq> CounterConflict"
    by (auto simp: parse_assertion_request_def decode_exact_def rbind_eq_Inl map_err_eq_Inl split: if_splits)
  with run Inl show thesis
    by (intro refused [of e "''assertion_rejected''"])
      (simp_all add: verify_assertion_def afail_def rejection_types_def)
next
  case parsed: (Inr req)
  let ?found = "find (\<lambda>r. dv_id r = pa_device_id req) (db_devices (c_db c))"
  have event: "''assertion_rejected'' \<in> rejection_types" by (simp add: rejection_types_def)
  define judge where "judge = (\<lambda>row. abind (aresult (check_device cfg row)) (\<lambda>_.
         case verify_assertion_object C L (pa_assertion req) (pa_payload_digest req) (dv_app_id row)
                (dv_public_key row) of
           Inl e \<Rightarrow> rejecting ''assertion_rejected'' (Some (pa_device_id req)) (attest_code e) (cx_now cx)
                     (assertion_rejected (attest_code e))
         | Inr n \<Rightarrow> abind (transaction (settle_counter_tx C (cx_tx_now cx) req row n)) aresult))"
  from run parsed have "abind pool_get (\<lambda>_. abind (query (sql_find_device (pa_device_id req)))
      (\<lambda>row. case row of None \<Rightarrow> afail UnknownDevice | Some row \<Rightarrow> judge row)) c = (r, c')"
    unfolding judge_def by (simp add: verify_assertion_def cong: option.case_cong)
  then have "\<exists>c1. c_db c1 = c_db c \<and> (r = Inl Internal \<and> c_db c' = c_db c \<or>
      (case ?found of None \<Rightarrow> afail UnknownDevice | Some row \<Rightarrow> judge row) c1 = (r, c'))"
    by (auto simp: sql_find_device_def elim!: abindE pool_getE queryE intro: exI [of _ c])
  then obtain c1 where db1: "c_db c1 = c_db c" and split: "r = Inl Internal \<and> c_db c' = c_db c \<or>
      (case ?found of None \<Rightarrow> afail UnknownDevice | Some row \<Rightarrow> judge row) c1 = (r, c')" by blast
  show thesis
  proof (cases "r = Inl Internal \<and> c_db c' = c_db c")
    case True
    with event show thesis by (intro refused [of Internal]) auto
  next
    case False
    show thesis
    proof (cases ?found)
      case None
      with False split db1 event show thesis by (intro refused [of UnknownDevice]) (auto simp: afail_def)
    next
      case (Some row)
      with False split have j: "judge row c1 = (r, c')"
        and row: "row \<in> set (db_devices (c_db c))" "dv_id row = pa_device_id req"
        using find_row [OF Some] by auto
      show thesis
      proof (cases "check_device cfg row")
        case (Inl e)
        then have "e \<noteq> CounterConflict" by (auto simp: check_device_def assertion_rejected_def split: if_splits)
        with j Inl db1 event show thesis by (intro refused [of e]) (auto simp: judge_def afail_def)
      next
        case checked: (Inr u)
        show thesis
        proof (cases "verify_assertion_object C L (pa_assertion req) (pa_payload_digest req) (dv_app_id row)
                (dv_public_key row)")
          case (Inl e)
          with j checked have "rejecting ''assertion_rejected'' (Some (pa_device_id req)) (attest_code e)
            (cx_now cx) (assertion_rejected (attest_code e)) c1 = (r, c')" by (simp add: judge_def)
          from rejecting_noted [OF this event] db1 event show thesis
            by (intro refused) (auto simp: assertion_rejected_def)
        next
          case (Inr n)
          from j checked Inr obtain rt ct where
            t: "transaction (settle_counter_tx C (cx_tx_now cx) req row n) c1 = (rt, ct)"
            and r: "c' = ct" "r = (case rt of Inl e \<Rightarrow> Inl e | Inr a \<Rightarrow> a)"
            by (cases "transaction (settle_counter_tx C (cx_tx_now cx) req row n) c1")
              (auto simp: judge_def abind_def aresult_def split: sum.splits)
          from t show thesis
          proof (cases rule: transactionE)
            case broken
            with r db1 event show thesis by (intro refused [of Internal]) auto
          next
            case (rolled_back e c2 c3)
            then have "e = Internal" by (blast dest: settle_counter_tx_Inl)
            with rolled_back r db1 event show thesis by (intro refused [of Internal]) auto
          next
            case (committed a c2 c3)
            with db1 wf have wf2: "db_wf (c_db c2)" and db2: "c_db c2 = c_db c" by simp_all
            have same: "s = row" if "s \<in> set (db_devices (c_db c2))" "dv_id s = pa_device_id req" for s
              using db_wf_same_id [OF wf2 that(1), of row] row db2 that(2) by simp
            have ans: "r = a \<or> r = Inl Internal" "c_db c' = c_db c3" using committed r by auto
            show thesis
            proof (rule settle_counter_txE [OF committed(2) wf2], goal_cases adv flag stale)
              case (adv s)
              with same [of s] ans db2 show ?case by (intro accepted [OF parsed row _ Inr]) (auto simp: checked)
            next
              case (flag s)
              with same [of s] ans db2 show ?case by (intro conflict [OF parsed row _ Inr]) (auto simp: checked)
            next
              case (stale e event)
              with ans db2 show ?case by (elim disjE) (auto intro: refused)
            qed
          qed
        qed
      qed
    qed
  qed
qed

section \<open>Challenges\<close>

lemma create_challengeE:
  assumes "create_challenge C cfg cx challenge cid c = (r, c')"
  obtains (unchanged) "r = Inl Internal" "c_db c' = c_db c"
  | (created) row where "db_step (c_db c) (Challenged row) (c_db c')" "ch_id row = cid"
      "r = Inl Internal \<or> r = Inr \<lparr>cr_challenge_id = cid, cr_challenge = b64_encode C challenge,
        cr_expires_at = cx_now cx + int (challenge_ttl cfg)\<rparr>"
proof -
  let ?row = "\<lparr>ch_id = cid, ch_challenge = challenge, ch_created_at = cx_now cx,
     ch_expires_at = cx_now cx + int (challenge_ttl cfg), ch_consumed_at = None\<rparr>"
  let ?st = "sql_insert_challenge cid challenge (challenge_ttl cfg) (cx_now cx)"
  have st: "(fst (?st d) = Inr (ch_expires_at ?row) \<and> db_step d (Challenged ?row) (snd (?st d)))
      \<or> (\<exists>e. fst (?st d) = Inl e) \<and> snd (?st d) = d" for d
    using db_step.challenged [of ?row d] by (auto simp: sql_insert_challenge_def Let_def)
  obtain u c1 where p: "pool_get c = (u, c1)" by force
  then have db1: "c_db c1 = c_db c" by (auto elim: pool_getE)
  show thesis
  proof (cases "u = Inr ()")
    case False
    with p have "u = Inl Internal" by (auto elim: pool_getE)
    with assms p have "r = Inl Internal" "c' = c1" by (simp_all add: create_challenge_def abind_def)
    with db1 show thesis by (simp add: unchanged)
  next
    case True
    obtain q c2 where q: "query ?st c1 = (q, c2)" by force
    with assms p True have r: "c' = c2" "r = (case q of Inl e \<Rightarrow> Inl e | Inr x \<Rightarrow> Inr \<lparr>cr_challenge_id = cid,
        cr_challenge = b64_encode C challenge, cr_expires_at = x\<rparr>)"
      by (auto simp: create_challenge_def abind_def areturn_def split: sum.splits)
    from q show thesis
      using st [of "c_db c"] db1 r unchanged created by (cases rule: queryE) auto
  qed
qed

lemma purge_expired_challengesE:
  assumes "purge_expired_challenges cx c = (r, c')"
  obtains (unchanged) "r = Inl Internal" "c_db c' = c_db c"
  | (purged) "db_step (c_db c) (Purged (cx_now cx)) (c_db c')" "r = Inl Internal \<or> (\<exists>n. r = Inr n)"
proof -
  have st: "\<exists>n. fst (sql_purge_challenges (cx_now cx) d) = Inr n"
    "db_step d (Purged (cx_now cx)) (snd (sql_purge_challenges (cx_now cx) d))" for d
    using db_step.purged [of d "cx_now cx"] by (simp_all add: sql_purge_challenges_def Let_def)
  from assms show thesis
    unfolding purge_expired_challenges_def
  proof (cases rule: abindE)
    case (fails e)
    then have "r = Inl Internal" "c_db c' = c_db c" by (auto elim!: pool_getE)
    then show thesis by (rule unchanged)
  next
    case (goes u c1)
    then have db1: "c_db c1 = c_db c" by (auto elim!: pool_getE)
    from goes(2) show thesis
      using st [of "c_db c"] db1 unchanged purged by (cases rule: queryE) auto
  qed
qed

end
