(* ===== verification/IssuerFlow.thy ===== *)
theory IssuerFlow
  imports IssuerEffects
begin

text \<open>
  The issuer service as a whole: sequences of calls on one database, each with its own
  faults, and what they guarantee. Every call refines the abstract machine of
  \<open>IssuerSteps\<close>; from its invariants follow what the log and the tables show, and what a
  success, a rejection and a flag mean.
\<close>

section \<open>Calls\<close>

datatype issuer_call =
    CreateChallenge call_ctx bytes uuid
  | PurgeChallenges call_ctx
  | EnrollDevice call_ctx uuid uuid bytes
  | VerifyAssertion call_ctx bytes

datatype issuer_ok =
    ChallengeMade challenge_response
  | ChallengesPurged nat
  | DeviceEnrolled enroll_response
  | AssertionVerified assertion_response

definition answered :: "('a \<Rightarrow> issuer_ok) \<Rightarrow> (api_error + 'a) \<times> conn \<Rightarrow> (api_error + issuer_ok) \<times> conn" where
  "answered f rc = (case fst rc of Inl e \<Rightarrow> Inl e | Inr a \<Rightarrow> Inr (f a), snd rc)"

record issuer_env =
  ie_crypto :: crypto
  ie_lib :: attest_lib
  ie_codec :: service_codec
  ie_config :: config
  ie_root_pem :: bytes

fun serve_call :: "issuer_env \<Rightarrow> issuer_call \<Rightarrow> issuer_ok act" where
  "serve_call E (CreateChallenge cx challenge cid) c =
     answered ChallengeMade (create_challenge (ie_crypto E) (ie_config E) cx challenge cid c)"
| "serve_call E (PurgeChallenges cx) c =
     answered ChallengesPurged (purge_expired_challenges cx c)"
| "serve_call E (EnrollDevice cx uid did body) c =
     answered DeviceEnrolled (enroll (ie_crypto E) (ie_lib E) (ie_codec E) (ie_config E) (ie_root_pem E)
       cx uid did body c)"
| "serve_call E (VerifyAssertion cx body) c =
     answered AssertionVerified (verify_assertion (ie_crypto E) (ie_lib E) (ie_codec E) (ie_config E) cx body c)"

fun run_issuer :: "issuer_env \<Rightarrow> issuer_call list \<Rightarrow> conn \<Rightarrow> (api_error + issuer_ok) list \<times> conn" where
  "run_issuer E [] c = ([], c)"
| "run_issuer E (call # calls) c =
     (let (r, c1) = serve_call E call c; (rs, c2) = run_issuer E calls c1 in (r # rs, c2))"

section \<open>Refinement\<close>

text \<open>The steps that an answer reports; an internal error reports nothing.\<close>

fun rejection_step :: "api_error \<Rightarrow> change \<Rightarrow> bool" where
  "rejection_step e (Consumed _ _) = True"
| "rejection_step e (Noted _) = True"
| "rejection_step e (Flagged _ _ _ _ _) = (e = CounterConflict)"
| "rejection_step e _ = False"

fun explains :: "api_error + issuer_ok \<Rightarrow> change list \<Rightarrow> bool" where
  "explains (Inl e) chs = (e = Internal \<or> list_all (rejection_step e) chs)"
| "explains (Inr (ChallengeMade a)) chs = (\<exists>r. chs = [Challenged r] \<and> ch_id r = cr_challenge_id a)"
| "explains (Inr (ChallengesPurged n)) chs = (\<exists>now. chs = [Purged now])"
| "explains (Inr (DeviceEnrolled a)) chs =
     (\<exists>cid now u r ev. chs = [Consumed cid now, Enrolled u r ev] \<and> dv_id r = en_device_id a
        \<and> us_id u = en_user_id a \<and> dv_environment r = en_environment a)"
| "explains (Inr (AssertionVerified a)) chs =
     (\<exists>digest now ev. chs = [Advanced (as_device_id a) (uint (as_counter a)) digest now ev])"

lemma db_runs_one: "db_step d ch d' \<Longrightarrow> db_runs d [ch] d'"
  by (rule db_runs.go [OF _ db_runs.stop])

lemma db_runs_two: "db_step d ch d1 \<Longrightarrow> db_step d1 ch' d' \<Longrightarrow> db_runs d [ch, ch'] d'"
  by (rule db_runs.go [OF _ db_runs_one])

lemma noted_explained:
  assumes "noted event d d'"
  shows "\<exists>chs. db_runs d chs d' \<and> list_all (rejection_step e) chs"
  using assms unfolding noted_def
proof
  assume "d' = d"
  then show ?thesis by (intro exI [of _ "[]"]) (simp add: db_runs.stop)
next
  assume "\<exists>ev. ev_type ev = event \<and> db_step d (Noted ev) d'"
  then obtain ev where "db_step d (Noted ev) d'" by blast
  then show ?thesis by (intro exI [of _ "[Noted ev]"]) (simp add: db_runs_one)
qed

lemma answeredE:
  assumes "answered f rc = (r, c')"
  obtains q where "rc = (q, c')" "r = (case q of Inl e \<Rightarrow> Inl e | Inr a \<Rightarrow> Inr (f a))"
  using assms by (cases rc) (auto simp: answered_def)

lemma enroll_change_is: "\<exists>u r ev. enroll_change C uid did req k now = Enrolled u r ev \<and> dv_id r = did
    \<and> us_id u = uid \<and> dv_environment r = attest_env_as_str (ak_environment k)"
  by (simp add: enroll_change_def new_device_def)

lemma serve_call_steps:
  assumes run: "serve_call E call c = (r, c')" and wf: "db_wf (c_db c)"
  shows "\<exists>chs. db_runs (c_db c) chs (c_db c') \<and> explains r chs"
proof (cases call)
  case (CreateChallenge cx challenge cid)
  with run obtain q where q: "create_challenge (ie_crypto E) (ie_config E) cx challenge cid c = (q, c')"
    "r = (case q of Inl e \<Rightarrow> Inl e | Inr a \<Rightarrow> Inr (ChallengeMade a))" by (auto elim: answeredE)
  from q(1) show ?thesis
  proof (cases rule: create_challengeE)
    case unchanged
    with q(2) show ?thesis by (intro exI [of _ "[]"]) (simp add: db_runs.stop)
  next
    case (created row)
    with q(2) show ?thesis by (intro exI [of _ "[Challenged row]"]) (auto simp: db_runs_one)
  qed
next
  case (PurgeChallenges cx)
  with run obtain q where q: "purge_expired_challenges cx c = (q, c')"
    "r = (case q of Inl e \<Rightarrow> Inl e | Inr a \<Rightarrow> Inr (ChallengesPurged a))" by (auto elim: answeredE)
  from q(1) show ?thesis
  proof (cases rule: purge_expired_challengesE)
    case unchanged
    with q(2) show ?thesis by (intro exI [of _ "[]"]) (simp add: db_runs.stop)
  next
    case purged
    with q(2) show ?thesis by (intro exI [of _ "[Purged (cx_now cx)]"]) (auto simp: db_runs_one)
  qed
next
  case (EnrollDevice cx uid did body)
  with run obtain q where q: "enroll (ie_crypto E) (ie_lib E) (ie_codec E) (ie_config E) (ie_root_pem E)
      cx uid did body c = (q, c')"
    "r = (case q of Inl e \<Rightarrow> Inl e | Inr a \<Rightarrow> Inr (DeviceEnrolled a))" by (auto elim: answeredE)
  show ?thesis
  proof (rule enrollE [OF q(1) wf], goal_cases untouched spent finished)
    case (untouched e)
    with noted_explained [of _ "c_db c" "c_db c'" e] q(2) show ?case by auto
  next
    case (spent e req d1)
    from noted_explained [OF spent(5), of e] obtain chs where
      chs: "db_runs d1 chs (c_db c')" "list_all (rejection_step e) chs" by blast
    with spent q(2) show ?case
      by (intro exI [of _ "Consumed (pe_challenge_id req) (cx_now cx) # chs"])
        (auto intro: db_runs.go)
  next
    case (finished req row d1 k)
    then show ?case
      using q(2) db_runs_two enroll_change_is [of "ie_crypto E" uid did req k "cx_tx_now cx"]
      by (intro exI [of _ "[Consumed (pe_challenge_id req) (cx_now cx),
          enroll_change (ie_crypto E) uid did req k (cx_tx_now cx)]"]) (auto simp: enroll_answer_def)
  qed
next
  case (VerifyAssertion cx body)
  with run obtain q where q: "verify_assertion (ie_crypto E) (ie_lib E) (ie_codec E) (ie_config E) cx body c
      = (q, c')" "r = (case q of Inl e \<Rightarrow> Inl e | Inr a \<Rightarrow> Inr (AssertionVerified a))"
    by (auto elim: answeredE)
  show ?thesis
  proof (rule verify_assertionE [OF q(1) wf], goal_cases refused accepted conflict)
    case (refused e event)
    with noted_explained [of _ "c_db c" "c_db c'" e] q(2) show ?case by auto
  next
    case (accepted req row n)
    with q(2) db_runs_one show ?case
      by (intro exI [of _ "[advance_change (ie_crypto E) req (dv_user_id row) n (cx_tx_now cx)]"])
        (auto simp: advance_change_def accepted_response_def)
  next
    case (conflict req row n)
    with q(2) db_runs_one show ?case
      by (intro exI [of _ "[flag_change req (dv_user_id row) n (cx_tx_now cx)]"]) (auto simp: flag_change_def)
  qed
qed

lemma run_issuer_Cons:
  "serve_call E call c = (r, c1) \<Longrightarrow> run_issuer E (call # calls) c =
     (r # fst (run_issuer E calls c1), snd (run_issuer E calls c1))"
  by (simp split: prod.split)

lemma run_issuer_steps:
  "db_wf (c_db c) \<Longrightarrow> \<exists>chss. list_all2 explains (fst (run_issuer E calls c)) chss
     \<and> db_runs (c_db c) (concat chss) (c_db (snd (run_issuer E calls c)))"
proof (induction calls arbitrary: c)
  case Nil
  show ?case by (auto intro: db_runs.stop)
next
  case (Cons call calls)
  obtain r c1 where c: "serve_call E call c = (r, c1)" by force
  from serve_call_steps [OF c Cons.prems] obtain chs where
    chs: "db_runs (c_db c) chs (c_db c1)" "explains r chs" by blast
  from Cons.IH [OF db_runs_wf [OF chs(1) Cons.prems]] obtain chss where
    "list_all2 explains (fst (run_issuer E calls c1)) chss"
    "db_runs (c_db c1) (concat chss) (c_db (snd (run_issuer E calls c1)))" by blast
  with chs have "list_all2 explains (fst (run_issuer E (call # calls) c)) (chs # chss)"
    "db_runs (c_db c) (concat (chs # chss)) (c_db (snd (run_issuer E (call # calls) c)))"
    by (auto simp: run_issuer_Cons [OF c] db_runs_append simp del: run_issuer.simps)
  then show ?case by blast
qed

text \<open>A service started on empty tables, with what happens to its calls to the database.\<close>

definition fresh_service :: "fault list \<Rightarrow> conn" where
  "fresh_service faults = \<lparr>c_db = empty_db, c_faults = faults\<rparr>"

text \<open>Every sequence of calls to the service, from empty tables and under any database
  failures and lost answers, is a run of the abstract machine db_step, and every answer
  reports the steps its call committed.\<close>

lemma service_refines_the_machine:
  "\<exists>chss. list_all2 explains (fst (run_issuer E calls (fresh_service faults))) chss
     \<and> db_runs empty_db (concat chss) (c_db (snd (run_issuer E calls (fresh_service faults))))"
  using run_issuer_steps [of "fresh_service faults" E calls] db_wf_empty by (simp add: fresh_service_def)

definition tables_after :: "issuer_env \<Rightarrow> issuer_call list \<Rightarrow> fault list \<Rightarrow> issuer_db" where
  "tables_after E calls faults = c_db (snd (run_issuer E calls (fresh_service faults)))"

text \<open>C23: After any sequence of calls under any database failures, the tables keep their
  constraints, the counters the audit log records for a device strictly increase, so no
  counter value is accepted twice, and none exceeds the device row.\<close>
theorem counters_in_the_log_increase:
  "db_wf (tables_after E calls faults)
    \<and> sorted_wrt (<) (log_counters did (db_audit (tables_after E calls faults)))
    \<and> list_all (\<lambda>r. list_all (\<lambda>n. n \<le> dv_counter r) (log_counters (dv_id r) (db_audit (tables_after E calls faults))))
        (db_devices (tables_after E calls faults))"
proof -
  from run_issuer_steps [of "fresh_service faults" E calls] db_wf_empty obtain chs where
    "db_runs empty_db chs (tables_after E calls faults)" by (auto simp: fresh_service_def tables_after_def)
  with db_runs_wf db_runs_log_ok db_wf_empty log_ok_empty show ?thesis
    unfolding log_ok_def list_all_iff by blast
qed

section \<open>What a challenge is good for\<close>

lemma enroll_uses_challenge:
  assumes "enroll C L D cfg root_pem cx uid did body c = (r, c')" and "db_wf (c_db c)"
    and "parse_enroll_request C L D body = Inr req"
    and "(\<exists>a. r = Inr a) \<or> (\<exists>e. r = Inl e \<and> spends e)"
  shows "used_up (pe_challenge_id req) (c_db c')"
proof -
  have later: "used_up cid d' " if "used_up cid d" "noted event d d'" for cid d d' event
    using that by (auto simp: noted_def dest: db_step_used_up)
  show ?thesis
  proof (rule enrollE [OF assms(1,2)], goal_cases untouched spent finished)
    case (untouched e)
    with assms(4) show ?case by auto
  next
    case (spent e req' d1)
    with assms(3) later show ?case by auto
  next
    case (finished req' row d1 k)
    with assms(3) show ?case by (auto simp: enroll_change_def intro: db_step_used_up)
  qed
qed

text \<open>C28: Once an enrollment succeeded, or was rejected for its evidence, every later
  enrollment with that challenge is answered InvalidChallenge (or Internal) and adds no
  device, whatever steps happen in between, unless the identifier is issued anew.\<close>
theorem challenge_is_good_for_one_attempt:
  assumes first: "enroll C L D cfg root_pem cx uid did body c = (r, c1)"
    and used: "(\<exists>a. r = Inr a) \<or> (\<exists>e. r = Inl e \<and> spends e)"
    and wf: "db_wf (c_db c)"
    and between: "db_runs (c_db c1) chs (c_db c2)"
    and not_issued: "\<not> list_ex (issues (pe_challenge_id req)) chs"
    and same: "parse_enroll_request C L D body = Inr req" "parse_enroll_request C L D body' = Inr req'"
      "pe_challenge_id req' = pe_challenge_id req"
  shows "fst (enroll C L D cfg root_pem cx' uid' did' body' c2) \<in> {Inl InvalidChallenge, Inl Internal}
    \<and> db_devices (c_db (snd (enroll C L D cfg root_pem cx' uid' did' body' c2))) = db_devices (c_db c2)"
proof -
  have "used_up (pe_challenge_id req) (c_db c2)"
    using enroll_uses_challenge [OF first wf same(1) used] between not_issued db_runs_used_up by blast
  then have none: "find (live_challenge (cx_now cx') (pe_challenge_id req')) (db_challenges (c_db c2)) = None"
    using same(3) used_up_not_live by simp
  let ?st = "sql_consume_challenge (pe_challenge_id req') (cx_now cx')"
  have st: "?st (c_db c2) = (Inr None, c_db c2)"
    using none by (simp add: sql_consume_challenge_def update_where_def find_None_iff map_idI)
  obtain u c3 where p: "pool_get c2 = (u, c3)" by force
  then have db3: "c_db c3 = c_db c2" by (auto elim: pool_getE)
  obtain q c4 where q: "query ?st c3 = (q, c4)" by force
  then have q': "q = Inr None \<or> q = Inl Internal" and db4: "c_db c4 = c_db c2"
    using st db3 by (auto elim!: queryE)
  have logged: "db_devices (c_db (audit_reject ''enrollment_rejected'' None ''invalid_challenge'' (cx_now cx') c4))
      = db_devices (c_db c2)"
    using audit_reject_db [of "''enrollment_rejected''" None "''invalid_challenge''" "cx_now cx'" c4] db4 by auto
  show ?thesis
  proof (cases "u = Inr ()")
    case True
    with p q q' db4 logged show ?thesis
      by (auto simp: enroll_def same(2) abind_def rejecting_def)
  next
    case False
    with p have "u = Inl Internal" by (auto elim: pool_getE)
    with p db3 show ?thesis by (simp add: enroll_def same(2) abind_def)
  qed
qed

end
