(* ===== verification/IssuerTrust.thy ===== *)
theory IssuerTrust
  imports IssuerFlow
begin

text \<open>
  What a device's row and an accepted assertion stand for: evidence that was verified when
  the row was written, a signature by the enrolled key over every accepted payload, a
  counter above the last one, and no way to lock a device out by replaying what was seen.
\<close>

section \<open>Enrollment\<close>

text \<open>
  The proof of possession: a JWS that verifies under the principal key and names the
  purpose, the challenge, the App Attest key and that key's own thumbprint.
\<close>

definition possession_proved :: "crypto \<Rightarrow> service_codec \<Rightarrow> parsed_enroll \<Rightarrow> bytes \<Rightarrow> bool" where
  "possession_proved C D req challenge \<longleftrightarrow>
     jws_verify C (de_pop D) (pe_pop_jws req) (vj_key (pe_jwk req)) =
       Inr \<lparr>pp_purpose = POP_PURPOSE, pp_challenge = b64_encode C challenge,
            pp_key_id = pe_key_id_b64 req, pp_jwk_thumbprint = b64_encode C (vj_thumbprint (pe_jwk req))\<rparr>"

lemma verify_enrollment_exact:
  "verify_enrollment_at C L D cfg root_pem req challenge now_unix = Inr k \<longleftrightarrow>
     possession_proved C D req challenge
     \<and> attests C L root_pem (pe_attestation req) (pe_key_id req)
         (sha256 C (challenge @ vj_thumbprint (pe_jwk req))) (deployment_policy cfg) now_unix k"
proof -
  have eq: "pop = \<lparr>pp_purpose = a, pp_challenge = b, pp_key_id = c, pp_jwk_thumbprint = d\<rparr> \<longleftrightarrow>
      pp_purpose pop = a \<and> pp_jwk_thumbprint pop = d \<and> pp_challenge pop = b \<and> pp_key_id pop = c" for pop a b c d
    by (cases pop) auto
  show ?thesis
    by (cases "jws_verify C (de_pop D) (pe_pop_jws req) (vj_key (pe_jwk req))")
      (auto simp: verify_enrollment_at_def possession_proved_def eq Let_def guard_eq_Inr attestation_exact)
qed

text \<open>What a parsed request has been checked for.\<close>

definition request_checked :: "crypto \<Rightarrow> attest_lib \<Rightarrow> service_codec \<Rightarrow> bytes \<Rightarrow> parsed_enroll \<Rightarrow> bool" where
  "request_checked C L D body req \<longleftrightarrow>
     (\<exists>er. de_enroll D body = Inr er \<and> pe_challenge_id req = er_challenge_id er
        \<and> pe_key_id_b64 req = er_key_id er \<and> std_decode L (er_key_id er) = Some (pe_key_id req)
        \<and> length (pe_key_id req) = 32 \<and> pe_pop_jws req = er_pop_jws er
        \<and> b64_decode C (er_attestation er) = Inr (pe_attestation req)
        \<and> vj_jwk (pe_jwk req) = \<lparr>kty = ''EC'', crv = ''P-256'', jwk_x = ji_x (er_principal_jwk er),
             jwk_y = Some (ji_y (er_principal_jwk er))\<rparr>
        \<and> jwk_to_public_key C (vj_jwk (pe_jwk req)) = Inr (vj_key (pe_jwk req))
        \<and> vj_thumbprint (pe_jwk req) = thumbprint C (ji_x (er_principal_jwk er)) (ji_y (er_principal_jwk er)))"

lemma parsed_request_checked:
  "parse_enroll_request C L D body = Inr req \<Longrightarrow> request_checked C L D body req"
  by (auto simp: parse_enroll_request_def request_checked_def decode_exact_def jwk_validate_def Let_def guard_eq_Inr)

lemma check_device_Inr:
  "check_device cfg r = Inr u \<longleftrightarrow> dv_status r = ''active'' \<and> dv_app_id r \<in> set (cfg_app_ids cfg)
     \<and> (dv_environment r = ''development'' \<longrightarrow> allow_development cfg)"
  by (auto simp: check_device_def)

text \<open>C21: A successful enrollment inserts exactly one device, whose row holds evidence checked
  in that call: a live challenge, a proof of possession by the principal key over it, and
  an App Attest attestation chained to the anchor for that key, an allowed app and that
  challenge.\<close>
theorem enrolled_device_is_attested:
  assumes run: "enroll C L D cfg root_pem cx uid did body c = (Inr a, c')" and wf: "db_wf (c_db c)"
  shows "\<exists>req ch k. request_checked C L D body req
    \<and> ch \<in> set (db_challenges (c_db c)) \<and> live_challenge (cx_now cx) (pe_challenge_id req) ch
    \<and> possession_proved C D req (ch_challenge ch)
    \<and> attests C L root_pem (pe_attestation req) (pe_key_id req)
        (sha256 C (ch_challenge ch @ vj_thumbprint (pe_jwk req))) (deployment_policy cfg) (cx_now_unix cx) k
    \<and> ak_app_id k \<in> set (cfg_app_ids cfg)
    \<and> db_devices (c_db c') = db_devices (c_db c) @ [new_device uid did req k (cx_tx_now cx)]
    \<and> fresh_device (c_db c) \<lparr>us_id = uid, us_created_at = cx_tx_now cx\<rparr> (new_device uid did req k (cx_tx_now cx))
    \<and> a = enroll_answer uid did k"
proof (rule enrollE [OF run wf], goal_cases untouched spent finished)
  case (finished req ch d1 k)
  from finished(4) have d1: "db_devices d1 = db_devices (c_db c)" "db_users d1 = db_users (c_db c)"
    by (auto elim!: db_step_cases)
  with finished(7) have "db_devices (c_db c') = db_devices (c_db c) @ [new_device uid did req k (cx_tx_now cx)]"
    "fresh_device (c_db c) \<lparr>us_id = uid, us_created_at = cx_tx_now cx\<rparr> (new_device uid did req k (cx_tx_now cx))"
    by (auto simp: enroll_change_def fresh_device_def elim!: db_step_cases)
  moreover have "ak_app_id k \<in> set (cfg_app_ids cfg)"
    if "attests C L root_pem (pe_attestation req) (pe_key_id req) cdh (deployment_policy cfg) t k" for cdh t
    using that by (auto simp: attests_def deployment_policy_def dest!: find_row)
  moreover note parsed_request_checked [OF finished(1)] finished(2,3)
    finished(6) [unfolded verify_enrollment_exact]
  moreover have "a = enroll_answer uid did k" using finished(8) by simp
  ultimately show ?case
    by (intro exI [of _ req] exI [of _ ch] exI [of _ k] conjI) blast+
qed auto

section \<open>Assertions\<close>

text \<open>An assertion: a signature by the key over authenticator data of the app and the digest.\<close>

definition asserts ::
  "crypto \<Rightarrow> attest_lib \<Rightarrow> bytes \<Rightarrow> bytes \<Rightarrow> string \<Rightarrow> bytes \<Rightarrow> u32 \<Rightarrow> bool" where
  "asserts C L assertion digest app_id public_key n \<longleftrightarrow>
     (\<exists>obj der sg auth x y a flags rest. cbor_read L assertion = Some obj
        \<and> cbor_map_get obj ''signature'' = Inr (CBytes der) \<and> sig_from_der L der = Some sg
        \<and> cbor_map_get obj ''authenticatorData'' = Inr (CBytes auth)
        \<and> sec1_key L public_key = Some (x, y) \<and> p256_verify C x y (sha256 C (auth @ digest)) sg
        \<and> auth_data_wf a flags rest \<and> auth = encode_auth_data a flags rest
        \<and> ad_rp_id_hash a = sha256 C app_id \<and> ad_counter a = n)"

lemma assertion_exact:
  "verify_assertion_object C L assertion digest app_id public_key = Inr n \<longleftrightarrow>
     asserts C L assertion digest app_id public_key n"
proof
  assume "verify_assertion_object C L assertion digest app_id public_key = Inr n"
  then obtain obj der sg auth x y a where *: "cbor_read L assertion = Some obj"
    "cbor_map_get obj ''signature'' = Inr (CBytes der)" "sig_from_der L der = Some sg"
    "cbor_map_get obj ''authenticatorData'' = Inr (CBytes auth)" "sec1_key L public_key = Some (x, y)"
    "p256_verify C x y (sha256 C (auth @ digest)) sg"
    and a: "parse_auth_data auth = Inr a" "ad_rp_id_hash a = sha256 C app_id" "ad_counter a = n"
    by (auto simp: verify_assertion_object_def Let_def guard_eq_Inr sha256_concat_def split: prod.splits)
  from encode_parsed [OF a(1)] * a(2,3) show "asserts C L assertion digest app_id public_key n"
    unfolding asserts_def by blast
next
  assume "asserts C L assertion digest app_id public_key n"
  then show "verify_assertion_object C L assertion digest app_id public_key = Inr n"
    unfolding asserts_def
    by (auto simp: verify_assertion_object_def Let_def guard_eq_Inr sha256_concat_def parse_encoded)
qed

definition assertion_read :: "crypto \<Rightarrow> service_codec \<Rightarrow> bytes \<Rightarrow> parsed_assertion \<Rightarrow> bool" where
  "assertion_read C D body req \<longleftrightarrow>
     (\<exists>ar. de_assertion D body = Inr ar \<and> pa_device_id req = ar_device_id ar
        \<and> b64_decode C (ar_payload_digest ar) = Inr (pa_payload_digest req) \<and> length (pa_payload_digest req) = 32
        \<and> b64_decode C (ar_assertion ar) = Inr (pa_assertion req))"

lemma parsed_assertion_read: "parse_assertion_request C D body = Inr req \<Longrightarrow> assertion_read C D body req"
  by (auto simp: parse_assertion_request_def assertion_read_def decode_exact_def guard_eq_Inr)

lemma advanced_row:
  assumes "db_step d (advance_change C req uid n now) d'" "row \<in> set (db_devices d)" "dv_id row = pa_device_id req"
  shows "row\<lparr>dv_counter := uint n, dv_last_digest := Some (pa_payload_digest req), dv_last_assertion_at := Some now\<rparr>
    \<in> set (db_devices d')"
  using assms by (auto simp: advance_change_def elim!: db_step_cases)

text \<open>C22: An accepted assertion is signed by the key enrolled for an active device of an
  allowed app and environment, over authenticator data of that app and the digest
  presented, with a counter above the stored one, which becomes the stored one; whatever
  faults the database has during the call. A call runs without others in between.\<close>
theorem accepted_assertion_is_genuine:
  assumes run: "verify_assertion C L D cfg cx body c = (Inr a, c')" and wf: "db_wf (c_db c)"
  shows "\<exists>req row. assertion_read C D body req \<and> row \<in> set (db_devices (c_db c)) \<and> dv_id row = pa_device_id req
    \<and> dv_status row = ''active'' \<and> dv_app_id row \<in> set (cfg_app_ids cfg)
    \<and> (dv_environment row = ''development'' \<longrightarrow> allow_development cfg)
    \<and> asserts C L (pa_assertion req) (pa_payload_digest req) (dv_app_id row) (dv_public_key row) (as_counter a)
    \<and> dv_counter row < uint (as_counter a)
    \<and> row\<lparr>dv_counter := uint (as_counter a), dv_last_digest := Some (pa_payload_digest req),
          dv_last_assertion_at := Some (cx_tx_now cx)\<rparr> \<in> set (db_devices (c_db c'))
    \<and> a = accepted_response req row (as_counter a)"
proof (rule verify_assertionE [OF run wf], goal_cases refused accepted conflict)
  case (accepted req row n)
  then have "as_counter a = n" by (auto simp: accepted_response_def)
  with accepted advanced_row [OF accepted(7,2,3)] parsed_assertion_read [OF accepted(1)] show ?case
    by (auto simp: assertion_exact check_device_Inr)
qed auto

section \<open>What flags a device\<close>

definition still_active :: "uuid \<Rightarrow> issuer_db \<Rightarrow> bool" where
  "still_active did d \<longleftrightarrow> (\<exists>r \<in> set (db_devices d). dv_id r = did \<and> dv_status r = ''active'')"

lemma still_active_log_event [simp]: "still_active i (log_event ev d) = still_active i d"
  by (simp add: still_active_def)

lemma still_active_update:
  assumes "still_active i d" and "\<And>r. dv_id (f r) = dv_id r"
    and "i = did \<Longrightarrow> \<forall>r. dv_status (f r) = dv_status r"
  shows "still_active i (update_device did f d)"
proof -
  from assms(1) obtain r where r: "r \<in> set (db_devices d)" "dv_id r = i" "dv_status r = ''active''"
    by (auto simp: still_active_def)
  let ?r = "if dv_id r = did then f r else r"
  have "?r \<in> set (db_devices (update_device did f d))"
    using r(1) by (simp only: update_device_simps) (rule imageI)
  moreover have "dv_id ?r = i" "dv_status ?r = ''active''" using r assms(2,3) by auto
  ultimately show ?thesis unfolding still_active_def by blast
qed

lemma db_step_still_active:
  assumes "db_step d ch d'" and "still_active did d" and "\<forall>n digest now ev. ch \<noteq> Flagged did n digest now ev"
  shows "still_active did d'"
  using assms
proof (induction rule: db_step.induct)
  case (advanced r d i n digest ev now)
  then show ?case by (simp add: still_active_update)
next
  case (flagged r d i n digest ev now)
  then have "did \<noteq> i" by auto
  with flagged show ?case by (simp add: still_active_update)
next
  case (noted ev d)
  then show ?case by simp
qed (auto simp: still_active_def)

lemma noted_still_active: "noted event d d' \<Longrightarrow> still_active did d \<Longrightarrow> still_active did d'"
  by (auto simp: noted_def intro: db_step_still_active)

lemma flagged_by:
  assumes run: "serve_call E call c = (r, c')" and wf: "db_wf (c_db c)"
    and act: "still_active did (c_db c)" and off: "\<not> still_active did (c_db c')"
  obtains cx body req row n where "call = VerifyAssertion cx body"
    "parse_assertion_request (ie_crypto E) (ie_codec E) body = Inr req" "did = pa_device_id req"
    "row \<in> set (db_devices (c_db c))" "dv_id row = did"
    "verify_assertion_object (ie_crypto E) (ie_lib E) (pa_assertion req) (pa_payload_digest req) (dv_app_id row)
       (dv_public_key row) = Inr n"
    "dv_counter row = uint n" "dv_last_digest row \<noteq> Some (pa_payload_digest req)"
    "r = Inl CounterConflict \<or> r = Inl Internal"
proof (cases call)
  case (CreateChallenge cx challenge cid)
  with run obtain q where "create_challenge (ie_crypto E) (ie_config E) cx challenge cid c = (q, c')"
    by (auto elim: answeredE)
  then have "still_active did (c_db c')"
    using act by (cases rule: create_challengeE) (auto intro: db_step_still_active)
  with off show thesis by simp
next
  case (PurgeChallenges cx)
  with run obtain q where "purge_expired_challenges cx c = (q, c')" by (auto elim: answeredE)
  then have "still_active did (c_db c')"
    using act by (cases rule: purge_expired_challengesE) (auto intro: db_step_still_active)
  with off show thesis by simp
next
  case (EnrollDevice cx uid new body)
  with run obtain q where q: "enroll (ie_crypto E) (ie_lib E) (ie_codec E) (ie_config E) (ie_root_pem E)
      cx uid new body c = (q, c')" by (auto elim: answeredE)
  have "still_active did (c_db c')"
  proof (rule enrollE [OF q wf], goal_cases untouched spent finished)
    case (spent e req d1)
    with act have "still_active did d1" by (auto intro: db_step_still_active)
    with spent(5) show ?case by (rule noted_still_active)
  next
    case (finished req row d1 k)
    with act have "still_active did d1" by (auto intro: db_step_still_active)
    with finished(7) show ?case by (auto simp: enroll_change_def intro: db_step_still_active)
  qed (use act noted_still_active in blast)
  with off show thesis by simp
next
  case (VerifyAssertion cx body)
  with run obtain q where q: "verify_assertion (ie_crypto E) (ie_lib E) (ie_codec E) (ie_config E) cx body c
      = (q, c')" "r = (case q of Inl e \<Rightarrow> Inl e | Inr a \<Rightarrow> Inr (AssertionVerified a))"
    by (auto elim: answeredE)
  show thesis
  proof (rule verify_assertionE [OF q(1) wf], goal_cases refused accepted conflict)
    case (refused e event)
    with act off noted_still_active show ?case by blast
  next
    case (accepted req row n)
    with act off show ?case by (auto simp: advance_change_def dest: db_step_still_active)
  next
    case (conflict req row n)
    have "did = pa_device_id req"
    proof (rule ccontr)
      assume "did \<noteq> pa_device_id req"
      with conflict(8) act have "still_active did (c_db c')"
        by (auto simp: flag_change_def intro: db_step_still_active)
      with off show False by simp
    qed
    with conflict q(2) VerifyAssertion show ?case by (intro that) auto
  qed
qed

text \<open>C27: The only call after which an active device is not active any more is an assertion
  with a valid signature of its own key whose counter equals the stored one while the
  digest differs from the stored one: replaying or forging cannot lock a device out.\<close>
theorem only_a_conflict_flags_a_device:
  assumes "serve_call E call c = (r, c')" and "db_wf (c_db c)"
    and "still_active did (c_db c)" and "\<not> still_active did (c_db c')"
  shows "(r = Inl CounterConflict \<or> r = Inl Internal) \<and> (\<exists>cx body req row n. call = VerifyAssertion cx body
    \<and> assertion_read (ie_crypto E) (ie_codec E) body req \<and> pa_device_id req = did
    \<and> row \<in> set (db_devices (c_db c)) \<and> dv_id row = did
    \<and> asserts (ie_crypto E) (ie_lib E) (pa_assertion req) (pa_payload_digest req) (dv_app_id row)
        (dv_public_key row) n
    \<and> dv_counter row = uint n \<and> dv_last_digest row \<noteq> Some (pa_payload_digest req))"
proof (rule flagged_by [OF assms], goal_cases)
  case (1 cx body req row n)
  with parsed_assertion_read [OF 1(2)] show ?case by (auto simp: assertion_exact)
qed

section \<open>Production\<close>

lemma attests_environment:
  assumes "attests C L root_pem att kid cdh pol t k" and "\<not> pol_allow_development pol"
  shows "ak_environment k = EnvProduction"
proof -
  from assms(1) obtain guid where "attested_environment pol guid = Inr (ak_environment k)"
    unfolding attests_def by blast
  with assms(2) show ?thesis by (auto simp: attested_environment_def split: if_splits)
qed

text \<open>C29: With a configuration read for ISSUER_ENV=production the service never answers an
  enrollment or an assertion of a development authenticator with success.\<close>
theorem production_refuses_development:
  assumes cfg: "from_lookup get = Inr (ie_config E)" and env: "get ''ISSUER_ENV'' = Some ''production''"
    and wf: "db_wf (c_db c)" and run: "serve_call E call c = (r, c')"
  shows "case r of Inr (DeviceEnrolled a) \<Rightarrow> en_environment a = ''production''
    | Inr (AssertionVerified a) \<Rightarrow> as_environment a = ''production'' | _ \<Rightarrow> True"
proof -
  have "cfg_env (ie_config E) = Production"
    using from_lookup_Inr(4) [OF cfg] env by (cases "cfg_env (ie_config E)") simp_all
  with from_lookup_Inr(1) [OF cfg] have dev: "\<not> allow_development (ie_config E)" by simp
  show ?thesis
  proof (cases call)
    case (EnrollDevice cx uid did body)
    with run obtain q where q: "enroll (ie_crypto E) (ie_lib E) (ie_codec E) (ie_config E) (ie_root_pem E)
        cx uid did body c = (q, c')"
      "r = (case q of Inl e \<Rightarrow> Inl e | Inr a \<Rightarrow> Inr (DeviceEnrolled a))" by (auto elim: answeredE)
    show ?thesis
    proof (rule enrollE [OF q(1) wf], goal_cases untouched spent finished)
      case (finished req ch d1 k)
      from finished(6) dev have "ak_environment k = EnvProduction"
        by (auto simp: verify_enrollment_exact deployment_policy_def dest!: attests_environment)
      with finished q(2) show ?case by (auto simp: enroll_answer_def)
    qed (simp_all add: q(2))
  next
    case (VerifyAssertion cx body)
    with run obtain q where q: "verify_assertion (ie_crypto E) (ie_lib E) (ie_codec E) (ie_config E) cx body c
        = (q, c')" "r = (case q of Inl e \<Rightarrow> Inl e | Inr a \<Rightarrow> Inr (AssertionVerified a))"
      by (auto elim: answeredE)
    show ?thesis
    proof (rule verify_assertionE [OF q(1) wf], goal_cases refused accepted conflict)
      case (accepted req row n)
      from accepted(2) wf have "device_checks row" by (simp add: db_wf_def list_all_iff)
      with accepted(4) dev have "dv_environment row = ''production''"
        by (auto simp: check_device_Inr device_checks_def)
      with accepted q(2) show ?case by (auto simp: accepted_response_def)
    qed (auto simp: q(2))
  qed (use run in \<open>auto elim!: answeredE split: sum.splits\<close>)
qed

section \<open>An honest device\<close>

lemma abind_no_faults:
  "m (no_faults d) = (Inr a, no_faults d') \<Longrightarrow> abind m f (no_faults d) = f a (no_faults d')"
  by (rule abind_Inr)

lemma transaction_no_faults:
  "body (no_faults d) = (Inr a, no_faults d') \<Longrightarrow> transaction body (no_faults d) = (Inr a, no_faults d')"
  by (simp add: transaction_def)

lemma audit_no_faults:
  "audit typ uid did detail now (no_faults d) = (Inr (), no_faults (log_event
     \<lparr>ev_occurred_at = now, ev_type = typ, ev_user_id = uid, ev_device_id = did, ev_detail = detail\<rparr> d))"
  by (simp add: audit_def abind_def areturn_def sql_insert_audit_def log_event_def)

lemma find_unique:
  assumes "distinct (map key rows)" "r \<in> set rows" "P r" "\<And>s. P s \<Longrightarrow> key s = key r"
  shows "find P rows = Some r"
  using assms
proof (induction rows)
  case (Cons x rows)
  show ?case
  proof (cases "P x")
    case True
    with Cons.prems(4) have "key x = key r" .
    with Cons.prems(1,2) have "x = r" by (auto simp: image_iff)
    with True show ?thesis by simp
  next
    case False
    with Cons.prems(2,3) have r: "r \<in> set rows" by auto
    from Cons.prems(1) have "distinct (map key rows)" by simp
    then have "find P rows = Some r" using r Cons.prems(3,4) by (rule Cons.IH)
    with False show ?thesis by simp
  qed
qed simp

lemma enroll_works:
  assumes wf: "db_wf d" and parsed: "parse_enroll_request C L D body = Inr req"
    and ch: "ch \<in> set (db_challenges d)" "live_challenge (cx_now cx) (pe_challenge_id req) ch"
    and verified: "verify_enrollment_at C L D cfg root_pem req (ch_challenge ch) (cx_now_unix cx) = Inr k"
    and new: "fresh_device d \<lparr>us_id = uid, us_created_at = cx_tx_now cx\<rparr> (new_device uid did req k (cx_tx_now cx))"
  shows "\<exists>d1. enroll C L D cfg root_pem cx uid did body (no_faults d) = (Inr (enroll_answer uid did k), no_faults d1)
    \<and> new_device uid did req k (cx_tx_now cx) \<in> set (db_devices d1)"
proof -
  let ?dev = "new_device uid did req k (cx_tx_now cx)" and ?user = "\<lparr>us_id = uid, us_created_at = cx_tx_now cx\<rparr>"
  obtain d0 where d0: "sql_consume_challenge (pe_challenge_id req) (cx_now cx) d = (Inr (Some (ch_challenge ch)), d0)"
    "db_users d0 = db_users d" "db_devices d0 = db_devices d"
  proof
    have "find (live_challenge (cx_now cx) (pe_challenge_id req)) (db_challenges d) = Some ch"
      using wf ch by (intro find_unique [where key = ch_id]) (auto simp: db_wf_def live_challenge_def)
    then show "sql_consume_challenge (pe_challenge_id req) (cx_now cx) d = (Inr (Some (ch_challenge ch)),
       d\<lparr>db_challenges := snd (update_where (live_challenge (cx_now cx) (pe_challenge_id req))
         (\<lambda>r. r\<lparr>ch_consumed_at := Some (cx_now cx)\<rparr>) (db_challenges d))\<rparr>)"
      by (simp add: sql_consume_challenge_def)
  qed simp_all
  have new': "dv_id ?dev = did" "dv_user_id ?dev = uid" by (simp_all add: new_device_def)
  let ?d1 = "d0\<lparr>db_users := db_users d0 @ [?user]\<rparr>"
  let ?d2 = "?d1\<lparr>db_devices := db_devices d0 @ [?dev]\<rparr>"
  have user: "sql_insert_user uid (cx_tx_now cx) d0 = (Inr 1, ?d1)"
    using new d0 by (simp add: sql_insert_user_def fresh_device_def)
  have dev: "sql_insert_device ?dev ?d1 = (Inr 1, ?d2)"
    using new d0 new' by (auto simp: sql_insert_device_def fresh_device_def)
  have "insert_device_tx C (cx_tx_now cx) uid did req k (no_faults d0)
      = (Inr (), no_faults (log_event (enroll_event C uid did req k (cx_tx_now cx)) ?d2))"
    by (simp add: insert_device_tx_def abind_def user dev audit_no_faults enroll_event_def)
  from transaction_no_faults [where body = "insert_device_tx C (cx_tx_now cx) uid did req k", OF this]
  have "insert_device C (cx_tx_now cx) uid did req k (no_faults d0)
      = (Inr (), no_faults (log_event (enroll_event C uid did req k (cx_tx_now cx)) ?d2))"
    by (simp add: insert_device_def)
  then have "enroll C L D cfg root_pem cx uid did body (no_faults d) = (Inr (enroll_answer uid did k),
      no_faults (log_event (enroll_event C uid did req k (cx_tx_now cx)) ?d2))"
    by (simp add: enroll_def parsed abind_def d0(1) verified areturn_def enroll_answer_def)
  moreover have "?dev \<in> set (db_devices (log_event (enroll_event C uid did req k (cx_tx_now cx)) ?d2))"
    by (simp add: log_event_def)
  ultimately show ?thesis by blast
qed

lemma assertion_works:
  assumes wf: "db_wf d" and parsed: "parse_assertion_request C D body = Inr req"
    and row: "row \<in> set (db_devices d)" "dv_id row = pa_device_id req" "check_device cfg row = Inr ()"
    and verified: "verify_assertion_object C L (pa_assertion req) (pa_payload_digest req) (dv_app_id row)
      (dv_public_key row) = Inr n"
    and n: "dv_counter row < uint n"
  shows "\<exists>d1. verify_assertion C L D cfg cx body (no_faults d) = (Inr (accepted_response req row n), no_faults d1)"
proof -
  let ?did = "pa_device_id req" and ?dg = "pa_payload_digest req"
  let ?P = "\<lambda>r. dv_id r = ?did \<and> dv_status r = ''active'' \<and> dv_counter r < uint n"
  let ?f = "\<lambda>r. r\<lparr>dv_counter := uint n, dv_last_digest := Some ?dg, dv_last_assertion_at := Some (cx_tx_now cx)\<rparr>"
  have dist: "distinct (map dv_id (db_devices d))" using wf by (simp add: db_wf_def)
  have found: "find ?P (db_devices d) = Some row" "find (\<lambda>r. dv_id r = ?did) (db_devices d) = Some row"
    using row n by (auto intro!: find_unique [OF dist] simp: check_device_Inr)
  have checks: "list_all device_checks (db_devices (update_device ?did ?f d))"
  proof -
    have "length ?dg = 32" using parsed_assertion_read [OF parsed] by (auto simp: assertion_read_def)
    moreover have "uint n \<le> 4294967295" using uint_lt2p [of n] by simp
    moreover have "\<forall>r \<in> set (db_devices d). device_checks r" using wf by (simp add: db_wf_def list_all_iff)
    ultimately show ?thesis by (auto simp: list_all_iff device_checks_def)
  qed
  obtain r d1 where u: "sql_update_devices ?P ?f d = (r, d1)" by force
  have "r = Inr 1"
    by (rule update_devices_one [OF wf _ u, of ?did]) (use found checks in auto)
  with u have adv: "sql_advance_counter ?did (uint n) ?dg (cx_tx_now cx) d = (Inr 1, d1)"
    by (simp add: sql_advance_counter_def)
  then have "settle_counter_tx C (cx_tx_now cx) req row n (no_faults d) = (Inr (Inr (accepted_response req row n)),
      no_faults (log_event \<lparr>ev_occurred_at = cx_tx_now cx, ev_type = ''assertion_verified'',
        ev_user_id = Some (dv_user_id row), ev_device_id = Some ?did, ev_detail = verified_detail C ?dg n\<rparr> d1))"
    by (simp add: settle_counter_tx_def abind_def audit_no_faults areturn_def)
  from transaction_no_faults [where body = "settle_counter_tx C (cx_tx_now cx) req row n", OF this]
  have "verify_assertion C L D cfg cx body (no_faults d) = (Inr (accepted_response req row n),
      no_faults (log_event \<lparr>ev_occurred_at = cx_tx_now cx, ev_type = ''assertion_verified'',
        ev_user_id = Some (dv_user_id row), ev_device_id = Some ?did, ev_detail = verified_detail C ?dg n\<rparr> d1))"
    by (simp add: verify_assertion_def parsed abind_def sql_find_device_def found row verified aresult_def)
  then show ?thesis by blast
qed

text \<open>
  The conditional statement that flags: it also applies to a device that has had no
  assertion accepted yet, when the assertion presented carries counter zero.
\<close>

lemma conflict_flags:
  assumes wf: "db_wf d" and parsed: "parse_assertion_request C D body = Inr req"
    and row: "row \<in> set (db_devices d)" "dv_id row = pa_device_id req" "check_device cfg row = Inr ()"
    and verified: "verify_assertion_object C L (pa_assertion req) (pa_payload_digest req) (dv_app_id row)
      (dv_public_key row) = Inr n"
    and n: "dv_counter row = uint n" "dv_last_digest row \<noteq> Some (pa_payload_digest req)"
  shows "\<exists>d1. verify_assertion C L D cfg cx body (no_faults d) = (Inl CounterConflict, no_faults d1)
    \<and> still_active (dv_id row) d \<and> \<not> still_active (dv_id row) d1"
proof -
  let ?did = "pa_device_id req" and ?dg = "pa_payload_digest req"
  let ?A = "\<lambda>r. dv_id r = ?did \<and> dv_status r = ''active'' \<and> dv_counter r < uint n"
  let ?P = "\<lambda>r. dv_id r = ?did \<and> dv_status r = ''active'' \<and> dv_counter r = uint n \<and> dv_last_digest r \<noteq> Some ?dg"
  let ?f = "\<lambda>r. r\<lparr>dv_status := ''flagged'', dv_flagged_at := Some (cx_tx_now cx),
              dv_flagged_reason := Some ''counter_conflict''\<rparr>"
  have dist: "distinct (map dv_id (db_devices d))" using wf by (simp add: db_wf_def)
  have same: "r = row" if "r \<in> set (db_devices d)" "dv_id r = ?did" for r
    using db_wf_same_id [OF wf that(1) row(1)] row(2) that(2) by simp
  have found: "find ?P (db_devices d) = Some row" "find (\<lambda>r. dv_id r = ?did) (db_devices d) = Some row"
    using row n by (auto intro!: find_unique [OF dist] simp: check_device_Inr)
  have none: "find ?A (db_devices d) = None" using same n(1) by (auto simp: find_None_iff)
  have adv: "sql_advance_counter ?did (uint n) ?dg (cx_tx_now cx) d = (Inr 0, d)"
  proof -
    obtain q d1 where u: "sql_advance_counter ?did (uint n) ?dg (cx_tx_now cx) d = (q, d1)" by force
    have "q = Inr 0 \<and> d1 = d"
      by (rule update_devices_one [OF wf _ u [unfolded sql_advance_counter_def], of ?did]) (use none in auto)
    with u show ?thesis by simp
  qed
  have checks: "list_all device_checks (db_devices (update_device ?did ?f d))"
  proof -
    have "\<forall>r \<in> set (db_devices d). device_checks r" using wf by (simp add: db_wf_def list_all_iff)
    then show ?thesis by (auto simp: list_all_iff device_checks_def)
  qed
  obtain q d1 where u: "sql_update_devices ?P ?f d = (q, d1)" by force
  have q: "q = Inr 1 \<and> d1 = update_device ?did ?f d"
    by (rule update_devices_one [OF wf _ u, of ?did]) (use found checks in auto)
  with u have flag: "sql_flag_device ?did (uint n) ?dg (cx_tx_now cx) d = (Inr 1, d1)"
    by (simp add: sql_flag_device_def)
  let ?ev = "\<lparr>ev_occurred_at = cx_tx_now cx, ev_type = ''device_flagged'',
        ev_user_id = Some (dv_user_id row), ev_device_id = Some ?did, ev_detail = stale_detail True n\<rparr>"
  have "settle_counter_tx C (cx_tx_now cx) req row n (no_faults d) =
      (Inr (Inl CounterConflict), no_faults (log_event ?ev d1))"
    by (simp add: settle_counter_tx_def abind_def adv flag audit_no_faults areturn_def)
  from transaction_no_faults [where body = "settle_counter_tx C (cx_tx_now cx) req row n", OF this]
  have "verify_assertion C L D cfg cx body (no_faults d) = (Inl CounterConflict, no_faults (log_event ?ev d1))"
    by (simp add: verify_assertion_def parsed abind_def sql_find_device_def found row verified aresult_def)
  moreover have "still_active (dv_id row) d" using row by (auto simp: still_active_def check_device_Inr)
  moreover have "\<not> still_active (dv_id row) (log_event ?ev d1)"
    using q row(2) by (auto simp: still_active_def)
  ultimately show ?thesis by blast
qed

lemma zero_counter_flags_unused_device:
  assumes "db_wf d" "parse_assertion_request C D body = Inr req"
    and "row \<in> set (db_devices d)" "dv_id row = pa_device_id req" "check_device cfg row = Inr ()"
    and "dv_counter row = 0" "dv_last_digest row = None"
    and "asserts C L (pa_assertion req) (pa_payload_digest req) (dv_app_id row) (dv_public_key row) 0"
  shows "\<exists>d1. verify_assertion C L D cfg cx body (no_faults d) = (Inl CounterConflict, no_faults d1)
    \<and> \<not> still_active (dv_id row) d1"
  using conflict_flags [OF assms(1-5), of L 0] assms(6-8) by (auto simp: assertion_exact)

text \<open>C30: With a working database, a device with a live challenge, a proof of possession and
  an attestation is enrolled, and its first assertion with a positive counter is then
  accepted.\<close>
theorem honest_device_is_served:
  assumes wf: "db_wf d" and parsed: "parse_enroll_request C L D body = Inr req"
    and ch: "ch \<in> set (db_challenges d)" "live_challenge (cx_now cx) (pe_challenge_id req) ch"
    and proof_of_possession: "possession_proved C D req (ch_challenge ch)"
    and attested: "attests C L root_pem (pe_attestation req) (pe_key_id req)
      (sha256 C (ch_challenge ch @ vj_thumbprint (pe_jwk req))) (deployment_policy cfg) (cx_now_unix cx) k"
    and new: "fresh_device d \<lparr>us_id = uid, us_created_at = cx_tx_now cx\<rparr> (new_device uid did req k (cx_tx_now cx))"
    and signed: "parse_assertion_request C D body' = Inr req'" "pa_device_id req' = did"
      "asserts C L (pa_assertion req') (pa_payload_digest req') (ak_app_id k) (ak_public_key k) n" "0 < n"
  shows "\<exists>d1 d2. enroll C L D cfg root_pem cx uid did body (no_faults d) = (Inr (enroll_answer uid did k), no_faults d1)
    \<and> verify_assertion C L D cfg cx' body' (no_faults d1) = (Inr \<lparr>as_verified = True, as_device_id = did,
        as_user_id = uid, as_counter = n, as_attestation_type = ''app_attest'',
        as_environment = attest_env_as_str (ak_environment k)\<rparr>, no_faults d2)"
proof -
  let ?dev = "new_device uid did req k (cx_tx_now cx)"
  from enroll_works [OF wf parsed ch _ new] proof_of_possession attested obtain d1 where
    d1: "enroll C L D cfg root_pem cx uid did body (no_faults d) = (Inr (enroll_answer uid did k), no_faults d1)"
      "?dev \<in> set (db_devices d1)" by (auto simp: verify_enrollment_exact)
  let ?E = "\<lparr>ie_crypto = C, ie_lib = L, ie_codec = D, ie_config = cfg, ie_root_pem = root_pem\<rparr>"
  have "serve_call ?E (EnrollDevice cx uid did body) (no_faults d)
      = (Inr (DeviceEnrolled (enroll_answer uid did k)), no_faults d1)"
    by (simp add: d1(1) answered_def)
  from serve_call_steps [OF this] wf have wf1: "db_wf d1" by (auto dest: db_runs_wf)
  have app: "ak_app_id k \<in> set (cfg_app_ids cfg)"
    using attested by (auto simp: attests_def deployment_policy_def dest!: find_row)
  have dev: "attest_env_as_str (ak_environment k) = ''development'' \<longrightarrow> allow_development cfg"
    using attests_environment [OF attested] by (cases "allow_development cfg") (simp_all add: deployment_policy_def)
  have fields: "dv_id ?dev = did" "dv_user_id ?dev = uid" "dv_app_id ?dev = ak_app_id k" "dv_status ?dev = ''active''"
    "dv_public_key ?dev = ak_public_key k" "dv_counter ?dev = 0"
    "dv_environment ?dev = attest_env_as_str (ak_environment k)" by (simp_all add: new_device_def)
  have "\<exists>d2. verify_assertion C L D cfg cx' body' (no_faults d1) = (Inr (accepted_response req' ?dev n), no_faults d2)"
    using wf1 signed d1(2) app dev
    by (intro assertion_works) (auto simp: fields assertion_exact check_device_Inr word_less_def)
  with d1(1) signed(2) show ?thesis by (auto simp: accepted_response_def fields)
qed

end
