(* ===== verification/IssuerToy.thy ===== *)
theory IssuerToy
  imports IssuerTrust
begin

text \<open>
  One deployment of the issuer service with its outside parts replaced by concrete
  functions, on which the properties of the service are exercised: an iPhone with one key,
  its two certificates, an authenticator whose counter is the length of the request body,
  and codecs that pad instead of hashing.
\<close>

section \<open>Cryptography and decoders\<close>

definition phone_sign :: "bytes \<Rightarrow> bytes" where
  "phone_sign m = replicate 64 (char_of (length m))"

definition phone_crypto :: crypto where
  "phone_crypto = toy_crypto\<lparr>
     b64_encode := (\<lambda>bs. if length bs = 32 then bs @ replicate 11 CHR ''A'' else bs),
     b64_decode := (\<lambda>s. Inr (if length s = 43 then take 32 s else s)),
     json_read := (\<lambda>bs. Inr (toy_header ''ES256'')),
     p256_verify := (\<lambda>x y m g. g = phone_sign m)\<rparr>"

definition phone_app :: string where "phone_app = ''ABCDE12345.com.example.app''"
definition phone_key :: bytes where "phone_key = char_of (4 :: nat) # replicate 64 CHR ''K''"
definition phone_key_id :: bytes where "phone_key_id = pad 32 phone_key"

definition attested_auth :: bytes where
  "attested_auth = encode_auth_data \<lparr>ad_rp_id_hash = pad 32 phone_app, ad_counter = 0,
     ad_aaguid = Some AAGUID_PRODUCTION, ad_credential_id = Some phone_key_id\<rparr> 64 []"

definition asserted_auth :: "nat \<Rightarrow> bytes" where
  "asserted_auth n = encode_auth_data \<lparr>ad_rp_id_hash = pad 32 phone_app, ad_counter = of_nat n,
     ad_aaguid = None, ad_credential_id = None\<rparr> 0 []"

definition attestation_object :: cbor where
  "attestation_object = CMap [(CText ''fmt'', CText ''apple-appattest''),
     (CText ''attStmt'', CMap [(CText ''x5c'', CArray [CBytes ''leaf'', CBytes ''mid''])]),
     (CText ''authData'', CBytes attested_auth)]"

definition assertion_object :: "nat \<Rightarrow> cbor" where
  "assertion_object n = CMap [(CText ''signature'', CBytes (phone_sign (replicate 32 CHR ''x''))),
     (CText ''authenticatorData'', CBytes (asserted_auth n))]"

definition phone_cert :: "bytes \<Rightarrow> bool \<Rightarrow> x509" where
  "phone_cert key ca = \<lparr>x_tbs = key, x_signature = [], x_public_key = \<lparr>spki_algorithm = [], spki_data = key\<rparr>,
     x_is_ca = ca, x_basic_ca = Inr (Some ca),
     x_extensions = [(NONCE_EXTENSION_OID, map char_of [0x30, 36, 0xa1, 34, 0x04, 32 :: nat] @ pad 32 phone_app)],
     x_not_before = 0, x_not_after = 100\<rparr>"

definition phone_lib :: attest_lib where
  "phone_lib = \<lparr>std_encode = id, std_decode = Some,
     cbor_read = (\<lambda>bs. Some (if bs = ''attestation'' then attestation_object else assertion_object (length bs))),
     x509_from_der = (\<lambda>der. Some (if der = ''leaf'' then phone_cert phone_key False else phone_cert der True)),
     pem_read = Some, pem_parse_x509 = (\<lambda>pem. Some (phone_cert pem True)),
     x509_verify = (\<lambda>c k. True), asn1_time = Some,
     sec1_key = (\<lambda>k. Some (take 32 (tl k), drop 33 k)), sig_from_der = Some\<rparr>"

section \<open>Requests\<close>

definition coordinate :: string where "coordinate = replicate 32 CHR ''P'' @ replicate 11 CHR ''A''"
definition phone_challenge :: bytes where "phone_challenge = replicate 32 CHR ''C''"
definition phone_thumbprint :: bytes where "phone_thumbprint = thumbprint phone_crypto coordinate coordinate"

definition phone_codec :: service_codec where
  "phone_codec = \<lparr>
     de_enroll = (\<lambda>body. Inr \<lparr>er_challenge_id = ''ch'', er_key_id = phone_key_id, er_attestation = ''attestation'',
       er_principal_jwk = \<lparr>ji_kty = ''EC'', ji_crv = ''P-256'', ji_x = coordinate, ji_y = coordinate\<rparr>,
       er_pop_jws = ''h.p.'' @ phone_sign ''h.p''\<rparr>),
     de_pop = (\<lambda>bs. Inr \<lparr>pp_purpose = POP_PURPOSE, pp_challenge = b64_encode phone_crypto phone_challenge,
       pp_key_id = phone_key_id, pp_jwk_thumbprint = b64_encode phone_crypto phone_thumbprint\<rparr>),
     de_assertion = (\<lambda>body. Inr \<lparr>ar_device_id = ''d1'', ar_payload_digest = b64_encode phone_crypto (pad 32 body),
       ar_assertion = body\<rparr>)\<rparr>"

definition phone_settings :: "string \<Rightarrow> string option" where
  "phone_settings = map_of [(''ISSUER_ENV'', ''production''), (''ISSUER_DATABASE_URL'', ''postgres:''),
     (''ISSUER_APP_IDS'', phone_app)]"

definition phone_config :: config where
  "phone_config = \<lparr>cfg_env = Production, cfg_bind = (IpV4 [127, 0, 0, 1], 3010), cfg_database_url = ''postgres:'',
     cfg_app_ids = [phone_app], allow_development = False, client_ip_header = None,
     challenge_ttl = 300 * 10 ^ 9, cfg_rate_limits = \<lparr>challenge_per_min = 20, enrollment_per_min = 10,
       assertion_per_min = 120\<rparr>\<rparr>"

definition phone_request :: parsed_enroll where
  "phone_request = \<lparr>pe_challenge_id = ''ch'', pe_key_id_b64 = phone_key_id, pe_key_id = phone_key_id,
     pe_attestation = ''attestation'',
     pe_jwk = \<lparr>vj_jwk = \<lparr>kty = ''EC'', crv = ''P-256'', jwk_x = coordinate, jwk_y = Some coordinate\<rparr>,
       vj_thumbprint = phone_thumbprint, vj_key = VkP256 (take 32 coordinate) (take 32 coordinate)\<rparr>,
     pe_pop_jws = ''h.p.'' @ phone_sign ''h.p''\<rparr>"

definition phone_attested :: attested_key where
  "phone_attested = \<lparr>ak_public_key = phone_key, ak_environment = EnvProduction, ak_app_id = phone_app\<rparr>"

definition phone_assertion :: "bytes \<Rightarrow> parsed_assertion" where
  "phone_assertion body = \<lparr>pa_device_id = ''d1'', pa_payload_digest = pad 32 body, pa_assertion = body\<rparr>"

section \<open>What the service computes on them\<close>

lemma phone_app_valid: "valid_app_id phone_app" "CHR '','' \<notin> set phone_app"
  by (simp_all add: valid_app_id_def phone_app_def ascii_alnum_def ascii_upper_def ascii_lower_def
    in_range_def is_digit_def)

lemma strip_any_none:
  "list_all (\<lambda>p. p \<noteq> [] \<and> of_char (hd p) \<noteq> (of_char c :: nat)) ps \<Longrightarrow> strip_any ps (c # s) = None"
  by (induction ps) (auto simp: neq_Nil_conv)

lemma phone_app_trimmed: "trim phone_app = phone_app"
proof -
  have "list_all (\<lambda>p. p \<noteq> [] \<and> of_char (hd p) \<noteq> (of_char CHR ''A'' :: nat)) white_spaces"
    "list_all (\<lambda>p. p \<noteq> [] \<and> of_char (hd p) \<noteq> (of_char CHR ''p'' :: nat)) (map rev white_spaces)"
    by (simp_all add: white_spaces_def upt_rec_numeral)
  from this [THEN strip_any_none] show ?thesis by (simp add: trim_def trim_front.simps phone_app_def)
qed

lemma read_octets_4: "read_octets 0 4 s = read_octets 0 (Suc (Suc (Suc (Suc 0)))) s"
  by (simp add: numeral_eq_Suc)

lemma phone_config_read: "from_lookup phone_settings = Inr phone_config"
proof -
  have "read_app_ids (Some phone_app) = Inr [phone_app]"
    using phone_app_trimmed phone_app_valid by (simp add: read_app_ids_def split_on_absent)
  moreover have "parse_socket ''127.0.0.1:3010'' = Some (IpV4 [127, 0, 0, 1], 3010)"
    using read_octets_4 by (simp add: parse_socket_def read_ipv4_def read_sep_def read_num_def to_digit_def
      is_digit_def ascii_upper_def ascii_lower_def in_range_def read_port_def Let_def)
  ultimately show ?thesis
    by (simp add: from_lookup_def phone_settings_def phone_config_def read_env_def read_bind_def
      read_ip_header_def read_rate_def)
qed

lemma coordinate_ok [simp]: "canonical_coordinate phone_crypto coordinate"
  "b64_decode phone_crypto coordinate = Inr (take 32 coordinate)"
  by (simp_all add: canonical_coordinate_def coordinate_def phone_crypto_def)

lemma phone_sizes [simp]: "length coordinate = 43" "length phone_key_id = 32" "length phone_key = 65"
  "length phone_challenge = 32" "length phone_thumbprint = 32" "length (phone_sign m) = 64"
  by (simp_all add: coordinate_def phone_key_id_def phone_key_def phone_challenge_def phone_thumbprint_def
    thumbprint_def phone_sign_def phone_crypto_def toy_crypto_def)

lemma phone_crypto_simps [simp]:
  "b64_encode phone_crypto bs = (if length bs = 32 then bs @ replicate 11 CHR ''A'' else bs)"
  "b64_decode phone_crypto s = Inr (if length s = 43 then take 32 s else s)"
  "json_read phone_crypto bs = Inr (toy_header ''ES256'')" "sha256 phone_crypto = pad 32"
  "p256_verify phone_crypto x y m g \<longleftrightarrow> g = phone_sign m" "p256_point_ok phone_crypto x y = None"
  "p256_sig_ok phone_crypto g \<longleftrightarrow> length g = 64"
  by (simp_all add: phone_crypto_def toy_crypto_def)

lemma phone_request_parsed: "parse_enroll_request phone_crypto phone_lib phone_codec body = Inr phone_request"
  by (simp add: parse_enroll_request_def phone_codec_def phone_lib_def decode_exact_def jwk_validate_def Let_def
    MAX_KEY_ID_B64_def MAX_ATTESTATION_B64_def MAX_POP_JWS_def jwk_to_public_key_def
    p256_from_coordinates_def phone_request_def phone_thumbprint_def)

lemma phone_pop_verified:
  "jws_verify phone_crypto (de_pop phone_codec) (CHR ''h'' # CHR ''.'' # CHR ''p'' # CHR ''.'' # phone_sign ''h.p'')
     (VkP256 (take 32 coordinate) (take 32 coordinate)) =
   Inr \<lparr>pp_purpose = POP_PURPOSE, pp_challenge = phone_challenge @ replicate 11 CHR ''A'',
     pp_key_id = phone_key_id, pp_jwk_thumbprint = phone_thumbprint @ replicate 11 CHR ''A''\<rparr>"
proof -
  have "split_on CHR ''.'' (phone_sign ''h.p'') = [phone_sign ''h.p'']"
    by (rule split_on_absent) (simp add: phone_sign_def, code_simp)
  then show ?thesis
    by (simp add: jws_verify_def Let_def check_alg_def toy_header_def json_get_def verify_bytes_def) (simp add: phone_codec_def)
qed

lemma pad_append: "n \<le> length bs \<Longrightarrow> pad n (bs @ cs) = take n bs"
  by (simp add: pad_def)

lemma attested_auth_read: "parse_auth_data attested_auth = Inr \<lparr>ad_rp_id_hash = pad 32 phone_app,
    ad_counter = 0, ad_aaguid = Some AAGUID_PRODUCTION, ad_credential_id = Some phone_key_id\<rparr>"
  unfolding attested_auth_def by (rule parse_encoded) (simp add: auth_data_wf_def AAGUID_PRODUCTION_def, code_simp)

lemma attested_auth_hash: "pad 32 (attested_auth @ bs) = pad 32 phone_app"
  by (simp add: attested_auth_def encode_auth_data_def pad_append)

lemma phone_chain_checked:
  "check_chain phone_lib [] [CBytes ''leaf'', CBytes ''mid''] 50 = Inr (phone_cert phone_key False)"
  by (simp add: check_chain_def phone_lib_def phone_cert_def valid_at_def)

lemma phone_extension_read:
  "nonce_from_extension (map char_of [0x30, 36, 0xa1, 34, 0x04, 32 :: nat] @ pad 32 phone_app) = Inr (pad 32 phone_app)"
  by (simp add: nonce_from_extension_Inr)

lemma phone_request_verified:
  "verify_enrollment_at phone_crypto phone_lib phone_codec phone_config [] phone_request phone_challenge 50 =
     Inr phone_attested"
proof -
  have "verify_attestation_with_root phone_crypto phone_lib [] ''attestation'' phone_key_id cdh
      \<lparr>pol_app_ids = [phone_app], pol_allow_development = False\<rparr> 50 = Inr phone_attested" for cdh
    using phone_chain_checked phone_extension_read attested_auth_read
    by (simp add: verify_attestation_with_root_def phone_lib_def attestation_object_def cbor_map_get_def
      phone_cert_def sha256_concat_def attested_auth_hash match_app_id_def attested_environment_def Let_def
      phone_key_id_def phone_attested_def byte_at_def phone_key_def [THEN arg_cong [where f = "\<lambda>k. k ! 0"]])
  then show ?thesis
    by (simp add: verify_enrollment_at_def phone_request_def phone_pop_verified deployment_policy_def
      phone_config_def)
qed

lemma asserted_auth_read: "parse_auth_data (asserted_auth n) = Inr \<lparr>ad_rp_id_hash = pad 32 phone_app,
    ad_counter = of_nat n, ad_aaguid = None, ad_credential_id = None\<rparr>"
  unfolding asserted_auth_def by (rule parse_encoded) (simp add: auth_data_wf_def)

lemma phone_assertion_verified:
  assumes "body \<noteq> ''attestation''"
  shows "verify_assertion_object phone_crypto phone_lib body digest phone_app phone_key = Inr (of_nat (length body))"
  using assms
  by (simp add: verify_assertion_object_def phone_lib_def assertion_object_def cbor_map_get_def Let_def
    sha256_concat_def phone_sign_def asserted_auth_read)

section \<open>The properties on the phone\<close>

definition phone_ctx :: call_ctx where
  "phone_ctx = \<lparr>cx_now = 10, cx_tx_now = 10, cx_now_unix = 50\<rparr>"

definition phone_challenge_row :: challenge_row where
  "phone_challenge_row = \<lparr>ch_id = ''ch'', ch_challenge = phone_challenge, ch_created_at = 0, ch_expires_at = 100,
     ch_consumed_at = None\<rparr>"

definition phone_db :: issuer_db where
  "phone_db = empty_db\<lparr>db_challenges := [phone_challenge_row]\<rparr>"

definition phone_row :: "i64 \<Rightarrow> bytes option \<Rightarrow> device_row" where
  "phone_row n digest = (new_device ''u1'' ''d1'' phone_request phone_attested 10)
     \<lparr>dv_counter := n, dv_last_digest := digest\<rparr>"

definition enrolled_db :: "i64 \<Rightarrow> bytes option \<Rightarrow> issuer_db" where
  "enrolled_db n digest = phone_db\<lparr>db_users := [\<lparr>us_id = ''u1'', us_created_at = 10\<rparr>],
     db_devices := [phone_row n digest]\<rparr>"

definition phone_env :: issuer_env where
  "phone_env = \<lparr>ie_crypto = phone_crypto, ie_lib = phone_lib, ie_codec = phone_codec, ie_config = phone_config,
     ie_root_pem = []\<rparr>"

lemma phone_db_wf: "db_wf phone_db"
  by (simp add: phone_db_def db_wf_def empty_db_def)

lemma phone_row_simps [simp]: "dv_id (phone_row n dg) = ''d1''" "dv_user_id (phone_row n dg) = ''u1''"
  "dv_status (phone_row n dg) = ''active''" "dv_app_id (phone_row n dg) = phone_app"
  "dv_public_key (phone_row n dg) = phone_key" "dv_counter (phone_row n dg) = n"
  "dv_last_digest (phone_row n dg) = dg" "dv_environment (phone_row n dg) = ''production''"
  by (simp_all add: phone_row_def new_device_def phone_attested_def)

lemma phone_row_checks: "0 \<le> n \<Longrightarrow> n \<le> 4294967295 \<Longrightarrow> dg = None \<or> (\<exists>d. dg = Some d \<and> length d = 32) \<Longrightarrow>
    device_checks (phone_row n dg)"
  by (auto simp: device_checks_def phone_row_def new_device_def phone_attested_def phone_request_def)

lemma enrolled_db_wf: "0 \<le> n \<Longrightarrow> n \<le> 4294967295 \<Longrightarrow> dg = None \<or> (\<exists>d. dg = Some d \<and> length d = 32) \<Longrightarrow>
    db_wf (enrolled_db n dg)"
  using phone_row_checks [of n dg] by (simp add: enrolled_db_def phone_db_def db_wf_def empty_db_def)

lemma phone_live: "phone_challenge_row \<in> set (db_challenges phone_db)"
  "live_challenge (cx_now phone_ctx) (pe_challenge_id phone_request) phone_challenge_row"
  "ch_challenge phone_challenge_row = phone_challenge" "cx_now_unix phone_ctx = 50"
  by (simp_all add: phone_db_def live_challenge_def phone_challenge_row_def phone_ctx_def phone_request_def)

lemma phone_fresh: "fresh_device phone_db \<lparr>us_id = ''u1'', us_created_at = cx_tx_now phone_ctx\<rparr>
    (new_device ''u1'' ''d1'' phone_request phone_attested (cx_tx_now phone_ctx))"
  using phone_row_checks [of 0 None]
  by (simp add: fresh_device_def phone_db_def empty_db_def new_device_def phone_row_def phone_ctx_def)

lemma phone_enrolls: "\<exists>c'. enroll phone_crypto phone_lib phone_codec phone_config [] phone_ctx ''u1'' ''d1'' body
    (no_faults phone_db) = (Inr (enroll_answer ''u1'' ''d1'' phone_attested), c')"
  using enroll_works [OF phone_db_wf phone_request_parsed phone_live(1,2) _ phone_fresh,
    unfolded phone_live(3,4), OF phone_request_verified] by blast

lemma phone_assertion_parsed: "body \<noteq> [] \<Longrightarrow> length body < 32 \<Longrightarrow>
    parse_assertion_request phone_crypto phone_codec body = Inr (phone_assertion body)"
  by (simp add: parse_assertion_request_def phone_codec_def decode_exact_def MAX_ASSERTION_B64_def
    phone_assertion_def)

lemma phone_row_accepted: "check_device phone_config (phone_row n dg) = Inr ()"
  by (simp add: check_device_def phone_config_def)

lemma enrolled_db_row: "phone_row n dg \<in> set (db_devices (enrolled_db n dg))"
  by (simp add: enrolled_db_def)

lemma phone_asserts:
  assumes "body \<noteq> []" "length body < 32" "body \<noteq> ''attestation''" "0 \<le> n" "n < int (length body)"
    "dg = None \<or> (\<exists>d. dg = Some d \<and> length d = 32)"
  shows "\<exists>a c'. verify_assertion phone_crypto phone_lib phone_codec phone_config phone_ctx body
    (no_faults (enrolled_db n dg)) = (Inr a, c')"
proof -
  have u: "uint (of_nat (length body) :: u32) = int (length body)"
    using assms(2) by (simp add: uint_nat unat_of_nat)
  have "db_wf (enrolled_db n dg)" using assms by (intro enrolled_db_wf) auto
  from assertion_works [OF this phone_assertion_parsed [OF assms(1,2)] enrolled_db_row]
    phone_row_accepted phone_assertion_verified [OF assms(3)] u assms(5)
  show ?thesis by (fastforce simp: phone_assertion_def)
qed

lemma phone_wf: "db_wf (c_db (no_faults phone_db))" "db_wf (c_db (no_faults (enrolled_db 0 None)))"
  using phone_db_wf enrolled_db_wf [of 0 None] by simp_all

theorem enrolled_device_is_attested_witness:
  "\<exists>a c' req ch k. enroll phone_crypto phone_lib phone_codec phone_config [] phone_ctx ''u1'' ''d1'' ''body''
      (no_faults phone_db) = (Inr a, c')
    \<and> request_checked phone_crypto phone_lib phone_codec ''body'' req \<and> ch \<in> set (db_challenges phone_db)
    \<and> possession_proved phone_crypto phone_codec req (ch_challenge ch)
    \<and> attests phone_crypto phone_lib [] (pe_attestation req) (pe_key_id req)
        (sha256 phone_crypto (ch_challenge ch @ vj_thumbprint (pe_jwk req))) (deployment_policy phone_config)
        (cx_now_unix phone_ctx) k
    \<and> db_devices (c_db c') = db_devices phone_db @ [new_device ''u1'' ''d1'' req k (cx_tx_now phone_ctx)]"
proof -
  obtain a c' where run: "enroll phone_crypto phone_lib phone_codec phone_config [] phone_ctx ''u1'' ''d1'' ''body''
      (no_faults phone_db) = (Inr a, c')" using phone_enrolls by blast
  from enrolled_device_is_attested [OF run phone_wf(1)] run show ?thesis
    unfolding no_faults_simps(2) by blast
qed

theorem accepted_assertion_is_genuine_witness:
  "\<exists>a c' req row. verify_assertion phone_crypto phone_lib phone_codec phone_config phone_ctx ''1''
      (no_faults (enrolled_db 0 None)) = (Inr a, c')
    \<and> assertion_read phone_crypto phone_codec ''1'' req
    \<and> row \<in> set (db_devices (enrolled_db 0 None)) \<and> dv_counter row < uint (as_counter a)
    \<and> asserts phone_crypto phone_lib (pa_assertion req) (pa_payload_digest req) (dv_app_id row)
        (dv_public_key row) (as_counter a)"
proof -
  obtain a c' where run: "verify_assertion phone_crypto phone_lib phone_codec phone_config phone_ctx ''1''
      (no_faults (enrolled_db 0 None)) = (Inr a, c')" using phone_asserts [of "''1''" 0 None] by auto
  from accepted_assertion_is_genuine [OF run phone_wf(2)] run show ?thesis
    unfolding no_faults_simps(2) by blast
qed

theorem production_refuses_development_witness:
  "\<exists>a c'. serve_call phone_env (VerifyAssertion phone_ctx ''1'') (no_faults (enrolled_db 0 None)) =
      (Inr (AssertionVerified a), c') \<and> as_environment a = ''production''"
proof -
  obtain a c' where "verify_assertion phone_crypto phone_lib phone_codec phone_config phone_ctx ''1''
      (no_faults (enrolled_db 0 None)) = (Inr a, c')" using phone_asserts [of "''1''" 0 None] by auto
  then have run: "serve_call phone_env (VerifyAssertion phone_ctx ''1'') (no_faults (enrolled_db 0 None)) =
      (Inr (AssertionVerified a), c')" by (simp add: phone_env_def answered_def)
  from production_refuses_development [OF _ _ phone_wf(2) run, of phone_settings] run phone_config_read show ?thesis
    by (simp add: phone_env_def phone_settings_def)
qed

section \<open>A conflict\<close>

text \<open>Two bodies of length one, signed at counter one, with different digests.\<close>

definition used_db :: issuer_db where
  "used_db = enrolled_db 1 (Some (pad 32 ''1''))"

lemma used_db_wf: "db_wf (c_db (no_faults used_db))"
  using enrolled_db_wf [of 1 "Some (pad 32 ''1'')"] by (simp add: used_db_def)

lemma phone_conflict:
  "\<exists>c'. serve_call phone_env (VerifyAssertion phone_ctx ''2'') (no_faults used_db) = (Inl CounterConflict, c')
      \<and> still_active ''d1'' used_db \<and> \<not> still_active ''d1'' (c_db c')"
proof -
  have "pad 32 ''1'' \<noteq> pad 32 ''2''" by (simp add: pad_def)
  then have "\<exists>d1. verify_assertion phone_crypto phone_lib phone_codec phone_config phone_ctx ''2''
      (no_faults used_db) = (Inl CounterConflict, no_faults d1) \<and> still_active ''d1'' used_db
      \<and> \<not> still_active ''d1'' d1"
    using conflict_flags [of used_db phone_crypto phone_codec "''2''" "phone_assertion ''2''"
        "phone_row 1 (Some (pad 32 ''1''))" phone_config phone_lib 1 phone_ctx] used_db_wf
      phone_assertion_parsed [of "''2''"] phone_assertion_verified [of "''2''"] phone_row_accepted enrolled_db_row
    by (simp add: used_db_def phone_assertion_def)
  then show ?thesis by (auto simp: phone_env_def answered_def)
qed

theorem only_a_conflict_flags_a_device_witness:
  "\<exists>c' req row n. serve_call phone_env (VerifyAssertion phone_ctx ''2'') (no_faults used_db) = (Inl CounterConflict, c')
    \<and> assertion_read phone_crypto phone_codec ''2'' req \<and> row \<in> set (db_devices used_db)
    \<and> asserts phone_crypto phone_lib (pa_assertion req) (pa_payload_digest req) (dv_app_id row)
        (dv_public_key row) n
    \<and> dv_counter row = uint n \<and> dv_last_digest row \<noteq> Some (pa_payload_digest req)"
proof -
  obtain c' where run: "serve_call phone_env (VerifyAssertion phone_ctx ''2'') (no_faults used_db) =
      (Inl CounterConflict, c')" and off: "still_active ''d1'' used_db" "\<not> still_active ''d1'' (c_db c')"
    using phone_conflict by blast
  from only_a_conflict_flags_a_device [OF run used_db_wf _ off(2)] off(1)
  have "\<exists>req row n. assertion_read phone_crypto phone_codec ''2'' req \<and> row \<in> set (db_devices used_db)
    \<and> asserts phone_crypto phone_lib (pa_assertion req) (pa_payload_digest req) (dv_app_id row)
        (dv_public_key row) n
    \<and> dv_counter row = uint n \<and> dv_last_digest row \<noteq> Some (pa_payload_digest req)"
    by (auto simp: phone_env_def)
  with run show ?thesis by blast
qed

section \<open>One attempt per challenge\<close>

theorem challenge_is_good_for_one_attempt_witness:
  "\<exists>a c1. enroll phone_crypto phone_lib phone_codec phone_config [] phone_ctx ''u1'' ''d1'' ''body''
      (no_faults phone_db) = (Inr a, c1)
    \<and> fst (enroll phone_crypto phone_lib phone_codec phone_config [] phone_ctx ''u2'' ''d2'' ''again'' c1)
        \<in> {Inl InvalidChallenge, Inl Internal}
    \<and> db_devices (c_db (snd (enroll phone_crypto phone_lib phone_codec phone_config [] phone_ctx ''u2'' ''d2''
        ''again'' c1))) = db_devices (c_db c1)"
proof -
  obtain a c1 where run: "enroll phone_crypto phone_lib phone_codec phone_config [] phone_ctx ''u1'' ''d1'' ''body''
      (no_faults phone_db) = (Inr a, c1)" using phone_enrolls by blast
  with challenge_is_good_for_one_attempt [OF run _ phone_wf(1) db_runs.stop _ phone_request_parsed
      phone_request_parsed, of phone_ctx "''u2''" "''d2''"] show ?thesis by auto
qed

theorem honest_device_is_served_witness:
  "\<exists>d1 d2 a. verify_assertion phone_crypto phone_lib phone_codec phone_config phone_ctx ''1'' (no_faults d1)
      = (Inr a, no_faults d2) \<and> as_verified a \<and> as_device_id a = ''d1'' \<and> as_counter a = 1
    \<and> enroll phone_crypto phone_lib phone_codec phone_config [] phone_ctx ''u1'' ''d1'' ''body''
        (no_faults phone_db) = (Inr (enroll_answer ''u1'' ''d1'' phone_attested), no_faults d1)"
proof -
  have ch: "ch_challenge phone_challenge_row = phone_challenge" by (rule phone_live(3))
  note verified = phone_request_verified [unfolded verify_enrollment_exact, folded phone_live(3,4)]
  have "asserts phone_crypto phone_lib (pa_assertion (phone_assertion ''1''))
      (pa_payload_digest (phone_assertion ''1'')) (ak_app_id phone_attested) (ak_public_key phone_attested) 1"
    using phone_assertion_verified [of "''1''"] by (simp add: assertion_exact [symmetric] phone_assertion_def phone_attested_def)
  from honest_device_is_served [OF phone_db_wf phone_request_parsed phone_live(1,2) verified [THEN conjunct1]
      verified [THEN conjunct2] phone_fresh phone_assertion_parsed [of "''1''"] _ this, of "''body''" phone_ctx]
  show ?thesis by (fastforce simp: phone_assertion_def)
qed

end
