(* ===== verification/IssuerRateLimit.thy ===== *)
theory IssuerRateLimit
  imports IssuerLib "HOL-Library.AList"
begin

text \<open>
  The issuer service's rate limiter (crates/issuer-service/src/ratelimit.rs): a table of
  fixed windows keyed by client address. An \<open>Instant\<close> is a number of nanoseconds on the
  monotonic clock, the \<open>HashMap\<close> an association list with distinct keys.
\<close>

definition WINDOW :: nat where "WINDOW = 60 * 10 ^ 9"
definition MAX_TRACKED :: nat where "MAX_TRACKED = 50000"

type_synonym windows = "(ip_addr \<times> nat \<times> u32) list"

record rate_limiter =
  rl_limit :: u32
  rl_state :: windows

fun ip_key :: "ip_addr \<Rightarrow> ip_addr" where
  "ip_key (IpV4 octets) = IpV4 octets"
| "ip_key (IpV6 octets) = IpV6 (take 8 octets @ replicate (length octets - 8) 0)"

definition rate_limiter_new :: "u32 \<Rightarrow> rate_limiter" where
  "rate_limiter_new limit_per_min = \<lparr>rl_limit = limit_per_min, rl_state = []\<rparr>"

text \<open>\<open>now.duration_since(start)\<close> is zero when \<open>start\<close> is later, as natural subtraction.\<close>

definition keep_live :: "nat \<Rightarrow> windows \<Rightarrow> windows" where
  "keep_live now m = filter (\<lambda>(_, start, _). now - start < WINDOW) m"

definition make_room :: "nat \<Rightarrow> windows \<Rightarrow> windows" where
  "make_room now m = (if MAX_TRACKED \<le> length m then keep_live now m else m)"

definition live_entry :: "nat \<Rightarrow> (nat \<times> u32) option \<Rightarrow> nat \<times> u32" where
  "live_entry now found =
     (case found of None \<Rightarrow> (now, 0)
      | Some (start, n) \<Rightarrow> if WINDOW \<le> now - start then (now, 0) else (start, n))"

definition check_at :: "rate_limiter \<Rightarrow> ip_addr \<Rightarrow> nat \<Rightarrow> bool \<times> rate_limiter" where
  "check_at rl ip now =
     (let m = make_room now (rl_state rl) in
      if MAX_TRACKED \<le> length m then (False, rl\<lparr>rl_state := m\<rparr>)
      else
        let (start, n) = live_entry now (map_of m (ip_key ip)) in
        if rl_limit rl \<le> n
        then (False, rl\<lparr>rl_state := AList.update (ip_key ip) (start, n) m\<rparr>)
        else (True, rl\<lparr>rl_state := AList.update (ip_key ip) (start, n + 1) m\<rparr>))"

text \<open>A sequence of requests, each at its time; the answers in order.\<close>

fun check_all :: "rate_limiter \<Rightarrow> (ip_addr \<times> nat) list \<Rightarrow> bool list \<times> rate_limiter" where
  "check_all rl [] = ([], rl)"
| "check_all rl ((ip, t) # rs) =
     (let (allowed, rl') = check_at rl ip t; (answers, rl'') = check_all rl' rs
      in (allowed # answers, rl''))"

section \<open>The table\<close>

definition windows_ok :: "nat \<Rightarrow> rate_limiter \<Rightarrow> bool" where
  "windows_ok now rl \<longleftrightarrow>
     distinct (map fst (rl_state rl)) \<and> length (rl_state rl) \<le> MAX_TRACKED
     \<and> (\<forall>(_, start, n) \<in> set (rl_state rl). start \<le> now \<and> n \<le> rl_limit rl)"

lemma distinct_keep_live: "distinct (map fst m) \<Longrightarrow> distinct (map fst (keep_live now m))"
  unfolding keep_live_def by (rule distinct_map_filter)

lemma map_of_keep_live:
  "distinct (map fst m) \<Longrightarrow> map_of (keep_live now m) k =
     (case map_of m k of Some (start, n) \<Rightarrow> if now - start < WINDOW then Some (start, n) else None
      | None \<Rightarrow> None)"
proof (induction m)
  case (Cons e m)
  then have IH: "map_of (keep_live now m) k =
     (case map_of m k of Some (start, n) \<Rightarrow> if now - start < WINDOW then Some (start, n) else None
      | None \<Rightarrow> None)" by simp
  obtain k' start n where e: "e = (k', start, n)" by (cases e)
  show ?case
  proof (cases "k' = k")
    case True
    with Cons.prems e have "map_of m k = None" by (simp add: map_of_eq_None_iff)
    with IH True e show ?thesis by (simp add: keep_live_def)
  qed (use IH e in \<open>simp add: keep_live_def\<close>)
qed (simp add: keep_live_def)

text \<open>Making room forgets only windows that are over.\<close>

lemma live_entry_make_room:
  "distinct (map fst m) \<Longrightarrow>
     live_entry now (map_of (make_room now m) k) = live_entry now (map_of m k)"
  by (auto simp: make_room_def map_of_keep_live live_entry_def split: option.splits)

lemma make_room_subset: "set (make_room now m) \<subseteq> set m"
  by (auto simp: make_room_def keep_live_def)

lemma distinct_make_room: "distinct (map fst m) \<Longrightarrow> distinct (map fst (make_room now m))"
  by (simp add: make_room_def distinct_keep_live)

lemma length_update_le: "length (AList.update k v m) \<le> Suc (length m)"
  by (induction m) auto

lemma set_update_subset: "set (AList.update k v m) \<subseteq> insert (k, v) (set m)"
  by (induction m) auto

lemma live_entry_le:
  "(case found of Some (start, n) \<Rightarrow> n \<le> L | None \<Rightarrow> True) \<Longrightarrow> snd (live_entry t found) \<le> L"
  by (auto simp: live_entry_def split: option.splits)

lemma check_at_limit [simp]: "rl_limit (snd (check_at rl ip t)) = rl_limit rl"
  by (simp add: check_at_def Let_def split: prod.split)

text \<open>The table keeps one entry per client, and no entry counts past the limit.\<close>

definition counts_ok :: "rate_limiter \<Rightarrow> bool" where
  "counts_ok rl \<longleftrightarrow> distinct (map fst (rl_state rl))
     \<and> (\<forall>k start n. map_of (rl_state rl) k = Some (start, n) \<longrightarrow>
           n \<le> rl_limit rl \<and> (n = 0 \<longrightarrow> rl_limit rl = 0))"

lemma map_of_make_room:
  assumes "distinct (map fst m)" "map_of (make_room t m) k = Some v"
  shows "map_of m k = Some v"
  using assms by (auto simp: make_room_def map_of_keep_live split: if_splits option.splits prod.splits)

lemma u32_Suc_le: "\<not> (L :: u32) \<le> n \<Longrightarrow> n + 1 \<le> L"
  by (simp add: inc_le not_le)

lemma unat_Suc_below: "n < (L :: u32) \<Longrightarrow> unat (n + 1) = Suc (unat n)"
proof -
  assume "n < L"
  then have "unat n < unat L" by (simp add: word_less_nat_alt)
  moreover have "unat L < 2 ^ 32" using unsigned_less [of L, where ?'a = nat] by simp
  ultimately show ?thesis by (simp add: unat_word_ariths)
qed

lemma counts_ok_check_at:
  assumes ok: "counts_ok rl"
  shows "counts_ok (snd (check_at rl ip t))"
proof -
  let ?m = "make_room t (rl_state rl)"
  have d: "distinct (map fst (rl_state rl))" using ok by (simp add: counts_ok_def)
  have m: "n \<le> rl_limit rl \<and> (n = 0 \<longrightarrow> rl_limit rl = 0)" if "map_of ?m k = Some (start, n)" for k start n
    using map_of_make_room [OF d that] ok by (simp add: counts_ok_def)
  obtain start n where e: "live_entry t (map_of ?m (ip_key ip)) = (start, n)" by force
  have n: "n \<le> rl_limit rl"
    using live_entry_le [where found = "map_of ?m (ip_key ip)" and L = "rl_limit rl" and t = t] m e
    by (auto split: option.splits)
  have pos: "n + 1 \<noteq> 0" if "\<not> rl_limit rl \<le> n"
    using unat_Suc_below [of n "rl_limit rl"] that by (metis nat.distinct(1) not_le unat_0)
  show ?thesis
    using distinct_make_room [OF d] m e n pos
    by (auto simp: counts_ok_def check_at_def Let_def distinct_update update_conv' u32_Suc_le
      simp del: map_of_eq_Some_iff split: if_splits)
qed

lemma counts_ok_check_all: "counts_ok rl \<Longrightarrow> counts_ok (snd (check_all rl rs))"
proof (induction rs arbitrary: rl)
  case (Cons r rs)
  obtain ip t where r: "r = (ip, t)" by force
  obtain a rl' where c: "check_at rl ip t = (a, rl')" by force
  with counts_ok_check_at [OF Cons.prems, of ip t] have "counts_ok rl'" by simp
  from Cons.IH [OF this] show ?case by (cases "check_all rl' rs") (simp add: r c)
qed simp

lemma counts_ok_new: "counts_ok (rate_limiter_new L)"
  by (simp add: counts_ok_def rate_limiter_new_def)

section \<open>How many requests a client gets\<close>

definition allowed_of :: "ip_addr \<Rightarrow> (ip_addr \<times> nat) list \<Rightarrow> bool list \<Rightarrow> nat" where
  "allowed_of k rs answers =
     length (filter (\<lambda>((ip, _), a). ip_key ip = k \<and> a) (zip rs answers))"

text \<open>
  How many more requests the client can be granted up to \<open>T + WINDOW\<close>, at any time from
  \<open>T\<close> on: the rest of the window it is in and, when that one began before \<open>T\<close>, one more.
\<close>

definition grants_left :: "nat \<Rightarrow> nat \<Rightarrow> (nat \<times> u32) option \<Rightarrow> nat" where
  "grants_left T L found =
     (case found of None \<Rightarrow> L
      | Some (start, n) \<Rightarrow> if T \<le> start then L - unat n else 2 * L - unat n)"

lemma grants_left_make_room:
  assumes "counts_ok rl" and "T \<le> t" "t < T + WINDOW"
  shows "grants_left T (unat (rl_limit rl)) (map_of (make_room t (rl_state rl)) k)
       \<le> grants_left T (unat (rl_limit rl)) (map_of (rl_state rl) k)"
proof -
  have d: "distinct (map fst (rl_state rl))" using assms by (simp add: counts_ok_def)
  have "unat n \<le> unat (rl_limit rl)" if "map_of (rl_state rl) k = Some (start, n)" for start n
    using assms(1) that by (auto simp: counts_ok_def word_le_nat_alt)
  then show ?thesis
    using assms by (auto simp: make_room_def map_of_keep_live [OF d] grants_left_def split: option.splits)
qed

lemma check_at_grants:
  assumes ok: "counts_ok rl" and T: "T \<le> t" "t < T + WINDOW"
    and r: "check_at rl ip t = (a, rl')"
  defines "left \<equiv> \<lambda>x k. grants_left T (unat (rl_limit rl)) (map_of (rl_state x) k)"
  shows "left rl' k + (if ip_key ip = k \<and> a then 1 else 0) \<le> left rl k"
proof -
  let ?m = "make_room t (rl_state rl)" and ?L = "rl_limit rl"
  have mk: "grants_left T (unat ?L) (map_of ?m k) \<le> left rl k"
    using grants_left_make_room [OF ok T] by (simp add: left_def)
  have d: "distinct (map fst (rl_state rl))" using ok by (simp add: counts_ok_def)
  have m: "n \<le> ?L" if "map_of ?m k = Some (start, n)" for start n
    using map_of_make_room [OF d that] ok by (simp add: counts_ok_def)
  obtain start n where e: "live_entry t (map_of ?m (ip_key ip)) = (start, n)" by force
  show ?thesis
  proof (cases "MAX_TRACKED \<le> length ?m \<or> ip_key ip \<noteq> k")
    case True
    with r mk e show ?thesis
      by (auto simp: check_at_def Let_def left_def update_conv' split: if_splits)
  next
    case False
    have n1: "unat (n + 1) = unat n + 1" if "\<not> ?L \<le> n"
      using unat_Suc_below [of n ?L] that by (simp add: not_le)
    have step: "grants_left T (unat ?L) (Some (start, n)) \<le> grants_left T (unat ?L) (map_of ?m k)"
      using e False m T
      by (auto simp: live_entry_def grants_left_def word_le_nat_alt split: option.splits if_splits)
    show ?thesis
    proof (cases "?L \<le> n")
      case True
      with False r e have "a = False" "map_of (rl_state rl') k = Some (start, n)"
        by (auto simp: check_at_def Let_def update_conv')
      with step mk show ?thesis by (simp add: left_def)
    next
      case less: False
      with False r e have "a = True" "map_of (rl_state rl') k = Some (start, n + 1)"
        by (auto simp: check_at_def Let_def update_conv')
      moreover have "grants_left T (unat ?L) (Some (start, n + 1)) + 1
          \<le> grants_left T (unat ?L) (Some (start, n))"
        using less n1 by (auto simp: grants_left_def word_le_nat_alt)
      ultimately show ?thesis using step mk by (simp add: left_def)
    qed
  qed
qed

lemma grants_bound:
  "counts_ok rl \<Longrightarrow> \<forall>(_, t) \<in> set rs. T \<le> t \<and> t < T + WINDOW \<Longrightarrow>
     allowed_of k rs (fst (check_all rl rs)) \<le> grants_left T (unat (rl_limit rl)) (map_of (rl_state rl) k)"
proof (induction rs arbitrary: rl)
  case (Cons r rs)
  obtain ip t where r: "r = (ip, t)" by force
  obtain a rl' where c: "check_at rl ip t = (a, rl')" by force
  have lim: "rl_limit rl' = rl_limit rl" and ok': "counts_ok rl'"
    using check_at_limit [of rl ip t] counts_ok_check_at [OF Cons.prems(1), of ip t] c by simp_all
  have "allowed_of k rs (fst (check_all rl' rs))
      \<le> grants_left T (unat (rl_limit rl)) (map_of (rl_state rl') k)"
    using Cons.IH [OF ok'] Cons.prems(2) lim by simp
  moreover have "grants_left T (unat (rl_limit rl)) (map_of (rl_state rl') k)
      + (if ip_key ip = k \<and> a then 1 else 0) \<le> grants_left T (unat (rl_limit rl)) (map_of (rl_state rl) k)"
    using check_at_grants [OF Cons.prems(1) _ _ c, of T k] Cons.prems(2) r by simp
  ultimately show ?case
    by (auto simp: r c allowed_of_def split: prod.split)
qed (simp add: allowed_of_def)

lemma grants_left_le:
  assumes "\<forall>start n. found = Some (start, n) \<longrightarrow> n = 0 \<longrightarrow> L = 0"
  shows "grants_left T (unat L) found \<le> 2 * unat L - 1"
proof (cases found)
  case None
  then show ?thesis by (cases "unat L") (auto simp: grants_left_def)
next
  case (Some v)
  obtain start n where v: "v = (start, n)" by force
  with Some assms have "unat n = 0 \<longrightarrow> unat L = 0" by (auto simp: unat_eq_0)
  with Some v show ?thesis by (auto simp: grants_left_def)
qed

lemma check_all_limit: "rl_limit (snd (check_all rl rs)) = rl_limit rl"
proof (induction rs arbitrary: rl)
  case (Cons r rs)
  obtain ip t where r: "r = (ip, t)" by force
  obtain a rl' where c: "check_at rl ip t = (a, rl')" by force
  with check_at_limit [of rl ip t] have "rl_limit rl' = rl_limit rl" by simp
  with Cons.IH [of rl'] show ?case by (cases "check_all rl' rs") (simp add: r c)
qed simp

text \<open>Whatever came before, the limiter grants one client key at most 2 * limit - 1
  requests within any 60 seconds (limit requests when the limit is at most one), and the
  bound is reached: two fixed windows can meet inside the minute.\<close>

lemma rate_limit_bounds_a_minute:
  assumes "\<forall>(_, t) \<in> set rs. T \<le> t \<and> t < T + WINDOW"
  shows "allowed_of k rs (fst (check_all (snd (check_all (rate_limiter_new L) before)) rs)) \<le> 2 * unat L - 1"
proof -
  let ?rl = "snd (check_all (rate_limiter_new L) before)"
  have ok: "counts_ok ?rl" by (rule counts_ok_check_all [OF counts_ok_new])
  have L: "rl_limit ?rl = L" by (simp add: check_all_limit rate_limiter_new_def)
  have "grants_left T (unat L) (map_of (rl_state ?rl) k) \<le> 2 * unat L - 1"
    using ok L by (intro grants_left_le) (auto simp: counts_ok_def)
  with grants_bound [OF ok assms, of k] L show ?thesis by simp
qed

text \<open>The bound is reached: three requests within a minute under a limit of two.\<close>

definition client :: ip_addr where "client = IpV4 [192, 0, 2, 1]"

definition burst :: "(ip_addr \<times> nat) list" where
  "burst = [(client, 100 * 10 ^ 9), (client, 101 * 10 ^ 9), (client, 102 * 10 ^ 9), (client, 103 * 10 ^ 9)]"

definition limiter_before :: rate_limiter where
  "limiter_before = snd (check_all (rate_limiter_new 2) [(client, 41 * 10 ^ 9)])"

lemma burst_answers:
  "fst (check_all limiter_before burst) = [True, True, True, False]"
  by (simp add: limiter_before_def burst_def client_def check_at_def rate_limiter_new_def make_room_def
    MAX_TRACKED_def live_entry_def WINDOW_def Let_def word_le_nat_alt)

lemma burst_grants_three:
  "allowed_of client burst (fst (check_all limiter_before burst)) \<le> 2 * unat (2 :: u32) - 1
   \<and> allowed_of client burst (fst (check_all limiter_before burst)) = 3"
proof
  show "allowed_of client burst (fst (check_all limiter_before burst)) \<le> 2 * unat (2 :: u32) - 1"
    unfolding limiter_before_def
    by (rule rate_limit_bounds_a_minute [where T = "100 * 10 ^ 9"]) (simp add: burst_def WINDOW_def)
  show "allowed_of client burst (fst (check_all limiter_before burst)) = 3"
    by (simp add: burst_answers) (simp add: burst_def allowed_of_def client_def)
qed

end
