(* ===== verification/IssuerMigrate.thy ===== *)
theory IssuerMigrate
  imports IssuerConfig Database "HOL-Library.Sublist"
begin

text \<open>
  The issuer service's schema migrations (crates/issuer-service/src/migrate.rs): the explicit
  \<open>migrate\<close> run and the check a server makes before it starts. The database is a
  bookkeeping table, the roles, the session's advisory lock and the rest of the schema
  \<open>'s\<close>, on which a script acts through \<open>exec\<close>: Postgres is a parameter, \<open>None\<close> a script
  that fails. A script does not touch the bookkeeping table. The list of migrations is an
  argument, so that binaries with different lists can meet one database; \<open>MIGRATIONS\<close> is
  the one in the source, with the text of migrations/0001\_init.sql as its argument.
\<close>

section \<open>The database\<close>

record migration =
  mg_version :: i32
  mg_name :: string
  mg_sql :: string

definition MIGRATIONS :: "string \<Rightarrow> migration list" where
  "MIGRATIONS init_sql = [\<lparr>mg_version = 1, mg_name = ''init'', mg_sql = init_sql\<rparr>]"

record migration_row =
  mr_version :: i32
  mr_name :: string
  mr_checksum :: bytes

record 's schema_db =
  sd_rows :: "migration_row list option"
  sd_roles :: "string list"
  sd_readers :: "string list"
  sd_locks :: nat
  sd_schema :: 's

datatype migrate_error =
    BadRole
  | MigrateDb sql_error
  | ChecksumMismatch i32
  | UnknownApplied i32
  | PendingMigrations i32 i32

type_synonym ('s, 'a) mact = "('s schema_db, migrate_error, 'a) action"

type_synonym 's script = "string \<Rightarrow> 's \<Rightarrow> 's option"

text \<open>\<open>From<tokio_postgres::Error>\<close>.\<close>

definition mquery :: "('s schema_db, 'a) statement \<Rightarrow> ('s, 'a) mact" where
  "mquery st c = (case execute st c of (r, c') \<Rightarrow> (map_err MigrateDb r, c'))"

definition sql_advisory_lock :: "('s schema_db, nat) statement" where
  "sql_advisory_lock d = (Inr 1, d\<lparr>sd_locks := sd_locks d + 1\<rparr>)"

definition sql_advisory_unlock :: "('s schema_db, nat) statement" where
  "sql_advisory_unlock d = (Inr 1, d\<lparr>sd_locks := sd_locks d - 1\<rparr>)"

definition sql_create_bookkeeping :: "('s schema_db, unit) statement" where
  "sql_create_bookkeeping d =
     (Inr (), case sd_rows d of None \<Rightarrow> d\<lparr>sd_rows := Some []\<rparr> | Some _ \<Rightarrow> d)"

definition sql_grant_select :: "string \<Rightarrow> ('s schema_db, unit) statement" where
  "sql_grant_select role d =
     (if sd_rows d = None \<or> role \<notin> set (sd_roles d) then (Inl OtherSqlError, d)
      else (Inr (), d\<lparr>sd_readers := List.insert role (sd_readers d)\<rparr>))"

definition sql_applied :: "('s schema_db, (i32 \<times> bytes) list) statement" where
  "sql_applied d =
     (case sd_rows d of
        None \<Rightarrow> (Inl OtherSqlError, d)
      | Some rows \<Rightarrow> (Inr (map (\<lambda>r. (mr_version r, mr_checksum r)) (sort_key mr_version rows)), d))"

definition sql_script :: "'s script \<Rightarrow> string \<Rightarrow> ('s schema_db, unit) statement" where
  "sql_script exec sql d =
     (case exec sql (sd_schema d) of
        None \<Rightarrow> (Inl OtherSqlError, d)
      | Some s \<Rightarrow> (Inr (), d\<lparr>sd_schema := s\<rparr>))"

definition sql_insert_migration :: "migration_row \<Rightarrow> ('s schema_db, nat) statement" where
  "sql_insert_migration row d =
     (case sd_rows d of
        None \<Rightarrow> (Inl OtherSqlError, d)
      | Some rows \<Rightarrow>
          if mr_version row \<in> set (map mr_version rows) then (Inl UniqueViolation, d)
          else (Inr 1, d\<lparr>sd_rows := Some (rows @ [row])\<rparr>))"

section \<open>Running the migrations\<close>

definition checksum :: "crypto \<Rightarrow> migration \<Rightarrow> bytes" where
  "checksum C m = sha256 C (mg_sql m)"

definition render :: "string \<Rightarrow> string \<Rightarrow> string" where
  "render sql role = replace_all ''{{app_role}}'' (CHR 0x22 # role @ [CHR 0x22]) sql"

definition row_of :: "crypto \<Rightarrow> migration \<Rightarrow> migration_row" where
  "row_of C m = \<lparr>mr_version = mg_version m, mr_name = mg_name m, mr_checksum = checksum C m\<rparr>"

definition known_migration :: "migration list \<Rightarrow> i32 \<Rightarrow> migration option" where
  "known_migration ms v = find (\<lambda>m. mg_version m = v) ms"

fun check_applied :: "crypto \<Rightarrow> migration list \<Rightarrow> (i32 \<times> bytes) list \<Rightarrow> migrate_error + unit" where
  "check_applied C ms [] = Inr ()"
| "check_applied C ms ((v, cs) # rows) =
     (case known_migration ms v of
        None \<Rightarrow> Inl (UnknownApplied v)
      | Some m \<Rightarrow> if checksum C m \<noteq> cs then Inl (ChecksumMismatch v) else check_applied C ms rows)"

definition apply_one :: "crypto \<Rightarrow> 's script \<Rightarrow> string \<Rightarrow> migration \<Rightarrow> ('s, unit) mact" where
  "apply_one C exec role m =
     in_transaction (MigrateDb OtherSqlError)
       (abind (mquery (sql_script exec (render (mg_sql m) role))) (\<lambda>_.
        abind (mquery (sql_insert_migration (row_of C m))) (\<lambda>_.
        areturn ())))"

fun apply_pending ::
  "crypto \<Rightarrow> 's script \<Rightarrow> string \<Rightarrow> i32 list \<Rightarrow> migration list \<Rightarrow> i32 list \<Rightarrow> ('s, i32 list) mact" where
  "apply_pending C exec role applied [] acc = areturn acc"
| "apply_pending C exec role applied (m # ms) acc =
     (if mg_version m \<in> set applied then apply_pending C exec role applied ms acc
      else abind (apply_one C exec role m) (\<lambda>_.
        apply_pending C exec role applied ms (acc @ [mg_version m])))"

definition run_locked :: "crypto \<Rightarrow> 's script \<Rightarrow> migration list \<Rightarrow> string \<Rightarrow> ('s, i32 list) mact" where
  "run_locked C exec ms role =
     abind (mquery sql_create_bookkeeping) (\<lambda>_.
     abind (mquery (sql_grant_select role)) (\<lambda>_.
     abind (mquery sql_applied) (\<lambda>applied.
     abind (aresult (check_applied C ms applied)) (\<lambda>_.
     apply_pending C exec role (map fst applied) ms []))))"

text \<open>The lock is released whatever \<open>run_locked\<close> answers, and the answer to that is not looked at.\<close>

definition unlocking :: "('s, 'a) mact \<Rightarrow> ('s, 'a) mact" where
  "unlocking m c = (case m c of (r, c') \<Rightarrow> (r, snd (mquery sql_advisory_unlock c')))"

definition run_migrations :: "crypto \<Rightarrow> 's script \<Rightarrow> migration list \<Rightarrow> string \<Rightarrow> ('s, i32 list) mact" where
  "run_migrations C exec ms role =
     (if \<not> valid_role_name role then afail BadRole
      else abind (mquery sql_advisory_lock) (\<lambda>_. unlocking (run_locked C exec ms role)))"

section \<open>The check at start-up\<close>

fun newest_known ::
  "crypto \<Rightarrow> migration list \<Rightarrow> (i32 \<times> bytes) list \<Rightarrow> i32 \<Rightarrow> migrate_error + i32" where
  "newest_known C ms [] have_v = Inr have_v"
| "newest_known C ms ((v, cs) # rows) have_v =
     (case known_migration ms v of
        None \<Rightarrow> Inl (UnknownApplied v)
      | Some m \<Rightarrow> if checksum C m \<noteq> cs then Inl (ChecksumMismatch v)
          else newest_known C ms rows (max have_v v))"

definition verify_schema :: "crypto \<Rightarrow> migration list \<Rightarrow> ('s, unit) mact" where
  "verify_schema C ms =
     abind (mquery sql_applied) (\<lambda>rows.
     let want = (if ms = [] then 0 else mg_version (last ms)) in
     abind (aresult (newest_known C ms rows 0)) (\<lambda>have_v.
     if have_v \<noteq> want \<or> length rows \<noteq> length ms then afail (PendingMigrations have_v want)
     else areturn ()))"

end
