(* ===== verification/IssuerSchema.thy ===== *)
theory IssuerSchema
  imports IssuerMigrate
begin

text \<open>
  What a run of the migrations does to a database, whatever happens to its connection, and
  what the check at start-up accepts. The specification is a history: the migrations that
  were applied, in order, each with the role it was rendered for; the bookkeeping table and
  the schema are what that history gives.
\<close>

section \<open>Histories\<close>

type_synonym migration_history = "(migration \<times> string) list"

fun run_scripts :: "'s script \<Rightarrow> 's \<Rightarrow> migration_history \<Rightarrow> 's option" where
  "run_scripts exec s [] = Some s"
| "run_scripts exec s ((m, role) # h) =
     (case exec (render (mg_sql m) role) s of None \<Rightarrow> None | Some s' \<Rightarrow> run_scripts exec s' h)"

definition versions :: "migration_history \<Rightarrow> i32 list" where
  "versions h = map (mg_version \<circ> fst) h"

definition schema_of_history ::
  "crypto \<Rightarrow> 's script \<Rightarrow> 's \<Rightarrow> migration_history \<Rightarrow> 's schema_db \<Rightarrow> bool" where
  "schema_of_history C exec s0 h d \<longleftrightarrow>
     distinct (versions h) \<and> run_scripts exec s0 h = Some (sd_schema d)
     \<and> (case sd_rows d of None \<Rightarrow> h = [] | Some rows \<Rightarrow> rows = map (row_of C \<circ> fst) h)"

definition pending :: "migration list \<Rightarrow> i32 list \<Rightarrow> migration list" where
  "pending ms applied = filter (\<lambda>m. mg_version m \<notin> set applied) ms"

definition applied_for :: "string \<Rightarrow> migration list \<Rightarrow> migration_history" where
  "applied_for role ms = map (\<lambda>m. (m, role)) ms"

lemma versions_simps [simp]:
  "versions [] = []" "versions ((m, role) # h) = mg_version m # versions h"
  "versions (h @ h') = versions h @ versions h'" "versions (applied_for role ms) = map mg_version ms"
  by (simp_all add: versions_def applied_for_def)

lemma applied_for_simps [simp]:
  "applied_for role [] = []" "applied_for role (m # ms) = (m, role) # applied_for role ms"
  by (simp_all add: applied_for_def)

lemma pending_simps [simp]:
  "pending [] vs = []"
  "pending (m # ms) vs = (if mg_version m \<in> set vs then pending ms vs else m # pending ms vs)"
  by (simp_all add: pending_def)

lemma run_scripts_append:
  "run_scripts exec s (h @ h') = Option.bind (run_scripts exec s h) (\<lambda>s'. run_scripts exec s' h')"
  by (induction h arbitrary: s) (auto split: option.splits)

lemma row_of_simps [simp]:
  "mr_version (row_of C m) = mg_version m" "mr_checksum (row_of C m) = checksum C m"
  by (simp_all add: row_of_def)

lemma row_versions: "map mr_version (map (row_of C \<circ> fst) h) = versions h"
  by (simp add: versions_def)

lemma history_cong:
  "schema_of_history C exec s0 h d \<Longrightarrow> sd_rows d' = sd_rows d \<Longrightarrow> sd_schema d' = sd_schema d \<Longrightarrow>
     schema_of_history C exec s0 h d'"
  by (simp add: schema_of_history_def)

section \<open>Whatever happens to the connection\<close>

lemma mqueryE:
  assumes "mquery st c = (r, c')"
  obtains (heard) "r = map_err MigrateDb (fst (st (c_db c)))" "c_db c' = snd (st (c_db c))"
  | (unheard) e where "r = Inl e" "c_db c' = snd (st (c_db c))"
  | (lost) e where "r = Inl e" "c_db c' = c_db c"
  using assms by (auto simp: mquery_def map_err_def split: prod.splits elim!: executeE)

lemma mquery_Inr:
  "mquery st c = (Inr a, c') \<Longrightarrow> fst (st (c_db c)) = Inr a \<and> c_db c' = snd (st (c_db c))"
  by (auto simp: mquery_def execute_def map_err_def
    split: prod.splits sum.splits fault.splits dest: take_fault_db)

lemma mquery_keeps:
  assumes "mquery st c = (r, c')" "\<And>d. P d \<Longrightarrow> P (snd (st d))" "P (c_db c)"
  shows "P (c_db c')"
  using assms by (elim mqueryE) auto

lemma bookkeeping_keeps_history:
  "schema_of_history C exec s0 h d \<Longrightarrow> schema_of_history C exec s0 h (snd (sql_create_bookkeeping d))"
  "schema_of_history C exec s0 h d \<Longrightarrow> schema_of_history C exec s0 h (snd (sql_grant_select role d))"
  "schema_of_history C exec s0 h d \<Longrightarrow> schema_of_history C exec s0 h (snd (sql_applied d))"
  "schema_of_history C exec s0 h d \<Longrightarrow> schema_of_history C exec s0 h (snd (sql_advisory_lock d))"
  "schema_of_history C exec s0 h d \<Longrightarrow> schema_of_history C exec s0 h (snd (sql_advisory_unlock d))"
  by (auto simp: sql_create_bookkeeping_def sql_grant_select_def sql_applied_def sql_advisory_lock_def
    sql_advisory_unlock_def schema_of_history_def split: option.splits)

lemma apply_one_outcome:
  assumes "apply_one C exec role m c = (r, c')" "schema_of_history C exec s0 h (c_db c)"
  obtains (unchanged) e where "r = Inl e" "schema_of_history C exec s0 h (c_db c')"
  | (applied) "schema_of_history C exec s0 (h @ [(m, role)]) (c_db c')"
  using assms(1) unfolding apply_one_def
proof (cases rule: in_transactionE)
  case (committed a c1 c2)
  from committed(2) have "\<exists>c3 n. mquery (sql_script exec (render (mg_sql m) role)) c1 = (Inr (), c3)
      \<and> mquery (sql_insert_migration (row_of C m)) c3 = (Inr n, c2)"
    by (auto elim!: abindE simp: areturn_def)
  then obtain c3 n where s: "mquery (sql_script exec (render (mg_sql m) role)) c1 = (Inr (), c3)"
    and i: "mquery (sql_insert_migration (row_of C m)) c3 = (Inr n, c2)" by blast
  from s obtain s' where "exec (render (mg_sql m) role) (sd_schema (c_db c1)) = Some s'"
    "c_db c3 = c_db c1\<lparr>sd_schema := s'\<rparr>"
    by (auto simp: sql_script_def dest!: mquery_Inr split: option.splits)
  moreover from i obtain rows where "sd_rows (c_db c3) = Some rows"
    "mg_version m \<notin> set (map mr_version rows)" "c_db c2 = c_db c3\<lparr>sd_rows := Some (rows @ [row_of C m])\<rparr>"
    by (auto simp: sql_insert_migration_def dest!: mquery_Inr split: option.splits if_splits)
  ultimately have "schema_of_history C exec s0 (h @ [(m, role)]) (c_db c2)"
    using assms(2) committed(1)
    by (auto simp: schema_of_history_def run_scripts_append versions_def image_image)
  with committed show thesis by (intro applied) simp
qed (use assms(2) unchanged in auto)

lemma apply_one_Inr:
  "apply_one C exec role m c = (Inr u, c') \<Longrightarrow> schema_of_history C exec s0 h (c_db c) \<Longrightarrow>
     schema_of_history C exec s0 (h @ [(m, role)]) (c_db c')"
  by (erule apply_one_outcome) auto

lemma apply_pending_outcome:
  assumes "apply_pending C exec role applied ms acc c = (r, c')" "schema_of_history C exec s0 h (c_db c)"
  shows "\<exists>k. prefix k (pending ms applied) \<and> schema_of_history C exec s0 (h @ applied_for role k) (c_db c')
     \<and> (\<forall>vs. r = Inr vs \<longrightarrow> k = pending ms applied \<and> vs = acc @ map mg_version k)"
  using assms
proof (induction ms arbitrary: h c acc)
  case Nil
  then show ?case by (auto simp: areturn_def)
next
  case (Cons m ms)
  show ?case
  proof (cases "mg_version m \<in> set applied")
    case True
    with Cons show ?thesis by simp
  next
    case False
    with Cons.prems(1) have run: "abind (apply_one C exec role m)
        (\<lambda>_. apply_pending C exec role applied ms (acc @ [mg_version m])) c = (r, c')" by simp
    from run show ?thesis
    proof (cases rule: abindE)
      case (fails e)
      from fails(1) Cons.prems(2) show ?thesis
      proof (cases rule: apply_one_outcome)
        case unchanged
        with fails show ?thesis by (intro exI [of _ "[]"]) simp
      next
        case applied
        with fails False show ?thesis by (intro exI [of _ "[m]"]) simp
      qed
    next
      case (goes u c1)
      from apply_one_Inr [OF goes(1) Cons.prems(2)] Cons.IH [OF goes(2)]
      obtain k where "prefix k (pending ms applied)"
        "schema_of_history C exec s0 ((h @ [(m, role)]) @ applied_for role k) (c_db c')"
        "\<forall>vs. r = Inr vs \<longrightarrow> k = pending ms applied \<and> vs = (acc @ [mg_version m]) @ map mg_version k"
        by blast
      with False show ?thesis by (intro exI [of _ "m # k"]) auto
    qed
  qed
qed

lemma unlockingE:
  assumes "unlocking m c = (r, c')"
  obtains c1 where "m c = (r, c1)" "c_db c' = c_db c1 \<or> c_db c' = snd (sql_advisory_unlock (c_db c1))"
proof -
  obtain r1 c1 where m: "m c = (r1, c1)" by force
  obtain u c2 where u: "mquery sql_advisory_unlock c1 = (u, c2)" by force
  from u have "c_db c2 = c_db c1 \<or> c_db c2 = snd (sql_advisory_unlock (c_db c1))"
    by (elim mqueryE) auto
  with assms m u show thesis by (intro that [of c1]) (auto simp: unlocking_def)
qed

lemma bookkeeping_calls:
  assumes "schema_of_history C exec s0 h (c_db c)"
  shows "mquery sql_create_bookkeeping c = (r1, c') \<Longrightarrow> schema_of_history C exec s0 h (c_db c')"
    and "mquery (sql_grant_select role) c = (r1, c') \<Longrightarrow> schema_of_history C exec s0 h (c_db c')"
    and "mquery sql_applied c = (r2, c') \<Longrightarrow> schema_of_history C exec s0 h (c_db c')"
    and "mquery sql_advisory_lock c = (r3, c') \<Longrightarrow> schema_of_history C exec s0 h (c_db c')"
  by (rule mquery_keeps [where P = "schema_of_history C exec s0 h"],
    assumption, erule bookkeeping_keeps_history, rule assms)+

lemma applied_versions:
  assumes "mquery sql_applied c = (Inr applied, c')" "schema_of_history C exec s0 h (c_db c)"
  shows "set applied = (\<lambda>(m, _). (mg_version m, checksum C m)) ` set h" "set (map fst applied) = set (versions h)"
    "c_db c' = c_db c"
proof -
  from assms obtain rows where rows: "sd_rows (c_db c) = Some rows" "rows = map (row_of C \<circ> fst) h"
    and a: "applied = map (\<lambda>r. (mr_version r, mr_checksum r)) (sort_key mr_version rows)" "c_db c' = c_db c"
    by (auto simp: sql_applied_def schema_of_history_def dest!: mquery_Inr split: option.splits)
  then show "set applied = (\<lambda>(m, _). (mg_version m, checksum C m)) ` set h" "c_db c' = c_db c"
    by (auto simp: image_image split_beta)
  then show "set (map fst applied) = set (versions h)"
    by (simp add: versions_def image_image split_beta comp_def)
qed

lemma run_locked_outcome:
  assumes "run_locked C exec ms role c = (r, c')" "schema_of_history C exec s0 h (c_db c)"
  shows "\<exists>k. prefix k (pending ms (versions h)) \<and> schema_of_history C exec s0 (h @ applied_for role k) (c_db c')
     \<and> (\<forall>vs. r = Inr vs \<longrightarrow> k = pending ms (versions h) \<and> vs = map mg_version k)"
proof -
  have failed: ?thesis if "r = Inl e" "schema_of_history C exec s0 h (c_db c')" for e
    using that by (intro exI [of _ "[]"]) simp
  from assms(1) show ?thesis unfolding run_locked_def
  proof (cases rule: abindE)
    case (fails e)
    with failed bookkeeping_calls(1) [OF assms(2) fails(1)] show ?thesis by blast
  next
    case (goes u c1)
    have h1: "schema_of_history C exec s0 h (c_db c1)" by (rule bookkeeping_calls(1) [OF assms(2) goes(1)])
    from goes(2) show ?thesis
    proof (cases rule: abindE)
      case (fails e)
      with failed bookkeeping_calls(2) [OF h1 fails(1)] show ?thesis by blast
    next
      case (goes u' c2)
      have h2: "schema_of_history C exec s0 h (c_db c2)" by (rule bookkeeping_calls(2) [OF h1 goes(1)])
      from goes(2) show ?thesis
      proof (cases rule: abindE)
        case (fails e)
        with failed bookkeeping_calls(3) [OF h2 fails(1)] show ?thesis by blast
      next
        case (goes applied c3)
        note vs = applied_versions [OF goes(1) h2]
        have pend: "pending ms (map fst applied) = pending ms (versions h)"
          using vs(2) by (simp add: pending_def)
        have h3: "schema_of_history C exec s0 h (c_db c3)" using h2 vs(3) by simp
        show ?thesis
        proof (cases "check_applied C ms applied")
          case (Inl e)
          with goes(2) h3 show ?thesis by (intro failed [of e]) (auto simp: afail_def)
        next
          case (Inr u)
          with goes(2) have "apply_pending C exec role (map fst applied) ms [] c3 = (r, c')" by simp
          from apply_pending_outcome [OF this h3] pend show ?thesis by simp
        qed
      qed
    qed
  qed
qed

text \<open>C26: Whatever happens to the connection, a migration run extends the database's history
  by a prefix of the pending migrations, in order and each once, with schema and
  bookkeeping table always exactly what the history gives; an answer Ok lists all of them.\<close>
theorem migrations_are_applied_once:
  assumes "schema_of_history C exec s0 h (c_db c)"
    and "run_migrations C exec ms role c = (r, c')"
  shows "\<exists>k. prefix k (pending ms (versions h))
    \<and> schema_of_history C exec s0 (h @ applied_for role k) (c_db c')
    \<and> (\<forall>vs. r = Inr vs \<longrightarrow> k = pending ms (versions h) \<and> vs = map mg_version k)"
proof (cases "valid_role_name role")
  case False
  with assms show ?thesis by (intro exI [of _ "[]"]) (auto simp: run_migrations_def afail_def)
next
  case True
  from True assms(2) have "abind (mquery sql_advisory_lock) (\<lambda>_. unlocking (run_locked C exec ms role)) c = (r, c')"
    by (simp add: run_migrations_def)
  then show ?thesis
  proof (cases rule: abindE)
    case (fails e)
    with bookkeeping_calls(4) [OF assms(1) fails(1)] show ?thesis by (intro exI [of _ "[]"]) simp
  next
    case (goes u c1)
    from goes(2) obtain c2 where run: "run_locked C exec ms role c1 = (r, c2)"
      and db: "c_db c' = c_db c2 \<or> c_db c' = snd (sql_advisory_unlock (c_db c2))" by (rule unlockingE)
    from run_locked_outcome [OF run bookkeeping_calls(4) [OF assms(1) goes(1)]] db bookkeeping_keeps_history(5)
    show ?thesis by metis
  qed
qed

section \<open>The check at start-up\<close>

text \<open>A binary's list: versions from 1 upward, in order.\<close>

definition well_numbered :: "migration list \<Rightarrow> bool" where
  "well_numbered ms \<longleftrightarrow> sorted_wrt (<) (0 # map mg_version ms)"

definition stamp :: "crypto \<Rightarrow> migration \<Rightarrow> i32 \<times> bytes" where
  "stamp C m = (mg_version m, checksum C m)"

definition row_stamp :: "migration_row \<Rightarrow> i32 \<times> bytes" where
  "row_stamp r = (mr_version r, mr_checksum r)"

lemma fst_stamp [simp]: "fst (stamp C m) = mg_version m"
  by (simp add: stamp_def)

lemma well_numbered_distinct: "well_numbered ms \<Longrightarrow> distinct (map mg_version ms)"
  unfolding well_numbered_def by (metis strict_sorted_iff strict_sorted_simps(2))

lemma known_migration_Some:
  "distinct (map mg_version ms) \<Longrightarrow> m \<in> set ms \<Longrightarrow> known_migration ms (mg_version m) = Some m"
  unfolding known_migration_def by (induction ms) auto

lemma known_migration_in: "known_migration ms v = Some m \<Longrightarrow> m \<in> set ms \<and> mg_version m = v"
  by (auto simp: known_migration_def find_Some_iff)

lemma known_stamp:
  assumes "distinct (map mg_version ms)"
  shows "(v, cs) \<in> stamp C ` set ms \<longleftrightarrow> (\<exists>m. known_migration ms v = Some m \<and> checksum C m = cs)"
  using known_migration_Some [OF assms] by (force simp: stamp_def dest: known_migration_in)

lemma newest_known_Inr:
  assumes "distinct (map mg_version ms)"
  shows "newest_known C ms rows v0 = Inr v \<longleftrightarrow>
    set rows \<subseteq> stamp C ` set ms \<and> v = fold max (map fst rows) v0"
proof (induction rows arbitrary: v0)
  case (Cons x rows)
  obtain w cs where x: "x = (w, cs)" by force
  show ?case
  proof (cases "known_migration ms w")
    case None
    with known_stamp [OF assms, of w cs C] x show ?thesis by simp
  next
    case (Some m)
    with known_stamp [OF assms, of w cs C] x Cons show ?thesis by (auto simp: max.commute)
  qed
qed auto

lemma check_applied_Inr:
  assumes "distinct (map mg_version ms)"
  shows "check_applied C ms rows = Inr u \<longleftrightarrow> set rows \<subseteq> stamp C ` set ms"
proof (induction rows)
  case (Cons x rows)
  obtain w cs where x: "x = (w, cs)" by force
  show ?case
  proof (cases "known_migration ms w")
    case None
    with known_stamp [OF assms, of w cs C] x show ?thesis by simp
  next
    case (Some m)
    with known_stamp [OF assms, of w cs C] x Cons show ?thesis by auto
  qed
qed auto

lemma fold_max_eq: "fold max vs (v :: 'a :: linorder) = Max (insert v (set vs))"
  using Max.set_eq_fold [of v vs] by simp

lemma newest_of_all:
  assumes "well_numbered ms" "set vs = set (map mg_version ms)"
  shows "fold max vs 0 = (if ms = [] then 0 else mg_version (last ms))"
proof (cases ms rule: rev_cases)
  case (snoc ms' m)
  with assms have "\<forall>v \<in> insert 0 (set vs). v \<le> mg_version m"
    by (auto simp: well_numbered_def sorted_wrt_append)
  moreover have "mg_version m \<in> insert 0 (set vs)" using assms(2) snoc by simp
  ultimately have "Max (insert 0 (set vs)) = mg_version m" by (intro Max_eqI) auto
  with snoc show ?thesis by (simp add: fold_max_eq)
qed (use assms in simp)

lemma stamps_of_all:
  assumes "distinct (map fst rows)" "distinct (map mg_version ms)"
    "set rows \<subseteq> stamp C ` set ms" "length rows = length ms"
  shows "set rows = stamp C ` set ms"
proof (rule card_subset_eq)
  have "card (set rows) = length rows"
    using distinct_card [of rows] assms(1) by (simp add: distinct_map)
  moreover have "card (stamp C ` set ms) = length ms"
  proof -
    have "distinct (map (stamp C) ms)"
      using assms(2) by (auto simp: distinct_map inj_on_def stamp_def)
    from distinct_card [OF this] show ?thesis by simp
  qed
  ultimately show "card (set rows) = card (stamp C ` set ms)" using assms(4) by simp
qed (use assms(3) in auto)

lemma mquery_no_faults [simp]:
  "mquery st (no_faults d) = (case st d of (r, d') \<Rightarrow> (map_err MigrateDb r, no_faults d'))"
  by (simp add: mquery_def split: prod.split)

lemma verify_schema_run:
  assumes "well_numbered ms" "sd_rows d = Some rows" "distinct (map mr_version rows)"
  shows "fst (verify_schema C ms (no_faults d)) = Inr () \<longleftrightarrow>
      row_stamp ` set rows = stamp C ` set ms"
proof -
  let ?rows = "map row_stamp (sort_key mr_version rows)"
  note ms = well_numbered_distinct [OF assms(1)]
  have applied: "sql_applied d = (Inr ?rows, d)"
    using assms(2) by (simp add: sql_applied_def row_stamp_def)
  have rows: "set ?rows = row_stamp ` set rows" "distinct (map fst ?rows)" "length ?rows = length rows"
  proof -
    have "distinct (map mr_version (sort_key mr_version rows))"
      using assms(3) by (simp add: distinct_map)
    then show "distinct (map fst ?rows)" by (simp add: row_stamp_def comp_def)
  qed simp_all
  have sets: "row_stamp ` set rows = stamp C ` set ms" if "set ?rows \<subseteq> stamp C ` set ms" "length rows = length ms"
    using stamps_of_all [OF rows(2) ms that(1)] that(2) rows(1) by simp
  have counts: "length rows = length ms \<and> fold max (map fst ?rows) 0 = (if ms = [] then 0 else mg_version (last ms))"
    if eq: "row_stamp ` set rows = stamp C ` set ms"
  proof
    have "set (map fst ?rows) = set (map mg_version ms)"
      using arg_cong [OF eq, of "image fst"] rows(1) by (simp add: image_image)
    then show "fold max (map fst ?rows) 0 = (if ms = [] then 0 else mg_version (last ms))"
      by (rule newest_of_all [OF assms(1)])
    from \<open>set (map fst ?rows) = _\<close> distinct_card [OF rows(2)] distinct_card [OF ms]
    show "length rows = length ms" by simp
  qed
  have known: "newest_known C ms ?rows 0 = Inr v \<longleftrightarrow>
      row_stamp ` set rows \<subseteq> stamp C ` set ms \<and> v = fold max (map fst ?rows) 0" for v
    using newest_known_Inr [OF ms, of C ?rows 0 v] rows(1) by simp
  have run: "verify_schema C ms (no_faults d) =
     (case newest_known C ms ?rows 0 of
        Inl e \<Rightarrow> (Inl e, no_faults d)
      | Inr v \<Rightarrow> (if v \<noteq> (if ms = [] then 0 else mg_version (last ms)) \<or> length rows \<noteq> length ms
          then Inl (PendingMigrations v (if ms = [] then 0 else mg_version (last ms))) else Inr (), no_faults d))"
    by (simp add: verify_schema_def abind_def applied map_err_def afail_def areturn_def aresult_def Let_def
      split: sum.split)
  show "fst (verify_schema C ms (no_faults d)) = Inr () \<longleftrightarrow> row_stamp ` set rows = stamp C ` set ms"
  proof
    assume "fst (verify_schema C ms (no_faults d)) = Inr ()"
    with run obtain v where "newest_known C ms ?rows 0 = Inr v" "length rows = length ms"
      by (simp split: sum.splits if_splits)
    moreover from this(1) have "row_stamp ` set rows \<subseteq> stamp C ` set ms" by (subst (asm) known) simp
    ultimately show "row_stamp ` set rows = stamp C ` set ms" using sets rows(1) by simp
  next
    assume eq: "row_stamp ` set rows = stamp C ` set ms"
    then have "newest_known C ms ?rows 0 = Inr (fold max (map fst ?rows) 0)" by (subst known) simp
    with counts [OF eq] show "fst (verify_schema C ms (no_faults d)) = Inr ()" by (simp add: run)
  qed
qed

section \<open>A run that is not disturbed\<close>

lemma apply_one_runs:
  assumes "exec (render (mg_sql m) role) (sd_schema d) = Some s"
    and "sd_rows d = Some rows" "mg_version m \<notin> set (map mr_version rows)"
  shows "apply_one C exec role m (no_faults d) =
    (Inr (), no_faults (d\<lparr>sd_schema := s, sd_rows := Some (rows @ [row_of C m])\<rparr>))"
  using assms unfolding apply_one_def
  by (intro in_transaction_no_faults)
    (simp add: abind_def sql_script_def sql_insert_migration_def map_err_def areturn_def)

lemma apply_pending_runs:
  assumes "run_scripts exec (sd_schema d) (applied_for role (pending ms applied)) = Some s"
    and "sd_rows d = Some rows" "distinct (map mr_version rows @ map mg_version (pending ms applied))"
  shows "apply_pending C exec role applied ms acc (no_faults d) =
    (Inr (acc @ map mg_version (pending ms applied)),
     no_faults (d\<lparr>sd_schema := s, sd_rows := Some (rows @ map (row_of C) (pending ms applied))\<rparr>))"
  using assms
proof (induction ms arbitrary: d rows acc)
  case (Cons m ms)
  show ?case
  proof (cases "mg_version m \<in> set applied")
    case False
    with Cons.prems(1) obtain s1 where s1: "exec (render (mg_sql m) role) (sd_schema d) = Some s1"
      and rest: "run_scripts exec s1 (applied_for role (pending ms applied)) = Some s"
      by (auto split: option.splits)
    let ?d = "d\<lparr>sd_schema := s1, sd_rows := Some (rows @ [row_of C m])\<rparr>"
    have "apply_one C exec role m (no_faults d) = (Inr (), no_faults ?d)"
      using Cons.prems False by (intro apply_one_runs s1) auto
    moreover have "apply_pending C exec role applied ms (acc @ [mg_version m]) (no_faults ?d) =
        (Inr ((acc @ [mg_version m]) @ map mg_version (pending ms applied)),
         no_faults (?d\<lparr>sd_schema := s,
           sd_rows := Some ((rows @ [row_of C m]) @ map (row_of C) (pending ms applied))\<rparr>))"
      using rest Cons.prems False by (intro Cons.IH) auto
    ultimately show ?thesis using False by (simp add: abind_def)
  qed (use Cons in simp)
next
  case Nil
  then show ?case by (cases d) (simp add: areturn_def)
qed

text \<open>The database after an undisturbed run.\<close>

definition migrated ::
  "crypto \<Rightarrow> migration list \<Rightarrow> string \<Rightarrow> 's \<Rightarrow> 's schema_db \<Rightarrow> 's schema_db" where
  "migrated C ms role s d =
     (let rows = (case sd_rows d of None \<Rightarrow> [] | Some rows \<Rightarrow> rows) in
      d\<lparr>sd_readers := List.insert role (sd_readers d), sd_schema := s,
        sd_rows := Some (rows @ map (row_of C) (pending ms (map mr_version rows)))\<rparr>)"

text \<open>The migrations on record are ones of the list, unmodified.\<close>

definition nothing_foreign :: "crypto \<Rightarrow> migration list \<Rightarrow> migration_history \<Rightarrow> bool" where
  "nothing_foreign C ms h \<longleftrightarrow> (\<lambda>(m, _). stamp C m) ` set h \<subseteq> stamp C ` set ms"

lemma run_migrations_runs:
  assumes "schema_of_history C exec s0 h d" "nothing_foreign C ms h" "well_numbered ms"
    and "valid_role_name role" "role \<in> set (sd_roles d)"
    and "run_scripts exec (sd_schema d) (applied_for role (pending ms (versions h))) = Some s"
  shows "run_migrations C exec ms role (no_faults d) =
    (Inr (map mg_version (pending ms (versions h))), no_faults (migrated C ms role s d))"
proof -
  let ?rows = "map (row_of C \<circ> fst) h"
  let ?d = "d\<lparr>sd_locks := sd_locks d + 1, sd_rows := Some ?rows, sd_readers := List.insert role (sd_readers d)\<rparr>"
  let ?applied = "map row_stamp (sort_key mr_version ?rows)"
  have rows: "(case sd_rows d of None \<Rightarrow> [] | Some rows \<Rightarrow> rows) = ?rows" "distinct (versions h)"
    "sd_rows d = None \<Longrightarrow> h = []" "\<And>rows. sd_rows d = Some rows \<Longrightarrow> rows = ?rows"
    using assms(1) by (auto simp: schema_of_history_def split: option.splits)
  note vs = row_versions [of C h]
  have "set ?applied = (\<lambda>(m, _). stamp C m) ` set h"
    by (auto simp: row_stamp_def stamp_def image_image split_beta)
  then have checked: "check_applied C ms ?applied = Inr ()"
    using assms(2) check_applied_Inr [OF well_numbered_distinct [OF assms(3)]]
    by (simp add: nothing_foreign_def)
  have pend: "pending ms (map fst ?applied) = pending ms (versions h)"
    by (simp add: pending_def row_stamp_def comp_def vs [symmetric] image_image)
  have fresh: "distinct (map mr_version ?rows @ map mg_version (pending ms (map fst ?applied)))"
    using rows(2) well_numbered_distinct [OF assms(3)] unfolding vs pend
    by (auto simp: pending_def distinct_map inj_on_def)
  have applied: "apply_pending C exec role (map fst ?applied) ms [] (no_faults ?d) =
      (Inr (map mg_version (pending ms (versions h))),
       no_faults (?d\<lparr>sd_schema := s, sd_rows := Some (?rows @ map (row_of C) (pending ms (versions h)))\<rparr>))"
    using apply_pending_runs [where d = ?d and rows = ?rows and acc = "[]" and ms = ms and applied = "map fst ?applied",
        OF _ _ fresh] assms(6) unfolding pend by simp
  have "run_locked C exec ms role (no_faults (d\<lparr>sd_locks := sd_locks d + 1\<rparr>)) =
      apply_pending C exec role (map fst ?applied) ms [] (no_faults ?d)"
  proof -
    have "sql_create_bookkeeping (d\<lparr>sd_locks := sd_locks d + 1\<rparr>) =
        (Inr (), d\<lparr>sd_locks := sd_locks d + 1, sd_rows := Some ?rows\<rparr>)"
      using rows(3,4) by (cases "sd_rows d") (auto simp: sql_create_bookkeeping_def)
    moreover have "sql_applied ?d = (Inr ?applied, ?d)"
      by (simp add: sql_applied_def row_stamp_def)
    ultimately show ?thesis
      using assms(5) checked
      by (simp add: run_locked_def abind_def map_err_def sql_grant_select_def aresult_def)
  qed
  with applied rows(1) vs assms(4) show ?thesis
    by (simp add: run_migrations_def abind_def map_err_def sql_advisory_lock_def unlocking_def
      sql_advisory_unlock_def migrated_def)
qed

lemma migrated_history:
  assumes "schema_of_history C exec s0 h d" "well_numbered ms"
    and "run_scripts exec (sd_schema d) (applied_for role (pending ms (versions h))) = Some s"
  shows "schema_of_history C exec s0 (h @ applied_for role (pending ms (versions h))) (migrated C ms role s d)"
proof -
  have "(case sd_rows d of None \<Rightarrow> [] | Some rows \<Rightarrow> rows) = map (row_of C \<circ> fst) h"
    using assms(1) by (auto simp: schema_of_history_def split: option.splits)
  moreover note row_versions [of C h]
  moreover have "distinct (versions h @ map mg_version (pending ms (versions h)))"
    using assms(1) well_numbered_distinct [OF assms(2)]
    by (auto simp: schema_of_history_def pending_def distinct_map inj_on_def)
  moreover have "map (row_of C \<circ> fst) (applied_for role ns) = map (row_of C) ns" for ns
    by (simp add: applied_for_def)
  ultimately show ?thesis
    using assms(1,3) by (simp add: schema_of_history_def migrated_def run_scripts_append Let_def)
qed

lemma migrated_again:
  "sd_rows d = Some rows \<Longrightarrow> pending ms (map mr_version rows) = [] \<Longrightarrow> role \<in> set (sd_readers d) \<Longrightarrow>
     migrated C ms role (sd_schema d) d = d"
  by (cases d) (simp add: migrated_def)

lemma nothing_pending:
  "nothing_foreign C ms h \<Longrightarrow> nothing_foreign C ms (h @ applied_for role (pending ms (versions h)))"
  "pending ms (versions (h @ applied_for role (pending ms (versions h)))) = []"
  by (auto simp: nothing_foreign_def applied_for_def pending_def filter_empty_conv versions_def image_image)

lemma stamps_after:
  assumes "nothing_foreign C ms h" "pending ms (versions h) = []" "distinct (map mg_version ms)"
  shows "(\<lambda>(m, _). stamp C m) ` set h = stamp C ` set ms"
proof
  show "(\<lambda>(m, _). stamp C m) ` set h \<subseteq> stamp C ` set ms" using assms(1) by (simp add: nothing_foreign_def)
  show "stamp C ` set ms \<subseteq> (\<lambda>(m, _). stamp C m) ` set h"
  proof
    fix st assume "st \<in> stamp C ` set ms"
    then obtain m where m: "m \<in> set ms" "st = stamp C m" by blast
    with assms(2) obtain m' role where h: "(m', role) \<in> set h" "mg_version m' = mg_version m"
      by (auto simp: pending_def filter_empty_conv versions_def)
    with assms(1) obtain n where n: "n \<in> set ms" "stamp C m' = stamp C n"
      by (auto simp: nothing_foreign_def)
    with h(2) have "mg_version n = mg_version m" by (simp add: stamp_def)
    with assms(3) m(1) n(1) have "n = m" by (auto simp: distinct_map dest: inj_onD)
    with n(2) m(2) h(1) show "st \<in> (\<lambda>(m, _). stamp C m) ` set h" by force
  qed
qed

text \<open>C34: On an undisturbed database whose record holds only migrations of the list, a run
  applies what is pending and releases its lock, the start-up check then passes, and a
  second run applies nothing and changes nothing.\<close>
theorem migrate_then_serve:
  assumes "schema_of_history C exec s0 h d" "nothing_foreign C ms h" "well_numbered ms"
    and "valid_role_name role" "role \<in> set (sd_roles d)"
    and "run_scripts exec (sd_schema d) (applied_for role (pending ms (versions h))) = Some s"
  shows "\<exists>d'. run_migrations C exec ms role (no_faults d) =
        (Inr (map mg_version (pending ms (versions h))), no_faults d')
    \<and> fst (verify_schema C ms (no_faults d')) = Inr ()
    \<and> run_migrations C exec ms role (no_faults d') = (Inr [], no_faults d')
    \<and> role \<in> set (sd_readers d') \<and> sd_locks d' = sd_locks d"
proof -
  let ?d = "migrated C ms role s d" and ?h = "h @ applied_for role (pending ms (versions h))"
  note h = migrated_history [OF assms(1,3,6)] nothing_pending(1) [OF assms(2), of role]
  have rows: "sd_rows ?d = Some (map (row_of C \<circ> fst) ?h)" "distinct (versions ?h)"
    using h(1) by (auto simp: schema_of_history_def migrated_def Let_def simp del: versions_simps)
  have "row_stamp ` set (map (row_of C \<circ> fst) ?h) = stamp C ` set ms"
    using stamps_after [OF h(2) nothing_pending(2) well_numbered_distinct [OF assms(3)]]
    by (simp add: image_image row_stamp_def stamp_def split_beta image_Un)
  then have "fst (verify_schema C ms (no_faults ?d)) = Inr ()"
    using verify_schema_run [OF assms(3) rows(1), of C, unfolded row_versions] rows(2) by blast
  moreover have "run_migrations C exec ms role (no_faults ?d) = (Inr [], no_faults ?d)"
  proof -
    have "migrated C ms role (sd_schema ?d) ?d = ?d"
      using rows(1) nothing_pending(2) [of ms h role]
      by (intro migrated_again [OF rows(1)]) (simp_all only: row_versions, simp add: migrated_def Let_def)
    with run_migrations_runs [OF h assms(3,4), of "sd_schema ?d"] assms(5) nothing_pending(2) [of ms h role]
    show ?thesis by (simp add: migrated_def Let_def del: versions_simps)
  qed
  ultimately show ?thesis
    using run_migrations_runs [OF assms] by (intro exI [of _ ?d]) (simp add: migrated_def Let_def)
qed

end
