(* ===== verification/IssuerHttp.thy ===== *)
theory IssuerHttp
  imports IssuerFlow IssuerRateLimit IssuerSchema
begin

text \<open>
  The issuer service's HTTP surface and its process (crates/issuer-service/src/http.rs and
  main.rs): the three rate limiters, the address a request is counted under, the body
  limits, the handlers with their statuses, and the subcommands \<open>serve\<close> and \<open>migrate\<close>
  with their exit codes. axum's routing is done: a request comes with its route. The body
  is \<open>None\<close> when it cannot be read; the time limit of 15 seconds, which drops a handler and
  answers 408, is not modelled.
\<close>

section \<open>The application\<close>

record app_state =
  ap_env :: issuer_env
  ap_challenge_limiter :: rate_limiter
  ap_enrollment_limiter :: rate_limiter
  ap_assertion_limiter :: rate_limiter

definition with_trust_anchor ::
  "crypto \<Rightarrow> attest_lib \<Rightarrow> service_codec \<Rightarrow> config \<Rightarrow> bytes \<Rightarrow> app_state" where
  "with_trust_anchor C L D cfg root_pem =
     \<lparr>ap_env = \<lparr>ie_crypto = C, ie_lib = L, ie_codec = D, ie_config = cfg, ie_root_pem = root_pem\<rparr>,
      ap_challenge_limiter = rate_limiter_new (challenge_per_min (cfg_rate_limits cfg)),
      ap_enrollment_limiter = rate_limiter_new (enrollment_per_min (cfg_rate_limits cfg)),
      ap_assertion_limiter = rate_limiter_new (assertion_per_min (cfg_rate_limits cfg))\<rparr>"

definition CHALLENGE_BODY_LIMIT :: nat where "CHALLENGE_BODY_LIMIT = 1024"
definition ENROLLMENT_BODY_LIMIT :: nat where "ENROLLMENT_BODY_LIMIT = 48 * 1024"
definition ASSERTION_BODY_LIMIT :: nat where "ASSERTION_BODY_LIMIT = 8 * 1024"

datatype route = ChallengeRoute | EnrollmentRoute | AssertionRoute | HealthRoute

text \<open>
  A request at a time of the monotonic clock, with the values its handler draws: the clocks,
  a challenge, and two fresh UUIDs.
\<close>

record http_request =
  hq_route :: route
  hq_headers :: headers
  hq_peer :: "ip_addr option"
  hq_body :: "bytes option"
  hq_instant :: nat
  hq_ctx :: call_ctx
  hq_challenge :: bytes
  hq_uuid :: uuid
  hq_device_uuid :: uuid

datatype http_body = ServiceBody issuer_ok | JsonBody json

record http_response =
  hr_status :: nat
  hr_body :: http_body
  hr_cache_control :: string

definition answer_with :: "nat \<Rightarrow> http_body \<Rightarrow> http_response" where
  "answer_with status b = \<lparr>hr_status = status, hr_body = b, hr_cache_control = ''no-store''\<rparr>"

definition error_answer :: "api_error \<Rightarrow> http_response" where
  "error_answer e = (case api_response e of (status, j) \<Rightarrow> answer_with status (JsonBody j))"

section \<open>The middleware\<close>

definition client_ip :: "config \<Rightarrow> http_request \<Rightarrow> ip_addr" where
  "client_ip cfg req =
     (let peer = (case hq_peer req of Some ip \<Rightarrow> ip | None \<Rightarrow> IpV4 [0, 0, 0, 0]) in
      case client_ip_header cfg of
        None \<Rightarrow> peer
      | Some name \<Rightarrow>
          (case Option.bind (header_get (hq_headers req) name) (\<lambda>v.
                Option.bind (header_to_str v) (\<lambda>s. parse_ip (trim (last (split_on CHR '','' s))))) of
             Some ip \<Rightarrow> ip
           | None \<Rightarrow> peer))"

fun limiter_of :: "route \<Rightarrow> app_state \<Rightarrow> rate_limiter option" where
  "limiter_of ChallengeRoute a = Some (ap_challenge_limiter a)"
| "limiter_of EnrollmentRoute a = Some (ap_enrollment_limiter a)"
| "limiter_of AssertionRoute a = Some (ap_assertion_limiter a)"
| "limiter_of HealthRoute a = None"

fun set_limiter :: "route \<Rightarrow> rate_limiter \<Rightarrow> app_state \<Rightarrow> app_state" where
  "set_limiter ChallengeRoute rl a = a\<lparr>ap_challenge_limiter := rl\<rparr>"
| "set_limiter EnrollmentRoute rl a = a\<lparr>ap_enrollment_limiter := rl\<rparr>"
| "set_limiter AssertionRoute rl a = a\<lparr>ap_assertion_limiter := rl\<rparr>"
| "set_limiter HealthRoute rl a = a"

definition limited :: "app_state \<Rightarrow> http_request \<Rightarrow> bool \<times> app_state" where
  "limited a req =
     (case limiter_of (hq_route req) a of
        None \<Rightarrow> (True, a)
      | Some rl \<Rightarrow>
          (case check_at rl (client_ip (ie_config (ap_env a)) req) (hq_instant req) of
             (allowed, rl') \<Rightarrow> (allowed, set_limiter (hq_route req) rl' a)))"

definition raw_body :: "nat \<Rightarrow> http_request \<Rightarrow> api_error + bytes" where
  "raw_body limit req =
     (case hq_body req of
        Some b \<Rightarrow> if length b \<le> limit then Inr b else Inl PayloadTooLarge
      | None \<Rightarrow> Inl PayloadTooLarge)"

lemma later_header_lines_are_ignored:
  "client_ip_header cfg = Some name \<Longrightarrow> hq_headers req = (name, v) # lines \<Longrightarrow>
     client_ip cfg req = client_ip cfg (req\<lparr>hq_headers := [(name, v)]\<rparr>)"
  by (simp add: client_ip_def header_get_def)

section \<open>The handlers\<close>

definition health :: "issuer_env \<Rightarrow> conn \<Rightarrow> http_response \<times> conn" where
  "health E c =
     (case ping c of
        (True, c') \<Rightarrow> (answer_with 200 (JsonBody (JObj [(''status'', JStr ''ok''),
            (''env'', JStr (env_as_str (cfg_env (ie_config E))))])), c')
      | (False, c') \<Rightarrow> (answer_with 503 (JsonBody (JObj [(''status'', JStr ''unavailable'')])), c'))"

definition respond :: "nat \<Rightarrow> (api_error + issuer_ok) \<times> conn \<Rightarrow> http_response \<times> conn" where
  "respond status rc =
     (case rc of
        (Inl e, c') \<Rightarrow> (error_answer e, c')
      | (Inr a, c') \<Rightarrow> (answer_with status (ServiceBody a), c'))"

definition challenge_handler :: "issuer_env \<Rightarrow> http_request \<Rightarrow> conn \<Rightarrow> http_response \<times> conn" where
  "challenge_handler E req c =
     (case raw_body CHALLENGE_BODY_LIMIT req of
        Inl e \<Rightarrow> (error_answer e, c)
      | Inr _ \<Rightarrow> respond 201 (serve_call E (CreateChallenge (hq_ctx req) (hq_challenge req) (hq_uuid req)) c))"

definition enrollment_handler :: "issuer_env \<Rightarrow> http_request \<Rightarrow> conn \<Rightarrow> http_response \<times> conn" where
  "enrollment_handler E req c =
     (case raw_body ENROLLMENT_BODY_LIMIT req of
        Inl e \<Rightarrow> (error_answer e, c)
      | Inr body \<Rightarrow>
          respond 201 (serve_call E (EnrollDevice (hq_ctx req) (hq_uuid req) (hq_device_uuid req) body) c))"

definition assertion_handler :: "issuer_env \<Rightarrow> http_request \<Rightarrow> conn \<Rightarrow> http_response \<times> conn" where
  "assertion_handler E req c =
     (case raw_body ASSERTION_BODY_LIMIT req of
        Inl e \<Rightarrow> (error_answer e, c)
      | Inr body \<Rightarrow> respond 200 (serve_call E (VerifyAssertion (hq_ctx req) body) c))"

fun handler_of :: "route \<Rightarrow> issuer_env \<Rightarrow> http_request \<Rightarrow> conn \<Rightarrow> http_response \<times> conn" where
  "handler_of ChallengeRoute E req c = challenge_handler E req c"
| "handler_of EnrollmentRoute E req c = enrollment_handler E req c"
| "handler_of AssertionRoute E req c = assertion_handler E req c"
| "handler_of HealthRoute E req c = health E c"

definition serve_request :: "http_request \<Rightarrow> app_state \<times> conn \<Rightarrow> http_response \<times> app_state \<times> conn" where
  "serve_request req s =
     (case limited (fst s) req of
        (False, a) \<Rightarrow> (error_answer RateLimited, a, snd s)
      | (True, a) \<Rightarrow>
          (case handler_of (hq_route req) (ap_env a) req (snd s) of (resp, c') \<Rightarrow> (resp, a, c')))"

text \<open>
  The running server: requests, and the ticks of the task that purges expired challenges,
  whose result is only logged. What is kept is every request with its answer, and every tick.
\<close>

datatype server_event = Request http_request | PurgeTick call_ctx

datatype served = Replied http_request http_response | Ticked "api_error + nat"

fun server_step :: "server_event \<Rightarrow> app_state \<times> conn \<Rightarrow> served \<times> app_state \<times> conn" where
  "server_step (Request req) s = (case serve_request req s of (resp, s') \<Rightarrow> (Replied req resp, s'))"
| "server_step (PurgeTick cx) s =
     (case purge_expired_challenges cx (snd s) of (n, c') \<Rightarrow> (Ticked n, fst s, c'))"

fun run_server :: "server_event list \<Rightarrow> app_state \<times> conn \<Rightarrow> served list \<times> app_state \<times> conn" where
  "run_server [] s = ([], s)"
| "run_server (e # es) s =
     (let (sv, s1) = server_step e s; (svs, s2) = run_server es s1 in (sv # svs, s2))"

section \<open>The process\<close>

text \<open>
  \<open>serve\<close> up to the listening socket: the exit code, or the state the server runs with.
  \<open>bind_ok\<close> tells whether the address can be bound.
\<close>

definition serve_start ::
  "crypto \<Rightarrow> attest_lib \<Rightarrow> service_codec \<Rightarrow> bytes \<Rightarrow> migration list \<Rightarrow> (string \<Rightarrow> string option) \<Rightarrow> bool
   \<Rightarrow> ('s schema_db, int, app_state) action" where
  "serve_start C L D apple_pem ms get bind_ok c =
     (case from_lookup get of
        Inl e \<Rightarrow> (Inl 1, c)
      | Inr cfg \<Rightarrow>
          (case take_fault c of
             (Works, c1) \<Rightarrow>
               (case verify_schema C ms c1 of
                  (Inl e, c2) \<Rightarrow> (Inl 1, c2)
                | (Inr _, c2) \<Rightarrow>
                    (if \<not> bind_ok then Inl 1 else Inr (with_trust_anchor C L D cfg apple_pem), c2))
           | (_, c1) \<Rightarrow> (Inl 1, c1)))"

definition run_migrate ::
  "crypto \<Rightarrow> 's script \<Rightarrow> migration list \<Rightarrow> (string \<Rightarrow> string option) \<Rightarrow> 's schema_db db_conn
   \<Rightarrow> int \<times> 's schema_db db_conn" where
  "run_migrate C exec ms get c =
     (case migrate_from_env get of
        Inl e \<Rightarrow> (1, c)
      | Inr cfg \<Rightarrow>
          (case take_fault c of
             (Works, c1) \<Rightarrow>
               (case run_migrations C exec ms (mig_app_role cfg) c1 of
                  (Inl e, c2) \<Rightarrow> (1, c2)
                | (Inr applied, c2) \<Rightarrow> (0, c2))
           | (_, c1) \<Rightarrow> (1, c1)))"

section \<open>Requests and the limiters\<close>

text \<open>The steps of the server in components.\<close>

lemma limited_is:
  "limited a req =
     (case limiter_of (hq_route req) a of
        None \<Rightarrow> (True, a)
      | Some rl \<Rightarrow>
          (fst (check_at rl (client_ip (ie_config (ap_env a)) req) (hq_instant req)),
           set_limiter (hq_route req) (snd (check_at rl (client_ip (ie_config (ap_env a)) req) (hq_instant req))) a))"
  by (simp add: limited_def split_beta split: option.split)

lemma serve_request_is:
  "serve_request req s =
     (if fst (limited (fst s) req)
      then (fst (handler_of (hq_route req) (ap_env (snd (limited (fst s) req))) req (snd s)),
            snd (limited (fst s) req),
            snd (handler_of (hq_route req) (ap_env (snd (limited (fst s) req))) req (snd s)))
      else (error_answer RateLimited, snd (limited (fst s) req), snd s))"
  by (cases "limited (fst s) req" rule: prod.exhaust)
    (simp add: serve_request_def split_beta split: bool.split)

lemma server_step_is:
  "server_step (Request req) s = (Replied req (fst (serve_request req s)), snd (serve_request req s))"
  "server_step (PurgeTick cx) s =
     (Ticked (fst (purge_expired_challenges cx (snd s))), fst s, snd (purge_expired_challenges cx (snd s)))"
  by (simp_all add: split_beta)

lemma run_server_is:
  "run_server (e # es) s =
     (fst (server_step e s) # fst (run_server es (snd (server_step e s))), snd (run_server es (snd (server_step e s))))"
  by (simp add: split_beta Let_def)

declare server_step.simps [simp del] run_server.simps(2) [simp del]

definition limit_of :: "route \<Rightarrow> config \<Rightarrow> u32" where
  "limit_of r cfg =
     (case r of ChallengeRoute \<Rightarrow> challenge_per_min (cfg_rate_limits cfg)
      | EnrollmentRoute \<Rightarrow> enrollment_per_min (cfg_rate_limits cfg)
      | AssertionRoute \<Rightarrow> assertion_per_min (cfg_rate_limits cfg) | HealthRoute \<Rightarrow> 0)"

fun arrival :: "route \<Rightarrow> config \<Rightarrow> server_event \<Rightarrow> (ip_addr \<times> nat) list" where
  "arrival r cfg (Request req) = (if hq_route req = r then [(client_ip cfg req, hq_instant req)] else [])"
| "arrival r cfg (PurgeTick cx) = []"

definition arrivals :: "route \<Rightarrow> config \<Rightarrow> server_event list \<Rightarrow> (ip_addr \<times> nat) list" where
  "arrivals r cfg es = concat (map (arrival r cfg) es)"

text \<open>Requests on a route, counted under a client key, that were not answered 429.\<close>

fun let_in :: "route \<Rightarrow> config \<Rightarrow> ip_addr \<Rightarrow> served \<Rightarrow> bool" where
  "let_in r cfg k (Replied req resp) \<longleftrightarrow>
     hq_route req = r \<and> ip_key (client_ip cfg req) = k \<and> hr_status resp \<noteq> 429"
| "let_in r cfg k (Ticked n) \<longleftrightarrow> False"

definition admitted :: "route \<Rightarrow> config \<Rightarrow> ip_addr \<Rightarrow> served list \<Rightarrow> nat" where
  "admitted r cfg k svs = length (filter (let_in r cfg k) svs)"

fun event_within :: "nat \<Rightarrow> server_event \<Rightarrow> bool" where
  "event_within T (Request req) \<longleftrightarrow> T \<le> hq_instant req \<and> hq_instant req < T + WINDOW"
| "event_within T (PurgeTick cx) \<longleftrightarrow> True"

lemma error_answer_limited [simp]: "hr_status (error_answer RateLimited) = 429"
  by (simp add: error_answer_def api_response_def answer_with_def)

lemma limited_env [simp]: "ap_env (snd (limited a req)) = ap_env a"
proof -
  have "ap_env (set_limiter r rl a) = ap_env a" for r rl by (cases r) simp_all
  then show ?thesis by (simp add: limited_is split: option.split)
qed

lemma server_step_env [simp]: "ap_env (fst (snd (server_step e s))) = ap_env (fst s)"
  by (cases e) (simp_all add: server_step_is serve_request_is)

lemma run_server_env [simp]: "ap_env (fst (snd (run_server es s))) = ap_env (fst s)"
  by (induction es arbitrary: s) (simp_all add: run_server_is)

lemma limiter_of_set [simp]:
  "r \<noteq> HealthRoute \<Longrightarrow> limiter_of r (set_limiter r rl a) = Some rl"
  "r' \<noteq> r \<Longrightarrow> limiter_of r (set_limiter r' rl a) = limiter_of r a"
  by (cases r; simp) (cases r; cases r'; simp)

lemma limiter_step:
  assumes "r \<noteq> HealthRoute" "limiter_of r a = Some rl" "ie_config (ap_env a) = cfg"
  shows "limiter_of r (fst (snd (server_step e (a, c)))) = Some (snd (check_all rl (arrival r cfg e)))
    \<and> admitted r cfg k [fst (server_step e (a, c))]
        \<le> allowed_of k (arrival r cfg e) (fst (check_all rl (arrival r cfg e)))"
proof (cases e)
  case (Request req)
  show ?thesis
  proof (cases "hq_route req = r")
    case True
    with assms Request show ?thesis
      by (auto simp: server_step_is serve_request_is limited_is admitted_def allowed_of_def split_beta)
  next
    case False
    with assms Request show ?thesis
      by (auto simp: server_step_is serve_request_is limited_is admitted_def allowed_of_def split: option.split)
  qed
qed (use assms in \<open>simp add: server_step_is admitted_def\<close>)

lemma check_all_append:
  "check_all rl (xs @ ys) =
     (fst (check_all rl xs) @ fst (check_all (snd (check_all rl xs)) ys), snd (check_all (snd (check_all rl xs)) ys))"
  by (induction xs arbitrary: rl) (auto simp: Let_def split_beta)

lemma length_check_all: "length (fst (check_all rl xs)) = length xs"
  by (induction xs arbitrary: rl) (auto simp: Let_def split_beta)

lemma allowed_of_append:
  "length as = length xs \<Longrightarrow> allowed_of k (xs @ ys) (as @ bs) = allowed_of k xs as + allowed_of k ys bs"
  by (simp add: allowed_of_def)

lemma requests_on_a_route:
  assumes "r \<noteq> HealthRoute" "limiter_of r a = Some rl" "ie_config (ap_env a) = cfg"
  shows "limiter_of r (fst (snd (run_server es (a, c)))) = Some (snd (check_all rl (arrivals r cfg es)))
    \<and> admitted r cfg k (fst (run_server es (a, c)))
        \<le> allowed_of k (arrivals r cfg es) (fst (check_all rl (arrivals r cfg es)))"
  using assms(2,3)
proof (induction es arbitrary: a c rl)
  case Nil
  then show ?case by (simp add: arrivals_def admitted_def allowed_of_def)
next
  case (Cons e es)
  let ?s = "server_step e (a, c)" and ?here = "arrival r cfg e" and ?rest = "arrivals r cfg es"
  note step = limiter_step [OF assms(1) Cons.prems, of e c k]
  from step have "limiter_of r (fst (snd ?s)) = Some (snd (check_all rl ?here))" ..
  note IH = Cons.IH [OF this, of "snd (snd ?s)"]
  have cons: "arrivals r cfg (e # es) = ?here @ ?rest" by (simp add: arrivals_def)
  have "admitted r cfg k (sv # svs) = admitted r cfg k [sv] + admitted r cfg k svs" for sv svs
    by (simp add: admitted_def)
  with step IH Cons.prems(2) show ?case
    unfolding run_server_is cons check_all_append fst_conv snd_conv allowed_of_append [OF length_check_all]
    by (metis (no_types) add_mono prod.collapse server_step_env fst_conv)
qed

lemma arrival_within: "event_within T e \<Longrightarrow> x \<in> set (arrival r cfg e) \<Longrightarrow> T \<le> snd x \<and> snd x < T + WINDOW"
  by (cases e) (auto split: if_splits)

lemma new_limiter:
  "r \<noteq> HealthRoute \<Longrightarrow> limiter_of r (with_trust_anchor C L D cfg pem) = Some (rate_limiter_new (limit_of r cfg))"
  by (cases r) (simp_all add: with_trust_anchor_def limit_of_def)

text \<open>C33: Whatever came before and whatever else is requested, within any 60 seconds at most 2
  * limit - 1 requests of one client key on one route are not answered 429 (the bound is
  reached: two fixed windows can meet inside the minute).\<close>
theorem requests_are_limited:
  assumes "r \<noteq> HealthRoute" and "list_all (event_within T) es"
  shows "admitted r cfg k (fst (run_server es (snd (run_server before (with_trust_anchor C L D cfg pem, c)))))
    \<le> 2 * unat (limit_of r cfg) - 1"
proof -
  let ?start = "with_trust_anchor C L D cfg pem"
  obtain a1 c1 where s1: "snd (run_server before (?start, c)) = (a1, c1)" by (metis surj_pair)
  have cfg: "ie_config (ap_env ?start) = cfg" by (simp add: with_trust_anchor_def)
  with run_server_env [of before "(?start, c)"] s1 have cfg1: "ie_config (ap_env a1) = cfg" by simp
  let ?rl = "snd (check_all (rate_limiter_new (limit_of r cfg)) (arrivals r cfg before))"
  from requests_on_a_route [OF assms(1) new_limiter [OF assms(1)] cfg, where es = before and c = c] s1
  have "limiter_of r a1 = Some ?rl" by simp
  from requests_on_a_route [OF assms(1) this cfg1, where es = es and c = c1 and k = k] s1
  have "admitted r cfg k (fst (run_server es (snd (run_server before (?start, c)))))
      \<le> allowed_of k (arrivals r cfg es) (fst (check_all ?rl (arrivals r cfg es)))" by simp
  moreover have "\<forall>(_, t) \<in> set (arrivals r cfg es). T \<le> t \<and> t < T + WINDOW"
    using assms(2) arrival_within by (fastforce simp: arrivals_def list_all_iff)
  from rate_limit_bounds_a_minute [OF this]
  have "allowed_of k (arrivals r cfg es) (fst (check_all ?rl (arrivals r cfg es))) \<le> 2 * unat (limit_of r cfg) - 1" .
  ultimately show ?thesis by (rule order_trans)
qed

section \<open>Requests and the tables\<close>

text \<open>
  The steps of the service's specification that an answer reports: a success its own, a
  refusal the rejection it put on record, a tick of the task the purge.
\<close>

fun reports :: "served \<Rightarrow> change list \<Rightarrow> bool" where
  "reports (Replied req resp) chs =
     (case hr_body resp of
        ServiceBody a \<Rightarrow> explains (Inr a) chs
      | JsonBody j \<Rightarrow> chs = [] \<or> (\<exists>e. resp = error_answer e \<and> explains (Inl e) chs))"
| "reports (Ticked n) chs =
     (case n of Inl e \<Rightarrow> explains (Inl e) chs | Inr k \<Rightarrow> explains (Inr (ChallengesPurged k)) chs)"

lemma ping_db: "c_db (snd (ping c)) = c_db c"
  by (auto simp: ping_def execute_def split: prod.split sum.split fault.split elim!: pool_getE dest: take_fault_db)

lemma health_db: "c_db (snd (health E c)) = c_db c"
  using ping_db [of c] by (auto simp: health_def split: prod.split bool.split)

lemma error_body: "hr_body (error_answer e) = JsonBody (snd (api_response e))"
  by (simp add: error_answer_def answer_with_def split_beta)

lemma reports_error: "explains (Inl e) chs \<Longrightarrow> reports (Replied req (error_answer e)) chs"
  by (auto simp: error_body)

lemma respond_reports:
  assumes "db_wf (c_db c)"
  shows "\<exists>chs. db_runs (c_db c) chs (c_db (snd (respond status (serve_call E call c))))
    \<and> reports (Replied req (fst (respond status (serve_call E call c)))) chs"
proof -
  obtain q c' where run: "serve_call E call c = (q, c')" by (metis surj_pair)
  from serve_call_steps [OF run assms] obtain chs where
    chs: "db_runs (c_db c) chs (c_db c')" "explains q chs" by blast
  have "reports (Replied req (fst (respond status (q, c')))) chs"
  proof (cases q)
    case (Inl e)
    with chs(2) show ?thesis using reports_error [of e chs req] by (simp add: respond_def)
  qed (use chs(2) in \<open>simp add: respond_def answer_with_def\<close>)
  moreover have "snd (respond status (q, c')) = c'" by (cases q) (simp_all add: respond_def)
  ultimately show ?thesis using run chs(1) by auto
qed

lemma handler_reports:
  assumes "db_wf (c_db c)"
  shows "\<exists>chs. db_runs (c_db c) chs (c_db (snd (handler_of r E req c)))
    \<and> reports (Replied req (fst (handler_of r E req c))) chs"
proof -
  have refused: "\<exists>chs. db_runs (c_db c) chs (c_db c) \<and> reports (Replied req (error_answer e)) chs" for e
    by (intro exI [of _ "[]"]) (simp add: db_runs.stop error_body)
  have healthy: "\<exists>chs. db_runs (c_db c) chs (c_db (snd (health E c))) \<and> reports (Replied req (fst (health E c))) chs"
    using health_db [of E c]
    by (intro exI [of _ "[]"]) (auto simp: db_runs.stop health_def answer_with_def split: prod.split bool.split)
  show ?thesis
    using refused respond_reports [OF assms] healthy
    by (cases r) (auto simp: challenge_handler_def enrollment_handler_def assertion_handler_def
      simp del: reports.simps serve_call.simps split: sum.split)
qed

lemma server_step_reports:
  assumes "db_wf (c_db (snd s))"
  shows "\<exists>chs. db_runs (c_db (snd s)) chs (c_db (snd (snd (server_step e s)))) \<and> reports (fst (server_step e s)) chs"
proof (cases e)
  case (Request req)
  have "\<exists>chs. db_runs (c_db (snd s)) chs (c_db (snd s)) \<and> reports (Replied req (error_answer RateLimited)) chs"
    by (intro exI [of _ "[]"]) (simp add: db_runs.stop error_body)
  with Request handler_reports [OF assms, of "hq_route req" "ap_env (snd (limited (fst s) req))" req]
  show ?thesis by (simp add: server_step_is serve_request_is del: reports.simps)
next
  case (PurgeTick cx)
  obtain q c' where q: "purge_expired_challenges cx (snd s) = (q, c')" by (metis surj_pair)
  then have "serve_call E (PurgeChallenges cx) (snd s) =
      (case q of Inl e \<Rightarrow> Inl e | Inr k \<Rightarrow> Inr (ChallengesPurged k), c')" for E
    by (simp add: answered_def split: sum.split)
  from serve_call_steps [OF this assms] q PurgeTick show ?thesis
    by (cases q) (auto simp: server_step_is)
qed

lemma run_server_reports:
  "db_wf (c_db (snd s)) \<Longrightarrow> \<exists>chss. list_all2 reports (fst (run_server es s)) chss
     \<and> db_runs (c_db (snd s)) (concat chss) (c_db (snd (snd (run_server es s))))"
proof (induction es arbitrary: s)
  case Nil
  show ?case by (auto intro: db_runs.stop)
next
  case (Cons e es)
  from server_step_reports [OF Cons.prems, of e] obtain chs where
    chs: "db_runs (c_db (snd s)) chs (c_db (snd (snd (server_step e s))))" "reports (fst (server_step e s)) chs"
    by blast
  from Cons.IH [OF db_runs_wf [OF chs(1) Cons.prems]] obtain chss where
    "list_all2 reports (fst (run_server es (snd (server_step e s)))) chss"
    "db_runs (c_db (snd (snd (server_step e s)))) (concat chss)
      (c_db (snd (snd (run_server es (snd (server_step e s))))))" by blast
  with chs db_runs_append show ?case
    by (intro exI [of _ "chs # chss"]) (auto simp: run_server_is)
qed

text \<open>C24: Every sequence of HTTP requests and purge ticks of the issuer service, from empty
  tables and under any database failures and lost answers, is a run of the abstract machine
  db_step, and every answer reports the steps its request committed.\<close>
theorem requests_refine_the_machine:
  "\<exists>chss. list_all2 reports (fst (run_server es (app, fresh_service faults))) chss
    \<and> db_runs empty_db (concat chss) (c_db (snd (snd (run_server es (app, fresh_service faults)))))"
  using run_server_reports [of "(app, fresh_service faults)" es] db_wf_empty by (simp add: fresh_service_def)

section \<open>Starting\<close>

text \<open>C35: The issuer server starts exactly when its settings are valid, its address can be
  bound, and the versions and checksums on record are those of its own migrations: nothing
  missing, modified or unknown.\<close>
theorem server_starts_on_its_schema:
  assumes "well_numbered ms" "sd_rows d = Some rows" "distinct (map mr_version rows)"
  shows "fst (serve_start C L D pem ms get bind_ok (no_faults d)) = Inr app \<longleftrightarrow>
    bind_ok \<and> row_stamp ` set rows = stamp C ` set ms
    \<and> (\<exists>cfg. from_lookup get = Inr cfg \<and> app = with_trust_anchor C L D cfg pem)"
proof -
  obtain q c where q: "verify_schema C ms (no_faults d) = (q, c)" by (metis surj_pair)
  with verify_schema_run [OF assms, of C] have "q = Inr () \<longleftrightarrow> row_stamp ` set rows = stamp C ` set ms" by simp
  with q show ?thesis
    by (cases q) (auto simp: serve_start_def split: sum.split)
qed

end
