(* ===== verification/IssuerServeToy.thy ===== *)
theory IssuerServeToy
  imports IssuerToy IssuerHttp
begin

text \<open>
  The issuer process on concrete data: a database migrated from scratch by a script that
  Postgres is taken to append to a log, the server started on it, and requests of one client
  at the edge of the rate limit.
\<close>

section \<open>Migrations\<close>

definition log_script :: "string list script" where
  "log_script sql s = Some (s @ [sql])"

definition first_migration :: "migration list" where
  "first_migration = MIGRATIONS ''grant select on users to {{app_role}};''"

definition blank_db :: "string list schema_db" where
  "blank_db = \<lparr>sd_rows = None, sd_roles = [''aap_issuer_app''], sd_readers = [], sd_locks = 0, sd_schema = []\<rparr>"

definition served_db :: "string list schema_db" where
  "served_db = blank_db\<lparr>sd_rows := Some (map (row_of phone_crypto) first_migration)\<rparr>"

lemma render_example: "render ''to {{app_role}};'' ''app'' = ''to '' @ [CHR 0x22] @ ''app'' @ [CHR 0x22] @ '';''"
  by (simp add: render_def replace_all_def)

lemma blank_history: "schema_of_history phone_crypto log_script [] [] blank_db"
  by (simp add: schema_of_history_def blank_db_def)

text \<open>A run whose commit takes effect while the answer is lost.\<close>

definition lost_commit :: "string list schema_db db_conn" where
  "lost_commit = \<lparr>c_db = blank_db, c_faults = replicate 7 Works @ [Lost]\<rparr>"

lemma migrations_are_applied_once_witness:
  "\<exists>k. prefix k (pending first_migration (versions []))
    \<and> schema_of_history phone_crypto log_script [] ([] @ applied_for ''aap_issuer_app'' k)
        (c_db (snd (run_migrations phone_crypto log_script first_migration ''aap_issuer_app'' lost_commit)))
    \<and> (\<forall>vs. fst (run_migrations phone_crypto log_script first_migration ''aap_issuer_app'' lost_commit) = Inr vs \<longrightarrow>
        k = pending first_migration (versions []) \<and> vs = map mg_version k)"
proof (rule migrations_are_applied_once)
  show "schema_of_history phone_crypto log_script [] [] (c_db lost_commit)"
    using blank_history by (simp add: lost_commit_def)
qed (rule prod.collapse [symmetric])

lemma role_is_valid: "valid_role_name ''aap_issuer_app''"
  by (simp add: valid_role_name_def ascii_lower_def in_range_def is_digit_def)

lemma first_is_well_numbered: "well_numbered first_migration"
  by (simp add: well_numbered_def first_migration_def MIGRATIONS_def)

lemma migrate_then_serve_witness:
  "\<exists>d'. run_migrations phone_crypto log_script first_migration ''aap_issuer_app'' (no_faults blank_db) =
        (Inr (map mg_version (pending first_migration (versions []))), no_faults d')
    \<and> fst (verify_schema phone_crypto first_migration (no_faults d')) = Inr ()
    \<and> run_migrations phone_crypto log_script first_migration ''aap_issuer_app'' (no_faults d') = (Inr [], no_faults d')
    \<and> ''aap_issuer_app'' \<in> set (sd_readers d') \<and> sd_locks d' = sd_locks blank_db"
proof (rule migrate_then_serve [OF blank_history _ first_is_well_numbered role_is_valid])
  show "run_scripts log_script (sd_schema blank_db) (applied_for ''aap_issuer_app'' (pending first_migration (versions [])))
      = Some ([] @ [render (mg_sql (hd first_migration)) ''aap_issuer_app''])"
    by (simp add: first_migration_def MIGRATIONS_def log_script_def blank_db_def)
qed (simp_all add: nothing_foreign_def blank_db_def)

lemma server_starts_on_its_schema_witness:
  "fst (serve_start phone_crypto phone_lib phone_codec [] first_migration phone_settings True (no_faults served_db))
    = Inr (with_trust_anchor phone_crypto phone_lib phone_codec phone_config [])"
proof -
  have "fst (serve_start phone_crypto phone_lib phone_codec [] first_migration phone_settings True (no_faults served_db))
      = Inr (with_trust_anchor phone_crypto phone_lib phone_codec phone_config []) \<longleftrightarrow>
    True \<and> row_stamp ` set (map (row_of phone_crypto) first_migration) = stamp phone_crypto ` set first_migration
    \<and> (\<exists>cfg. from_lookup phone_settings = Inr cfg \<and>
        with_trust_anchor phone_crypto phone_lib phone_codec phone_config [] =
        with_trust_anchor phone_crypto phone_lib phone_codec cfg [])"
    by (rule server_starts_on_its_schema [OF first_is_well_numbered])
      (simp_all add: served_db_def first_migration_def MIGRATIONS_def)
  moreover have "row_stamp ` set (map (row_of phone_crypto) first_migration) = stamp phone_crypto ` set first_migration"
    by (simp add: first_migration_def MIGRATIONS_def row_stamp_def stamp_def)
  ultimately show ?thesis using phone_config_read by blast
qed

section \<open>Requests at the limit\<close>

definition two_a_minute :: config where
  "two_a_minute = phone_config\<lparr>cfg_rate_limits := \<lparr>challenge_per_min = 2, enrollment_per_min = 2,
     assertion_per_min = 2\<rparr>\<rparr>"

definition ask :: "nat \<Rightarrow> server_event" where
  "ask t = Request \<lparr>hq_route = ChallengeRoute, hq_headers = [], hq_peer = Some client, hq_body = None,
     hq_instant = t, hq_ctx = phone_ctx, hq_challenge = phone_challenge, hq_uuid = ''ch'', hq_device_uuid = ''d''\<rparr>"

definition server_before :: "app_state \<times> conn" where
  "server_before = snd (run_server [ask (41 * 10 ^ 9)]
     (with_trust_anchor phone_crypto phone_lib phone_codec two_a_minute [], no_faults phone_db))"

definition asks :: "server_event list" where
  "asks = [ask (100 * 10 ^ 9), ask (101 * 10 ^ 9), ask (102 * 10 ^ 9), ask (103 * 10 ^ 9)]"

text \<open>Three requests pass within the minute, where the limit is two: the bound is reached.\<close>

lemma three_pass: "admitted ChallengeRoute two_a_minute client (fst (run_server asks server_before)) = 3"
  by (simp add: admitted_def asks_def server_before_def ask_def run_server_is server_step_is serve_request_is
    limited_is client_ip_def two_a_minute_def phone_config_def with_trust_anchor_def client_def
    challenge_handler_def raw_body_def check_at_def rate_limiter_new_def make_room_def MAX_TRACKED_def
    live_entry_def WINDOW_def Let_def word_le_nat_alt error_answer_def api_response_def answer_with_def)

lemma requests_are_limited_witness:
  "admitted ChallengeRoute two_a_minute client (fst (run_server asks server_before))
     \<le> 2 * unat (limit_of ChallengeRoute two_a_minute) - 1"
  unfolding server_before_def
  by (rule requests_are_limited [where T = "100 * 10 ^ 9"]) (simp_all add: asks_def ask_def WINDOW_def)

end
