(* ===== verification/VerifierDb.thy ===== *)
theory VerifierDb
  imports CoreFlow Database
begin

text \<open>
  The database side of the verifier service (crates/verifier-service/src/db.rs): the four
  tables it uses, its statements, and the small in-memory services it hands to the verifier
  of \<open>aap-core\<close>. The tables are created outside the repository: the rows of
  \<open>aap_principals\<close>, \<open>aap_delegations\<close> and \<open>aap_nonces\<close> are found by the key the
  statements name, and \<open>seen_at\<close> is the database's time of the insert. The texts of driver
  errors are left out.
\<close>

record receipt_row =
  rr_receipt_id :: uuid
  rr_verifier_id :: string
  rr_agent_id :: string
  rr_delegation_ids :: "uuid list"
  rr_request_digest :: string
  rr_outcome :: string
  rr_reject_reason :: "message option"
  rr_receipt_jws :: string
  rr_pending_action_id :: "uuid option"
  rr_challenge_id :: "uuid option"
  rr_decided_at :: datetime

record verifier_db =
  vd_principals :: "string \<rightharpoonup> json"
  vd_delegations :: "uuid \<rightharpoonup> datetime option"
  vd_nonces :: "string \<times> string \<rightharpoonup> datetime"
  vd_receipts :: "receipt_row list"

type_synonym vconn = "verifier_db db_conn"

type_synonym 'a vstmt = "(verifier_db, 'a) statement"

type_synonym 'a vact = "(verifier_db, message, 'a) action"

definition db_get :: "unit vact" where
  "db_get c = (case take_fault c of (Works, c') \<Rightarrow> (Inr (), c') | (_, c') \<Rightarrow> (Inl [Lit ''db pool error: ''], c'))"

definition db_run :: "string \<Rightarrow> 'a vstmt \<Rightarrow> 'a vact" where
  "db_run what st c = (case execute st c of (r, c') \<Rightarrow> (map_err (\<lambda>_. [Lit what]) r, c'))"

section \<open>Statements\<close>

definition sql_principal_key :: "string \<Rightarrow> json option vstmt" where
  "sql_principal_key pid d = (Inr (vd_principals d pid), d)"

definition sql_revoked_at :: "uuid \<Rightarrow> datetime option option vstmt" where
  "sql_revoked_at did d = (Inr (vd_delegations d did), d)"

definition sql_insert_nonce :: "string \<Rightarrow> string \<Rightarrow> datetime \<Rightarrow> nat vstmt" where
  "sql_insert_nonce agent nonce now d =
     (if vd_nonces d (agent, nonce) \<noteq> None then (Inr 0, d)
      else (Inr 1, d\<lparr>vd_nonces := (vd_nonces d)((agent, nonce) \<mapsto> now)\<rparr>))"

definition sql_prune_nonces :: "int \<Rightarrow> datetime \<Rightarrow> unit vstmt" where
  "sql_prune_nonces retention_secs now d =
     (Inr (), d\<lparr>vd_nonces := (\<lambda>k. case vd_nonces d k of
        Some seen_at \<Rightarrow> if seen_at < now - seconds retention_secs then None else Some seen_at
      | None \<Rightarrow> None)\<rparr>)"

definition sql_insert_receipt :: "receipt_row \<Rightarrow> nat vstmt" where
  "sql_insert_receipt r d = (Inr 1, d\<lparr>vd_receipts := vd_receipts d @ [r]\<rparr>)"

section \<open>Prefetching\<close>

text \<open>\<open>read_jwk\<close> is \<open>serde_json::from_value\<close> into a \<open>PublicKeyJwk\<close>.\<close>

definition registry_with_principal_key ::
  "(json \<Rightarrow> message + public_key_jwk) \<Rightarrow> string \<Rightarrow> registry vact" where
  "registry_with_principal_key read_jwk pid =
     abind db_get (\<lambda>_.
     abind (db_run ''db query error: '' (sql_principal_key pid)) (\<lambda>row.
     case row of
       Some jwk_value \<Rightarrow>
         abind (aresult (map_err (\<lambda>e. Lit ''malformed stored JWK: '' # e) (read_jwk jwk_value)))
           (\<lambda>jwk. areturn (register pid jwk Map.empty))
     | None \<Rightarrow> areturn Map.empty))"

fun mark_revoked :: "uuid list \<Rightarrow> status \<Rightarrow> status vact" where
  "mark_revoked [] status = areturn status"
| "mark_revoked (did # dids) status =
     abind (db_run ''db query error: '' (sql_revoked_at did)) (\<lambda>row.
     let revoked = (case row of Some revoked_at \<Rightarrow> revoked_at \<noteq> None | None \<Rightarrow> True)
     in mark_revoked dids (if revoked then revoke did status else status))"

definition status_for_chain :: "uuid list \<Rightarrow> status vact" where
  "status_for_chain ids = abind db_get (\<lambda>_. mark_revoked ids {})"

section \<open>Nonces\<close>

record precomputed_nonce_store =
  pn_agent_id :: string
  pn_nonce :: string
  pn_already_seen :: bool

definition rejects_everything :: precomputed_nonce_store where
  "rejects_everything = \<lparr>pn_agent_id = [], pn_nonce = [], pn_already_seen = True\<rparr>"

definition precomputed_seen_and_record ::
  "string \<Rightarrow> string \<Rightarrow> precomputed_nonce_store \<Rightarrow> bool \<times> precomputed_nonce_store" where
  "precomputed_seen_and_record agent nonce s =
     (if agent \<noteq> pn_agent_id s \<or> nonce \<noteq> pn_nonce s then True else pn_already_seen s, s)"

definition precheck_nonce :: "string \<Rightarrow> string \<Rightarrow> datetime \<Rightarrow> precomputed_nonce_store vact" where
  "precheck_nonce agent nonce now =
     abind db_get (\<lambda>_.
     abind (db_run ''db query error: '' (sql_insert_nonce agent nonce now)) (\<lambda>rows_affected.
     areturn \<lparr>pn_agent_id = agent, pn_nonce = nonce, pn_already_seen = (rows_affected = 0)\<rparr>))"

text \<open>
  One tick of \<open>prune_nonces_periodically\<close>; its failures are logged and nothing else.
  \<open>num_seconds\<close> drops the fraction of a non-negative duration.
\<close>

definition prune_nonces :: "int \<Rightarrow> datetime \<Rightarrow> unit vact" where
  "prune_nonces retention now =
     abind db_get (\<lambda>_. db_run ''db query error: '' (sql_prune_nonces (retention div 1000000000) now))"

definition prune_tick :: "int \<Rightarrow> datetime \<Rightarrow> vconn \<Rightarrow> vconn" where
  "prune_tick retention now c = snd (prune_nonces retention now c)"

section \<open>Receipts\<close>

definition receipt_row_of :: "receipt \<Rightarrow> string \<Rightarrow> uuid option \<Rightarrow> uuid option \<Rightarrow> receipt_row" where
  "receipt_row_of r jws pending challenge =
     (let (outcome, reject_reason) = (case rc_outcome r of
        Accepted \<Rightarrow> (''accepted'', None) | CoreVerifier.Rejected rs \<Rightarrow> (''rejected'', Some rs))
      in \<lparr>rr_receipt_id = receipt_id r, rr_verifier_id = rc_verifier_id r, rr_agent_id = rc_agent_id r,
          rr_delegation_ids = delegation_ids r, rr_request_digest = request_digest r, rr_outcome = outcome,
          rr_reject_reason = reject_reason, rr_receipt_jws = jws, rr_pending_action_id = pending,
          rr_challenge_id = challenge, rr_decided_at = decided_at r\<rparr>)"

definition persist_receipt :: "receipt \<Rightarrow> string \<Rightarrow> uuid option \<Rightarrow> uuid option \<Rightarrow> unit vact" where
  "persist_receipt r jws pending challenge =
     abind db_get (\<lambda>_.
     abind (db_run ''failed to persist receipt: '' (sql_insert_receipt (receipt_row_of r jws pending challenge)))
       (\<lambda>_. areturn ()))"

end
