(* ===== verification/VerifierService.thy ===== *)
theory VerifierService
  imports VerifierDb StdText
begin

text \<open>
  The HTTP service around the verifier of \<open>aap-core\<close>
  (crates/verifier-service/src/main.rs): its settings, the check of the caller, and its two
  handlers. The JSON decoders serde derives are parameters (\<open>verifier_codec\<close>), and so are
  the clocks and the receipt's identifier: \<open>vx_now\<close> is the process clock, \<open>vx_db_now\<close>
  the database's. A panic is the outcome \<open>Panicked\<close>; the texts of the start-up panics are
  shortened.
\<close>

section \<open>Settings\<close>

record verifier_state =
  vs_receipt_signer :: local_signer
  vs_verifier_id :: string
  vs_audience :: string
  vs_shared_secret :: string
  vs_max_message_age :: int
  vs_max_clock_skew :: int

record verifier_settings =
  vg_database_url :: string
  vg_port :: nat
  vg_state :: verifier_state
  vg_retention :: int

definition expect :: "'a option \<Rightarrow> message \<Rightarrow> message + 'a" where
  "expect v msg = ok_or v msg"

definition env_secs :: "(string \<Rightarrow> string option) \<Rightarrow> string \<Rightarrow> i64 \<Rightarrow> message + i64" where
  "env_secs get name dflt =
     (case get name of
        Some v \<Rightarrow>
          (case parse_i64 v of
             Some s \<Rightarrow> if s > 0 then Inr s
               else Inl [Lit name, Lit '' must be a positive number of seconds, got '', Dbg v]
           | None \<Rightarrow> Inl [Lit name, Lit '' must be a positive number of seconds, got '', Dbg v])
      | None \<Rightarrow> Inr dflt)"

text \<open>A \<open>chrono::Duration\<close> holds at most \<open>i64::MAX\<close> milliseconds; beyond that it panics.\<close>

definition duration_ok :: "int \<Rightarrow> bool" where
  "duration_ok ns \<longleftrightarrow> \<bar>ns\<bar> \<le> i64_max * 1000000"

definition duration_seconds :: "i64 \<Rightarrow> message + int" where
  "duration_seconds s = (if duration_ok (seconds s) then Inr (seconds s)
     else Inl [Lit ''TimeDelta::seconds out of bounds''])"

definition duration_add :: "int \<Rightarrow> int \<Rightarrow> message + int" where
  "duration_add a b = (if duration_ok (a + b) then Inr (a + b)
     else Inl [Lit ''`TimeDelta + TimeDelta` overflowed''])"

text \<open>The seed of a generated key is an argument.\<close>

definition read_receipt_signer :: "crypto \<Rightarrow> bytes \<Rightarrow> string option \<Rightarrow> message + local_signer" where
  "read_receipt_signer C generated v =
     (case v of
        Some encoded \<Rightarrow>
          rbind (expect (ok (b64_decode C (trim encoded)))
                   [Lit ''AAP_VERIFIER_RECEIPT_SIGNING_KEY must be valid base64url'']) (\<lambda>bs.
          if length bs \<noteq> 32
          then Inl [Lit ''AAP_VERIFIER_RECEIPT_SIGNING_KEY must decode to exactly 32 bytes'']
          else Inr (from_ed25519_bytes bs))
      | None \<Rightarrow> Inr (from_ed25519_bytes generated))"

definition or_default :: "string option \<Rightarrow> string \<Rightarrow> string" where
  "or_default v dflt = (case v of Some s \<Rightarrow> s | None \<Rightarrow> dflt)"

definition verifier_port :: "string option \<Rightarrow> nat" where
  "verifier_port v = (case Option.bind v (parse_uint 16) of Some p \<Rightarrow> p | None \<Rightarrow> 8500)"

definition verifier_startup ::
  "crypto \<Rightarrow> bytes \<Rightarrow> (string \<Rightarrow> string option) \<Rightarrow> message + verifier_settings" where
  "verifier_startup C generated get =
     rbind (expect (get ''AAP_VERIFIER_DATABASE_URL'') [Lit ''AAP_VERIFIER_DATABASE_URL must be set'']) (\<lambda>url.
     rbind (expect (get ''AAP_VERIFIER_SHARED_SECRET'')
              [Lit ''AAP_VERIFIER_SHARED_SECRET must be set'']) (\<lambda>secret.
     rbind (rbind (env_secs get ''AAP_VERIFIER_MAX_MESSAGE_AGE_SECS'' DEFAULT_MAX_MESSAGE_AGE_SECS)
              duration_seconds) (\<lambda>age.
     rbind (rbind (env_secs get ''AAP_VERIFIER_MAX_CLOCK_SKEW_SECS'' DEFAULT_MAX_CLOCK_SKEW_SECS)
              duration_seconds) (\<lambda>skew.
     rbind (read_receipt_signer C generated (get ''AAP_VERIFIER_RECEIPT_SIGNING_KEY'')) (\<lambda>signer.
     rbind (rbind (duration_add age skew) (\<lambda>window. duration_add window (seconds 60))) (\<lambda>retention.
     Inr \<lparr>vg_database_url = url, vg_port = verifier_port (get ''AAP_VERIFIER_PORT''),
       vg_state = \<lparr>vs_receipt_signer = signer,
         vs_verifier_id = or_default (get ''AAP_VERIFIER_ID'') ''verifier:aap-verifier'',
         vs_audience = or_default (get ''AAP_VERIFIER_AUDIENCE'') ''aap-verifier'',
         vs_shared_secret = secret, vs_max_message_age = age, vs_max_clock_skew = skew\<rparr>,
       vg_retention = retention\<rparr>))))))"

section \<open>The caller\<close>

datatype vs_failure = Answered nat message | Panicked

definition authorized :: "headers \<Rightarrow> string \<Rightarrow> bool" where
  "authorized hs expected_secret =
     (case Option.bind (header_get hs ''x-verifier-secret'') header_to_str of
        Some v \<Rightarrow> v = expected_secret | None \<Rightarrow> False)"

definition authorize_then_parse ::
  "(bytes \<Rightarrow> message + 'r) \<Rightarrow> headers \<Rightarrow> string \<Rightarrow> bytes \<Rightarrow> vs_failure + 'r" where
  "authorize_then_parse de hs expected_secret body =
     (if \<not> authorized hs expected_secret
      then Inl (Answered 401 [Lit ''invalid or missing x-verifier-secret''])
      else map_err (\<lambda>e. Answered 400 (Lit ''invalid JSON body: '' # e)) (de body))"

section \<open>Requests\<close>

record verify_request =
  vr_delegation_chain_jws :: "string list"
  vr_agent_message_jws :: string
  vr_pending_action_id :: "uuid option"
  vr_challenge_id :: "uuid option"

record verify_response =
  vp_accepted :: bool
  vp_reason :: "message option"
  vp_receipt_id :: uuid
  vp_receipt_jws :: string

record delegation_signature_response =
  dr_valid :: bool
  dr_reason :: "message option"
  dr_delegation :: "delegation option"

record verifier_codec =
  de_verify_request :: "bytes \<Rightarrow> message + verify_request"
  de_delegation_jws :: "bytes \<Rightarrow> message + string"
  de_jwk :: "json \<Rightarrow> message + public_key_jwk"

record verify_ctx =
  vx_now :: datetime
  vx_db_now :: datetime
  vx_receipt_id :: uuid

text \<open>\<open>map_err(|e| (StatusCode::INTERNAL_SERVER_ERROR, e))\<close>.\<close>

definition or_500 :: "(verifier_db, message, 'a) action \<Rightarrow> (verifier_db, vs_failure, 'a) action" where
  "or_500 m c = (case m c of (r, c') \<Rightarrow> (map_err (Answered 500) r, c'))"

section \<open>The handlers\<close>

definition unverified_chain :: "crypto \<Rightarrow> core_codec \<Rightarrow> string list \<Rightarrow> delegation list" where
  "unverified_chain C D chain =
     List.map_filter (\<lambda>jws. map_option ut_payload (ok (token_from_jws C (dec_delegation D) jws))) chain"

text \<open>What is fetched for a request: the registry, the revoked delegations, the nonce's fate.\<close>

definition prefetch ::
  "crypto \<Rightarrow> core_codec \<Rightarrow> verifier_codec \<Rightarrow> verify_ctx \<Rightarrow> verify_request
   \<Rightarrow> (verifier_db, vs_failure, registry \<times> status \<times> precomputed_nonce_store) action" where
  "prefetch C D J cx req =
     (let unverified = unverified_chain C D (vr_delegation_chain_jws req) in
      abind (if unverified = [] then areturn Map.empty
             else or_500 (registry_with_principal_key (de_jwk J) (principal_id (last unverified)))) (\<lambda>registry.
      abind (or_500 (status_for_chain (map delegation_id unverified))) (\<lambda>status.
      abind (case token_from_jws C (dec_message D) (vr_agent_message_jws req) of
               Inr m \<Rightarrow> or_500 (precheck_nonce (m_agent_id (ut_payload m)) (m_nonce (ut_payload m)) (vx_db_now cx))
             | Inl _ \<Rightarrow> areturn rejects_everything) (\<lambda>nonces.
      areturn (registry, status, nonces)))))"

definition service_verifier ::
  "crypto \<Rightarrow> core_codec \<Rightarrow> verifier_state \<Rightarrow> registry \<Rightarrow> status \<Rightarrow> precomputed_nonce_store verifier" where
  "service_verifier C D S registry status =
     with_message_freshness
       (verifier_new (vs_verifier_id S) (vs_audience S) (resolve_in C registry) (is_revoked_in status)
          precomputed_seen_and_record (sign_payload C (enc_receipt D) (vs_receipt_signer S)))
       (vs_max_message_age S) (vs_max_clock_skew S)"

definition verify_handler ::
  "crypto \<Rightarrow> chrono \<Rightarrow> core_codec \<Rightarrow> verifier_codec \<Rightarrow> verifier_state \<Rightarrow> verify_ctx \<Rightarrow> headers \<Rightarrow> bytes
   \<Rightarrow> (verifier_db, vs_failure, verify_response) action" where
  "verify_handler C K D J S cx hs body =
     abind (aresult (authorize_then_parse (de_verify_request J) hs (vs_shared_secret S) body)) (\<lambda>req.
     if vr_delegation_chain_jws req = []
     then afail (Answered 400 [Lit ''delegation_chain_jws must not be empty''])
     else
     abind (prefetch C D J cx req) (\<lambda>(registry, status, nonces).
     case fst (verify_at C K D (service_verifier C D S registry status) (vx_receipt_id cx)
            (vr_delegation_chain_jws req) (vr_agent_message_jws req) (vx_now cx) nonces) of
       Inl _ \<Rightarrow> afail Panicked
     | Inr outcome \<Rightarrow>
         let receipt = vo_receipt outcome in
         abind (or_500 (persist_receipt (ir_payload receipt) (ir_jws receipt) (vr_pending_action_id req)
                  (vr_challenge_id req))) (\<lambda>_.
         areturn \<lparr>vp_accepted = is_ok (decision outcome),
           vp_reason = (case decision outcome of Inl e \<Rightarrow> Some (failure_text e) | Inr _ \<Rightarrow> None),
           vp_receipt_id = receipt_id (ir_payload receipt), vp_receipt_jws = ir_jws receipt\<rparr>)))"

definition refused :: "string \<Rightarrow> delegation_signature_response" where
  "refused why = \<lparr>dr_valid = False, dr_reason = Some [Lit why], dr_delegation = None\<rparr>"

definition verify_delegation_signature ::
  "crypto \<Rightarrow> core_codec \<Rightarrow> verifier_codec \<Rightarrow> verifier_state \<Rightarrow> verify_ctx \<Rightarrow> headers \<Rightarrow> bytes
   \<Rightarrow> (verifier_db, vs_failure, delegation_signature_response) action" where
  "verify_delegation_signature C D J S cx hs body =
     abind (aresult (authorize_then_parse (de_delegation_jws J) hs (vs_shared_secret S) body)) (\<lambda>jws.
     case token_from_jws C (dec_delegation D) jws of
       Inl _ \<Rightarrow> areturn (refused ''malformed delegation JWS'')
     | Inr unverified \<Rightarrow>
         let pid = principal_id (ut_payload unverified) in
         abind (or_500 (registry_with_principal_key (de_jwk J) pid)) (\<lambda>registry.
         case Option.bind (ok (resolve_in C registry pid))
                (\<lambda>key. ok (token_verify_signature C (dec_delegation D) unverified key)) of
           None \<Rightarrow> areturn (refused ''signature invalid or unknown principal_id'')
         | Some verified \<Rightarrow>
             if vx_now cx < valid_from (vt_payload verified) \<or> vx_now cx > valid_until (vt_payload verified)
             then areturn (refused ''delegation is outside its valid_from/valid_until window'')
             else areturn \<lparr>dr_valid = True, dr_reason = None, dr_delegation = Some (vt_payload verified)\<rparr>))"

end
