(* ===== verification/VerifierFlow.thy ===== *)
theory VerifierFlow
  imports VerifierService
begin

text \<open>
  What the verifier service adds to the verifier of \<open>aap-core\<close>: its decisions are those of
  the trust chain over its own tables, a message is accepted once although nonces are
  pruned, every answer is on record, and where it is weaker than the verifier it wraps.
\<close>

section \<open>Database calls\<close>

lemma db_getE:
  assumes "db_get c = (r, c')"
  obtains "c_db c' = c_db c" "r = Inr () \<or> (\<exists>e. r = Inl e)"
  using assms by (auto simp: db_get_def split: prod.splits fault.splits dest: take_fault_db)

lemma db_runE:
  assumes "db_run what st c = (r, c')"
  obtains (heard) "r = map_err (\<lambda>_. [Lit what]) (fst (st (c_db c)))" "c_db c' = snd (st (c_db c))"
  | (unheard) e where "r = Inl e" "c_db c' = snd (st (c_db c))"
  | (lost) e where "r = Inl e" "c_db c' = c_db c"
  using assms by (auto simp: db_run_def split: prod.splits elim!: executeE)

lemma db_no_faults [simp]:
  "db_get (no_faults d) = (Inr (), no_faults d)"
  "db_run what st (no_faults d) = (case st d of (r, d') \<Rightarrow> (map_err (\<lambda>_. [Lit what]) r, no_faults d'))"
  by (simp_all add: db_get_def db_run_def split: prod.split)

section \<open>What is prefetched\<close>

text \<open>The key stored for a principal, and the delegations that are registered and not revoked.\<close>

definition stored_key :: "verifier_codec \<Rightarrow> verifier_db \<Rightarrow> string \<Rightarrow> public_key_jwk option" where
  "stored_key J d pid = Option.bind (vd_principals d pid) (\<lambda>v. ok (de_jwk J v))"

definition on_record :: "verifier_db \<Rightarrow> uuid \<Rightarrow> bool" where
  "on_record d did \<longleftrightarrow> vd_delegations d did = Some None"

lemma registryE:
  assumes "registry_with_principal_key (de_jwk J) pid c = (r, c')"
  obtains "c_db c' = c_db c" "\<And>reg. r = Inr reg \<Longrightarrow> reg pid = stored_key J (c_db c) pid"
proof -
  have "c_db c' = c_db c \<and> (\<forall>reg. r = Inr reg \<longrightarrow> reg pid = stored_key J (c_db c) pid)"
    using assms unfolding registry_with_principal_key_def
    by (auto simp: areturn_def afail_def aresult_def sql_principal_key_def stored_key_def register_def map_err_def
      ok_def split: option.splits sum.splits elim!: abindE db_getE db_runE)
  with that show thesis by blast
qed

lemma mark_revoked_run:
  "mark_revoked ids st c = (r, c') \<Longrightarrow>
     c_db c' = c_db c \<and> (\<forall>st'. r = Inr st' \<longrightarrow> st' = st \<union> {i \<in> set ids. \<not> on_record (c_db c) i})"
proof (induction ids arbitrary: st c)
  case Nil
  then show ?case by (auto simp: areturn_def)
next
  case (Cons i ids)
  from Cons.prems show ?case
    unfolding mark_revoked.simps
  proof (cases rule: abindE)
    case (fails e)
    then show ?thesis by (auto simp: sql_revoked_at_def elim!: db_runE)
  next
    case (goes row c1)
    then have row: "row = vd_delegations (c_db c) i" and db: "c_db c1 = c_db c"
      by (auto simp: sql_revoked_at_def elim!: db_runE)
    have "(case row of Some revoked_at \<Rightarrow> revoked_at \<noteq> None | None \<Rightarrow> True) \<longleftrightarrow> \<not> on_record (c_db c) i"
      by (auto simp: row on_record_def split: option.split)
    with goes(2) have "mark_revoked ids (if \<not> on_record (c_db c) i then revoke i st else st) c1 = (r, c')"
      by (simp add: Let_def)
    from Cons.IH [OF this] show ?thesis
      unfolding db by (cases "on_record (c_db c) i") (auto simp: revoke_def)
  qed
qed

lemma status_for_chainE:
  assumes "status_for_chain ids c = (r, c')"
  obtains "c_db c' = c_db c" "\<And>st. r = Inr st \<Longrightarrow> st = {i \<in> set ids. \<not> on_record (c_db c) i}"
proof -
  have "c_db c' = c_db c \<and> (\<forall>st. r = Inr st \<longrightarrow> st = {i \<in> set ids. \<not> on_record (c_db c) i})"
    using assms unfolding status_for_chain_def
  proof (cases rule: abindE)
    case (fails e)
    then show ?thesis by (auto elim: db_getE)
  next
    case (goes u c1)
    then have "c_db c1 = c_db c" by (auto elim: db_getE)
    with mark_revoked_run [OF goes(2)] show ?thesis by simp
  qed
  with that show thesis by blast
qed

text \<open>Recording a nonce; a lost answer leaves it recorded or not.\<close>

definition record_at :: "string \<Rightarrow> string \<Rightarrow> datetime \<Rightarrow> verifier_db \<Rightarrow> verifier_db" where
  "record_at agent nonce now d = snd (sql_insert_nonce agent nonce now d)"

lemma record_at_nonces [simp]:
  "vd_nonces (record_at agent nonce now d) k =
     (if k = (agent, nonce) \<and> vd_nonces d k = None then Some now else vd_nonces d k)"
  "vd_principals (record_at agent nonce now d) = vd_principals d"
  "vd_delegations (record_at agent nonce now d) = vd_delegations d"
  "vd_receipts (record_at agent nonce now d) = vd_receipts d"
  by (auto simp: record_at_def sql_insert_nonce_def)

lemma precheck_nonceE:
  assumes "precheck_nonce agent nonce now c = (r, c')"
  obtains (checked) "r = Inr \<lparr>pn_agent_id = agent, pn_nonce = nonce,
        pn_already_seen = (vd_nonces (c_db c) (agent, nonce) \<noteq> None)\<rparr>"
      "c_db c' = record_at agent nonce now (c_db c)"
  | (failed) e where "r = Inl e" "c_db c' = c_db c \<or> c_db c' = record_at agent nonce now (c_db c)"
  using assms unfolding precheck_nonce_def
  by (auto simp: areturn_def sql_insert_nonce_def record_at_def elim!: abindE db_getE db_runE split: if_splits)

section \<open>The chain under the service's tables\<close>

definition table_verifier ::
  "crypto \<Rightarrow> core_codec \<Rightarrow> verifier_codec \<Rightarrow> verifier_state \<Rightarrow> verifier_db \<Rightarrow> precomputed_nonce_store verifier" where
  "table_verifier C D J S d = service_verifier C D S (stored_key J d) {i. \<not> on_record d i}"

lemma service_verifier_fields [simp]:
  "audience (service_verifier C D S reg st) = vs_audience S"
  "max_message_age (service_verifier C D S reg st) = vs_max_message_age S"
  "max_clock_skew (service_verifier C D S reg st) = vs_max_clock_skew S"
  "seen_and_record (service_verifier C D S reg st) = precomputed_seen_and_record"
  "resolve_principal_key (service_verifier C D S reg st) = resolve_in C reg"
  "is_revoked (service_verifier C D S reg st) i \<longleftrightarrow> i \<in> st"
  "verifier_id (service_verifier C D S reg st) = vs_verifier_id S"
  "receipt_signer (service_verifier C D S reg st) = sign_payload C (enc_receipt D) (vs_receipt_signer S)"
  by (simp_all add: service_verifier_def with_message_freshness_def verifier_new_def is_revoked_in_def)

lemma resolve_in_cong: "reg pid = reg' pid \<Longrightarrow> resolve_in C reg pid = resolve_in C reg' pid"
  by (simp add: resolve_in_def)

lemma signed_chain_decodes:
  "signed_chain C D V chain ds \<Longrightarrow> map (decode_unverified C (dec_delegation D)) chain = map Inr ds"
  by (induction C D V chain ds rule: signed_chain.induct) (auto simp: signed_under_iff dest: jws_verify_decodes)

lemma unverified_chain_signed: "signed_chain C D V chain ds \<Longrightarrow> unverified_chain C D chain = ds"
proof (drule signed_chain_decodes)
  show "map (decode_unverified C (dec_delegation D)) chain = map Inr ds \<Longrightarrow> unverified_chain C D chain = ds"
  proof (induction chain arbitrary: ds)
    case (Cons jws chain)
    then obtain d ds' where "ds = d # ds'" by (cases ds) auto
    with Cons show ?case by (auto simp: unverified_chain_def token_from_jws_def map_filter_simps ok_def)
  qed (simp add: unverified_chain_def map_filter_simps)
qed

lemma signed_chain_cong:
  "ds \<noteq> [] \<Longrightarrow> resolve_principal_key V (principal_id (last ds)) = resolve_principal_key W (principal_id (last ds)) \<Longrightarrow>
     signed_chain C D V chain ds = signed_chain C D W chain ds"
  by (induction C D V chain ds rule: signed_chain.induct) auto

lemma authenticated_cong:
  assumes "audience V = audience W" "max_message_age V = max_message_age W" "max_clock_skew V = max_clock_skew W"
    and "ds \<noteq> [] \<Longrightarrow> resolve_principal_key V (principal_id (last ds)) = resolve_principal_key W (principal_id (last ds))"
    and "\<And>d. d \<in> set ds \<Longrightarrow> is_revoked V (delegation_id d) = is_revoked W (delegation_id d)"
  shows "authenticated C D V now chain msg ds m \<longleftrightarrow> authenticated C D W now chain msg ds m"
  using assms signed_chain_cong [of ds V W C D chain]
  by (auto simp: authenticated_def message_ok_def in_force_def)

text \<open>What the fetched adapters decide is what the tables say.\<close>

lemma fetched_is_table:
  assumes "unverified_chain C D chain \<noteq> [] \<Longrightarrow>
      reg (principal_id (last (unverified_chain C D chain)))
        = stored_key J d (principal_id (last (unverified_chain C D chain)))"
    and "st = {i \<in> set (map delegation_id (unverified_chain C D chain)). \<not> on_record d i}"
  shows "authenticated C D (service_verifier C D S reg st) now chain msg ds m \<longleftrightarrow>
    authenticated C D (table_verifier C D J S d) now chain msg ds m"
proof (cases "unverified_chain C D chain = ds")
  case True
  with assms show ?thesis
    by (intro authenticated_cong) (auto simp: table_verifier_def intro: resolve_in_cong)
next
  case False
  then have "\<not> signed_chain C D V chain ds" for V :: "precomputed_nonce_store verifier"
    using unverified_chain_signed by blast
  then show ?thesis by (simp add: authenticated_def)
qed

section \<open>What a request finds and leaves\<close>

definition claimed :: "crypto \<Rightarrow> core_codec \<Rightarrow> verify_request \<Rightarrow> agent_message option" where
  "claimed C D req = map_option ut_payload (ok (token_from_jws C (dec_message D) (vr_agent_message_jws req)))"

definition nonce_fate :: "crypto \<Rightarrow> core_codec \<Rightarrow> verify_request \<Rightarrow> verifier_db \<Rightarrow> precomputed_nonce_store" where
  "nonce_fate C D req d = (case claimed C D req of
     None \<Rightarrow> rejects_everything
   | Some m \<Rightarrow> \<lparr>pn_agent_id = m_agent_id m, pn_nonce = m_nonce m,
       pn_already_seen = (vd_nonces d (m_agent_id m, m_nonce m) \<noteq> None)\<rparr>)"

definition nonce_burned :: "crypto \<Rightarrow> core_codec \<Rightarrow> verify_request \<Rightarrow> datetime \<Rightarrow> verifier_db \<Rightarrow> verifier_db" where
  "nonce_burned C D req now d = (case claimed C D req of
     None \<Rightarrow> d | Some m \<Rightarrow> record_at (m_agent_id m) (m_nonce m) now d)"

lemma nonce_burned_tables [simp]:
  "vd_principals (nonce_burned C D req now d) = vd_principals d"
  "vd_delegations (nonce_burned C D req now d) = vd_delegations d"
  "vd_receipts (nonce_burned C D req now d) = vd_receipts d"
  by (simp_all add: nonce_burned_def split: option.split)

lemma or_500E:
  assumes "or_500 m c = (r, c')"
  obtains (answered) a where "m c = (Inr a, c')" "r = Inr a"
  | (failed) e where "m c = (Inl e, c')" "r = Inl (Answered 500 e)"
  using assms by (cases "m c"; cases "fst (m c)") (auto simp: or_500_def)

definition tables_answer ::
  "crypto \<Rightarrow> core_codec \<Rightarrow> verifier_codec \<Rightarrow> verify_request \<Rightarrow> verifier_db \<Rightarrow> registry \<Rightarrow> status \<Rightarrow> bool" where
  "tables_answer C D J req d reg st \<longleftrightarrow>
     (let ds = unverified_chain C D (vr_delegation_chain_jws req) in
      (ds \<noteq> [] \<longrightarrow> reg (principal_id (last ds)) = stored_key J d (principal_id (last ds)))
      \<and> st = {i \<in> set (map delegation_id ds). \<not> on_record d i})"

lemma prefetchE:
  assumes "prefetch C D J cx req c = (r, c')"
  obtains (fetched) reg st where "r = Inr (reg, st, nonce_fate C D req (c_db c))"
      "c_db c' = nonce_burned C D req (vx_db_now cx) (c_db c)" "tables_answer C D J req (c_db c) reg st"
  | (failed) e where "r = Inl (Answered 500 e)"
      "c_db c' = c_db c \<or> c_db c' = nonce_burned C D req (vx_db_now cx) (c_db c)"
proof -
  let ?ds = "unverified_chain C D (vr_delegation_chain_jws req)"
  define fetch_registry where "fetch_registry = (if ?ds = [] then areturn Map.empty
             else or_500 (registry_with_principal_key (de_jwk J) (principal_id (last ?ds))))"
  define fetch_nonce where "fetch_nonce = (case token_from_jws C (dec_message D) (vr_agent_message_jws req) of
               Inr m \<Rightarrow> or_500 (precheck_nonce (m_agent_id (ut_payload m)) (m_nonce (ut_payload m)) (vx_db_now cx))
             | Inl _ \<Rightarrow> areturn rejects_everything)"
  have run: "abind fetch_registry (\<lambda>registry. abind (or_500 (status_for_chain (map delegation_id ?ds))) (\<lambda>status.
      abind fetch_nonce (\<lambda>nonces. areturn (registry, status, nonces)))) c = (r, c')"
    using assms by (simp add: prefetch_def Let_def fetch_registry_def fetch_nonce_def)
  have reg: "c_db c1 = c_db c \<and> ((\<exists>e. q = Inl (Answered 500 e)) \<or> (\<exists>reg. q = Inr reg \<and> (?ds \<noteq> [] \<longrightarrow>
      reg (principal_id (last ?ds)) = stored_key J (c_db c) (principal_id (last ?ds)))))"
    if "fetch_registry c = (q, c1)" for q c1
  proof (cases "?ds = []")
    case True
    with that show ?thesis by (auto simp: fetch_registry_def areturn_def)
  next
    case False
    with that have "or_500 (registry_with_principal_key (de_jwk J) (principal_id (last ?ds))) c = (q, c1)"
      by (simp add: fetch_registry_def)
    then show ?thesis by (rule or_500E) (erule registryE, simp)+
  qed
  have st: "c_db c2 = c_db c1 \<and> ((\<exists>e. q = Inl (Answered 500 e))
      \<or> q = Inr {i \<in> set (map delegation_id ?ds). \<not> on_record (c_db c1) i})"
    if "or_500 (status_for_chain (map delegation_id ?ds)) c1 = (q, c2)" for q c1 c2
    using that by (rule or_500E) (erule status_for_chainE, simp)+
  have nc: "(q = Inr (nonce_fate C D req (c_db c2)) \<and> c_db c3 = nonce_burned C D req (vx_db_now cx) (c_db c2))
      \<or> (\<exists>e. q = Inl (Answered 500 e) \<and> (c_db c3 = c_db c2 \<or> c_db c3 = nonce_burned C D req (vx_db_now cx) (c_db c2)))"
    if "fetch_nonce c2 = (q, c3)" for q c2 c3
  proof (cases "token_from_jws C (dec_message D) (vr_agent_message_jws req)")
    case (Inl e)
    with that show ?thesis
      by (simp add: fetch_nonce_def areturn_def claimed_def nonce_fate_def nonce_burned_def ok_def)
  next
    case (Inr t)
    let ?m = "ut_payload t"
    from Inr that have "or_500 (precheck_nonce (m_agent_id ?m) (m_nonce ?m) (vx_db_now cx)) c2 = (q, c3)"
      by (simp add: fetch_nonce_def)
    moreover have "claimed C D req = Some ?m" using Inr by (simp add: claimed_def ok_def)
    ultimately show ?thesis
      by (elim or_500E; elim precheck_nonceE) (simp_all add: nonce_fate_def nonce_burned_def)
  qed
  from run show thesis
  proof (cases rule: abindE)
    case (fails e)
    with reg show thesis by (auto intro: failed)
  next
    case (goes registry c1)
    with reg have db1: "c_db c1 = c_db c" and r1: "?ds \<noteq> [] \<longrightarrow>
        registry (principal_id (last ?ds)) = stored_key J (c_db c) (principal_id (last ?ds))" by auto
    from goes(2) show thesis
    proof (cases rule: abindE)
      case (fails e)
      with st [OF fails(1)] db1 show thesis by (auto intro: failed)
    next
      case (goes status c2)
      with st [OF goes(1)] db1 have db2: "c_db c2 = c_db c"
        and s: "status = {i \<in> set (map delegation_id ?ds). \<not> on_record (c_db c) i}" by auto
      from goes(2) show thesis
      proof (cases rule: abindE)
        case (fails e)
        with nc [OF fails(1)] db2 show thesis by (auto intro: failed)
      next
        case (goes nonces c3)
        with nc [OF goes(1)] db2 r1 s show thesis
          by (intro fetched [of registry status]) (auto simp: areturn_def tables_answer_def Let_def)
      qed
    qed
  qed
qed

section \<open>Decisions\<close>

text \<open>The decision the tables call for, whatever the adapters look like.\<close>

definition table_decides ::
  "crypto \<Rightarrow> chrono \<Rightarrow> core_codec \<Rightarrow> verifier_codec \<Rightarrow> verifier_state \<Rightarrow> datetime \<Rightarrow> verify_request \<Rightarrow> verifier_db
   \<Rightarrow> delegation list \<Rightarrow> agent_message \<Rightarrow> bool" where
  "table_decides C K D J S now req d ds m \<longleftrightarrow>
     authenticated C D (table_verifier C D J S d) now (vr_delegation_chain_jws req) (vr_agent_message_jws req) ds m
     \<and> vd_nonces d (m_agent_id m, m_nonce m) = None \<and> matches K (d_scope (hd ds)) (m_request m) now"

lemma authenticated_claimed:
  "authenticated C D V now chain (vr_agent_message_jws req) ds m \<Longrightarrow> claimed C D req = Some m"
  by (auto simp: authenticated_def message_ok_def claimed_def token_from_jws_def ok_def dest!: jws_verify_decodes)

lemma decision_iff_table:
  assumes "tables_answer C D J req d reg st"
  shows "fst (verify_inner C K D (service_verifier C D S reg st) (vr_delegation_chain_jws req)
      (vr_agent_message_jws req) now (nonce_fate C D req d)) = Inr \<lparr>va_chain = ds, va_message = m\<rparr>
    \<longleftrightarrow> table_decides C K D J S now req d ds m"
proof -
  let ?V = "service_verifier C D S reg st"
  have auth: "authenticated C D ?V now (vr_delegation_chain_jws req) (vr_agent_message_jws req) ds m \<longleftrightarrow>
      authenticated C D (table_verifier C D J S d) now (vr_delegation_chain_jws req) (vr_agent_message_jws req) ds m"
    for ds m
    using assms by (intro fetched_is_table) (auto simp: tables_answer_def Let_def)
  show ?thesis
  proof (cases "verify_stateless C D ?V now (vr_delegation_chain_jws req) (vr_agent_message_jws req)")
    case (Inl e)
    then have "\<not> authenticated C D ?V now (vr_delegation_chain_jws req) (vr_agent_message_jws req) ds m"
      by (simp add: verify_stateless_eq_Inr [symmetric])
    with Inl auth show ?thesis by (simp add: verify_inner_def table_decides_def)
  next
    case (Inr p)
    obtain ds' m' where p: "p = (ds', m')" by force
    with Inr have a: "authenticated C D ?V now (vr_delegation_chain_jws req) (vr_agent_message_jws req) ds' m'"
      by (simp add: verify_stateless_eq_Inr [symmetric])
    have only: "authenticated C D ?V now (vr_delegation_chain_jws req) (vr_agent_message_jws req) ds m \<longleftrightarrow>
        ds = ds' \<and> m = m'"
      using Inr p by (auto simp: verify_stateless_eq_Inr [symmetric])
    have seen: "fst (precomputed_seen_and_record (m_agent_id m') (m_nonce m') (nonce_fate C D req d)) \<longleftrightarrow>
        vd_nonces d (m_agent_id m', m_nonce m') \<noteq> None"
      using authenticated_claimed [OF a] by (simp add: nonce_fate_def precomputed_seen_and_record_def)
    show ?thesis
      using Inr p seen only auth [of ds m]
      by (auto simp: verify_inner_def table_decides_def case_prod_unfold Let_def)
  qed
qed

section \<open>The verify handler\<close>

definition file_receipt :: "verify_request \<Rightarrow> verification_outcome \<Rightarrow> verifier_db \<Rightarrow> verifier_db" where
  "file_receipt req outcome d = d\<lparr>vd_receipts := vd_receipts d @
     [receipt_row_of (ir_payload (vo_receipt outcome)) (ir_jws (vo_receipt outcome))
        (vr_pending_action_id req) (vr_challenge_id req)]\<rparr>"

lemma file_receipt_tables [simp]:
  "vd_nonces (file_receipt req outcome d) = vd_nonces d"
  "vd_principals (file_receipt req outcome d) = vd_principals d"
  "vd_delegations (file_receipt req outcome d) = vd_delegations d"
  by (simp_all add: file_receipt_def)

definition response_to :: "verification_outcome \<Rightarrow> verify_response" where
  "response_to outcome = \<lparr>vp_accepted = is_ok (decision outcome),
     vp_reason = (case decision outcome of Inl e \<Rightarrow> Some (failure_text e) | Inr _ \<Rightarrow> None),
     vp_receipt_id = receipt_id (ir_payload (vo_receipt outcome)), vp_receipt_jws = ir_jws (vo_receipt outcome)\<rparr>"

definition decide ::
  "crypto \<Rightarrow> chrono \<Rightarrow> core_codec \<Rightarrow> verifier_state \<Rightarrow> verify_ctx \<Rightarrow> verify_request \<Rightarrow> registry \<Rightarrow> status
   \<Rightarrow> precomputed_nonce_store \<Rightarrow> jws_error + verification_outcome" where
  "decide C K D S cx req reg st nonces =
     fst (verify_at C K D (service_verifier C D S reg st) (vx_receipt_id cx) (vr_delegation_chain_jws req)
       (vr_agent_message_jws req) (vx_now cx) nonces)"

definition parsed_request :: "verifier_codec \<Rightarrow> verifier_state \<Rightarrow> headers \<Rightarrow> bytes \<Rightarrow> verify_request \<Rightarrow> bool" where
  "parsed_request J S hs body req \<longleftrightarrow>
     authorized hs (vs_shared_secret S) \<and> de_verify_request J body = Inr req \<and> vr_delegation_chain_jws req \<noteq> []"

lemma persist_receiptE:
  assumes "or_500 (persist_receipt (ir_payload (vo_receipt outcome)) (ir_jws (vo_receipt outcome))
    (vr_pending_action_id req) (vr_challenge_id req)) c = (r, c')"
  obtains (filed) "r = Inr ()" "c_db c' = file_receipt req outcome (c_db c)"
  | (failed) e where "r = Inl (Answered 500 e)" "c_db c' = c_db c \<or> c_db c' = file_receipt req outcome (c_db c)"
proof -
  have "(r = Inr () \<and> c_db c' = file_receipt req outcome (c_db c)) \<or> (\<exists>e. r = Inl (Answered 500 e)
      \<and> (c_db c' = c_db c \<or> c_db c' = file_receipt req outcome (c_db c)))"
    using assms unfolding persist_receipt_def
    by (elim or_500E; elim abindE; elim db_getE)
      (auto simp: sql_insert_receipt_def file_receipt_def areturn_def elim!: db_runE)
  with that show thesis by blast
qed

lemma verify_handlerE:
  assumes "verify_handler C K D J S cx hs body c = (r, c')"
  obtains (unread) f where "r = Inl f" "c' = c"
  | (unfetched) req e where "parsed_request J S hs body req" "r = Inl (Answered 500 e)"
      "c_db c' = c_db c \<or> c_db c' = nonce_burned C D req (vx_db_now cx) (c_db c)"
  | (panicked) req where "parsed_request J S hs body req" "r = Inl Panicked"
      "c_db c' = nonce_burned C D req (vx_db_now cx) (c_db c)"
  | (decided) req reg st outcome where "parsed_request J S hs body req" "tables_answer C D J req (c_db c) reg st"
      "decide C K D S cx req reg st (nonce_fate C D req (c_db c)) = Inr outcome"
      "(r = Inr (response_to outcome)
          \<and> c_db c' = file_receipt req outcome (nonce_burned C D req (vx_db_now cx) (c_db c)))
       \<or> (\<exists>e. r = Inl (Answered 500 e) \<and> (c_db c' = nonce_burned C D req (vx_db_now cx) (c_db c)
          \<or> c_db c' = file_receipt req outcome (nonce_burned C D req (vx_db_now cx) (c_db c))))"
proof (cases "authorize_then_parse (de_verify_request J) hs (vs_shared_secret S) body")
  case (Inl f)
  with assms show thesis by (intro unread [of f]) (simp_all add: verify_handler_def afail_def)
next
  case (Inr req)
  show thesis
  proof (cases "vr_delegation_chain_jws req = []")
    case True
    with assms Inr show thesis by (intro unread) (auto simp: verify_handler_def afail_def)
  next
    case False
    with Inr have req: "parsed_request J S hs body req"
      by (auto simp: parsed_request_def authorize_then_parse_def map_err_eq_Inr split: if_splits)
    define finish where "finish = (\<lambda>(reg, st, nonces). case decide C K D S cx req reg st nonces of
       Inl _ \<Rightarrow> afail Panicked
     | Inr outcome \<Rightarrow> abind (or_500 (persist_receipt (ir_payload (vo_receipt outcome)) (ir_jws (vo_receipt outcome))
          (vr_pending_action_id req) (vr_challenge_id req))) (\<lambda>_. areturn (response_to outcome)))"
    have "abind (prefetch C D J cx req) finish c = (r, c')"
      using assms Inr False
      by (simp add: verify_handler_def finish_def decide_def response_to_def Let_def cong: sum.case_cong)
    then show thesis
    proof (cases rule: abindE)
      case (fails e)
      from fails(1) show thesis
      proof (cases rule: prefetchE)
        case (failed e')
        with fails(2) req show thesis by (intro unfetched) auto
      qed simp
    next
      case (goes f c1)
      from goes(1) show thesis
      proof (cases rule: prefetchE)
        case (fetched reg st)
        let ?d = "decide C K D S cx req reg st (nonce_fate C D req (c_db c))"
        have fin: "(case ?d of Inl _ \<Rightarrow> afail Panicked
          | Inr outcome \<Rightarrow> abind (or_500 (persist_receipt (ir_payload (vo_receipt outcome)) (ir_jws (vo_receipt outcome))
          (vr_pending_action_id req) (vr_challenge_id req))) (\<lambda>_. areturn (response_to outcome))) c1 = (r, c')"
          using goes(2) fetched(1) by (simp add: finish_def)
        show thesis
        proof (cases ?d)
          case (Inl e)
          with fin fetched(2) req show thesis by (intro panicked) (auto simp: afail_def)
        next
          case (Inr outcome)
          from fin Inr obtain q where q: "or_500 (persist_receipt (ir_payload (vo_receipt outcome))
              (ir_jws (vo_receipt outcome)) (vr_pending_action_id req) (vr_challenge_id req)) c1 = (q, c')"
            and r: "r = (case q of Inl e \<Rightarrow> Inl e | Inr _ \<Rightarrow> Inr (response_to outcome))"
            by (auto simp: abind_def areturn_def split: prod.splits sum.splits)
          from q show thesis
            by (cases rule: persist_receiptE)
              (use decided [OF req fetched(3) Inr] r fetched(2) in auto)
        qed
      qed simp
    qed
  qed
qed

text \<open>What any call may do to the tables.\<close>

lemma verify_handler_tables:
  assumes "verify_handler C K D J S cx hs body c = (r, c')"
  shows "vd_principals (c_db c') = vd_principals (c_db c)" "vd_delegations (c_db c') = vd_delegations (c_db c)"
    and "vd_nonces (c_db c') = vd_nonces (c_db c)
      \<or> (\<exists>req. parsed_request J S hs body req
          \<and> vd_nonces (c_db c') = vd_nonces (nonce_burned C D req (vx_db_now cx) (c_db c)))"
  using assms by (cases rule: verify_handlerE; auto)+

lemma decide_eq_Inr:
  "decide C K D S cx req reg st nonces = Inr outcome \<longleftrightarrow>
     decision outcome = fst (verify_inner C K D (service_verifier C D S reg st) (vr_delegation_chain_jws req)
       (vr_agent_message_jws req) (vx_now cx) nonces)
     \<and> issue_receipt C D (service_verifier C D S reg st) (vx_receipt_id cx) (vr_delegation_chain_jws req)
         (vr_agent_message_jws req) (decision outcome) (vx_now cx) = Inr (vo_receipt outcome)"
  by (cases outcome) (auto simp: decide_def verify_at_def case_prod_unfold Let_def)

lemma accepted_answer:
  assumes run: "verify_handler C K D J S cx hs body c = (Inr a, c')" and acc: "vp_accepted a"
  obtains req ds m where "parsed_request J S hs body req" "table_decides C K D J S (vx_now cx) req (c_db c) ds m"
    "claimed C D req = Some m"
    "vd_nonces (c_db c') = (vd_nonces (c_db c))((m_agent_id m, m_nonce m) \<mapsto> vx_db_now cx)"
  using run
proof (cases rule: verify_handlerE)
  case (decided req reg st outcome)
  then have a: "a = response_to outcome" by auto
  with acc obtain act where "decision outcome = Inr act"
    by (cases "decision outcome") (auto simp: response_to_def is_ok_def)
  then have "decision outcome = Inr \<lparr>va_chain = va_chain act, va_message = va_message act\<rparr>" by simp
  with decided(3) decision_iff_table [OF decided(2), of K S "vx_now cx" "va_chain act" "va_message act"]
  have t: "table_decides C K D J S (vx_now cx) req (c_db c) (va_chain act) (va_message act)"
    by (simp add: decide_eq_Inr)
  then have m: "claimed C D req = Some (va_message act)"
    by (auto simp: table_decides_def dest: authenticated_claimed)
  have "vd_nonces (c_db c') = (vd_nonces (c_db c))((m_agent_id (va_message act), m_nonce (va_message act)) \<mapsto> vx_db_now cx)"
    using decided(4) a t m by (auto simp: nonce_burned_def table_decides_def)
  with decided(1) t m show thesis by (rule that)
qed auto

section \<open>A working database\<close>

lemma registry_no_faults:
  "stored_key J d pid = Some k \<Longrightarrow>
     registry_with_principal_key (de_jwk J) pid (no_faults d) = (Inr (register pid k Map.empty), no_faults d)"
  by (auto simp: registry_with_principal_key_def abind_def sql_principal_key_def areturn_def aresult_def
    stored_key_def ok_def map_err_def split: option.splits sum.splits)

lemma mark_revoked_no_faults: "\<exists>st'. mark_revoked ids st (no_faults d) = (Inr st', no_faults d)"
  by (induction ids arbitrary: st) (simp_all add: areturn_def abind_def sql_revoked_at_def Let_def)

lemma status_no_faults: "\<exists>st. status_for_chain ids (no_faults d) = (Inr st, no_faults d)"
  using mark_revoked_no_faults by (simp add: status_for_chain_def abind_def)

lemma precheck_no_faults: "\<exists>s. precheck_nonce agent nonce now (no_faults d) = (Inr s, no_faults (record_at agent nonce now d))"
  by (simp add: precheck_nonce_def abind_def sql_insert_nonce_def areturn_def record_at_def)

lemma prefetch_no_faults:
  assumes "\<And>pid. unverified_chain C D (vr_delegation_chain_jws req) \<noteq> [] \<Longrightarrow>
      pid = principal_id (last (unverified_chain C D (vr_delegation_chain_jws req))) \<Longrightarrow> stored_key J d pid \<noteq> None"
  shows "\<exists>v d'. prefetch C D J cx req (no_faults d) = (Inr v, no_faults d')"
proof -
  let ?ds = "unverified_chain C D (vr_delegation_chain_jws req)"
  define fr where "fr = (if ?ds = [] then areturn Map.empty
             else or_500 (registry_with_principal_key (de_jwk J) (principal_id (last ?ds))))"
  define fn where "fn = (case token_from_jws C (dec_message D) (vr_agent_message_jws req) of
               Inr m \<Rightarrow> or_500 (precheck_nonce (m_agent_id (ut_payload m)) (m_nonce (ut_payload m)) (vx_db_now cx))
             | Inl _ \<Rightarrow> areturn rejects_everything)"
  obtain reg where reg: "fr (no_faults d) = (Inr reg, no_faults d)"
  proof (cases "?ds = []")
    case True
    with that [of Map.empty] show thesis by (simp add: fr_def areturn_def)
  next
    case False
    with assms obtain k where "stored_key J d (principal_id (last ?ds)) = Some k" by auto
    from registry_no_faults [OF this] False that show thesis by (simp add: fr_def or_500_def)
  qed
  obtain st where "status_for_chain (map delegation_id ?ds) (no_faults d) = (Inr st, no_faults d)"
    using status_no_faults by blast
  then have st: "or_500 (status_for_chain (map delegation_id ?ds)) (no_faults d) = (Inr st, no_faults d)"
    by (simp add: or_500_def)
  obtain s d' where s: "fn (no_faults d) = (Inr s, no_faults d')"
  proof (cases "token_from_jws C (dec_message D) (vr_agent_message_jws req)")
    case (Inl e)
    with that [of rejects_everything d] show thesis by (simp add: fn_def areturn_def)
  next
    case (Inr t)
    obtain s where "precheck_nonce (m_agent_id (ut_payload t)) (m_nonce (ut_payload t)) (vx_db_now cx) (no_faults d) =
        (Inr s, no_faults (record_at (m_agent_id (ut_payload t)) (m_nonce (ut_payload t)) (vx_db_now cx) d))"
      using precheck_no_faults by blast
    with Inr that show thesis by (simp add: fn_def or_500_def)
  qed
  have "prefetch C D J cx req (no_faults d) = abind fr (\<lambda>registry.
      abind (or_500 (status_for_chain (map delegation_id ?ds))) (\<lambda>status.
      abind fn (\<lambda>nonces. areturn (registry, status, nonces)))) (no_faults d)"
    by (simp add: prefetch_def Let_def fr_def fn_def)
  also have "\<dots> = (Inr (reg, st, s), no_faults d')"
    by (simp add: abind_def reg st s areturn_def)
  finally show ?thesis by blast
qed

definition receipts_serialize :: "core_codec \<Rightarrow> bool" where
  "receipts_serialize D \<longleftrightarrow> (\<forall>r. \<exists>bs. enc_receipt D r = Inr bs)"

lemma decide_ok:
  assumes "receipts_serialize D"
  shows "\<exists>outcome. decide C K D S cx req reg st nonces = Inr outcome"
proof -
  have "\<exists>jws. sign_payload C (enc_receipt D) (vs_receipt_signer S) r = Inr jws" for r
    using assms by (auto simp: receipts_serialize_def sign_payload_def jws_sign_def Let_def dest: spec [of _ r])
  then have "\<exists>ir. issue_receipt C D (service_verifier C D S reg st) i chain msg x now = Inr ir" for i chain msg x now
    by (auto simp: issue_receipt_def Let_def)
  then show ?thesis by (auto simp: decide_def verify_at_def case_prod_unfold Let_def)
qed

lemma handler_no_faults:
  assumes req: "parsed_request J S hs body req" and ok: "receipts_serialize D"
    and key: "\<And>pid. unverified_chain C D (vr_delegation_chain_jws req) \<noteq> [] \<Longrightarrow>
      pid = principal_id (last (unverified_chain C D (vr_delegation_chain_jws req))) \<Longrightarrow> stored_key J d pid \<noteq> None"
  obtains reg st outcome where "tables_answer C D J req d reg st"
    "decide C K D S cx req reg st (nonce_fate C D req d) = Inr outcome"
    "verify_handler C K D J S cx hs body (no_faults d)
      = (Inr (response_to outcome), no_faults (file_receipt req outcome (nonce_burned C D req (vx_db_now cx) d)))"
proof -
  obtain v d' where run: "prefetch C D J cx req (no_faults d) = (Inr v, no_faults d')"
    using prefetch_no_faults [OF key] by blast
  then obtain reg st where v: "v = (reg, st, nonce_fate C D req d)" "tables_answer C D J req d reg st"
    "d' = nonce_burned C D req (vx_db_now cx) d" by (auto elim!: prefetchE)
  obtain outcome where out: "decide C K D S cx req reg st (nonce_fate C D req d) = Inr outcome"
    using decide_ok [OF ok] by blast
  have filed: "persist_receipt (ir_payload (vo_receipt outcome)) (ir_jws (vo_receipt outcome)) (vr_pending_action_id req)
      (vr_challenge_id req) (no_faults d') = (Inr (), no_faults (file_receipt req outcome d'))"
    by (simp add: persist_receipt_def abind_def areturn_def sql_insert_receipt_def file_receipt_def)
  have "authorize_then_parse (de_verify_request J) hs (vs_shared_secret S) body = Inr req" "vr_delegation_chain_jws req \<noteq> []"
    using req by (simp_all add: parsed_request_def authorize_then_parse_def)
  then have "verify_handler C K D J S cx hs body (no_faults d)
      = (Inr (response_to outcome), no_faults (file_receipt req outcome d'))"
    using run v(1) out [unfolded decide_def] filed
    by (simp add: verify_handler_def abind_def areturn_def response_to_def or_500_def Let_def)
  with v out show thesis by (intro that) simp_all
qed

lemma signed_chain_root:
  "signed_chain C D V chain ds \<Longrightarrow> ds \<noteq> [] \<Longrightarrow> \<exists>key. resolve_principal_key V (principal_id (last ds)) = Inr key"
  by (induction C D V chain ds rule: signed_chain.induct) (auto simp: signed_under_iff)

lemma table_decides_key:
  assumes "table_decides C K D J S now req d ds m"
  shows "unverified_chain C D (vr_delegation_chain_jws req) = ds" "stored_key J d (principal_id (last ds)) \<noteq> None"
proof -
  from assms have chain: "signed_chain C D (table_verifier C D J S d) (vr_delegation_chain_jws req) ds" "ds \<noteq> []"
    by (simp_all add: table_decides_def authenticated_def)
  then show "unverified_chain C D (vr_delegation_chain_jws req) = ds" by (simp add: unverified_chain_signed)
  from signed_chain_root [OF chain] show "stored_key J d (principal_id (last ds)) \<noteq> None"
    by (auto simp: table_verifier_def resolve_in_def ok_or_def split: option.splits)
qed

lemma handler_accepts:
  assumes req: "parsed_request J S hs body req" and ok: "receipts_serialize D"
    and t: "table_decides C K D J S (vx_now cx) req d ds m"
  obtains a d' where "verify_handler C K D J S cx hs body (no_faults d) = (Inr a, no_faults d')" "vp_accepted a"
proof -
  from handler_no_faults [OF req ok, of C d K cx] table_decides_key [OF t] obtain reg st outcome where
    "tables_answer C D J req d reg st" "decide C K D S cx req reg st (nonce_fate C D req d) = Inr outcome"
    and run: "verify_handler C K D J S cx hs body (no_faults d)
      = (Inr (response_to outcome), no_faults (file_receipt req outcome (nonce_burned C D req (vx_db_now cx) d)))"
    by metis
  with decision_iff_table [of C D J req d reg st K S "vx_now cx" ds m] t
  have "decision outcome = Inr \<lparr>va_chain = ds, va_message = m\<rparr>" by (simp add: decide_eq_Inr)
  with run show thesis by (intro that) (auto simp: response_to_def is_ok_def)
qed

text \<open>C19: With a working database the service answers accepted exactly when the caller has the
  secret and the trust chain holds over the service's own tables: root key in
  aap_principals, every delegation registered and unrevoked, the nonce not in aap_nonces,
  the scope matching. The prefetch from unverified payloads neither admits nor rejects
  anything else.\<close>
theorem service_decides_by_its_tables:
  assumes "receipts_serialize D"
  shows "(\<exists>a c'. verify_handler C K D J S cx hs body (no_faults d) = (Inr a, c') \<and> vp_accepted a) \<longleftrightarrow>
    (\<exists>req ds m. parsed_request J S hs body req \<and> table_decides C K D J S (vx_now cx) req d ds m)"
  using accepted_answer [of C K D J S cx hs body "no_faults d"] handler_accepts [OF _ assms] by fastforce

end
