(* ===== verification/VerifierReplay.thy ===== *)
theory VerifierReplay
  imports VerifierFlow
begin

text \<open>
  The verifier service over time: calls, ticks of the pruning task and changes other
  programs make to the principals and delegations, in any order and with any database
  failures. A message is accepted once, because a nonce outlives the freshness window by a
  margin that covers the drift between the process clock and the database's.
\<close>

section \<open>Operations\<close>

record verifier_env =
  ve_crypto :: crypto
  ve_chrono :: chrono
  ve_codec :: core_codec
  ve_json :: verifier_codec
  ve_state :: verifier_state
  ve_retention :: int

datatype service_op =
    Verify verify_ctx headers bytes
  | CheckDelegation verify_ctx headers bytes
  | Prune datetime
  | TablesChanged "string \<rightharpoonup> json" "uuid \<rightharpoonup> datetime option"

text \<open>The message a request carried, when it was answered with acceptance.\<close>

definition accepted_message :: "verifier_env \<Rightarrow> bytes \<Rightarrow> vs_failure + verify_response \<Rightarrow> agent_message list" where
  "accepted_message E body r =
     (case r of
        Inr a \<Rightarrow> if vp_accepted a then
          (case Option.bind (ok (de_verify_request (ve_json E) body)) (claimed (ve_crypto E) (ve_codec E)) of
             Some m \<Rightarrow> [m] | None \<Rightarrow> []) else []
      | Inl _ \<Rightarrow> [])"

fun serve :: "verifier_env \<Rightarrow> service_op \<Rightarrow> vconn \<Rightarrow> agent_message list \<times> vconn" where
  "serve E (Verify cx hs body) c =
     (case verify_handler (ve_crypto E) (ve_chrono E) (ve_codec E) (ve_json E) (ve_state E) cx hs body c of
        (r, c') \<Rightarrow> (accepted_message E body r, c'))"
| "serve E (CheckDelegation cx hs body) c =
     ([], snd (verify_delegation_signature (ve_crypto E) (ve_codec E) (ve_json E) (ve_state E) cx hs body c))"
| "serve E (Prune now) c = ([], prune_tick (ve_retention E) now c)"
| "serve E (TablesChanged ps ds) c =
     ([], c\<lparr>c_db := (c_db c)\<lparr>vd_principals := ps, vd_delegations := ds\<rparr>\<rparr>)"

fun run_service :: "verifier_env \<Rightarrow> service_op list \<Rightarrow> vconn \<Rightarrow> agent_message list \<times> vconn" where
  "run_service E [] c = ([], c)"
| "run_service E (op # ops) c =
     (let (ms, c1) = serve E op c; (ms', c2) = run_service E ops c1 in (ms @ ms', c2))"

text \<open>
  The database's clock does not run backwards, and at every call the two clocks differ by
  at most half the margin of the retention.
\<close>

fun db_time :: "service_op \<Rightarrow> datetime option" where
  "db_time (Verify cx _ _) = Some (vx_db_now cx)"
| "db_time (Prune now) = Some now"
| "db_time _ = None"

fun in_step :: "service_op \<Rightarrow> bool" where
  "in_step (Verify cx _ _) = (\<bar>vx_now cx - vx_db_now cx\<bar> \<le> seconds 30)"
| "in_step _ = True"

definition clocks_agree :: "service_op list \<Rightarrow> bool" where
  "clocks_agree ops \<longleftrightarrow> sorted (List.map_filter db_time ops) \<and> list_all in_step ops"

definition started :: "crypto \<Rightarrow> chrono \<Rightarrow> core_codec \<Rightarrow> verifier_codec \<Rightarrow> verifier_settings \<Rightarrow> verifier_env" where
  "started C K D J G = \<lparr>ve_crypto = C, ve_chrono = K, ve_codec = D, ve_json = J, ve_state = vg_state G,
     ve_retention = vg_retention G\<rparr>"

lemma startup_retention:
  assumes "verifier_startup C generated get = Inr G"
  obtains a b where "vs_max_message_age (vg_state G) = seconds a" "vs_max_clock_skew (vg_state G) = seconds b"
    "vg_retention G = seconds (a + b + 60)"
proof -
  have secs: "\<exists>a. x = seconds a" if "rbind (env_secs get name dflt) duration_seconds = Inr x" for name dflt x
    using that by (auto simp: duration_seconds_def rbind_def split: sum.splits if_splits)
  from assms obtain age skew where
    "rbind (env_secs get ''AAP_VERIFIER_MAX_MESSAGE_AGE_SECS'' DEFAULT_MAX_MESSAGE_AGE_SECS) duration_seconds = Inr age"
    "rbind (env_secs get ''AAP_VERIFIER_MAX_CLOCK_SKEW_SECS'' DEFAULT_MAX_CLOCK_SKEW_SECS) duration_seconds = Inr skew"
    and G: "vs_max_message_age (vg_state G) = age" "vs_max_clock_skew (vg_state G) = skew"
      "vg_retention G = age + skew + seconds 60"
    by (auto simp: verifier_startup_def duration_add_def split: if_splits)
  with secs obtain a b where "age = seconds a" "skew = seconds b" by metis
  with G that [of a b] show thesis by (simp add: seconds_def)
qed

section \<open>The nonce table\<close>

lemma prune_tick_db:
  "c_db (prune_tick (seconds n) now c) = c_db c
     \<or> c_db (prune_tick (seconds n) now c) = snd (sql_prune_nonces n now (c_db c))"
proof -
  obtain r c' where run: "prune_nonces (seconds n) now c = (r, c')" by force
  then have "c_db c' = c_db c \<or> c_db c' = snd (sql_prune_nonces n now (c_db c))"
    unfolding prune_nonces_def
    by (elim abindE; elim db_getE) (auto simp: seconds_def elim!: db_runE)
  with run show ?thesis by (simp add: prune_tick_def)
qed

lemma prune_tick_keeps:
  assumes "vd_nonces (c_db c) k = Some t" "\<not> t < now - seconds n"
  shows "vd_nonces (c_db (prune_tick (seconds n) now c)) k = Some t"
  using prune_tick_db [of n now c] assms by (auto simp: sql_prune_nonces_def)

lemma verify_handler_keeps_nonces:
  assumes "verify_handler C K D J S cx hs body c = (r, c')" and "vd_nonces (c_db c) k = Some t"
  shows "vd_nonces (c_db c') k = Some t"
  using verify_handler_tables(3) [OF assms(1)] assms(2)
  by (auto simp: nonce_burned_def split: option.splits)

lemma check_delegation_db:
  "c_db (snd (verify_delegation_signature C D J S cx hs body c)) = c_db c"
proof -
  obtain r c' where run: "verify_delegation_signature C D J S cx hs body c = (r, c')" by force
  have "c_db c' = c_db c"
  proof (cases "authorize_then_parse (de_delegation_jws J) hs (vs_shared_secret S) body")
    case (Inl f)
    with run show ?thesis by (simp add: verify_delegation_signature_def afail_def)
  next
    case (Inr jws)
    show ?thesis
    proof (cases "token_from_jws C (dec_delegation D) jws")
      case (Inl e)
      with run Inr show ?thesis by (auto simp: verify_delegation_signature_def areturn_def)
    next
      case (Inr u)
      define judge :: "registry \<Rightarrow> (verifier_db, vs_failure, delegation_signature_response) action" where "judge = (\<lambda>registry. case Option.bind (ok (resolve_in C registry (principal_id (ut_payload u))))
                (\<lambda>key. ok (token_verify_signature C (dec_delegation D) u key)) of
           None \<Rightarrow> areturn (refused ''signature invalid or unknown principal_id'')
         | Some verified \<Rightarrow>
             if vx_now cx < valid_from (vt_payload verified) \<or> vx_now cx > valid_until (vt_payload verified)
             then areturn (refused ''delegation is outside its valid_from/valid_until window'')
             else areturn \<lparr>dr_valid = True, dr_reason = None, dr_delegation = Some (vt_payload verified)\<rparr>)"
      have judge: "judge reg c1 = (q, c2) \<Longrightarrow> c2 = c1" for reg c1 q c2
        by (auto simp: judge_def areturn_def split: option.splits if_splits)
      from run \<open>authorize_then_parse _ _ _ _ = Inr jws\<close> Inr
      have "abind (or_500 (registry_with_principal_key (de_jwk J) (principal_id (ut_payload u)))) judge c = (r, c')"
        by (simp add: verify_delegation_signature_def judge_def Let_def cong: option.case_cong)
      then show ?thesis
        by (elim abindE; elim or_500E; elim registryE) (auto dest: judge)
    qed
  qed
  with run show ?thesis by simp
qed

section \<open>Once\<close>

text \<open>
  What holds of a message accepted before the database's time \<open>T\<close>: its nonce is still
  recorded, late enough, or the message is stale for good.
\<close>

definition spent :: "int \<Rightarrow> int \<Rightarrow> datetime \<Rightarrow> verifier_db \<Rightarrow> agent_message \<Rightarrow> bool" where
  "spent age skew T d m \<longleftrightarrow>
     (\<exists>t. vd_nonces d (m_agent_id m, m_nonce m) = Some t \<and> m_issued_at m \<le> t + seconds 30 + skew)
     \<or> m_issued_at m + age + seconds 30 < T"

lemma spent_later: "spent age skew T d m \<Longrightarrow> T \<le> T' \<Longrightarrow> spent age skew T' d m"
  by (auto simp: spent_def)

lemma accepted_was_fresh:
  assumes "table_decides C K D J S now req d ds m"
  shows "now - vs_max_message_age S \<le> m_issued_at m" "m_issued_at m \<le> now + vs_max_clock_skew S"
    "vd_nonces d (m_agent_id m, m_nonce m) = None"
  using assms by (auto simp: table_decides_def authenticated_def message_ok_def table_verifier_def)

lemma serve_spends:
  assumes E: "vs_max_message_age (ve_state E) = seconds a" "vs_max_clock_skew (ve_state E) = seconds b"
      "ve_retention E = seconds (a + b + 60)"
    and run: "serve E op c = (ms, c')" and step: "in_step op"
    and T: "\<And>t. db_time op = Some t \<Longrightarrow> T \<le> t" and T': "T' = (case db_time op of Some t \<Rightarrow> t | None \<Rightarrow> T)"
    and inv: "\<forall>m \<in> A. spent (seconds a) (seconds b) T (c_db c) m"
  shows "distinct ms \<and> set ms \<inter> A = {} \<and> (\<forall>m \<in> A \<union> set ms. spent (seconds a) (seconds b) T' (c_db c') m)"
proof (cases op)
  case (Verify cx hs body)
  let ?n = "vx_db_now cx"
  from run Verify obtain r where h: "verify_handler (ve_crypto E) (ve_chrono E) (ve_codec E) (ve_json E) (ve_state E)
      cx hs body c = (r, c')" and ms: "ms = accepted_message E body r" by (auto split: prod.splits)
  from Verify T T' have T'': "T' = ?n" "T \<le> ?n" by simp_all
  have old: "spent (seconds a) (seconds b) T' (c_db c') m" if "m \<in> A" for m
  proof -
    from that inv T'' have "spent (seconds a) (seconds b) T' (c_db c) m" by (auto intro: spent_later)
    with verify_handler_keeps_nonces [OF h] show ?thesis by (auto simp: spent_def)
  qed
  show ?thesis
  proof (cases "\<exists>ans. r = Inr ans \<and> vp_accepted ans")
    case True
    then obtain ans where r: "r = Inr ans" "vp_accepted ans" by blast
    from accepted_answer [OF h [unfolded r(1)] r(2)] obtain req ds m where
      m: "parsed_request (ve_json E) (ve_state E) hs body req"
        "table_decides (ve_crypto E) (ve_chrono E) (ve_codec E) (ve_json E) (ve_state E) (vx_now cx) req (c_db c) ds m"
        "claimed (ve_crypto E) (ve_codec E) req = Some m"
        "vd_nonces (c_db c') = (vd_nonces (c_db c))((m_agent_id m, m_nonce m) \<mapsto> ?n)" by blast
    from m(1,3) r ms have ms': "ms = [m]"
      by (simp add: accepted_message_def parsed_request_def ok_def)
    note fresh = accepted_was_fresh [OF m(2)]
    have drift: "\<bar>vx_now cx - ?n\<bar> \<le> seconds 30" using step Verify by simp
    have "m \<notin> A"
    proof
      assume "m \<in> A"
      with inv have "spent (seconds a) (seconds b) T (c_db c) m" by blast
      with fresh(3) have "m_issued_at m + seconds a + seconds 30 < T" by (simp add: spent_def)
      with fresh(1) drift T'' E show False by simp
    qed
    moreover have "spent (seconds a) (seconds b) T' (c_db c') m"
      using m(4) fresh(2) drift E by (auto simp: spent_def)
    ultimately show ?thesis using old ms' by auto
  next
    case False
    then have "ms = []" using ms by (auto simp: accepted_message_def split: sum.splits)
    with old show ?thesis by simp
  qed
next
  case (CheckDelegation cx hs body)
  with run check_delegation_db have "c_db c' = c_db c" "ms = []" by auto
  with inv CheckDelegation T' show ?thesis by simp
next
  case (Prune now)
  with run E have c': "c' = prune_tick (seconds (a + b + 60)) now c" "ms = []" by auto
  from Prune T T' have T'': "T' = now" "T \<le> now" by simp_all
  have "spent (seconds a) (seconds b) T' (c_db c') m" if "m \<in> A" for m
  proof -
    from that inv have "spent (seconds a) (seconds b) T (c_db c) m" by blast
    then consider (kept) t where "vd_nonces (c_db c) (m_agent_id m, m_nonce m) = Some t"
        "m_issued_at m \<le> t + seconds 30 + seconds b" "\<not> t < now - seconds (a + b + 60)"
      | (stale) "m_issued_at m + seconds a + seconds 30 < now"
      using T'' by (fastforce simp: spent_def seconds_def)
    then show ?thesis
    proof cases
      case kept
      with prune_tick_keeps [OF kept(1,3)] c' show ?thesis by (auto simp: spent_def)
    next
      case stale
      with T'' show ?thesis by (simp add: spent_def)
    qed
  qed
  with c' show ?thesis by simp
next
  case (TablesChanged ps ds)
  with run inv T' show ?thesis by (auto simp: spent_def)
qed

lemma run_service_once:
  assumes E: "vs_max_message_age (ve_state E) = seconds a" "vs_max_clock_skew (ve_state E) = seconds b"
      "ve_retention E = seconds (a + b + 60)"
    and "clocks_agree ops" and "\<forall>t \<in> set (List.map_filter db_time ops). T \<le> t"
    and "\<forall>m \<in> A. spent (seconds a) (seconds b) T (c_db c) m"
  shows "distinct (fst (run_service E ops c)) \<and> set (fst (run_service E ops c)) \<inter> A = {}"
  using assms(4-)
proof (induction ops arbitrary: c T A)
  case Nil
  then show ?case by simp
next
  case (Cons op ops)
  obtain ms c1 where s: "serve E op c = (ms, c1)" by force
  define T' where "T' = (case db_time op of Some t \<Rightarrow> t | None \<Rightarrow> T)"
  have step: "in_step op" "clocks_agree ops"
    using Cons.prems(1) by (auto simp: clocks_agree_def map_filter_simps split: option.splits)
  have T: "\<And>t. db_time op = Some t \<Longrightarrow> T \<le> t" and later: "\<forall>t \<in> set (List.map_filter db_time ops). T' \<le> t"
    using Cons.prems(1,2) by (auto simp: clocks_agree_def map_filter_simps T'_def split: option.splits)
  from serve_spends [OF E s step(1) T T'_def Cons.prems(3)] have
    ms: "distinct ms" "set ms \<inter> A = {}"
      "\<forall>m \<in> A \<union> set ms. spent (seconds a) (seconds b) T' (c_db c1) m" by simp_all
  from Cons.IH [OF step(2) later ms(3)] ms show ?case
    by (auto simp: s split: prod.split)
qed

text \<open>C20: With the retention the service starts with, no agent message is accepted twice over
  any sequence of calls, pruning ticks and table changes and under any database failures,
  as long as the database clock is monotone and the clocks differ by at most 30 seconds.\<close>
theorem message_accepted_once:
  assumes "verifier_startup C generated get = Inr G" and "clocks_agree ops"
  shows "distinct (fst (run_service (started C K D J G) ops c))"
proof -
  from startup_retention [OF assms(1)] obtain a b where
    *: "vs_max_message_age (vg_state G) = seconds a" "vs_max_clock_skew (vg_state G) = seconds b"
      "vg_retention G = seconds (a + b + 60)" .
  obtain T where T: "\<forall>t \<in> set (List.map_filter db_time ops). T \<le> t"
    using Min_le [of "set (List.map_filter db_time ops)"] by blast
  show ?thesis
    using run_service_once [of "started C K D J G" a b ops T "{}" c] * assms(2) T by (simp add: started_def)
qed

end
