(* ===== verification/VerifierTrust.thy ===== *)
theory VerifierTrust
  imports VerifierReplay
begin

text \<open>
  What answers of the verifier service are worth: each is a signed receipt on record, a
  caller without the secret gets nothing, a delegation confirmed for pairing is the stored
  principal's, and a nonce is spent by any request that names it.
\<close>

section \<open>Callers\<close>

lemma caller_needs_the_secret:
  assumes "\<not> authorized hs (vs_shared_secret S)"
  shows "verify_handler C K D J S cx hs body c = (Inl (Answered 401 [Lit ''invalid or missing x-verifier-secret'']), c)"
    and "verify_delegation_signature C D J S cx hs body c =
      (Inl (Answered 401 [Lit ''invalid or missing x-verifier-secret'']), c)"
  using assms
  by (simp_all add: verify_handler_def verify_delegation_signature_def authorize_then_parse_def afail_def)

lemma authorized_iff:
  "authorized hs secret \<longleftrightarrow> (\<exists>v. header_get hs ''x-verifier-secret'' = Some v \<and> v = secret \<and> list_all visible_ascii v)"
  by (auto simp: authorized_def header_to_str_def split: option.splits Option.bind_splits)

text \<open>An empty secret is accepted at start-up, and then matches an empty header.\<close>

lemma empty_secret_starts:
  "\<exists>G. verifier_startup C generated (map_of [(''AAP_VERIFIER_DATABASE_URL'', ''postgres:''),
      (''AAP_VERIFIER_SHARED_SECRET'', [])]) = Inr G \<and> authorized [(''x-verifier-secret'', [])] (vs_shared_secret (vg_state G))"
  by (simp add: verifier_startup_def env_secs_def duration_seconds_def duration_ok_def duration_add_def seconds_def
    DEFAULT_MAX_MESSAGE_AGE_SECS_def DEFAULT_MAX_CLOCK_SKEW_SECS_def i64_max_def read_receipt_signer_def expect_def
    authorized_def header_get_def header_to_str_def)

section \<open>Receipts\<close>

lemma response_outcome:
  assumes "decide C K D S cx req reg st nonces = Inr outcome"
  defines "r \<equiv> ir_payload (vo_receipt outcome)"
  shows "sign_payload C (enc_receipt D) (vs_receipt_signer S) r = Inr (ir_jws (vo_receipt outcome))"
    "receipt_id r = vx_receipt_id cx" "rc_verifier_id r = vs_verifier_id S" "decided_at r = vx_now cx"
    "request_digest r = digest_request C (vr_agent_message_jws req)"
    "rc_outcome r = (case decision outcome of Inr _ \<Rightarrow> Accepted | Inl e \<Rightarrow> Rejected (failure_text e))"
proof -
  let ?P = "receipt_payload C D (service_verifier C D S reg st) (vx_receipt_id cx) (vr_delegation_chain_jws req)
      (vr_agent_message_jws req) (decision outcome) (vx_now cx)"
  from assms(1) obtain jws where jws: "sign_payload C (enc_receipt D) (vs_receipt_signer S) ?P = Inr jws"
    and "\<lparr>ir_jws = jws, ir_payload = ?P\<rparr> = vo_receipt outcome"
    by (auto simp: decide_eq_Inr issue_receipt_def Let_def)
  then have r: "r = ?P" "ir_jws (vo_receipt outcome) = jws" by (auto simp: r_def dest: sym)
  show "sign_payload C (enc_receipt D) (vs_receipt_signer S) r = Inr (ir_jws (vo_receipt outcome))"
    using jws r by simp
  show "receipt_id r = vx_receipt_id cx" "rc_verifier_id r = vs_verifier_id S" "decided_at r = vx_now cx"
    "request_digest r = digest_request C (vr_agent_message_jws req)"
    "rc_outcome r = (case decision outcome of Inr _ \<Rightarrow> Accepted | Inl e \<Rightarrow> Rejected (failure_text e))"
    unfolding r by (cases "decision outcome"; simp add: receipt_payload_def receipt_subject_def Let_def)+
qed

text \<open>C31: Whenever the service answers a request, accepted or not, it has filed exactly one
  receipt with that answer, signed by its key, naming the request digest and the time.\<close>
theorem every_answer_is_on_record:
  assumes "b64_ok C" "signatures_ok C" "header_read_ok C"
    and codec: "\<And>r bs. enc_receipt D r = Inr bs \<Longrightarrow> de bs = Inr r"
    and run: "verify_handler C K D J S cx hs body c = (Inr a, c')"
  shows "\<exists>req r. parsed_request J S hs body req
    \<and> vd_receipts (c_db c') = vd_receipts (c_db c) @
        [receipt_row_of r (vp_receipt_jws a) (vr_pending_action_id req) (vr_challenge_id req)]
    \<and> jws_verify C de (vp_receipt_jws a) (verifying_key_of C (signer_key (vs_receipt_signer S))) = Inr r
    \<and> receipt_id r = vp_receipt_id a \<and> rc_verifier_id r = vs_verifier_id S \<and> decided_at r = vx_now cx
    \<and> request_digest r = digest_request C (vr_agent_message_jws req)
    \<and> rc_outcome r = (if vp_accepted a then Accepted else Rejected (case vp_reason a of Some why \<Rightarrow> why | None \<Rightarrow> []))"
  using run
proof (cases rule: verify_handlerE)
  case (decided req reg st outcome)
  let ?r = "ir_payload (vo_receipt outcome)"
  from decided(4) have a: "a = response_to outcome"
    and db: "c_db c' = file_receipt req outcome (nonce_burned C D req (vx_db_now cx) (c_db c))" by auto
  note out = response_outcome [OF decided(3)]
  obtain bs where bs: "enc_receipt D ?r = Inr bs"
    using out(1) by (auto simp: sign_payload_def jws_sign_def Let_def)
  from out(1) have "jws_sign C (enc_receipt D) ?r (signer_key (vs_receipt_signer S)) = Inr (ir_jws (vo_receipt outcome))"
    by (simp add: sign_payload_def)
  from jws_sign_verify [where enc = "enc_receipt D" and payload = ?r and de = de and v = ?r,
      OF assms(1-3) codec [OF bs] bs this] have
    "jws_verify C de (vp_receipt_jws a) (verifying_key_of C (signer_key (vs_receipt_signer S))) = Inr ?r"
    by (simp add: a response_to_def)
  with decided(1) out db show ?thesis
    by (intro exI [of _ req] exI [of _ ?r])
      (auto simp: a response_to_def file_receipt_def is_ok_def split: sum.splits)
qed auto

section \<open>Nonces\<close>

lemma claimed_nonce_is_spent:
  assumes "verify_handler C K D J S cx hs body c = (Inr a, c')" "de_verify_request J body = Inr req"
    and "claimed C D req = Some m" "vd_nonces (c_db c) (m_agent_id m, m_nonce m) = None"
  shows "vd_nonces (c_db c') (m_agent_id m, m_nonce m) = Some (vx_db_now cx)"
  using assms(1)
proof (cases rule: verify_handlerE)
  case (decided req' reg st outcome)
  with assms(2) have "req' = req" by (simp add: parsed_request_def)
  with decided(4) assms(3,4) show ?thesis by (auto simp: nonce_burned_def)
qed simp_all

text \<open>C32: The first answered request whose message names an agent and nonce, whatever its
  signature, chain or scope, keeps every message that names them and was issued up to its
  time plus the clock skew from ever being accepted: over any later calls, pruning ticks,
  table changes and database failures, as long as the database clock is monotone and the
  clocks differ by at most 30 seconds. So a forged request shuts out the genuine message;
  only a message issued later can use the nonce again, once its row has been pruned.\<close>
theorem unverified_message_spends_its_nonce:
  assumes "verifier_startup C generated get = Inr G"
    and "verify_handler C K D J (vg_state G) cx hs body c = (Inr a, c1)" "de_verify_request J body = Inr req"
    and "claimed C D req = Some m" "vd_nonces (c_db c) (m_agent_id m, m_nonce m) = None"
    and "clocks_agree (Verify cx hs body # ops)"
    and "m_agent_id m' = m_agent_id m" "m_nonce m' = m_nonce m"
    and "m_issued_at m' \<le> vx_db_now cx + vs_max_clock_skew (vg_state G) + seconds 30"
  shows "m' \<notin> set (fst (run_service (started C K D J G) ops c1))"
proof -
  from startup_retention [OF assms(1)] obtain a b where
    *: "vs_max_message_age (vg_state G) = seconds a" "vs_max_clock_skew (vg_state G) = seconds b"
      "vg_retention G = seconds (a + b + 60)" .
  have clocks: "clocks_agree ops" "\<forall>t \<in> set (List.map_filter db_time ops). vx_db_now cx \<le> t"
    using assms(6) by (simp_all add: clocks_agree_def map_filter_simps)
  have "vd_nonces (c_db c1) (m_agent_id m', m_nonce m') = Some (vx_db_now cx)"
    using claimed_nonce_is_spent [OF assms(2-5)] assms(7,8) by simp
  with assms(9) * have "\<forall>m \<in> {m'}. spent (seconds a) (seconds b) (vx_db_now cx) (c_db c1) m"
    by (simp add: spent_def)
  with run_service_once [of "started C K D J G" a b ops "vx_db_now cx" "{m'}" c1] * clocks show ?thesis
    by (simp add: started_def)
qed

section \<open>Pairing\<close>

lemma registry_lookup:
  "registry_with_principal_key (de_jwk J) pid (no_faults d) =
     (case vd_principals d pid of
        None \<Rightarrow> Inr Map.empty
      | Some v \<Rightarrow> (case de_jwk J v of Inl e \<Rightarrow> Inl (Lit ''malformed stored JWK: '' # e)
          | Inr k \<Rightarrow> Inr (register pid k Map.empty)), no_faults d)"
  by (simp add: registry_with_principal_key_def abind_def sql_principal_key_def areturn_def aresult_def map_err_def
    split: option.split sum.split)

lemma confirmed_needs_a_stored_key:
  assumes "authorize_then_parse (de_delegation_jws J) hs (vs_shared_secret S) body = Inr jws"
    "token_from_jws C (dec_delegation D) jws = Inr u"
    "stored_key J d (principal_id (ut_payload u)) = None"
  shows "verify_delegation_signature C D J S cx hs body (no_faults d) \<noteq>
    (Inr \<lparr>dr_valid = True, dr_reason = None, dr_delegation = Some dg\<rparr>, c')"
proof -
  from assms(3) have "vd_principals d (principal_id (ut_payload u)) = None
      \<or> (\<exists>v e. vd_principals d (principal_id (ut_payload u)) = Some v \<and> de_jwk J v = Inl e)"
    by (auto simp: stored_key_def ok_def split: Option.bind_splits sum.splits)
  with assms(1,2) show ?thesis
    by (auto simp: verify_delegation_signature_def abind_def or_500_def registry_lookup Let_def
      resolve_in_def ok_def areturn_def refused_def)
qed

lemma confirmed_under_a_stored_key:
  assumes run: "authorize_then_parse (de_delegation_jws J) hs (vs_shared_secret S) body = Inr jws"
    "token_from_jws C (dec_delegation D) jws = Inr u"
    and key: "stored_key J d (principal_id (ut_payload u)) = Some jwk"
  shows "(\<exists>c'. verify_delegation_signature C D J S cx hs body (no_faults d) =
      (Inr \<lparr>dr_valid = True, dr_reason = None, dr_delegation = Some dg\<rparr>, c')) \<longleftrightarrow>
    (\<exists>key. jwk_to_public_key C jwk = Inr key \<and> jws_verify C (dec_delegation D) jws key = Inr dg
       \<and> valid_from dg \<le> vx_now cx \<and> vx_now cx \<le> valid_until dg)"
proof -
  from key have v: "\<exists>v. vd_principals d (principal_id (ut_payload u)) = Some v \<and> de_jwk J v = Inr jwk"
    by (auto simp: stored_key_def ok_def split: Option.bind_splits sum.splits)
  from run(2) have u: "u = UnverifiedToken jws (ut_payload u)"
    by (auto simp: token_from_jws_def)
  show ?thesis
  proof (cases "jwk_to_public_key C jwk")
    case (Inl e)
    with v run show ?thesis
      by (auto simp: verify_delegation_signature_def abind_def or_500_def registry_lookup Let_def
        resolve_in_def register_def ok_def areturn_def refused_def)
  next
    case (Inr key)
    have j: "token_verify_signature C (dec_delegation D) u key =
        (case jws_verify C (dec_delegation D) jws key of Inl e \<Rightarrow> Inl e | Inr p \<Rightarrow> Inr (VerifiedToken jws p))"
      by (subst u) (simp add: token_verify_signature_def rbind_def)
    show ?thesis
      using v run Inr
      by (cases "jws_verify C (dec_delegation D) jws key")
        (auto simp: verify_delegation_signature_def abind_def or_500_def registry_lookup Let_def j
          resolve_in_def register_def ok_def areturn_def refused_def split: if_splits)
  qed
qed

lemma confirmed_delegation_is_the_principals:
  "(\<exists>c'. verify_delegation_signature C D J S cx hs body (no_faults d) =
      (Inr \<lparr>dr_valid = True, dr_reason = None, dr_delegation = Some dg\<rparr>, c')) \<longleftrightarrow>
    authorized hs (vs_shared_secret S)
    \<and> (\<exists>jws jwk key. de_delegation_jws J body = Inr jws \<and> stored_key J d (principal_id dg) = Some jwk
        \<and> jwk_to_public_key C jwk = Inr key \<and> jws_verify C (dec_delegation D) jws key = Inr dg
        \<and> valid_from dg \<le> vx_now cx \<and> vx_now cx \<le> valid_until dg)"
proof (cases "authorize_then_parse (de_delegation_jws J) hs (vs_shared_secret S) body")
  case (Inl f)
  then have "\<not> authorized hs (vs_shared_secret S) \<or> (\<exists>e. de_delegation_jws J body = Inl e)"
    by (auto simp: authorize_then_parse_def map_err_eq_Inl split: if_splits)
  with Inl show ?thesis by (auto simp: verify_delegation_signature_def afail_def)
next
  case (Inr jws)
  then have req: "authorized hs (vs_shared_secret S)" "de_delegation_jws J body = Inr jws"
    by (auto simp: authorize_then_parse_def map_err_eq_Inr split: if_splits)
  show ?thesis
  proof (cases "token_from_jws C (dec_delegation D) jws")
    case (Inl e)
    then have "jws_verify C (dec_delegation D) jws key \<noteq> Inr dg" for key
      using jws_verify_decodes [of C "dec_delegation D" jws key dg] by (auto simp: token_from_jws_def)
    with Inl \<open>authorize_then_parse _ _ _ _ = Inr jws\<close> req show ?thesis
      by (simp add: verify_delegation_signature_def areturn_def refused_def)
  next
    case (Inr u)
    then have u: "u = UnverifiedToken jws (ut_payload u)" "decode_unverified C (dec_delegation D) jws = Inr (ut_payload u)"
      by (auto simp: token_from_jws_def)
    have same: "jws_verify C (dec_delegation D) jws key = Inr dg \<Longrightarrow> ut_payload u = dg" for key
      using jws_verify_decodes [of C "dec_delegation D" jws key dg] u(2) by simp
    note run = \<open>authorize_then_parse _ _ _ _ = Inr jws\<close> Inr
    show ?thesis
    proof (cases "stored_key J d (principal_id (ut_payload u))")
      case None
      have "stored_key J d (principal_id dg) = None"
        if "jws_verify C (dec_delegation D) jws key = Inr dg" for key
        using same [OF that] None by simp
      with req(2) show ?thesis using confirmed_needs_a_stored_key [OF run None] by auto
    next
      case (Some jwk)
      with req same show ?thesis
        unfolding confirmed_under_a_stored_key [OF run Some] by auto
    qed
  qed
qed

end
