(* ===== verification/VerifierToy.thy ===== *)
theory VerifierToy
  imports VerifierTrust
begin

text \<open>
  The shop of \<open>CoreFlow\<close> behind the verifier service: its settings as start-up reads them,
  tables with alice's key and the two delegations, and requests that carry agent B's message
  with the right chain or with a forged one. Receipts are serialized one to one.
\<close>

section \<open>The deployment\<close>

instance frag :: countable by countable_datatype

definition receipt_parts ::
  "receipt \<Rightarrow> uuid \<times> string \<times> string \<times> uuid list \<times> string \<times> message option \<times> datetime" where
  "receipt_parts r = (receipt_id r, rc_verifier_id r, rc_agent_id r, delegation_ids r, request_digest r,
     (case rc_outcome r of Accepted \<Rightarrow> None | Rejected m \<Rightarrow> Some m), decided_at r)"

definition receipt_of_parts ::
  "uuid \<times> string \<times> string \<times> uuid list \<times> string \<times> message option \<times> datetime \<Rightarrow> receipt" where
  "receipt_of_parts = (\<lambda>(i, v, a, ds, g, out, t). \<lparr>receipt_id = i, rc_verifier_id = v, rc_agent_id = a,
     delegation_ids = ds, request_digest = g,
     rc_outcome = (case out of None \<Rightarrow> Accepted | Some m \<Rightarrow> Rejected m), decided_at = t\<rparr>)"

lemma receipt_of_parts [simp]: "receipt_of_parts (receipt_parts r) = r"
  by (simp add: receipt_of_parts_def receipt_parts_def split: receipt_outcome.split)

definition write_receipt :: "receipt \<Rightarrow> message + bytes" where
  "write_receipt r = Inr (replicate (to_nat (receipt_parts r)) CHR ''1'')"

definition read_receipt :: "bytes \<Rightarrow> message + receipt" where
  "read_receipt bs = Inr (receipt_of_parts (from_nat (length bs)))"

lemma read_written_receipt: "write_receipt r = Inr bs \<Longrightarrow> read_receipt bs = Inr r"
  by (auto simp: write_receipt_def read_receipt_def)

definition desk_codec :: core_codec where
  "desk_codec = D_b\<lparr>enc_receipt := write_receipt\<rparr>"

definition desk_json :: verifier_codec where
  "desk_json = \<lparr>de_verify_request = (\<lambda>body. Inr \<lparr>vr_delegation_chain_jws = (if body = ''forged'' then [''x''] else toy_chain),
       vr_agent_message_jws = im_jws message_b, vr_pending_action_id = None, vr_challenge_id = None\<rparr>),
     de_delegation_jws = (\<lambda>body. Inr (id_jws root_issued)), de_jwk = (\<lambda>v. Inr (public_jwk core_crypto alice))\<rparr>"

definition desk_env :: "string \<Rightarrow> string option" where
  "desk_env = map_of [(''AAP_VERIFIER_DATABASE_URL'', ''postgres:''), (''AAP_VERIFIER_SHARED_SECRET'', ''secret''),
     (''AAP_VERIFIER_ID'', ''shop-1''), (''AAP_VERIFIER_AUDIENCE'', ''shop'')]"

definition desk_state :: verifier_state where
  "desk_state = \<lparr>vs_receipt_signer = from_ed25519_bytes ''seed'', vs_verifier_id = ''shop-1'', vs_audience = ''shop'',
     vs_shared_secret = ''secret'', vs_max_message_age = seconds 300, vs_max_clock_skew = seconds 60\<rparr>"

definition desk_settings :: verifier_settings where
  "desk_settings = \<lparr>vg_database_url = ''postgres:'', vg_port = 8500, vg_state = desk_state, vg_retention = seconds 420\<rparr>"

definition desk_db :: verifier_db where
  "desk_db = \<lparr>vd_principals = [''alice'' \<mapsto> JNull], vd_delegations = [''root'' \<mapsto> None, ''leaf'' \<mapsto> None],
     vd_nonces = Map.empty, vd_receipts = []\<rparr>"

definition desk_ctx :: verify_ctx where
  "desk_ctx = \<lparr>vx_now = 0, vx_db_now = 5, vx_receipt_id = ''rc''\<rparr>"

definition with_secret :: headers where
  "with_secret = [(''x-verifier-secret'', ''secret'')]"

lemma desk_starts: "verifier_startup core_crypto ''seed'' desk_env = Inr desk_settings"
  by (simp add: verifier_startup_def desk_env_def desk_settings_def desk_state_def env_secs_def duration_seconds_def
    duration_ok_def duration_add_def seconds_def DEFAULT_MAX_MESSAGE_AGE_SECS_def DEFAULT_MAX_CLOCK_SKEW_SECS_def
    i64_max_def read_receipt_signer_def expect_def or_default_def verifier_port_def)

lemma desk_serializes: "receipts_serialize desk_codec"
  by (simp add: receipts_serialize_def desk_codec_def write_receipt_def)

section \<open>Its first request\<close>

lemma desk_decoders [simp]: "dec_delegation desk_codec = dec_delegation D_b" "dec_message desk_codec = dec_message D_b"
  by (simp_all add: desk_codec_def)

lemma signed_chain_codec:
  "dec_delegation D = dec_delegation D' \<Longrightarrow> signed_chain C D V chain ds = signed_chain C D' V chain ds"
  by (induction C D V chain ds rule: signed_chain.induct) (simp_all add: signed_under_iff)

lemma authenticated_codec:
  "dec_delegation D = dec_delegation D' \<Longrightarrow> dec_message D = dec_message D' \<Longrightarrow>
     authenticated C D V now chain msg ds m = authenticated C D' V now chain msg ds m"
  using signed_chain_codec [of D D' C V chain ds] by (simp add: authenticated_def message_ok_def)

definition desk_request :: verify_request where
  "desk_request = \<lparr>vr_delegation_chain_jws = toy_chain, vr_agent_message_jws = im_jws message_b,
     vr_pending_action_id = None, vr_challenge_id = None\<rparr>"

lemma desk_parses: "body \<noteq> ''forged'' \<Longrightarrow> parsed_request desk_json desk_state with_secret body desk_request"
  by (simp add: parsed_request_def authorized_def header_get_def header_to_str_def visible_ascii_def with_secret_def
    desk_state_def desk_json_def desk_request_def toy_chain_def)

lemma desk_verifier:
  "authenticated core_crypto D_b (shop D_b {}) now chain msg [id_payload leaf_issued, id_payload root_issued] m
     \<longleftrightarrow> authenticated core_crypto D_b (table_verifier core_crypto desk_codec desk_json desk_state desk_db) now chain msg
       [id_payload leaf_issued, id_payload root_issued] m"
proof -
  have "principal_id (id_payload root_issued) = ''alice''"
    using delegation_issue_fields(1) [OF issued(1)] by (simp add: params_fields)
  then show ?thesis
    using issued_payloads
    by (intro authenticated_cong)
      (auto simp: shop_fields table_verifier_def desk_state_def seconds_def on_record_def desk_db_def is_revoked_in_def
        resolve_in_def register_def stored_key_def desk_json_def ok_def)
qed

lemma desk_decides:
  "table_decides core_crypto monday_1115 desk_codec desk_json desk_state 0 desk_request desk_db
     [id_payload leaf_issued, id_payload root_issued] (im_payload message_b)"
proof -
  have "authenticated core_crypto D_b (shop D_b {}) 0 toy_chain (im_jws message_b)
      [id_payload leaf_issued, id_payload root_issued] (im_payload message_b)"
    using two_link_chain_authenticated by (simp add: verify_stateless_eq_Inr)
  then show ?thesis
    using delegation_issue_fields(4) [OF issued(2)] message_issue_fields [OF issued(3)]
    by (simp add: table_decides_def desk_request_def authenticated_codec [of desk_codec D_b] desk_verifier)
      (simp add: desk_db_def leaf_params_def root_params_def payments_until_matches)
qed

section \<open>The properties at the desk\<close>

theorem service_decides_by_its_tables_witness:
  "\<exists>a c'. verify_handler core_crypto monday_1115 desk_codec desk_json desk_state desk_ctx with_secret ''body''
      (no_faults desk_db) = (Inr a, c') \<and> vp_accepted a"
  using service_decides_by_its_tables [OF desk_serializes, of core_crypto monday_1115 desk_json desk_state desk_ctx
      with_secret "''body''" desk_db] desk_parses [of "''body''"] desk_decides by (auto simp: desk_ctx_def)

text \<open>The same request twice, with a tick of the pruning task in between.\<close>

definition desk_ops :: "service_op list" where
  "desk_ops = [Verify desk_ctx with_secret ''body'', Prune 6, Verify (desk_ctx\<lparr>vx_db_now := 7\<rparr>) with_secret ''body'']"

lemma desk_clocks: "clocks_agree desk_ops"
  by (simp add: clocks_agree_def desk_ops_def desk_ctx_def map_filter_simps seconds_def)

lemma desk_claimed: "claimed core_crypto desk_codec desk_request = Some (im_payload message_b)"
  using desk_decides by (auto simp: table_decides_def dest: authenticated_claimed)

lemma desk_request_read: "de_verify_request desk_json ''body'' = Inr desk_request"
  by (simp add: desk_json_def desk_request_def)

lemma first_call_accepted:
  obtains a d' where "verify_handler core_crypto monday_1115 desk_codec desk_json desk_state desk_ctx with_secret ''body''
      (no_faults desk_db) = (Inr a, no_faults d')" "vp_accepted a"
proof -
  have body: "''body'' \<noteq> ''forged''" by simp
  have decides: "table_decides core_crypto monday_1115 desk_codec desk_json desk_state (vx_now desk_ctx) desk_request
      desk_db [id_payload leaf_issued, id_payload root_issued] (im_payload message_b)"
    using desk_decides by (simp add: desk_ctx_def)
  show thesis by (rule handler_accepts [OF desk_parses [OF body] desk_serializes decides]) (rule that)
qed

lemma accepted_message_claimed:
  assumes "m \<in> set (accepted_message E body r)"
  shows "\<exists>req. de_verify_request (ve_json E) body = Inr req \<and> claimed (ve_crypto E) (ve_codec E) req = Some m"
proof (cases "de_verify_request (ve_json E) body")
  case (Inl e)
  have "accepted_message E body r = []"
    unfolding accepted_message_def Inl ok_def by (cases r) simp_all
  with assms show ?thesis by simp
next
  case (Inr req)
  have "accepted_message E body r = (case claimed (ve_crypto E) (ve_codec E) req of
      Some m \<Rightarrow> if is_ok r \<and> vp_accepted (projr r) then [m] else [] | None \<Rightarrow> [])"
    unfolding accepted_message_def Inr ok_def is_ok_def by (cases r) (simp_all split: option.split)
  with assms Inr show ?thesis by (auto split: option.splits if_splits)
qed

theorem message_accepted_once_witness:
  "fst (run_service (started core_crypto monday_1115 desk_codec desk_json desk_settings) desk_ops (no_faults desk_db))
     = [im_payload message_b]"
proof -
  let ?E = "started core_crypto monday_1115 desk_codec desk_json desk_settings"
  obtain a d1 where a: "verify_handler core_crypto monday_1115 desk_codec desk_json desk_state desk_ctx with_secret ''body''
      (no_faults desk_db) = (Inr a, no_faults d1)" "vp_accepted a" by (rule first_call_accepted)
  obtain r c2 where r: "verify_handler core_crypto monday_1115 desk_codec desk_json desk_state (desk_ctx\<lparr>vx_db_now := 7\<rparr>)
      with_secret ''body'' (prune_tick (seconds 420) 6 (no_faults d1)) = (r, c2)" by force
  have m: "accepted_message ?E ''body'' (Inr a) = [im_payload message_b]"
    using a(2) desk_claimed desk_request_read by (simp add: accepted_message_def started_def ok_def)
  have run: "fst (run_service ?E desk_ops (no_faults desk_db)) = im_payload message_b # accepted_message ?E ''body'' r"
    using a r m by (simp add: desk_ops_def started_def desk_settings_def)
  have "set (accepted_message ?E ''body'' r) \<subseteq> {im_payload message_b}"
    using accepted_message_claimed [of _ ?E "''body''" r] desk_claimed desk_request_read
    by (fastforce simp: started_def)
  moreover have "distinct (fst (run_service ?E desk_ops (no_faults desk_db)))"
    by (rule message_accepted_once [OF desk_starts desk_clocks])
  ultimately show ?thesis unfolding run by (cases "accepted_message ?E ''body'' r") auto
qed

theorem every_answer_is_on_record_witness:
  "\<exists>a d' r. verify_handler core_crypto monday_1115 desk_codec desk_json desk_state desk_ctx with_secret ''body''
      (no_faults desk_db) = (Inr a, no_faults d')
    \<and> vd_receipts d' = [receipt_row_of r (vp_receipt_jws a) None None] \<and> rc_outcome r = Accepted
    \<and> jws_verify core_crypto read_receipt (vp_receipt_jws a)
        (verifying_key_of core_crypto (SkEd25519 ''seed'')) = Inr r"
proof -
  obtain a d' where a: "verify_handler core_crypto monday_1115 desk_codec desk_json desk_state desk_ctx with_secret ''body''
      (no_faults desk_db) = (Inr a, no_faults d')" "vp_accepted a" by (rule first_call_accepted)
  have codec: "enc_receipt desk_codec r = Inr bs \<Longrightarrow> read_receipt bs = Inr r" for r bs
    by (rule read_written_receipt) (simp add: desk_codec_def)
  from every_answer_is_on_record [where de = read_receipt, OF core_crypto_ok(1,2,4) codec a(1)] obtain req r where
    *: "parsed_request desk_json desk_state with_secret ''body'' req"
      "vd_receipts (c_db (no_faults d')) = vd_receipts (c_db (no_faults desk_db)) @ [receipt_row_of r (vp_receipt_jws a) (vr_pending_action_id req) (vr_challenge_id req)]"
      "jws_verify core_crypto read_receipt (vp_receipt_jws a)
        (verifying_key_of core_crypto (signer_key (vs_receipt_signer desk_state))) = Inr r"
      "rc_outcome r = (if vp_accepted a then Accepted else Rejected (case vp_reason a of Some why \<Rightarrow> why | None \<Rightarrow> []))"
    by blast
  from *(1) have "req = desk_request" by (simp add: parsed_request_def desk_request_read)
  with * a show ?thesis
    by (auto simp: desk_db_def desk_request_def desk_state_def from_ed25519_bytes_def)
qed

text \<open>
  A request with a forged chain keeps the honest one from being accepted, right after it and
  once more after a tick of the pruning task.
\<close>

theorem unverified_message_spends_its_nonce_witness:
  "\<exists>a d1. verify_handler core_crypto monday_1115 desk_codec desk_json desk_state desk_ctx with_secret ''forged''
      (no_faults desk_db) = (Inr a, no_faults d1)
    \<and> im_payload message_b \<notin> set (fst (run_service
        (started core_crypto monday_1115 desk_codec desk_json desk_settings) desk_ops (no_faults d1)))"
proof -
  let ?forged = "desk_request\<lparr>vr_delegation_chain_jws := [''x'']\<rparr>"
  have forged: "parsed_request desk_json desk_state with_secret ''forged'' ?forged"
    by (simp add: parsed_request_def authorized_def header_get_def header_to_str_def visible_ascii_def with_secret_def
      desk_state_def desk_json_def desk_request_def)
  have "unverified_chain core_crypto desk_codec [''x''] = []"
    by (simp add: unverified_chain_def map_filter_simps token_from_jws_def decode_unverified_def ok_def)
  then obtain outcome where "verify_handler core_crypto monday_1115 desk_codec desk_json desk_state desk_ctx
      with_secret ''forged'' (no_faults desk_db) = (Inr (response_to outcome),
        no_faults (file_receipt ?forged outcome (nonce_burned core_crypto desk_codec ?forged (vx_db_now desk_ctx) desk_db)))"
    using handler_no_faults [OF forged desk_serializes, of core_crypto desk_db monday_1115 desk_ctx] by auto
  then obtain a d1 where run: "verify_handler core_crypto monday_1115 desk_codec desk_json desk_state desk_ctx
      with_secret ''forged'' (no_faults desk_db) = (Inr a, no_faults d1)" by blast
  have "de_verify_request desk_json ''forged'' = Inr ?forged" using forged by (simp add: parsed_request_def)
  moreover have "claimed core_crypto desk_codec ?forged = Some (im_payload message_b)"
    using desk_claimed by (simp add: claimed_def)
  moreover have "vd_nonces (c_db (no_faults desk_db)) k = None" for k by (simp add: desk_db_def)
  moreover have "clocks_agree (Verify desk_ctx with_secret ''forged'' # desk_ops)"
    using desk_clocks by (simp add: clocks_agree_def desk_ops_def desk_ctx_def map_filter_simps seconds_def)
  moreover have "m_issued_at (im_payload message_b) \<le> vx_db_now desk_ctx + vs_max_clock_skew desk_state + seconds 30"
    using message_issue_fields [OF issued(3)] by (simp add: desk_ctx_def desk_state_def seconds_def)
  ultimately have "im_payload message_b \<notin> set (fst (run_service
      (started core_crypto monday_1115 desk_codec desk_json desk_settings) desk_ops (no_faults d1)))"
    using unverified_message_spends_its_nonce [OF desk_starts, of monday_1115 desk_codec desk_json desk_ctx with_secret
      "''forged''" "no_faults desk_db" a "no_faults d1" ?forged "im_payload message_b" desk_ops "im_payload message_b"] run
    by (simp add: desk_settings_def)
  with run show ?thesis by blast
qed

end
