(* ===== verification/AdminKeystore.thy ===== *)
theory AdminKeystore
  imports CoreVerifier StdText
begin

text \<open>
  The machine the command-line tool \<open>aap-admin\<close> runs on, and its key store
  (crates/admin-cli/src/keystore.rs): files with their mode, what is printed on the standard
  streams and on the terminal device, what is typed at the terminal, and the remote server.
  Printing does not fail. A command ends with a value, an exit code or a
  panic. Argon2, AES-GCM and the JSON of the key file are parameters (\<open>vault\<close>), and so are
  the random bytes a command draws. Paths are names: a file has one name, and an existence
  test does not fail. The files that are read as text are UTF-8.
\<close>

section \<open>Commands\<close>

record disk_file =
  fl_content :: bytes
  fl_mode :: nat

text \<open>
  \<open>wd_printed\<close> is everything printed, in order, with where it went: \<open>println!\<close> writes to the
  standard output and \<open>eprintln!\<close> to the standard error, which the caller may have redirected,
  a question for the terminal to the device \<open>/dev/tty\<close>, which it may not. \<open>wd_typed\<close> is the
  lines that will be read from that device, without their ends. \<open>wd_writes\<close> tells of the next
  operations that change the disk how they end: one that \<open>Fails\<close> changes nothing, and a write
  that is \<open>Cut\<close> has created or truncated its file and leaves the first bytes in it; later
  operations work.
\<close>

datatype device = Stdout | Stderr | Tty

datatype disk_outcome = Works | Fails | Cut nat

record 's world =
  wd_files :: "string \<Rightarrow> disk_file option"
  wd_writes :: "disk_outcome list"
  wd_terminal :: bool
  wd_typed :: "string list"
  wd_printed :: "(device \<times> message) list"
  wd_remote :: 's

datatype 'a outcome = Finished 'a | Exited int | Crashed message

type_synonym ('s, 'a) command = "'s world \<Rightarrow> 'a outcome \<times> 's world"

definition cbind :: "('s, 'a) command \<Rightarrow> ('a \<Rightarrow> ('s, 'b) command) \<Rightarrow> ('s, 'b) command" where
  "cbind m f w =
     (case m w of
        (Finished a, w') \<Rightarrow> f a w'
      | (Exited code, w') \<Rightarrow> (Exited code, w')
      | (Crashed e, w') \<Rightarrow> (Crashed e, w'))"

definition cdone :: "'a \<Rightarrow> ('s, 'a) command" where "cdone a w = (Finished a, w)"
definition exit_with :: "int \<Rightarrow> ('s, 'a) command" where "exit_with code w = (Exited code, w)"
definition panic :: "string \<Rightarrow> ('s, 'a) command" where "panic e w = (Crashed [Lit e], w)"

definition print_to :: "device \<Rightarrow> message \<Rightarrow> ('s, unit) command" where
  "print_to d line w = (Finished (), w\<lparr>wd_printed := wd_printed w @ [(d, line)]\<rparr>)"

definition say :: "message \<Rightarrow> ('s, unit) command" where "say line = print_to Stdout line"
definition warn :: "message \<Rightarrow> ('s, unit) command" where "warn line = print_to Stderr line"
definition ask :: "string \<Rightarrow> ('s, unit) command" where "ask prompt = print_to Tty [Lit prompt]"

fun say_all :: "message list \<Rightarrow> ('s, unit) command" where
  "say_all [] = cdone ()"
| "say_all (l # ls) = cbind (say l) (\<lambda>_. say_all ls)"

definition expect_ok :: "('e + 'a) \<Rightarrow> string \<Rightarrow> ('s, 'a) command" where
  "expect_ok r e = (case r of Inl _ \<Rightarrow> panic e | Inr a \<Rightarrow> cdone a)"

text \<open>An operation on the disk that may fail.\<close>

definition disk_outcome :: "('s, disk_outcome) command" where
  "disk_outcome w =
     (case wd_writes w of [] \<Rightarrow> (Finished Works, w) | b # bs \<Rightarrow> (Finished b, w\<lparr>wd_writes := bs\<rparr>))"

definition disk_works :: "('s, bool) command" where
  "disk_works = cbind disk_outcome (\<lambda>b. cdone (b = Works))"

definition fs_exists :: "string \<Rightarrow> ('s, bool) command" where
  "fs_exists path w = (Finished (wd_files w path \<noteq> None), w)"

definition fs_read :: "string \<Rightarrow> ('s, bytes option) command" where
  "fs_read path w = (Finished (map_option fl_content (wd_files w path)), w)"

text \<open>A new file gets the process's default mode, 0644; an old one keeps its own.\<close>

definition put_file :: "string \<Rightarrow> bytes \<Rightarrow> 's world \<Rightarrow> 's world" where
  "put_file path content w = w\<lparr>wd_files := (wd_files w)(path \<mapsto>
     \<lparr>fl_content = content, fl_mode = (case wd_files w path of None \<Rightarrow> 420 | Some f \<Rightarrow> fl_mode f)\<rparr>)\<rparr>"

definition fs_write :: "string \<Rightarrow> bytes \<Rightarrow> ('s, bool) command" where
  "fs_write path content =
     cbind disk_outcome (\<lambda>b w.
       case b of
         Works \<Rightarrow> (Finished True, put_file path content w)
       | Fails \<Rightarrow> (Finished False, w)
       | Cut n \<Rightarrow> (Finished False, put_file path (take n content) w))"

definition fs_chmod :: "string \<Rightarrow> nat \<Rightarrow> ('s, bool) command" where
  "fs_chmod path mode =
     cbind disk_works (\<lambda>works w.
       if \<not> works then (Finished False, w)
       else (Finished (wd_files w path \<noteq> None),
             w\<lparr>wd_files := (wd_files w)(path := map_option (\<lambda>f. f\<lparr>fl_mode := mode\<rparr>) (wd_files w path))\<rparr>))"

definition fs_remove :: "string \<Rightarrow> ('s, bool) command" where
  "fs_remove path =
     cbind disk_works (\<lambda>works w.
       if \<not> works then (Finished False, w)
       else (Finished (wd_files w path \<noteq> None), w\<lparr>wd_files := (wd_files w)(path := None)\<rparr>))"

definition or_panic :: "string \<Rightarrow> ('s, bool) command \<Rightarrow> ('s, unit) command" where
  "or_panic e m = cbind m (\<lambda>works. if works then cdone () else panic e)"

section \<open>The key store\<close>

record encrypted_key_file =
  ek_salt :: string
  ek_nonce :: string
  ek_ciphertext :: string

record vault =
  kdf :: "string \<Rightarrow> bytes \<Rightarrow> message + bytes"
  aead_encrypt :: "bytes \<Rightarrow> bytes \<Rightarrow> bytes \<Rightarrow> message + bytes"
  aead_decrypt :: "bytes \<Rightarrow> bytes \<Rightarrow> bytes \<Rightarrow> message + bytes"
  key_file_text :: "encrypted_key_file \<Rightarrow> bytes"
  key_file_read :: "bytes \<Rightarrow> message + encrypted_key_file"

record draws =
  dw_seed :: bytes
  dw_salt :: bytes
  dw_nonce :: bytes
  dw_uuid :: uuid
  dw_now :: datetime

definition path_join :: "string \<Rightarrow> string \<Rightarrow> string" where
  "path_join base p =
     (if take 1 p = ''/'' then p
      else if base = [] \<or> last base = CHR ''/'' then base @ p
      else base @ ''/'' @ p)"

definition admin_dir :: "string \<Rightarrow> string" where
  "admin_dir home = path_join home ''.aap-admin''"

definition key_file_path :: "string \<Rightarrow> string" where
  "key_file_path home = path_join (admin_dir home) ''principal.key.enc''"

definition key_exists :: "string \<Rightarrow> ('s, bool) command" where
  "key_exists home = fs_exists (key_file_path home)"

definition derive_aes_key :: "vault \<Rightarrow> string \<Rightarrow> bytes \<Rightarrow> ('s, bytes) command" where
  "derive_aes_key L passphrase salt = expect_ok (kdf L passphrase salt) ''argon2 key derivation failed''"

definition seal :: "crypto \<Rightarrow> bytes \<Rightarrow> bytes \<Rightarrow> bytes \<Rightarrow> encrypted_key_file" where
  "seal C salt nonce ciphertext = \<lparr>ek_salt = b64_encode C salt, ek_nonce = b64_encode C nonce,
     ek_ciphertext = b64_encode C ciphertext\<rparr>"

definition store :: "crypto \<Rightarrow> vault \<Rightarrow> string \<Rightarrow> draws \<Rightarrow> bytes \<Rightarrow> string \<Rightarrow> ('s, unit) command" where
  "store C L home dw seed passphrase =
     cbind (derive_aes_key L passphrase (dw_salt dw)) (\<lambda>aes_key.
     cbind (expect_ok (aead_encrypt L aes_key (dw_nonce dw) seed) ''AES-GCM encryption failed'') (\<lambda>ciphertext.
     let path = key_file_path home;
         envelope = seal C (dw_salt dw) (dw_nonce dw) ciphertext in
     cbind (or_panic ''could not create ~/.aap-admin'' disk_works) (\<lambda>_.
     cbind (or_panic ''could not write key file'' (fs_write path (key_file_text L envelope))) (\<lambda>_.
     or_panic ''could not chmod key file'' (fs_chmod path 384)))))"

definition generate_and_store :: "crypto \<Rightarrow> vault \<Rightarrow> string \<Rightarrow> draws \<Rightarrow> string \<Rightarrow> ('s, bytes) command" where
  "generate_and_store C L home dw passphrase =
     cbind (fs_exists (key_file_path home)) (\<lambda>there.
     if there then panic ''already exists, refusing to overwrite''
     else cbind (store C L home dw (dw_seed dw) passphrase) (\<lambda>_. cdone (dw_seed dw)))"

text \<open>
  \<open>load\<close>: reading and decoding the file give errors; \<open>Nonce::from_slice\<close> panics when the
  slice has not the nonce's length.
\<close>

definition open_envelope ::
  "crypto \<Rightarrow> vault \<Rightarrow> bytes option \<Rightarrow> message + bytes \<times> bytes \<times> bytes" where
  "open_envelope C L raw =
     rbind (ok_or raw [Lit ''could not read the key file'']) (\<lambda>raw.
     rbind (map_err (\<lambda>e. Lit ''corrupt key file: '' # e) (key_file_read L raw)) (\<lambda>envelope.
     rbind (b64_decode C (ek_salt envelope)) (\<lambda>salt.
     if length salt \<noteq> 16 then Inl [Lit ''corrupt key file: salt wrong length'']
     else
     rbind (b64_decode C (ek_nonce envelope)) (\<lambda>nonce.
     rbind (b64_decode C (ek_ciphertext envelope)) (\<lambda>ciphertext.
     Inr (salt, nonce, ciphertext))))))"

definition unlock :: "vault \<Rightarrow> bytes \<Rightarrow> bytes \<Rightarrow> bytes \<Rightarrow> message + bytes" where
  "unlock L aes_key nonce ciphertext =
     rbind (map_err (\<lambda>_. [Lit ''wrong passphrase (or corrupt key file)'']) (aead_decrypt L aes_key nonce ciphertext))
       (\<lambda>plaintext.
     if length plaintext \<noteq> 32 then Inl [Lit ''corrupt key file: decrypted seed has the wrong length'']
     else Inr plaintext)"

definition load :: "crypto \<Rightarrow> vault \<Rightarrow> string \<Rightarrow> string \<Rightarrow> ('s, message + bytes) command" where
  "load C L home passphrase =
     cbind (fs_read (key_file_path home)) (\<lambda>raw.
     case open_envelope C L raw of
       Inl e \<Rightarrow> cdone (Inl e)
     | Inr (salt, nonce, ciphertext) \<Rightarrow>
         cbind (derive_aes_key L passphrase salt) (\<lambda>aes_key.
         if length nonce \<noteq> 12 then panic ''assertion failed: slice length''
         else cdone (unlock L aes_key nonce ciphertext)))"

section \<open>Running commands\<close>

lemma cbind_simps [simp]:
  "m w = (Finished a, w') \<Longrightarrow> cbind m f w = f a w'"
  "m w = (Exited code, w') \<Longrightarrow> cbind m f w = (Exited code, w')"
  "m w = (Crashed e, w') \<Longrightarrow> cbind m f w = (Crashed e, w')"
  by (simp_all add: cbind_def)

lemma cbindE:
  assumes "cbind m f w = (r, w')"
  obtains (goes) a w1 where "m w = (Finished a, w1)" "f a w1 = (r, w')"
  | (exits) code where "m w = (Exited code, w')" "r = Exited code"
  | (crashes) e where "m w = (Crashed e, w')" "r = Crashed e"
  using assms by (auto simp: cbind_def split: prod.splits outcome.splits)

text \<open>Commands that leave the files alone.\<close>

named_theorems keeps_files

definition files_kept :: "('s, 'a) command \<Rightarrow> bool" where
  "files_kept m \<longleftrightarrow> (\<forall>w. wd_files (snd (m w)) = wd_files w)"

lemma files_keptD: "files_kept m \<Longrightarrow> m w = (r, w') \<Longrightarrow> wd_files w' = wd_files w"
  unfolding files_kept_def by (metis snd_conv)

lemma files_kept_bind [keeps_files]:
  assumes "files_kept m" "\<And>a. files_kept (f a)"
  shows "files_kept (cbind m f)"
proof (unfold files_kept_def, intro allI)
  fix w
  obtain r w' where run: "cbind m f w = (r, w')" by (metis surj_pair)
  then have "wd_files w' = wd_files w"
    using files_keptD [OF assms(1)] files_keptD [OF assms(2)] by (cases rule: cbindE) metis+
  with run show "wd_files (snd (cbind m f w)) = wd_files w" by simp
qed

lemma files_kept_basic [keeps_files]:
  "files_kept (cdone a)" "files_kept (exit_with code)" "files_kept (panic e)" "files_kept (say l)"
  "files_kept disk_works" "files_kept (fs_exists p)" "files_kept (fs_read p)"
  "files_kept (warn l)" "files_kept (ask prompt)" "files_kept disk_outcome"
  by (auto simp: files_kept_def cdone_def exit_with_def panic_def say_def warn_def ask_def print_to_def
    disk_works_def disk_outcome_def cbind_def fs_exists_def fs_read_def split: list.split)

lemma files_kept_say_all [keeps_files]: "files_kept (say_all ls)"
  by (induction ls) (auto intro!: keeps_files)

lemma files_kept_if [keeps_files]:
  "files_kept m \<Longrightarrow> files_kept m' \<Longrightarrow> files_kept (if b then m else m')"
  by simp

lemma files_kept_expect [keeps_files]: "files_kept (expect_ok r e)"
  by (auto simp: expect_ok_def intro: keeps_files split: sum.split)

lemma files_kept_load [keeps_files]: "files_kept (load C L home passphrase)"
  unfolding load_def derive_aes_key_def
  by (auto intro!: keeps_files split: sum.split)

section \<open>The key file\<close>

text \<open>What a command that finished has done, part by part.\<close>

lemma cbind_Finished:
  "cbind m f w = (Finished b, w') \<longleftrightarrow> (\<exists>a w1. m w = (Finished a, w1) \<and> f a w1 = (Finished b, w'))"
  by (auto simp: cbind_def split: prod.splits outcome.splits)

lemma expect_ok_Finished: "expect_ok q e w = (Finished a, w') \<longleftrightarrow> q = Inr a \<and> w' = w"
  by (auto simp: expect_ok_def panic_def cdone_def split: sum.splits)

lemma cdone_Finished: "cdone a w = (Finished b, w') \<longleftrightarrow> b = a \<and> w' = w"
  by (auto simp: cdone_def)

lemma panic_not_Finished: "panic e w = (Finished b, w') \<longleftrightarrow> False"
  by (simp add: panic_def)

lemma or_panic_Finished: "or_panic e m w = (Finished u, w') \<longleftrightarrow> m w = (Finished True, w')"
  by (auto simp: or_panic_def cbind_Finished cdone_Finished panic_not_Finished split: if_splits)

lemmas finished = cbind_Finished expect_ok_Finished cdone_Finished panic_not_Finished or_panic_Finished

lemma disk_works_files: "disk_works w = (q, w') \<Longrightarrow> wd_files w' = wd_files w"
  by (rule files_keptD [OF files_kept_basic(5)])

lemma disk_outcome_files: "disk_outcome w = (q, w') \<Longrightarrow> wd_files w' = wd_files w"
  by (rule files_keptD [OF files_kept_basic(10)])

text \<open>A write leaves the content it was given if it worked, and a first part of it or nothing new if not.\<close>

lemma fs_write_files:
  assumes "fs_write path content w = (q, w')"
  shows "(\<exists>n. wd_files w' = wd_files (put_file path (take n content) w)
       \<and> (q = Finished True \<longrightarrow> take n content = content)) \<or> q = Finished False \<and> wd_files w' = wd_files w"
proof -
  obtain b w1 where o: "disk_outcome w = (Finished b, w1)"
    by (cases "wd_writes w") (auto simp: disk_outcome_def)
  from assms have q: "(q, w') = (case b of
      Works \<Rightarrow> (Finished True, put_file path content w1)
    | Fails \<Rightarrow> (Finished False, w1)
    | Cut n \<Rightarrow> (Finished False, put_file path (take n content) w1))"
    unfolding fs_write_def cbind_simps(1) [where m = disk_outcome, OF o] by simp
  have put: "wd_files (put_file path c w1) = wd_files (put_file path c w)" for c
    using disk_outcome_files [OF o] by (simp add: put_file_def)
  show ?thesis
  proof (cases b)
    case Works
    with q put show ?thesis by (intro disjI1 exI [of _ "length content"]) simp
  next
    case Fails
    with q disk_outcome_files [OF o] show ?thesis by simp
  next
    case (Cut n)
    with q put show ?thesis by (intro disjI1 exI [of _ n]) simp
  qed
qed

lemma fs_write_Finished: "fst (fs_write path content w) \<in> {Finished True, Finished False}"
  by (auto simp: fs_write_def cbind_def disk_outcome_def split: list.split disk_outcome.split)

lemma fs_write_True:
  assumes "fs_write path content w = (Finished True, w')"
  shows "wd_files w' = wd_files (put_file path content w)"
  using fs_write_files [OF assms] by auto

lemma fs_chmod_True:
  assumes "fs_chmod path mode w = (Finished True, w')"
  shows "\<exists>f. wd_files w path = Some f \<and> wd_files w' = (wd_files w)(path \<mapsto> f\<lparr>fl_mode := mode\<rparr>)"
proof -
  from assms obtain b w1 where w1: "disk_works w = (Finished b, w1)"
    and rest: "(if \<not> b then (Finished False, w1)
       else (Finished (wd_files w1 path \<noteq> None),
         w1\<lparr>wd_files := (wd_files w1)(path := map_option (\<lambda>f. f\<lparr>fl_mode := mode\<rparr>) (wd_files w1 path))\<rparr>))
      = (Finished True, w')"
    unfolding fs_chmod_def cbind_Finished by blast
  from rest have "wd_files w1 path \<noteq> None"
    "wd_files w' = (wd_files w1)(path := map_option (\<lambda>f. f\<lparr>fl_mode := mode\<rparr>) (wd_files w1 path))"
    by (auto split: if_splits)
  with disk_works_files [OF w1] show ?thesis by auto
qed

lemma storeE:
  assumes "store C L home dw seed passphrase w = (Finished u, w')"
  obtains key ct where "kdf L passphrase (dw_salt dw) = Inr key" "aead_encrypt L key (dw_nonce dw) seed = Inr ct"
    "wd_files w' = (wd_files w)(key_file_path home \<mapsto>
       \<lparr>fl_content = key_file_text L (seal C (dw_salt dw) (dw_nonce dw) ct), fl_mode = 384\<rparr>)"
proof -
  from assms obtain key ct w2 w3 where k: "kdf L passphrase (dw_salt dw) = Inr key"
    and ct: "aead_encrypt L key (dw_nonce dw) seed = Inr ct"
    and d: "disk_works w = (Finished True, w2)"
    and wr: "fs_write (key_file_path home) (key_file_text L (seal C (dw_salt dw) (dw_nonce dw) ct)) w2
      = (Finished True, w3)"
    and ch: "fs_chmod (key_file_path home) 384 w3 = (Finished True, w')"
    unfolding store_def derive_aes_key_def Let_def finished by blast
  from disk_works_files [OF d] fs_write_True [OF wr] fs_chmod_True [OF ch] show thesis
    by (intro that [OF k ct]) (auto simp: put_file_def)
qed

definition vault_ok :: "vault \<Rightarrow> bool" where
  "vault_ok L \<longleftrightarrow> (\<forall>k n m c. aead_encrypt L k n m = Inr c \<longrightarrow> aead_decrypt L k n c = Inr m)
     \<and> (\<forall>e. key_file_read L (key_file_text L e) = Inr e)"

lemma open_sealed:
  assumes "b64_ok C" "vault_ok L" "length salt = 16"
  shows "open_envelope C L (Some (key_file_text L (seal C salt nonce ct))) = Inr (salt, nonce, ct)"
  using assms b64_okD(1) [OF assms(1)]
  by (simp add: open_envelope_def vault_ok_def seal_def ok_or_def rbind_def map_err_def)

text \<open>C36: After a key was generated and stored there was no key file before, the file has mode
  0600, the same passphrase loads the generated seed, and any other passphrase yields a
  seed only if the cipher accepts the key derived from it.\<close>
theorem keystore_round_trip:
  assumes "b64_ok C" "vault_ok L"
    and "length (dw_seed dw) = 32" "length (dw_salt dw) = 16" "length (dw_nonce dw) = 12"
    and run: "generate_and_store C L home dw passphrase w = (Finished seed, w1)"
    and same: "wd_files w2 (key_file_path home) = wd_files w1 (key_file_path home)"
  shows "wd_files w (key_file_path home) = None
    \<and> fst (load C L home passphrase w2) = Finished (Inr (dw_seed dw))
    \<and> map_option fl_mode (wd_files w1 (key_file_path home)) = Some 384
    \<and> (\<exists>key ct. kdf L passphrase (dw_salt dw) = Inr key \<and> aead_encrypt L key (dw_nonce dw) (dw_seed dw) = Inr ct
         \<and> (\<forall>other s. fst (load C L home other w2) = Finished (Inr s) \<longrightarrow>
              (\<exists>k. kdf L other (dw_salt dw) = Inr k \<and> aead_decrypt L k (dw_nonce dw) ct = Inr s)))"
proof -
  from run have new: "wd_files w (key_file_path home) = None"
    and "\<exists>u. store C L home dw (dw_seed dw) passphrase w = (Finished u, w1)"
    by (auto simp: generate_and_store_def fs_exists_def finished split: if_splits)
  then obtain key ct where k: "kdf L passphrase (dw_salt dw) = Inr key"
    and ct: "aead_encrypt L key (dw_nonce dw) (dw_seed dw) = Inr ct"
    and f: "wd_files w1 (key_file_path home) =
      Some \<lparr>fl_content = key_file_text L (seal C (dw_salt dw) (dw_nonce dw) ct), fl_mode = 384\<rparr>"
    by (auto elim!: storeE)
  have load: "load C L home p w2 = cbind (derive_aes_key L p (dw_salt dw))
      (\<lambda>aes_key. cdone (unlock L aes_key (dw_nonce dw) ct)) w2" for p
    using same f open_sealed [OF assms(1,2,4)] assms(5) by (simp add: load_def fs_read_def)
  have "unlock L key (dw_nonce dw) ct = Inr (dw_seed dw)"
    using assms(2,3) ct by (auto simp: unlock_def vault_ok_def rbind_def map_err_def)
  then have "fst (load C L home passphrase w2) = Finished (Inr (dw_seed dw))"
    by (simp add: load derive_aes_key_def expect_ok_def k cdone_def)
  moreover have "\<exists>k. kdf L other (dw_salt dw) = Inr k \<and> aead_decrypt L k (dw_nonce dw) ct = Inr s"
    if "fst (load C L home other w2) = Finished (Inr s)" for other s
    using that by (auto simp: load derive_aes_key_def expect_ok_def cbind_def cdone_def panic_def unlock_def
      rbind_eq_Inr map_err_eq_Inr split: sum.splits if_splits)
  ultimately show ?thesis using new f k ct by auto
qed

text \<open>A key file that is there is never written again.\<close>

lemma generate_refuses:
  "wd_files w (key_file_path home) = Some f \<Longrightarrow>
     generate_and_store C L home dw passphrase w = (Crashed [Lit ''already exists, refusing to overwrite''], w)"
  by (simp add: generate_and_store_def fs_exists_def panic_def)

text \<open>A mode that cannot be set leaves the new file readable by others.\<close>

lemma failed_chmod_leaves_default_mode:
  assumes "kdf L passphrase (dw_salt dw) = Inr key" "aead_encrypt L key (dw_nonce dw) (dw_seed dw) = Inr ct"
    and "wd_files w (key_file_path home) = None" "wd_writes w = [Works, Works, Fails]"
  shows "\<exists>e w'. generate_and_store C L home dw passphrase w = (Crashed e, w')
    \<and> map_option fl_mode (wd_files w' (key_file_path home)) = Some 420"
  using assms
  by (simp add: generate_and_store_def store_def derive_aes_key_def expect_ok_def or_panic_def fs_exists_def
    fs_write_def put_file_def fs_chmod_def disk_works_def disk_outcome_def cbind_def cdone_def panic_def Let_def)

text \<open>A write that is cut short leaves a part of the key file, readable by others, and no key can be made after.\<close>

lemma cut_write_blocks_the_key:
  assumes "kdf L passphrase (dw_salt dw) = Inr key" "aead_encrypt L key (dw_nonce dw) (dw_seed dw) = Inr ct"
    and "wd_files w (key_file_path home) = None" "wd_writes w = [Works, Cut n]"
  shows "\<exists>e w'. generate_and_store C L home dw passphrase w = (Crashed e, w')
    \<and> wd_files w' (key_file_path home) =
        Some \<lparr>fl_content = take n (key_file_text L (seal C (dw_salt dw) (dw_nonce dw) ct)), fl_mode = 420\<rparr>
    \<and> (\<forall>dw' p. \<exists>e'. generate_and_store C L home dw' p w' = (Crashed e', w'))"
proof -
  have "\<exists>e w'. generate_and_store C L home dw passphrase w = (Crashed e, w')
    \<and> wd_files w' (key_file_path home) =
        Some \<lparr>fl_content = take n (key_file_text L (seal C (dw_salt dw) (dw_nonce dw) ct)), fl_mode = 420\<rparr>"
    using assms
    by (simp add: generate_and_store_def store_def derive_aes_key_def expect_ok_def or_panic_def fs_exists_def
      fs_write_def put_file_def disk_works_def disk_outcome_def cbind_def cdone_def panic_def Let_def)
  with generate_refuses show ?thesis by metis
qed

text \<open>A corrupt file can crash \<open>load\<close>: the length of the nonce is not checked.\<close>

lemma short_nonce_crashes:
  assumes "open_envelope C L (map_option fl_content (wd_files w (key_file_path home))) = Inr (salt, nonce, ct)"
    and "kdf L passphrase salt = Inr key" "length nonce \<noteq> 12"
  shows "fst (load C L home passphrase w) = Crashed [Lit ''assertion failed: slice length'']"
  using assms
  by (simp add: load_def fs_read_def derive_aes_key_def expect_ok_def cbind_def cdone_def panic_def)

end
