(* ===== verification/AdminServer.thy ===== *)
theory AdminServer
  imports AdminKeystore
begin

text \<open>
  The client of the pairing server (crates/admin-cli/src/server.rs). The server is a
  parameter: a function of the request and of a state of its own, which answers with an
  error of the transport or with a status and a body, whose reading may fail. So are the
  JSON readers and writers serde derives (\<open>admin_codec\<close>).
\<close>

record client =
  cl_base_url :: string
  cl_agent_key :: string

record principal_info =
  pi_principal_id :: string
  pi_public_key :: public_key_jwk

record pairing_request =
  pg_id :: string
  pg_requested_agent_id :: string
  pg_device_label :: string
  pg_public_key :: public_key_jwk
  pg_requested_scope :: json
  pg_status :: string
  pg_created_at :: string
  pg_expires_at :: string

record rest_request =
  rr_method :: string
  rr_url :: string
  rr_agent_key :: string
  rr_body :: "bytes option"

type_synonym 's transport = "rest_request \<Rightarrow> 's \<Rightarrow> (message + nat \<times> (message + string)) \<times> 's"

text \<open>\<open>status_line\<close> is a status as \<open>StatusCode\<close> prints it.\<close>

record admin_codec =
  status_line :: "nat \<Rightarrow> string"
  de_api_error :: "string \<Rightarrow> message + string"
  de_get_principal :: "string \<Rightarrow> message + principal_info option"
  de_register :: "string \<Rightarrow> message + string"
  de_pairings :: "string \<Rightarrow> message + pairing_request list"
  de_finalize :: "string \<Rightarrow> message + string"
  en_register :: "public_key_jwk \<Rightarrow> bytes"
  en_finalize :: "string \<Rightarrow> bytes"
  de_scope :: "json \<Rightarrow> message + scope"

text \<open>What a run of the tool is given: the libraries, the home directory and the environment.\<close>

record 's tool =
  to_crypto :: crypto
  to_core :: core_codec
  to_vault :: vault
  to_codec :: admin_codec
  to_send :: "'s transport"
  to_home :: string
  to_env :: "string \<Rightarrow> string option"

definition complain :: "message \<Rightarrow> ('s, 'a) command" where
  "complain line = cbind (warn line) (\<lambda>_. exit_with 1)"

definition client_from_env :: "'s tool \<Rightarrow> ('s, client) command" where
  "client_from_env T =
     (let base_url = (case to_env T ''AAP_ADMIN_SERVER_URL'' of
            None \<Rightarrow> ''https://systems.stonewavetech.com'' | Some u \<Rightarrow> u) in
      case to_env T ''AAP_ADMIN_AGENT_KEY'' of
        None \<Rightarrow> complain [Lit ''AAP_ADMIN_AGENT_KEY is not set.'']
      | Some key \<Rightarrow> cdone \<lparr>cl_base_url = base_url, cl_agent_key = key\<rparr>)"

definition error_from_body :: "admin_codec \<Rightarrow> nat \<Rightarrow> string \<Rightarrow> message" where
  "error_from_body A status body =
     [Lit ''HTTP '', Lit (status_line A status), Lit '': '',
      Lit (case de_api_error A body of Inl _ \<Rightarrow> body | Inr e \<Rightarrow> e)]"

definition is_success :: "nat \<Rightarrow> bool" where
  "is_success status \<longleftrightarrow> 200 \<le> status \<and> status < 300"

text \<open>Sending, reading the body, and the check of the status, as each of the four calls does.\<close>

definition rest_call :: "'s tool \<Rightarrow> rest_request \<Rightarrow> ('s, message + string) command" where
  "rest_call T rq w =
     (case to_send T rq (wd_remote w) of
        (resp, s) \<Rightarrow>
          (Finished (rbind resp (\<lambda>(status, text).
             rbind text (\<lambda>body.
             if \<not> is_success status then Inl (error_from_body (to_codec T) status body) else Inr body))),
           w\<lparr>wd_remote := s\<rparr>))"

definition decoded :: "(string \<Rightarrow> message + 'a) \<Rightarrow> ('s, message + string) command \<Rightarrow> ('s, message + 'a) command" where
  "decoded de m = cbind m (\<lambda>r. cdone (rbind r de))"

definition get_my_principal :: "'s tool \<Rightarrow> client \<Rightarrow> ('s, message + principal_info option) command" where
  "get_my_principal T cl = decoded (de_get_principal (to_codec T)) (rest_call T
     \<lparr>rr_method = ''GET'', rr_url = cl_base_url cl @ ''/api/aap/principals'',
      rr_agent_key = cl_agent_key cl, rr_body = None\<rparr>)"

definition register_principal :: "'s tool \<Rightarrow> client \<Rightarrow> public_key_jwk \<Rightarrow> ('s, message + string) command" where
  "register_principal T cl public_key = decoded (de_register (to_codec T)) (rest_call T
     \<lparr>rr_method = ''POST'', rr_url = cl_base_url cl @ ''/api/aap/principals'',
      rr_agent_key = cl_agent_key cl, rr_body = Some (en_register (to_codec T) public_key)\<rparr>)"

definition list_pairing_requests :: "'s tool \<Rightarrow> client \<Rightarrow> ('s, message + pairing_request list) command" where
  "list_pairing_requests T cl = decoded (de_pairings (to_codec T)) (rest_call T
     \<lparr>rr_method = ''GET'', rr_url = cl_base_url cl @ ''/api/aap/devices/pairing-requests'',
      rr_agent_key = cl_agent_key cl, rr_body = None\<rparr>)"

definition finalize_pairing :: "'s tool \<Rightarrow> client \<Rightarrow> string \<Rightarrow> string \<Rightarrow> ('s, message + string) command" where
  "finalize_pairing T cl ident delegation_jws = decoded (de_finalize (to_codec T)) (rest_call T
     \<lparr>rr_method = ''POST'',
      rr_url = cl_base_url cl @ ''/api/aap/devices/pairing-requests/'' @ ident @ ''/finalize'',
      rr_agent_key = cl_agent_key cl, rr_body = Some (en_finalize (to_codec T) delegation_jws)\<rparr>)"

section \<open>What the calls leave alone\<close>

lemma files_kept_complain [keeps_files]: "files_kept (complain line)"
  unfolding complain_def by (intro keeps_files)

lemma files_kept_client [keeps_files]: "files_kept (client_from_env T)"
  by (auto simp: client_from_env_def Let_def intro: keeps_files split: option.split)

lemma files_kept_rest [keeps_files]: "files_kept (rest_call T rq)"
  by (auto simp: files_kept_def rest_call_def split: prod.split)

lemma files_kept_decoded [keeps_files]: "files_kept m \<Longrightarrow> files_kept (decoded de m)"
  unfolding decoded_def by (intro keeps_files)

lemma files_kept_calls [keeps_files]:
  "files_kept (get_my_principal T cl)" "files_kept (register_principal T cl k)"
  "files_kept (list_pairing_requests T cl)" "files_kept (finalize_pairing T cl i j)"
  unfolding get_my_principal_def register_principal_def list_pairing_requests_def finalize_pairing_def
  by (intro keeps_files)+

end
