(* ===== verification/AdminCli.thy ===== *)
theory AdminCli
  imports AdminServer
begin

text \<open>
  The commands of \<open>aap-admin\<close> (crates/admin-cli/src/main.rs). Summaries and results go to the
  standard output, complaints to the standard error, the two questions to the terminal
  device. The lines that are to be approved are as the code prints them; the wording of the
  other lines and prompts is shortened, and an instant in a line is its number. The sign of
  a negative zero, which \<open>{:.2}\<close> prints, is lost.
\<close>

section \<open>The terminal\<close>

definition get_passphrase :: "string \<Rightarrow> ('s, string) command" where
  "get_passphrase prompt =
     (\<lambda>w. if \<not> wd_terminal w then (Crashed [Lit ''failed to read passphrase''], w)
       else cbind (ask prompt) (\<lambda>_ w.
         case wd_typed w of
           [] \<Rightarrow> (Crashed [Lit ''failed to read passphrase''], w)
         | p # ps \<Rightarrow> (Finished p, w\<lparr>wd_typed := ps\<rparr>)) w)"

definition is_yes :: "string \<Rightarrow> bool" where
  "is_yes answer \<longleftrightarrow> to_ascii_lowercase (trim answer) = ''y''"

definition confirm_on_terminal :: "string \<Rightarrow> ('s, bool) command" where
  "confirm_on_terminal prompt w =
     (if \<not> wd_terminal w then (Crashed [Lit ''no interactive terminal available''], w)
      else cbind (ask prompt) (\<lambda>_ w.
        case wd_typed w of
          [] \<Rightarrow> (Finished (is_yes ''''), w)
        | a # as \<Rightarrow> (Finished (is_yes a), w\<lparr>wd_typed := as\<rparr>)) w)"

section \<open>What is shown\<close>

fun join_text :: "string \<Rightarrow> string list \<Rightarrow> string" where
  "join_text sep [] = []"
| "join_text sep [p] = p"
| "join_text sep (p # q # ps) = p @ sep @ join_text sep (q # ps)"

fun decimal :: "nat \<Rightarrow> string" where
  "decimal n = (if n < 10 then [char_of (48 + n)] else decimal (n div 10) @ [char_of (48 + n mod 10)])"

declare decimal.simps [simp del]

text \<open>\<open>{:.2}\<close>: the exact value rounded to hundredths, ties to even.\<close>

fun two_decimals :: "f64 \<Rightarrow> string" where
  "two_decimals NaN = ''NaN''"
| "two_decimals PInf = ''inf''"
| "two_decimals NInf = ''-inf''"
| "two_decimals (Fin q) =
     (let n = nat (round_even (\<bar>q\<bar> * 100)) in
      (if q < 0 then ''-'' else []) @ decimal (n div 100) @ ''.''
      @ [char_of (48 + n mod 100 div 10), char_of (48 + n mod 10)])"

fun day_text :: "weekday \<Rightarrow> string" where
  "day_text Mon = ''mon''"
| "day_text Tue = ''tue''"
| "day_text Wed = ''wed''"
| "day_text Thu = ''thu''"
| "day_text Fri = ''fri''"
| "day_text Sat = ''sat''"
| "day_text Sun = ''sun''"

definition en_dash :: string where "en_dash = [CHR 0xE2, CHR 0x80, CHR 0x93]"

definition window_line :: "time_window \<Rightarrow> string" where
  "window_line tw = ''time window:      '' @ join_text '','' (map day_text (w_days tw)) @ '' '' @ w_start tw
     @ en_dash @ w_end tw @ '' ('' @ w_timezone tw @ '')''"

definition counterparty_lines :: "counterparties option \<Rightarrow> string list" where
  "counterparty_lines cps =
     (case cps of
        None \<Rightarrow> []
      | Some c \<Rightarrow>
          (case cp_allow c of None \<Rightarrow> [] | Some allow \<Rightarrow> [''counterparties:   only '' @ join_text '', '' allow])
          @ (case cp_deny c of None \<Rightarrow> [] | Some deny \<Rightarrow> [''never with:       '' @ join_text '', '' deny]))"

definition render_scope :: "scope \<Rightarrow> string list" where
  "render_scope s =
     [''actions:          '' @ join_text '', '' (s_actions s),
      (case s_resources s of
         Some r \<Rightarrow> ''resources:        '' @ join_text '', '' r
       | None \<Rightarrow> ''resources:        ANY resource''),
      (case s_max_amount s of
         Some a \<Rightarrow> ''max amount:       '' @ two_decimals (a_value a) @ '' '' @ a_currency a @ '' per action''
       | None \<Rightarrow> ''max amount:       none (requests carrying an amount are denied)'')]
     @ counterparty_lines (s_counterparties s)
     @ (case s_data_categories s of None \<Rightarrow> [] | Some dc \<Rightarrow> [''data categories:  '' @ join_text '', '' dc])
     @ (case s_time_windows s of
          Some windows \<Rightarrow> map window_line windows
        | None \<Rightarrow> [''time window:      any time''])"

definition approval_lines :: "pairing_request \<Rightarrow> scope \<Rightarrow> message list" where
  "approval_lines request scope = map (\<lambda>l. [Lit l])
     ([''Pairing request '' @ pg_id request @ '':'',
       ''  device:           '' @ pg_device_label request,
       ''  agent_id:         '' @ pg_requested_agent_id request,
       ''  device key:       '' @ kty (pg_public_key request) @ '' '' @ crv (pg_public_key request) @ '' x=''
         @ jwk_x (pg_public_key request),
       ''  valid for:        365 days'',
       ''  may sub-delegate: no'']
      @ map (\<lambda>l. ''  '' @ l) (render_scope scope) @ [[]])"

definition approval_prompt :: string where
  "approval_prompt = ''Sign a Delegation for this device with exactly these parameters? [y/N] ''"

section \<open>The commands\<close>

definition pending_delegation_path :: "string \<Rightarrow> string \<Rightarrow> string" where
  "pending_delegation_path home ident =
     path_join (path_join (admin_dir home) ''pending-delegations'') (ident @ ''.jws'')"

definition ensure_key :: "'s tool \<Rightarrow> draws \<Rightarrow> ('s, unit) command" where
  "ensure_key T dw =
     cbind (key_exists (to_home T)) (\<lambda>there.
     if there then say [Lit ''Local principal key already exists.'']
     else
     cbind (say [Lit ''No local principal key found, generating one now.'']) (\<lambda>_.
     cbind (get_passphrase ''Choose a passphrase to encrypt it at rest: '') (\<lambda>passphrase.
     cbind (get_passphrase ''Confirm passphrase: '') (\<lambda>confirm.
     if passphrase \<noteq> confirm then complain [Lit ''Passphrases did not match, aborting.'']
     else
     cbind (generate_and_store (to_crypto T) (to_vault T) (to_home T) dw passphrase) (\<lambda>_.
     say [Lit ''Local key written.''])))))"

definition register_key :: "'s tool \<Rightarrow> client \<Rightarrow> ('s, unit) command" where
  "register_key T cl =
     cbind (say [Lit ''No principal registered on the server yet, registering now.'']) (\<lambda>_.
     cbind (get_passphrase ''Passphrase to unlock the local key: '') (\<lambda>passphrase.
     cbind (load (to_crypto T) (to_vault T) (to_home T) passphrase) (\<lambda>r.
     case r of
       Inl e \<Rightarrow> complain (Lit ''Could not unlock local key: '' # e)
     | Inr seed \<Rightarrow>
         cbind (register_principal T cl (public_jwk (to_crypto T) (from_ed25519_bytes seed))) (\<lambda>res.
         case res of
           Inl e \<Rightarrow> complain (Lit ''Registration failed: '' # e)
         | Inr pid \<Rightarrow> say [Lit ''Registered with the server as principal_id: '', Lit pid]))))"

definition cmd_key_init :: "'s tool \<Rightarrow> draws \<Rightarrow> ('s, unit) command" where
  "cmd_key_init T dw =
     cbind (client_from_env T) (\<lambda>cl.
     cbind (ensure_key T dw) (\<lambda>_.
     cbind (get_my_principal T cl) (\<lambda>r.
     case r of
       Inr (Some info) \<Rightarrow> say [Lit ''Server already has a principal registered: '', Lit (pi_principal_id info)]
     | Inr None \<Rightarrow> register_key T cl
     | Inl e \<Rightarrow> complain (Lit ''Could not check server registration status: '' # e))))"

definition pairing_line :: "pairing_request \<Rightarrow> message" where
  "pairing_line r = [Lit (pg_id r @ ''  agent_id='' @ pg_requested_agent_id r @ ''  label='' @ [CHR 0x22]
     @ pg_device_label r @ [CHR 0x22] @ ''  status='' @ pg_status r @ ''  created_at='' @ pg_created_at r
     @ ''  expires_at='' @ pg_expires_at r)]"

definition cmd_pairing_list :: "'s tool \<Rightarrow> ('s, unit) command" where
  "cmd_pairing_list T =
     cbind (client_from_env T) (\<lambda>cl.
     cbind (list_pairing_requests T cl) (\<lambda>r.
     case r of
       Inl e \<Rightarrow> complain (Lit ''Failed to list pairing requests: '' # e)
     | Inr requests \<Rightarrow>
         if requests = [] then say [Lit ''No open pairing requests.''] else say_all (map pairing_line requests)))"

definition days_365 :: int where "days_365 = 365 * 24 * 60 * 60 * 10 ^ 9"

definition pairing_params :: "string \<Rightarrow> pairing_request \<Rightarrow> scope \<Rightarrow> delegation_params" where
  "pairing_params pid request scope =
     \<lparr>p_principal_id = pid, p_principal_type = NaturalPerson,
      p_agent_id = pg_requested_agent_id request, p_agent_public_key = pg_public_key request,
      p_scope = scope, p_valid_for = days_365,
      p_status_endpoint = ''https://systems.stonewavetech.com/api/aap/devices/''
        @ pg_requested_agent_id request @ ''/status'',
      p_can_delegate = False, p_max_delegation_depth = None, p_parent_delegation_id = None,
      p_metadata = None\<rparr>"

definition find_request :: "'s tool \<Rightarrow> string \<Rightarrow> ('s, pairing_request \<times> scope) command" where
  "find_request T ident =
     cbind (client_from_env T) (\<lambda>cl.
     cbind (list_pairing_requests T cl) (\<lambda>r.
     case r of
       Inl e \<Rightarrow> complain (Lit ''Failed to fetch pairing requests: '' # e)
     | Inr requests \<Rightarrow>
         (case find (\<lambda>r. pg_id r = ident) requests of
            None \<Rightarrow> complain [Lit ''No open pairing request with id '', Lit ident]
          | Some request \<Rightarrow>
              (case de_scope (to_codec T) (pg_requested_scope request) of
                 Inl e \<Rightarrow> complain (Lit ''Requested scope is not a valid Scope object: '' # e)
               | Inr scope \<Rightarrow> cdone (request, scope)))))"

definition unlock_key :: "'s tool \<Rightarrow> ('s, bytes) command" where
  "unlock_key T =
     cbind (get_passphrase ''Passphrase to unlock the local principal key: '') (\<lambda>passphrase.
     cbind (load (to_crypto T) (to_vault T) (to_home T) passphrase) (\<lambda>r.
     case r of
       Inl e \<Rightarrow> complain (Lit ''Could not unlock local key: '' # e)
     | Inr seed \<Rightarrow> cdone seed))"

definition my_principal_id :: "'s tool \<Rightarrow> ('s, string) command" where
  "my_principal_id T =
     cbind (client_from_env T) (\<lambda>cl.
     cbind (get_my_principal T cl) (\<lambda>r.
     case r of
       Inr (Some info) \<Rightarrow> cdone (pi_principal_id info)
     | Inr None \<Rightarrow> complain [Lit ''No principal registered on the server'']
     | Inl e \<Rightarrow> complain (Lit ''Could not look up principal_id: '' # e)))"

definition save_delegation :: "'s tool \<Rightarrow> string \<Rightarrow> jws_error + issued_delegation \<Rightarrow> ('s, unit) command" where
  "save_delegation T ident outcome_of_signing =
     (case outcome_of_signing of
        Inl e \<Rightarrow> complain (Lit ''Signing failed: '' # jws_error_text e)
      | Inr issued \<Rightarrow>
          cbind (or_panic ''could not create pending-delegations dir'' disk_works) (\<lambda>_.
          cbind (or_panic ''could not write signed delegation''
             (fs_write (pending_delegation_path (to_home T) ident) (id_jws issued))) (\<lambda>_.
          say_all [[], [Lit ''Signed. Delegation valid until '', Num (valid_until (id_payload issued))],
            [Lit ''Saved to '', Lit (pending_delegation_path (to_home T) ident)],
            [Lit ''  aap-admin pairing finalize '', Lit ident]])))"

definition sign_approved :: "'s tool \<Rightarrow> draws \<Rightarrow> string \<Rightarrow> pairing_request \<Rightarrow> scope \<Rightarrow> ('s, unit) command" where
  "sign_approved T dw ident request scope =
     cbind (unlock_key T) (\<lambda>seed.
     cbind (my_principal_id T) (\<lambda>pid.
     save_delegation T ident (delegation_issue (to_crypto T) (to_core T) (from_ed25519_bytes seed)
       (dw_uuid dw) (dw_now dw) (pairing_params pid request scope))))"

definition cmd_pairing_sign :: "'s tool \<Rightarrow> draws \<Rightarrow> string \<Rightarrow> ('s, unit) command" where
  "cmd_pairing_sign T dw ident =
     cbind (find_request T ident) (\<lambda>(request, scope).
     cbind (say_all (approval_lines request scope)) (\<lambda>_.
     cbind (confirm_on_terminal approval_prompt) (\<lambda>yes.
     if \<not> yes then say [Lit ''Aborted, nothing signed.'']
     else sign_approved T dw ident request scope)))"

text \<open>\<open>fs::remove_file(&path).ok()\<close>: a failure to remove is not looked at.\<close>

definition finalize_answer :: "string \<Rightarrow> message + string \<Rightarrow> ('s, unit) command" where
  "finalize_answer path r =
     (case r of
        Inr did \<Rightarrow>
          cbind (say [Lit ''Pairing finalized. delegation_id: '', Lit did]) (\<lambda>_.
          cbind (fs_remove path) (\<lambda>_. cdone ()))
      | Inl e \<Rightarrow>
          cbind (warn (Lit ''Finalize failed: '' # e)) (\<lambda>_.
          complain [Lit ''The signed delegation is still saved at '', Lit path]))"

definition cmd_pairing_finalize :: "'s tool \<Rightarrow> string \<Rightarrow> ('s, unit) command" where
  "cmd_pairing_finalize T ident =
     (let path = pending_delegation_path (to_home T) ident in
      cbind (fs_read path) (\<lambda>read.
      case read of
        None \<Rightarrow> complain [Lit ''No signed delegation found for '', Lit ident]
      | Some jws \<Rightarrow>
          cbind (client_from_env T) (\<lambda>cl.
          cbind (finalize_pairing T cl ident jws) (finalize_answer path))))"

datatype admin_command =
    KeyInit draws
  | PairingList
  | PairingSign draws string
  | PairingFinalize string

fun admin_main :: "'s tool \<Rightarrow> admin_command \<Rightarrow> ('s, unit) command" where
  "admin_main T (KeyInit dw) = cmd_key_init T dw"
| "admin_main T PairingList = cmd_pairing_list T"
| "admin_main T (PairingSign dw ident) = cmd_pairing_sign T dw ident"
| "admin_main T (PairingFinalize ident) = cmd_pairing_finalize T ident"

end
