(* ===== verification/AdminFacts.thy ===== *)
theory AdminFacts
  imports AdminCli "HOL-Library.Sublist"
begin

text \<open>
  What the commands of \<open>aap-admin\<close> do to the files, and what was printed and typed before:
  nothing is signed that was not written to the standard output and then confirmed at the
  terminal device, the key file is never written again, and a signed delegation is kept
  until the server has accepted it.
\<close>

section \<open>Files and what is printed\<close>

lemma files_kept_case_sum [keeps_files]:
  "(\<And>e. files_kept (f e)) \<Longrightarrow> (\<And>a. files_kept (g a)) \<Longrightarrow> files_kept (case q of Inl e \<Rightarrow> f e | Inr a \<Rightarrow> g a)"
  by (cases q) simp_all

lemma files_kept_case_option [keeps_files]:
  "files_kept m \<Longrightarrow> (\<And>a. files_kept (g a)) \<Longrightarrow> files_kept (case q of None \<Rightarrow> m | Some a \<Rightarrow> g a)"
  by (cases q) simp_all

lemma files_kept_terminal [keeps_files]:
  "files_kept (get_passphrase prompt)" "files_kept (confirm_on_terminal prompt)"
  by (auto simp: files_kept_def get_passphrase_def confirm_on_terminal_def cbind_def ask_def print_to_def
    split: list.split)

lemma files_kept_parts [keeps_files]:
  "files_kept (find_request T ident)" "files_kept (unlock_key T)" "files_kept (my_principal_id T)"
  "files_kept (register_key T cl)" "files_kept (cmd_pairing_list T)"
  unfolding find_request_def unlock_key_def my_principal_id_def register_key_def cmd_pairing_list_def
  by (intro keeps_files)+

text \<open>A change of the files happens after a part that keeps them.\<close>

lemma changed_later:
  assumes "cbind m f w = (r, w')" "wd_files w' \<noteq> wd_files w" "files_kept m"
  obtains a w1 where "m w = (Finished a, w1)" "f a w1 = (r, w')" "wd_files w1 = wd_files w"
    "wd_files w' \<noteq> wd_files w1"
  using assms(1)
proof (cases rule: cbindE)
  case (goes a w1)
  from files_keptD [OF assms(3) goes(1)] assms(2) show thesis by (intro that [OF goes]) auto
qed (use assms(2) files_keptD [OF assms(3)] in auto)

text \<open>Printed lines stay.\<close>

named_theorems lines_stay

definition grows :: "('s, 'a) command \<Rightarrow> bool" where
  "grows m \<longleftrightarrow> (\<forall>w. prefix (wd_printed w) (wd_printed (snd (m w))))"

lemma growsD: "grows m \<Longrightarrow> m w = (r, w') \<Longrightarrow> prefix (wd_printed w) (wd_printed w')"
  unfolding grows_def by (metis snd_conv)

lemma grows_bind [lines_stay]:
  assumes "grows m" "\<And>a. grows (f a)"
  shows "grows (cbind m f)"
proof (unfold grows_def, intro allI)
  fix w
  obtain r w' where run: "cbind m f w = (r, w')" by (metis surj_pair)
  then have "prefix (wd_printed w) (wd_printed w')"
    using growsD [OF assms(1)] growsD [OF assms(2)]
    by (cases rule: cbindE) (metis prefix_order.trans)+
  with run show "prefix (wd_printed w) (wd_printed (snd (cbind m f w)))" by simp
qed

lemma grows_basic [lines_stay]:
  "grows (cdone a)" "grows (exit_with code)" "grows (panic e)" "grows (say l)" "grows disk_works"
  "grows (fs_exists p)" "grows (fs_read p)" "grows (rest_call T rq)" "grows (get_passphrase prompt)"
  "grows (confirm_on_terminal prompt)" "grows (warn l)" "grows disk_outcome"
  by (auto simp: grows_def cdone_def exit_with_def panic_def say_def warn_def ask_def print_to_def disk_works_def
    disk_outcome_def fs_exists_def fs_read_def rest_call_def get_passphrase_def confirm_on_terminal_def cbind_def
    split: list.split prod.split)

lemma grows_disk [lines_stay]: "grows (fs_write p c)"
  by (auto simp: grows_def fs_write_def put_file_def cbind_def disk_outcome_def
    split: list.split disk_outcome.split)

lemma grows_cases [lines_stay]:
  "grows m \<Longrightarrow> grows m' \<Longrightarrow> grows (if b then m else m')"
  "(\<And>e. grows (f e)) \<Longrightarrow> (\<And>a. grows (g a)) \<Longrightarrow> grows (case q of Inl e \<Rightarrow> f e | Inr a \<Rightarrow> g a)"
  "grows m \<Longrightarrow> (\<And>a. grows (h a)) \<Longrightarrow> grows (case y of None \<Rightarrow> m | Some a \<Rightarrow> h a)"
  by (simp, cases q, simp_all, cases y, simp_all)

lemma grows_say_all [lines_stay]: "grows (say_all ls)"
  by (induction ls) (auto intro!: lines_stay)

lemma grows_parts [lines_stay]:
  "grows (complain l)" "grows (expect_ok q e)" "grows (load C L home p)"
  unfolding complain_def expect_ok_def load_def derive_aes_key_def
  by (auto intro!: lines_stay split: sum.split)

lemma grows_or_panic [lines_stay]: "grows m \<Longrightarrow> grows (or_panic e m)"
  unfolding or_panic_def by (intro lines_stay)

lemma grows_more [lines_stay]:
  "grows m \<Longrightarrow> grows (decoded de m)" "grows (client_from_env T)" "grows (get_my_principal T cl)"
  "grows (unlock_key T)" "grows (my_principal_id T)" "grows (save_delegation T ident q)"
  unfolding decoded_def client_from_env_def get_my_principal_def unlock_key_def my_principal_id_def
    save_delegation_def Let_def
  by (intro lines_stay | assumption)+

section \<open>Signing\<close>

text \<open>What a command that finished went through, at its branches.\<close>

lemma case_sum_Finished:
  "(case q of Inl e \<Rightarrow> f e | Inr a \<Rightarrow> g a) w = (Finished b, w') \<longleftrightarrow>
     (\<exists>e. q = Inl e \<and> f e w = (Finished b, w')) \<or> (\<exists>a. q = Inr a \<and> g a w = (Finished b, w'))"
  by (cases q) simp_all

lemma case_option_Finished:
  "(case y of None \<Rightarrow> m | Some a \<Rightarrow> g a) w = (Finished b, w') \<longleftrightarrow>
     (y = None \<and> m w = (Finished b, w')) \<or> (\<exists>a. y = Some a \<and> g a w = (Finished b, w'))"
  by (cases y) simp_all

lemma complain_not_Finished: "complain l w = (Finished b, w') \<longleftrightarrow> False"
  by (simp add: complain_def cbind_def warn_def print_to_def exit_with_def)

lemmas branches = finished case_sum_Finished case_option_Finished complain_not_Finished

lemma say_all_run:
  "say_all ls w = (Finished (), w\<lparr>wd_printed := wd_printed w @ map (Pair Stdout) ls\<rparr>)"
  by (induction ls arbitrary: w) (simp_all add: cdone_def cbind_def say_def print_to_def)

text \<open>Looking up the request only asks the server.\<close>

lemma find_request_Finished:
  assumes "find_request T ident w = (Finished (request, scope), w')"
  shows "pg_id request = ident" "de_scope (to_codec T) (pg_requested_scope request) = Inr scope"
    "\<exists>s. w' = w\<lparr>wd_remote := s\<rparr>"
proof -
  from assms obtain cl w1 requests where cl: "client_from_env T w = (Finished cl, w1)"
    and q: "list_pairing_requests T cl w1 = (Finished (Inr requests), w')"
    and req: "find (\<lambda>r. pg_id r = ident) requests = Some request"
    and sc: "de_scope (to_codec T) (pg_requested_scope request) = Inr scope"
    unfolding find_request_def branches by blast
  from cl have "w1 = w"
    unfolding client_from_env_def Let_def branches by blast
  moreover from q have "\<exists>s. w' = w1\<lparr>wd_remote := s\<rparr>"
    unfolding list_pairing_requests_def decoded_def branches rest_call_def by (auto split: prod.splits)
  ultimately show "\<exists>s. w' = w\<lparr>wd_remote := s\<rparr>" by simp
  from req show "pg_id request = ident" by (auto simp: find_Some_iff)
  show "de_scope (to_codec T) (pg_requested_scope request) = Inr scope" by (rule sc)
qed

lemma confirmed:
  assumes "confirm_on_terminal prompt w = (Finished True, w')"
  shows "wd_terminal w \<and> (\<exists>answer rest. wd_typed w = answer # rest \<and> is_yes answer
    \<and> w' = w\<lparr>wd_printed := wd_printed w @ [(Tty, [Lit prompt])], wd_typed := rest\<rparr>)"
proof -
  have "\<not> is_yes []" by (simp add: is_yes_def trim_def trim_front.simps to_ascii_lowercase_def white_spaces_def)
  with assms show ?thesis
    by (auto simp: confirm_on_terminal_def cbind_Finished ask_def print_to_def split: if_splits list.splits)
qed

lemma load_files: "wd_files w = wd_files w' \<Longrightarrow> fst (load C L home p w) = fst (load C L home p w')"
  by (auto simp: load_def fs_read_def derive_aes_key_def expect_ok_def cbind_def cdone_def panic_def
    split: sum.split)

lemma unlocked:
  assumes "unlock_key T w = (Finished seed, w')"
  shows "\<exists>passphrase rest. wd_typed w = passphrase # rest
    \<and> fst (load (to_crypto T) (to_vault T) (to_home T) passphrase w) = Finished (Inr seed)"
proof -
  from assms obtain passphrase w1 where p: "get_passphrase ''Passphrase to unlock the local principal key: '' w
      = (Finished passphrase, w1)"
    and l: "load (to_crypto T) (to_vault T) (to_home T) passphrase w1 = (Finished (Inr seed), w')"
    unfolding unlock_key_def branches by blast
  from p obtain rest where typed: "wd_typed w = passphrase # rest" and files: "wd_files w1 = wd_files w"
    by (auto simp: get_passphrase_def cbind_Finished ask_def print_to_def split: if_splits list.splits)
  have "fst (load (to_crypto T) (to_vault T) (to_home T) passphrase w) = Finished (Inr seed)"
    unfolding load_files [OF files [symmetric]] by (simp add: l)
  with typed show ?thesis by blast
qed

lemma save_delegation_saves:
  assumes "save_delegation T ident q w = (r, w')" "wd_files w' \<noteq> wd_files w"
  shows "\<exists>issued f. q = Inr issued \<and> prefix (fl_content f) (id_jws issued)
    \<and> (r = Finished () \<longrightarrow> fl_content f = id_jws issued)
    \<and> wd_files w' = (wd_files w)(pending_delegation_path (to_home T) ident \<mapsto> f)"
proof (cases q)
  case (Inl e)
  with assms show ?thesis by (auto simp: save_delegation_def dest: files_keptD [OF files_kept_complain])
next
  case (Inr issued)
  let ?path = "pending_delegation_path (to_home T) ident"
  have dir: "files_kept (or_panic e disk_works)" for e :: string
    unfolding or_panic_def by (intro keeps_files)
  from Inr assms(1) obtain rest where
    "cbind (or_panic ''could not create pending-delegations dir'' disk_works)
      (\<lambda>_. cbind (or_panic ''could not write signed delegation'' (fs_write ?path (id_jws issued))) (\<lambda>_. say_all rest)) w
      = (r, w')"
    unfolding save_delegation_def by (simp del: say_all.simps)
  from changed_later [OF this assms(2) dir] obtain w1 where
    w1: "cbind (or_panic ''could not write signed delegation'' (fs_write ?path (id_jws issued))) (\<lambda>_. say_all rest) w1
      = (r, w')" "wd_files w1 = wd_files w" "wd_files w' \<noteq> wd_files w1"
    by blast
  obtain b w2 where wr: "fs_write ?path (id_jws issued) w1 = (Finished b, w2)"
    using fs_write_Finished [of ?path "id_jws issued" w1] by (cases "fs_write ?path (id_jws issued) w1") auto
  have r: "wd_files w' = wd_files w2" "r = Finished () \<longrightarrow> b"
    using w1(1) by (cases b; simp add: or_panic_def cbind_def wr cdone_def panic_def say_all_run; auto)+
  from fs_write_files [OF wr] r w1(3) obtain n where
    n: "wd_files w' = wd_files (put_file ?path (take n (id_jws issued)) w1)"
      "r = Finished () \<longrightarrow> take n (id_jws issued) = id_jws issued"
    by auto
  then show ?thesis
    using Inr w1(2) take_is_prefix [of n "id_jws issued"]
    by (intro exI [of _ issued] exI [of _ "the (wd_files w' ?path)"]) (simp add: put_file_def)
qed

lemma sign_approved_saves:
  assumes "sign_approved T dw ident request scope w = (r, w')" "wd_files w' \<noteq> wd_files w"
  obtains passphrase typed seed pid issued f lines where "wd_typed w = passphrase # typed"
    "fst (load (to_crypto T) (to_vault T) (to_home T) passphrase w) = Finished (Inr seed)"
    "delegation_issue (to_crypto T) (to_core T) (from_ed25519_bytes seed) (dw_uuid dw) (dw_now dw)
      (pairing_params pid request scope) = Inr issued"
    "prefix (fl_content f) (id_jws issued)" "r = Finished () \<longrightarrow> fl_content f = id_jws issued"
    "wd_files w' = (wd_files w)(pending_delegation_path (to_home T) ident \<mapsto> f)"
    "wd_printed w' = wd_printed w @ lines"
proof -
  have "grows (sign_approved T dw ident request scope)"
    unfolding sign_approved_def by (intro lines_stay)
  from growsD [OF this assms(1)] obtain lines where lines: "wd_printed w' = wd_printed w @ lines"
    by (auto simp: prefix_def)
  from changed_later [OF assms(1) [unfolded sign_approved_def] assms(2) files_kept_parts(2)] obtain seed w1 where
    f1: "unlock_key T w = (Finished seed, w1)" and r1: "cbind (my_principal_id T) (\<lambda>pid.
     save_delegation T ident (delegation_issue (to_crypto T) (to_core T) (from_ed25519_bytes seed)
       (dw_uuid dw) (dw_now dw) (pairing_params pid request scope))) w1 = (r, w')"
    and c1: "wd_files w1 = wd_files w" "wd_files w' \<noteq> wd_files w1" by blast
  from changed_later [OF r1 c1(2) files_kept_parts(3)] obtain pid w2 where
    r2: "save_delegation T ident (delegation_issue (to_crypto T) (to_core T) (from_ed25519_bytes seed)
       (dw_uuid dw) (dw_now dw) (pairing_params pid request scope)) w2 = (r, w')"
    and c2: "wd_files w2 = wd_files w1" "wd_files w' \<noteq> wd_files w2" by blast
  from save_delegation_saves [OF r2 c2(2)] unlocked [OF f1] lines c1(1) c2(1) show thesis
    by (metis that)
qed

lemma shown_then_approved:
  assumes "cmd_pairing_sign T dw ident w = (r, w')" "wd_files w' \<noteq> wd_files w"
  obtains request scope answer rest w1 where "pg_id request = ident"
    "de_scope (to_codec T) (pg_requested_scope request) = Inr scope"
    "wd_terminal w" "wd_typed w = answer # rest" "is_yes answer"
    "sign_approved T dw ident request scope w1 = (r, w')" "wd_files w1 = wd_files w" "wd_typed w1 = rest"
    "wd_printed w1 = wd_printed w @ map (Pair Stdout) (approval_lines request scope) @ [(Tty, [Lit approval_prompt])]"
proof -
  obtain request scope w1 where f1: "find_request T ident w = (Finished (request, scope), w1)"
    and r1: "cbind (say_all (approval_lines request scope)) (\<lambda>_.
     cbind (confirm_on_terminal approval_prompt) (\<lambda>yes.
     if \<not> yes then say [Lit ''Aborted, nothing signed.''] else sign_approved T dw ident request scope)) w1 = (r, w')"
    and c1: "wd_files w' \<noteq> wd_files w1"
    by (rule changed_later [OF assms(1) [unfolded cmd_pairing_sign_def] assms(2) files_kept_parts(1)])
      (auto split: prod.splits)
  obtain s where w1: "w1 = w\<lparr>wd_remote := s\<rparr>" using find_request_Finished(3) [OF f1] by blast
  let ?w2 = "w1\<lparr>wd_printed := wd_printed w1 @ map (Pair Stdout) (approval_lines request scope)\<rparr>"
  from r1 have r2: "cbind (confirm_on_terminal approval_prompt) (\<lambda>yes.
     if \<not> yes then say [Lit ''Aborted, nothing signed.''] else sign_approved T dw ident request scope) ?w2 = (r, w')"
    by (simp add: say_all_run)
  from c1 have "wd_files w' \<noteq> wd_files ?w2" by simp
  from changed_later [OF r2 this files_kept_terminal(2)] obtain yes w3 where
    f3: "confirm_on_terminal approval_prompt ?w2 = (Finished yes, w3)"
    and r3: "(if \<not> yes then say [Lit ''Aborted, nothing signed.'']
       else sign_approved T dw ident request scope) w3 = (r, w')"
    and c3: "wd_files w3 = wd_files ?w2" "wd_files w' \<noteq> wd_files w3" by blast
  have yes: "yes = True" using r3 c3(2) by (cases yes) (auto simp: say_def print_to_def)
  from confirmed [OF f3 [unfolded yes]] obtain answer rest where a: "wd_terminal w" "wd_typed w = answer # rest"
    "is_yes answer" and w3: "w3 = ?w2\<lparr>wd_printed := wd_printed ?w2 @ [(Tty, [Lit approval_prompt])], wd_typed := rest\<rparr>"
    using w1 by auto
  from r3 yes have "sign_approved T dw ident request scope w3 = (r, w')" by simp
  from that [OF find_request_Finished(1,2) [OF f1] a this] w1 w3 show thesis by simp
qed

text \<open>C25: If pairing sign changes any file, a summary with the device, the agent, the x
  coordinate of its key and every part of the scope of the request was written to the
  standard output, then the question to the terminal device, then a line saying y was read
  from that device and a passphrase that unlocks the key; the one file written is the
  pending delegation, issued by the unlocked key for exactly that request and scope, whole
  if the command ends normally and otherwise perhaps a first part of it. That the standard
  output was seen, and that a human typed, is not shown: it may be redirected, and a
  process can drive a pseudo-terminal.\<close>
theorem signed_is_approved:
  assumes "cmd_pairing_sign T dw ident w = (r, w')" "wd_files w' \<noteq> wd_files w"
  shows "\<exists>request scope answer passphrase typed seed pid issued f lines.
    pg_id request = ident \<and> de_scope (to_codec T) (pg_requested_scope request) = Inr scope
    \<and> wd_terminal w \<and> wd_typed w = answer # passphrase # typed \<and> is_yes answer
    \<and> wd_printed w' = wd_printed w @ map (Pair Stdout) (approval_lines request scope) @ [(Tty, [Lit approval_prompt])] @ lines
    \<and> fst (load (to_crypto T) (to_vault T) (to_home T) passphrase w) = Finished (Inr seed)
    \<and> delegation_issue (to_crypto T) (to_core T) (from_ed25519_bytes seed) (dw_uuid dw) (dw_now dw)
        (pairing_params pid request scope) = Inr issued
    \<and> prefix (fl_content f) (id_jws issued) \<and> (r = Finished () \<longrightarrow> fl_content f = id_jws issued)
    \<and> wd_files w' = (wd_files w)(pending_delegation_path (to_home T) ident \<mapsto> f)"
proof -
  obtain request scope answer rest w1 where req: "pg_id request = ident"
    "de_scope (to_codec T) (pg_requested_scope request) = Inr scope"
    and seen: "wd_terminal w" "wd_typed w = answer # rest" "is_yes answer"
    and run: "sign_approved T dw ident request scope w1 = (r, w')"
    and w1: "wd_files w1 = wd_files w" "wd_typed w1 = rest"
      "wd_printed w1 = wd_printed w @ map (Pair Stdout) (approval_lines request scope) @ [(Tty, [Lit approval_prompt])]"
    by (rule shown_then_approved [OF assms])
  have "wd_files w' \<noteq> wd_files w1" using assms(2) w1(1) by simp
  from run this obtain passphrase typed seed pid issued f lines where "wd_typed w1 = passphrase # typed"
    "fst (load (to_crypto T) (to_vault T) (to_home T) passphrase w1) = Finished (Inr seed)"
    "delegation_issue (to_crypto T) (to_core T) (from_ed25519_bytes seed) (dw_uuid dw) (dw_now dw)
      (pairing_params pid request scope) = Inr issued"
    "prefix (fl_content f) (id_jws issued)" "r = Finished () \<longrightarrow> fl_content f = id_jws issued"
    "wd_files w' = (wd_files w1)(pending_delegation_path (to_home T) ident \<mapsto> f)"
    "wd_printed w' = wd_printed w1 @ lines" by (rule sign_approved_saves)
  with req seen w1 load_files [OF w1(1)] show ?thesis
    by (intro exI [of _ request] exI [of _ scope] exI [of _ answer] exI [of _ passphrase] exI [of _ typed]
      exI [of _ seed] exI [of _ pid] exI [of _ issued] exI [of _ f] exI [of _ lines]) simp
qed

section \<open>The key file\<close>

lemma last_path_join: "p \<noteq> [] \<Longrightarrow> last (path_join base p) = last p"
  by (simp add: path_join_def)

lemma pending_is_not_key: "pending_delegation_path home ident \<noteq> key_file_path home"
proof
  assume "pending_delegation_path home ident = key_file_path home"
  then have "last (pending_delegation_path home ident) = last (key_file_path home)" by simp
  then show False by (simp add: pending_delegation_path_def key_file_path_def last_path_join)
qed

text \<open>Commands that leave one file as it is, once it is there.\<close>

definition leaves :: "string \<Rightarrow> ('s, 'a) command \<Rightarrow> bool" where
  "leaves p m \<longleftrightarrow> (\<forall>w. wd_files w p \<noteq> None \<longrightarrow> wd_files (snd (m w)) p = wd_files w p)"

named_theorems file_left

lemma leavesD: "leaves p m \<Longrightarrow> m w = (r, w') \<Longrightarrow> wd_files w p \<noteq> None \<Longrightarrow> wd_files w' p = wd_files w p"
  unfolding leaves_def by (metis snd_conv)

lemma leaves_kept: "files_kept m \<Longrightarrow> leaves p m"
  by (simp add: leaves_def files_kept_def)

lemma leaves_bind [file_left]:
  assumes "leaves p (m :: ('s, 'a) command)" "\<And>a. leaves p (f a)"
  shows "leaves p (cbind m f)"
proof (unfold leaves_def, intro allI impI)
  fix w :: "'s world" assume there: "wd_files w p \<noteq> None"
  obtain r w' where run: "cbind m f w = (r, w')" by (metis surj_pair)
  then have "wd_files w' p = wd_files w p"
    using leavesD [OF assms(1) _ there] leavesD [OF assms(2)] there by (cases rule: cbindE) metis+
  with run show "wd_files (snd (cbind m f w)) p = wd_files w p" by simp
qed

lemma leaves_cases [file_left]:
  "leaves p m \<Longrightarrow> leaves p m' \<Longrightarrow> leaves p (if b then m else m')"
  "(\<And>e. leaves p (f e)) \<Longrightarrow> (\<And>a. leaves p (g a)) \<Longrightarrow> leaves p (case q of Inl e \<Rightarrow> f e | Inr a \<Rightarrow> g a)"
  "leaves p m \<Longrightarrow> (\<And>a. leaves p (h a)) \<Longrightarrow> leaves p (case y of None \<Rightarrow> m | Some a \<Rightarrow> h a)"
  by (simp, cases q, simp_all, cases y, simp_all)

lemma leaves_disk [file_left]:
  assumes "p' \<noteq> p"
  shows "leaves p (fs_write p' c)" "leaves p (fs_remove p')"
  using assms by (auto simp: leaves_def fs_write_def put_file_def fs_remove_def cbind_def disk_works_def
    disk_outcome_def cdone_def split: list.split disk_outcome.split)

lemma leaves_say_all: "leaves p (say_all ls)"
  by (rule leaves_kept [OF files_kept_say_all])

lemma leaves_generate [file_left]: "leaves (key_file_path home) (generate_and_store C L home dw passphrase)"
  by (auto simp: leaves_def generate_refuses)

text \<open>C38: No command of the tool ever changes or removes the key file once it is there,
  whatever is typed, the server answers and the disk does.\<close>
theorem key_file_is_never_rewritten:
  assumes "wd_files w (key_file_path (to_home T)) = Some f"
  shows "wd_files (snd (admin_main T command w)) (key_file_path (to_home T)) = Some f"
proof -
  let ?key = "key_file_path (to_home T)"
  have "leaves ?key (cmd_key_init T dw)" for dw
    unfolding cmd_key_init_def ensure_key_def key_exists_def
    by (intro file_left leaves_kept keeps_files)
  moreover have "leaves ?key (cmd_pairing_list T)" by (intro leaves_kept keeps_files)
  moreover have "leaves ?key (save_delegation T ident q)" for ident q
    unfolding save_delegation_def or_panic_def
    by (intro file_left pending_is_not_key leaves_say_all | intro leaves_kept keeps_files)+
  then have "leaves ?key (cmd_pairing_sign T dw ident)" for dw ident
    unfolding cmd_pairing_sign_def sign_approved_def case_prod_beta
    by (intro file_left | assumption | intro leaves_kept keeps_files)+
  moreover have "leaves ?key (cmd_pairing_finalize T ident)" for ident
    unfolding cmd_pairing_finalize_def finalize_answer_def Let_def
    by (intro file_left pending_is_not_key | intro leaves_kept keeps_files)+
  ultimately have "leaves ?key (admin_main T command)" by (cases command) simp_all
  with assms show ?thesis by (simp add: leaves_def)
qed

section \<open>Finalizing\<close>

lemma finalize_answer_removes:
  assumes "finalize_answer path q w = (r, w')" "wd_files w' \<noteq> wd_files w"
  shows "\<exists>did. q = Inr did \<and> r = Finished () \<and> wd_files w' = (wd_files w)(path := None)
    \<and> wd_printed w' = wd_printed w @ [(Stdout, [Lit ''Pairing finalized. delegation_id: '', Lit did])]"
proof (cases q)
  case (Inl e)
  then have "files_kept (finalize_answer path q :: ('a, unit) command)"
    unfolding finalize_answer_def by (simp add: keeps_files)
  from files_keptD [OF this assms(1)] assms(2) show ?thesis by simp
next
  case (Inr did)
  with assms show ?thesis
    by (auto simp: finalize_answer_def cbind_def say_def print_to_def fs_remove_def disk_works_def
      disk_outcome_def cdone_def split: list.splits if_splits)
qed

lemma finalize_pairing_keeps:
  "finalize_pairing T cl ident jws w = (Finished q, w') \<Longrightarrow>
     wd_files w' = wd_files w \<and> wd_printed w' = wd_printed w"
  by (auto simp: finalize_pairing_def decoded_def cbind_Finished cdone_Finished rest_call_def split: prod.splits)

lemma client_from_env_keeps: "client_from_env T w = (Finished cl, w') \<Longrightarrow> w' = w"
  unfolding client_from_env_def Let_def branches by blast

text \<open>C39: pairing finalize changes the files only by removing the pending delegation it has
  read and sent, and only after the server accepted exactly that JWS.\<close>
theorem delegation_kept_until_accepted:
  assumes "cmd_pairing_finalize T ident w = (r, w')" "wd_files w' \<noteq> wd_files w"
  shows "\<exists>cl jws did w1. map_option fl_content (wd_files w (pending_delegation_path (to_home T) ident)) = Some jws
    \<and> client_from_env T w = (Finished cl, w)
    \<and> finalize_pairing T cl ident jws w = (Finished (Inr did), w1)
    \<and> wd_files w' = (wd_files w)(pending_delegation_path (to_home T) ident := None)
    \<and> r = Finished () \<and> wd_printed w' = wd_printed w @ [(Stdout, [Lit ''Pairing finalized. delegation_id: '', Lit did])]"
proof -
  let ?path = "pending_delegation_path (to_home T) ident"
  note run = assms(1) [unfolded cmd_pairing_finalize_def Let_def]
  show ?thesis
  proof (cases "wd_files w ?path")
    case None
    with run have "complain [Lit ''No signed delegation found for '', Lit ident] w = (r, w')"
      by (simp add: fs_read_def)
    from files_keptD [OF files_kept_complain this] assms(2) show ?thesis by simp
  next
    case (Some stored)
    with run have r1: "cbind (client_from_env T) (\<lambda>cl.
        cbind (finalize_pairing T cl ident (fl_content stored)) (finalize_answer ?path)) w = (r, w')"
      by (simp add: fs_read_def)
    from changed_later [OF r1 assms(2) files_kept_client] obtain cl where
      cl: "client_from_env T w = (Finished cl, w)"
      and r2: "cbind (finalize_pairing T cl ident (fl_content stored)) (finalize_answer ?path) w = (r, w')"
      by (metis client_from_env_keeps)
    from changed_later [OF r2 assms(2) files_kept_calls(4)] obtain q w1 where
      q: "finalize_pairing T cl ident (fl_content stored) w = (Finished q, w1)"
      and r3: "finalize_answer ?path q w1 = (r, w')" "wd_files w' \<noteq> wd_files w1"
      by blast
    from finalize_answer_removes [OF r3] finalize_pairing_keeps [OF q] Some cl q show ?thesis by auto
  qed
qed

section \<open>What the approval does not tell apart\<close>

text \<open>Separators and line ends inside a value are printed as they are.\<close>

lemma scopes_shown_alike:
  "render_scope (default_scope\<lparr>s_actions := [''read, write'']\<rparr>)
     = render_scope (default_scope\<lparr>s_actions := [''read'', ''write'']\<rparr>)"
  by (simp add: render_scope_def default_scope_def)

text \<open>The second coordinate of a P-256 key and the principal are not shown.\<close>

lemma keys_shown_alike:
  "approval_lines (r\<lparr>pg_public_key := k\<lparr>jwk_y := y\<rparr>\<rparr>) s = approval_lines (r\<lparr>pg_public_key := k\<rparr>) s"
  by (simp add: approval_lines_def)

end
