(* ===== verification/AdminToy.thy ===== *)
theory AdminToy
  imports AdminFacts CoreFlow
begin

text \<open>
  One machine with the outside parts of \<open>aap-admin\<close> replaced by concrete functions, on
  which the properties of the tool are exercised: a vault whose key is the passphrase and
  whose cipher text starts with it, and a server with one open pairing request.
\<close>

section \<open>The vault and the server\<close>

definition file_text :: "encrypted_key_file \<Rightarrow> bytes" where
  "file_text e = replicate (to_nat (ek_salt e, ek_nonce e, ek_ciphertext e)) CHR ''1''"

definition file_read :: "bytes \<Rightarrow> message + encrypted_key_file" where
  "file_read bs = (case from_nat (length bs) of (s, n, c) \<Rightarrow>
     Inr \<lparr>ek_salt = s, ek_nonce = n, ek_ciphertext = c\<rparr>)"

definition toy_vault :: vault where
  "toy_vault = \<lparr>kdf = (\<lambda>p salt. Inr p), aead_encrypt = (\<lambda>k n m. Inr (k @ m)),
     aead_decrypt = (\<lambda>k n c. if take (length k) c = k then Inr (drop (length k) c) else Inl []),
     key_file_text = file_text, key_file_read = file_read\<rparr>"

lemma toy_vault_ok: "vault_ok toy_vault"
  by (simp add: vault_ok_def toy_vault_def file_text_def file_read_def)

definition toy_seed :: bytes where "toy_seed = replicate 32 CHR ''s''"

definition toy_draws :: draws where
  "toy_draws = \<lparr>dw_seed = toy_seed, dw_salt = replicate 16 CHR ''a'', dw_nonce = replicate 12 CHR ''n'',
     dw_uuid = ''u1'', dw_now = 0\<rparr>"

definition toy_pairing :: pairing_request where
  "toy_pairing = \<lparr>pg_id = ''p1'', pg_requested_agent_id = ''a1'', pg_device_label = ''phone'',
     pg_public_key = public_jwk toy_crypto (from_ed25519_bytes ''phone''), pg_requested_scope = JNull,
     pg_status = ''open'', pg_created_at = '''', pg_expires_at = ''''\<rparr>"

definition toy_admin_codec :: admin_codec where
  "toy_admin_codec = \<lparr>status_line = (\<lambda>_. ''200 OK''), de_api_error = Inr,
     de_get_principal = (\<lambda>_. Inr (Some \<lparr>pi_principal_id = ''neo'',
        pi_public_key = public_jwk toy_crypto (from_ed25519_bytes toy_seed)\<rparr>)),
     de_register = Inr, de_pairings = (\<lambda>_. Inr [toy_pairing]), de_finalize = (\<lambda>_. Inr ''d1''),
     en_register = jwk_x, en_finalize = id, de_scope = (\<lambda>_. Inr default_scope)\<rparr>"

definition toy_tool :: "unit tool" where
  "toy_tool = \<lparr>to_crypto = toy_crypto, to_core = any_codec, to_vault = toy_vault, to_codec = toy_admin_codec,
     to_send = (\<lambda>rq s. (Inr (200, Inr (rr_url rq)), s)), to_home = ''h'', to_env = (\<lambda>_. Some ''e'')\<rparr>"

definition toy_key_file :: disk_file where
  "toy_key_file = \<lparr>fl_content = key_file_text toy_vault
       (seal toy_crypto (dw_salt toy_draws) (dw_nonce toy_draws) (''secret'' @ toy_seed)), fl_mode = 384\<rparr>"

definition toy_machine :: "(string \<Rightarrow> disk_file option) \<Rightarrow> string list \<Rightarrow> unit world" where
  "toy_machine files typed = \<lparr>wd_files = files, wd_writes = [], wd_terminal = True, wd_typed = typed,
     wd_printed = [], wd_remote = ()\<rparr>"

definition with_key :: "string \<Rightarrow> disk_file option" where
  "with_key = [key_file_path ''h'' \<mapsto> toy_key_file]"

definition with_pending :: "string \<Rightarrow> disk_file option" where
  "with_pending = [pending_delegation_path ''h'' ''p1'' \<mapsto> \<lparr>fl_content = ''jws'', fl_mode = 420\<rparr>]"

lemmas toy_run = toy_tool_def toy_machine_def toy_admin_codec_def cbind_def cdone_def say_def warn_def ask_def print_to_def
  disk_works_def disk_outcome_def put_file_def fs_exists_def fs_read_def fs_write_def fs_chmod_def fs_remove_def or_panic_def expect_ok_def
  rest_call_def decoded_def client_from_env_def Let_def is_success_def rbind_def say_all_run get_passphrase_def
  confirm_on_terminal_def find_request_def list_pairing_requests_def get_my_principal_def my_principal_id_def

section \<open>The key\<close>

lemma toy_generate:
  "\<exists>w'. generate_and_store toy_crypto toy_vault ''h'' toy_draws ''secret'' (toy_machine Map.empty [])
     = (Finished toy_seed, w')"
  by (simp add: generate_and_store_def store_def derive_aes_key_def toy_run toy_vault_def toy_draws_def)

theorem keystore_round_trip_witness:
  "\<exists>w1. generate_and_store toy_crypto toy_vault ''h'' toy_draws ''secret'' (toy_machine Map.empty []) = (Finished toy_seed, w1)
     \<and> fst (load toy_crypto toy_vault ''h'' ''secret'' w1) = Finished (Inr toy_seed)"
proof -
  obtain w1 where run: "generate_and_store toy_crypto toy_vault ''h'' toy_draws ''secret'' (toy_machine Map.empty [])
      = (Finished toy_seed, w1)"
    using toy_generate by blast
  have lengths: "length (dw_seed toy_draws) = 32" "length (dw_salt toy_draws) = 16"
    "length (dw_nonce toy_draws) = 12" "dw_seed toy_draws = toy_seed"
    by (simp_all add: toy_draws_def toy_seed_def)
  from keystore_round_trip [OF toy_crypto_ok(1) toy_vault_ok lengths(1-3) run refl] run lengths(4)
  show ?thesis by auto
qed

theorem key_file_is_never_rewritten_witness:
  "wd_files (snd (admin_main toy_tool (KeyInit toy_draws) (toy_machine with_key []))) (key_file_path ''h'')
     = Some toy_key_file"
  using key_file_is_never_rewritten [of "toy_machine with_key []" toy_tool toy_key_file "KeyInit toy_draws"]
  by (simp add: toy_machine_def toy_tool_def with_key_def)

section \<open>Signing and finalizing\<close>

lemma toy_load:
  "load toy_crypto toy_vault ''h'' ''secret'' (toy_machine with_key typed\<lparr>wd_printed := lines\<rparr>)
     = (Finished (Inr toy_seed), toy_machine with_key typed\<lparr>wd_printed := lines\<rparr>)"
proof -
  have "length (dw_salt toy_draws) = 16" by (simp add: toy_draws_def)
  from open_sealed [OF toy_crypto_ok(1) toy_vault_ok this] have
    "open_envelope toy_crypto toy_vault (Some (fl_content toy_key_file))
       = Inr (dw_salt toy_draws, dw_nonce toy_draws, ''secret'' @ toy_seed)"
    by (simp add: toy_key_file_def)
  then show ?thesis
    by (simp add: load_def fs_read_def toy_machine_def with_key_def derive_aes_key_def expect_ok_def unlock_def
      toy_vault_def cbind_def cdone_def rbind_def map_err_def toy_seed_def toy_draws_def)
qed

lemma toy_unlock:
  "unlock_key toy_tool (toy_machine with_key [''secret'']\<lparr>wd_printed := lines\<rparr>)
     = (Finished toy_seed, toy_machine with_key []
          \<lparr>wd_printed := lines @ [(Tty, [Lit ''Passphrase to unlock the local principal key: ''])]\<rparr>)"
proof -
  have "get_passphrase ''Passphrase to unlock the local principal key: ''
      (toy_machine with_key [''secret'']\<lparr>wd_printed := lines\<rparr>)
    = (Finished ''secret'', toy_machine with_key []
          \<lparr>wd_printed := lines @ [(Tty, [Lit ''Passphrase to unlock the local principal key: ''])]\<rparr>)"
    by (simp add: get_passphrase_def cbind_def ask_def print_to_def toy_machine_def)
  then show ?thesis by (simp add: unlock_key_def toy_tool_def toy_load cdone_def)
qed

lemma toy_find:
  "find_request toy_tool ''p1'' (toy_machine files typed)
     = (Finished (toy_pairing, default_scope), toy_machine files typed)"
  by (simp add: toy_run toy_pairing_def)

lemma toy_yes: "is_yes ''y''" by code_simp

lemma toy_confirm:
  "confirm_on_terminal prompt (toy_machine files (''y'' # typed)\<lparr>wd_printed := lines\<rparr>)
     = (Finished True, toy_machine files typed\<lparr>wd_printed := lines @ [(Tty, [Lit prompt])]\<rparr>)"
  by (simp add: confirm_on_terminal_def toy_machine_def cbind_def ask_def print_to_def toy_yes)

lemma toy_my_principal:
  "my_principal_id toy_tool (toy_machine files typed\<lparr>wd_printed := lines\<rparr>)
     = (Finished ''neo'', toy_machine files typed\<lparr>wd_printed := lines\<rparr>)"
  by (simp add: toy_run)

lemma toy_issue:
  "\<exists>issued. delegation_issue toy_crypto any_codec (from_ed25519_bytes toy_seed) ''u1'' 0
     (pairing_params ''neo'' toy_pairing default_scope) = Inr issued"
  by (simp add: delegation_issue_def any_codec_def sign_payload_def jws_sign_def Let_def rbind_def
    toy_crypto_def unary_write_def split: sum.split)

lemma toy_save:
  "\<exists>w'. save_delegation toy_tool ''p1'' (Inr issued) (toy_machine with_key []\<lparr>wd_printed := lines\<rparr>)
       = (Finished (), w')
     \<and> map_option fl_content (wd_files w' (pending_delegation_path ''h'' ''p1'')) = Some (id_jws issued)"
  by (simp add: save_delegation_def toy_run with_key_def del: say_all.simps)

lemma toy_sign:
  "\<exists>w'. cmd_pairing_sign toy_tool toy_draws ''p1'' (toy_machine with_key [''y'', ''secret'']) = (Finished (), w')
     \<and> wd_files w' (pending_delegation_path ''h'' ''p1'') \<noteq> None"
proof -
  obtain issued where issued: "delegation_issue toy_crypto any_codec (from_ed25519_bytes toy_seed) ''u1'' 0
     (pairing_params ''neo'' toy_pairing default_scope) = Inr issued" using toy_issue by blast
  have tool: "to_crypto toy_tool = toy_crypto" "to_core toy_tool = any_codec"
    "dw_uuid toy_draws = ''u1''" "dw_now toy_draws = 0"
    by (simp_all add: toy_tool_def toy_draws_def)
  define shown where "shown = approval_lines toy_pairing default_scope"
  let ?seen = "map (Pair Stdout) shown @ [(Tty, [Lit approval_prompt])]"
  let ?shown_last = "?seen @ [(Tty, [Lit ''Passphrase to unlock the local principal key: ''])]"
  have show_all: "say_all shown (toy_machine with_key [''y'', ''secret''])
      = (Finished (), toy_machine with_key (''y'' # [''secret''])\<lparr>wd_printed := map (Pair Stdout) shown\<rparr>)"
    by (simp add: say_all_run toy_machine_def)
  have "sign_approved toy_tool toy_draws ''p1'' toy_pairing default_scope
      (toy_machine with_key [''secret'']\<lparr>wd_printed := ?seen\<rparr>)
    = save_delegation toy_tool ''p1'' (Inr issued) (toy_machine with_key []\<lparr>wd_printed := ?shown_last\<rparr>)"
    unfolding sign_approved_def cbind_simps(1) [where m = "unlock_key toy_tool", OF toy_unlock]
      cbind_simps(1) [where m = "my_principal_id toy_tool", OF toy_my_principal] tool issued ..
  moreover have "cmd_pairing_sign toy_tool toy_draws ''p1'' (toy_machine with_key [''y'', ''secret''])
    = sign_approved toy_tool toy_draws ''p1'' toy_pairing default_scope
      (toy_machine with_key [''secret'']\<lparr>wd_printed := ?seen\<rparr>)"
    unfolding cmd_pairing_sign_def cbind_simps(1) [where m = "find_request toy_tool ident" for ident, OF toy_find] prod.case shown_def [symmetric]
      cbind_simps(1) [where m = "say_all shown", OF show_all]
      cbind_simps(1) [where m = "confirm_on_terminal prompt" for prompt, OF toy_confirm] by simp
  ultimately show ?thesis using toy_save [of issued ?shown_last] by (metis map_option_eq_Some option.distinct(1))
qed

theorem signed_is_approved_witness:
  "\<exists>w' request scope. cmd_pairing_sign toy_tool toy_draws ''p1'' (toy_machine with_key [''y'', ''secret'']) = (Finished (), w')
     \<and> pg_id request = ''p1'' \<and> prefix (map (Pair Stdout) (approval_lines request scope)) (wd_printed w')"
proof -
  obtain w' where run: "cmd_pairing_sign toy_tool toy_draws ''p1'' (toy_machine with_key [''y'', ''secret''])
      = (Finished (), w')" and new: "wd_files w' (pending_delegation_path ''h'' ''p1'') \<noteq> None"
    using toy_sign by blast
  have "wd_files (toy_machine with_key [''y'', ''secret'']) (pending_delegation_path ''h'' ''p1'') = None"
    using pending_is_not_key [of "''h''" "''p1''"] by (simp add: toy_machine_def with_key_def)
  with new have "wd_files w' \<noteq> wd_files (toy_machine with_key [''y'', ''secret''])" by metis
  from signed_is_approved [OF run this] run show ?thesis
    by (auto simp: prefix_def toy_machine_def)
qed

lemma toy_finalize:
  "cmd_pairing_finalize toy_tool ''p1'' (toy_machine with_pending []) = (Finished (),
     toy_machine Map.empty []\<lparr>wd_printed := [(Stdout, [Lit ''Pairing finalized. delegation_id: '', Lit ''d1''])]\<rparr>)"
  by (simp add: cmd_pairing_finalize_def finalize_answer_def finalize_pairing_def toy_run with_pending_def)

theorem delegation_kept_until_accepted_witness:
  "\<exists>cl did w1. finalize_pairing toy_tool cl ''p1'' ''jws'' (toy_machine with_pending []) = (Finished (Inr did), w1)
     \<and> wd_files (snd (cmd_pairing_finalize toy_tool ''p1'' (toy_machine with_pending [])))
         (pending_delegation_path ''h'' ''p1'') = None"
proof -
  have "wd_files (toy_machine Map.empty []\<lparr>wd_printed := [(Stdout, [Lit ''Pairing finalized. delegation_id: '', Lit ''d1''])]\<rparr>)
      \<noteq> wd_files (toy_machine with_pending [])"
    by (auto simp: toy_machine_def with_pending_def fun_eq_iff)
  moreover have "wd_files (toy_machine with_pending []) (pending_delegation_path (to_home toy_tool) ''p1'')
      = Some \<lparr>fl_content = ''jws'', fl_mode = 420\<rparr>"
    by (simp add: toy_machine_def with_pending_def toy_tool_def)
  moreover have "wd_files (snd (cmd_pairing_finalize toy_tool ''p1'' (toy_machine with_pending []))) = Map.empty"
    unfolding toy_finalize by (simp add: toy_machine_def)
  ultimately show ?thesis using delegation_kept_until_accepted [OF toy_finalize] by fastforce
qed

end
