(* ===== verification/Demo.thy ===== *)
theory Demo
  imports CoreFlow
begin

text \<open>
  The two demonstrations of the first generation: the browser session (wasm-demo/src/lib.rs)
  and the command line story (demo-cli/src/main.rs). Both issue one delegation of payments
  up to 200 EUR for an hour, and show requests, replays and a revocation being decided by
  the verifier of \<open>aap-core\<close>. Clock readings, random bytes and identifiers are arguments;
  an error is a panic of the code's \<open>expect\<close>. Of an answer the fields are kept, not their
  JSON text.
\<close>

section \<open>The delegation and the verifier of the demonstrations\<close>

definition euros :: "f64 \<Rightarrow> amount" where
  "euros v = \<lparr>a_value = v, a_currency = ''EUR''\<rparr>"

definition demo_params :: "crypto \<Rightarrow> local_signer \<Rightarrow> delegation_params" where
  "demo_params C agent_signer = \<lparr>p_principal_id = ''principal:neo'', p_principal_type = NaturalPerson,
     p_agent_id = ''agent:wave-1'', p_agent_public_key = public_jwk C agent_signer,
     p_scope = default_scope\<lparr>s_actions := [''create_payment''], s_max_amount := Some (euros (Fin 200))\<rparr>,
     p_valid_for = seconds 3600, p_status_endpoint = ''https://registry.example.org/status'',
     p_can_delegate = False, p_max_delegation_depth = None, p_parent_delegation_id = None,
     p_metadata = None\<rparr>"

definition demo_request :: "datetime \<Rightarrow> f64 \<Rightarrow> action_request" where
  "demo_request timestamp v = \<lparr>r_action = ''create_payment'', r_resource = None,
     r_amount = Some (euros v), r_counterparty = None, r_data_categories = None, r_timestamp = timestamp\<rparr>"

definition bank :: "crypto \<Rightarrow> core_codec \<Rightarrow> registry \<Rightarrow> status \<Rightarrow> local_signer \<Rightarrow> nonces verifier" where
  "bank C D reg revoked receipts_key = verifier_new ''verifier:bank-api'' ''bank-api''
     (resolve_in C reg) (is_revoked_in revoked) nonce_seen_and_record
     (sign_payload C (enc_receipt D) receipts_key)"

section \<open>The browser session\<close>

record demo_session =
  ds_agent_signer :: local_signer
  ds_receipt_signer :: local_signer
  ds_registry :: registry
  ds_status :: status
  ds_nonces :: nonces
  ds_delegation_jws :: string
  ds_delegation_id :: uuid
  ds_scope_summary :: string
  ds_last_message_jws :: "string option"

text \<open>What starting a session draws: the three keys, the delegation's id and the time.\<close>

record demo_start =
  st_principal :: bytes
  st_agent :: bytes
  st_receipt :: bytes
  st_delegation :: uuid
  st_now :: datetime

definition session_new :: "crypto \<Rightarrow> core_codec \<Rightarrow> demo_start \<Rightarrow> jws_error + demo_session" where
  "session_new C D st =
     (let principal_signer = generate (st_principal st);
          agent_signer = generate (st_agent st);
          receipts_key = generate (st_receipt st);
          registry = register ''principal:neo'' (public_jwk C principal_signer) Map.empty
      in rbind (delegation_issue C D principal_signer (st_delegation st) (st_now st)
             (demo_params C agent_signer)) (\<lambda>del.
         Inr \<lparr>ds_agent_signer = agent_signer, ds_receipt_signer = receipts_key,
           ds_registry = registry, ds_status = {}, ds_nonces = nonce_store_new,
           ds_delegation_jws = id_jws del, ds_delegation_id = delegation_id (id_payload del),
           ds_scope_summary = ''create_payment, max 200 EUR'', ds_last_message_jws = None\<rparr>))"

text \<open>
  What a press of a button draws: the request's timestamp, the times of issuing and of
  verifying, and the two identifiers.
\<close>

record moment =
  mo_timestamp :: datetime
  mo_issued :: datetime
  mo_now :: datetime
  mo_nonce :: string
  mo_receipt :: uuid

record report =
  rp_accepted :: bool
  rp_reason :: "message option"
  rp_receipt_id :: uuid
  rp_receipt_outcome :: message
  rp_digest :: string

datatype demo_reply =
    Verified report
  | NothingToReplay
  | RevokedId uuid
  | Summary uuid string

definition report_of :: "verification_outcome \<Rightarrow> report" where
  "report_of outcome = \<lparr>
     rp_accepted = (case decision outcome of Inr _ \<Rightarrow> True | Inl _ \<Rightarrow> False),
     rp_reason = (case decision outcome of Inr _ \<Rightarrow> None | Inl e \<Rightarrow> Some (failure_text e)),
     rp_receipt_id = receipt_id (ir_payload (vo_receipt outcome)),
     rp_receipt_outcome = (case rc_outcome (ir_payload (vo_receipt outcome)) of
        Accepted \<Rightarrow> [Lit ''accepted''] | Rejected why \<Rightarrow> why),
     rp_digest = request_digest (ir_payload (vo_receipt outcome))\<rparr>"

definition run_verification ::
  "crypto \<Rightarrow> chrono \<Rightarrow> core_codec \<Rightarrow> moment \<Rightarrow> string \<Rightarrow> demo_session \<Rightarrow> (jws_error + demo_reply) \<times> demo_session" where
  "run_verification C K D mo msg_jws S =
     (let verifier = bank C D (ds_registry S) (ds_status S) (ds_receipt_signer S);
          (outcome, nonces) = verify_at C K D verifier (mo_receipt mo) [ds_delegation_jws S] msg_jws (mo_now mo)
            (ds_nonces S)
      in (rbind outcome (\<lambda>q. Inr (Verified (report_of q))), S\<lparr>ds_nonces := nonces\<rparr>))"

definition session_request ::
  "crypto \<Rightarrow> chrono \<Rightarrow> core_codec \<Rightarrow> moment \<Rightarrow> f64 \<Rightarrow> demo_session \<Rightarrow> (jws_error + demo_reply) \<times> demo_session" where
  "session_request C K D mo v S =
     (case message_issue C D (ds_agent_signer S) (mo_nonce mo) (mo_issued mo) ''agent:wave-1'' ''bank-api''
             (demo_request (mo_timestamp mo) v) of
        Inl e \<Rightarrow> (Inl e, S)
      | Inr msg \<Rightarrow> run_verification C K D mo (im_jws msg) (S\<lparr>ds_last_message_jws := Some (im_jws msg)\<rparr>))"

definition replay_last ::
  "crypto \<Rightarrow> chrono \<Rightarrow> core_codec \<Rightarrow> moment \<Rightarrow> demo_session \<Rightarrow> (jws_error + demo_reply) \<times> demo_session" where
  "replay_last C K D mo S =
     (case ds_last_message_jws S of
        Some jws \<Rightarrow> run_verification C K D mo jws S
      | None \<Rightarrow> (Inr NothingToReplay, S))"

definition session_revoke :: "demo_session \<Rightarrow> (jws_error + demo_reply) \<times> demo_session" where
  "session_revoke S =
     (Inr (RevokedId (ds_delegation_id S)), S\<lparr>ds_status := revoke (ds_delegation_id S) (ds_status S)\<rparr>)"

definition delegation_summary :: "demo_session \<Rightarrow> demo_reply" where
  "delegation_summary S = Summary (ds_delegation_id S) (ds_scope_summary S)"

datatype button = PressRequest f64 | PressReplay | PressRevoke | PressSummary

fun press :: "crypto \<Rightarrow> chrono \<Rightarrow> core_codec \<Rightarrow> moment \<times> button \<Rightarrow> demo_session
    \<Rightarrow> (jws_error + demo_reply) \<times> demo_session" where
  "press C K D (mo, PressRequest v) S = session_request C K D mo v S"
| "press C K D (mo, PressReplay) S = replay_last C K D mo S"
| "press C K D (mo, PressRevoke) S = session_revoke S"
| "press C K D (mo, PressSummary) S = (Inr (delegation_summary S), S)"

fun press_all :: "crypto \<Rightarrow> chrono \<Rightarrow> core_codec \<Rightarrow> (moment \<times> button) list \<Rightarrow> demo_session
    \<Rightarrow> (jws_error + demo_reply) list \<times> demo_session" where
  "press_all C K D [] S = ([], S)"
| "press_all C K D (b # bs) S =
     (let (r, S1) = press C K D b S; (rs, S2) = press_all C K D bs S1 in (r # rs, S2))"

section \<open>The command line story\<close>

definition report_lines :: "verification_outcome \<Rightarrow> message list" where
  "report_lines outcome =
     [(case decision outcome of
         Inr action \<Rightarrow> [Lit ''   -> ACCEPTED: agent '', Lit (m_agent_id (va_message action)),
           Lit '' authorized to '', Lit (r_action (m_request (va_message action))),
           Lit '' (chain depth '', Num (int (List.length (va_chain action))), Lit '')'']
       | Inl why \<Rightarrow> Lit ''   -> REJECTED: '' # failure_text why),
      [Lit ''      receipt '', Lit (receipt_id (ir_payload (vo_receipt outcome))), Lit '' ['']
        @ (case rc_outcome (ir_payload (vo_receipt outcome)) of
             Accepted \<Rightarrow> [Lit ''accepted'']
           | Rejected why \<Rightarrow> Lit ''rejected ('' # why @ [Lit '')''])
        @ [Lit ''], digest '', Lit (request_digest (ir_payload (vo_receipt outcome)))]]"

definition story_message :: "crypto \<Rightarrow> core_codec \<Rightarrow> local_signer \<Rightarrow> moment \<Rightarrow> f64 \<Rightarrow> jws_error + issued_agent_message" where
  "story_message C D agent_signer mo v = message_issue C D agent_signer (mo_nonce mo) (mo_issued mo)
     ''agent:wave-1'' ''bank-api'' (demo_request (mo_timestamp mo) v)"

definition story_ask ::
  "crypto \<Rightarrow> chrono \<Rightarrow> core_codec \<Rightarrow> demo_start \<Rightarrow> status \<Rightarrow> issued_delegation \<Rightarrow> moment \<Rightarrow> issued_agent_message
   \<Rightarrow> nonces \<Rightarrow> (jws_error + verification_outcome) \<times> nonces" where
  "story_ask C K D st revoked del mo msg nonces =
     verify_at C K D (bank C D (register ''principal:neo'' (public_jwk C (generate (st_principal st))) Map.empty)
         revoked (generate (st_receipt st)))
       (mo_receipt mo) [id_jws del] (im_jws msg) (mo_now mo) nonces"

text \<open>The four outcomes that are reported, in order.\<close>

definition demo_main ::
  "crypto \<Rightarrow> chrono \<Rightarrow> core_codec \<Rightarrow> demo_start \<Rightarrow> moment \<Rightarrow> moment \<Rightarrow> moment \<Rightarrow> moment
   \<Rightarrow> jws_error + verification_outcome list" where
  "demo_main C K D st mo_a mo_b mo_c mo_d =
     (let agent_signer = generate (st_agent st) in
      rbind (delegation_issue C D (generate (st_principal st)) (st_delegation st) (st_now st)
        (demo_params C agent_signer)) (\<lambda>del.
      rbind (story_message C D agent_signer mo_a (Fin 150)) (\<lambda>msg_a.
      let (out_a, nonces_a) = story_ask C K D st {} del mo_a msg_a nonce_store_new in
      rbind out_a (\<lambda>out_a.
      rbind (story_message C D agent_signer mo_b (Fin 5000)) (\<lambda>msg_b.
      let (out_b, nonces_b) = story_ask C K D st {} del mo_b msg_b nonces_a in
      rbind out_b (\<lambda>out_b.
      let (out_c, nonces_c) = story_ask C K D st {} del mo_c msg_a nonces_b in
      rbind out_c (\<lambda>out_c.
      rbind (story_message C D agent_signer mo_d (Fin 50)) (\<lambda>msg_d.
      let (out_d, nonces_d) = story_ask C K D st (revoke (delegation_id (id_payload del)) {}) del mo_d msg_d nonces_c in
      rbind out_d (\<lambda>out_d. Inr [out_a, out_b, out_c, out_d])))))))))"

end
