(* ===== verification/DemoFlow.thy ===== *)
theory DemoFlow
  imports Demo
begin

text \<open>
  What the browser session answers to any sequence of pressed buttons, as a machine of two
  variables, and what the command line story prints.
\<close>

section \<open>One presentation\<close>

text \<open>
  What the verifier answers to one message under one delegation: the delegation reads back;
  the message reads back, or its text cannot be read (\<open>readable\<close> is false).
\<close>

lemma one_link_verdict:
  assumes "signed_under C D djws (resolve_principal_key V (principal_id d)) d"
    and "jwk_to_public_key C (agent_public_key d) = Inr key"
    and "if readable then jws_verify C (dec_message D) mjws key = Inr m
      else \<exists>e. decode_unverified C (dec_message D) mjws = Inl e"
    and "m_audience m = audience V" "m_agent_id m = d_agent_id d" "m_issued_at m \<le> now + max_clock_skew V"
    and "valid_from d \<le> now"
  shows "verify_stateless C D V now [djws] mjws =
     (if now > valid_until d then Inl Expired
      else if is_revoked V (delegation_id d) then Inl Revoked
      else if \<not> readable then Inl InvalidAgentSignature
      else if m_issued_at m < now - max_message_age V then Inl StaleMessage
      else Inr ([d], m))"
proof -
  from assms(1) obtain k where k: "resolve_principal_key V (principal_id d) = Inr k"
    "jws_verify C (dec_delegation D) djws k = Inr d" by (auto simp: signed_under_iff)
  have token: "token_from_jws C (dec_delegation D) djws = Inr (UnverifiedToken djws d)"
    using jws_verify_decodes [OF k(2)] by (simp add: token_from_jws_def)
  have "check_message C D V now d mjws =
      (if \<not> readable then Inl InvalidAgentSignature
       else if m_issued_at m < now - max_message_age V then Inl StaleMessage else Inr m)"
    using assms(2-6) jws_verify_decodes [of C "dec_message D" mjws key m]
    by (cases readable) (auto simp: check_message_def token_from_jws_def token_verify_signature_def Let_def map_err_def)
  then show ?thesis
    using assms(7) k
    by (simp add: verify_stateless_def verify_link_def token link_signer_key_def token_verify_signature_def map_err_def)
qed

section \<open>What the buttons answer\<close>

text \<open>
  The session in short: whether the delegation was revoked and, of the last request,
  whether its text can be read back and when it was issued. A presentation is refused for
  the first of: the hour is over, the delegation was revoked, the message cannot be read,
  it is more than five minutes old, \<open>otherwise\<close>. The page hands over any \<open>f64\<close>, and the
  amount travels as JSON: \<open>got v\<close> is the amount that is read where \<open>v\<close> was written, and None
  where nothing is (\<open>serde_json\<close> writes null for a NaN or an infinite amount, which is no
  number when read).
\<close>

record demo_spec =
  dm_revoked :: bool
  dm_last :: "(bool \<times> datetime) option"

datatype demo_answer = Decided "verification_failure option" | NoRequest | Withdrawn | Described

definition late :: "datetime \<Rightarrow> bool \<Rightarrow> bool \<Rightarrow> datetime \<Rightarrow> datetime \<Rightarrow> verification_failure option" where
  "late start revoked readable issued now =
     (if start + seconds 3600 < now then Some Expired
      else if revoked then Some Revoked
      else if \<not> readable then Some InvalidAgentSignature
      else if issued < now - seconds 300 then Some StaleMessage
      else None)"

definition verdict ::
  "datetime \<Rightarrow> bool \<Rightarrow> bool \<Rightarrow> datetime \<Rightarrow> datetime \<Rightarrow> verification_failure option \<Rightarrow> verification_failure option" where
  "verdict start revoked readable issued now otherwise =
     (case late start revoked readable issued now of None \<Rightarrow> otherwise | Some e \<Rightarrow> Some e)"

definition read_as :: "(f64 \<Rightarrow> f64 option) \<Rightarrow> f64 \<Rightarrow> f64" where
  "read_as got v = (case got v of None \<Rightarrow> v | Some w \<Rightarrow> w)"

fun spec_press :: "(f64 \<Rightarrow> f64 option) \<Rightarrow> datetime \<Rightarrow> moment \<times> button \<Rightarrow> demo_spec \<Rightarrow> demo_answer \<times> demo_spec" where
  "spec_press got start (mo, PressRequest v) a =
     (Decided (verdict start (dm_revoked a) (got v \<noteq> None) (mo_issued mo) (mo_now mo)
        (if Fin 0 \<le> read_as got v \<and> read_as got v \<le> Fin 200 then None else Some ScopeDenied)),
      a\<lparr>dm_last := Some (got v \<noteq> None, mo_issued mo)\<rparr>)"
| "spec_press got start (mo, PressReplay) a =
     (case dm_last a of
        None \<Rightarrow> (NoRequest, a)
      | Some (readable, issued) \<Rightarrow>
          (Decided (verdict start (dm_revoked a) readable issued (mo_now mo) (Some NonceReplayed)), a))"
| "spec_press got start (mo, PressRevoke) a = (Withdrawn, a\<lparr>dm_revoked := True\<rparr>)"
| "spec_press got start (mo, PressSummary) a = (Described, a)"

fun spec_all ::
  "(f64 \<Rightarrow> f64 option) \<Rightarrow> datetime \<Rightarrow> (moment \<times> button) list \<Rightarrow> demo_spec \<Rightarrow> demo_answer list" where
  "spec_all got start [] a = []"
| "spec_all got start (b # bs) a = (let (r, a') = spec_press got start b a in r # spec_all got start bs a')"

text \<open>What a reply says: the decision, its reason, and the same on the receipt.\<close>

fun says :: "uuid \<Rightarrow> jws_error + demo_reply \<Rightarrow> demo_answer \<Rightarrow> bool" where
  "says did (Inr (Verified r)) (Decided f) \<longleftrightarrow> rp_accepted r = (f = None) \<and> rp_reason r = map_option failure_text f
     \<and> rp_receipt_outcome r = (case f of None \<Rightarrow> [Lit ''accepted''] | Some e \<Rightarrow> failure_text e)"
| "says did (Inr NothingToReplay) NoRequest \<longleftrightarrow> True"
| "says did (Inr (RevokedId i)) Withdrawn \<longleftrightarrow> i = did"
| "says did (Inr (Summary i t)) Described \<longleftrightarrow> i = did \<and> t = ''create_payment, max 200 EUR''"
| "says did _ _ \<longleftrightarrow> False"

text \<open>The clock does not go back, and a message is issued before it is verified.\<close>

fun clock_runs :: "datetime \<Rightarrow> (moment \<times> button) list \<Rightarrow> bool" where
  "clock_runs t [] \<longleftrightarrow> True"
| "clock_runs t ((mo, b) # bs) \<longleftrightarrow> t \<le> mo_issued mo \<and> mo_issued mo \<le> mo_now mo \<and> clock_runs (mo_now mo) bs"

definition reads_back :: "('a \<Rightarrow> message + bytes) \<Rightarrow> (bytes \<Rightarrow> message + 'a) \<Rightarrow> 'a \<Rightarrow> bool" where
  "reads_back enc de v \<longleftrightarrow> (\<exists>bs. enc v = Inr bs \<and> de bs = Inr v)"

text \<open>The payloads of one session.\<close>

definition demo_delegation :: "crypto \<Rightarrow> demo_start \<Rightarrow> delegation" where
  "demo_delegation C st = \<lparr>delegation_id = st_delegation st, principal_id = ''principal:neo'',
     principal_type_of = NaturalPerson, d_agent_id = ''agent:wave-1'',
     agent_public_key = public_jwk C (generate (st_agent st)),
     d_scope = p_scope (demo_params C (generate (st_agent st))),
     valid_from = st_now st, valid_until = st_now st + seconds 3600,
     status_endpoint = ''https://registry.example.org/status'', can_delegate = False,
     max_delegation_depth = None, parent_delegation_id = None, d_issued_at = st_now st, d_metadata = None\<rparr>"

definition demo_message :: "moment \<Rightarrow> f64 \<Rightarrow> agent_message" where
  "demo_message mo v = \<lparr>m_agent_id = ''agent:wave-1'', m_audience = ''bank-api'', m_nonce = mo_nonce mo,
     m_issued_at = mo_issued mo, m_request = demo_request (mo_timestamp mo) v\<rparr>"

lemma issued_payload:
  assumes "delegation_issue C D (generate (st_principal st)) (st_delegation st) (st_now st)
    (demo_params C (generate (st_agent st))) = Inr del"
  shows "id_payload del = demo_delegation C st"
  using assms by (auto simp: delegation_issue_def Let_def demo_delegation_def demo_params_def)

definition crypto_ok :: "crypto \<Rightarrow> bool" where
  "crypto_ok C \<longleftrightarrow> b64_ok C \<and> signatures_ok C \<and> public_keys_ok C \<and> header_read_ok C"

lemma late_later:
  "late start gone rd issued t \<noteq> None \<Longrightarrow> t \<le> t' \<Longrightarrow> (gone \<longrightarrow> gone') \<Longrightarrow> late start gone' rd issued t' \<noteq> None"
  by (auto simp: late_def split: if_splits)

lemma demo_matches:
  "matches K (p_scope (demo_params C agent)) (demo_request ts v) now \<longleftrightarrow> Fin 0 \<le> v \<and> v \<le> Fin 200"
  by (cases v) (auto simp: matches_iff_rules demo_params_def demo_request_def euros_def default_scope_def
    within_amount_def matches_resources_def matches_counterparty_def matches_data_categories_def matches_time_def
    unwrap_counterparties_def default_counterparties_def narrows_list_def split: option.splits)

section \<open>The session keeps to its short form\<close>

definition agent_key :: "crypto \<Rightarrow> demo_start \<Rightarrow> verifying_key" where
  "agent_key C st = verifying_key_of C (signer_key (generate (st_agent st)))"

text \<open>The message \<open>m\<close> the agent signed arrives as \<open>jws\<close>, as a text that can be read or not.\<close>

definition arrives :: "crypto \<Rightarrow> core_codec \<Rightarrow> demo_start \<Rightarrow> bool \<Rightarrow> string \<Rightarrow> agent_message \<Rightarrow> bool" where
  "arrives C D st readable jws m \<longleftrightarrow>
     (if readable then jws_verify C (dec_message D) jws (agent_key C st) = Inr m
      else \<exists>e. decode_unverified C (dec_message D) jws = Inl e)
     \<and> m_audience m = ''bank-api'' \<and> m_agent_id m = ''agent:wave-1''"

definition holds_delegation :: "crypto \<Rightarrow> core_codec \<Rightarrow> demo_start \<Rightarrow> demo_session \<Rightarrow> bool" where
  "holds_delegation C D st S \<longleftrightarrow> (\<exists>del. delegation_issue C D (generate (st_principal st)) (st_delegation st)
       (st_now st) (demo_params C (generate (st_agent st))) = Inr del
       \<and> ds_delegation_jws S = id_jws del)
     \<and> ds_agent_signer S = generate (st_agent st) \<and> ds_receipt_signer S = generate (st_receipt st)
     \<and> ds_registry S = register ''principal:neo'' (public_jwk C (generate (st_principal st))) Map.empty
     \<and> ds_delegation_id S = st_delegation st \<and> ds_scope_summary S = ''create_payment, max 200 EUR''"

definition tracks :: "crypto \<Rightarrow> core_codec \<Rightarrow> demo_start \<Rightarrow> datetime \<Rightarrow> string set \<Rightarrow> demo_spec \<Rightarrow> demo_session \<Rightarrow> bool" where
  "tracks C D st t used a S \<longleftrightarrow> holds_delegation C D st S
     \<and> ds_status S = (if dm_revoked a then {st_delegation st} else {})
     \<and> ds_nonces S \<subseteq> {''agent:wave-1''} \<times> used
     \<and> (case dm_last a of
          None \<Rightarrow> ds_last_message_jws S = None
        | Some (readable, issued) \<Rightarrow> (\<exists>jws m. ds_last_message_jws S = Some jws \<and> arrives C D st readable jws m
            \<and> m_issued_at m = issued \<and> issued \<le> t
            \<and> (late (st_now st) (dm_revoked a) readable issued t = None \<longrightarrow> (''agent:wave-1'', m_nonce m) \<in> ds_nonces S)))"

lemma signs: "\<forall>r. \<exists>bs. enc r = Inr bs \<Longrightarrow> \<exists>jws. sign_payload C enc k r = Inr jws"
  by (auto simp: sign_payload_def jws_sign_def Let_def dest: spec [of _ r])

lemma bank_fields:
  "audience (bank C D reg revoked k) = ''bank-api''" "max_message_age (bank C D reg revoked k) = seconds 300"
  "max_clock_skew (bank C D reg revoked k) = seconds 60"
  "seen_and_record (bank C D reg revoked k) = nonce_seen_and_record"
  "is_revoked (bank C D reg revoked k) = is_revoked_in revoked"
  "resolve_principal_key (bank C D reg revoked k) = resolve_in C reg"
  "receipt_signer (bank C D reg revoked k) = sign_payload C (enc_receipt D) k"
  by (simp_all add: bank_def verifier_new_def DEFAULT_MAX_MESSAGE_AGE_SECS_def DEFAULT_MAX_CLOCK_SKEW_SECS_def)

text \<open>A decision and its receipt say the same.\<close>

lemma verify_at_says:
  assumes "verify_inner C K D (bank C D reg revoked k) chain msg now s = (d, s')"
    and "\<forall>r. \<exists>bs. enc_receipt D r = Inr bs"
  shows "\<exists>q. verify_at C K D (bank C D reg revoked k) rid chain msg now s = (Inr q, s') \<and> decision q = d
    \<and> says did (Inr (Verified (report_of q))) (Decided (case d of Inl e \<Rightarrow> Some e | Inr _ \<Rightarrow> None))"
proof -
  let ?V = "bank C D reg revoked k"
  let ?r = "receipt_payload C D ?V rid chain msg d now"
  obtain jws where "sign_payload C (enc_receipt D) k ?r = Inr jws" using signs [OF assms(2)] by blast
  then have "verify_at C K D ?V rid chain msg now s =
      (Inr \<lparr>decision = d, vo_receipt = \<lparr>ir_jws = jws, ir_payload = ?r\<rparr>\<rparr>, s')"
    by (simp add: verify_at_def issue_receipt_def assms(1) bank_fields Let_def)
  moreover have "rc_outcome ?r = (case d of Inl e \<Rightarrow> Rejected (failure_text e) | Inr _ \<Rightarrow> Accepted)"
    by (cases d) (simp_all add: receipt_payload_def receipt_subject_def Let_def)
  ultimately show ?thesis by (auto simp: report_of_def split: sum.split)
qed

lemma agent_key_known:
  "crypto_ok C \<Longrightarrow> jwk_to_public_key C (public_jwk C (generate (st_agent st))) = Inr (agent_key C st)"
  using jwk_round_trip [of C "signer_key (generate (st_agent st))"]
  by (simp add: crypto_ok_def agent_key_def public_jwk_def)

text \<open>The verifier's decision on a message of the agent under the delegation of the session.\<close>

lemma bank_decides:
  assumes "crypto_ok C"
    and "delegation_issue C D (generate (st_principal st)) (st_delegation st) (st_now st)
      (demo_params C (generate (st_agent st))) = Inr del"
    and "reads_back (enc_delegation D) (dec_delegation D) (id_payload del)"
    and "arrives C D st readable jws m" "m_issued_at m \<le> now" "st_now st \<le> now"
    and "reg = register ''principal:neo'' (public_jwk C (generate (st_principal st))) Map.empty"
    and "revoked = (if gone then {st_delegation st} else {})"
  shows "\<exists>d. verify_inner C K D (bank C D reg revoked k) [id_jws del] jws now s =
      (d, if late (st_now st) gone readable (m_issued_at m) now = None then insert (''agent:wave-1'', m_nonce m) s else s)
    \<and> (case d of Inl e \<Rightarrow> Some e | Inr _ \<Rightarrow> None) = verdict (st_now st) gone readable (m_issued_at m) now
        (if (''agent:wave-1'', m_nonce m) \<in> s then Some NonceReplayed
         else if matches K (p_scope (demo_params C (generate (st_agent st)))) (m_request m) now then None
         else Some ScopeDenied)"
proof -
  let ?V = "bank C D reg revoked k" and ?d = "id_payload del"
  note del = delegation_issue_fields [OF assms(2)]
  obtain bs where bs: "enc_delegation D ?d = Inr bs" "dec_delegation D bs = Inr ?d"
    using assms(3) by (auto simp: reads_back_def)
  have "signed_under C D (id_jws del) (resolve_principal_key ?V (principal_id ?d)) ?d"
    using delegation_issue_signed [OF _ _ _ _ assms(2) bs] assms(1) del(1)
    by (auto simp: crypto_ok_def signed_under_iff bank_fields resolve_in_def assms(7) register_def demo_params_def)
  moreover have "jwk_to_public_key C (agent_public_key ?d) = Inr (agent_key C st)"
    using agent_key_known [OF assms(1)] del(2) by (simp add: demo_params_def)
  ultimately have "verify_stateless C D ?V now [id_jws del] jws =
     (if now > valid_until ?d then Inl Expired
      else if is_revoked ?V (delegation_id ?d) then Inl Revoked
      else if \<not> readable then Inl InvalidAgentSignature
      else if m_issued_at m < now - max_message_age ?V then Inl StaleMessage
      else Inr ([?d], m))"
    using assms(4,5,6) del
    by (intro one_link_verdict) (auto simp: arrives_def bank_fields demo_params_def seconds_def)
  then have checks: "verify_stateless C D ?V now [id_jws del] jws =
     (case late (st_now st) gone readable (m_issued_at m) now of Some e \<Rightarrow> Inl e | None \<Rightarrow> Inr ([?d], m))"
    using del assms(8) by (simp add: late_def bank_fields is_revoked_in_def demo_params_def)
  have "m_agent_id m = ''agent:wave-1''" using assms(4) by (simp add: arrives_def)
  then show ?thesis
    using checks del(4) by (cases "late (st_now st) gone readable (m_issued_at m) now")
      (auto simp: in_memory.verify_inner_cases [OF bank_fields(4)] verdict_def nonce_seen_and_record_def)
qed

lemma presentation_reply:
  assumes "crypto_ok C" "holds_delegation C D st S" "\<forall>r. \<exists>bs. enc_receipt D r = Inr bs"
    and "reads_back (enc_delegation D) (dec_delegation D) (demo_delegation C st)"
    and "arrives C D st readable jws m" "m_issued_at m \<le> mo_now mo" "st_now st \<le> mo_now mo"
    and "ds_status S = (if gone then {st_delegation st} else {})"
  shows "\<exists>r. run_verification C K D mo jws S = (r, S\<lparr>ds_nonces :=
        (if late (st_now st) gone readable (m_issued_at m) (mo_now mo) = None
         then insert (''agent:wave-1'', m_nonce m) (ds_nonces S) else ds_nonces S)\<rparr>)
    \<and> says did r (Decided (verdict (st_now st) gone readable (m_issued_at m) (mo_now mo)
        (if (''agent:wave-1'', m_nonce m) \<in> ds_nonces S then Some NonceReplayed
         else if matches K (p_scope (demo_params C (generate (st_agent st)))) (m_request m) (mo_now mo) then None
         else Some ScopeDenied)))"
proof -
  from assms(2) obtain del where del: "delegation_issue C D (generate (st_principal st)) (st_delegation st)
       (st_now st) (demo_params C (generate (st_agent st))) = Inr del" "ds_delegation_jws S = id_jws del"
    and reg: "ds_registry S = register ''principal:neo'' (public_jwk C (generate (st_principal st))) Map.empty"
    by (auto simp: holds_delegation_def)
  have "reads_back (enc_delegation D) (dec_delegation D) (id_payload del)"
    using assms(4) issued_payload [OF del(1)] by simp
  from bank_decides [OF assms(1) del(1) this assms(5-7) reg assms(8)] obtain d where
    d: "verify_inner C K D (bank C D (ds_registry S) (ds_status S) (ds_receipt_signer S)) [id_jws del] jws
          (mo_now mo) (ds_nonces S) =
      (d, if late (st_now st) gone readable (m_issued_at m) (mo_now mo) = None
          then insert (''agent:wave-1'', m_nonce m) (ds_nonces S) else ds_nonces S)"
    and verdict: "(case d of Inl e \<Rightarrow> Some e | Inr _ \<Rightarrow> None) = verdict (st_now st) gone readable (m_issued_at m) (mo_now mo)
        (if (''agent:wave-1'', m_nonce m) \<in> ds_nonces S then Some NonceReplayed
         else if matches K (p_scope (demo_params C (generate (st_agent st)))) (m_request m) (mo_now mo) then None
         else Some ScopeDenied)" by blast
  from verify_at_says [OF d assms(3), of "mo_receipt mo" did] obtain q where
    "verify_at C K D (bank C D (ds_registry S) (ds_status S) (ds_receipt_signer S)) (mo_receipt mo) [id_jws del] jws
       (mo_now mo) (ds_nonces S) = (Inr q, if late (st_now st) gone readable (m_issued_at m) (mo_now mo) = None
          then insert (''agent:wave-1'', m_nonce m) (ds_nonces S) else ds_nonces S)"
    and "says did (Inr (Verified (report_of q))) (Decided (case d of Inl e \<Rightarrow> Some e | Inr _ \<Rightarrow> None))"
    by blast
  then show ?thesis unfolding verdict
    by (intro exI [of _ "Inr (Verified (report_of q))"]) (simp add: run_verification_def del(2))
qed

text \<open>
  The codecs of one session: receipts and the delegation are written and read back; a
  message is written, whatever its amount, and reads as itself with the amount \<open>got\<close> says,
  or not at all.
\<close>

definition message_reads :: "core_codec \<Rightarrow> (f64 \<Rightarrow> f64 option) \<Rightarrow> moment \<Rightarrow> f64 \<Rightarrow> bool" where
  "message_reads D got mo v \<longleftrightarrow> (\<exists>b. enc_message D (demo_message mo v) = Inr b
     \<and> (case got v of Some w \<Rightarrow> dec_message D b = Inr (demo_message mo w) | None \<Rightarrow> \<exists>e. dec_message D b = Inl e))"

definition codecs_read_back ::
  "crypto \<Rightarrow> core_codec \<Rightarrow> demo_start \<Rightarrow> (f64 \<Rightarrow> f64 option) \<Rightarrow> (moment \<times> button) list \<Rightarrow> bool" where
  "codecs_read_back C D st got bs \<longleftrightarrow> (\<forall>r. \<exists>b. enc_receipt D r = Inr b)
     \<and> reads_back (enc_delegation D) (dec_delegation D) (demo_delegation C st)
     \<and> (\<forall>mo v. (mo, PressRequest v) \<in> set bs \<longrightarrow> message_reads D got mo v)"

lemma tracks_later:
  assumes "tracks C D st t used a S" "t \<le> t'" "used \<subseteq> used'" "dm_revoked a \<longrightarrow> gone"
    and "status = (if gone then {st_delegation st} else {})"
  shows "tracks C D st t' used' (a\<lparr>dm_revoked := gone\<rparr>) (S\<lparr>ds_status := status\<rparr>)"
proof -
  have held: "holds_delegation C D st (S\<lparr>ds_status := status\<rparr>)" "ds_nonces S \<subseteq> {''agent:wave-1''} \<times> used'"
    using assms(1,3) by (auto simp: tracks_def holds_delegation_def)
  show ?thesis
  proof (cases "dm_last a")
    case None
    with assms(1,5) held show ?thesis by (simp add: tracks_def)
  next
    case (Some last)
    obtain readable issued where last: "last = (readable, issued)" by (cases last)
    with Some assms(1) obtain jws m where m: "ds_last_message_jws S = Some jws" "arrives C D st readable jws m"
      "m_issued_at m = issued" "issued \<le> t"
      "late (st_now st) (dm_revoked a) readable issued t = None \<longrightarrow> (''agent:wave-1'', m_nonce m) \<in> ds_nonces S"
      by (auto simp: tracks_def)
    with late_later [OF _ assms(2,4)] have
      "late (st_now st) gone readable issued t' = None \<longrightarrow> (''agent:wave-1'', m_nonce m) \<in> ds_nonces S" by blast
    with Some last m assms(2,5) held show ?thesis by (auto simp: tracks_def intro!: exI [of _ m])
  qed
qed

lemma tracks_idle:
  assumes "tracks C D st t used a S" "t \<le> t'" "used \<subseteq> used'"
  shows "tracks C D st t' used' a S"
proof -
  have "ds_status S = (if dm_revoked a then {st_delegation st} else {})"
    using assms(1) by (simp add: tracks_def)
  from tracks_later [OF assms(1-3) _ this] show ?thesis by simp
qed

lemma unread_decodes:
  assumes "b64_ok C" "jws_sign C enc payload key = Inr jws" "enc payload = Inr bs" "de bs = Inl e"
  shows "\<exists>e. decode_unverified C de jws = Inl e"
  using assms(1,2)
  by (rule jws_sign_parts) (simp add: decode_unverified_def assms(3,4) map_err_def b64_okD [OF assms(1)])

lemma request_arrives:
  assumes "crypto_ok C" "message_reads D got mo v"
  shows "\<exists>msg. message_issue C D (generate (st_agent st)) (mo_nonce mo) (mo_issued mo) ''agent:wave-1'' ''bank-api''
      (demo_request (mo_timestamp mo) v) = Inr msg
    \<and> arrives C D st (got v \<noteq> None) (im_jws msg) (demo_message mo (read_as got v))"
proof -
  let ?m = "demo_message mo v" and ?signer = "generate (st_agent st)"
  obtain bs where bs: "enc_message D ?m = Inr bs" "case got v of Some w \<Rightarrow> dec_message D bs = Inr (demo_message mo w)
      | None \<Rightarrow> \<exists>e. dec_message D bs = Inl e"
    using assms(2) by (auto simp: message_reads_def)
  then obtain jws where jws: "sign_payload C (enc_message D) ?signer ?m = Inr jws"
    by (auto simp: sign_payload_def jws_sign_def Let_def)
  then have msg: "message_issue C D ?signer (mo_nonce mo) (mo_issued mo) ''agent:wave-1'' ''bank-api''
      (demo_request (mo_timestamp mo) v) = Inr \<lparr>im_jws = jws, im_payload = ?m\<rparr>"
    by (simp add: message_issue_def demo_message_def)
  have "arrives C D st (got v \<noteq> None) jws (demo_message mo (read_as got v))"
  proof (cases "got v")
    case None
    with bs unread_decodes [of C "enc_message D" ?m "signer_key ?signer" jws bs "dec_message D"] jws assms(1)
    show ?thesis by (auto simp: arrives_def demo_message_def crypto_ok_def sign_payload_def)
  next
    case (Some w)
    have "jws_verify C (dec_message D) jws (agent_key C st) = Inr (demo_message mo w)"
      using jws_sign_verify [of C "dec_message D" bs _ "enc_message D" ?m "signer_key ?signer" jws] bs Some jws assms(1)
      by (simp add: agent_key_def sign_payload_def crypto_ok_def)
    with Some show ?thesis by (simp add: arrives_def demo_message_def read_as_def)
  qed
  with msg show ?thesis by auto
qed

lemma request_tracks:
  assumes "crypto_ok C" "codecs_read_back C D st got bs" "(mo, PressRequest v) \<in> set bs"
    and "tracks C D st t used a S" "st_now st \<le> t" "t \<le> mo_issued mo" "mo_issued mo \<le> mo_now mo"
    and "mo_nonce mo \<notin> used"
    and "session_request C K D mo v S = (r, S')"
  shows "says did r (Decided (verdict (st_now st) (dm_revoked a) (got v \<noteq> None) (mo_issued mo) (mo_now mo)
      (if Fin 0 \<le> read_as got v \<and> read_as got v \<le> Fin 200 then None else Some ScopeDenied)))
    \<and> tracks C D st (mo_now mo) (insert (mo_nonce mo) used) (a\<lparr>dm_last := Some (got v \<noteq> None, mo_issued mo)\<rparr>) S'"
proof -
  let ?ok = "got v \<noteq> None" and ?m = "demo_message mo (read_as got v)"
  from assms(2,3) have codec: "\<forall>r. \<exists>bs. enc_receipt D r = Inr bs"
    "reads_back (enc_delegation D) (dec_delegation D) (demo_delegation C st)" "message_reads D got mo v"
    by (auto simp: codecs_read_back_def)
  from request_arrives [OF assms(1) codec(3)] obtain msg where
    msg: "message_issue C D (generate (st_agent st)) (mo_nonce mo) (mo_issued mo) ''agent:wave-1'' ''bank-api''
      (demo_request (mo_timestamp mo) v) = Inr msg"
    and pres: "arrives C D st ?ok (im_jws msg) ?m" by blast
  have m: "m_nonce ?m = mo_nonce mo" "m_issued_at ?m = mo_issued mo"
    "m_request ?m = demo_request (mo_timestamp mo) (read_as got v)" by (simp_all add: demo_message_def)
  let ?S = "S\<lparr>ds_last_message_jws := Some (im_jws msg)\<rparr>"
  have S: "holds_delegation C D st ?S" "ds_status ?S = (if dm_revoked a then {st_delegation st} else {})"
    "(''agent:wave-1'', mo_nonce mo) \<notin> ds_nonces ?S" "ds_agent_signer S = generate (st_agent st)"
    "ds_nonces S \<subseteq> {''agent:wave-1''} \<times> used"
    using assms(4,8) by (auto simp: tracks_def holds_delegation_def)
  from msg S(4) assms(9) have run: "run_verification C K D mo (im_jws msg) ?S = (r, S')"
    by (simp add: session_request_def)
  from presentation_reply [OF assms(1) S(1) codec(1,2) pres _ _ S(2), of mo K did] m assms(5-7) S(3) run
  have "says did r (Decided (verdict (st_now st) (dm_revoked a) ?ok (mo_issued mo) (mo_now mo)
      (if Fin 0 \<le> read_as got v \<and> read_as got v \<le> Fin 200 then None else Some ScopeDenied)))"
    and S': "S' = ?S\<lparr>ds_nonces := (if late (st_now st) (dm_revoked a) ?ok (mo_issued mo) (mo_now mo) = None
         then insert (''agent:wave-1'', mo_nonce mo) (ds_nonces S) else ds_nonces S)\<rparr>"
    by (auto simp: demo_matches)
  moreover have "tracks C D st (mo_now mo) (insert (mo_nonce mo) used) (a\<lparr>dm_last := Some (?ok, mo_issued mo)\<rparr>) S'"
    unfolding tracks_def S' using S(1,2,5) pres m assms(7) by (auto simp: holds_delegation_def)
  ultimately show ?thesis by blast
qed

lemma replay_tracks:
  assumes "crypto_ok C" "codecs_read_back C D st got bs"
    and "tracks C D st t used a S" "st_now st \<le> t" "t \<le> mo_now mo"
    and "dm_last a = Some (rd, issued)" "replay_last C K D mo S = (r, S')"
  shows "says did r (Decided (verdict (st_now st) (dm_revoked a) rd issued (mo_now mo) (Some NonceReplayed)))
    \<and> S' = S"
proof -
  from assms(3,6) obtain jws m where m: "ds_last_message_jws S = Some jws" "arrives C D st rd jws m"
    "m_issued_at m = issued" "issued \<le> t"
    and seen: "late (st_now st) (dm_revoked a) rd issued t = None \<longrightarrow> (''agent:wave-1'', m_nonce m) \<in> ds_nonces S"
    and S: "holds_delegation C D st S" "ds_status S = (if dm_revoked a then {st_delegation st} else {})"
    by (auto simp: tracks_def)
  from late_later [of "st_now st" "dm_revoked a" rd issued t "mo_now mo" "dm_revoked a"] assms(5) seen
  have seen': "late (st_now st) (dm_revoked a) rd issued (mo_now mo) = None \<longrightarrow> (''agent:wave-1'', m_nonce m) \<in> ds_nonces S"
    by auto
  have codec: "\<forall>r. \<exists>bs. enc_receipt D r = Inr bs"
    "reads_back (enc_delegation D) (dec_delegation D) (demo_delegation C st)"
    using assms(2) by (auto simp: codecs_read_back_def)
  from m(1) assms(7) have run: "run_verification C K D mo jws S = (r, S')" by (simp add: replay_last_def)
  from presentation_reply [OF assms(1) S(1) codec m(2) _ _ S(2), of mo K did] m(3,4) assms(4,5) run seen'
  show ?thesis
    by (cases "late (st_now st) (dm_revoked a) rd issued (mo_now mo)") (auto simp: verdict_def insert_absorb)
qed

lemma press_tracks:
  assumes "crypto_ok C" "codecs_read_back C D st got bs" "(mo, b) \<in> set bs"
    and "tracks C D st t used a S" "st_now st \<le> t" "t \<le> mo_issued mo" "mo_issued mo \<le> mo_now mo"
    and "mo_nonce mo \<notin> used"
    and "press C K D (mo, b) S = (r, S')" "spec_press got (st_now st) (mo, b) a = (q, a')"
  shows "says (st_delegation st) r q \<and> tracks C D st (mo_now mo) (insert (mo_nonce mo) used) a' S'"
proof (cases b)
  case (PressRequest v)
  with assms(3,9) have "(mo, PressRequest v) \<in> set bs" "session_request C K D mo v S = (r, S')" by simp_all
  from request_tracks [OF assms(1,2) this(1) assms(4-8) this(2)] PressRequest assms(10) show ?thesis by auto
next
  case PressReplay
  have later: "tracks C D st (mo_now mo) (insert (mo_nonce mo) used) a S"
    by (rule tracks_idle [OF assms(4)]) (use assms(6,7) in auto)
  show ?thesis
  proof (cases "dm_last a")
    case None
    with PressReplay assms(4,9,10) later show ?thesis by (auto simp: tracks_def replay_last_def)
  next
    case (Some last)
    obtain rd issued where "last = (rd, issued)" by (cases last)
    with Some have Some: "dm_last a = Some (rd, issued)" by simp
    from PressReplay assms(9) have "replay_last C K D mo S = (r, S')" by simp
    from replay_tracks [OF assms(1,2,4,5) _ Some this] Some PressReplay assms(6,7,10) later show ?thesis by auto
  qed
next
  case PressRevoke
  have "revoke (ds_delegation_id S) (ds_status S) = {st_delegation st}" "ds_delegation_id S = st_delegation st"
    using assms(4) by (auto simp: tracks_def holds_delegation_def revoke_def)
  with PressRevoke assms(9,10) have "r = Inr (RevokedId (st_delegation st))" "q = Withdrawn"
    "S' = S\<lparr>ds_status := {st_delegation st}\<rparr>" "a' = a\<lparr>dm_revoked := True\<rparr>"
    by (simp_all add: session_revoke_def)
  moreover have "tracks C D st (mo_now mo) (insert (mo_nonce mo) used) (a\<lparr>dm_revoked := True\<rparr>)
      (S\<lparr>ds_status := {st_delegation st}\<rparr>)"
    by (rule tracks_later [OF assms(4)]) (use assms(6,7) in auto)
  ultimately show ?thesis by simp
next
  case PressSummary
  with assms(4,9,10) have "S' = S" "a' = a" "r = Inr (Summary (st_delegation st) ''create_payment, max 200 EUR'')"
    "q = Described"
    by (auto simp: delegation_summary_def tracks_def holds_delegation_def)
  moreover have "tracks C D st (mo_now mo) (insert (mo_nonce mo) used) a S"
    by (rule tracks_idle [OF assms(4)]) (use assms(6,7) in auto)
  ultimately show ?thesis by simp
qed

lemma press_all_tracks:
  assumes "crypto_ok C" "codecs_read_back C D st got all" "set bs \<subseteq> set all"
    and "tracks C D st t used a S" "st_now st \<le> t" "clock_runs t bs"
    and "distinct (map (mo_nonce \<circ> fst) bs)" "mo_nonce ` fst ` set bs \<inter> used = {}"
  shows "list_all2 (says (st_delegation st)) (fst (press_all C K D bs S)) (spec_all got (st_now st) bs a)"
  using assms(3-8)
proof (induction bs arbitrary: t used a S)
  case Nil
  then show ?case by simp
next
  case (Cons p bs)
  obtain mo b where p: "p = (mo, b)" by (cases p)
  obtain r S1 where r: "press C K D (mo, b) S = (r, S1)" by fastforce
  obtain q a1 where q: "spec_press got (st_now st) (mo, b) a = (q, a1)" by fastforce
  from Cons.prems p have "(mo, b) \<in> set all" "t \<le> mo_issued mo" "mo_issued mo \<le> mo_now mo" "mo_nonce mo \<notin> used"
    by auto
  from press_tracks [OF assms(1,2) this(1) Cons.prems(2,3) this(2-4) r q]
  have says: "says (st_delegation st) r q"
    and "tracks C D st (mo_now mo) (insert (mo_nonce mo) used) a1 S1" by simp_all
  from Cons.IH [OF _ this(2)] Cons.prems p
  have "list_all2 (says (st_delegation st)) (fst (press_all C K D bs S1)) (spec_all got (st_now st) bs a1)"
    by (auto simp: image_iff)
  with says show ?case by (simp add: p r q case_prod_unfold Let_def)
qed

text \<open>C37: Whatever buttons are pressed in the browser demo, with any amounts, a clock that
  does not go back and fresh nonces, every reply is the one of a machine of two variables:
  after the hour expired, after the revocation revoked, then an invalid signature for a
  message whose text cannot be read (a NaN or infinite amount, which serde_json writes as
  null), then stale when older than five minutes; of the rest a replayed message is always
  refused as such, and a fresh request is accepted exactly when the amount read from its
  JSON is between 0 and 200 EUR, and otherwise outside the scope. The receipt always says
  the same as the reply.\<close>
theorem demo_session_refines:
  assumes "crypto_ok C" "codecs_read_back C D st got bs"
    and "session_new C D st = Inr S"
    and "clock_runs (st_now st) bs" "distinct (map (mo_nonce \<circ> fst) bs)"
  shows "list_all2 (says (st_delegation st)) (fst (press_all C K D bs S))
    (spec_all got (st_now st) bs \<lparr>dm_revoked = False, dm_last = None\<rparr>)"
proof -
  have "tracks C D st (st_now st) {} \<lparr>dm_revoked = False, dm_last = None\<rparr> S"
    using assms(3) delegation_issue_fields(7)
    by (auto simp: session_new_def Let_def tracks_def holds_delegation_def nonce_store_new_def)
  from press_all_tracks [OF assms(1,2) subset_refl this order.refl assms(4,5)] show ?thesis by simp
qed

section \<open>The command line story\<close>

text \<open>
  While the delegation lasts and the messages are fresh, the four reports of \<open>aap-demo\<close> are:
  accepted, outside the scope, replayed, revoked.
\<close>

definition failed :: "verification_outcome \<Rightarrow> verification_failure option" where
  "failed q = (case decision q of Inl e \<Rightarrow> Some e | Inr _ \<Rightarrow> None)"

lemma delegation_issued:
  assumes "codecs_read_back C D st got bs"
  shows "\<exists>del. delegation_issue C D (generate (st_principal st)) (st_delegation st) (st_now st)
    (demo_params C (generate (st_agent st))) = Inr del"
proof -
  have "delegation_issue C D (generate (st_principal st)) (st_delegation st) (st_now st)
      (demo_params C (generate (st_agent st)))
    = rbind (sign_payload C (enc_delegation D) (generate (st_principal st)) (demo_delegation C st))
        (\<lambda>jws. Inr \<lparr>id_jws = jws, id_payload = demo_delegation C st\<rparr>)"
    by (simp add: delegation_issue_def Let_def demo_delegation_def demo_params_def)
  then show ?thesis
    using assms by (auto simp: codecs_read_back_def reads_back_def sign_payload_def jws_sign_def Let_def)
qed

definition fresh_at :: "demo_start \<Rightarrow> datetime \<Rightarrow> datetime \<Rightarrow> bool" where
  "fresh_at st issued now \<longleftrightarrow> st_now st \<le> now \<and> issued \<le> now \<and> late (st_now st) False True issued now = None"

definition asked :: "crypto \<Rightarrow> core_codec \<Rightarrow> demo_start \<Rightarrow> moment \<Rightarrow> rat \<Rightarrow> issued_agent_message \<Rightarrow> bool" where
  "asked C D st mo v msg \<longleftrightarrow> story_message C D (generate (st_agent st)) mo (Fin v) = Inr msg
     \<and> arrives C D st True (im_jws msg) (demo_message mo (Fin v))"

lemma story_message_asked:
  assumes "crypto_ok C" "codecs_read_back C D st Some bs" "(mo, PressRequest (Fin v)) \<in> set bs"
  shows "\<exists>msg. asked C D st mo v msg"
proof -
  have "message_reads D Some mo (Fin v)"
    using assms(2,3) unfolding codecs_read_back_def by blast
  from request_arrives [OF assms(1) this, of st] show ?thesis
    unfolding asked_def story_message_def by (auto simp: read_as_def)
qed

lemma story_asks:
  assumes "crypto_ok C" "codecs_read_back C D st got bs"
    and "delegation_issue C D (generate (st_principal st)) (st_delegation st) (st_now st)
      (demo_params C (generate (st_agent st))) = Inr del"
    and "asked C D st mo_i v msg" "fresh_at st (mo_issued mo_i) (mo_now mo)"
    and "revoked = (if gone then {st_delegation st} else {})"
  shows "\<exists>q. story_ask C K D st revoked del mo msg s =
      (Inr q, if gone then s else insert (''agent:wave-1'', mo_nonce mo_i) s)
    \<and> failed q = (if gone then Some Revoked
         else if (''agent:wave-1'', mo_nonce mo_i) \<in> s then Some NonceReplayed
         else if 0 \<le> v \<and> v \<le> 200 then None else Some ScopeDenied)"
proof -
  have codec: "\<forall>r. \<exists>bs. enc_receipt D r = Inr bs" "reads_back (enc_delegation D) (dec_delegation D) (id_payload del)"
    using assms(2) issued_payload [OF assms(3)] by (auto simp: codecs_read_back_def)
  let ?reg = "register ''principal:neo'' (public_jwk C (generate (st_principal st))) Map.empty"
  let ?m = "demo_message mo_i (Fin v)"
  from assms(4) have m: "arrives C D st True (im_jws msg) ?m" "m_nonce ?m = mo_nonce mo_i"
    "m_issued_at ?m = mo_issued mo_i" "m_request ?m = demo_request (mo_timestamp mo_i) (Fin v)"
    by (simp_all add: asked_def demo_message_def)
  have times: "m_issued_at ?m \<le> mo_now mo" "st_now st \<le> mo_now mo"
    "late (st_now st) gone True (mo_issued mo_i) (mo_now mo) = (if gone then Some Revoked else None)"
    using assms(5) m(3) by (auto simp: fresh_at_def late_def split: if_splits)
  from bank_decides [OF assms(1,3) codec(2) m(1) times(1,2) refl assms(6), of K "generate (st_receipt st)" s] obtain d where
    d: "verify_inner C K D (bank C D ?reg revoked (generate (st_receipt st))) [id_jws del] (im_jws msg) (mo_now mo) s =
      (d, if gone then s else insert (''agent:wave-1'', mo_nonce mo_i) s)"
    and v: "(case d of Inl e \<Rightarrow> Some e | Inr _ \<Rightarrow> None) = (if gone then Some Revoked
         else if (''agent:wave-1'', mo_nonce mo_i) \<in> s then Some NonceReplayed
         else if 0 \<le> v \<and> v \<le> 200 then None else Some ScopeDenied)"
    unfolding m(2-4) times(3) verdict_def demo_matches by (auto split: if_splits)
  from verify_at_says [OF d codec(1), of "mo_receipt mo" "st_delegation st"] v show ?thesis
    by (auto simp: story_ask_def failed_def)
qed

lemma demo_story:
  assumes "crypto_ok C"
    and codec: "codecs_read_back C D st Some [(mo_a, PressRequest (Fin 150)), (mo_b, PressRequest (Fin 5000)),
      (mo_d, PressRequest (Fin 50))]"
    and fresh: "fresh_at st (mo_issued mo_a) (mo_now mo_a)" "fresh_at st (mo_issued mo_b) (mo_now mo_b)"
      "fresh_at st (mo_issued mo_a) (mo_now mo_c)" "fresh_at st (mo_issued mo_d) (mo_now mo_d)"
    and nonces: "mo_nonce mo_b \<noteq> mo_nonce mo_a"
  shows "\<exists>outs. demo_main C K D st mo_a mo_b mo_c mo_d = Inr outs
    \<and> map failed outs = [None, Some ScopeDenied, Some NonceReplayed, Some Revoked]"
proof -
  let ?n = "\<lambda>mo. (''agent:wave-1'', mo_nonce mo)"
  obtain del where del: "delegation_issue C D (generate (st_principal st)) (st_delegation st) (st_now st)
      (demo_params C (generate (st_agent st))) = Inr del" using delegation_issued [OF codec] by blast
  obtain msg_a where a: "asked C D st mo_a 150 msg_a" using story_message_asked [OF assms(1) codec] by fastforce
  obtain msg_b where b: "asked C D st mo_b 5000 msg_b" using story_message_asked [OF assms(1) codec] by fastforce
  obtain msg_d where d: "asked C D st mo_d 50 msg_d" using story_message_asked [OF assms(1) codec] by fastforce
  note asks = story_asks [OF assms(1) codec del]
  obtain out_a where out_a: "story_ask C K D st {} del mo_a msg_a nonce_store_new = (Inr out_a, {?n mo_a})"
    "failed out_a = None"
    using asks [OF a fresh(1), of "{}" False K nonce_store_new] by (auto simp: nonce_store_new_def)
  obtain out_b where out_b: "story_ask C K D st {} del mo_b msg_b {?n mo_a} = (Inr out_b, {?n mo_b, ?n mo_a})"
    "failed out_b = Some ScopeDenied"
    using asks [OF b fresh(2), of "{}" False K "{?n mo_a}"] nonces by auto
  obtain out_c where out_c: "story_ask C K D st {} del mo_c msg_a {?n mo_b, ?n mo_a} = (Inr out_c, {?n mo_b, ?n mo_a})"
    "failed out_c = Some NonceReplayed"
    using asks [OF a fresh(3), of "{}" False K "{?n mo_b, ?n mo_a}"] by (auto simp: insert_absorb)
  obtain out_d where out_d: "story_ask C K D st {st_delegation st} del mo_d msg_d {?n mo_b, ?n mo_a}
      = (Inr out_d, {?n mo_b, ?n mo_a})" "failed out_d = Some Revoked"
    using asks [OF d fresh(4), of "{st_delegation st}" True K "{?n mo_b, ?n mo_a}"] by auto
  from a b d have "story_message C D (generate (st_agent st)) mo_a (Fin 150) = Inr msg_a"
    "story_message C D (generate (st_agent st)) mo_b (Fin 5000) = Inr msg_b"
    "story_message C D (generate (st_agent st)) mo_d (Fin 50) = Inr msg_d" by (simp_all add: asked_def)
  then have "demo_main C K D st mo_a mo_b mo_c mo_d = Inr [out_a, out_b, out_c, out_d]"
    by (simp add: demo_main_def Let_def del out_a(1) out_b(1) out_c(1) out_d(1) revoke_def delegation_issue_fields(7) [OF del])
  with out_a(2) out_b(2) out_c(2) out_d(2) show ?thesis by simp
qed

end
