(* ===== verification/DemoToy.thy ===== *)
theory DemoToy
  imports DemoFlow
begin

text \<open>
  One browser session, with the toy cryptography and codecs that number their payloads and
  read no message whose amount is not finite: a request, its replay, a request of an
  infinite amount, the revocation, and one more request.
\<close>

section \<open>Codecs\<close>

instance principal_type :: countable by countable_datatype

definition jwk_parts :: "public_key_jwk \<Rightarrow> string \<times> string \<times> string \<times> string option" where
  "jwk_parts k = (kty k, crv k, jwk_x k, jwk_y k)"

definition jwk_of :: "string \<times> string \<times> string \<times> string option \<Rightarrow> public_key_jwk" where
  "jwk_of = (\<lambda>(t, c, x, y). \<lparr>kty = t, crv = c, jwk_x = x, jwk_y = y\<rparr>)"

definition delegation_parts where
  "delegation_parts d = ((delegation_id d, principal_id d, principal_type_of d, d_agent_id d,
     jwk_parts (agent_public_key d)), (valid_from d, valid_until d, status_endpoint d, can_delegate d),
     (map_option uint (max_delegation_depth d), parent_delegation_id d, d_issued_at d, d_metadata d))"

definition delegation_of where
  "delegation_of = (\<lambda>((i, p, ty, a, k), (vf, vu, ep, can), (depth, parent, iat, meta)).
     \<lparr>delegation_id = i, principal_id = p, principal_type_of = ty, d_agent_id = a,
      agent_public_key = jwk_of k, d_scope = p_scope (demo_params core_crypto (generate [])),
      valid_from = vf, valid_until = vu, status_endpoint = ep, can_delegate = can,
      max_delegation_depth = map_option word_of_int depth, parent_delegation_id = parent,
      d_issued_at = iat, d_metadata = meta\<rparr>)"

definition message_parts where
  "message_parts m = ((m_agent_id m, m_audience m, m_nonce m, m_issued_at m), (r_action (m_request m),
     r_resource (m_request m), map_option (\<lambda>a. (a_value a, a_currency a)) (r_amount (m_request m)),
     r_counterparty (m_request m)), r_data_categories (m_request m), r_timestamp (m_request m))"

definition message_of where
  "message_of = (\<lambda>((a, aud, n, iat), (act, res, amt, cp), cats, ts).
     \<lparr>m_agent_id = a, m_audience = aud, m_nonce = n, m_issued_at = iat, m_request =
        \<lparr>r_action = act, r_resource = res,
         r_amount = map_option (\<lambda>(v, c). \<lparr>a_value = v, a_currency = c\<rparr>) amt,
         r_counterparty = cp, r_data_categories = cats, r_timestamp = ts\<rparr>\<rparr>)"

definition numbering_codec :: core_codec where
  "numbering_codec = \<lparr>
     enc_delegation = (\<lambda>d. Inr (replicate (to_nat (delegation_parts d)) CHR ''1'')),
     dec_delegation = (\<lambda>bs. Inr (delegation_of (from_nat (length bs)))),
     enc_message = (\<lambda>m. Inr (replicate (to_nat (message_parts m)) CHR ''1'')),
     dec_message = (\<lambda>bs. let m = message_of (from_nat (length bs)) in
        if (case r_amount (m_request m) of None \<Rightarrow> True | Some a \<Rightarrow> f64_finite (a_value a)) then Inr m
        else Inl [Lit ''invalid type: null, expected f64'']),
     enc_receipt = (\<lambda>r. Inr (receipt_id r))\<rparr>"

lemma message_of_parts: "message_of (message_parts m) = m"
  by (cases "r_amount (m_request m)") (simp_all add: message_of_def message_parts_def)

lemma delegation_of_parts:
  "d_scope d = p_scope (demo_params C k) \<Longrightarrow> delegation_of (delegation_parts d) = d"
  by (simp add: delegation_of_def delegation_parts_def jwk_of_def jwk_parts_def demo_params_def
    option.map_comp comp_def option.map_ident)

definition finite_amount :: "f64 \<Rightarrow> f64 option" where
  "finite_amount v = (if f64_finite v then Some v else None)"

lemma numbering_message_reads: "message_reads numbering_codec finite_amount mo v"
  by (simp add: message_reads_def numbering_codec_def message_of_parts finite_amount_def Let_def
    demo_message_def demo_request_def euros_def)

lemma numbering_reads_back: "codecs_read_back C numbering_codec st finite_amount bs"
  using delegation_of_parts [of "demo_delegation C st" C "generate (st_agent st)"] numbering_message_reads
  by (simp add: codecs_read_back_def reads_back_def numbering_codec_def demo_delegation_def)

section \<open>A session\<close>

definition toy_start :: demo_start where
  "toy_start = \<lparr>st_principal = ''p'', st_agent = ''a'', st_receipt = ''r'', st_delegation = ''d1'', st_now = 0\<rparr>"

definition toy_moment :: "datetime \<Rightarrow> string \<Rightarrow> moment" where
  "toy_moment t n = \<lparr>mo_timestamp = t, mo_issued = t, mo_now = t, mo_nonce = n, mo_receipt = n\<rparr>"

definition toy_presses :: "(moment \<times> button) list" where
  "toy_presses = [(toy_moment 1 ''n1'', PressRequest (Fin 50)), (toy_moment 2 ''n2'', PressReplay),
     (toy_moment 2 ''nan'', PressRequest PInf), (toy_moment 3 ''n3'', PressRevoke), (toy_moment 4 ''n4'', PressRequest (Fin 50))]"

theorem demo_session_refines_witness:
  "\<exists>S. session_new core_crypto numbering_codec toy_start = Inr S
     \<and> list_all2 (says ''d1'') (fst (press_all core_crypto monday_1115 numbering_codec toy_presses S))
         [Decided None, Decided (Some NonceReplayed), Decided (Some InvalidAgentSignature), Withdrawn, Decided (Some Revoked)]"
proof -
  obtain S where S: "session_new core_crypto numbering_codec toy_start = Inr S"
    using delegation_issued [OF numbering_reads_back [of core_crypto toy_start "[]"]]
    by (auto simp: session_new_def Let_def)
  have ok: "crypto_ok core_crypto" by (simp add: crypto_ok_def core_crypto_ok)
  have runs: "clock_runs (st_now toy_start) toy_presses" "distinct (map (mo_nonce \<circ> fst) toy_presses)"
    "st_delegation toy_start = ''d1''" "st_now toy_start = 0"
    by (simp_all add: toy_start_def toy_presses_def toy_moment_def)
  have spec: "spec_all finite_amount 0 toy_presses \<lparr>dm_revoked = False, dm_last = None\<rparr>
      = [Decided None, Decided (Some NonceReplayed), Decided (Some InvalidAgentSignature), Withdrawn, Decided (Some Revoked)]"
    by (simp add: toy_presses_def toy_moment_def verdict_def late_def seconds_def finite_amount_def read_as_def)
  from demo_session_refines [OF ok numbering_reads_back S runs(1,2), of monday_1115] S show ?thesis
    unfolding runs(3,4) spec by blast
qed

end
