(* ===== verification/Spec2Isabelle.thy ===== *)
theory Spec2Isabelle
  imports CoreFlow SdPointer AuthReplay IssuerServeToy VerifierToy AdminToy DemoToy
begin

text \<open>
  A verification development for the Agent Authority Protocol: a principal delegates bounded
  authority to a software agent, the agent signs what it asks for, and a verifier decides
  whether the signed request is inside the authority it was given. The repository holds two
  generations of that idea and the services around it. \<open>aap-core\<close> (src/crates/core) is the
  first: delegations and messages as compact JWS, a scope per delegation, chains of
  sub-delegations. \<open>aap-authority\<close> (src/crates/authority) is the second: mandates carried in
  chains of SD-JWTs, whose format, signing and selective disclosure are \<open>aap-sdjwt\<close>
  (src/crates/sdjwt). Two services sit around them, each over a Postgres database:
  \<open>aap-verifier-service\<close> (src/crates/verifier-service) answers requests of the first
  generation, \<open>aap-issuer-service\<close> (src/crates/issuer-service) enrolls the devices whose keys
  sign mandates, over Apple App Attest evidence. The principal's own tool is \<open>aap-admin\<close>
  (src/crates/admin-cli): it holds the key and signs the delegations of the first generation.

  \<^bold>\<open>Foundations.\<close> \<open>Prelude\<close> names the machine types, Rust's \<open>Result\<close> as a sum type
  with its combinators, and the string functions of the standard library; \<open>F64\<close> is the
  IEEE double the amounts of the first generation are compared in; \<open>Json\<close> is
  serde\_json's \<open>Value\<close>. \<open>External\<close> and \<open>IssuerLib\<close> gather the functions of third-party
  crates as parameters (base64, JSON text, hashes, signatures, calendar; CBOR and
  certificates), the hypotheses that state their documented behaviour, and one concrete
  instance on which every property with such a hypothesis is exercised. JSON text is assumed
  to read back only where \<open>serde_json\<close> does so: values of \<open>json_fits 127\<close>, at most 127 levels
  deep (its recursion limit is 128) and without floating-point numbers. \<open>StdText\<close> is what the
  services use of the standard library on text (\<open>trim\<close>, number and address parsers), and
  \<open>Database\<close> a client's connection to tables of any type, on which any call may fail or take
  effect while its answer is lost.

  \<^bold>\<open>aap-core.\<close> \<open>CoreTypes\<close> (types.rs), \<open>CoreScope\<close> (scope.rs), \<open>CoreJws\<close> (keys.rs,
  jws.rs, token.rs, signer.rs), \<open>CoreVerifier\<close> (verifier.rs, delegation.rs, message.rs,
  receipt.rs and the in-memory registry, status and replay stores) and \<open>CoreFlow\<close>, where
  chains, scopes and the replay store meet: scope matching is stated over sets, bounds and
  the local clock, acceptance is exactly the trust-chain
  specification, honest requests are accepted, no pair of agent and nonce is accepted twice.
  \<open>Narrowing\<close> is the interface between scopes and chains, a locale whose one law says that
  an accepted narrowing admits nothing new.

  \<^bold>\<open>aap-sdjwt.\<close> \<open>SdJose\<close> (error.rs, hash.rs, keys.rs, jws.rs), \<open>SdProcess\<close> (disclosure.rs,
  pointer.rs, process.rs) with \<open>SdProcessFacts\<close> and \<open>SdPointer\<close>, \<open>SdPresentation\<close>
  (sdjwt.rs), \<open>SdVerify\<close> (verify.rs) with \<open>SdChain\<close>, \<open>SdIssue\<close> (conceal.rs and the
  builders) with \<open>SdFlow\<close> and \<open>SdLink\<close>. The walker that expands disclosures carries fuel:
  \<open>walk_fuel_for\<close> derives from payload and disclosures a number that
  \<open>process_ends_within_fuel\<close> proves sufficient for every input.

  \<^bold>\<open>aap-authority.\<close> \<open>AuthSchema\<close> (names.rs, amount.rs, schema.rs), \<open>AuthTime\<close>
  (time\_window.rs), \<open>AuthConstraint\<close> (constraint/), \<open>AuthMandate\<close> (mandate.rs,
  context.rs), \<open>AuthFlow\<close>, \<open>AuthMaxFlow\<close> and \<open>AuthLineItems\<close> (the assignment of cart
  items to requirements by maximum flow; the augmentation loop carries the capacity out of
  the source as fuel, which is enough because every round adds at least one), \<open>AuthEvaluate\<close>
  and \<open>AuthNarrow\<close> (evaluate.rs), \<open>AuthPermit\<close>, what an open mandate permits stated without
  the evaluators for all seventeen constraint types, \<open>AuthVerifier\<close> (verifier.rs, status.rs, nonce.rs,
  receipt.rs) with its declarative specification in \<open>AuthAuthorize\<close>, receipts in
  \<open>AuthOutcome\<close>, honest flows in \<open>AuthHonest\<close> and the replay store, an interface with the
  code's in-memory store as its interpretation, in \<open>AuthReplay\<close>.

  \<^bold>\<open>aap-issuer-service.\<close> \<open>IssuerConfig\<close> (config.rs, error.rs), \<open>IssuerRateLimit\<close>
  (ratelimit.rs), \<open>IssuerAttest\<close> (jwk.rs, appattest.rs) with the content of accepted
  evidence in \<open>IssuerAuthData\<close>, \<open>IssuerDb\<close> (the tables and SQL statements),
  \<open>IssuerService\<close> (service.rs),
  \<open>IssuerSteps\<close>, the state machine of the changes the service may commit, \<open>IssuerEffects\<close>
  (what each operation commits and answers), \<open>IssuerFlow\<close> (sequences of calls refine the
  machine) and \<open>IssuerTrust\<close> (what rows, answers and flags stand for). Around the service,
  \<open>IssuerMigrate\<close> (migrate.rs) applies the schema, with \<open>IssuerSchema\<close> showing that any
  run, however it is cut off, leaves the history extended by a prefix of what was pending,
  and \<open>IssuerHttp\<close> (http.rs, main.rs) is the routes, the limits per client, the handlers and
  the start-up, whose runs are again runs of the machine of \<open>IssuerSteps\<close>. \<open>IssuerToy\<close> and
  \<open>IssuerServeToy\<close> hold the deployment on which these properties are exercised.

  \<^bold>\<open>aap-verifier-service.\<close> \<open>VerifierDb\<close> (db.rs), \<open>VerifierService\<close> (main.rs: start-up
  settings, the caller's secret, both handlers), \<open>VerifierFlow\<close> (the prefetched adapters
  decide what the trust chain of \<open>CoreFlow\<close> says over the service's tables),
  \<open>VerifierReplay\<close> (calls, pruning ticks and table changes in any order: a message is
  accepted once, because the retention of nonces exceeds the freshness window by a minute
  and the two clocks are assumed to differ by at most half of it), \<open>VerifierTrust\<close>
  (receipts, pairing, and the nonces that unverified messages spend) and \<open>VerifierToy\<close>, the
  deployment these properties are exercised on. A handler runs without interleaving; the
  one statement that decides a replay is atomic in the code as in the model.

  \<^bold>\<open>aap-admin.\<close> \<open>AdminKeystore\<close> (keystore.rs) also holds the machine a command runs on:
  files with their modes, the terminal with what will be typed, what is printed and on which
  of standard output, standard error and the terminal, the remote server, and disk
  operations that may fail or stop in the middle of a file; a command ends with a value, an
  exit code or a panic. \<open>AdminServer\<close> (server.rs) is the client of the pairing server, \<open>AdminCli\<close> (main.rs)
  the four commands, \<open>AdminFacts\<close> what they do to the files and what was printed and typed
  before (not who read or typed it), \<open>AdminToy\<close> the machine these properties are exercised on.

  \<^bold>\<open>The demonstrations.\<close> \<open>Demo\<close> is the browser session (src/crates/wasm-demo) and the
  command line story (src/crates/demo-cli). \<open>DemoFlow\<close> composes issuing, verifying, replaying
  and revoking with the libraries of the first generation: any sequence of pressed buttons
  is answered as by a machine of two variables, for amounts that are no number too, which
  JSON carries as null and the verifier cannot read; the story ends as it says (\<open>demo_story\<close>);
  \<open>DemoToy\<close> is one session.

  \<^bold>\<open>Conventions.\<close> A Rust string is the list of its UTF-8 bytes; error texts are lists of
  fragments, so that \<open>format!\<close> stays symbolic. Integers that can wrap or saturate are
  words; \<open>i64\<close> instants are integers with the wrap-around of the release build written out
  (\<open>i64_wrap\<close>); amounts and flows of the second generation are naturals, as \<open>u128\<close> sums of
  at most a few thousand \<open>u64\<close> values cannot overflow. A mutex is a sequence of calls.

  \<^bold>\<open>Not modelled.\<close> Third-party crates (parameters, as above); the JSON decoders serde
  derives (parameters); the parsing of command lines; logging; HTTP framing and sockets, time
  limits and connection pools; the interleaving of two handlers between the statements of
  one of them: no other request runs between the select of a device (service.rs, line 390)
  and the conditional UPDATE of its counter (line 443), which the code has for that race.
\<close>

end
